(* ===== verification/Prelude.thy ===== *)
theory Prelude
  imports Complex_Main "HOL-Library.Word"
begin

text \<open>
  Shared vocabulary of the development: the collections of rewrite rules that the component
  theories extend, the type names used everywhere (buffer bytes, PCM samples, milliseconds),
  and the generic facts on lists, maps and options that several components need.
\<close>

unbundle bit_operations_syntax

text \<open>
  \<open>js_eval\<close> collects the equations that let the simplifier evaluate a ground model term;
  \<open>len_simps\<close> collects length laws of buffers and sample arrays; \<open>range_simps\<close>
  collects bounds on samples; \<open>inv_intros\<close> collects preservation rules of the component
  invariants.
\<close>

named_theorems js_eval
named_theorems len_simps
named_theorems range_simps
named_theorems inv_intros

type_synonym byte = "8 word"
type_synonym bytes = "8 word list"
type_synonym pcm = "int list"
type_synonym msec = int

subsection \<open>Chunked streaming\<close>

text \<open>
  A streaming component is a function from a state and one input item to a new state and the
  items it emits. Running it over a list concatenates what it emits; feeding the list in two
  chunks is the same as feeding it at once.
\<close>

fun run_stream :: "('s \<Rightarrow> 'a \<Rightarrow> 's \<times> 'b list) \<Rightarrow> 's \<Rightarrow> 'a list \<Rightarrow> 's \<times> 'b list" where
  "run_stream f s [] = (s, [])"
| "run_stream f s (x # xs) =
     (let (s1, ys) = f s x; (s2, zs) = run_stream f s1 xs in (s2, ys @ zs))"

lemma run_stream_append:
  "run_stream f s (xs @ ys) =
     (let (s1, o1) = run_stream f s xs; (s2, o2) = run_stream f s1 ys in (s2, o1 @ o2))"
  by (induction xs arbitrary: s) (auto simp: Let_def split: prod.splits)

lemma run_stream_inv:
  assumes "P s" and "\<And>s x. P s \<Longrightarrow> x \<in> set xs \<Longrightarrow> P (fst (f s x))"
  shows "P (fst (run_stream f s xs))"
  using assms
proof (induction xs arbitrary: s)
  case Nil
  then show ?case by simp
next
  case (Cons x xs)
  have "P (fst (f s x))" using Cons.prems by simp
  then have "P (fst (run_stream f (fst (f s x)) xs))"
    using Cons.prems(2) by (intro Cons.IH) auto
  then show ?case by (auto simp: Let_def split: prod.splits)
qed

lemma run_stream_emits:
  assumes "P s" and "\<And>s x. P s \<Longrightarrow> x \<in> set xs \<Longrightarrow> P (fst (f s x))"
    and "\<And>s x y. P s \<Longrightarrow> x \<in> set xs \<Longrightarrow> y \<in> set (snd (f s x)) \<Longrightarrow> Q y"
    and "y \<in> set (snd (run_stream f s xs))"
  shows "Q y"
  using assms
proof (induction xs arbitrary: s)
  case Nil
  then show ?case by simp
next
  case (Cons x xs)
  obtain s1 ys where 1: "f s x = (s1, ys)" by (cases "f s x")
  obtain s2 zs where 2: "run_stream f s1 xs = (s2, zs)" by (cases "run_stream f s1 xs")
  from Cons.prems(4) 1 2 have "y \<in> set ys \<or> y \<in> set zs" by (simp add: Let_def)
  then show ?case
  proof
    assume "y \<in> set ys"
    then show ?thesis using Cons.prems(1) Cons.prems(3)[of s x y] 1 by simp
  next
    assume "y \<in> set zs"
    moreover have "P s1" using Cons.prems(1) Cons.prems(2)[of s x] 1 by simp
    ultimately show ?thesis
      using Cons.prems(2,3) 2
      by (intro Cons.IH[of s1]) (auto intro: Cons.prems(2,3))
  qed
qed

lemma run_stream_length:
  assumes "\<And>s x. length (snd (f s x)) = k"
  shows "length (snd (run_stream f s xs)) = k * length xs"
  using assms by (induction xs arbitrary: s) (auto simp: Let_def split: prod.splits, metis snd_conv)

lemma run_stream_concat:
  "run_stream (run_stream f) s xss = run_stream f s (concat xss)"
  by (induction xss arbitrary: s) (auto simp: run_stream_append Let_def split: prod.splits)

lemma run_stream_map: "run_stream f s (map g xs) = run_stream (\<lambda>s x. f s (g x)) s xs"
  by (induction xs arbitrary: s) (auto simp: Let_def split: prod.splits)

subsection \<open>Bytes\<close>

lemma unat_byte_less [simp]: "unat (b :: byte) < 256"
  using unsigned_less[of b, where 'a = nat] by simp

lemma uint_byte_less [simp]: "uint (b :: byte) < 256"
  using unsigned_less[of b, where 'a = int] by simp

lemma uint_byte_range: "uint (b :: byte) \<in> {0..<256}"
  by simp

lemma uint_word_of_int_byte [simp]:
  "0 \<le> n \<Longrightarrow> n < 256 \<Longrightarrow> uint (word_of_int n :: byte) = n"
  by (simp add: unsigned_of_int take_bit_int_eq_self)

lemma nth_map_upto: "int n \<le> m \<Longrightarrow> map f [0..m] ! n = f (int n)"
  by (simp add: nth_upto)

subsection \<open>Association-list tables\<close>

text \<open>
  A database table is a list of rows; an \<open>UPDATE ... WHERE\<close> maps the rows that satisfy the
  condition and keeps the others.
\<close>

definition update_where :: "('r \<Rightarrow> bool) \<Rightarrow> ('r \<Rightarrow> 'r) \<Rightarrow> 'r list \<Rightarrow> 'r list" where
  "update_where p f rs = map (\<lambda>r. if p r then f r else r) rs"

lemma length_update_where [simp, len_simps]: "length (update_where p f rs) = length rs"
  by (simp add: update_where_def)

lemma update_where_Nil [simp]: "update_where p f [] = []"
  by (simp add: update_where_def)

lemma update_where_Cons [simp]:
  "update_where p f (r # rs) = (if p r then f r else r) # update_where p f rs"
  by (simp add: update_where_def)

lemma in_set_update_where:
  "r \<in> set (update_where p f rs) \<longleftrightarrow> (\<exists>q \<in> set rs. r = (if p q then f q else q))"
  by (auto simp: update_where_def)

lemma update_where_mem: "q \<in> set rs \<Longrightarrow> (if p q then f q else q) \<in> set (update_where p f rs)"
  by (auto simp: in_set_update_where)

lemma map_update_where_key [simp]:
  "(\<And>r. k (f r) = k r) \<Longrightarrow> map k (update_where p f rs) = map k rs"
  by (simp add: update_where_def)

lemma find_update_where:
  assumes "\<And>r. k (f r) = k r"
  shows "find (\<lambda>r. k r = i) (update_where (\<lambda>r. k r = j) f rs) =
    (if i = j then map_option f (find (\<lambda>r. k r = i) rs) else find (\<lambda>r. k r = i) rs)"
  using assms by (induction rs) auto

lemma find_SomeD: "find P xs = Some x \<Longrightarrow> x \<in> set xs \<and> P x"
  by (induction xs) (auto split: if_splits)

lemma find_map_key: "find (\<lambda>r. k r = i) rs = None \<longleftrightarrow> i \<notin> k ` set rs"
  by (induction rs) auto

end
