(* ===== verification/G711.thy ===== *)
theory G711
  imports Prelude
begin

text \<open>
  G.711 companding of the voice gateway (\<open>apps/voice-gateway/src/realtime/audio.ts\<close>, lines
  1-79): the two decode tables, the two sample encoders and the buffer codecs built on them.
  JavaScript's bitwise operators act on 32-bit integers; every value here lies well inside that
  range, so the two's complement operators on \<open>int\<close> agree with them.
\<close>

subsection \<open>Tables and encoders\<close>

definition MULAW_BIAS :: int where "MULAW_BIAS = 0x84"
definition MULAW_CLIP :: int where "MULAW_CLIP = 32635"

definition mulaw_decode_entry :: "int \<Rightarrow> int" where
  "mulaw_decode_entry i =
     (let u = NOT i AND 0xff;
          sign = (if u AND 0x80 \<noteq> 0 then -1 else 1);
          exponent = drop_bit 4 u AND 0x07;
          mantissa = u AND 0x0f;
          sample = push_bit (nat exponent) (push_bit 3 mantissa + MULAW_BIAS) - MULAW_BIAS
      in sign * sample)"

definition MULAW_DECODE :: "int list" where
  "MULAW_DECODE = map mulaw_decode_entry [0..255]"

definition alaw_decode_entry :: "int \<Rightarrow> int" where
  "alaw_decode_entry i =
     (let a = i XOR 0x55;
          sign = a AND 0x80;
          exponent = drop_bit 4 (a AND 0x70);
          data = push_bit 4 (a AND 0x0f) + 8;
          data = (if exponent \<noteq> 0 then data + 0x100 else data);
          data = (if 1 < exponent then push_bit (nat (exponent - 1)) data else data)
      in if sign \<noteq> 0 then - data else data)"

definition ALAW_DECODE :: "int list" where
  "ALAW_DECODE = map alaw_decode_entry [0..255]"

datatype g711_codec = Pcmu | Pcma

text \<open>The segment search, the empty-bodied \<open>for\<close> loop of both encoders.\<close>

fun seg_search :: "int \<Rightarrow> int \<Rightarrow> nat \<Rightarrow> nat" where
  "seg_search sample expMask 0 = 0"
| "seg_search sample expMask (Suc e) =
     (if sample AND expMask = 0 then seg_search sample (drop_bit 1 expMask) e else Suc e)"

definition linearToMulaw :: "int \<Rightarrow> int" where
  "linearToMulaw sample =
     (let sign = (if sample < 0 then 0x80 else 0);
          sample = (if sample < 0 then - sample else sample);
          sample = (if MULAW_CLIP < sample then MULAW_CLIP else sample);
          sample = sample + MULAW_BIAS;
          exponent = seg_search sample 0x4000 7;
          mantissa = drop_bit (exponent + 3) sample AND 0x0f
      in NOT (sign OR push_bit 4 (int exponent) OR mantissa) AND 0xff)"

definition linearToAlaw :: "int \<Rightarrow> int" where
  "linearToAlaw sample =
     (let sign = drop_bit 8 sample AND 0x80;
          sample = (if sign \<noteq> 0 then - sample else sample);
          sample = (if 0x7fff < sample then 0x7fff else sample);
          exponent = seg_search sample 0x4000 7;
          mantissa = drop_bit (if exponent = 0 then 4 else exponent + 3) sample AND 0x0f;
          alaw = sign OR push_bit 4 (int exponent) OR mantissa
      in alaw XOR 0x55)"

subsection \<open>Buffer codecs\<close>

definition decodeMulaw :: "bytes \<Rightarrow> pcm" where
  "decodeMulaw buf = map (\<lambda>b. MULAW_DECODE ! unat b) buf"

definition encodeMulaw :: "pcm \<Rightarrow> bytes" where
  "encodeMulaw pcm = map (\<lambda>s. word_of_int (linearToMulaw s)) pcm"

definition decodeAlaw :: "bytes \<Rightarrow> pcm" where
  "decodeAlaw buf = map (\<lambda>b. ALAW_DECODE ! unat b) buf"

definition encodeAlaw :: "pcm \<Rightarrow> bytes" where
  "encodeAlaw pcm = map (\<lambda>s. word_of_int (linearToAlaw s)) pcm"

lemma mulaw_table [simp]: "MULAW_DECODE ! unat (b :: byte) = mulaw_decode_entry (uint b)"
  unfolding MULAW_DECODE_def uint_nat
  by (rule nth_map_upto) (use unat_byte_less[of b] in linarith)

lemma alaw_table [simp]: "ALAW_DECODE ! unat (b :: byte) = alaw_decode_entry (uint b)"
  unfolding ALAW_DECODE_def uint_nat
  by (rule nth_map_upto) (use unat_byte_less[of b] in linarith)

subsection \<open>The segment search\<close>

lemma and_pow2: "(a::int) AND 2 ^ k = of_bool (bit a k) * 2 ^ k"
  by (rule bit_eqI) (auto simp: bit_simps)

lemma and_pow2_zero:
  assumes "0 \<le> (s::int)" and "s < 2 ^ Suc k"
  shows "s AND 2 ^ k = 0 \<longleftrightarrow> s < 2 ^ k"
proof -
  have "s AND 2 ^ k = 0 \<longleftrightarrow> \<not> bit s k" by (simp add: and_pow2)
  also have "\<dots> \<longleftrightarrow> even (s div 2 ^ k)" by (simp add: bit_iff_odd)
  also have "\<dots> \<longleftrightarrow> s < 2 ^ k"
  proof (cases "s < 2 ^ k")
    case True
    then show ?thesis using assms(1) by simp
  next
    case False
    have "s div 2 ^ k = 1"
    proof (rule int_div_pos_eq[of _ _ _ "s - 2 ^ k"])
      show "s = 2 ^ k * 1 + (s - 2 ^ k)" by simp
      show "0 \<le> s - 2 ^ k" using False by simp
      show "s - 2 ^ k < 2 ^ k" using assms(2) by simp
    qed
    then show ?thesis using False by simp
  qed
  finally show ?thesis .
qed

lemma seg_search_spec:
  assumes "0 \<le> s" and "s < 2 ^ (e + 8)"
  shows "seg_search s (2 ^ (e + 7)) e \<le> e
       \<and> s < 2 ^ (seg_search s (2 ^ (e + 7)) e + 8)
       \<and> (0 < seg_search s (2 ^ (e + 7)) e \<longrightarrow> 2 ^ (seg_search s (2 ^ (e + 7)) e + 7) \<le> s)"
  using assms(2)
proof (induction e)
  case 0
  then show ?case by simp
next
  case (Suc e)
  have "(2::int) ^ (Suc e + 7) = 2 * 2 ^ (e + 7)"
    by (simp only: add_Suc power_Suc)
  then have half: "drop_bit 1 ((2::int) ^ (Suc e + 7)) = 2 ^ (e + 7)"
    by (simp only: drop_bit_eq_div power_one_right)
  have z: "s AND 2 ^ (Suc e + 7) = 0 \<longleftrightarrow> s < 2 ^ (Suc e + 7)"
    by (rule and_pow2_zero) (use assms(1) Suc.prems in simp_all)
  show ?case
  proof (cases "s < 2 ^ (Suc e + 7)")
    case True
    then have eq: "seg_search s (2 ^ (Suc e + 7)) (Suc e) = seg_search s (2 ^ (e + 7)) e"
      using z half by simp
    have "s < 2 ^ (e + 8)" using True by (simp add: add.commute)
    from Suc.IH[OF this] show ?thesis unfolding eq by auto
  next
    case False
    then have "seg_search s (2 ^ (Suc e + 7)) (Suc e) = Suc e" using z by simp
    with False Suc.prems show ?thesis by simp
  qed
qed

text \<open>The eight segments: the search returns the one that holds the sample.\<close>

lemma seg_search_cases:
  assumes "0 \<le> s" and "s < 32768"
  obtains e where "seg_search s 0x4000 7 = e" "e \<in> {0, 1, 2, 3, 4, 5, 6, 7}"
    "s < 2 ^ (e + 8)" "e = 0 \<or> 2 ^ (e + 7) \<le> s"
proof -
  define e where "e = seg_search s 0x4000 7"
  have e: "e \<le> 7 \<and> s < 2 ^ (e + 8) \<and> (0 < e \<longrightarrow> 2 ^ (e + 7) \<le> s)"
    using seg_search_spec[of s 7] assms by (simp add: e_def)
  show ?thesis
  proof (rule that)
    show "seg_search s 0x4000 7 = e" by (simp add: e_def)
    show "e \<in> {0, 1, 2, 3, 4, 5, 6, 7}" using e by auto
    show "s < 2 ^ (e + 8)" using e by blast
    show "e = 0 \<or> 2 ^ (e + 7) \<le> s" using e by auto
  qed
qed

subsection \<open>The code words\<close>

text \<open>
  A code word packs a sign bit, a 3-bit segment and a 4-bit mantissa. The 256 combinations are
  checked by evaluation; everything else is arithmetic on the segment.
\<close>

definition all_codes :: "(int \<Rightarrow> nat \<Rightarrow> int \<Rightarrow> bool) \<Rightarrow> bool" where
  "all_codes P \<longleftrightarrow> list_all (\<lambda>sg. list_all (\<lambda>e. list_all (P sg e) [0..15]) [0..<8]) [0, 128]"

lemma all_codesD:
  "all_codes P \<Longrightarrow> sg \<in> {0, 128} \<Longrightarrow> e < 8 \<Longrightarrow> 0 \<le> m \<Longrightarrow> m < 16 \<Longrightarrow> P sg e m"
  by (auto simp: all_codes_def list_all_iff)

lemma mulaw_codes:
  "all_codes (\<lambda>sg e m. NOT (sg OR push_bit 4 (int e) OR m) AND 0xff = 255 - (sg + 16 * int e + m)
     \<and> mulaw_decode_entry (255 - (sg + 16 * int e + m)) =
        (if sg = 128 then -1 else 1) * ((8 * m + 132) * 2 ^ e - 132))"
  by code_simp

lemma alaw_codes:
  "all_codes (\<lambda>sg e m.
     (let c = (sg OR push_bit 4 (int e) OR m) XOR 0x55 in
       0 \<le> c \<and> c < 256 \<and> alaw_decode_entry c =
        (if sg = 128 then -1 else 1) *
        (if e = 0 then 16 * m + 8 else (16 * m + 264) * 2 ^ (e - 1))))"
  by code_simp

text \<open>Re-encoding a decoded code word, checked on the whole table.\<close>

lemma mulaw_reencode_table:
  "list_all (\<lambda>c. linearToMulaw (mulaw_decode_entry c) = (if c = 127 then 255 else c)) [0..255]"
  by code_simp

lemma alaw_reencode_table:
  "list_all (\<lambda>c. linearToAlaw (alaw_decode_entry c) = c) [0..255]"
  by code_simp

lemma table_lookup:
  assumes "list_all P [0..255]" and "0 \<le> c" and "c < (256::int)"
  shows "P c"
proof -
  have "c \<in> set [0..255]" by (subst set_upto) (use assms(2,3) in auto)
  then show ?thesis using assms(1) by (simp only: list_all_iff)
qed

lemmas mulaw_encode_decode = table_lookup[OF mulaw_reencode_table]
lemmas alaw_encode_decode = table_lookup[OF alaw_reencode_table]

subsection \<open>Quantisation\<close>

lemma segment_split:
  fixes s p :: int
  assumes "0 < p" and "16 * p \<le> s" and "s < 32 * p"
  obtains m r where "0 \<le> m" "m < 16" "0 \<le> r" "r < p" "s = (16 + m) * p + r"
    "(s div p) AND 15 = m"
proof -
  define d where "d = s div p"
  have eq: "p * d + s mod p = s" by (simp add: d_def)
  have r: "0 \<le> s mod p" "s mod p < p" using assms(1) by auto
  have lo: "16 \<le> d"
    using zdiv_mono1[OF assms(2,1)] assms(1) by (simp add: d_def)
  have hi: "d < 32"
  proof (rule ccontr)
    assume "\<not> d < 32"
    then have "p * 32 \<le> p * (d)" using assms(1) by (intro mult_left_mono) auto
    with eq r assms(3) show False by linarith
  qed
  have "(d) AND 15 = take_bit 4 (d)" by (simp add: take_bit_eq_mask mask_eq_exp_minus_1)
  also have "\<dots> = (d) mod 16" by (simp add: take_bit_eq_mod)
  also have "\<dots> = d - 16" using lo hi by presburger
  finally have m: "(d) AND 15 = d - 16" .
  show thesis
  proof (rule that)
    show "0 \<le> d - 16" "d - 16 < 16" using lo hi by simp_all
    show "0 \<le> s mod p" "s mod p < p" by (rule r)+
    show "s = (16 + (d - 16)) * p + s mod p" using eq by (simp add: mult.commute)
    show "(s div p) AND 15 = d - 16" using m by (simp only: d_def)
  qed
qed

lemma segment_pow: "(2::int) ^ (e + 3) = 8 * 2 ^ e" "(2::int) ^ (e + 7) = 16 * (8 * 2 ^ e)"
    "(2::int) ^ (e + 8) = 32 * (8 * 2 ^ e)"
  by (simp_all add: power_add)

lemma linearToMulaw_biased:
  "linearToMulaw x =
     (let s = min \<bar>x\<bar> 32635 + 132; e = seg_search s 0x4000 7
      in NOT ((if x < 0 then 128 else 0) OR push_bit 4 (int e) OR (drop_bit (e + 3) s AND 15))
         AND 0xff)"
proof -
  have "(if MULAW_CLIP < (if x < 0 then - x else x) then MULAW_CLIP
         else (if x < 0 then - x else x)) + MULAW_BIAS = min \<bar>x\<bar> 32635 + 132"
    by (auto simp: MULAW_CLIP_def MULAW_BIAS_def)
  then show ?thesis unfolding linearToMulaw_def Let_def by (simp only:)
qed

lemma mulaw_encode_cases:
  obtains e m r where
    "linearToMulaw x = 255 - ((if x < 0 then 128 else 0) + 16 * int e + m)"
    "e < 8" "0 \<le> m" "m < 16" "0 \<le> r" "r < 8 * 2 ^ e"
    "min \<bar>x\<bar> 32635 + 132 = (16 + m) * (8 * 2 ^ e) + r"
proof -
  define sg :: int where "sg = (if x < 0 then 128 else 0)"
  define s where "s = min \<bar>x\<bar> 32635 + 132"
  have s: "0 \<le> s" "132 \<le> s" "s < 32768" by (auto simp: s_def)
  obtain e where e: "seg_search s 0x4000 7 = e" "e \<in> {0, 1, 2, 3, 4, 5, 6, 7}"
    "s < 2 ^ (e + 8)" and low0: "e = 0 \<or> 2 ^ (e + 7) \<le> s"
    using s(1,3) by (rule seg_search_cases)
  have low: "2 ^ (e + 7) \<le> s" using low0 s(2) by (cases "e = 0") auto
  obtain m r where m: "0 \<le> m" "m < 16" "0 \<le> r" "r < 8 * 2 ^ e"
      "s = (16 + m) * (8 * 2 ^ e) + r" "(s div (8 * 2 ^ e)) AND 15 = m"
    using low e(3) unfolding segment_pow by (elim segment_split[rotated]) auto
  have "linearToMulaw x = NOT (sg OR push_bit 4 (int e) OR (drop_bit (e + 3) s AND 15)) AND 0xff"
    by (simp only: linearToMulaw_biased Let_def s_def[symmetric] sg_def[symmetric] e(1))
  also have "drop_bit (e + 3) s AND 15 = m"
    by (simp only: drop_bit_eq_div segment_pow m(6))
  also have "NOT (sg OR push_bit 4 (int e) OR m) AND 0xff = 255 - (sg + 16 * int e + m)"
    using all_codesD[OF mulaw_codes, of sg e m] e(2) m(1,2) by (auto simp: sg_def)
  finally show thesis
    using that[of e m r] e(2) m(1-5) unfolding sg_def s_def by auto
qed

lemma mulaw_encode_range [range_simps]: "linearToMulaw x \<in> {0..255}"
  by (rule mulaw_encode_cases[of x]) auto

lemma mulaw_decode_encode:
  assumes "linearToMulaw x = 255 - ((if x < 0 then 128 else 0) + 16 * int e + m)"
    and "e < 8" and "0 \<le> m" and "m < 16"
  shows "mulaw_decode_entry (linearToMulaw x) =
    (if x < 0 then -1 else 1) * ((16 + m) * (8 * 2 ^ e) + 4 * 2 ^ e - 132)"
  unfolding assms(1)
  using all_codesD[OF mulaw_codes, of "if x < 0 then 128 else 0" e m] assms(2-4)
  by (auto simp: algebra_simps)

text \<open>
  The quantisation error of mu-law is at most a thirty-second of the biased magnitude: the
  relative precision that companding is for.
\<close>

lemma mulaw_quantisation:
  assumes "\<bar>x\<bar> \<le> 32635"
  shows "32 * \<bar>mulaw_decode_entry (linearToMulaw x) - x\<bar> \<le> \<bar>x\<bar> + 132"
proof -
  obtain e m r where c: "linearToMulaw x = 255 - ((if x < 0 then 128 else 0) + 16 * int e + m)"
    "e < 8" "0 \<le> m" "m < 16" and r: "0 \<le> r" "r < 8 * 2 ^ e"
    and s: "min \<bar>x\<bar> 32635 + 132 = (16 + m) * (8 * 2 ^ e) + r"
    by (rule mulaw_encode_cases)
  define t where "t = (16 + m) * (8 * 2 ^ e)"
  have s': "\<bar>x\<bar> + 132 = t + r" using s assms by (simp add: t_def)
  have "16 * (8 * 2 ^ e) \<le> t" unfolding t_def using c(3) by (intro mult_right_mono) auto
  moreover have "mulaw_decode_entry (linearToMulaw x) = (if x < 0 then -1 else 1) * (t + 4 * 2 ^ e - 132)"
    using mulaw_decode_encode[OF c] by (simp add: t_def)
  ultimately show ?thesis using s' r by (auto simp: abs_if split: if_splits)
qed

text \<open>A-law: the sign test reads bit 15 of the sample.\<close>

lemma alaw_sign:
  assumes "-32768 \<le> x" and "x \<le> 32767"
  shows "drop_bit 8 x AND 0x80 = (if x < 0 then 128 else (0::int))"
proof -
  have "drop_bit 8 x AND 0x80 = of_bool (bit (drop_bit 8 x) 7) * 2 ^ 7"
    using and_pow2[of "drop_bit 8 x" 7] by simp
  also have "bit (drop_bit 8 x) 7 \<longleftrightarrow> odd (x div 2 ^ 15)"
    by (simp add: bit_drop_bit_eq bit_iff_odd)
  also have "x div 2 ^ 15 = (if x < 0 then -1 else 0)"
    using assms by auto
  finally show ?thesis by simp
qed

lemma linearToAlaw_magnitude:
  assumes "-32768 \<le> x" and "x \<le> 32767"
  shows "linearToAlaw x =
     (let s = min \<bar>x\<bar> 0x7fff; e = seg_search s 0x4000 7
      in ((if x < 0 then 128 else 0) OR push_bit 4 (int e)
          OR (drop_bit (if e = 0 then 4 else e + 3) s AND 15)) XOR 0x55)"
proof -
  have "(if 0x7fff < (if (if x < 0 then 128 else (0::int)) \<noteq> 0 then - x else x) then 0x7fff
         else (if (if x < 0 then 128 else (0::int)) \<noteq> 0 then - x else x)) = min \<bar>x\<bar> 0x7fff"
    by auto
  then show ?thesis unfolding linearToAlaw_def Let_def alaw_sign[OF assms] by (simp only:)
qed

lemma alaw_decode_encode:
  assumes "-32768 \<le> x" and "x \<le> 32767"
  obtains e r where "e < (8::nat)" "0 \<le> r" "r < (if e = 0 then 16 else 8 * 2 ^ e)"
    "linearToAlaw x \<in> {0..255}"
    "e = 0 \<or> 16 * (8 * 2 ^ e) \<le> min \<bar>x\<bar> 0x7fff"
    "alaw_decode_entry (linearToAlaw x) = (if x < 0 then -1 else 1) *
       (min \<bar>x\<bar> 0x7fff - r + (if e = 0 then 8 else 4 * 2 ^ e))"
proof -
  define sg :: int where "sg = (if x < 0 then 128 else 0)"
  define s where "s = min \<bar>x\<bar> 0x7fff"
  have s: "0 \<le> s" "s < 32768" by (auto simp: s_def)
  obtain e where e: "seg_search s 0x4000 7 = e" "e \<in> {0, 1, 2, 3, 4, 5, 6, 7}"
    "s < 2 ^ (e + 8)" and low: "e = 0 \<or> 2 ^ (e + 7) \<le> s"
    using s by (rule seg_search_cases)
  define m where "m = drop_bit (if e = 0 then 4 else e + 3) s AND 15"
  obtain r where m: "0 \<le> m" "m < 16" "0 \<le> r" "r < (if e = 0 then 16 else 8 * 2 ^ e)"
    "(if e = 0 then 16 * m else (16 + m) * (8 * 2 ^ e)) = s - r"
  proof (cases "e = 0")
    case True
    have "drop_bit 4 s AND 15 = s div 16 mod 16"
      using take_bit_eq_mask[of 4 "s div 16"]
      by (simp add: drop_bit_eq_div mask_eq_exp_minus_1 take_bit_eq_mod)
    also have "\<dots> = s div 16" using e(3) s(1) True by simp
    finally have "m = s div 16" using True by (simp add: m_def)
    moreover have "0 \<le> s mod 16" "s mod 16 < 16" "16 * (s div 16) = s - s mod 16"
      by (simp_all add: minus_mod_eq_mult_div)
    ultimately show thesis using that[of "s mod 16"] True s e(3) by simp
  next
    case False
    then have "16 * (8 * 2 ^ e) \<le> s" "s < 32 * (8 * 2 ^ e)"
      using low e(3) unfolding segment_pow by auto
    then obtain m' r where "0 \<le> m'" "m' < 16" "0 \<le> r" "r < 8 * 2 ^ e"
      "s = (16 + m') * (8 * 2 ^ e) + r" "(s div (8 * 2 ^ e)) AND 15 = m'"
      by (elim segment_split[rotated]) auto
    moreover from this False have "m = m'" by (simp only: m_def drop_bit_eq_div segment_pow if_False)
    ultimately show thesis using that[of r] False by simp
  qed
  have code: "linearToAlaw x = (sg OR push_bit 4 (int e) OR m) XOR 0x55"
    by (simp only: linearToAlaw_magnitude[OF assms] Let_def s_def[symmetric] sg_def[symmetric] e(1) m_def)
  have dec: "0 \<le> linearToAlaw x \<and> linearToAlaw x < 256 \<and> alaw_decode_entry (linearToAlaw x) =
      (if sg = 128 then -1 else 1) * (if e = 0 then 16 * m + 8 else (16 * m + 264) * 2 ^ (e - 1))"
    unfolding code using all_codesD[OF alaw_codes, of sg e m] e(2) m(1,2)
    by (simp only: Let_def) (auto simp: sg_def)
  have val: "(if e = 0 then 16 * m + 8 else (16 * m + 264) * 2 ^ (e - 1)) =
      s - r + (if e = 0 then 8 else 4 * 2 ^ e)"
    using m(5) by (cases e) (auto simp: algebra_simps)
  show thesis
  proof (rule that)
    show "e < 8" using e(2) by auto
    show "e = 0 \<or> 16 * (8 * 2 ^ e) \<le> min \<bar>x\<bar> 0x7fff"
      using low unfolding s_def[symmetric] segment_pow .
    show "alaw_decode_entry (linearToAlaw x) = (if x < 0 then -1 else 1) *
       (min \<bar>x\<bar> 0x7fff - r + (if e = 0 then 8 else 4 * 2 ^ e))"
      using dec unfolding val s_def[symmetric] by (simp add: sg_def)
  qed (use m(3,4) dec in auto)
qed

lemma alaw_quantisation:
  assumes "\<bar>x\<bar> \<le> 32767"
  shows "32 * \<bar>alaw_decode_entry (linearToAlaw x) - x\<bar> \<le> max \<bar>x\<bar> 256"
proof -
  obtain e r where "e < (8::nat)" "0 \<le> r" "r < (if e = 0 then 16 else 8 * 2 ^ e)"
    "e = 0 \<or> 16 * (8 * 2 ^ e) \<le> min \<bar>x\<bar> 0x7fff"
    "alaw_decode_entry (linearToAlaw x) = (if x < 0 then -1 else 1) *
       (min \<bar>x\<bar> 0x7fff - r + (if e = 0 then 8 else 4 * 2 ^ e))"
    by (rule alaw_decode_encode[of x]) (use assms in auto)
  then show ?thesis using assms by (auto simp: abs_if split: if_splits)
qed

lemma alaw_encode_range [range_simps]:
  "\<bar>x\<bar> \<le> 32767 \<Longrightarrow> linearToAlaw x \<in> {0..255}"
  by (rule alaw_decode_encode[of x]) auto

lemma decode_entry_range_table:
  "list_all (\<lambda>c. \<bar>mulaw_decode_entry c\<bar> \<le> 32124 \<and> \<bar>alaw_decode_entry c\<bar> \<le> 32256) [0..255]"
  by code_simp

lemmas decode_entry_range = table_lookup[OF decode_entry_range_table]

subsection \<open>The companding interface\<close>

text \<open>
  What the rest of the gateway relies on, for either law: code words are bytes, decoded samples
  are 16-bit, decoding an encoded decoded sample gives that sample back, and the quantisation
  error is bounded. The buffer codecs inherit it element by element.
\<close>

locale companding =
  fixes enc :: "int \<Rightarrow> int" and dec :: "int \<Rightarrow> int" and qbound :: "int \<Rightarrow> int"
  assumes enc_range: "\<bar>x\<bar> \<le> 32767 \<Longrightarrow> enc x \<in> {0..255}"
    and dec_range: "0 \<le> c \<Longrightarrow> c < 256 \<Longrightarrow> \<bar>dec c\<bar> \<le> 32256"
    and dec_enc_dec: "0 \<le> c \<Longrightarrow> c < 256 \<Longrightarrow> dec (enc (dec c)) = dec c"
    and quantisation: "\<bar>x\<bar> \<le> 32635 \<Longrightarrow> 32 * \<bar>dec (enc x) - x\<bar> \<le> qbound x"
begin

lemma dec_enc_word:
  "\<bar>x\<bar> \<le> 32767 \<Longrightarrow> dec (uint (word_of_int (enc x) :: byte)) = dec (enc x)"
  using enc_range[of x] by simp

lemma transcode_stable:
  "map (\<lambda>b. dec (uint b))
     (map (\<lambda>s. word_of_int (enc s) :: byte) (map (\<lambda>b. dec (uint b)) buf)) =
   map (\<lambda>b. dec (uint b)) (buf :: bytes)"
proof -
  have "\<bar>dec (uint b)\<bar> \<le> 32767" for b :: byte
    using dec_range[of "uint b"] by simp
  then show ?thesis by (simp add: dec_enc_word dec_enc_dec)
qed

lemma pcm_error:
  assumes "\<forall>s \<in> set pcm. \<bar>s\<bar> \<le> 32635" and "i < length pcm"
  shows "32 * \<bar>map (\<lambda>b. dec (uint b)) (map (\<lambda>s. word_of_int (enc s) :: byte) pcm) ! i - pcm ! i\<bar>
    \<le> qbound (pcm ! i)"
proof -
  have "\<bar>pcm ! i\<bar> \<le> 32635" using assms by simp
  then show ?thesis using quantisation[of "pcm ! i"] dec_enc_word[of "pcm ! i"] assms(2) by simp
qed

end

interpretation mulaw: companding linearToMulaw mulaw_decode_entry "\<lambda>x. \<bar>x\<bar> + 132"
proof unfold_locales
  fix c :: int assume c: "0 \<le> c" "c < 256"
  show "\<bar>mulaw_decode_entry c\<bar> \<le> 32256" using decode_entry_range[OF c] by simp
  show "mulaw_decode_entry (linearToMulaw (mulaw_decode_entry c)) = mulaw_decode_entry c"
    using mulaw_encode_decode[OF c] by (simp add: mulaw_decode_entry_def MULAW_BIAS_def)
qed (use mulaw_quantisation mulaw_encode_range in auto)

interpretation alaw: companding linearToAlaw alaw_decode_entry "\<lambda>x. max \<bar>x\<bar> 256"
proof unfold_locales
  fix c :: int assume c: "0 \<le> c" "c < 256"
  show "\<bar>alaw_decode_entry c\<bar> \<le> 32256" using decode_entry_range[OF c] by simp
  show "alaw_decode_entry (linearToAlaw (alaw_decode_entry c)) = alaw_decode_entry c"
    using alaw_encode_decode[OF c] by simp
qed (use alaw_quantisation alaw_encode_range in auto)

lemma decodeMulaw_entry: "decodeMulaw buf = map (\<lambda>b. mulaw_decode_entry (uint b)) buf"
  by (simp add: decodeMulaw_def)

lemma decodeAlaw_entry: "decodeAlaw buf = map (\<lambda>b. alaw_decode_entry (uint b)) buf"
  by (simp add: decodeAlaw_def)

lemma codec_lengths [len_simps, simp]:
  "length (decodeMulaw buf) = length buf" "length (encodeMulaw p) = length p"
  "length (decodeAlaw buf) = length buf" "length (encodeAlaw p) = length p"
  by (simp_all add: decodeMulaw_def encodeMulaw_def decodeAlaw_def encodeAlaw_def)

end
