(* ===== verification/Bytes.thy ===== *)
theory Bytes
  imports Prelude
begin

text \<open>
  Node.js buffers as lists of bytes: the 16- and 32-bit readers and writers the gateways use,
  hexadecimal and base64 text. Text is a list of UTF-16 code units (type \<open>jstr\<close>). The writers
  are only called with values in the range Node accepts; outside it Node throws, which the
  callers rule out. Base64 decoding follows Node's documentation: both alphabets are accepted,
  other characters before the padding are skipped.
\<close>

type_synonym jstr = "nat list"

definition js :: "string \<Rightarrow> jstr" where
  "js s = map of_char s"

subsection \<open>16-bit little endian samples\<close>

definition write_int16_le :: "int \<Rightarrow> bytes" where
  "write_int16_le v = [word_of_int v, word_of_int (v div 256)]"

definition read_int16_le :: "byte \<Rightarrow> byte \<Rightarrow> int" where
  "read_int16_le b0 b1 =
     (let u = uint b0 + 256 * uint b1 in if 32768 \<le> u then u - 65536 else u)"

definition int16 :: "int \<Rightarrow> bool" where
  "int16 v \<longleftrightarrow> -32768 \<le> v \<and> v \<le> 32767"

lemma uint_wi_byte: "uint (word_of_int v :: byte) = v mod 256"
  by (simp add: unsigned_of_int take_bit_eq_mod)

lemma read_write_int16 [simp]:
  assumes "int16 v"
  shows "read_int16_le (word_of_int v) (word_of_int (v div 256)) = v"
proof -
  have "v mod 256 + 256 * (v div 256 mod 256) = v mod 65536"
    using zmod_zmult2_eq[of 256 v 256] by simp
  moreover have "v mod 65536 = (if v < 0 then v + 65536 else v)"
    using assms mod_pos_pos_trivial[of "v + 65536" 65536] by (auto simp: int16_def)
  ultimately show ?thesis
    using assms by (auto simp: read_int16_le_def uint_wi_byte int16_def Let_def)
qed

lemma uint_byte_cases:
  obtains i where "uint (b :: byte) = i" "0 \<le> i" "i < 256"
  using uint_byte_less[of b] unsigned_greater_eq[of b] by blast

lemma read_int16_range [simp]: "int16 (read_int16_le b0 b1)"
proof -
  obtain i where i: "uint b0 = i" "0 \<le> i" "i < 256" by (rule uint_byte_cases)
  obtain j where j: "uint b1 = j" "0 \<le> j" "j < 256" by (rule uint_byte_cases)
  show ?thesis using i(2,3) j(2,3) unfolding int16_def read_int16_le_def Let_def i(1) j(1) by auto
qed

lemma write_read_int16 [simp]:
  "write_int16_le (read_int16_le b0 b1) = [b0, b1]"
proof -
  obtain i where i: "uint b0 = i" "0 \<le> i" "i < 256" by (rule uint_byte_cases)
  obtain j where j: "uint b1 = j" "0 \<le> j" "j < 256" by (rule uint_byte_cases)
  define v where "v = read_int16_le b0 b1"
  have v: "v = i + 256 * (if 128 \<le> j then j - 256 else j)"
    using i(2,3) j(2,3) unfolding v_def read_int16_le_def Let_def i(1) j(1) by auto
  have 1: "v mod 256 = uint b0" using i by (simp add: v)
  have "v div 256 = (if 128 \<le> j then j - 256 else j)" using i by (simp add: v)
  then have 2: "(v div 256) mod 256 = uint b1"
    using j mod_pos_pos_trivial[of j 256] mod_add_self2[of "j - 256" 256] by (auto split: if_splits)
  have "(word_of_int v :: byte) = b0" using 1 uint_wi_byte[of v] by (metis word_uint_eq_iff)
  moreover have "(word_of_int (v div 256) :: byte) = b1"
    using 2 uint_wi_byte[of "v div 256"] by (metis word_uint_eq_iff)
  ultimately show ?thesis by (simp add: write_int16_le_def flip: v_def)
qed

text \<open>\<open>writeInt16LE\<close> in a loop over the samples, and the loop that reads them back.\<close>

definition samples_to_bytes :: "pcm \<Rightarrow> bytes" where
  "samples_to_bytes pcm = concat (map write_int16_le pcm)"

fun bytes_to_samples :: "bytes \<Rightarrow> pcm" where
  "bytes_to_samples (b0 # b1 # bs) = read_int16_le b0 b1 # bytes_to_samples bs"
| "bytes_to_samples _ = []"

lemma length_samples_to_bytes [simp, len_simps]: "length (samples_to_bytes p) = 2 * length p"
  by (induction p) (auto simp: samples_to_bytes_def write_int16_le_def)

lemma length_bytes_to_samples [simp, len_simps]: "length (bytes_to_samples bs) = length bs div 2"
  by (induction bs rule: bytes_to_samples.induct) auto

lemma bytes_to_samples_range: "s \<in> set (bytes_to_samples bs) \<Longrightarrow> int16 s"
  by (induction bs rule: bytes_to_samples.induct) auto

lemma samples_to_bytes_Cons [simp]:
  "samples_to_bytes (s # p) = word_of_int s # word_of_int (s div 256) # samples_to_bytes p"
  by (simp add: samples_to_bytes_def write_int16_le_def)

lemma samples_to_bytes_Nil [simp]: "samples_to_bytes [] = []"
  by (simp add: samples_to_bytes_def)

lemma samples_roundtrip [simp]:
  "\<forall>s \<in> set p. int16 s \<Longrightarrow> bytes_to_samples (samples_to_bytes p) = p"
  by (induction p) auto

lemma bytes_roundtrip:
  "even (length bs) \<Longrightarrow> samples_to_bytes (bytes_to_samples bs) = bs"
proof (induction bs rule: bytes_to_samples.induct)
  case (1 b0 b1 bs)
  then show ?case using write_read_int16[of b0 b1] by (simp add: write_int16_le_def)
qed auto

subsection \<open>Unsigned big endian and 32-bit fields\<close>

definition write_u16_be :: "nat \<Rightarrow> bytes" where
  "write_u16_be n = [word_of_nat (n div 256), word_of_nat n]"

definition read_u16_be :: "byte \<Rightarrow> byte \<Rightarrow> nat" where
  "read_u16_be hi lo = 256 * unat hi + unat lo"

definition write_u32_be :: "nat \<Rightarrow> bytes" where
  "write_u32_be n =
     [word_of_nat (n div 16777216), word_of_nat (n div 65536), word_of_nat (n div 256), word_of_nat n]"

definition write_u32_le :: "nat \<Rightarrow> bytes" where
  "write_u32_le n = rev (write_u32_be n)"

definition read_int32_le :: "byte \<Rightarrow> byte \<Rightarrow> byte \<Rightarrow> byte \<Rightarrow> int" where
  "read_int32_le b0 b1 b2 b3 =
     (let u = uint b0 + 256 * uint b1 + 65536 * uint b2 + 16777216 * uint b3
      in if 2147483648 \<le> u then u - 4294967296 else u)"

lemma unat_wn_byte [simp]: "unat (word_of_nat n :: byte) = n mod 256"
  by (simp add: unsigned_of_nat take_bit_eq_mod)

lemma length_writes [simp, len_simps]:
  "length (write_u16_be n) = 2" "length (write_u32_be n) = 4" "length (write_u32_le n) = 4"
  by (simp_all add: write_u16_be_def write_u32_be_def write_u32_le_def)

lemma read_write_u16_be [simp]:
  "n < 65536 \<Longrightarrow> read_u16_be (word_of_nat (n div 256)) (word_of_nat n) = n"
  by (simp add: read_u16_be_def)

lemma read_u16_be_less [simp]: "read_u16_be a b < 65536"
  using unat_byte_less[of a] unat_byte_less[of b] by (simp add: read_u16_be_def del: unat_byte_less)

lemma read_write_int32_le:
  assumes "n < 2147483648"
  shows "write_u32_le n = [word_of_nat n, word_of_nat (n div 256), word_of_nat (n div 65536),
      word_of_nat (n div 16777216)]"
    and "read_int32_le (word_of_nat n) (word_of_nat (n div 256)) (word_of_nat (n div 65536))
      (word_of_nat (n div 16777216)) = int n"
proof -
  show "write_u32_le n = [word_of_nat n, word_of_nat (n div 256), word_of_nat (n div 65536),
      word_of_nat (n div 16777216)]"
    by (simp add: write_u32_le_def write_u32_be_def)
  have u: "uint (word_of_nat k :: byte) = int (k mod 256)" for k
    by (simp add: unsigned_of_nat take_bit_eq_mod zmod_int)
  have "n mod 256 + 256 * (n div 256 mod 256) + 65536 * (n div 65536 mod 256)
      + 16777216 * (n div 16777216 mod 256) = n"
  proof -
    have "n mod 65536 = n mod 256 + 256 * (n div 256 mod 256)"
      using mod_mult2_eq[of n 256 256] by simp
    moreover have "n mod 16777216 = n mod 65536 + 65536 * (n div 65536 mod 256)"
      using mod_mult2_eq[of n 65536 256] by simp
    moreover have "n mod 4294967296 = n mod 16777216 + 16777216 * (n div 16777216 mod 256)"
      using mod_mult2_eq[of n 16777216 256] by simp
    moreover have "n mod 4294967296 = n" using assms by simp
    ultimately show ?thesis by linarith
  qed
  then have "int (n mod 256) + 256 * int (n div 256 mod 256) + 65536 * int (n div 65536 mod 256)
      + 16777216 * int (n div 16777216 mod 256) = int n"
    by (metis (no_types, lifting) of_nat_add of_nat_mult of_nat_numeral)
  then show "read_int32_le (word_of_nat n) (word_of_nat (n div 256)) (word_of_nat (n div 65536))
      (word_of_nat (n div 16777216)) = int n"
    using assms by (simp only: read_int32_le_def u Let_def) simp
qed

subsection \<open>Base64\<close>

definition b64_char :: "nat \<Rightarrow> nat" where
  "b64_char v = (if v < 26 then 65 + v else if v < 52 then 71 + v else if v < 62 then v - 4
     else if v = 62 then 43 else 47)"

definition b64url_char :: "nat \<Rightarrow> nat" where
  "b64url_char v = (if v = 62 then 45 else if v = 63 then 95 else b64_char v)"

definition b64_val :: "nat \<Rightarrow> nat option" where
  "b64_val c =
     (if 65 \<le> c \<and> c \<le> 90 then Some (c - 65)
      else if 97 \<le> c \<and> c \<le> 122 then Some (c - 71)
      else if 48 \<le> c \<and> c \<le> 57 then Some (c + 4)
      else if c = 43 \<or> c = 45 then Some 62
      else if c = 47 \<or> c = 95 then Some 63 else None)"

fun sextets :: "bytes \<Rightarrow> nat list" where
  "sextets (a # b # c # bs) =
     [unat a div 4, unat a mod 4 * 16 + unat b div 16, unat b mod 16 * 4 + unat c div 64,
      unat c mod 64] @ sextets bs"
| "sextets [a, b] = [unat a div 4, unat a mod 4 * 16 + unat b div 16, unat b mod 16 * 4]"
| "sextets [a] = [unat a div 4, unat a mod 4 * 16]"
| "sextets [] = []"

fun unsextets :: "nat list \<Rightarrow> bytes" where
  "unsextets (w # x # y # z # vs) =
     [word_of_nat (w * 4 + x div 16), word_of_nat (x mod 16 * 16 + y div 4),
      word_of_nat (y mod 4 * 64 + z)] @ unsextets vs"
| "unsextets [w, x, y] = [word_of_nat (w * 4 + x div 16), word_of_nat (x mod 16 * 16 + y div 4)]"
| "unsextets [w, x] = [word_of_nat (w * 4 + x div 16)]"
| "unsextets _ = []"

definition b64_pad :: "nat \<Rightarrow> jstr" where
  "b64_pad n = (if n mod 3 = 1 then [61, 61] else if n mod 3 = 2 then [61] else [])"

definition to_base64 :: "bytes \<Rightarrow> jstr" where
  "to_base64 bs = map b64_char (sextets bs) @ b64_pad (length bs)"

definition to_base64url :: "bytes \<Rightarrow> jstr" where
  "to_base64url bs = map b64url_char (sextets bs)"

definition from_base64 :: "jstr \<Rightarrow> bytes" where
  "from_base64 s = unsextets (List.map_filter b64_val (takeWhile (\<lambda>c. c \<noteq> 61) s))"

lemma sextets_less: "v \<in> set (sextets bs) \<Longrightarrow> v < 64"
proof (induction bs rule: sextets.induct)
  case (1 a b c bs)
  then show ?case
    using unat_byte_less[of a] unat_byte_less[of b] unat_byte_less[of c]
    by (auto simp del: unat_byte_less)
next
  case (2 a b)
  then show ?case using unat_byte_less[of a] unat_byte_less[of b] by (auto simp del: unat_byte_less)
next
  case (3 a)
  then show ?case using unat_byte_less[of a] by (auto simp del: unat_byte_less)
qed simp

lemma wn_byte_eq: "n = unat b \<Longrightarrow> (word_of_nat n :: byte) = b"
  by simp

lemma unsextets_sextets [simp]: "unsextets (sextets bs) = bs"
proof (induction bs rule: sextets.induct)
  case (1 a b c bs)
  have "unat b mod 16 * 16 mod 256 div 16 = unat b mod 16" by simp
  with 1 show ?case
    using unat_byte_less[of a] unat_byte_less[of b] unat_byte_less[of c]
    by (auto simp del: unat_byte_less intro!: wn_byte_eq)
next
  case (2 a b)
  then show ?case using unat_byte_less[of a] unat_byte_less[of b]
    by (auto simp del: unat_byte_less intro!: wn_byte_eq)
next
  case (3 a)
  then show ?case using unat_byte_less[of a] by (auto simp del: unat_byte_less intro!: wn_byte_eq)
qed simp

lemma b64_val_char: "v < 64 \<Longrightarrow> b64_val (b64_char v) = Some v"
  by (auto simp: b64_val_def b64_char_def)

lemma b64_val_url_char: "v < 64 \<Longrightarrow> b64_val (b64url_char v) = Some v"
  by (auto simp: b64_val_def b64_char_def b64url_char_def)

lemma b64_char_not_pad: "v < 64 \<Longrightarrow> b64_char v \<noteq> 61" "v < 64 \<Longrightarrow> b64url_char v \<noteq> 61"
  by (auto simp: b64_char_def b64url_char_def)

lemma map_filter_Some: "(\<And>v. v \<in> set vs \<Longrightarrow> f (g v) = Some v) \<Longrightarrow> List.map_filter f (map g vs) = vs"
  by (induction vs) (auto simp: List.map_filter_simps)

lemma takeWhile_pad: "takeWhile (\<lambda>c. c \<noteq> 61) (b64_pad n) = []"
  by (simp add: b64_pad_def)

theorem from_to_base64 [simp]: "from_base64 (to_base64 bs) = bs"
proof -
  have "takeWhile (\<lambda>c. c \<noteq> 61) (to_base64 bs) = map b64_char (sextets bs)"
    unfolding to_base64_def
    by (subst takeWhile_append2) (auto simp: takeWhile_pad dest: sextets_less b64_char_not_pad)
  then show ?thesis
    by (simp add: from_base64_def map_filter_Some b64_val_char sextets_less)
qed

theorem from_to_base64url [simp]: "from_base64 (to_base64url bs) = bs"
proof -
  have "takeWhile (\<lambda>c. c \<noteq> 61) (to_base64url bs) = map b64url_char (sextets bs)"
    unfolding to_base64url_def by (auto simp: takeWhile_eq_all_conv dest: sextets_less b64_char_not_pad)
  then show ?thesis
    by (simp add: from_base64_def map_filter_Some b64_val_url_char sextets_less)
qed

end
