(* ===== verification/JsNumber.thy ===== *)
theory JsNumber
  imports Prelude "HOL-Library.Log_Nat"
begin

text \<open>
  JavaScript numbers. A finite double is a rational value; every arithmetic operation of the
  source computes the exact result and rounds it to the nearest double, ties to even, which
  \<open>fl\<close> does (53-bit significand, smallest exponent -1074). Values too large for a double do
  not arise where \<open>fl\<close> is used: the audio path keeps every intermediate value far below
  the overflow threshold, and the bounds proved in the theory Resample say so. Signed zero is not
  distinguished, since the code only stores results in typed arrays of integers, where both
  zeros are 0. \<open>Math.round\<close> rounds half up, as ECMAScript defines it.
\<close>

type_synonym jsnum = rat

definition flog2 :: "jsnum \<Rightarrow> int" where
  "flog2 x = (let (a, b) = quotient_of x;
                  k = int (floorlog 2 (nat a)) - int (floorlog 2 (nat b))
              in if 2 powi k \<le> x then k else k - 1)"

definition rne :: "jsnum \<Rightarrow> int" where
  "rne x = (let f = \<lfloor>x\<rfloor>; d = x - of_int f
            in if d < 1/2 then f else if 1/2 < d then f + 1 else if even f then f else f + 1)"

definition fl_exp :: "jsnum \<Rightarrow> int" where
  "fl_exp x = max (flog2 \<bar>x\<bar> - 52) (-1074)"

definition fl :: "jsnum \<Rightarrow> jsnum" where
  "fl x = (if x = 0 then 0 else of_int (rne (x / 2 powi fl_exp x)) * 2 powi fl_exp x)"

definition add_js :: "jsnum \<Rightarrow> jsnum \<Rightarrow> jsnum" where "add_js a b = fl (a + b)"
definition sub_js :: "jsnum \<Rightarrow> jsnum \<Rightarrow> jsnum" where "sub_js a b = fl (a - b)"
definition mul_js :: "jsnum \<Rightarrow> jsnum \<Rightarrow> jsnum" where "mul_js a b = fl (a * b)"
definition div_js :: "jsnum \<Rightarrow> jsnum \<Rightarrow> jsnum" where "div_js a b = fl (a / b)"

definition math_round :: "jsnum \<Rightarrow> int" where
  "math_round x = \<lfloor>x + 1/2\<rfloor>"

lemma rne_int [simp]: "rne (of_int n) = n"
  by (simp add: rne_def)

lemma rne_err: "\<bar>of_int (rne x) - x\<bar> \<le> 1/2"
proof -
  define d where "d = x - of_int \<lfloor>x\<rfloor>"
  have d: "0 \<le> d" "d < 1" unfolding d_def by linarith+
  have "of_int (rne x) - x =
      (if d < 1/2 then - d else if 1/2 < d then 1 - d else if even \<lfloor>x\<rfloor> then - d else 1 - d)"
    by (simp add: rne_def Let_def d_def)
  then show ?thesis using d by (auto simp: abs_if split: if_splits)
qed

lemma fl_0 [simp]: "fl 0 = 0"
  by (simp add: fl_def)

lemma fl_err: "\<bar>fl x - x\<bar> \<le> 2 powi fl_exp x / 2"
proof (cases "x = 0")
  case True
  then show ?thesis by simp
next
  case False
  let ?u = "2 powi fl_exp x :: jsnum"
  have u: "0 < ?u" by simp
  have "fl x - x = (of_int (rne (x / ?u)) - x / ?u) * ?u"
    using False u by (simp add: fl_def field_simps)
  then have "\<bar>fl x - x\<bar> = \<bar>of_int (rne (x / ?u)) - x / ?u\<bar> * ?u"
    by (simp add: abs_mult)
  also have "\<dots> \<le> (1/2) * ?u"
    using rne_err u by (intro mult_right_mono) auto
  finally show ?thesis by simp
qed

lemma quotient_pos:
  assumes "0 < x"
  obtains a b where "quotient_of x = (a, b)" "0 < a" "0 < b" "x = of_int a / of_int b"
proof -
  obtain a b where q: "quotient_of x = (a, b)" by (cases "quotient_of x")
  have b: "0 < b" using quotient_of_denom_pos[OF q] .
  have x: "x = of_int a / of_int b" using quotient_of_div[OF q] .
  with b assms have "0 < a" by (simp add: zero_less_divide_iff)
  with q b x show ?thesis using that by blast
qed

lemma floorlog2_bounds:
  assumes "0 < (n::int)"
  shows "2 powi (int (floorlog 2 (nat n)) - 1) \<le> (of_int n :: jsnum)"
    and "(of_int n :: jsnum) < 2 powi int (floorlog 2 (nat n))"
proof -
  have pos: "0 < floorlog 2 (nat n)"
    using assms floorlog_eq_zero_iff[of 2 "nat n"] by (intro gr0I) simp
  have "2 ^ (floorlog 2 (nat n) - 1) \<le> nat n \<and> nat n < 2 ^ floorlog 2 (nat n)"
    using floorlog_bounds[of "nat n" 2] assms by simp
  then have "int (2 ^ (floorlog 2 (nat n) - 1)) \<le> n" and "n < int (2 ^ floorlog 2 (nat n))"
    using assms by linarith+
  then have 1: "(2::int) ^ (floorlog 2 (nat n) - 1) \<le> n" and 2: "n < (2::int) ^ floorlog 2 (nat n)"
    by simp_all
  obtain k where k: "floorlog 2 (nat n) = Suc k" using pos by (cases "floorlog 2 (nat n)") auto
  have "(of_int (2 ^ k) :: jsnum) \<le> of_int n"
    using 1 k by (simp only: of_int_le_iff diff_Suc_1)
  then show "2 powi (int (floorlog 2 (nat n)) - 1) \<le> (of_int n :: jsnum)"
    by (simp add: k)
  show "(of_int n :: jsnum) < 2 powi int (floorlog 2 (nat n))"
  proof -
    have "(of_int n :: jsnum) < of_int (2 ^ floorlog 2 (nat n))"
      using 2 by (simp only: of_int_less_iff)
    then show ?thesis by (simp add: power_int_def)
  qed
qed

lemma flog2_bounds:
  assumes "0 < x"
  shows "2 powi flog2 x \<le> x" and "x < 2 powi (flog2 x + 1)"
proof -
  obtain a b where q: "quotient_of x = (a, b)" "0 < a" "0 < b" and x: "x = of_int a / of_int b"
    using assms by (rule quotient_pos)
  define la where "la = int (floorlog 2 (nat a))"
  define lb where "lb = int (floorlog 2 (nat b))"
  have la: "2 powi (la - 1) \<le> (of_int a :: jsnum)" "(of_int a :: jsnum) < 2 powi la"
    unfolding la_def using floorlog2_bounds[OF \<open>0 < a\<close>] by auto
  have lb: "2 powi (lb - 1) \<le> (of_int b :: jsnum)" "(of_int b :: jsnum) < 2 powi lb"
    unfolding lb_def using floorlog2_bounds[OF \<open>0 < b\<close>] by auto
  have bpos: "(0::jsnum) < of_int b" using \<open>0 < b\<close> by simp
  have low: "2 powi (la - lb - 1) \<le> x"
  proof -
    have "2 powi (la - lb - 1) * of_int b \<le> (2 powi (la - lb - 1) * 2 powi lb :: jsnum)"
      using lb(2) by (intro mult_left_mono) auto
    also have "\<dots> = 2 powi (la - 1)"
      by (simp flip: power_int_add add: algebra_simps)
    also have "\<dots> \<le> of_int a" by (rule la(1))
    finally show ?thesis using bpos x by (simp add: pos_le_divide_eq)
  qed
  have up: "x < 2 powi (la - lb + 1)"
  proof -
    have "(of_int a :: jsnum) < 2 powi la" by (rule la(2))
    also have "\<dots> = 2 powi (la - lb + 1) * 2 powi (lb - 1)"
      by (simp flip: power_int_add)
    also have "\<dots> \<le> 2 powi (la - lb + 1) * of_int b"
      using lb(1) by (intro mult_left_mono) auto
    finally show ?thesis using bpos x by (simp add: pos_divide_less_eq)
  qed
  have e: "flog2 x = (if 2 powi (la - lb) \<le> x then la - lb else la - lb - 1)"
    using q by (simp add: flog2_def la_def lb_def)
  show "2 powi flog2 x \<le> x" using low by (simp add: e)
  show "x < 2 powi (flog2 x + 1)" using up by (auto simp: e)
qed

lemma flog2_less:
  assumes "0 < x" and "x < 2 powi k"
  shows "flog2 x < k"
proof (rule ccontr)
  assume "\<not> flog2 x < k"
  then have "(2::jsnum) powi k \<le> 2 powi flog2 x" by (intro power_int_increasing) auto
  with flog2_bounds(1)[OF assms(1)] assms(2) show False by linarith
qed

lemma fl_mult_of_exp:
  assumes "x = of_int m * 2 powi fl_exp x"
  shows "fl x = x"
proof (cases "x = 0")
  case False
  have "x / 2 powi fl_exp x = of_int m" using assms by (simp add: field_simps)
  with False show ?thesis by (simp add: fl_def assms[symmetric])
qed simp

text \<open>A value that already is a double is not changed by rounding.\<close>

lemma fl_representable:
  assumes m: "\<bar>m\<bar> < 2 ^ 53" and e: "-1074 \<le> e"
  shows "fl (of_int m * 2 powi e) = of_int m * 2 powi e"
proof (cases "m = 0")
  case True
  then show ?thesis by simp
next
  case False
  let ?x = "of_int m * 2 powi e :: jsnum"
  have pos: "0 < \<bar>?x\<bar>" using False by simp
  have "\<bar>of_int m :: jsnum\<bar> < 2 ^ 53"
    using m by (metis of_int_abs of_int_less_iff of_int_numeral of_int_power)
  then have "\<bar>?x\<bar> < 2 ^ 53 * 2 powi e"
    by (simp add: abs_mult)
  also have "\<dots> = 2 powi (53 + e)"
    by (simp add: power_int_add)
  finally have "flog2 \<bar>?x\<bar> < 53 + e" by (rule flog2_less[OF pos])
  then have le: "fl_exp ?x \<le> e" using e by (simp add: fl_exp_def)
  have "2 powi e = (2 powi (e - fl_exp ?x) * 2 powi fl_exp ?x :: jsnum)"
    by (simp flip: power_int_add)
  also have "(2 :: jsnum) powi (e - fl_exp ?x) = of_int (2 ^ nat (e - fl_exp ?x))"
    using le by (simp add: power_int_def)
  finally have "?x = of_int (m * 2 ^ nat (e - fl_exp ?x)) * 2 powi fl_exp ?x"
    by simp
  then show ?thesis by (rule fl_mult_of_exp)
qed

lemma fl_of_int [simp]: "\<bar>m\<bar> < 2 ^ 53 \<Longrightarrow> fl (of_int m) = of_int m"
  using fl_representable[of m 0] by simp

text \<open>
  Relative error: 2 to the power -53 in the normal range; for the bounds used below a coarser
  bound that also covers the smallest values is enough.
\<close>

lemma fl_abs_bound:
  assumes "\<bar>x\<bar> \<le> 2 powi k" and "-1000 \<le> k"
  shows "\<bar>fl x - x\<bar> \<le> 2 powi (k - 53)"
proof (cases "x = 0")
  case True
  then show ?thesis by simp
next
  case False
  then have pos: "0 < \<bar>x\<bar>" by simp
  have "flog2 \<bar>x\<bar> < k + 1"
  proof (rule flog2_less[OF pos])
    have "(2::jsnum) powi k < 2 powi (k + 1)" by (intro power_int_strict_increasing) auto
    with assms(1) show "\<bar>x\<bar> < 2 powi (k + 1)" by linarith
  qed
  then have "fl_exp x \<le> k - 52" using assms(2) by (simp add: fl_exp_def)
  then have "(2::jsnum) powi fl_exp x \<le> 2 powi (k - 52)" by (intro power_int_increasing) auto
  also have "\<dots> = 2 * 2 powi (k - 53)"
    using power_int_add[of "2::jsnum" 1 "k - 53"] by simp
  finally show ?thesis using fl_err[of x] by linarith
qed

subsection \<open>Evaluating a rounding\<close>

text \<open>
  A ground rounding is evaluated by giving its exponent: \<open>fl_eqI\<close> checks that the significand
  has 53 bits. The floor of a ground quotient is a division of numerals.
\<close>

lemma flog2_eqI:
  assumes "0 < x" and "2 powi k \<le> x" and "x < 2 powi (k + 1)"
  shows "flog2 x = k"
proof -
  have "flog2 x < k + 1" by (rule flog2_less) (use assms in auto)
  moreover have "k < flog2 x + 1"
  proof (rule ccontr)
    assume "\<not> k < flog2 x + 1"
    then have "(2::jsnum) powi (flog2 x + 1) \<le> 2 powi k" by (intro power_int_increasing) auto
    with flog2_bounds(2)[OF assms(1)] assms(2) show False by linarith
  qed
  ultimately show ?thesis by linarith
qed

lemma fl_eqI:
  assumes "2 ^ 52 * 2 powi e \<le> \<bar>x\<bar>" and "\<bar>x\<bar> < 2 ^ 53 * 2 powi e" and "-1074 \<le> e"
  shows "fl x = of_int (rne (x / 2 powi e)) * 2 powi e"
proof -
  have pos: "0 < \<bar>x\<bar>"
    using assms(1) less_le_trans[of 0 "2 ^ 52 * 2 powi e" "\<bar>x\<bar>"] by simp
  have "flog2 \<bar>x\<bar> = 52 + e"
    by (rule flog2_eqI[OF pos]) (use assms in \<open>simp_all add: power_int_add\<close>)
  then have "fl_exp x = e" using assms(3) by (simp add: fl_exp_def)
  then show ?thesis using pos by (simp add: fl_def)
qed

lemma floor_rat_numeral [js_eval]:
  "\<lfloor>numeral a / numeral b :: jsnum\<rfloor> = numeral a div numeral b"
  "\<lfloor>- (numeral a / numeral b) :: jsnum\<rfloor> = - numeral a div numeral b"
  "\<lfloor>1 / numeral b :: jsnum\<rfloor> = 1 div numeral b"
  "\<lfloor>- (1 / numeral b) :: jsnum\<rfloor> = - 1 div numeral b"
proof -
  show "\<lfloor>numeral a / numeral b :: jsnum\<rfloor> = numeral a div numeral b"
    by (metis floor_divide_of_int_eq of_int_numeral)
  show "\<lfloor>- (numeral a / numeral b) :: jsnum\<rfloor> = - numeral a div numeral b"
    by (metis divide_minus_left floor_divide_of_int_eq of_int_neg_numeral of_int_numeral)
  show "\<lfloor>1 / numeral b :: jsnum\<rfloor> = 1 div numeral b"
    by (metis floor_divide_of_int_eq of_int_numeral of_int_1)
  show "\<lfloor>- (1 / numeral b) :: jsnum\<rfloor> = - 1 div numeral b"
    by (metis divide_minus_left floor_divide_of_int_eq of_int_minus of_int_numeral of_int_1)
qed

lemmas rne_eval = rne_def Let_def power_int_def power_divide

subsection \<open>Rounding to an integer\<close>

lemma math_round_int [simp]: "math_round (of_int n) = n"
  unfolding math_round_def by (simp add: floor_eq_iff)

lemma math_round_0 [simp]: "math_round 0 = 0"
  using math_round_int[of 0] by simp

lemma math_round_mono: "x \<le> y \<Longrightarrow> math_round x \<le> math_round y"
  unfolding math_round_def by (intro floor_mono) simp

lemma math_round_bound: "\<bar>of_int (math_round x) - x\<bar> \<le> 1/2"
  unfolding math_round_def by linarith

lemma math_round_eqI: "of_int n - 1/2 \<le> x \<Longrightarrow> x < of_int n + 1/2 \<Longrightarrow> math_round x = n"
  unfolding math_round_def by (simp add: floor_eq_iff)

end
