(* ===== verification/Resample.thy ===== *)
theory Resample
  imports G711 Bytes JsNumber
begin

text \<open>
  Sample-rate conversion of \<open>apps/voice-gateway/src/realtime/audio.ts\<close>: the anti-alias low-pass
  taps, the block resamplers, the PSTN clean-up filter, and the two streaming converters with their
  state across audio deltas. Arithmetic is double arithmetic (theory JsNumber), in the order of
  the source. \<open>Math.sin\<close>, \<open>Math.cos\<close> and \<open>Math.tanh\<close> are arguments: ECMAScript leaves their
  last bits to the implementation. The streaming decimator's ring buffer is related to a window
  holding the most recent samples, and its whole output to a convolution over the whole call.
\<close>

subsection \<open>Clamping and interpolation\<close>

definition clamp16 :: "jsnum \<Rightarrow> int" where
  "clamp16 v = max (-32768) (min 32767 (math_round v))"

definition sample_at :: "pcm \<Rightarrow> int \<Rightarrow> int option" where
  "sample_at input i = (if 0 \<le> i \<and> i < int (length input) then Some (input ! nat i) else None)"

definition coalesce :: "int option \<Rightarrow> int \<Rightarrow> int" where
  "coalesce a b = (case a of None \<Rightarrow> b | Some x \<Rightarrow> x)"

definition cubicSample :: "pcm \<Rightarrow> int \<Rightarrow> jsnum \<Rightarrow> int" where
  "cubicSample input idx fr =
     (let y0 = of_int (coalesce (sample_at input (idx - 1)) (coalesce (sample_at input idx) 0));
          y1i = coalesce (sample_at input idx) 0;
          y2i = coalesce (sample_at input (idx + 1)) y1i;
          y1 = of_int y1i;
          y2 = of_int y2i;
          y3 = of_int (coalesce (sample_at input (idx + 2)) y2i);
          c0 = y1;
          c1 = mul_js (1/2) (sub_js y2 y0);
          c2 = sub_js (add_js (sub_js y0 (mul_js (5/2) y1)) (mul_js 2 y2)) (mul_js (1/2) y3);
          c3 = add_js (mul_js (1/2) (sub_js y3 y0)) (mul_js (3/2) (sub_js y1 y2))
      in clamp16 (add_js (mul_js (add_js (mul_js (add_js (mul_js c3 fr) c2) fr) c1) fr) c0))"

subsection \<open>Block resampling\<close>

definition js_PI :: jsnum where "js_PI = 884279719003555 / 281474976710656"

definition lowpass_tap :: "(jsnum \<Rightarrow> jsnum) \<Rightarrow> (jsnum \<Rightarrow> jsnum) \<Rightarrow> nat \<Rightarrow> jsnum" where
  "lowpass_tap sn cs i =
     (let fc = div_js 3400 24000;
          mid = 31;
          k = of_int (int i - mid);
          sinc = (if int i - mid = 0 then mul_js 2 fc
                  else div_js (sn (mul_js (mul_js (mul_js 2 js_PI) fc) k)) (mul_js js_PI k));
          w = sub_js (fl (54/100))
                (mul_js (fl (46/100)) (cs (div_js (mul_js (mul_js 2 js_PI) (of_nat i)) 62)))
      in mul_js sinc w)"

definition LOWPASS_24K :: "(jsnum \<Rightarrow> jsnum) \<Rightarrow> (jsnum \<Rightarrow> jsnum) \<Rightarrow> jsnum list" where
  "LOWPASS_24K sn cs =
     (let nTaps = 63; h = map (lowpass_tap sn cs) [0..<nTaps]; s = foldl add_js 0 h
      in map (\<lambda>x. div_js x s) h)"

definition downsample24to8 :: "jsnum list \<Rightarrow> pcm \<Rightarrow> pcm" where
  "downsample24to8 h input =
     (let outLen = nat (max 1 (math_round (div_js (of_nat (length input)) 3)));
          mid = (int (length h) - 1) div 2
      in map (\<lambda>i. clamp16 (foldl
             (\<lambda>acc t. let src = int i * 3 + int t - mid;
                          s = if src < 0 \<or> int (length input) \<le> src then 0 else input ! nat src
                      in add_js acc (mul_js (of_int s) (h ! t))) 0 [0..<length h])) [0..<outLen])"

definition upsample8to24 :: "pcm \<Rightarrow> pcm" where
  "upsample8to24 input =
     map (\<lambda>i. let src = div_js (of_nat i) 3; idx = \<lfloor>src\<rfloor>
              in cubicSample input idx (sub_js src (of_int idx))) [0..<max 1 (length input * 3)]"

definition resampleLinear :: "jsnum list \<Rightarrow> pcm \<Rightarrow> nat \<Rightarrow> nat \<Rightarrow> pcm" where
  "resampleLinear h input fromRate toRate =
     (if fromRate = toRate then input
      else if fromRate = 24000 \<and> toRate = 8000 then downsample24to8 h input
      else if fromRate = 8000 \<and> toRate = 24000 then upsample8to24 input
      else let ratio = div_js (of_nat toRate) (of_nat fromRate);
               outLen = nat (max 1 (math_round (mul_js (of_nat (length input)) ratio)))
           in map (\<lambda>i. let src = div_js (of_nat i) ratio; idx = \<lfloor>src\<rfloor>
                       in cubicSample input idx (sub_js src (of_int idx))) [0..<outLen])"

subsection \<open>PSTN clean-up\<close>

definition softClip :: "(jsnum \<Rightarrow> jsnum) \<Rightarrow> jsnum \<Rightarrow> int" where
  "softClip tanh_js x =
     (let lim = 28000; a = \<bar>x\<bar>
      in if a \<le> lim then clamp16 x
         else let s = (if x < 0 then -1 else 1);
                  over = div_js (sub_js a lim) (sub_js 32767 lim)
              in clamp16 (mul_js s (add_js lim (mul_js (sub_js 32767 lim) (tanh_js over)))))"

record pstn_enhance_state =
  pe_prev :: int
  pe_hp :: jsnum

definition enhance_step ::
  "(jsnum \<Rightarrow> jsnum) \<Rightarrow> pstn_enhance_state \<Rightarrow> int \<Rightarrow> pstn_enhance_state \<times> int list" where
  "enhance_step tanh_js st x =
     (let hp = mul_js (fl (96/100)) (sub_js (add_js (pe_hp st) (of_int x)) (of_int (pe_prev st)))
      in (\<lparr>pe_prev = x, pe_hp = hp\<rparr>, [softClip tanh_js hp]))"

definition enhancePstn ::
  "(jsnum \<Rightarrow> jsnum) \<Rightarrow> pcm \<Rightarrow> pstn_enhance_state \<Rightarrow> pstn_enhance_state \<times> pcm" where
  "enhancePstn tanh_js pcm st = run_stream (enhance_step tanh_js) st pcm"

subsection \<open>The streaming decimator\<close>

record fir_decimator =
  fd_delay :: "jsnum list"
  fd_write :: nat
  fd_phase :: nat

definition new_decimator :: "jsnum list \<Rightarrow> fir_decimator" where
  "new_decimator h = \<lparr>fd_delay = replicate (length h) 0, fd_write = 0, fd_phase = 0\<rparr>"

fun fir_loop :: "jsnum list \<Rightarrow> jsnum list \<Rightarrow> nat \<Rightarrow> jsnum \<Rightarrow> jsnum" where
  "fir_loop delay [] j acc = acc"
| "fir_loop delay (c # cs) j acc =
     (let j' = (if j = 0 then length delay - 1 else j - 1)
      in fir_loop delay cs j' (add_js acc (mul_js (delay ! j') c)))"

definition decimator_step :: "jsnum list \<Rightarrow> fir_decimator \<Rightarrow> int \<Rightarrow> fir_decimator \<times> int list" where
  "decimator_step h st x =
     (let n = length h;
          delay = (fd_delay st)[fd_write st := of_int x];
          write = (fd_write st + 1) mod n;
          out = (if fd_phase st = 0 then [clamp16 (fir_loop delay h write 0)] else [])
      in (\<lparr>fd_delay = delay, fd_write = write, fd_phase = (fd_phase st + 1) mod 3\<rparr>, out))"

definition decimator_push :: "jsnum list \<Rightarrow> fir_decimator \<Rightarrow> pcm \<Rightarrow> fir_decimator \<times> pcm" where
  "decimator_push h st pcm24 = run_stream (decimator_step h) st pcm24"

subsection \<open>The streaming upsampler\<close>

definition new_upsampler :: pcm where "new_upsampler = [0, 0, 0, 0]"

definition upsampler_step :: "pcm \<Rightarrow> int \<Rightarrow> pcm \<times> int list" where
  "upsampler_step hist x =
     (let hist = [hist ! 1, hist ! 2, hist ! 3, x]
      in (hist, [cubicSample hist 2 0, cubicSample hist 2 (fl (1/3)), cubicSample hist 2 (fl (2/3))]))"

definition upsampler_push :: "pcm \<Rightarrow> pcm \<Rightarrow> pcm \<times> pcm" where
  "upsampler_push hist pcm8 = run_stream upsampler_step hist pcm8"

subsection \<open>Buffers, base64 and the per-call path\<close>

definition pcm16ToBase64 :: "pcm \<Rightarrow> jstr" where
  "pcm16ToBase64 pcm = to_base64 (samples_to_bytes pcm)"

definition base64ToPcm16 :: "jstr \<Rightarrow> pcm" where
  "base64ToPcm16 b64 = bytes_to_samples (from_base64 b64)"

definition pcm8BufferToSamples :: "bytes \<Rightarrow> pcm" where
  "pcm8BufferToSamples pcm8 = bytes_to_samples pcm8"

definition samplesToPcm8Buffer :: "pcm \<Rightarrow> bytes" where
  "samplesToPcm8Buffer pcm = samples_to_bytes pcm"

definition pstnToRealtime :: "jsnum list \<Rightarrow> bytes \<Rightarrow> g711_codec \<Rightarrow> jstr" where
  "pstnToRealtime h chunk codec =
     (let pcm8 = (if codec = Pcma then decodeAlaw chunk else decodeMulaw chunk);
          pcm24 = resampleLinear h pcm8 8000 24000
      in pcm16ToBase64 pcm24)"

definition realtimeToPstn :: "jsnum list \<Rightarrow> jstr \<Rightarrow> g711_codec \<Rightarrow> bytes" where
  "realtimeToPstn h pcm24B64 codec =
     (let pcm24 = base64ToPcm16 pcm24B64; pcm8 = resampleLinear h pcm24 24000 8000
      in if codec = Pcma then encodeAlaw pcm8 else encodeMulaw pcm8)"

definition pcm8ToRealtime :: "jsnum list \<Rightarrow> bytes \<Rightarrow> jstr" where
  "pcm8ToRealtime h pcm8 =
     (let samples = pcm8BufferToSamples pcm8; pcm24 = resampleLinear h samples 8000 24000
      in pcm16ToBase64 pcm24)"

definition realtimeToPcm8 :: "jsnum list \<Rightarrow> jstr \<Rightarrow> bytes" where
  "realtimeToPcm8 h pcm24B64 =
     (let pcm24 = base64ToPcm16 pcm24B64; pcm8 = resampleLinear h pcm24 24000 8000
      in samplesToPcm8Buffer pcm8)"

record realtime_audio_io =
  io_down :: fir_decimator
  io_up :: pcm
  io_pstn :: pstn_enhance_state

definition new_audio_io :: "jsnum list \<Rightarrow> realtime_audio_io" where
  "new_audio_io h = \<lparr>io_down = new_decimator h, io_up = new_upsampler,
     io_pstn = \<lparr>pe_prev = 0, pe_hp = 0\<rparr>\<rparr>"

definition toPstn ::
  "jsnum list \<Rightarrow> (jsnum \<Rightarrow> jsnum) \<Rightarrow> realtime_audio_io \<Rightarrow> jstr \<Rightarrow> realtime_audio_io \<times> bytes" where
  "toPstn h tanh_js io pcm24B64 =
     (let pcm24 = base64ToPcm16 pcm24B64;
          (down, pcm8) = decimator_push h (io_down io) pcm24
      in if pcm8 = [] then (io\<lparr>io_down := down\<rparr>, [])
         else let (pstn, clean) = enhancePstn tanh_js pcm8 (io_pstn io)
              in (io\<lparr>io_down := down, io_pstn := pstn\<rparr>, samplesToPcm8Buffer clean))"

definition toRealtime :: "realtime_audio_io \<Rightarrow> bytes \<Rightarrow> realtime_audio_io \<times> jstr" where
  "toRealtime io pcm8 =
     (let (up, pcm24) = upsampler_push (io_up io) (pcm8BufferToSamples pcm8)
      in (io\<lparr>io_up := up\<rparr>, pcm16ToBase64 pcm24))"

subsection \<open>Samples stay 16-bit\<close>

lemma clamp16_range [range_simps, simp]: "int16 (clamp16 v)"
  by (simp add: clamp16_def int16_def)

lemma clamp16_int [simp]: "int16 n \<Longrightarrow> clamp16 (of_int n) = n"
  by (simp add: clamp16_def int16_def)

lemma cubicSample_range [range_simps, simp]: "int16 (cubicSample p i fr)"
  by (simp add: cubicSample_def Let_def)

lemma softClip_range [range_simps, simp]: "int16 (softClip th x)"
  by (simp add: softClip_def Let_def)

lemma int16_fl [simp]: "int16 n \<Longrightarrow> fl (of_int n) = of_int n"
  by (rule fl_of_int) (auto simp: int16_def)

lemma cubicSample_0:
  assumes "int16 (coalesce (sample_at p i) 0)"
  shows "cubicSample p i 0 = coalesce (sample_at p i) 0"
  using assms by (simp add: cubicSample_def Let_def mul_js_def add_js_def)

lemma sample_at_nth [simp]: "k < length p \<Longrightarrow> sample_at p (int k) = Some (p ! k)"
  by (simp add: sample_at_def)

lemma coalesce_simps [simp]: "coalesce (Some x) d = x" "coalesce None d = d"
  by (simp_all add: coalesce_def)

lemma length_upsample8to24 [len_simps]:
  "length (upsample8to24 p) = (if p = [] then 1 else 3 * length p)"
  by (cases p) (auto simp: upsample8to24_def)

lemma upsample8to24_original:
  assumes "\<forall>s \<in> set p. int16 s" and "k < length p" and "length p \<le> 2 ^ 50"
  shows "upsample8to24 p ! (3 * k) = p ! k"
proof -
  have "fl (of_nat k) = of_nat k" using fl_of_int[of "int k"] assms(2,3) by simp
  then have d: "div_js (3 * of_nat k) 3 = of_nat k" by (simp add: div_js_def)
  have i: "3 * k < max 1 (length p * 3)" using assms(2) by simp
  have "sub_js (of_nat k) (of_nat k) = 0" by (simp add: sub_js_def)
  then have "upsample8to24 p ! (3 * k) = cubicSample p (int k) 0"
    using i by (simp add: upsample8to24_def Let_def d)
  also have "\<dots> = p ! k" using assms(1,2) by (subst cubicSample_0) simp_all
  finally show ?thesis .
qed

subsection \<open>The decimator's ring buffer\<close>

definition ring_index :: "nat \<Rightarrow> nat \<Rightarrow> nat \<Rightarrow> nat" where
  "ring_index n j t = nat ((int j - 1 - int t) mod int n)"

definition fd_window :: "fir_decimator \<Rightarrow> jsnum list" where
  "fd_window st = map (\<lambda>t. fd_delay st ! ring_index (length (fd_delay st)) (fd_write st) t)
     [0..<length (fd_delay st)]"

definition fir_window :: "jsnum list \<Rightarrow> jsnum list \<Rightarrow> jsnum" where
  "fir_window h w = foldl (\<lambda>acc (s, c). add_js acc (mul_js s c)) 0 (zip w h)"

definition fd_wf :: "jsnum list \<Rightarrow> fir_decimator \<Rightarrow> bool" where
  "fd_wf h st \<longleftrightarrow> h \<noteq> [] \<and> length (fd_delay st) = length h \<and> fd_write st < length h \<and> fd_phase st < 3"

lemma length_fd_window [simp, len_simps]: "length (fd_window st) = length (fd_delay st)"
  by (simp add: fd_window_def)

lemma ring_index_less [simp]: "0 < n \<Longrightarrow> ring_index n j t < n"
  by (simp add: ring_index_def nat_less_iff)

lemma ring_index_prev:
  assumes "0 < n" and "j < n"
  shows "ring_index n (if j = 0 then n - 1 else j - 1) t = ring_index n j (Suc t)"
proof -
  have "int (if j = 0 then n - 1 else j - 1) = (int j - 1) mod int n"
    using assms by (cases "j = 0") (auto simp: zmod_minus1)
  then show ?thesis unfolding ring_index_def by (simp add: mod_diff_left_eq algebra_simps)
qed

lemma ring_index_0: "0 < n \<Longrightarrow> j < n \<Longrightarrow> ring_index n j 0 = (if j = 0 then n - 1 else j - 1)"
  by (cases "j = 0") (auto simp: ring_index_def zmod_minus1)

lemma ring_index_next:
  assumes "0 < n" and "w < n"
  shows "ring_index n ((w + 1) mod n) 0 = w"
    and "ring_index n ((w + 1) mod n) (Suc t) = ring_index n w t"
proof -
  have "int ((w + 1) mod n) = (int w + 1) mod int n" by (simp add: zmod_int add.commute)
  then have "ring_index n ((w + 1) mod n) t = nat ((int w - int t) mod int n)" for t
    unfolding ring_index_def by (simp add: mod_diff_left_eq algebra_simps)
  note this[of 0] this[of "Suc t"]
  then show "ring_index n ((w + 1) mod n) 0 = w"
    and "ring_index n ((w + 1) mod n) (Suc t) = ring_index n w t"
    using assms by (simp_all add: ring_index_def[of n w] algebra_simps)
qed

lemma ring_index_fresh:
  assumes "w < n" and "Suc t < n"
  shows "ring_index n w t \<noteq> w"
proof
  assume "ring_index n w t = w"
  then have "(int w - 1 - int t) mod int n = int w" using assms by (simp add: ring_index_def nat_eq_iff)
  then have "(int w - 1 - int t) mod int n = int w mod int n" using assms by simp
  then have "int n dvd (int w - 1 - int t) - int w" by (simp only: mod_eq_dvd_iff)
  then have "int n dvd int (Suc t)" by (metis add.commute diff_add_cancel diff_diff_eq2 dvd_minus_iff minus_diff_eq of_nat_Suc diff_diff_eq)
  then show False using assms by (auto dest: zdvd_imp_le)
qed

lemma fir_loop_window:
  assumes "0 < length delay" and "j < length delay"
  shows "fir_loop delay cs j acc =
    foldl (\<lambda>acc (s, c). add_js acc (mul_js s c)) acc
      (zip (map (\<lambda>t. delay ! ring_index (length delay) j t) [0..<length cs]) cs)"
  using assms
proof (induction cs arbitrary: j acc)
  case Nil
  then show ?case by simp
next
  case (Cons c cs)
  let ?n = "length delay" and ?j = "if j = 0 then length delay - 1 else j - 1"
  have j: "?j < ?n" using Cons.prems by auto
  have "map (\<lambda>t. delay ! ring_index ?n j t) [0..<length (c # cs)] =
      delay ! ?j # map (\<lambda>t. delay ! ring_index ?n ?j t) [0..<length cs]"
    unfolding ring_index_prev[OF Cons.prems]
    by (simp add: upt_conv_Cons ring_index_0[OF Cons.prems] flip: map_Suc_upt del: upt_Suc)
  then show ?case
    using Cons.IH[OF Cons.prems(1) j] by (simp add: Let_def del: upt_Suc)
qed

lemma decimator_step_window:
  assumes "fd_wf h st"
  shows "fd_window (fst (decimator_step h st x)) = of_int x # butlast (fd_window st)"
    and "fd_wf h (fst (decimator_step h st x))"
    and "fd_phase (fst (decimator_step h st x)) = (fd_phase st + 1) mod 3"
    and "snd (decimator_step h st x) =
      (if fd_phase st = 0
       then [clamp16 (fir_window h (of_int x # butlast (fd_window st)))] else [])"
proof -
  let ?n = "length h" and ?st = "fst (decimator_step h st x)"
  have n: "0 < ?n" "fd_write st < ?n" "length (fd_delay st) = ?n"
    using assms by (auto simp: fd_wf_def)
  have w: "fd_delay ?st = (fd_delay st)[fd_write st := of_int x]"
    "fd_write ?st = (fd_write st + 1) mod ?n"
    "fd_phase ?st = (fd_phase st + 1) mod 3"
    by (simp_all add: decimator_step_def Let_def)
  show 1: "fd_window ?st = of_int x # butlast (fd_window st)"
  proof (rule nth_equalityI)
    show "length (fd_window ?st) = length (of_int x # butlast (fd_window st))"
      using n w by simp
  next
    fix i assume i: "i < length (fd_window ?st)"
    show "fd_window ?st ! i = (of_int x # butlast (fd_window st)) ! i"
    proof (cases i)
      case 0
      then show ?thesis using n w by (simp add: fd_window_def ring_index_next(1)[simplified])
    next
      case (Suc t)
      then have t: "Suc t < ?n" using i n w by simp
      have "ring_index ?n (fd_write st) t \<noteq> fd_write st"
        by (rule ring_index_fresh) (use n t in auto)
      then show ?thesis using n w t Suc
        by (simp add: fd_window_def ring_index_next(2)[simplified] nth_butlast)
    qed
  qed
  show "fd_wf h ?st" using assms w n by (simp add: fd_wf_def)
  show "fd_phase ?st = (fd_phase st + 1) mod 3" by (rule w(3))
  have l: "length (fd_delay ?st) = ?n" using n w by simp
  have "fir_loop (fd_delay ?st) h (fd_write ?st) 0 = fir_window h (fd_window ?st)"
    using n w by (subst fir_loop_window) (simp_all add: fir_window_def fd_window_def)
  then show "snd (decimator_step h st x) =
      (if fd_phase st = 0
       then [clamp16 (fir_window h (of_int x # butlast (fd_window st)))] else [])"
    using w 1 by (simp add: decimator_step_def Let_def)
qed

text \<open>
  The reference: output \<open>m\<close> is the filter applied to input samples \<open>3 m, 3 m - 1, ...\<close> of the
  whole call, with zeros before its start.
\<close>

definition conv_at :: "jsnum list \<Rightarrow> pcm \<Rightarrow> nat \<Rightarrow> int" where
  "conv_at h xs m = clamp16 (foldl
     (\<lambda>acc t. add_js acc (mul_js (if 3 * m < t then 0 else of_int (xs ! (3 * m - t))) (h ! t)))
     0 [0..<length h])"

definition decimate_spec :: "jsnum list \<Rightarrow> pcm \<Rightarrow> pcm" where
  "decimate_spec h xs = map (conv_at h xs) [0..<(length xs + 2) div 3]"

definition call_window :: "nat \<Rightarrow> pcm \<Rightarrow> jsnum list" where
  "call_window n xs = take n (rev (map of_int xs) @ replicate n 0)"

lemma call_window_snoc:
  assumes "0 < n"
  shows "call_window n (xs @ [x]) = of_int x # butlast (call_window n xs)"
proof -
  obtain k where n: "n = Suc k" using assms by (cases n) auto
  have "butlast (take (Suc k) l) = take k l" if "Suc k \<le> length l" for l :: "jsnum list"
    using that by (simp add: take_Suc_conv_app_nth)
  from this[of "rev (map of_int xs) @ replicate n 0"] show ?thesis
    by (simp add: call_window_def n del: take_append)
qed

lemma fir_call_window:
  assumes "length xs = Suc (3 * m)"
  shows "clamp16 (fir_window h (call_window (length h) xs)) = conv_at h xs m"
proof -
  have "zip (call_window (length h) xs) h =
      map (\<lambda>t. (if 3 * m < t then 0 else of_int (xs ! (3 * m - t)), h ! t)) [0..<length h]"
    by (rule nth_equalityI)
      (use assms in \<open>auto simp: call_window_def nth_append rev_nth less_Suc_eq_le\<close>)
  then show ?thesis
    by (simp add: fir_window_def conv_at_def foldl_map)
qed

lemma conv_at_append: "3 * m < length xs \<Longrightarrow> conv_at h (xs @ ys) m = conv_at h xs m"
  unfolding conv_at_def by (intro arg_cong[of _ _ clamp16] foldl_cong) (auto simp: nth_append)

lemma decimate_spec_snoc:
  "decimate_spec h (xs @ [x]) = decimate_spec h xs @
     (if length xs mod 3 = 0 then [conv_at h (xs @ [x]) (length xs div 3)] else [])"
proof -
  have old: "map (conv_at h (xs @ [x])) [0..<(length xs + 2) div 3] = decimate_spec h xs"
    unfolding decimate_spec_def by (rule map_cong[OF refl]) (auto intro!: conv_at_append)
  show ?thesis
  proof (cases "length xs mod 3 = 0")
    case True
    then have "(length (xs @ [x]) + 2) div 3 = Suc (length xs div 3)"
      "(length xs + 2) div 3 = length xs div 3" unfolding length_append list.size by presburger+
    then show ?thesis using True old by (simp add: decimate_spec_def[of h "xs @ [x]"])
  next
    case False
    then have "(length (xs @ [x]) + 2) div 3 = (length xs + 2) div 3"
      unfolding length_append list.size by presburger
    then show ?thesis using False old by (simp add: decimate_spec_def[of h "xs @ [x]"])
  qed
qed

lemma new_decimator_wf: "h \<noteq> [] \<Longrightarrow> fd_wf h (new_decimator h)"
  by (simp add: fd_wf_def new_decimator_def)

lemma new_decimator_window: "h \<noteq> [] \<Longrightarrow> fd_window (new_decimator h) = call_window (length h) []"
  by (simp add: fd_window_def new_decimator_def call_window_def map_replicate_const)

lemma decimator_push_state:
  assumes "h \<noteq> []"
  shows "\<exists>st. decimator_push h (new_decimator h) xs = (st, decimate_spec h xs) \<and> fd_wf h st
    \<and> fd_window st = call_window (length h) xs \<and> fd_phase st = length xs mod 3"
proof (induction xs rule: rev_induct)
  case Nil
  then show ?case
    using assms new_decimator_wf new_decimator_window
    by (simp add: decimator_push_def decimate_spec_def new_decimator_def)
next
  case (snoc x xs)
  then obtain st where st: "decimator_push h (new_decimator h) xs = (st, decimate_spec h xs)"
    "fd_wf h st" "fd_window st = call_window (length h) xs" "fd_phase st = length xs mod 3"
    by blast
  note step = decimator_step_window[OF st(2), of x]
  obtain st' ys where s': "decimator_step h st x = (st', ys)" by (cases "decimator_step h st x")
  have p: "fd_phase st' = length (xs @ [x]) mod 3" using step(3) s' st(4) by (simp add: mod_Suc_eq)
  have w: "fd_window st' = call_window (length h) (xs @ [x])"
    using step(1) s' st(3) assms by (simp add: call_window_snoc)
  have ys: "ys = (if length xs mod 3 = 0 then [conv_at h (xs @ [x]) (length xs div 3)] else [])"
    using step(4) s' st(3,4) assms
    by (auto simp flip: call_window_snoc intro!: fir_call_window)
  have "decimator_push h (new_decimator h) (xs @ [x]) = (st', decimate_spec h (xs @ [x]))"
    using st(1) s' ys by (simp add: decimator_push_def run_stream_append decimate_spec_snoc)
  then show ?case using p w step(2) s' by simp
qed

lemma decimator_push_spec:
  "h \<noteq> [] \<Longrightarrow> snd (decimator_push h (new_decimator h) xs) = decimate_spec h xs"
  using decimator_push_state[of h xs] by auto

subsection \<open>The clean-up filter stays in range\<close>

definition enhance_inv :: "pstn_enhance_state \<Rightarrow> bool" where
  "enhance_inv st \<longleftrightarrow> int16 (pe_prev st) \<and> \<bar>pe_hp st\<bar> \<le> 2 ^ 21"

lemma fl_096: "\<bar>fl (96/100)\<bar> \<le> 965/1000"
proof -
  have "\<bar>fl (96/100) - 96/100\<bar> \<le> 2 powi (0 - 53)" by (rule fl_abs_bound) auto
  also have "\<dots> \<le> 5/1000" by (simp add: power_int_def power_divide)
  finally show ?thesis by linarith
qed

lemma enhance_step_inv [inv_intros]:
  assumes "enhance_inv st" and "int16 x"
  shows "enhance_inv (fst (enhance_step th st x))"
proof -
  let ?a = "pe_hp st + of_int x" and ?p = "of_int (pe_prev st) :: jsnum"
  let ?s = "add_js (pe_hp st) (of_int x)" and ?c = "fl (96/100)"
  have x: "\<bar>of_int x :: jsnum\<bar> \<le> 2 ^ 15" using assms(2) by (simp add: int16_def abs_le_iff)
  have p: "\<bar>?p\<bar> \<le> 2 ^ 15" using assms(1) by (simp add: enhance_inv_def int16_def abs_le_iff)
  have hp: "\<bar>pe_hp st\<bar> \<le> 2 ^ 21" using assms(1) by (simp add: enhance_inv_def)
  have a: "\<bar>?a\<bar> \<le> 2 ^ 21 + 2 ^ 15" using hp x by linarith
  have tiny: "(2::jsnum) powi (22 - 53) \<le> 1" "(2::jsnum) powi (21 - 53) \<le> 1"
    by (simp_all add: power_int_def power_divide)
  have "\<bar>fl ?a - ?a\<bar> \<le> 2 powi (22 - 53)" by (rule fl_abs_bound) (use a in auto)
  then have s: "\<bar>?s\<bar> \<le> 2 ^ 21 + 2 ^ 15 + 1" unfolding add_js_def using a tiny by linarith
  have sp: "\<bar>?s - ?p\<bar> \<le> 2 ^ 21 + 2 * 2 ^ 15 + 1" using s p by linarith
  have "\<bar>fl (?s - ?p) - (?s - ?p)\<bar> \<le> 2 powi (22 - 53)"
    by (rule fl_abs_bound) (use sp in auto)
  then have d: "\<bar>sub_js ?s ?p\<bar> \<le> 2 ^ 21 + 2 * 2 ^ 15 + 2" unfolding sub_js_def using sp tiny by linarith
  have "\<bar>?c * sub_js ?s ?p\<bar> \<le> 965/1000 * (2 ^ 21 + 2 * 2 ^ 15 + 2)"
    unfolding abs_mult using fl_096 d by (intro mult_mono) auto
  then have c: "\<bar>?c * sub_js ?s ?p\<bar> \<le> 2 ^ 21 - 1" by simp
  have "\<bar>fl (?c * sub_js ?s ?p) - ?c * sub_js ?s ?p\<bar> \<le> 2 powi (21 - 53)"
    by (rule fl_abs_bound) (use c in auto)
  then have "\<bar>mul_js ?c (sub_js ?s ?p)\<bar> \<le> 2 ^ 21"
    unfolding mul_js_def using c tiny by linarith
  then show ?thesis using assms(2) by (simp add: enhance_step_def enhance_inv_def Let_def)
qed

lemma enhance_inv_init [inv_intros]: "enhance_inv \<lparr>pe_prev = 0, pe_hp = 0\<rparr>"
  by (simp add: enhance_inv_def int16_def)

lemma enhance_append:
  "enhancePstn th (xs @ ys) st =
     (let (s1, o1) = enhancePstn th xs st; (s2, o2) = enhancePstn th ys s1 in (s2, o1 @ o2))"
  by (simp add: enhancePstn_def run_stream_append)

lemma decimator_append:
  "decimator_push h st (xs @ ys) =
     (let (s1, o1) = decimator_push h st xs; (s2, o2) = decimator_push h s1 ys in (s2, o1 @ o2))"
  by (simp add: decimator_push_def run_stream_append)

subsection \<open>The per-call path\<close>

lemma base64_pcm_roundtrip [simp]: "\<forall>s \<in> set p. int16 s \<Longrightarrow> base64ToPcm16 (pcm16ToBase64 p) = p"
  by (simp add: base64ToPcm16_def pcm16ToBase64_def)

lemma enhance_Nil [simp]: "enhancePstn th [] st = (st, [])"
  by (simp add: enhancePstn_def)

lemma samples_to_bytes_append: "samples_to_bytes (p @ q) = samples_to_bytes p @ samples_to_bytes q"
  by (simp add: samples_to_bytes_def)

lemma toPstn_decoded:
  "toPstn h th io b64 =
     (let (down, pcm8) = decimator_push h (io_down io) (base64ToPcm16 b64);
          (pstn, clean) = enhancePstn th pcm8 (io_pstn io)
      in (io\<lparr>io_down := down, io_pstn := pstn\<rparr>, samples_to_bytes clean))"
  by (auto simp: toPstn_def samplesToPcm8Buffer_def Let_def split: prod.splits)

lemma toPstn_stream:
  assumes "\<forall>c \<in> set chunks. \<forall>s \<in> set c. int16 s"
  shows "run_stream (toPstn h th) io (map pcm16ToBase64 chunks) =
     (let (down, pcm8) = decimator_push h (io_down io) (concat chunks);
          (pstn, clean) = enhancePstn th pcm8 (io_pstn io)
      in (io\<lparr>io_down := down, io_pstn := pstn\<rparr>, samples_to_bytes clean))"
  using assms
proof (induction chunks arbitrary: io)
  case Nil
  then show ?case by (simp add: decimator_push_def)
next
  case (Cons c cs)
  then have c: "\<forall>s \<in> set c. int16 s" and cs: "\<forall>c \<in> set cs. \<forall>s \<in> set c. int16 s" by auto
  show ?case
    using c Cons.IH[OF cs]
    by (simp add: toPstn_decoded decimator_append enhance_append samples_to_bytes_append Let_def
        split: prod.splits)
qed

lemma upsampler_push_nth:
  assumes "\<forall>s \<in> set xs. int16 s" and "int16 (hist ! 3)" and "k < length xs"
  shows "snd (upsampler_push hist xs) ! (3 * k) = (hist ! 3 # xs) ! k"
  using assms
proof (induction xs arbitrary: hist k)
  case Nil
  then show ?case by simp
next
  case (Cons x xs)
  let ?h = "[hist ! 1, hist ! 2, hist ! 3, x]"
  have e: "snd (upsampler_push hist (x # xs)) =
      [cubicSample ?h 2 0, cubicSample ?h 2 (fl (1/3)), cubicSample ?h 2 (fl (2/3))]
        @ snd (upsampler_push ?h xs)"
    by (simp add: upsampler_push_def upsampler_step_def Let_def split: prod.splits)
  show ?case
  proof (cases k)
    case 0
    then show ?thesis using Cons.prems e by (simp add: cubicSample_0 sample_at_def)
  next
    case (Suc m)
    have i: "3 * Suc m = Suc (Suc (Suc (3 * m)))" by simp
    show ?thesis
      using Cons.IH[of ?h m] Cons.prems Suc unfolding Suc e i by simp
  qed
qed

lemma length_upsampler_push [len_simps]: "length (snd (upsampler_push hist xs)) = 3 * length xs"
  unfolding upsampler_push_def by (rule run_stream_length) (simp add: upsampler_step_def Let_def)

lemma upsampler_append:
  "upsampler_push hist (xs @ ys) =
     (let (s1, o1) = upsampler_push hist xs; (s2, o2) = upsampler_push s1 ys in (s2, o1 @ o2))"
  by (simp add: upsampler_push_def run_stream_append)

lemma upsampler_push_int16:
  "y \<in> set (snd (upsampler_push hist xs)) \<Longrightarrow> int16 y"
  unfolding upsampler_push_def
  by (erule run_stream_emits[of "\<lambda>_. True", rotated 3]) (auto simp: upsampler_step_def Let_def)

lemma bytes_to_samples_append:
  "even (length a) \<Longrightarrow> bytes_to_samples (a @ b) = bytes_to_samples a @ bytes_to_samples b"
  by (induction a rule: bytes_to_samples.induct) auto

text \<open>Receiving the realtime events and decoding them, as the model's side does.\<close>

definition realtime_events :: "realtime_audio_io \<Rightarrow> bytes list \<Rightarrow> realtime_audio_io \<times> jstr list" where
  "realtime_events io chunks = run_stream (\<lambda>io c. let (io', b) = toRealtime io c in (io', [b])) io chunks"

lemma toRealtime_stream:
  assumes "\<forall>c \<in> set chunks. even (length c)"
  shows "concat (map base64ToPcm16 (snd (realtime_events io chunks)))
       = snd (upsampler_push (io_up io) (bytes_to_samples (concat chunks)))"
  using assms
proof (induction chunks arbitrary: io)
  case Nil
  then show ?case by (simp add: realtime_events_def upsampler_push_def)
next
  case (Cons c cs)
  obtain up out where u: "upsampler_push (io_up io) (bytes_to_samples c) = (up, out)"
    by (cases "upsampler_push (io_up io) (bytes_to_samples c)")
  have o: "\<forall>s \<in> set out. int16 s" using upsampler_push_int16[of _ "io_up io"] u by (metis snd_conv)
  have "concat (map base64ToPcm16 (snd (realtime_events io (c # cs)))) =
      out @ concat (map base64ToPcm16 (snd (realtime_events (io\<lparr>io_up := up\<rparr>) cs)))"
    using u o by (simp add: realtime_events_def toRealtime_def pcm8BufferToSamples_def Let_def
        split: prod.splits)
  also have "\<dots> = snd (upsampler_push (io_up io) (bytes_to_samples (concat (c # cs))))"
    using Cons u by (simp add: bytes_to_samples_append upsampler_append Let_def split: prod.splits)
  finally show ?case .
qed

lemma decode_entry_int16 [simp]:
  "int16 (mulaw_decode_entry (uint (b :: byte)))" "int16 (alaw_decode_entry (uint b))"
  using decode_entry_range[of "uint b"] by (auto simp: int16_def abs_le_iff)

lemma decode_int16:
  "s \<in> set (decodeMulaw f) \<Longrightarrow> int16 s" "s \<in> set (decodeAlaw f) \<Longrightarrow> int16 s"
  by (auto simp: decodeMulaw_entry decodeAlaw_entry)

lemma pstnToRealtime_samples:
  "base64ToPcm16 (pstnToRealtime h f codec) =
     upsample8to24 (if codec = Pcma then decodeAlaw f else decodeMulaw f)"
  by (simp add: pstnToRealtime_def resampleLinear_def Let_def upsample8to24_def)

lemma pstnToRealtime_thirds:
  assumes "length f \<le> 2 ^ 50"
  shows "map (\<lambda>k. base64ToPcm16 (pstnToRealtime h f codec) ! (3 * k)) [0..<length f] =
    (if codec = Pcma then decodeAlaw f else decodeMulaw f)"
  unfolding pstnToRealtime_samples
  by (rule nth_equalityI) (use assms decode_int16 in \<open>auto simp: upsample8to24_original\<close>)

lemma encode_decode_frame:
  "encodeAlaw (decodeAlaw f) = f"
  "encodeMulaw (decodeMulaw f) = map (\<lambda>b. if b = 127 then 255 else b) f"
proof -
  have "(word_of_int (linearToMulaw (mulaw_decode_entry (uint b))) :: byte) = (if b = 127 then 255 else b)"
    for b :: byte
  proof (cases "uint b = 127")
    case True
    then have "b = 127" by (metis word_of_int_uint word_of_int_numeral)
    then show ?thesis using mulaw_encode_decode[of "uint b"] by simp
  next
    case False
    then have "b \<noteq> 127" by auto
    then show ?thesis using False mulaw_encode_decode[of "uint b"] by simp
  qed
  then show "encodeMulaw (decodeMulaw f) = map (\<lambda>b. if b = 127 then 255 else b) f"
    by (simp add: encodeMulaw_def decodeMulaw_entry)
  show "encodeAlaw (decodeAlaw f) = f"
    using alaw_encode_decode by (simp add: encodeAlaw_def decodeAlaw_entry o_def)
qed

lemma upt_small [js_eval]: "[0..<2] = [0, 1]" "[0..<3] = [0, 1, 2]"
  by (simp_all add: upt_rec)

subsection \<open>Properties\<close>

text \<open>
  C5. Whatever way the assistant's 24 kHz audio is cut into deltas, \<open>RealtimeAudioIo.toPstn\<close>
  sends to the phone line the bytes of one fixed function of the whole call: the FIR convolution at
  every third sample, cleaned by the high-pass and soft-clip filter. No click can come from a chunk
  edge, and the ring buffer with its write and phase counters computes exactly the convolution.
\<close>

theorem toPstn_chunk_independent:
  assumes "h \<noteq> []" and "\<forall>c \<in> set chunks. \<forall>s \<in> set c. int16 s"
  shows "snd (run_stream (toPstn h th) (new_audio_io h) (map pcm16ToBase64 chunks)) =
    samplesToPcm8Buffer (snd (enhancePstn th (decimate_spec h (concat chunks)) \<lparr>pe_prev = 0, pe_hp = 0\<rparr>))"
  using decimator_push_spec[OF assms(1), of "concat chunks"]
  unfolding toPstn_stream[OF assms(2)]
  by (simp add: new_audio_io_def samplesToPcm8Buffer_def case_prod_beta)

lemma toPstn_chunk_independent_witness:
  "snd (run_stream (toPstn [1, 0] (\<lambda>x. x)) (new_audio_io [1, 0])
       (map pcm16ToBase64 [[0, 5], [7], [], [0, 9]])) =
   samplesToPcm8Buffer (snd (enhancePstn (\<lambda>x. x) (decimate_spec [1, 0] [0, 5, 7, 0, 9])
     \<lparr>pe_prev = 0, pe_hp = 0\<rparr>))"
  using toPstn_chunk_independent[of "[1, 0]" "[[0, 5], [7], [], [0, 9]]" "\<lambda>x. x"]
  by (simp add: int16_def)

text \<open>
  On 16-bit input the high-pass state of \<open>enhancePstn\<close> never leaves the range up to 2 to the
  power 21, so no rounding in the filter can overflow, and every emitted sample is a 16-bit value.
\<close>

theorem enhancePstn_bounded:
  assumes "\<forall>s \<in> set p. int16 s"
  shows "\<bar>pe_hp (fst (enhancePstn th p \<lparr>pe_prev = 0, pe_hp = 0\<rparr>))\<bar> \<le> 2 ^ 21 \<and>
    (\<forall>y \<in> set (snd (enhancePstn th p \<lparr>pe_prev = 0, pe_hp = 0\<rparr>)). int16 y)"
proof
  let ?s = "\<lparr>pe_prev = 0, pe_hp = 0\<rparr>"
  have "enhance_inv (fst (run_stream (enhance_step th) ?s p))"
    by (rule run_stream_inv) (use assms in \<open>auto intro: inv_intros\<close>)
  then show "\<bar>pe_hp (fst (enhancePstn th p ?s))\<bar> \<le> 2 ^ 21"
    by (simp add: enhance_inv_def enhancePstn_def)
  have "int16 y" if "y \<in> set (snd (run_stream (enhance_step th) ?s p))" for y
    using that
    by (rule run_stream_emits[of "\<lambda>_. True", rotated 3]) (auto simp: enhance_step_def Let_def)
  then show "\<forall>y \<in> set (snd (enhancePstn th p ?s)). int16 y" by (simp add: enhancePstn_def)
qed

lemma enhancePstn_bounded_witness:
  "\<bar>pe_hp (fst (enhancePstn (\<lambda>x. 1) [32767, -32768, 32767] \<lparr>pe_prev = 0, pe_hp = 0\<rparr>))\<bar> \<le> 2 ^ 21 \<and>
   list_all int16 (snd (enhancePstn (\<lambda>x. 1) [32767, -32768, 32767] \<lparr>pe_prev = 0, pe_hp = 0\<rparr>))"
  using enhancePstn_bounded[of "[32767, -32768, 32767]" "\<lambda>x. 1"]
  by (simp add: int16_def list_all_iff del: Ball_set)

text \<open>
  A G.711 frame sent to the realtime model comes out three times as long, and every third
  sample is exactly the decoded companded value, so encoding those samples again gives back the
  frame (the mu-law code 127, negative zero, comes back as 255).
\<close>

theorem pstnToRealtime_keeps_frame:
  assumes "frame \<noteq> []" and "length frame \<le> 2 ^ 50"
  shows "length (base64ToPcm16 (pstnToRealtime h frame codec)) = 3 * length frame \<and>
    encodeAlaw (map (\<lambda>k. base64ToPcm16 (pstnToRealtime h frame Pcma) ! (3 * k)) [0..<length frame]) = frame \<and>
    encodeMulaw (map (\<lambda>k. base64ToPcm16 (pstnToRealtime h frame Pcmu) ! (3 * k)) [0..<length frame]) =
      map (\<lambda>b. if b = 127 then 255 else b) frame"
proof -
  have "decodeMulaw frame \<noteq> []" "decodeAlaw frame \<noteq> []"
    using assms(1) by (auto simp: decodeMulaw_def decodeAlaw_def)
  then have "length (base64ToPcm16 (pstnToRealtime h frame codec)) = 3 * length frame"
    by (simp add: pstnToRealtime_samples length_upsample8to24)
  then show ?thesis
    by (simp add: pstnToRealtime_thirds[OF assms(2)] encode_decode_frame)
qed

lemma pstnToRealtime_keeps_frame_witness:
  "length (base64ToPcm16 (pstnToRealtime [] [127, 200] Pcma)) = 6 \<and>
   encodeAlaw (map (\<lambda>k. base64ToPcm16 (pstnToRealtime [] [127, 200] Pcma) ! (3 * k)) [0..<2]) = [127, 200] \<and>
   encodeMulaw (map (\<lambda>k. base64ToPcm16 (pstnToRealtime [] [127, 200] Pcmu) ! (3 * k)) [0..<2]) = [255, 200]"
  using pstnToRealtime_keeps_frame[of "[127, 200]" "[]" Pcma]
  by (simp add: js_eval)

text \<open>
  The caller's audio, cut into buffers of whole samples in any way, reaches the model as one
  stream: three 24 kHz samples per 8 kHz sample, of which the first is the caller's previous
  sample (the interpolator runs one sample behind).
\<close>

theorem toRealtime_stream_delay:
  assumes "\<forall>c \<in> set chunks. even (length c)"
  shows "map (\<lambda>k. concat (map base64ToPcm16 (snd (realtime_events (new_audio_io h) chunks))) ! (3 * k))
      [0..<length (pcm8BufferToSamples (concat chunks))] =
      butlast (0 # pcm8BufferToSamples (concat chunks)) \<and>
    length (concat (map base64ToPcm16 (snd (realtime_events (new_audio_io h) chunks)))) =
      3 * length (pcm8BufferToSamples (concat chunks))"
proof -
  let ?xs = "bytes_to_samples (concat chunks)"
  have "snd (upsampler_push new_upsampler ?xs) ! (3 * k) = (0 # ?xs) ! k" if "k < length ?xs" for k
    using that upsampler_push_nth[of ?xs new_upsampler k] bytes_to_samples_range
    by (simp add: new_upsampler_def int16_def)
  then have "map (\<lambda>k. snd (upsampler_push new_upsampler ?xs) ! (3 * k)) [0..<length ?xs] =
      butlast (0 # ?xs)"
    by (intro nth_equalityI) (simp_all add: nth_butlast del: butlast.simps length_bytes_to_samples)
  then show ?thesis
    unfolding toRealtime_stream[OF assms] pcm8BufferToSamples_def
    by (simp add: length_upsampler_push new_audio_io_def del: butlast.simps)
qed

lemma toRealtime_stream_delay_witness:
  "map (\<lambda>k. concat (map base64ToPcm16 (snd (realtime_events (new_audio_io []) [[5, 0], [], [7, 0, 9, 0]]))) ! (3 * k))
      [0..<3] = [0, 5, 7]"
  using toRealtime_stream_delay[of "[[5, 0], [], [7, 0, 9, 0]]" "[]"]
  by (simp add: pcm8BufferToSamples_def read_int16_le_def js_eval)

end
