(* ===== verification/JsString.thy ===== *)
theory JsString
  imports Bytes JsNumber
begin

text \<open>
  JavaScript strings as lists of UTF-16 code units, with the string operations the source uses.
  \<open>js\<close> (theory Bytes) writes an ASCII literal. Case mapping covers ASCII, Latin-1 and Cyrillic,
  the scripts of the program's data; the other letters of Unicode are left as they are. A regular
  expression of the source is modelled by the function it computes at that place.
  \<open>js_Number\<close> is the conversion \<open>Number(s)\<close> on decimal, hexadecimal, octal and binary literals.
\<close>

subsection \<open>Case and white space\<close>

definition js_lower_unit :: "nat \<Rightarrow> nat" where
  "js_lower_unit c =
     (if 65 \<le> c \<and> c \<le> 90 then c + 32
      else if 192 \<le> c \<and> c \<le> 222 \<and> c \<noteq> 215 then c + 32
      else if 1040 \<le> c \<and> c \<le> 1071 then c + 32
      else if 1024 \<le> c \<and> c \<le> 1039 then c + 80
      else c)"

definition js_toLowerCase :: "jstr \<Rightarrow> jstr" where
  "js_toLowerCase s = map js_lower_unit s"

definition js_space :: "nat \<Rightarrow> bool" where
  "js_space c \<longleftrightarrow> c \<in> {9, 10, 11, 12, 13, 32, 160, 5760, 8232, 8233, 8239, 8287, 12288, 65279}
     \<or> (8192 \<le> c \<and> c \<le> 8202)"

definition js_trim :: "jstr \<Rightarrow> jstr" where
  "js_trim s = rev (dropWhile js_space (rev (dropWhile js_space s)))"

definition js_digit :: "nat \<Rightarrow> bool" where
  "js_digit c \<longleftrightarrow> 48 \<le> c \<and> c \<le> 57"

definition js_letter :: "nat \<Rightarrow> bool" where
  "js_letter c \<longleftrightarrow> (65 \<le> c \<and> c \<le> 90) \<or> (97 \<le> c \<and> c \<le> 122)"

definition js_word :: "nat \<Rightarrow> bool" where
  "js_word c \<longleftrightarrow> js_letter c \<or> js_digit c \<or> c = 95"

definition js_eol :: "nat \<Rightarrow> bool" where
  "js_eol c \<longleftrightarrow> c \<in> {10, 13, 8232, 8233}"

lemma js_lower_unit_idem [simp]: "js_lower_unit (js_lower_unit c) = js_lower_unit c"
  by (simp add: js_lower_unit_def)

lemma js_toLowerCase_idem [simp]: "js_toLowerCase (js_toLowerCase s) = js_toLowerCase s"
  by (simp add: js_toLowerCase_def)

lemma length_js_toLowerCase [simp, len_simps]: "length (js_toLowerCase s) = length s"
  by (simp add: js_toLowerCase_def)

lemma js_trim_id: "\<forall>c \<in> set s. \<not> js_space c \<Longrightarrow> js_trim s = s"
proof -
  assume a: "\<forall>c \<in> set s. \<not> js_space c"
  have d: "dropWhile js_space t = t" if "\<forall>c \<in> set t. \<not> js_space c" for t
    using that by (cases t) auto
  show "js_trim s = s" using d[of s] d[of "rev s"] a by (simp add: js_trim_def)
qed


lemma js_trim_ends: "s = [] \<or> \<not> js_space (hd s) \<and> \<not> js_space (last s) \<Longrightarrow> js_trim s = s"
proof -
  have d: "dropWhile js_space t = t" if "t = [] \<or> \<not> js_space (hd t)" for t
    using that by (cases t) auto
  assume "s = [] \<or> \<not> js_space (hd s) \<and> \<not> js_space (last s)"
  then show ?thesis using d[of s] d[of "rev s"] by (auto simp: js_trim_def hd_rev)
qed

lemma js_trim_append_space: "list_all js_space w \<Longrightarrow> js_trim (s @ w) = js_trim s"
proof (cases "list_all js_space s")
  case True
  assume "list_all js_space w"
  then have "dropWhile js_space (s @ w) = []" "dropWhile js_space s = []" using True by (simp_all add: list_all_iff)
  then show ?thesis by (simp add: js_trim_def del: dropWhile_eq_Nil_conv)
next
  case False
  assume w: "list_all js_space w"
  have "dropWhile js_space (s @ w) = dropWhile js_space s @ w"
    using False by (auto simp: list_all_iff dropWhile_append1)
  moreover have "dropWhile js_space (rev w @ r) = dropWhile js_space r" for r
    using w by (intro dropWhile_append2) (auto simp: list_all_iff)
  ultimately show ?thesis by (simp add: js_trim_def)
qed

lemma js_trim_around:
  assumes "w \<noteq> []" "\<not> js_space (hd w)" "\<not> js_space (last w)"
  shows "\<exists>a' b'. js_trim (a @ w @ b) = a' @ w @ b'"
proof -
  have d: "\<exists>x'. dropWhile js_space (x @ v @ y) = x' @ v @ y" if "v \<noteq> []" "\<not> js_space (hd v)" for x v y
    using that by (induction x) (auto simp: neq_Nil_conv)
  obtain a' where a: "dropWhile js_space (a @ w @ b) = a' @ w @ b" using d[OF assms(1,2)] by blast
  obtain b' where "dropWhile js_space (rev b @ rev w @ rev a') = b' @ rev w @ rev a'"
    using d[of "rev w"] assms by (auto simp: hd_rev)
  then have "js_trim (a @ w @ b) = a' @ w @ rev b'" by (simp add: js_trim_def a)
  then show ?thesis by blast
qed

lemma js_trim_hd_last:
  "js_trim s \<noteq> [] \<Longrightarrow> \<not> js_space (hd (js_trim s)) \<and> \<not> js_space (last (js_trim s))"
proof
  assume n: "js_trim s \<noteq> []"
  then show "\<not> js_space (last (js_trim s))"
    using hd_dropWhile[of js_space "rev (dropWhile js_space s)"] by (auto simp: js_trim_def last_rev)
  define t where "t = dropWhile js_space s"
  have "rev t = takeWhile js_space (rev t) @ rev (js_trim s)" by (simp add: js_trim_def t_def)
  then have "t = js_trim s @ rev (takeWhile js_space (rev t))" by (metis rev_append rev_rev_ident)
  then have "hd t = hd (js_trim s)" "t \<noteq> []" using n by (metis hd_append2, metis append_is_Nil_conv)
  then show "\<not> js_space (hd (js_trim s))" unfolding t_def by (metis hd_dropWhile)
qed

lemma js_space_lower [simp]: "js_space (js_lower_unit c) = js_space c"
  by (auto simp: js_space_def js_lower_unit_def split: if_splits)

lemma trim_lower: "js_trim (js_toLowerCase s) = js_toLowerCase (js_trim s)"
  by (simp add: js_trim_def js_toLowerCase_def dropWhile_map rev_map comp_def)

lemma js_trim_idem [simp]: "js_trim (js_trim s) = js_trim s"
proof -
  define t where "t = dropWhile js_space s"
  define u where "u = rev (dropWhile js_space (rev t))"
  have "rev t = takeWhile js_space (rev t) @ dropWhile js_space (rev t)" by simp
  then have t: "t = u @ rev (takeWhile js_space (rev t))" unfolding u_def by (metis rev_append rev_rev_ident)
  have "dropWhile js_space u = u"
  proof (cases u)
    case (Cons c r)
    then have "t \<noteq> []" "hd t = c" using t by (metis append_is_Nil_conv list.discI, metis hd_append2 list.distinct(1) list.sel(1))
    then have "\<not> js_space c" unfolding t_def by (metis hd_dropWhile)
    then show ?thesis using Cons by simp
  qed simp
  moreover have "dropWhile js_space (rev u) = rev u" by (simp add: u_def dropWhile_idem)
  ultimately show ?thesis by (simp add: js_trim_def flip: t_def u_def)
qed

subsection \<open>Searching and cutting\<close>

fun starts_with :: "jstr \<Rightarrow> jstr \<Rightarrow> bool" where
  "starts_with s [] = True"
| "starts_with [] (p # ps) = False"
| "starts_with (c # s) (p # ps) = (c = p \<and> starts_with s ps)"

fun js_includes :: "jstr \<Rightarrow> jstr \<Rightarrow> bool" where
  "js_includes [] p = (p = [])"
| "js_includes (c # s) p = (starts_with (c # s) p \<or> js_includes s p)"

fun js_split1 :: "nat \<Rightarrow> jstr \<Rightarrow> jstr list" where
  "js_split1 c [] = [[]]"
| "js_split1 c (x # s) =
     (if x = c then [] # js_split1 c s
      else case js_split1 c s of [] \<Rightarrow> [[x]] | w # ws \<Rightarrow> (x # w) # ws)"

fun js_join :: "jstr \<Rightarrow> jstr list \<Rightarrow> jstr" where
  "js_join sep [] = []"
| "js_join sep [s] = s"
| "js_join sep (s # t # ss) = s @ sep @ js_join sep (t # ss)"

text \<open>\<open>a || b\<close> on strings that may be absent: the empty string is false.\<close>

definition js_or :: "jstr option \<Rightarrow> jstr \<Rightarrow> jstr" where
  "js_or a b = (case a of None \<Rightarrow> b | Some s \<Rightarrow> if s = [] then b else s)"

lemma js_or_simps [simp]:
  "js_or None b = b" "js_or (Some []) b = b" "js_or (Some (c # s)) b = c # s"
  by (simp_all add: js_or_def)

lemma starts_with_append [simp]: "starts_with (p @ s) p"
  by (induction p) auto

lemma starts_with_iff: "starts_with s p \<longleftrightarrow> (\<exists>t. s = p @ t)"
  by (induction s p rule: starts_with.induct) auto

lemma js_includes_iff: "js_includes s p \<longleftrightarrow> (\<exists>a b. s = a @ p @ b)"
proof (induction s)
  case (Cons c s)
  have "(\<exists>a b. c # s = a @ p @ b) \<longleftrightarrow> (\<exists>b. c # s = p @ b) \<or> (\<exists>a b. s = a @ p @ b)"
    (is "?L \<longleftrightarrow> ?A \<or> ?B")
  proof
    assume ?L
    then obtain a b where e: "c # s = a @ p @ b" by blast
    then show "?A \<or> ?B" by (cases a) auto
  next
    assume "?A \<or> ?B"
    then show ?L
    proof
      assume ?A
      then show ?L by (metis append_Nil)
    next
      assume ?B
      then show ?L by (metis append_Cons)
    qed
  qed
  then show ?case using Cons by (simp add: starts_with_iff)
qed simp

lemma js_split1_nonempty [simp]: "js_split1 c s \<noteq> []"
  by (induction s) (auto split: list.splits)

lemma js_join_split1: "js_join [c] (js_split1 c s) = s"
proof (induction s)
  case (Cons x s)
  then show ?case
    by (cases "js_split1 c s"; cases "tl (js_split1 c s)") auto
qed simp

lemma js_split1_no_sep: "w \<in> set (js_split1 c s) \<Longrightarrow> c \<notin> set w"
  by (induction s arbitrary: w) (auto split: if_splits list.splits)

lemma js_split1_skip: "c \<notin> set a \<Longrightarrow> js_split1 c (a @ c # b) = a # js_split1 c b"
  by (induction a) auto

lemma js_split1_append: "js_split1 c (a @ c # b) = js_split1 c a @ js_split1 c b"
proof (induction a)
  case (Cons x a)
  then show ?case by (cases "js_split1 c a") auto
qed simp

lemma js_split1_append_gen:
  "js_split1 c (x @ y) = butlast (js_split1 c x) @ [last (js_split1 c x) @ hd (js_split1 c y)] @ tl (js_split1 c y)"
proof (induction x)
  case Nil
  then show ?case by (cases "js_split1 c y") auto
next
  case (Cons a x)
  then show ?case by (cases "js_split1 c x") auto
qed

lemma js_split1_snoc: "c \<notin> set y \<Longrightarrow> js_split1 c (x @ y) = butlast (js_split1 c x) @ [last (js_split1 c x) @ y]"
proof -
  assume "c \<notin> set y"
  then have "js_split1 c y = [y]" by (induction y) auto
  then show ?thesis by (simp add: js_split1_append_gen)
qed

lemma js_split1_subset: "w \<in> set (js_split1 c s) \<Longrightarrow> set w \<subseteq> set s"
proof (induction s arbitrary: w)
  case (Cons x s)
  obtain a l where e: "js_split1 c s = a # l" by (cases "js_split1 c s") auto
  have "set a \<subseteq> set s" "\<forall>v \<in> set l. set v \<subseteq> set s" using Cons.IH e by auto
  then show ?case using Cons.prems e by (auto split: if_splits)
qed simp

lemma js_split1_join: "ws \<noteq> [] \<Longrightarrow> list_all (\<lambda>w. c \<notin> set w) ws \<Longrightarrow> js_split1 c (js_join [c] ws) = ws"
proof (induction ws)
  case (Cons w ws)
  have n: "js_split1 c w = [w]" if "c \<notin> set w" for w using that by (induction w) auto
  show ?case using Cons by (cases ws) (auto simp: js_split1_skip n)
qed simp

lemma js_split1_none: "c \<notin> set a \<Longrightarrow> js_split1 c a = [a]"
  by (induction a) auto

subsection \<open>Numbers and decimal text\<close>

datatype numval = NaN | PosInf | NegInf | Num rat

definition digit_val :: "nat \<Rightarrow> nat option" where
  "digit_val c = (if js_digit c then Some (c - 48)
     else if 97 \<le> c \<and> c \<le> 122 then Some (c - 87)
     else if 65 \<le> c \<and> c \<le> 90 then Some (c - 55) else None)"

fun digits_value :: "nat \<Rightarrow> nat \<Rightarrow> jstr \<Rightarrow> nat option" where
  "digits_value base acc [] = Some acc"
| "digits_value base acc (c # s) =
     (case digit_val c of None \<Rightarrow> None
      | Some d \<Rightarrow> if d < base then digits_value base (acc * base + d) s else None)"

fun show_nat :: "nat \<Rightarrow> jstr" where
  "show_nat n = (if n < 10 then [48 + n] else show_nat (n div 10) @ [48 + n mod 10])"

declare show_nat.simps [simp del]

definition show_int :: "int \<Rightarrow> jstr" where
  "show_int i = (if i < 0 then 45 # show_nat (nat (- i)) else show_nat (nat i))"

lemma digits_value_append:
  "digits_value b acc (s @ t) =
     (case digits_value b acc s of None \<Rightarrow> None | Some v \<Rightarrow> digits_value b v t)"
  by (induction b acc s rule: digits_value.induct) (auto split: option.splits)

lemma digits_value_show: "digits_value 10 0 (show_nat n) = Some n"
proof (induction n rule: less_induct)
  case (less n)
  have d: "digit_val (48 + k) = Some k" if "k < 10" for k
    using that by (simp add: digit_val_def js_digit_def)
  show ?case
  proof (cases "n < 10")
    case True
    then show ?thesis by (subst show_nat.simps) (simp add: d)
  next
    case False
    have "digits_value 10 0 (show_nat n) = digits_value 10 (n div 10) [48 + n mod 10]"
      using False less[of "n div 10"] by (subst show_nat.simps) (simp add: digits_value_append)
    also have "\<dots> = Some n" by (simp add: d)
    finally show ?thesis .
  qed
qed

lemma show_nat_digits: "c \<in> set (show_nat n) \<Longrightarrow> js_digit c"
proof (induction n arbitrary: c rule: less_induct)
  case (less n)
  show ?case
  proof (cases "n < 10")
    case True
    then show ?thesis using less.prems by (subst (asm) show_nat.simps) (simp add: js_digit_def)
  next
    case False
    then have "c \<in> set (show_nat (n div 10)) \<or> c = 48 + n mod 10"
      using less.prems by (subst (asm) show_nat.simps) auto
    then show ?thesis
    proof
      assume "c \<in> set (show_nat (n div 10))"
      then show ?thesis using less.IH[of "n div 10"] False by simp
    next
      assume c: "c = 48 + n mod 10"
      have "n mod 10 < 10" by simp
      then show ?thesis unfolding c js_digit_def by linarith
    qed
  qed
qed

lemma show_nat_inj [simp]: "show_nat a = show_nat b \<longleftrightarrow> a = b"
  by (metis digits_value_show option.inject)

lemma show_nat_nonempty [simp]: "show_nat n \<noteq> []"
  by (subst show_nat.simps) simp

text \<open>
  An unsigned decimal literal: digits, an optional fraction and an optional exponent; at least one
  digit must be present.
\<close>

definition js_dec_exp :: "jstr \<Rightarrow> int option" where
  "js_dec_exp s =
     (case s of [] \<Rightarrow> None
      | c # t \<Rightarrow> if c = 43 then (if t = [] then None else map_option int (digits_value 10 0 t))
                else if c = 45 then (if t = [] then None else map_option (\<lambda>n. - int n) (digits_value 10 0 t))
                else map_option int (digits_value 10 0 s))"

definition js_unsigned_dec :: "jstr \<Rightarrow> rat option" where
  "js_unsigned_dec s =
     (let ip = takeWhile js_digit s; r1 = dropWhile js_digit s;
          (fp, r2) = (case r1 of [] \<Rightarrow> ([], [])
                      | c # t \<Rightarrow> if c = 46 then (takeWhile js_digit t, dropWhile js_digit t) else ([], r1));
          ex = (case r2 of [] \<Rightarrow> Some 0
                | c # t \<Rightarrow> if c = 101 \<or> c = 69 then js_dec_exp t else None)
      in if ip = [] \<and> fp = [] then None
         else case (digits_value 10 0 (ip @ fp), ex) of
                (Some n, Some e) \<Rightarrow> Some (fl (of_nat n * 10 powi (e - int (length fp))))
              | _ \<Rightarrow> None)"

definition js_Number :: "jstr \<Rightarrow> numval" where
  "js_Number str =
     (let s = js_trim str
      in if s = [] then Num 0
         else if starts_with s (js ''0x'') \<or> starts_with s (js ''0X'')
              then (case digits_value 16 0 (drop 2 s) of
                      Some n \<Rightarrow> if drop 2 s = [] then NaN else Num (fl (of_nat n)) | None \<Rightarrow> NaN)
         else if starts_with s (js ''0o'') \<or> starts_with s (js ''0O'')
              then (case digits_value 8 0 (drop 2 s) of
                      Some n \<Rightarrow> if drop 2 s = [] then NaN else Num (fl (of_nat n)) | None \<Rightarrow> NaN)
         else if starts_with s (js ''0b'') \<or> starts_with s (js ''0B'')
              then (case digits_value 2 0 (drop 2 s) of
                      Some n \<Rightarrow> if drop 2 s = [] then NaN else Num (fl (of_nat n)) | None \<Rightarrow> NaN)
         else let (neg, t) = (if hd s = 45 then (True, tl s) else if hd s = 43 then (False, tl s) else (False, s))
              in if t = js ''Infinity'' then (if neg then NegInf else PosInf)
                 else case js_unsigned_dec t of None \<Rightarrow> NaN | Some v \<Rightarrow> Num (if neg then - v else v))"

text \<open>\<open>Number(a) || b\<close>: NaN and zero are false.\<close>

definition num_or :: "numval \<Rightarrow> numval \<Rightarrow> numval" where
  "num_or a b = (if a = NaN \<or> a = Num 0 then b else a)"

end
