(* ===== verification/Bridge.thy ===== *)
theory Bridge
  imports Resample JsString
begin

text \<open>
  The state of the realtime bridge (class \<open>RealtimeBridge\<close> of
  \<open>apps/voice-gateway/src/realtime/bridge.ts\<close>) and its operations that call no handler: the
  websocket messages it sends, muting, caller audio, and the tool-call bookkeeping. The operations
  that call back into the call handler are in the theory CallFlow. The messages written to the socket
  are kept in order in \<open>br_sent\<close>. A fixed message body (instructions, audio format, tools) is not
  repeated in the message type.
\<close>

datatype ws_state = WsConnecting | WsOpen | WsClosed

datatype tool_output =
  ToEmptyText
  | ToReplies "jstr option" "jstr list" bool
  | ToDealStatus jstr
  | ToTransferring jstr jstr
  | ToUnknownTool jstr

datatype response_kind = Greeting jstr | TransferNotice jstr | FollowUp

datatype ws_msg =
  SessionUpdate jstr
  | AppendAudio jstr
  | CommitAudio
  | ClearBuffer
  | CreateResponse response_kind
  | FunctionOutput jstr tool_output

record bridge =
  br_ws :: "ws_state option"
  br_closed :: bool
  br_live :: bool
  br_pendingToolArgs :: "jstr \<rightharpoonup> jstr"
  br_handledToolCalls :: "jstr set"
  br_audioChunks :: nat
  br_sessionAcked :: bool
  br_waiting :: bool
  br_greetingPending :: bool
  br_inputMuted :: bool
  br_responseInFlight :: bool
  br_toolsThisTurn :: nat
  br_toolJobs :: "jstr list"
  br_turnQueued :: bool
  br_audioIo :: realtime_audio_io
  br_voices :: "jstr list"
  br_voiceIndex :: nat
  br_sent :: "ws_msg list"

definition new_bridge :: "jsnum list \<Rightarrow> bridge" where
  "new_bridge h = \<lparr>br_ws = None, br_closed = False, br_live = False, br_pendingToolArgs = Map.empty,
     br_handledToolCalls = {}, br_audioChunks = 0, br_sessionAcked = False, br_waiting = False,
     br_greetingPending = True, br_inputMuted = True, br_responseInFlight = False,
     br_toolsThisTurn = 0, br_toolJobs = [], br_turnQueued = False, br_audioIo = new_audio_io h,
     br_voices = [], br_voiceIndex = 0, br_sent = []\<rparr>"

text \<open>\<open>[...new Set(list)]\<close>: the first occurrence of each element.\<close>

fun js_unique :: "'a list \<Rightarrow> 'a list" where
  "js_unique [] = []"
| "js_unique (x # xs) = x # filter (\<lambda>y. y \<noteq> x) (js_unique xs)"

definition uniqueModels :: "jstr \<Rightarrow> jstr list" where
  "uniqueModels fromEnv = js_unique (filter (\<lambda>m. m \<noteq> [])
     [fromEnv, js ''gpt-realtime-2.1'', js ''gpt-realtime-2'', js ''gpt-realtime''])"

definition uniqueVoices :: "jstr option \<Rightarrow> jstr list" where
  "uniqueVoices persona = js_unique (filter (\<lambda>v. v \<noteq> [])
     [js_toLowerCase (js_trim (js_or persona [])), js ''marin'', js ''coral''])"

definition ws_send :: "ws_msg \<Rightarrow> bridge \<Rightarrow> bridge" where
  "ws_send m b = (if br_ws b = Some WsOpen then b\<lparr>br_sent := br_sent b @ [m]\<rparr> else b)"

definition current_voice :: "bridge \<Rightarrow> jstr" where
  "current_voice b = (if br_voiceIndex b < length (br_voices b)
     then js_or (Some (br_voices b ! br_voiceIndex b)) (js ''marin'') else js ''marin'')"

definition sendSessionUpdate :: "bridge \<Rightarrow> bridge" where
  "sendSessionUpdate b = ws_send (SessionUpdate (current_voice b)) b"

definition clearInputBuffer :: "bridge \<Rightarrow> bridge" where
  "clearInputBuffer b = ws_send ClearBuffer b"

definition muteInput :: "bridge \<Rightarrow> bridge" where
  "muteInput b = (if br_inputMuted b then b else clearInputBuffer (b\<lparr>br_inputMuted := True\<rparr>))"

definition unmuteInput :: "bridge \<Rightarrow> bridge" where
  "unmuteInput b = (if \<not> br_inputMuted b then b else (clearInputBuffer b)\<lparr>br_inputMuted := False\<rparr>)"

definition isGenerating :: "bridge \<Rightarrow> bool" where
  "isGenerating b = br_responseInFlight b"

definition sendPcm8Audio :: "bridge \<Rightarrow> bytes \<Rightarrow> bridge" where
  "sendPcm8Audio b pcm8 =
     (if br_ws b = None \<or> br_closed b \<or> br_inputMuted b then b
      else let (io, b64) = toRealtime (br_audioIo b) pcm8
           in ws_send (AppendAudio b64) (b\<lparr>br_audioIo := io\<rparr>))"

definition sendPstnAudio :: "jsnum list \<Rightarrow> bridge \<Rightarrow> bytes \<Rightarrow> g711_codec \<Rightarrow> bridge" where
  "sendPstnAudio h b chunk codec =
     (if br_ws b = None \<or> br_closed b \<or> br_inputMuted b then b
      else ws_send (AppendAudio (pstnToRealtime h chunk codec)) b)"

definition bridge_close :: "bridge \<Rightarrow> bridge" where
  "bridge_close b = b\<lparr>br_closed := True, br_live := False,
     br_ws := map_option (\<lambda>_. WsClosed) (br_ws b)\<rparr>"

text \<open>
  The test for a rejected voice: the parameter mentions the voice, or the message matches
  \<open>/invalid value: '.*voice|supported values are:.*marin/i\<close>, where the dot stops at a line end.
\<close>

fun then_on_line :: "jstr \<Rightarrow> jstr \<Rightarrow> jstr \<Rightarrow> bool" where
  "then_on_line p q [] = False"
| "then_on_line p q (c # s) =
     ((starts_with (c # s) p \<and>
       js_includes (takeWhile (\<lambda>x. \<not> js_eol x) (drop (length p) (c # s))) q) \<or> then_on_line p q s)"

definition voice_rejected :: "jstr \<Rightarrow> jstr \<Rightarrow> bool" where
  "voice_rejected param message =
     (let m = js_toLowerCase message
      in js_includes param (js ''voice'') \<or> then_on_line (js ''invalid value: '' @ [39]) (js ''voice'') m
         \<or> then_on_line (js ''supported values are:'') (js ''marin'') m)"

definition tool_args_delta :: "bridge \<Rightarrow> jstr \<Rightarrow> jstr \<Rightarrow> bridge" where
  "tool_args_delta b i delta =
     b\<lparr>br_pendingToolArgs := (br_pendingToolArgs b)(i \<mapsto> js_or (br_pendingToolArgs b i) [] @ delta)\<rparr>"

subsection \<open>Lemmas\<close>

lemma ws_send_simps [simp]:
  "br_inputMuted (ws_send m b) = br_inputMuted b" "br_responseInFlight (ws_send m b) = br_responseInFlight b"
  "br_ws (ws_send m b) = br_ws b" "br_closed (ws_send m b) = br_closed b" "br_live (ws_send m b) = br_live b"
  "br_turnQueued (ws_send m b) = br_turnQueued b" "br_toolJobs (ws_send m b) = br_toolJobs b"
  "br_toolsThisTurn (ws_send m b) = br_toolsThisTurn b" "br_waiting (ws_send m b) = br_waiting b"
  "br_greetingPending (ws_send m b) = br_greetingPending b"
  "br_handledToolCalls (ws_send m b) = br_handledToolCalls b" "br_audioIo (ws_send m b) = br_audioIo b"
  by (simp_all add: ws_send_def)

lemma mute_simps [simp]:
  "br_inputMuted (muteInput b)" "br_responseInFlight (muteInput b) = br_responseInFlight b"
  "\<not> br_inputMuted (unmuteInput b)" "br_responseInFlight (unmuteInput b) = br_responseInFlight b"
  "br_closed (muteInput b) = br_closed b" "br_closed (unmuteInput b) = br_closed b"
  by (simp_all add: muteInput_def unmuteInput_def clearInputBuffer_def)

text \<open>The messages a bridge operation adds to the socket.\<close>

definition sent_new :: "bridge \<Rightarrow> bridge \<Rightarrow> ws_msg list" where
  "sent_new b b' = drop (length (br_sent b)) (br_sent b')"

definition is_append :: "ws_msg \<Rightarrow> bool" where
  "is_append m = (case m of AppendAudio _ \<Rightarrow> True | _ \<Rightarrow> False)"

definition no_audio_sent :: "bridge \<Rightarrow> bridge \<Rightarrow> bool" where
  "no_audio_sent b b' \<longleftrightarrow> filter is_append (br_sent b') = filter is_append (br_sent b)"

lemma no_audio_refl [simp]: "no_audio_sent b b"
  by (simp add: no_audio_sent_def)

lemma no_audio_trans: "no_audio_sent a b \<Longrightarrow> no_audio_sent b c \<Longrightarrow> no_audio_sent a c"
  by (simp add: no_audio_sent_def)

lemma muted_sends_no_caller_audio:
  "br_inputMuted b \<Longrightarrow> sendPcm8Audio b pcm = b" "br_inputMuted b \<Longrightarrow> sendPstnAudio h b pcm c = b"
  by (simp_all add: sendPcm8Audio_def sendPstnAudio_def)

end
