(* ===== verification/RtpPlayout.thy ===== *)
theory RtpPlayout
  imports Bytes JsNumber
begin

text \<open>
  The RTP playout clock of \<open>apps/voice-gateway/src/sip/calls.ts\<close> (class \<open>RtpPlayout\<close>): model
  audio arrives in bursts and is sent to the phone line in 20 ms frames, with a jitter buffer
  before speech starts, a decaying filler when the buffer runs dry, and silence otherwise. The
  state record has the fields of the class; the RTP session of the dialog is a flag saying whether
  frames can be sent, \<open>setTimeout\<close> is the delay it was called with, and each operation returns
  the frames it sends. The lemmas show the bounds of the buffer, that speech leaves it in order
  and complete, and when the playout reports that it is idle.
\<close>

definition RTP_FRAME_MS :: int where "RTP_FRAME_MS = 20"
definition RTP_FRAME_BYTES :: nat where "RTP_FRAME_BYTES = 160 * 2"
definition RTP_MAX_BUFFER_BYTES :: nat where "RTP_MAX_BUFFER_BYTES = 8000 * 2 * 4"
definition RTP_PREROLL_BYTES :: nat where "RTP_PREROLL_BYTES = RTP_FRAME_BYTES * 6"
definition RTP_CONCEAL_MS :: int where "RTP_CONCEAL_MS = 520"

definition silencePcm :: "int \<Rightarrow> bytes" where
  "silencePcm ms =
     (let samples = max 160 \<lfloor>mul_js 8000 (div_js (of_int ms) 1000)\<rfloor> in replicate (nat (samples * 2)) 0)"

record playout =
  po_buf :: bytes
  po_timer :: "msec option"
  po_stopped :: bool
  po_nextAt :: msec
  po_lastSample :: int
  po_speaking :: bool
  po_underrunMs :: int

definition new_playout :: playout where
  "new_playout = \<lparr>po_buf = [], po_timer = None, po_stopped = False, po_nextAt = 0,
     po_lastSample = 0, po_speaking = False, po_underrunMs = 0\<rparr>"

definition decay :: "int \<Rightarrow> int" where
  "decay s = math_round (mul_js (of_int s) (fl (88/100)))"

fun conceal_samples :: "nat \<Rightarrow> int \<Rightarrow> int \<times> pcm" where
  "conceal_samples 0 s = (s, [])"
| "conceal_samples (Suc n) s =
     (let s' = decay s; (last_s, rest) = conceal_samples n s' in (last_s, s' # rest))"

definition concealFrame :: "playout \<Rightarrow> playout \<times> bytes" where
  "concealFrame p =
     (let (s, samples) = conceal_samples 160 (po_lastSample p)
      in (p\<lparr>po_lastSample := s\<rparr>, samples_to_bytes samples))"

definition po_send :: "bool \<Rightarrow> playout \<Rightarrow> bytes \<Rightarrow> playout \<times> bytes list" where
  "po_send rtp p frame =
     (if \<not> rtp then (p, [])
      else (if 2 \<le> length frame
            then p\<lparr>po_lastSample := read_int16_le (frame ! (length frame - 2)) (frame ! (length frame - 1))\<rparr>
            else p, [frame]))"

definition emitFrame :: "bool \<Rightarrow> playout \<Rightarrow> playout \<times> bytes list \<times> bool" where
  "emitFrame rtp p =
     (if \<not> po_speaking p \<and> length (po_buf p) < RTP_PREROLL_BYTES
      then let (q, out) = po_send rtp p (silencePcm RTP_FRAME_MS) in (q, out, False)
      else let p = (if po_speaking p then p else p\<lparr>po_speaking := True, po_underrunMs := 0\<rparr>)
           in if RTP_FRAME_BYTES \<le> length (po_buf p)
              then let frame = take RTP_FRAME_BYTES (po_buf p);
                       (q, out) = po_send rtp (p\<lparr>po_buf := drop RTP_FRAME_BYTES (po_buf p),
                                                 po_underrunMs := 0\<rparr>) frame
                   in (q, out, False)
              else let p = p\<lparr>po_underrunMs := po_underrunMs p + RTP_FRAME_MS\<rparr>
                   in if po_underrunMs p < RTP_CONCEAL_MS
                      then let (c, frame) = concealFrame p; (q, out) = po_send rtp c frame
                           in (q, out, False)
                      else let (q, out) = po_send rtp (p\<lparr>po_speaking := False, po_underrunMs := 0\<rparr>)
                                            (silencePcm RTP_FRAME_MS)
                           in (q, out, True))"

definition po_tick :: "bool \<Rightarrow> msec \<Rightarrow> playout \<Rightarrow> playout \<times> bytes list \<times> bool" where
  "po_tick rtp now p =
     (if po_stopped p then (p, [], False)
      else let (q, out, idle) = emitFrame rtp p; nxt = po_nextAt q + RTP_FRAME_MS
           in (q\<lparr>po_nextAt := nxt, po_timer := Some (max 0 (nxt - now))\<rparr>, out, idle))"

definition po_start :: "bool \<Rightarrow> msec \<Rightarrow> playout \<Rightarrow> playout \<times> bytes list \<times> bool" where
  "po_start rtp now p = po_tick rtp now (p\<lparr>po_nextAt := now\<rparr>)"

definition po_push :: "playout \<Rightarrow> bytes \<Rightarrow> playout" where
  "po_push p pcm =
     (if po_stopped p \<or> pcm = [] then p
      else let buf = po_buf p @ pcm
           in p\<lparr>po_buf := if RTP_MAX_BUFFER_BYTES < length buf
                         then drop (length buf - RTP_MAX_BUFFER_BYTES) buf else buf\<rparr>)"

definition po_stop :: "playout \<Rightarrow> playout" where
  "po_stop p = p\<lparr>po_stopped := True, po_timer := None, po_buf := []\<rparr>"

lemmas rtp_consts = RTP_FRAME_MS_def RTP_FRAME_BYTES_def RTP_MAX_BUFFER_BYTES_def
  RTP_PREROLL_BYTES_def RTP_CONCEAL_MS_def

subsection \<open>Frames\<close>

lemma silence_20ms: "silencePcm RTP_FRAME_MS = replicate 320 0"
proof -
  have "div_js 20 1000 = 5764607523034235 / 288230376151711744"
    unfolding div_js_def by (subst fl_eqI[of "-58"]) (simp_all add: rne_eval js_eval)
  moreover have "mul_js 8000 (5764607523034235 / 288230376151711744) = 160"
    unfolding mul_js_def by (subst fl_eqI[of "-45"]) (simp_all add: rne_eval js_eval)
  ultimately have "mul_js 8000 (div_js 20 1000) = 160" by metis
  then show ?thesis by (simp add: silencePcm_def RTP_FRAME_MS_def Let_def)
qed

lemma length_conceal [simp, len_simps]: "length (snd (conceal_samples n s)) = n"
  by (induction n arbitrary: s) (auto simp: Let_def split: prod.splits, metis snd_conv)

lemma po_send_simps [simp]:
  "po_buf (fst (po_send rtp p f)) = po_buf p"
  "po_speaking (fst (po_send rtp p f)) = po_speaking p"
  "po_underrunMs (fst (po_send rtp p f)) = po_underrunMs p"
  "po_stopped (fst (po_send rtp p f)) = po_stopped p"
  "po_nextAt (fst (po_send rtp p f)) = po_nextAt p"
  "po_timer (fst (po_send rtp p f)) = po_timer p"
  "snd (po_send rtp p f) = (if rtp then [f] else [])"
  by (simp_all add: po_send_def)

lemma concealFrame_simps [simp]:
  "po_buf (fst (concealFrame p)) = po_buf p"
  "po_speaking (fst (concealFrame p)) = po_speaking p"
  "po_underrunMs (fst (concealFrame p)) = po_underrunMs p"
  "po_stopped (fst (concealFrame p)) = po_stopped p"
  "length (snd (concealFrame p)) = 320"
  by (simp_all add: concealFrame_def case_prod_beta)

text \<open>
  When the next frame has to be speech: the line is speaking or 120 ms are buffered, and a whole frame of 20 ms is there.
  Otherwise a frame is filler (silence or concealment).
\<close>

definition speech_due :: "playout \<Rightarrow> bool" where
  "speech_due p \<longleftrightarrow> (po_speaking p \<or> 1920 \<le> length (po_buf p)) \<and> 320 \<le> length (po_buf p)"

lemma emitFrame_cases:
  obtains
    (wait) "\<not> po_speaking p" "length (po_buf p) < 1920" "\<not> speech_due p"
      "po_buf (fst (emitFrame rtp p)) = po_buf p" "\<not> po_speaking (fst (emitFrame rtp p))"
      "po_underrunMs (fst (emitFrame rtp p)) = po_underrunMs p"
      "fst (snd (emitFrame rtp p)) = (if rtp then [silencePcm RTP_FRAME_MS] else [])"
      "\<not> snd (snd (emitFrame rtp p))"
  | (play) "po_speaking p \<or> 1920 \<le> length (po_buf p)" "320 \<le> length (po_buf p)"
      "speech_due p"
      "po_buf (fst (emitFrame rtp p)) = drop 320 (po_buf p)" "po_speaking (fst (emitFrame rtp p))"
      "po_underrunMs (fst (emitFrame rtp p)) = 0"
      "fst (snd (emitFrame rtp p)) = (if rtp then [take 320 (po_buf p)] else [])"
      "\<not> snd (snd (emitFrame rtp p))"
  | (conceal) "po_speaking p" "length (po_buf p) < 320" "\<not> speech_due p"
      "po_underrunMs p + 20 < 520"
      "po_buf (fst (emitFrame rtp p)) = po_buf p" "po_speaking (fst (emitFrame rtp p))"
      "po_underrunMs (fst (emitFrame rtp p)) = po_underrunMs p + 20"
      "fst (snd (emitFrame rtp p)) =
        (if rtp then [snd (concealFrame (p\<lparr>po_underrunMs := po_underrunMs p + 20\<rparr>))] else [])"
      "\<not> snd (snd (emitFrame rtp p))"
  | (idle) "po_speaking p" "length (po_buf p) < 320" "\<not> speech_due p"
      "520 \<le> po_underrunMs p + 20"
      "po_buf (fst (emitFrame rtp p)) = po_buf p" "\<not> po_speaking (fst (emitFrame rtp p))"
      "po_underrunMs (fst (emitFrame rtp p)) = 0"
      "fst (snd (emitFrame rtp p)) = (if rtp then [silencePcm RTP_FRAME_MS] else [])"
      "snd (snd (emitFrame rtp p))"
proof (cases "\<not> po_speaking p \<and> length (po_buf p) < 1920")
  case True
  then show ?thesis
    by (intro wait) (auto simp: emitFrame_def speech_due_def rtp_consts case_prod_beta)
next
  case ns: False
  show ?thesis
  proof (cases "320 \<le> length (po_buf p)")
    case True
    then show ?thesis using ns
      by (intro play) (auto simp: emitFrame_def speech_due_def rtp_consts case_prod_beta Let_def)
  next
    case False
    then have sp: "po_speaking p" using ns by auto
    show ?thesis
    proof (cases "po_underrunMs p + 20 < 520")
      case True
      then show ?thesis using sp False
        by (intro conceal) (auto simp: emitFrame_def speech_due_def rtp_consts case_prod_beta Let_def)
    next
      case 2: False
      then show ?thesis using sp False
        by (intro idle) (auto simp: emitFrame_def speech_due_def rtp_consts case_prod_beta Let_def)
    qed
  qed
qed

definition po_inv :: "playout \<Rightarrow> bool" where
  "po_inv p \<longleftrightarrow> 0 \<le> po_underrunMs p \<and> po_underrunMs p < RTP_CONCEAL_MS \<and>
     length (po_buf p) \<le> RTP_MAX_BUFFER_BYTES"

lemma po_inv_new [inv_intros]: "po_inv new_playout"
  by (simp add: po_inv_def new_playout_def rtp_consts)

lemma po_inv_push [inv_intros]: "po_inv p \<Longrightarrow> po_inv (po_push p pcm)"
  by (auto simp: po_inv_def po_push_def rtp_consts Let_def)

lemma po_inv_stop [inv_intros]: "po_inv p \<Longrightarrow> po_inv (po_stop p)"
  by (simp add: po_inv_def po_stop_def rtp_consts)

lemma po_inv_emit [inv_intros]: "po_inv p \<Longrightarrow> po_inv (fst (emitFrame rtp p))"
  by (cases rtp p rule: emitFrame_cases) (auto simp: po_inv_def rtp_consts)

lemma po_tick_emit:
  "po_stopped p \<Longrightarrow> po_tick rtp now p = (p, [], False)"
  "\<not> po_stopped p \<Longrightarrow> po_buf (fst (po_tick rtp now p)) = po_buf (fst (emitFrame rtp p)) \<and>
     po_speaking (fst (po_tick rtp now p)) = po_speaking (fst (emitFrame rtp p)) \<and>
     po_underrunMs (fst (po_tick rtp now p)) = po_underrunMs (fst (emitFrame rtp p)) \<and>
     snd (po_tick rtp now p) = snd (emitFrame rtp p)"
  by (simp_all add: po_tick_def Let_def case_prod_beta)

lemma po_stopped_simps [simp]:
  "po_stopped (fst (emitFrame rtp p)) = po_stopped p"
  "po_stopped (fst (po_tick rtp now p)) = po_stopped p"
  "po_stopped (po_push p pcm) = po_stopped p"
  by (simp_all add: emitFrame_def po_tick_def po_push_def Let_def case_prod_beta)

lemma po_inv_tick [inv_intros]: "po_inv p \<Longrightarrow> po_inv (fst (po_tick rtp now p))"
  using po_inv_emit[of p rtp] po_tick_emit[of p rtp now]
  by (cases "po_stopped p") (auto simp: po_inv_def)

lemma po_push_simps [simp]:
  "po_speaking (po_push p pcm) = po_speaking p" "po_underrunMs (po_push p pcm) = po_underrunMs p"
  by (simp_all add: po_push_def Let_def)

subsection \<open>Speech leaves the buffer in order\<close>

text \<open>
  The contract of a first-in first-out byte buffer, as the callers of the playout rely on it:
  what is put (while there is room) comes out complete and in order.
\<close>

fun fifo_run :: "('s \<Rightarrow> 'b list \<Rightarrow> 's) \<Rightarrow> ('c \<Rightarrow> 's \<Rightarrow> 's \<times> 'b list) \<Rightarrow> 's \<Rightarrow> ('c + 'b list) list \<Rightarrow> 's \<times> 'b list" where
  "fifo_run put tk s [] = (s, [])"
| "fifo_run put tk s (Inr x # ops) = fifo_run put tk (put s x) ops"
| "fifo_run put tk s (Inl c # ops) =
     (let (s1, y) = tk c s; (s2, ys) = fifo_run put tk s1 ops in (s2, y @ ys))"

fun fifo_fits :: "('s \<Rightarrow> 'b list \<Rightarrow> 's) \<Rightarrow> ('c \<Rightarrow> 's \<Rightarrow> 's \<times> 'b list) \<Rightarrow> ('s \<Rightarrow> 'b list \<Rightarrow> bool)
    \<Rightarrow> 's \<Rightarrow> ('c + 'b list) list \<Rightarrow> bool" where
  "fifo_fits put tk room s [] = True"
| "fifo_fits put tk room s (Inr x # ops) = (room s x \<and> fifo_fits put tk room (put s x) ops)"
| "fifo_fits put tk room s (Inl c # ops) = fifo_fits put tk room (fst (tk c s)) ops"

definition fifo_input :: "('c + 'b list) list \<Rightarrow> 'b list" where
  "fifo_input ops = concat (map (\<lambda>x. case x of Inl _ \<Rightarrow> [] | Inr b \<Rightarrow> b) ops)"

locale fifo_buffer =
  fixes content :: "'s \<Rightarrow> 'b list" and put :: "'s \<Rightarrow> 'b list \<Rightarrow> 's"
    and tk :: "'c \<Rightarrow> 's \<Rightarrow> 's \<times> 'b list" and room :: "'s \<Rightarrow> 'b list \<Rightarrow> bool"
  assumes put_content: "room s x \<Longrightarrow> content (put s x) = content s @ x"
    and take_content: "snd (tk c s) @ content (fst (tk c s)) = content s"
begin

lemma run_content:
  "fifo_fits put tk room s ops \<Longrightarrow>
   snd (fifo_run put tk s ops) @ content (fst (fifo_run put tk s ops)) = content s @ fifo_input ops"
proof (induction ops arbitrary: s)
  case (Cons op ops)
  show ?case
  proof (cases op)
    case (Inl c)
    have "snd (tk c s) @ content (fst (tk c s)) @ fifo_input ops = content s @ fifo_input ops"
      using take_content[of c s] by (simp flip: append_assoc)
    then show ?thesis
      using Cons.IH[of "fst (tk c s)"] Cons.prems Inl
      by (simp add: fifo_input_def case_prod_beta)
  next
    case (Inr x)
    then show ?thesis
      using Cons.IH[of "put s x"] Cons.prems by (simp add: fifo_input_def put_content)
  qed
qed (simp add: fifo_input_def)

end

text \<open>
  The speech a tick at time \<open>now\<close> puts on the wire: all frames the tick sends when speech is due. (The frames of the other
  ticks are the filler of \<open>emitFrame_cases\<close>.)
\<close>

definition tick_speech :: "msec \<Rightarrow> playout \<Rightarrow> playout \<times> bytes" where
  "tick_speech now p = (let (q, sent, _) = po_tick True now p in (q, if speech_due p then concat sent else []))"

definition po_room :: "playout \<Rightarrow> bytes \<Rightarrow> bool" where
  "po_room p pcm \<longleftrightarrow> \<not> po_stopped p \<and> length (po_buf p) + length pcm \<le> RTP_MAX_BUFFER_BYTES"

lemma tick_speech_buf: "snd (tick_speech now p) @ po_buf (fst (tick_speech now p)) = po_buf p"
proof (cases "po_stopped p")
  case True
  then show ?thesis by (simp add: tick_speech_def po_tick_emit)
next
  case False
  then show ?thesis
    using po_tick_emit(2)[of p True now]
    by (cases True p rule: emitFrame_cases) (auto simp: tick_speech_def case_prod_beta)
qed

interpretation rtp_fifo: fifo_buffer po_buf po_push tick_speech po_room
proof unfold_locales
  fix p x assume "po_room p x"
  then show "po_buf (po_push p x) = po_buf p @ x" by (auto simp: po_push_def po_room_def Let_def)
qed (rule tick_speech_buf)

subsection \<open>Runs of the clock\<close>

datatype po_op = PoPush bytes | PoTick msec | PoStop

fun po_exec :: "bool \<Rightarrow> playout \<Rightarrow> po_op \<Rightarrow> playout \<times> bytes list" where
  "po_exec rtp p (PoPush b) = (po_push p b, [])"
| "po_exec rtp p (PoTick now) = (let (q, out, _) = po_tick rtp now p in (q, out))"
| "po_exec rtp p PoStop = (po_stop p, [])"

lemma po_inv_exec [inv_intros]: "po_inv p \<Longrightarrow> po_inv (fst (po_exec rtp p op))"
  by (cases op) (auto intro: inv_intros simp: case_prod_beta)

lemma tick_frame:
  assumes "\<not> po_stopped p" and "rtp"
  shows "\<exists>f. fst (snd (po_tick rtp now p)) = [f] \<and> length f = 320"
proof -
  have "fst (snd (po_tick rtp now p)) = fst (snd (emitFrame rtp p))"
    using po_tick_emit[of p rtp now] assms by simp
  then show ?thesis using assms(2)
    by (cases rtp p rule: emitFrame_cases) (auto simp: silence_20ms)
qed

fun po_idles :: "bool \<Rightarrow> msec list \<Rightarrow> playout \<Rightarrow> bool list" where
  "po_idles rtp [] p = []"
| "po_idles rtp (now # nows) p =
     (let (q, _, idle) = po_tick rtp now p in idle # po_idles rtp nows q)"

text \<open>How many ticks a speaking playout still needs before it reports idle.\<close>

definition ticks_left :: "playout \<Rightarrow> nat" where
  "ticks_left p = (if 320 \<le> length (po_buf p) then length (po_buf p) div 320 + 26
                   else nat ((519 - po_underrunMs p) div 20 + 1))"

lemma ticks_left_step:
  assumes "po_inv p" and "po_speaking p" and "\<not> po_stopped p"
    and "\<not> snd (snd (po_tick rtp now p))"
  shows "po_speaking (fst (po_tick rtp now p))"
    and "Suc (ticks_left (fst (po_tick rtp now p))) \<le> ticks_left p"
proof -
  note t = po_tick_emit(2)[OF assms(3), of rtp now]
  have i: "\<not> snd (snd (emitFrame rtp p))" using t assms(4) by simp
  have u: "0 \<le> po_underrunMs p" "po_underrunMs p < 520" using assms(1) by (auto simp: po_inv_def rtp_consts)
  show "po_speaking (fst (po_tick rtp now p))"
    using t i assms(2) by (cases rtp p rule: emitFrame_cases) auto
  show "Suc (ticks_left (fst (po_tick rtp now p))) \<le> ticks_left p"
  proof (cases rtp p rule: emitFrame_cases)
    case play
    have "length (po_buf p) div 320 = Suc ((length (po_buf p) - 320) div 320)"
      using play(2) le_div_geq[of 320 "length (po_buf p)"] by simp
    then show ?thesis using t play(2,4,6) by (auto simp: ticks_left_def)
  next
    case conceal
    have "(519 - po_underrunMs p) div 20 = (519 - (po_underrunMs p + 20)) div 20 + 1" by simp
    then show ?thesis using t conceal(2,4,5,7) by (simp add: ticks_left_def)
  qed (use assms(2) i in auto)
qed

lemma speaking_drains:
  assumes "po_inv p" and "po_speaking p" and "\<not> po_stopped p" and "ticks_left p \<le> length nows"
  shows "True \<in> set (po_idles rtp nows p)"
  using assms
proof (induction nows arbitrary: p)
  case Nil
  then have "ticks_left p = 0" by simp
  moreover have "0 < ticks_left p"
    using Nil.prems(1) by (auto simp: ticks_left_def po_inv_def rtp_consts)
  ultimately show ?case by simp
next
  case (Cons now nows)
  let ?q = "fst (po_tick rtp now p)"
  show ?case
  proof (cases "snd (snd (po_tick rtp now p))")
    case True
    then show ?thesis by (simp add: case_prod_beta)
  next
    case False
    note st = ticks_left_step[OF Cons.prems(1-3) False]
    have "True \<in> set (po_idles rtp nows ?q)"
      by (rule Cons.IH) (use st Cons.prems in \<open>auto intro: inv_intros\<close>)
    then show ?thesis by (simp add: case_prod_beta)
  qed
qed

lemma short_audio_never_idle:
  assumes "\<not> po_speaking p" and "length (po_buf p) < RTP_PREROLL_BYTES"
  shows "True \<notin> set (po_idles rtp nows p)"
  using assms
proof (induction nows arbitrary: p)
  case (Cons now nows)
  have "\<not> po_speaking (fst (po_tick rtp now p)) \<and> po_buf (fst (po_tick rtp now p)) = po_buf p \<and>
      \<not> snd (snd (po_tick rtp now p))"
    using Cons.prems po_tick_emit[of p rtp now]
    by (cases "po_stopped p"; cases rtp p rule: emitFrame_cases) (auto simp: rtp_consts)
  then show ?case using Cons.IH[of "fst (po_tick rtp now p)"] Cons.prems
    by (auto simp: case_prod_beta)
qed simp

subsection \<open>The concealment filler decays\<close>

lemma decay_bound:
  assumes "\<bar>s\<bar> \<le> 32768"
  shows "\<bar>of_int (decay s) :: jsnum\<bar> \<le> 22/25 * \<bar>of_int s\<bar> + 501/1000"
proof -
  let ?c = "fl (88/100) :: jsnum" and ?s = "of_int s :: jsnum"
  have tiny: "(2::jsnum) powi (0 - 53) \<le> 1 / 10 ^ 9" "(2::jsnum) powi (16 - 53) \<le> 1 / 10 ^ 9"
    by (simp_all add: power_int_def power_divide)
  have s: "\<bar>?s\<bar> \<le> 32768" using assms by (simp flip: of_int_abs)
  have "\<bar>?c - 88/100\<bar> \<le> 2 powi (0 - 53)" by (rule fl_abs_bound) auto
  then have c: "\<bar>?c - 22/25\<bar> \<le> 1 / 10 ^ 9" using tiny(1) by simp
  have "?s * ?c = 22/25 * ?s + ?s * (?c - 22/25)" by (simp add: algebra_simps)
  moreover have "\<bar>?s * (?c - 22/25)\<bar> \<le> 32768 * (1 / 10 ^ 9)"
    unfolding abs_mult using s c by (intro mult_mono) auto
  ultimately have p: "\<bar>?s * ?c\<bar> \<le> 22/25 * \<bar>?s\<bar> + 32768 * (1 / 10 ^ 9)" by linarith
  have "\<bar>?s * ?c\<bar> \<le> 2 powi 16" using p s by (simp add: power_int_def)
  then have "\<bar>fl (?s * ?c) - ?s * ?c\<bar> \<le> 2 powi (16 - 53)" by (rule fl_abs_bound) auto
  then have m: "\<bar>mul_js ?s ?c\<bar> \<le> 22/25 * \<bar>?s\<bar> + 4/10 ^ 5"
  proof -
    have "\<bar>fl (?s * ?c)\<bar> \<le> \<bar>?s * ?c\<bar> + 1 / 10 ^ 9"
      using \<open>\<bar>fl (?s * ?c) - ?s * ?c\<bar> \<le> 2 powi (16 - 53)\<close> tiny(2) by linarith
    also have "\<dots> \<le> 22/25 * \<bar>?s\<bar> + (32768 * (1 / 10 ^ 9) + 1 / 10 ^ 9)" using p by linarith
    also have "\<dots> \<le> 22/25 * \<bar>?s\<bar> + 4/10 ^ 5" by (intro add_left_mono) simp
    finally show ?thesis unfolding mul_js_def .
  qed
  have "(4/10 ^ 5 :: jsnum) \<le> 1/1000" by simp
  then show ?thesis
    using math_round_bound[of "mul_js ?s ?c"] m unfolding decay_def by linarith
qed

lemma decay_le: "\<bar>s\<bar> \<le> 32768 \<Longrightarrow> \<bar>decay s\<bar> \<le> \<bar>s\<bar>"
proof -
  assume a: "\<bar>s\<bar> \<le> 32768"
  have "of_int \<bar>decay s\<bar> < (of_int (\<bar>s\<bar> + 1) :: jsnum)"
    using decay_bound[OF a] by simp
  then show ?thesis by (simp only: of_int_less_iff)
qed

lemma conceal_decays:
  assumes "\<bar>s\<bar> \<le> 32768"
  shows "\<bar>of_int (fst (conceal_samples n s)) :: jsnum\<bar> - 9/2 \<le> (22/25) ^ n * (\<bar>of_int s\<bar> - 9/2)
    \<and> (\<forall>x \<in> set (snd (conceal_samples n s)). \<bar>x\<bar> \<le> \<bar>decay s\<bar>)"
  using assms
proof (induction n arbitrary: s)
  case (Suc n)
  have d: "\<bar>decay s\<bar> \<le> \<bar>s\<bar>" using decay_le Suc.prems .
  then have b: "\<bar>decay s\<bar> \<le> 32768" using Suc.prems by simp
  let ?r = "conceal_samples n (decay s)"
  have "(22/25) ^ n * (\<bar>of_int (decay s) :: jsnum\<bar> - 9/2) \<le> (22/25) ^ n * (22/25 * (\<bar>of_int s\<bar> - 9/2))"
    using decay_bound[OF Suc.prems] by (intro mult_left_mono) auto
  also have "\<dots> = (22/25) ^ Suc n * (\<bar>of_int s\<bar> - 9/2)" by simp
  finally have m: "\<bar>of_int (fst ?r) :: jsnum\<bar> - 9/2 \<le> (22/25) ^ Suc n * (\<bar>of_int s\<bar> - 9/2)"
    using Suc.IH[OF b] by (blast intro: order_trans)
  have e: "conceal_samples (Suc n) s = (fst ?r, decay s # snd ?r)"
    by (simp add: case_prod_beta Let_def)
  have "\<bar>x\<bar> \<le> \<bar>decay s\<bar>" if "x \<in> set (snd ?r)" for x
    using Suc.IH[OF b] decay_le[OF b] that by (meson order_trans)
  then show ?case unfolding e using m by (auto simp del: power_Suc)
qed simp

subsection \<open>Properties\<close>

text \<open>
  C35. Along any run of the call (audio pushed, clock ticks, stop) the playout keeps its invariant:
  at most four seconds of audio buffered and an underrun counter below the concealment limit; and
  every tick of a running clock sends exactly one frame of 320 bytes, so the phone line never
  misses or doubles a 20 ms slot.
\<close>

theorem playout_clock:
  assumes "p = fst (run_stream (po_exec True) new_playout ops)"
  shows "length (po_buf p) \<le> 64000 \<and> 0 \<le> po_underrunMs p \<and> po_underrunMs p < 520 \<and>
    (\<not> po_stopped p \<longrightarrow> (\<exists>f. snd (po_exec True p (PoTick now)) = [f] \<and> length f = 320))"
proof -
  have "po_inv p"
    unfolding assms by (rule run_stream_inv) (auto intro: inv_intros)
  then show ?thesis
    using tick_frame[of p True now] by (auto simp: po_inv_def rtp_consts case_prod_beta)
qed

lemma playout_clock_witness:
  "\<exists>f. snd (po_exec True (fst (run_stream (po_exec True) new_playout [PoPush [1, 2], PoTick 5])) (PoTick 25))
     = [f] \<and> length f = 320"
proof -
  let ?p = "fst (run_stream (po_exec True) new_playout [PoPush [1, 2], PoTick 5])"
  have "\<not> po_stopped ?p" by (simp add: case_prod_beta) (simp add: new_playout_def)
  then show ?thesis
    using playout_clock[of ?p "[PoPush [1, 2], PoTick 5]" 25] by simp
qed

text \<open>
  C4. As long as the four-second buffer has room, the frames the clock sends whenever speech is due, joined together and
  followed by what is still buffered, are exactly the audio pushed, in order: nothing is lost, repeated, reordered or replaced
  by silence however pushes and clock ticks at whatever times interleave.
\<close>

theorem playout_in_order:
  assumes "fifo_fits po_push tick_speech po_room new_playout ops"
  shows "snd (fifo_run po_push tick_speech new_playout ops) @ po_buf (fst (fifo_run po_push tick_speech new_playout ops)) =
    fifo_input ops"
  using rtp_fifo.run_content[OF assms] by (simp add: new_playout_def)

lemma playout_in_order_witness:
  "snd (fifo_run po_push tick_speech new_playout [Inr (replicate 1930 1), Inl 20, Inr [2], Inl 40])
   @ po_buf (fst (fifo_run po_push tick_speech new_playout [Inr (replicate 1930 1), Inl 20, Inr [2], Inl 40]))
   = replicate 1930 1 @ [2]"
proof -
  let ?ops = "[Inr (replicate 1930 1), Inl 20, Inr [2], Inl 40] :: (msec + bytes) list"
  let ?p = "po_push new_playout (replicate 1930 1)"
  have b: "po_buf ?p = replicate 1930 1" by (simp add: po_push_def new_playout_def rtp_consts)
  have "length (po_buf (fst (tick_speech 20 ?p))) \<le> 1930"
    using tick_speech_buf[of 20 ?p] b by (metis length_append length_replicate le_add2)
  moreover have "\<not> po_stopped (fst (tick_speech 20 ?p))"
    by (simp add: tick_speech_def case_prod_beta) (simp add: new_playout_def)
  ultimately have "fifo_fits po_push tick_speech po_room new_playout ?ops"
    by (simp add: po_room_def rtp_consts) (simp add: new_playout_def)
  from playout_in_order[OF this] show ?thesis by (simp add: fifo_input_def)
qed

text \<open>
  Liveness of the echo guard's trigger: once speech is being played, the playout reports idle
  after at most one tick per buffered frame plus the 26 concealment ticks (520 ms), if nothing more
  is pushed.
\<close>

theorem playout_becomes_idle:
  assumes "po_inv p" and "po_speaking p" and "\<not> po_stopped p"
    and "length (po_buf p) div 320 + 26 \<le> length nows"
  shows "True \<in> set (po_idles rtp nows p)"
proof (rule speaking_drains[OF assms(1-3)])
  have "nat ((519 - po_underrunMs p) div 20 + 1) \<le> 26"
    using assms(1) zdiv_mono1[of "519 - po_underrunMs p" 519 20] by (simp add: po_inv_def rtp_consts)
  then show "ticks_left p \<le> length nows" using assms(4) by (auto simp: ticks_left_def)
qed

lemma playout_becomes_idle_witness:
  "True \<in> set (po_idles True (replicate 28 0)
     (new_playout\<lparr>po_buf := replicate 640 7, po_speaking := True\<rparr>))"
  by (rule playout_becomes_idle) (simp_all add: po_inv_def new_playout_def rtp_consts)

text \<open>
  A concealment frame fades the last sample: no sample of it is louder than the last one played,
  and after its 160 samples the level has fallen to at most 4 in either direction. (Rounding at 0.88
  never reaches 0 from there.)
\<close>

theorem concealFrame_fades:
  assumes "int16 (po_lastSample p)"
  shows "(\<forall>s \<in> set (bytes_to_samples (snd (concealFrame p))). \<bar>s\<bar> \<le> \<bar>po_lastSample p\<bar>) \<and>
    \<bar>po_lastSample (fst (concealFrame p))\<bar> \<le> 4"
proof -
  let ?l = "po_lastSample p" and ?r = "conceal_samples 160 (po_lastSample p)"
  have l: "\<bar>?l\<bar> \<le> 32768" using assms by (simp add: int16_def abs_le_iff)
  note d = conceal_decays[OF l, of 160]
  have l': "\<bar>of_int ?l :: jsnum\<bar> \<le> 32768" using l by (simp flip: of_int_abs)
  have "(22/25) ^ 160 * (\<bar>of_int ?l\<bar> - 9/2) \<le> (22/25) ^ 160 * (32768 :: jsnum)"
    using l' by (intro mult_left_mono) auto
  also have "\<dots> < 1/2" by (simp add: power_divide)
  finally have "\<bar>of_int (fst ?r) :: jsnum\<bar> < of_int 5" using d by simp
  then have f: "\<bar>fst ?r\<bar> < 5" by (simp only: of_int_less_iff flip: of_int_abs)
  have ds: "\<bar>of_int (decay ?l) :: jsnum\<bar> < of_int 28838" "\<bar>decay ?l\<bar> \<le> \<bar>?l\<bar>"
    using decay_bound[OF l] decay_le[OF l] l' by auto
  then have "\<bar>decay ?l\<bar> < 28838" by (simp only: of_int_less_iff flip: of_int_abs)
  then have "\<forall>s \<in> set (snd ?r). int16 s"
    using d by (fastforce simp: int16_def)
  then have "bytes_to_samples (snd (concealFrame p)) = snd ?r"
    by (simp add: concealFrame_def case_prod_beta)
  then show ?thesis using d ds(2) f by (auto simp: concealFrame_def case_prod_beta)
qed

lemma concealFrame_fades_witness:
  "\<bar>po_lastSample (fst (concealFrame (new_playout\<lparr>po_lastSample := -32768\<rparr>)))\<bar> \<le> 4"
  using concealFrame_fades[of "new_playout\<lparr>po_lastSample := -32768\<rparr>"] by (simp add: int16_def)

end
