(* ===== verification/SharedTypes.thy ===== *)
theory SharedTypes
  imports JsString
begin

text \<open>
  The shared data types of \<open>packages/shared/src/index.ts\<close>: deal, channel and call states, the deal
  card with its parts, the commercial policy with its defaults, and the queue names. Optional
  fields are options; JSON values no modelled operation looks into are left out of the records.
\<close>

datatype deal_status =
  Intake | Sizing | Customs | Quoting | Pricing | Negotiation | Contract | Execution
  | Awaiting_manager | Closed_won | Closed_lost | Cancelled

datatype channel = Telegram | Voice | Email

datatype call_status = Ringing | Active | Completed | Transferred | Failed

definition deal_closed :: "deal_status \<Rightarrow> bool" where
  "deal_closed s \<longleftrightarrow> s \<in> {Closed_won, Closed_lost, Cancelled}"

definition deal_status_name :: "deal_status \<Rightarrow> jstr" where
  "deal_status_name s = js (case s of Intake \<Rightarrow> ''intake'' | Sizing \<Rightarrow> ''sizing'' | Customs \<Rightarrow> ''customs''
     | Quoting \<Rightarrow> ''quoting'' | Pricing \<Rightarrow> ''pricing'' | Negotiation \<Rightarrow> ''negotiation''
     | Contract \<Rightarrow> ''contract'' | Execution \<Rightarrow> ''execution'' | Awaiting_manager \<Rightarrow> ''awaiting_manager''
     | Closed_won \<Rightarrow> ''closed_won'' | Closed_lost \<Rightarrow> ''closed_lost'' | Cancelled \<Rightarrow> ''cancelled'')"

datatype policy_scheme = ManualImport

record policy_config =
  target_margin_pct :: rat
  floor_margin_pct :: rat
  max_discount_pct :: rat
  escalate_amount_rub :: rat
  require_human_kp_approve :: bool
  first_reply_sla_sec :: nat
  quote_sla_hours :: nat
  learning_enabled :: bool
  canary_pct :: rat
  min_gross_profit_rub :: rat
  ru_vat_pct :: rat
  client_ru_sells_with_vat :: bool
  intl_freight_vat_pct :: rat
  broker_cost_rub :: rat
  broker_client_price_rub :: rat
  certification_markup_pct :: rat
  buyout_commission_pct :: rat
  buyout_fx_markup_rub :: rat
  prepay_preferred_pct :: rat
  prepay_min_pct_under_1m :: rat
  staged_payment_threshold_rub :: rat
  rfq_target_min :: nat
  rfq_target_max :: nat
  importer_scheme :: policy_scheme
  customs_confirmed_autonomy_threshold :: nat
  followup_default_hours :: "nat list"
  followup_urgent_hours :: nat
  shipment_urgent_days :: nat
  vip_volume_min :: nat
  vip_volume_max :: nat

definition DEFAULT_POLICY :: policy_config where
  "DEFAULT_POLICY = \<lparr>target_margin_pct = 18, floor_margin_pct = 10, max_discount_pct = 8,
     escalate_amount_rub = 500000, require_human_kp_approve = True, first_reply_sla_sec = 120,
     quote_sla_hours = 2, learning_enabled = True, canary_pct = 10, min_gross_profit_rub = 3000,
     ru_vat_pct = 22, client_ru_sells_with_vat = True, intl_freight_vat_pct = 0,
     broker_cost_rub = 15000, broker_client_price_rub = 20000, certification_markup_pct = 5,
     buyout_commission_pct = 5, buyout_fx_markup_rub = 45/100, prepay_preferred_pct = 100,
     prepay_min_pct_under_1m = 50, staged_payment_threshold_rub = 1000000, rfq_target_min = 10,
     rfq_target_max = 20, importer_scheme = ManualImport, customs_confirmed_autonomy_threshold = 500,
     followup_default_hours = [24, 72, 168], followup_urgent_hours = 2, shipment_urgent_days = 14,
     vip_volume_min = 5, vip_volume_max = 50\<rparr>"

datatype queue_name = QInbound | QOutbound | QOrchestrate | QEscalate | QChannel | QEmail | QOcr
  | QCalendar | QSla | QDigest | QLearning | QVoice | QDlq

fun QUEUES :: "queue_name \<Rightarrow> jstr" where
  "QUEUES QInbound = js ''alo-inbound''" | "QUEUES QOutbound = js ''alo-outbound''"
| "QUEUES QOrchestrate = js ''alo-orchestrate''" | "QUEUES QEscalate = js ''alo-escalate''"
| "QUEUES QChannel = js ''alo-channel''" | "QUEUES QEmail = js ''alo-email''"
| "QUEUES QOcr = js ''alo-ocr''" | "QUEUES QCalendar = js ''alo-calendar''"
| "QUEUES QSla = js ''alo-sla''" | "QUEUES QDigest = js ''alo-digest''"
| "QUEUES QLearning = js ''alo-learning''" | "QUEUES QVoice = js ''alo-voice''"
| "QUEUES QDlq = js ''alo-dlq''"

end
