(* ===== verification/Sessions.thy ===== *)
theory Sessions
  imports SharedTypes
begin

text \<open>
  The call registry of \<open>apps/voice-gateway/src/sessions.ts\<close> (class \<open>SessionManager\<close>): the two maps
  of live calls and the rows of the tables \<open>deals\<close> and \<open>call_sessions\<close> it reads and writes. Row ids
  come from a counter (the database generates fresh ones) and the clock is an argument. Closing a
  bridge is returned as the list of sessions whose bridge \<open>remove\<close> closes. Transcript entries keep
  role and text.
\<close>

type_synonym row_id = nat

record live_session =
  ls_callSessionId :: row_id
  ls_dealId :: row_id
  ls_phone :: jstr
  ls_providerCallId :: "jstr option"
  ls_transferRequested :: bool
  ls_maxCallTimer :: bool
  ls_bridge :: bool

record deal_row =
  dr_id :: row_id
  dr_channel :: channel
  dr_client_phone :: "jstr option"
  dr_client_name :: "jstr option"
  dr_status :: deal_status
  dr_updated_at :: msec

record call_row =
  cr_id :: row_id
  cr_deal_id :: row_id
  cr_provider_call_id :: "jstr option"
  cr_phone :: jstr
  cr_status :: call_status
  cr_started_at :: msec
  cr_ended_at :: "msec option"
  cr_recording_url :: "jstr option"
  cr_transcript :: "(jstr \<times> jstr) list"

record sessions =
  sm_live :: "row_id \<rightharpoonup> live_session"
  sm_byProviderId :: "jstr \<rightharpoonup> row_id"
  sm_deals :: "deal_row list"
  sm_calls :: "call_row list"
  sm_nextId :: row_id

definition sm_get :: "sessions \<Rightarrow> row_id \<Rightarrow> live_session option" where
  "sm_get sm i = sm_live sm i"

definition getByProviderCallId :: "sessions \<Rightarrow> jstr \<Rightarrow> live_session option" where
  "getByProviderCallId sm p = (case sm_byProviderId sm p of None \<Rightarrow> None | Some i \<Rightarrow> sm_live sm i)"

definition truthy :: "jstr option \<Rightarrow> bool" where
  "truthy s \<longleftrightarrow> s \<noteq> None \<and> s \<noteq> Some []"

definition sm_set :: "sessions \<Rightarrow> live_session \<Rightarrow> sessions" where
  "sm_set sm s =
     (let sm = sm\<lparr>sm_live := (sm_live sm)(ls_callSessionId s \<mapsto> s)\<rparr>
      in if truthy (ls_providerCallId s)
         then sm\<lparr>sm_byProviderId := (sm_byProviderId sm)(the (ls_providerCallId s) \<mapsto> ls_callSessionId s)\<rparr>
         else sm)"

definition sm_remove :: "sessions \<Rightarrow> row_id \<Rightarrow> sessions \<times> row_id list" where
  "sm_remove sm i =
     (case sm_live sm i of
        None \<Rightarrow> (sm\<lparr>sm_live := (sm_live sm)(i := None)\<rparr>, [])
      | Some s \<Rightarrow>
          (sm\<lparr>sm_byProviderId := (if truthy (ls_providerCallId s)
                 then (sm_byProviderId sm)(the (ls_providerCallId s) := None) else sm_byProviderId sm),
              sm_live := (sm_live sm)(i := None)\<rparr>,
           if ls_bridge s then [i] else []))"

definition normalizePhone :: "jstr \<Rightarrow> jstr" where
  "normalizePhone phone =
     (let raw = js_trim phone
      in if starts_with raw [43] then 43 # filter js_digit (drop 1 raw)
         else let digits = filter js_digit raw
              in if starts_with digits [56] \<and> length digits = 11 then [43, 55] @ drop 1 digits
                 else if starts_with digits [55] \<and> length digits = 11 then 43 # digits
                 else 43 # digits)"

text \<open>\<open>ORDER BY key DESC LIMIT 1\<close>: a row with the largest key, the first one in table order.\<close>

fun latest :: "('r \<Rightarrow> int) \<Rightarrow> 'r list \<Rightarrow> 'r option" where
  "latest k [] = None"
| "latest k (r # rs) =
     (case latest k rs of None \<Rightarrow> Some r | Some q \<Rightarrow> Some (if k q \<le> k r then r else q))"

definition open_voice_deal :: "sessions \<Rightarrow> jstr \<Rightarrow> deal_row option" where
  "open_voice_deal sm phone = latest dr_updated_at
     (filter (\<lambda>d. dr_channel d = Voice \<and> dr_client_phone d = Some phone \<and> \<not> deal_closed (dr_status d))
        (sm_deals sm))"

definition startCall ::
  "msec \<Rightarrow> sessions \<Rightarrow> jstr \<Rightarrow> jstr option \<Rightarrow> jstr option \<Rightarrow> sessions \<times> live_session" where
  "startCall now sm rawPhone providerCallId clientName =
     (let phone = normalizePhone rawPhone;
          (sm, dealId) = (case open_voice_deal sm phone of
             Some d \<Rightarrow> (sm, dr_id d)
           | None \<Rightarrow> (sm\<lparr>sm_deals := sm_deals sm @
                 [\<lparr>dr_id = sm_nextId sm, dr_channel = Voice, dr_client_phone = Some phone,
                   dr_client_name = clientName, dr_status = Intake, dr_updated_at = now\<rparr>],
                 sm_nextId := sm_nextId sm + 1\<rparr>, sm_nextId sm));
          callSessionId = sm_nextId sm;
          sm = sm\<lparr>sm_calls := sm_calls sm @
                 [\<lparr>cr_id = callSessionId, cr_deal_id = dealId, cr_provider_call_id = providerCallId,
                   cr_phone = phone, cr_status = Ringing, cr_started_at = now, cr_ended_at = None,
                   cr_recording_url = None, cr_transcript = []\<rparr>],
                 sm_nextId := sm_nextId sm + 1\<rparr>;
          session = \<lparr>ls_callSessionId = callSessionId, ls_dealId = dealId, ls_phone = phone,
                     ls_providerCallId = providerCallId, ls_transferRequested = False,
                     ls_maxCallTimer = False, ls_bridge = False\<rparr>
      in (sm_set sm session, session))"

definition markActive :: "sessions \<Rightarrow> row_id \<Rightarrow> sessions" where
  "markActive sm i = sm\<lparr>sm_calls := update_where (\<lambda>r. cr_id r = i) (\<lambda>r. r\<lparr>cr_status := Active\<rparr>) (sm_calls sm)\<rparr>"

definition appendTranscript :: "sessions \<Rightarrow> row_id \<Rightarrow> jstr \<Rightarrow> jstr \<Rightarrow> sessions" where
  "appendTranscript sm i role txt = sm\<lparr>sm_calls := update_where (\<lambda>r. cr_id r = i)
     (\<lambda>r. r\<lparr>cr_transcript := cr_transcript r @ [(role, txt)]\<rparr>) (sm_calls sm)\<rparr>"

definition endCall :: "msec \<Rightarrow> sessions \<Rightarrow> row_id \<Rightarrow> call_status \<Rightarrow> jstr option \<Rightarrow> sessions \<times> row_id list" where
  "endCall now sm i status recordingUrl =
     sm_remove (sm\<lparr>sm_calls := update_where (\<lambda>r. cr_id r = i)
       (\<lambda>r. r\<lparr>cr_status := status, cr_ended_at := Some now,
              cr_recording_url := (case recordingUrl of None \<Rightarrow> cr_recording_url r | Some u \<Rightarrow> Some u)\<rparr>)
       (sm_calls sm)\<rparr>) i"

definition sm_getById :: "sessions \<Rightarrow> row_id \<Rightarrow> call_row option" where
  "sm_getById sm i = find (\<lambda>r. cr_id r = i) (sm_calls sm)"

definition loadLive :: "sessions \<Rightarrow> row_id \<Rightarrow> sessions \<times> live_session option" where
  "loadLive sm i =
     (case sm_live sm i of
        Some s \<Rightarrow> (sm, Some s)
      | None \<Rightarrow>
          case sm_getById sm i of
            None \<Rightarrow> (sm, None)
          | Some row \<Rightarrow>
              let session = \<lparr>ls_callSessionId = cr_id row, ls_dealId = cr_deal_id row,
                    ls_phone = cr_phone row, ls_providerCallId = cr_provider_call_id row,
                    ls_transferRequested = False, ls_maxCallTimer = False, ls_bridge = False\<rparr>
              in (sm_set sm session, Some session))"

definition getActiveForDeal :: "sessions \<Rightarrow> row_id \<Rightarrow> call_row option" where
  "getActiveForDeal sm dealId = latest cr_started_at
     (filter (\<lambda>r. cr_deal_id r = dealId \<and> cr_status r \<in> {Ringing, Active}) (sm_calls sm))"

text \<open>The fields of a live session the call handler sets in place.\<close>

definition sm_update :: "sessions \<Rightarrow> row_id \<Rightarrow> (live_session \<Rightarrow> live_session) \<Rightarrow> sessions" where
  "sm_update sm i f = sm\<lparr>sm_live := (sm_live sm)(i := map_option f (sm_live sm i))\<rparr>"

subsection \<open>Invariant\<close>

text \<open>
  Every live session is stored under its own id and belongs to a row of the table; the provider
  index only leads to live sessions with that provider id; ids of rows are distinct and below the
  counter.
\<close>

definition sm_inv :: "sessions \<Rightarrow> bool" where
  "sm_inv sm \<longleftrightarrow>
     (\<forall>i s. sm_live sm i = Some s \<longrightarrow> ls_callSessionId s = i \<and> i \<in> cr_id ` set (sm_calls sm)) \<and>
     (\<forall>p i. sm_byProviderId sm p = Some i \<longrightarrow>
        (\<exists>s. sm_live sm i = Some s \<and> ls_providerCallId s = Some p \<and> p \<noteq> [])) \<and>
     distinct (map cr_id (sm_calls sm)) \<and>
     (\<forall>r \<in> set (sm_calls sm). cr_id r < sm_nextId sm) \<and>
     (\<forall>d \<in> set (sm_deals sm). dr_id d < sm_nextId sm)"

lemma sm_invD:
  assumes "sm_inv sm"
  shows "sm_live sm i = Some s \<Longrightarrow> ls_callSessionId s = i"
    and "sm_live sm i = Some s \<Longrightarrow> i \<in> cr_id ` set (sm_calls sm)"
    and "sm_byProviderId sm p = Some i \<Longrightarrow>
      \<exists>s. sm_live sm i = Some s \<and> ls_providerCallId s = Some p \<and> p \<noteq> []"
    and "r \<in> set (sm_calls sm) \<Longrightarrow> cr_id r < sm_nextId sm"
    and "d \<in> set (sm_deals sm) \<Longrightarrow> dr_id d < sm_nextId sm"
    and "distinct (map cr_id (sm_calls sm))"
  using assms unfolding sm_inv_def by auto

lemma sm_invI:
  assumes "\<And>i s. sm_live sm i = Some s \<Longrightarrow> ls_callSessionId s = i \<and> i \<in> cr_id ` set (sm_calls sm)"
    and "\<And>p i. sm_byProviderId sm p = Some i \<Longrightarrow>
      \<exists>s. sm_live sm i = Some s \<and> ls_providerCallId s = Some p \<and> p \<noteq> []"
    and "distinct (map cr_id (sm_calls sm))"
    and "\<And>r. r \<in> set (sm_calls sm) \<Longrightarrow> cr_id r < sm_nextId sm"
    and "\<And>d. d \<in> set (sm_deals sm) \<Longrightarrow> dr_id d < sm_nextId sm"
  shows "sm_inv sm"
  using assms unfolding sm_inv_def by blast

lemma sm_set_simps [simp]:
  "sm_live (sm_set sm s) = (sm_live sm)(ls_callSessionId s \<mapsto> s)"
  "sm_byProviderId (sm_set sm s) = (if truthy (ls_providerCallId s)
     then (sm_byProviderId sm)(the (ls_providerCallId s) \<mapsto> ls_callSessionId s) else sm_byProviderId sm)"
  "sm_calls (sm_set sm s) = sm_calls sm" "sm_deals (sm_set sm s) = sm_deals sm"
  "sm_nextId (sm_set sm s) = sm_nextId sm"
  by (simp_all add: sm_set_def Let_def)

lemma truthy_iff: "truthy x \<longleftrightarrow> (\<exists>p. x = Some p \<and> p \<noteq> [])"
  by (cases x) (auto simp: truthy_def)

lemma sm_set_inv [inv_intros]:
  assumes "sm_inv sm" and "ls_callSessionId s \<in> cr_id ` set (sm_calls sm)"
    and none: "sm_live sm (ls_callSessionId s) = None"
  shows "sm_inv (sm_set sm s)"
proof (rule sm_invI)
  fix p i assume a: "sm_byProviderId (sm_set sm s) p = Some i"
  show "\<exists>s'. sm_live (sm_set sm s) i = Some s' \<and> ls_providerCallId s' = Some p \<and> p \<noteq> []"
  proof (cases "truthy (ls_providerCallId s) \<and> the (ls_providerCallId s) = p")
    case True
    then show ?thesis using a by (auto simp: truthy_iff)
  next
    case False
    then have "sm_byProviderId sm p = Some i" using a by (auto split: if_splits)
    then obtain s' where "sm_live sm i = Some s'" "ls_providerCallId s' = Some p" "p \<noteq> []"
      using sm_invD(3)[OF assms(1)] by blast
    moreover have "i \<noteq> ls_callSessionId s" using calculation(1) none by auto
    ultimately show ?thesis by simp
  qed
qed (use assms sm_invD[OF assms(1)] in \<open>auto split: if_splits\<close>)

lemma sm_remove_state:
  "fst (sm_remove sm i) = sm\<lparr>sm_live := (sm_live sm)(i := None),
     sm_byProviderId := (case sm_live sm i of None \<Rightarrow> sm_byProviderId sm
       | Some s \<Rightarrow> if truthy (ls_providerCallId s)
           then (sm_byProviderId sm)(the (ls_providerCallId s) := None) else sm_byProviderId sm)\<rparr>"
  by (simp add: sm_remove_def split: option.splits)

lemma sm_remove_inv [inv_intros]:
  assumes "sm_inv sm"
  shows "sm_inv (fst (sm_remove sm i))"
proof (rule sm_invI)
  fix p j assume a: "sm_byProviderId (fst (sm_remove sm i)) p = Some j"
  then have "sm_byProviderId sm p = Some j"
    by (auto simp: sm_remove_state split: option.splits if_splits)
  then obtain s where s: "sm_live sm j = Some s" "ls_providerCallId s = Some p" "p \<noteq> []"
    using sm_invD(3)[OF assms] by blast
  have "j \<noteq> i"
  proof
    assume "j = i"
    then have "sm_byProviderId (fst (sm_remove sm i)) p = None"
      using s by (simp add: sm_remove_state truthy_iff)
    then show False using a by simp
  qed
  then show "\<exists>s. sm_live (fst (sm_remove sm i)) j = Some s \<and> ls_providerCallId s = Some p \<and> p \<noteq> []"
    using s by (simp add: sm_remove_state)
qed (use sm_invD[OF assms] in \<open>auto simp: sm_remove_state split: if_splits\<close>)

lemma sm_calls_update_inv:
  assumes "sm_inv sm" and "\<And>r. cr_id (f r) = cr_id r"
  shows "sm_inv (sm\<lparr>sm_calls := update_where p f (sm_calls sm)\<rparr>)"
proof -
  have "cr_id ` set (update_where p f (sm_calls sm)) = cr_id ` set (sm_calls sm)"
    using assms(2) map_update_where_key[of cr_id f p "sm_calls sm"] by (metis list.set_map)
  then show ?thesis
    using assms by (force simp: sm_inv_def in_set_update_where)
qed

lemma markActive_inv [inv_intros]: "sm_inv sm \<Longrightarrow> sm_inv (markActive sm i)"
  unfolding markActive_def by (rule sm_calls_update_inv) auto

lemma appendTranscript_inv [inv_intros]: "sm_inv sm \<Longrightarrow> sm_inv (appendTranscript sm i r t)"
  unfolding appendTranscript_def by (rule sm_calls_update_inv) auto

lemma endCall_inv [inv_intros]: "sm_inv sm \<Longrightarrow> sm_inv (fst (endCall now sm i st u))"
  unfolding endCall_def by (rule sm_remove_inv, rule sm_calls_update_inv) auto

lemma loadLive_inv [inv_intros]: "sm_inv sm \<Longrightarrow> sm_inv (fst (loadLive sm i))"
  by (auto simp: loadLive_def sm_getById_def Let_def split: option.splits intro!: sm_set_inv dest!: find_SomeD)

lemma sm_update_inv [inv_intros]:
  assumes "sm_inv sm" and "\<And>s. ls_callSessionId (f s) = ls_callSessionId s"
    and "\<And>s. ls_providerCallId (f s) = ls_providerCallId s"
  shows "sm_inv (sm_update sm i f)"
proof (rule sm_invI)
  fix p j assume "sm_byProviderId (sm_update sm i f) p = Some j"
  then obtain s where s: "sm_live sm j = Some s" "ls_providerCallId s = Some p" "p \<noteq> []"
    using sm_invD(3)[OF assms(1)] by (auto simp: sm_update_def)
  then show "\<exists>s. sm_live (sm_update sm i f) j = Some s \<and> ls_providerCallId s = Some p \<and> p \<noteq> []"
    using assms(3) by (cases "j = i") (simp_all add: sm_update_def)
next
  fix j s assume "sm_live (sm_update sm i f) j = Some s"
  then show "ls_callSessionId s = j \<and> j \<in> cr_id ` set (sm_calls (sm_update sm i f))"
    using sm_invD(1,2)[OF assms(1)] assms(2) by (auto simp: sm_update_def split: if_splits)
qed (use sm_invD[OF assms(1)] in \<open>simp_all add: sm_update_def\<close>)

lemma startCall_decomp:
  obtains sm1 deal where
    "sm1 = sm \<or> sm1 = sm\<lparr>sm_deals := sm_deals sm @ [deal], sm_nextId := sm_nextId sm + 1\<rparr>"
    "dr_id deal = sm_nextId sm"
    "snd (startCall now sm ph p n) = \<lparr>ls_callSessionId = sm_nextId sm1,
       ls_dealId = ls_dealId (snd (startCall now sm ph p n)), ls_phone = normalizePhone ph,
       ls_providerCallId = p, ls_transferRequested = False, ls_maxCallTimer = False, ls_bridge = False\<rparr>"
    "fst (startCall now sm ph p n) = sm_set (sm1\<lparr>sm_calls := sm_calls sm1 @
       [\<lparr>cr_id = sm_nextId sm1, cr_deal_id = ls_dealId (snd (startCall now sm ph p n)),
         cr_provider_call_id = p, cr_phone = normalizePhone ph, cr_status = Ringing,
         cr_started_at = now, cr_ended_at = None, cr_recording_url = None, cr_transcript = []\<rparr>],
       sm_nextId := sm_nextId sm1 + 1\<rparr>) (snd (startCall now sm ph p n))"
proof (cases "open_voice_deal sm (normalizePhone ph)")
  case None
  show ?thesis
    by (rule that[of "sm\<lparr>sm_deals := sm_deals sm @ [\<lparr>dr_id = sm_nextId sm, dr_channel = Voice,
        dr_client_phone = Some (normalizePhone ph), dr_client_name = n, dr_status = Intake,
        dr_updated_at = now\<rparr>], sm_nextId := sm_nextId sm + 1\<rparr>" "\<lparr>dr_id = sm_nextId sm, dr_channel = Voice,
        dr_client_phone = Some (normalizePhone ph), dr_client_name = n, dr_status = Intake,
        dr_updated_at = now\<rparr>"])
      (simp_all add: startCall_def Let_def None)
next
  case (Some d)
  show ?thesis
    by (rule that[of sm "\<lparr>dr_id = sm_nextId sm, dr_channel = Voice,
        dr_client_phone = None, dr_client_name = n, dr_status = Intake, dr_updated_at = now\<rparr>"])
      (simp_all add: startCall_def Let_def Some)
qed

lemma startCall_inv [inv_intros]:
  assumes "sm_inv sm"
  shows "sm_inv (fst (startCall now sm ph p n))"
proof (cases now sm ph p n rule: startCall_decomp)
  case (1 sm1 deal)
  have i1: "sm_inv sm1" "sm_live sm1 = sm_live sm"
    using 1(1,2) assms by (auto simp: sm_inv_def less_Suc_eq)
  have fresh: "sm_nextId sm1 \<notin> cr_id ` set (sm_calls sm1)" using sm_invD(4)[OF i1(1)] by force
  then have none: "sm_live sm1 (sm_nextId sm1) = None" using sm_invD(2)[OF i1(1)] by (metis not_None_eq)
  have k: "ls_callSessionId (snd (startCall now sm ph p n)) = sm_nextId sm1" by (subst 1(3)) simp
  show ?thesis unfolding 1(4)
  proof (rule sm_set_inv)
    show "sm_inv (sm1\<lparr>sm_calls := sm_calls sm1 @ [\<lparr>cr_id = sm_nextId sm1,
        cr_deal_id = ls_dealId (snd (startCall now sm ph p n)), cr_provider_call_id = p,
        cr_phone = normalizePhone ph, cr_status = Ringing, cr_started_at = now, cr_ended_at = None,
        cr_recording_url = None, cr_transcript = []\<rparr>], sm_nextId := sm_nextId sm1 + 1\<rparr>)"
      using i1(1) fresh unfolding sm_inv_def by (auto simp: less_Suc_eq)
  qed (use none k in simp_all)
qed

lemma sm_inv_empty [inv_intros]:
  "sm_inv \<lparr>sm_live = Map.empty, sm_byProviderId = Map.empty, sm_deals = [], sm_calls = [], sm_nextId = 0\<rparr>"
  by (rule sm_invI) auto

subsection \<open>The registry as a store\<close>

text \<open>
  What the call handler and the HTTP routes rely on: a stored session is found under its key until
  it is removed, and the other sessions are not affected. Any sequence of operations then
  acts as the corresponding updates of a finite map.
\<close>

datatype ('k, 'v) store_op = Put 'v | Del 'k

fun store_run :: "('s \<Rightarrow> 'v \<Rightarrow> 's) \<Rightarrow> ('s \<Rightarrow> 'k \<Rightarrow> 's) \<Rightarrow> 's \<Rightarrow> ('k, 'v) store_op list \<Rightarrow> 's" where
  "store_run put del s [] = s"
| "store_run put del s (Put v # ops) = store_run put del (put s v) ops"
| "store_run put del s (Del k # ops) = store_run put del (del s k) ops"

definition map_put :: "('v \<Rightarrow> 'k) \<Rightarrow> ('k \<rightharpoonup> 'v) \<Rightarrow> 'v \<Rightarrow> ('k \<rightharpoonup> 'v)" where
  "map_put key m v = m(key v \<mapsto> v)"

definition map_del :: "('k \<rightharpoonup> 'v) \<Rightarrow> 'k \<Rightarrow> ('k \<rightharpoonup> 'v)" where
  "map_del m k = m(k := None)"

locale session_store =
  fixes get :: "'s \<Rightarrow> 'k \<Rightarrow> 'v option" and put :: "'s \<Rightarrow> 'v \<Rightarrow> 's" and del :: "'s \<Rightarrow> 'k \<Rightarrow> 's"
    and key :: "'v \<Rightarrow> 'k"
  assumes get_put: "get (put s v) k = (if k = key v then Some v else get s k)"
    and get_del: "get (del s k') k = (if k = k' then None else get s k)"
begin

lemma run_refines: "get (store_run put del s ops) = store_run (map_put key) map_del (get s) ops"
proof (induction ops arbitrary: s)
  case (Cons op ops)
  have "get (put s v) = map_put key (get s) v" for v by (rule ext) (simp add: get_put map_put_def)
  moreover have "get (del s k) = map_del (get s) k" for k by (rule ext) (simp add: get_del map_del_def)
  ultimately show ?case using Cons by (cases op) simp_all
qed simp

lemma put_del_put: "get (put (del (put s v) (key v)) v) = get (put s v)"
  by (rule ext) (simp add: get_put get_del)

end

interpretation call_store: session_store sm_get sm_set "\<lambda>sm i. fst (sm_remove sm i)" ls_callSessionId
  by unfold_locales (simp_all add: sm_get_def sm_remove_state)

subsection \<open>Deals and phones\<close>

lemma latest_in: "latest k rs = Some r \<Longrightarrow> r \<in> set rs"
  by (induction rs arbitrary: r) (auto split: option.splits if_splits)

lemma latest_None [simp]: "latest k rs = None \<longleftrightarrow> rs = []"
  by (cases rs) (auto split: option.splits)

lemma latest_max: "latest k rs = Some r \<Longrightarrow> q \<in> set rs \<Longrightarrow> k q \<le> k r"
  by (induction rs arbitrary: r q) (fastforce split: option.splits if_splits)+

lemma startCall_deals:
  "sm_deals (fst (startCall now sm ph p n)) = (case open_voice_deal sm (normalizePhone ph) of
     Some d \<Rightarrow> sm_deals sm
   | None \<Rightarrow> sm_deals sm @ [\<lparr>dr_id = sm_nextId sm, dr_channel = Voice,
        dr_client_phone = Some (normalizePhone ph), dr_client_name = n, dr_status = Intake,
        dr_updated_at = now\<rparr>])"
  "ls_dealId (snd (startCall now sm ph p n)) = (case open_voice_deal sm (normalizePhone ph) of
     Some d \<Rightarrow> dr_id d | None \<Rightarrow> sm_nextId sm)"
  by (auto simp: startCall_def Let_def split: option.splits)

lemma open_voice_deal_cong: "sm_deals a = sm_deals b \<Longrightarrow> open_voice_deal a ph = open_voice_deal b ph"
  by (simp add: open_voice_deal_def)

lemma open_deal_after_start:
  assumes "sm_deals sm' = sm_deals (fst (startCall now sm ph p n))"
  shows "map_option dr_id (open_voice_deal sm' (normalizePhone ph)) = Some (ls_dealId (snd (startCall now sm ph p n)))"
proof (cases "open_voice_deal sm (normalizePhone ph)")
  case None
  then have "filter (\<lambda>d. dr_channel d = Voice \<and> dr_client_phone d = Some (normalizePhone ph) \<and>
      \<not> deal_closed (dr_status d)) (sm_deals sm) = []" by (simp add: open_voice_deal_def)
  then show ?thesis
    using assms None unfolding startCall_deals(1) None
    by (simp add: open_voice_deal_def startCall_deals(2) deal_closed_def)
next
  case (Some d)
  then have "open_voice_deal sm' (normalizePhone ph) = Some d"
    using assms by (simp add: startCall_deals open_voice_deal_cong[of sm' sm])
  then show ?thesis by (simp add: startCall_deals(2) Some)
qed

lemma digit_not_space: "js_digit c \<Longrightarrow> \<not> js_space c"
  by (auto simp: js_digit_def js_space_def)

lemma normalizePhone_shape: "\<exists>ds. normalizePhone ph = 43 # ds \<and> (\<forall>c \<in> set ds. js_digit c)"
proof -
  define raw where "raw = js_trim ph"
  define ds where "ds = filter js_digit raw"
  have seven: "\<forall>c \<in> set (55 # drop 1 ds). js_digit c"
    by (auto simp: js_digit_def ds_def dest: in_set_dropD)
  have e: "normalizePhone ph = (if starts_with raw [43] then 43 # filter js_digit (drop 1 raw)
      else if starts_with ds [56] \<and> length ds = 11 then 43 # 55 # drop 1 ds else 43 # ds)"
    by (simp add: normalizePhone_def Let_def raw_def ds_def)
  have all: "\<forall>c \<in> set (filter js_digit l). js_digit c" for l by simp
  show ?thesis
  proof (cases "starts_with raw [43]")
    case True
    then show ?thesis unfolding e using all by (simp only: if_True) blast
  next
    case False
    then show ?thesis
    proof (cases "starts_with ds [56] \<and> length ds = 11")
      case 2: True
      show ?thesis unfolding e using seven by (simp only: if_P[OF 2] if_not_P[OF False]) blast
    next
      case 2: False
      show ?thesis unfolding e using all[of raw]
        by (simp only: if_not_P[OF 2] if_not_P[OF False] ds_def[symmetric]) blast
    qed
  qed
qed

lemma normalizePhone_plus: "\<forall>c \<in> set ds. js_digit c \<Longrightarrow> normalizePhone (43 # ds) = 43 # ds"
proof -
  assume d: "\<forall>c \<in> set ds. js_digit c"
  then have "js_trim (43 # ds) = 43 # ds"
    by (intro js_trim_id) (auto simp: js_space_def js_digit_def)
  then show ?thesis using d by (simp add: normalizePhone_def filter_id_conv)
qed

subsection \<open>Properties\<close>

datatype sm_op = OpStart msec jstr "jstr option" "jstr option" | OpActive row_id
  | OpTranscript row_id jstr jstr | OpEnd msec row_id call_status "jstr option" | OpLoad row_id
  | OpRemove row_id

fun sm_exec :: "sessions \<Rightarrow> sm_op \<Rightarrow> sessions" where
  "sm_exec sm (OpStart now ph p n) = fst (startCall now sm ph p n)"
| "sm_exec sm (OpActive i) = markActive sm i"
| "sm_exec sm (OpTranscript i r t) = appendTranscript sm i r t"
| "sm_exec sm (OpEnd now i st u) = fst (endCall now sm i st u)"
| "sm_exec sm (OpLoad i) = fst (loadLive sm i)"
| "sm_exec sm (OpRemove i) = fst (sm_remove sm i)"

lemma sm_exec_inv: "sm_inv sm \<Longrightarrow> sm_inv (foldl sm_exec sm ops)"
proof (induction ops arbitrary: sm)
  case (Cons op ops)
  then show ?case by (cases op) (auto intro: inv_intros)
qed simp

text \<open>
  C7. Whatever sequence of registry operations runs (calls started, activated, ended, reloaded,
  transcripts appended), the invariant holds: every live call is stored under its own id and has a row, and
  looking a call up by the provider's call id gives a live call with exactly that provider id.
\<close>

theorem provider_lookup_sound:
  assumes "sm_inv sm" and "getByProviderCallId (foldl sm_exec sm ops) p = Some s"
  shows "ls_providerCallId s = Some p \<and> sm_get (foldl sm_exec sm ops) (ls_callSessionId s) = Some s \<and>
    (\<exists>r \<in> set (sm_calls (foldl sm_exec sm ops)). cr_id r = ls_callSessionId s)"
proof -
  let ?t = "foldl sm_exec sm ops"
  have t: "sm_inv ?t" by (rule sm_exec_inv[OF assms(1)])
  obtain i where i: "sm_byProviderId ?t p = Some i" "sm_live ?t i = Some s"
    using assms(2) by (auto simp: getByProviderCallId_def split: option.splits)
  then have k: "ls_callSessionId s = i" using sm_invD(1)[OF t] by blast
  then show ?thesis
    using i sm_invD(2)[OF t i(2)] sm_invD(3)[OF t i(1)] by (auto simp: sm_get_def)
qed

definition no_sessions :: sessions where
  "no_sessions = \<lparr>sm_live = Map.empty, sm_byProviderId = Map.empty, sm_deals = [], sm_calls = [], sm_nextId = 0\<rparr>"

lemma provider_lookup_sound_witness:
  "\<exists>s. getByProviderCallId (foldl sm_exec no_sessions [OpStart 5 [43, 55] (Some [1]) None, OpActive 1]) [1] = Some s
    \<and> ls_providerCallId s = Some [1]"
proof -
  let ?t = "foldl sm_exec no_sessions [OpStart 5 [43, 55] (Some [1]) None, OpActive 1]"
  have "\<exists>s. getByProviderCallId ?t [1] = Some s"
    by (simp add: getByProviderCallId_def markActive_def startCall_def Let_def no_sessions_def
        open_voice_deal_def truthy_def)
  then obtain s where s: "getByProviderCallId ?t [1] = Some s" by blast
  have "sm_inv no_sessions" unfolding no_sessions_def by (rule sm_inv_empty)
  from provider_lookup_sound[OF this s] show ?thesis using s by blast
qed

text \<open>
  A caller who rings again while the first deal is open is attached to the same deal, however
  the number is written (8..., 7..., +7..., with spaces or brackets): two calls whose numbers
  normalise alike share one voice deal as long as the deals table was not changed in between.
\<close>

theorem same_caller_same_deal:
  assumes "normalizePhone ph' = normalizePhone ph"
    and "sm_deals sm' = sm_deals (fst (startCall now sm ph p n))"
  shows "ls_dealId (snd (startCall now' sm' ph' p' n')) = ls_dealId (snd (startCall now sm ph p n)) \<and>
    sm_deals (fst (startCall now' sm' ph' p' n')) = sm_deals sm'"
  using open_deal_after_start[OF assms(2)] assms(1)
  by (auto simp: startCall_deals split: option.splits)

lemma same_caller_same_deal_witness:
  "ls_dealId (snd (startCall 9 (fst (startCall 5 no_sessions (js ''89161234567'') None None)) (js ''+7 916 123-45-67'') None None)) =
   ls_dealId (snd (startCall 5 no_sessions (js ''89161234567'') None None))"
  using same_caller_same_deal[of "js ''+7 916 123-45-67''" "js ''89161234567''"
      "fst (startCall 5 no_sessions (js ''89161234567'') None None)" 5 no_sessions None None]
  by (simp add: normalizePhone_def Let_def js_def js_trim_def js_space_def js_digit_def)

text \<open>
  Phone normalisation is idempotent and always yields a plus sign followed by digits only.
\<close>

theorem normalizePhone_idempotent:
  "normalizePhone (normalizePhone ph) = normalizePhone ph \<and>
   (\<exists>ds. normalizePhone ph = 43 # ds \<and> list_all js_digit ds)"
proof -
  obtain ds where "normalizePhone ph = 43 # ds" "\<forall>c \<in> set ds. js_digit c"
    using normalizePhone_shape by blast
  then show ?thesis using normalizePhone_plus by (auto simp: list_all_iff)
qed

end
