(* ===== verification/SipConfig.thy ===== *)
theory SipConfig
  imports JsString
begin

text \<open>
  Configuration of the SIP trunk: provider presets (\<open>sip/providers.ts\<close>), the environment reader
  (\<open>sip/config.ts\<close>) and the business-hours check (\<open>sip/hours.ts\<close>). The environment is a
  function from variable names to optional strings. \<open>Intl.DateTimeFormat\<close> is represented by what
  the code reads from it, the hour and the weekday of the current time in the zone. The label and
  documentation address of a preset, which no operation reads, are not part of the record.
\<close>

subsection \<open>Provider presets\<close>

datatype sip_provider_id = Zadarma | Beeline

datatype sip_codec = CodecPcma | CodecPcmu

record sip_provider_preset =
  pp_id :: sip_provider_id
  pp_domain :: jstr
  pp_codec :: sip_codec
  pp_registerExpires :: rat
  pp_authUserIncludesDomain :: bool
  pp_outboundProxy :: "jstr option"

fun SIP_PROVIDERS :: "sip_provider_id \<Rightarrow> sip_provider_preset" where
  "SIP_PROVIDERS Zadarma = \<lparr>pp_id = Zadarma, pp_domain = js ''sip.zadarma.com'', pp_codec = CodecPcma,
     pp_registerExpires = 600, pp_authUserIncludesDomain = False, pp_outboundProxy = None\<rparr>"
| "SIP_PROVIDERS Beeline = \<lparr>pp_id = Beeline, pp_domain = js ''sip.beeline.ru'', pp_codec = CodecPcma,
     pp_registerExpires = 3600, pp_authUserIncludesDomain = True, pp_outboundProxy = None\<rparr>"

definition SIP_ALIASES :: "(jstr \<times> sip_provider_id) list" where
  "SIP_ALIASES = [(js ''zadarma'', Zadarma), (js ''beeline'', Beeline), (js ''beeline_business'', Beeline),
     (js ''beeline-business'', Beeline), (js ''beelinebusiness'', Beeline), (js ''bilayn'', Beeline),
     ([1073, 1080, 1083, 1072, 1081, 1085], Beeline)]"

text \<open>
  Plain objects also answer to the names they inherit: of these, \<open>constructor\<close> and \<open>__proto__\<close> are
  in lower case, so \<open>ALIASES[key]\<close> is a truthy value that is no provider, and
  \<open>SIP_PROVIDERS[id]\<close> is \<open>undefined\<close>.
\<close>

definition INHERITED_KEYS :: "jstr list" where
  "INHERITED_KEYS = [js ''constructor'', js ''__proto__'']"

datatype resolve_result = Preset sip_provider_preset | UndefinedPreset | UnknownProvider

definition resolveSipProvider :: "jstr option \<Rightarrow> resolve_result" where
  "resolveSipProvider raw =
     (let key = js_toLowerCase (js_trim (js_or raw (js ''zadarma'')))
      in if key \<in> set INHERITED_KEYS then UndefinedPreset
         else case map_of SIP_ALIASES key of
                Some i \<Rightarrow> Preset (SIP_PROVIDERS i)
              | None \<Rightarrow> UnknownProvider)"

definition listSipProviders :: "sip_provider_preset list" where
  "listSipProviders = [SIP_PROVIDERS Zadarma, SIP_PROVIDERS Beeline]"

subsection \<open>Reading the environment\<close>

type_synonym env = "string \<Rightarrow> jstr option"

definition truthy_words :: "jstr list" where
  "truthy_words = [js ''1'', js ''true'', js ''yes'', js ''on'']"

definition envBool :: "env \<Rightarrow> string \<Rightarrow> bool \<Rightarrow> bool" where
  "envBool env name fallback =
     (case env name of None \<Rightarrow> fallback
      | Some v \<Rightarrow> if v = [] then fallback else js_toLowerCase v \<in> set truthy_words)"

definition env_number :: "env \<Rightarrow> string \<Rightarrow> numval" where
  "env_number env name = (case env name of None \<Rightarrow> NaN | Some v \<Rightarrow> js_Number v)"

definition envInt :: "env \<Rightarrow> string \<Rightarrow> rat \<Rightarrow> rat" where
  "envInt env name fallback =
     (case env_number env name of Num n \<Rightarrow> if 0 < n then n else fallback | _ \<Rightarrow> fallback)"

text \<open>\<open>/;.*$/\<close> removes from the first semicolon after which no line break follows.\<close>

fun strip_params :: "jstr \<Rightarrow> jstr" where
  "strip_params [] = []"
| "strip_params (c # s) =
     (if c = 59 \<and> \<not> (\<exists>x \<in> set s. js_eol x) then [] else c # strip_params s)"

definition stripSipPrefix :: "jstr \<Rightarrow> jstr" where
  "stripSipPrefix host =
     (let h = (if js_toLowerCase (take 4 host) = js ''sip:'' then drop 4 host else host)
      in js_trim (strip_params h))"

datatype sip_transport = Udp | Tcp

record sip_config =
  sc_enabled :: bool
  sc_provider :: sip_provider_id
  sc_domain :: jstr
  sc_username :: jstr
  sc_authUsername :: jstr
  sc_password :: jstr
  sc_outboundProxy :: jstr
  sc_transport :: sip_transport
  sc_uriMode :: bool
  sc_bindHost :: jstr
  sc_port :: rat
  sc_localIp :: jstr
  sc_publicHost :: jstr
  sc_rtpPortMin :: rat
  sc_rtpPortMax :: rat
  sc_payloadType :: nat
  sc_didNumber :: jstr
  sc_managerTransferNumber :: jstr
  sc_maxCallMinutes :: rat
  sc_maxConcurrentCalls :: rat
  sc_allowedIps :: "jstr list"
  sc_registerExpires :: rat
  sc_keepaliveUri :: jstr
  sc_preset :: sip_provider_preset

definition sip_codec_name :: "sip_codec \<Rightarrow> jstr" where
  "sip_codec_name c = (case c of CodecPcma \<Rightarrow> js ''pcma'' | CodecPcmu \<Rightarrow> js ''pcmu'')"

text \<open>The result is \<open>None\<close> where reading a property of the undefined preset throws.\<close>

definition sip_config_of :: "env \<Rightarrow> sip_provider_preset \<Rightarrow> sip_config" where
  "sip_config_of env preset =
     (let username = js_or (env ''SIP_USERNAME'') [];
          password = js_or (env ''SIP_PASSWORD'') [];
          uriMode = envBool env ''SIP_URI_MODE'' False;
          publicHost = js_or (env ''SIP_PUBLIC_HOST'')
             (js_or (env ''SIP_LOCAL_IP'') (js_or (env ''VOICE_GATEWAY_PUBLIC_HOST'') []));
          localIp = js_or (env ''SIP_LOCAL_IP'') (js_or (Some publicHost) (js ''127.0.0.1''));
          domain = js_or (env ''SIP_DOMAIN'') (pp_domain preset);
          outboundProxy = stripSipPrefix
             (js_or (env ''SIP_OUTBOUND_PROXY'') (js_or (pp_outboundProxy preset) []));
          transportRaw = js_toLowerCase (js_trim (js_or (env ''SIP_TRANSPORT'') (js ''udp'')));
          transport = (if transportRaw = js ''tcp'' then Tcp else Udp);
          authUsername = js_or (Some (js_or (env ''SIP_AUTH_USERNAME'') []))
             (if pp_authUserIncludesDomain preset \<and> username \<noteq> [] \<and> \<not> js_includes username (js ''@'')
              then username @ js ''@'' @ domain else username);
          allowedIps = filter (\<lambda>s. s \<noteq> []) (map js_trim (js_split1 44 (js_or (env ''SIP_ALLOWED_IPS'') [])));
          hasCreds = (username \<noteq> [] \<and> password \<noteq> []);
          canStart = ((uriMode \<or> hasCreds) \<and> publicHost \<noteq> []);
          enabled = (envBool env ''SIP_ENABLED'' canStart \<and> canStart);
          codec = js_toLowerCase (js_or (env ''SIP_CODEC'') (sip_codec_name (pp_codec preset)));
          payloadType = (if codec = js ''pcmu'' \<or> codec = js ''0'' then 0 else 8);
          registerExpires = (if js_or (env ''SIP_REGISTER_EXPIRES'') [] \<noteq> []
             then envInt env ''SIP_REGISTER_EXPIRES'' (pp_registerExpires preset)
             else pp_registerExpires preset);
          keepaliveUri = js_or (env ''SIP_KEEPALIVE_URI'')
             (if outboundProxy \<noteq> [] then js ''sip:'' @ outboundProxy else js ''sip:'' @ domain)
      in \<lparr>sc_enabled = enabled, sc_provider = pp_id preset, sc_domain = domain,
          sc_username = username, sc_authUsername = authUsername, sc_password = password,
          sc_outboundProxy = outboundProxy, sc_transport = transport, sc_uriMode = uriMode,
          sc_bindHost = js_or (env ''SIP_BIND_HOST'') (js ''0.0.0.0''),
          sc_port = envInt env ''SIP_PORT'' 5060, sc_localIp = localIp,
          sc_publicHost = js_or (Some publicHost) localIp,
          sc_rtpPortMin = envInt env ''SIP_RTP_PORT_MIN'' 10000,
          sc_rtpPortMax = envInt env ''SIP_RTP_PORT_MAX'' 20000,
          sc_payloadType = payloadType,
          sc_didNumber = js_or (env ''VOICE_DID_NUMBER'') [],
          sc_managerTransferNumber = js_or (env ''VOICE_MANAGER_TRANSFER_NUMBER'') [],
          sc_maxCallMinutes = envInt env ''VOICE_MAX_CALL_MINUTES'' 30,
          sc_maxConcurrentCalls = envInt env ''SIP_MAX_CONCURRENT_CALLS'' 20,
          sc_allowedIps = allowedIps, sc_registerExpires = registerExpires,
          sc_keepaliveUri = keepaliveUri, sc_preset = preset\<rparr>)"

definition loadSipConfig :: "env \<Rightarrow> sip_config option" where
  "loadSipConfig env =
     (case resolveSipProvider (env ''SIP_PROVIDER'') of
        Preset p \<Rightarrow> Some (sip_config_of env p)
      | UnknownProvider \<Rightarrow> Some (sip_config_of env (SIP_PROVIDERS Zadarma))
      | UndefinedPreset \<Rightarrow> None)"

definition managerSipUri :: "jstr \<Rightarrow> jstr \<Rightarrow> jstr" where
  "managerSipUri number domain =
     (let digits = filter (\<lambda>c. js_digit c \<or> c = 43) number;
          user = (if starts_with digits (js ''+'') then drop 1 digits else filter js_digit digits)
      in js ''sip:'' @ user @ js ''@'' @ domain)"

subsection \<open>Business hours\<close>

datatype weekday = Mon | Tue | Wed | Thu | Fri | Sat | Sun

text \<open>A comparison with NaN is false.\<close>

definition num_less :: "nat \<Rightarrow> numval \<Rightarrow> bool" where
  "num_less h v = (case v of NaN \<Rightarrow> False | PosInf \<Rightarrow> True | NegInf \<Rightarrow> False | Num n \<Rightarrow> of_nat h < n)"

definition num_geq :: "nat \<Rightarrow> numval \<Rightarrow> bool" where
  "num_geq h v = (case v of NaN \<Rightarrow> False | PosInf \<Rightarrow> False | NegInf \<Rightarrow> True | Num n \<Rightarrow> n \<le> of_nat h)"

definition env_or_number :: "env \<Rightarrow> string \<Rightarrow> string \<Rightarrow> rat \<Rightarrow> numval" where
  "env_or_number env a b d =
     (let s = js_or (env a) (js_or (env b) []) in if s = [] then Num d else js_Number s)"

definition isAfterHours :: "env \<Rightarrow> nat \<Rightarrow> weekday \<Rightarrow> bool" where
  "isAfterHours env hour wd =
     (let start = env_or_number env ''VOICE_HOURS_START'' ''TG_WORK_HOURS_START'' 9;
          fin = env_or_number env ''VOICE_HOURS_END'' ''TG_WORK_HOURS_END'' 19;
          skipWeekends = envBool env ''VOICE_SKIP_WEEKENDS'' False
      in if skipWeekends \<and> (wd = Sat \<or> wd = Sun) then True
         else num_less hour start \<or> num_geq hour fin)"

subsection \<open>Lemmas\<close>

lemma js_eq_iff [simp]: "js s = js t \<longleftrightarrow> s = t"
proof
  have "inj (of_char :: char \<Rightarrow> nat)" by (simp add: inj_on_def)
  then show "js s = js t \<Longrightarrow> s = t" by (auto simp: js_def dest: map_injective)
qed simp

lemma envInt_pos: "0 < d \<Longrightarrow> 0 < envInt env n d"
  by (auto simp: envInt_def split: numval.splits)

lemma strip_params_single_line:
  "\<forall>x \<in> set s. \<not> js_eol x \<Longrightarrow> strip_params s = takeWhile (\<lambda>c. c \<noteq> 59) s"
  by (induction s) auto

lemmas js_text_eval = js_def js_trim_def js_space_def js_toLowerCase_def js_lower_unit_def

lemma resolve_known:
  "resolveSipProvider None = Preset (SIP_PROVIDERS Zadarma)"
  "resolveSipProvider (Some (js '' Beeline_Business '')) = Preset (SIP_PROVIDERS Beeline)"
  "resolveSipProvider (Some (js ''constructor'')) = UndefinedPreset"
  "resolveSipProvider (Some (js ''megafon'')) = UnknownProvider"
  by (simp_all add: resolveSipProvider_def SIP_ALIASES_def INHERITED_KEYS_def js_text_eval)

lemma js_or_nonempty: "js_or a b = [] \<longleftrightarrow> (a = None \<or> a = Some []) \<and> b = []"
  by (auto simp: js_or_def split: option.splits)

lemma includes_at_domain: "js_includes (u @ js ''@'' @ d) (js ''@'')"
  by (auto simp: js_includes_iff)

lemma sip_config_of_fields:
  "0 < sc_port (sip_config_of env p)"
  "sc_payloadType (sip_config_of env p) = 0 \<or> sc_payloadType (sip_config_of env p) = 8"
  "sc_publicHost (sip_config_of env p) \<noteq> []"
  "0 < pp_registerExpires p \<Longrightarrow> 0 < sc_registerExpires (sip_config_of env p)"
  "sc_enabled (sip_config_of env p) \<Longrightarrow>
     sc_uriMode (sip_config_of env p) \<or> (sc_username (sip_config_of env p) \<noteq> [] \<and> sc_password (sip_config_of env p) \<noteq> [])"
  by (auto simp: sip_config_of_def Let_def envInt_pos js_or_nonempty js_def split: if_splits)

lemma beeline_auth_user:
  fixes env p
  shows "pp_authUserIncludesDomain p \<Longrightarrow> sc_username (sip_config_of env p) \<noteq> [] \<Longrightarrow>
   js_or (env ''SIP_AUTH_USERNAME'') [] = [] \<Longrightarrow>
   js_includes (sc_authUsername (sip_config_of env p)) (js ''@'')"
  by (auto simp: sip_config_of_def Let_def includes_at_domain)

lemma loadSipConfig_cases:
  "loadSipConfig env = Some c \<Longrightarrow> \<exists>i. c = sip_config_of env (SIP_PROVIDERS i)"
proof -
  have "resolveSipProvider r = Preset p \<Longrightarrow> \<exists>i. p = SIP_PROVIDERS i" for r p
    by (auto simp: resolveSipProvider_def Let_def split: if_splits option.splits)
  then show "loadSipConfig env = Some c \<Longrightarrow> \<exists>i. c = sip_config_of env (SIP_PROVIDERS i)"
    by (auto simp: loadSipConfig_def simp del: SIP_PROVIDERS.simps split: resolve_result.splits)
qed

subsection \<open>Properties\<close>

text \<open>
  Every configuration the loader returns is usable: ports and the registration period are
  positive, the RTP payload type is one of the two G.711 codecs, the public host is set, the trunk is enabled
  only in URI mode or with credentials, and Beeline's digest user carries a domain unless one is
  given explicitly.
\<close>

theorem loadSipConfig_sound:
  assumes "loadSipConfig env = Some c"
  shows "0 < sc_port c \<and> 0 < sc_registerExpires c \<and> sc_payloadType c \<in> {0, 8} \<and> sc_publicHost c \<noteq> [] \<and>
    (sc_enabled c \<longrightarrow> sc_uriMode c \<or> (sc_username c \<noteq> [] \<and> sc_password c \<noteq> [])) \<and>
    (sc_provider c = Beeline \<and> sc_username c \<noteq> [] \<and> js_or (env ''SIP_AUTH_USERNAME'') [] = []
       \<longrightarrow> js_includes (sc_authUsername c) (js ''@''))"
proof -
  obtain i where c: "c = sip_config_of env (SIP_PROVIDERS i)" using loadSipConfig_cases[OF assms] by blast
  have "0 < pp_registerExpires (SIP_PROVIDERS i)" by (cases i) auto
  moreover have "sc_provider c = Beeline \<Longrightarrow> pp_authUserIncludesDomain (SIP_PROVIDERS i)"
    unfolding c by (cases i) (auto simp: sip_config_of_def Let_def)
  ultimately show ?thesis
    using sip_config_of_fields[where env = env and p = "SIP_PROVIDERS i"]
      beeline_auth_user[where env = env and p = "SIP_PROVIDERS i"]
    unfolding c by auto
qed

definition beeline_env :: env where
  "beeline_env = (\<lambda>n. if n = ''SIP_PROVIDER'' then Some (js ''beeline'')
     else if n = ''SIP_USERNAME'' then Some (js ''u'') else None)"

lemma loadSipConfig_sound_witness:
  "\<exists>c. loadSipConfig beeline_env = Some c \<and> sc_provider c = Beeline \<and>
     js_includes (sc_authUsername c) (js ''@'')"
proof -
  have "resolveSipProvider (Some (js ''beeline'')) = Preset (SIP_PROVIDERS Beeline)"
    by (simp add: resolveSipProvider_def SIP_ALIASES_def INHERITED_KEYS_def js_text_eval)
  then have l: "loadSipConfig beeline_env = Some (sip_config_of beeline_env (SIP_PROVIDERS Beeline))"
    by (simp add: loadSipConfig_def beeline_env_def)
  have "sc_provider (sip_config_of beeline_env (SIP_PROVIDERS Beeline)) = Beeline"
    "sc_username (sip_config_of beeline_env (SIP_PROVIDERS Beeline)) \<noteq> []"
    by (simp_all add: sip_config_of_def Let_def beeline_env_def js_def)
  then show ?thesis
    using loadSipConfig_sound[OF l] l by (auto simp: beeline_env_def)
qed

end
