(* ===== verification/CallFlow.thy ===== *)
theory CallFlow
  imports Bridge RtpPlayout Sessions SipConfig
begin

text \<open>
  One inbound call of the voice gateway: \<open>handleInboundInvite\<close> (\<open>sip/calls.ts\<close>) with its closures,
  the operations of the realtime bridge that call back into it (\<open>realtime/bridge.ts\<close>), the tool
  calls (\<open>realtime/tools.ts\<close>), the transfer (\<open>sip/transfer.ts\<close>) and the takeover route
  (\<open>sip/routes.ts\<close>). The record holds the bridge, the playout, the registry, the variables of the
  closures, the pending timers with their deadline, and what is awaited: the stage of the handler,
  the running tool calls, the suspended turn ends, the pending REFERs and the pending ends of the call. One event of the
  environment is one step; code between two awaits runs in one step, as in Node. Audio messages
  carry the base64 text; \<open>h\<close> and \<open>th\<close> are the low-pass taps and \<open>Math.tanh\<close>; \<open>arg\<close> reads a field of
  a tool call's JSON arguments as \<open>String(args.x || "")\<close>. Of the database queries \<open>markActive\<close> and \<open>endCall\<close> are awaited by events;
  a transcript entry is taken to be written at once.
\<close>

definition ECHO_GUARD_MS :: msec where "ECHO_GUARD_MS = 900"

datatype call_stage =
  StAccepting | StActivating | StConnecting "jstr list" | StWaitSession | StRunning | StOver

datatype refer_origin = ReferTool | ReferHttp

text \<open>Who started an \<open>endCall\<close>: the call's own handlers, where nobody handles its rejection, or the takeover route.\<close>

datatype end_origin = EndVoid | EndRoute

record orch_result =
  or_status :: "jstr option"
  or_replies :: "jstr list"
  or_escalate :: bool
  or_escalation :: "(jstr option \<times> jstr option \<times> bool) option"

type_synonym tool_call = "jstr \<times> jstr \<times> jstr"

text \<open>
  A suspended end of a response: it waits for one tool call of its loop, with the remaining items,
  or for all tool calls (\<open>Promise.all\<close>).
\<close>

datatype turn = AwaitTool jstr "tool_call list" | AwaitAll "jstr list"

record call_cfg =
  cc_models :: "jstr list"
  cc_voices :: "jstr list"
  cc_apiKey :: bool
  cc_greeting :: jstr
  cc_afterHoursGreeting :: jstr
  cc_transferTo :: jstr
  cc_maxCallMinutes :: int

record call =
  c_br :: bridge
  c_po :: playout
  c_sm :: sessions
  c_id :: row_id
  c_stage :: call_stage
  c_transferRequested :: bool
  c_generating :: bool
  c_playoutIdle :: bool
  c_unmuteAt :: "msec option"
  c_hangupAt :: "msec option"
  c_maxCallAt :: "msec option"
  c_now :: msec
  c_afterHours :: bool
  c_rtp :: bool
  c_frames :: "bytes list"
  c_byes :: nat
  c_alerts :: "(jstr option \<times> jstr option) list"
  c_jobs :: "tool_call list"
  c_turns :: "turn list"
  c_refers :: "refer_origin list"
  c_ends :: "(call_status \<times> end_origin) list"
  c_crashed :: bool

definition upd_br :: "(bridge \<Rightarrow> bridge) \<Rightarrow> call \<Rightarrow> call" where
  "upd_br f w = w\<lparr>c_br := f (c_br w)\<rparr>"

subsection \<open>The closures of the call handler\<close>

definition considerListen :: "call \<Rightarrow> call" where
  "considerListen w =
     (if c_generating w \<or> \<not> c_playoutIdle w then w
      else w\<lparr>c_unmuteAt := Some (c_now w + ECHO_GUARD_MS)\<rparr>)"

definition unmute_fired :: "call \<Rightarrow> call" where
  "unmute_fired w0 =
     (let w = w0\<lparr>c_unmuteAt := None\<rparr>
      in if c_generating w \<or> \<not> c_playoutIdle w then w else upd_br unmuteInput w)"

definition holdLine :: "call \<Rightarrow> call" where
  "holdLine w = upd_br muteInput
     (w\<lparr>c_generating := True, c_playoutIdle := False, c_unmuteAt := None\<rparr>)"

definition onAudioOut :: "bytes \<Rightarrow> call \<Rightarrow> call" where
  "onAudioOut pcm8 w =
     (let w = upd_br muteInput (w\<lparr>c_unmuteAt := None, c_playoutIdle := False\<rparr>)
      in w\<lparr>c_po := po_push (c_po w) pcm8\<rparr>)"

definition onIdle :: "call \<Rightarrow> call" where
  "onIdle w = considerListen (w\<lparr>c_playoutIdle := True\<rparr>)"

text \<open>
  \<open>sessions.endCall\<close> awaits the update of the row before it touches the registry: \<open>end_call\<close> starts it, \<open>end_done\<close> is the end
  of the query number \<open>k\<close> of those under way. When it succeeded, the registry closes the bridge and clears the limit timer of a
  session it still holds. When it failed, the session stays, and the rejection ends the process unless the takeover route
  awaits it.
\<close>

definition end_call :: "call_status \<Rightarrow> end_origin \<Rightarrow> call \<Rightarrow> call" where
  "end_call st origin w = w\<lparr>c_ends := c_ends w @ [(st, origin)]\<rparr>"

definition registry_end :: "call_status \<Rightarrow> call \<Rightarrow> call" where
  "registry_end st w =
     (let (sm, closed) = endCall (c_now w) (c_sm w) (c_id w) st None;
          held = (sm_get (c_sm w) (c_id w) \<noteq> None)
      in w\<lparr>c_sm := sm, c_maxCallAt := (if held then None else c_maxCallAt w),
           c_br := (if c_id w \<in> set closed then bridge_close (c_br w) else c_br w)\<rparr>)"

definition end_done :: "nat \<Rightarrow> bool \<Rightarrow> call \<Rightarrow> call" where
  "end_done k ok w =
     (if k < length (c_ends w)
      then let (st, origin) = c_ends w ! k;
               w = w\<lparr>c_ends := take k (c_ends w) @ drop (Suc k) (c_ends w)\<rparr>
           in if ok then registry_end st w else if origin = EndVoid then w\<lparr>c_crashed := True\<rparr> else w
      else w)"

definition hangup :: "call \<Rightarrow> call" where
  "hangup w = end_call Completed EndVoid
     (w\<lparr>c_po := po_stop (c_po w), c_unmuteAt := None, c_byes := c_byes w + 1\<rparr>)"

definition onResponseDone :: "call \<Rightarrow> call" where
  "onResponseDone w = considerListen (w\<lparr>c_generating := False\<rparr>)"

definition onGreetingDone :: "call \<Rightarrow> call" where
  "onGreetingDone w = (if c_afterHours w then w\<lparr>c_hangupAt := Some (c_now w + 2500)\<rparr> else w)"

definition onTranscript :: "jstr \<Rightarrow> jstr \<Rightarrow> call \<Rightarrow> call" where
  "onTranscript role txt w = w\<lparr>c_sm := appendTranscript (c_sm w) (c_id w) role txt\<rparr>"

definition onEscalate :: "jstr option \<Rightarrow> jstr option \<Rightarrow> call \<Rightarrow> call" where
  "onEscalate reason summary w = w\<lparr>c_alerts := c_alerts w @ [(reason, summary)]\<rparr>"

definition request_transfer_flag :: "call \<Rightarrow> call" where
  "request_transfer_flag w = w\<lparr>c_transferRequested := True,
     c_sm := sm_update (c_sm w) (c_id w) (\<lambda>s. s\<lparr>ls_transferRequested := True\<rparr>)\<rparr>"

text \<open>
  \<open>transferDialogToManager\<close>: a REFER is sent (and awaited) when a transfer number is configured;
  otherwise the promise resolves to false at once, which the second component says.
\<close>

definition transferDialogToManager :: "call_cfg \<Rightarrow> refer_origin \<Rightarrow> call \<Rightarrow> call \<times> bool" where
  "transferDialogToManager cfg origin w =
     (if cc_transferTo cfg = [] then (w, False) else (w\<lparr>c_refers := c_refers w @ [origin]\<rparr>, True))"

definition onTransfer :: "call_cfg \<Rightarrow> call \<Rightarrow> call" where
  "onTransfer cfg w = fst (transferDialogToManager cfg ReferTool (request_transfer_flag w))"

definition onClose :: "call \<Rightarrow> call" where
  "onClose w = end_call (if c_transferRequested w then Transferred else Completed) EndVoid w"

subsection \<open>Responses of the bridge\<close>

definition beginResponse :: "response_kind \<Rightarrow> call \<Rightarrow> call" where
  "beginResponse r w =
     (if br_closed (c_br w) then w
      else if br_responseInFlight (c_br w) then upd_br (\<lambda>b. b\<lparr>br_turnQueued := True\<rparr>) w
      else upd_br (ws_send (CreateResponse r))
             (holdLine (upd_br (\<lambda>b. clearInputBuffer (b\<lparr>br_responseInFlight := True, br_inputMuted := True\<rparr>)) w)))"

definition commitAudio :: "call \<Rightarrow> call" where
  "commitAudio w =
     (if br_inputMuted (c_br w) \<or> br_responseInFlight (c_br w) then w
      else beginResponse FollowUp (upd_br (ws_send CommitAudio) w))"

definition requestTransfer :: "jstr \<Rightarrow> call \<Rightarrow> call" where
  "requestTransfer reason w = beginResponse (TransferNotice reason) w"

definition emitAudio :: "jsnum list \<Rightarrow> (jsnum \<Rightarrow> jsnum) \<Rightarrow> jstr \<Rightarrow> call \<Rightarrow> call" where
  "emitAudio h th delta w =
     (let (io, pcm8) = toPstn h th (br_audioIo (c_br w)) delta;
          w = upd_br (\<lambda>b. b\<lparr>br_audioIo := io\<rparr>) w
      in if pcm8 = [] then w
         else onAudioOut pcm8 (upd_br (\<lambda>b. b\<lparr>br_audioChunks := br_audioChunks b + 1\<rparr>) w))"

subsection \<open>Tool calls\<close>

text \<open>
  The part of \<open>executeTool\<close> and \<open>handleToolCall\<close> before the first await. A tool that needs the
  orchestrator stays in \<open>c_jobs\<close>; the others send their output at once. A rejection (\<open>tool_throws\<close>, or a failed request below)
  reaches the promise of \<open>onMessage\<close>, which nobody handles: Node ends the process (\<open>c_crashed\<close>).
\<close>

definition tool_waits :: "(jstr \<Rightarrow> string \<Rightarrow> jstr) \<Rightarrow> tool_call \<Rightarrow> bool" where
  "tool_waits arg t =
     (let (i, name, raw) = t
      in (name = js ''process_client_message'' \<and> js_trim (arg raw ''text'') \<noteq> [])
         \<or> name = js ''request_full_quote'' \<or> name = js ''get_deal_status'')"

text \<open>
  The arguments are \<open>null\<close> when the text, apart from JSON's blanks, is just that: a tool that reads a field of them throws.
\<close>

definition json_null :: "jstr \<Rightarrow> bool" where
  "json_null raw \<longleftrightarrow>
     (let blank = (\<lambda>c. c \<in> {32, 9, 10, 13}) in rev (dropWhile blank (rev (dropWhile blank raw))) = js ''null'')"

definition tool_throws :: "tool_call \<Rightarrow> bool" where
  "tool_throws t \<longleftrightarrow> (let (i, name, raw) = t in json_null raw \<and> (name = js ''process_client_message'' \<or> name = js ''escalate_call''))"

definition tool_done :: "jstr \<Rightarrow> tool_output \<Rightarrow> call \<Rightarrow> call" where
  "tool_done i out w = upd_br (ws_send (FunctionOutput i out)) w"

definition executeTool :: "call_cfg \<Rightarrow> (jstr \<Rightarrow> string \<Rightarrow> jstr) \<Rightarrow> tool_call \<Rightarrow> call \<Rightarrow> call" where
  "executeTool cfg arg t w =
     (let (i, name, raw) = t
      in if tool_throws t then w\<lparr>c_crashed := True\<rparr>
         else if tool_waits arg t then w\<lparr>c_jobs := c_jobs w @ [t]\<rparr>
         else if name = js ''process_client_message'' then tool_done i ToEmptyText w
         else if name = js ''escalate_call''
         then let reason = js_or (Some (arg raw ''reason'')) (js ''voice_escalation'');
                  summary = js_or (Some (arg raw ''summary'')) (js ''Manager requested via voice agent'')
              in tool_done i (ToTransferring reason summary)
                   (onEscalate (Some reason) (Some summary) (onTransfer cfg w))
         else tool_done i (ToUnknownTool name) w)"

definition runTool :: "call_cfg \<Rightarrow> (jstr \<Rightarrow> string \<Rightarrow> jstr) \<Rightarrow> tool_call \<Rightarrow> call \<Rightarrow> call" where
  "runTool cfg arg t w =
     (let (i, name, raw) = t
      in if i = [] \<or> i \<in> br_handledToolCalls (c_br w) then w
         else upd_br (\<lambda>b. b\<lparr>br_toolJobs := br_toolJobs b @ [i]\<rparr>)
                (executeTool cfg arg t
                   (upd_br (\<lambda>b. b\<lparr>br_handledToolCalls := insert i (br_handledToolCalls b),
                                  br_toolsThisTurn := br_toolsThisTurn b + 1\<rparr>) w)))"

definition job_running :: "call \<Rightarrow> jstr \<Rightarrow> bool" where
  "job_running w i \<longleftrightarrow> i \<in> fst ` set (c_jobs w)"

subsection \<open>The end of a response\<close>

definition finish_turn :: "call \<Rightarrow> call" where
  "finish_turn w =
     (let needFollowup = 0 < br_toolsThisTurn (c_br w) \<or> br_turnQueued (c_br w);
          greeting = br_greetingPending (c_br w);
          w = upd_br (\<lambda>b. b\<lparr>br_toolJobs := [], br_toolsThisTurn := 0, br_turnQueued := False,
                            br_responseInFlight := False, br_greetingPending := False\<rparr>) w;
          w = (if greeting then onGreetingDone w else w);
          w = onResponseDone w
      in if needFollowup then beginResponse FollowUp w else w)"

text \<open>
  The loop over the output items: a tool call that has to wait suspends the turn until it is done;
  after the last item the turn waits for all tool calls started since the previous turn.
\<close>

fun process_items :: "call_cfg \<Rightarrow> (jstr \<Rightarrow> string \<Rightarrow> jstr) \<Rightarrow> tool_call list \<Rightarrow> call \<Rightarrow> call" where
  "process_items cfg arg [] w =
     (if list_ex (job_running w) (br_toolJobs (c_br w))
      then w\<lparr>c_turns := c_turns w @ [AwaitAll (br_toolJobs (c_br w))]\<rparr>
      else finish_turn w)"
| "process_items cfg arg (t # ts) w =
     (let fresh = (fst t \<noteq> [] \<and> fst t \<notin> br_handledToolCalls (c_br w));
          w' = runTool cfg arg t w
      in if c_crashed w' then w'
         else if fresh \<and> job_running w' (fst t)
         then w'\<lparr>c_turns := c_turns w' @ [AwaitTool (fst t) ts]\<rparr>
         else process_items cfg arg ts w')"

fun turn_waits :: "call \<Rightarrow> turn \<Rightarrow> bool" where
  "turn_waits w (AwaitTool i ts) = job_running w i"
| "turn_waits w (AwaitAll is) = list_ex (job_running w) is"

fun resume_turn :: "call_cfg \<Rightarrow> (jstr \<Rightarrow> string \<Rightarrow> jstr) \<Rightarrow> turn \<Rightarrow> call \<Rightarrow> call" where
  "resume_turn cfg arg (AwaitTool i ts) w = process_items cfg arg ts w"
| "resume_turn cfg arg (AwaitAll is) w = finish_turn w"

definition resume_turns :: "call_cfg \<Rightarrow> (jstr \<Rightarrow> string \<Rightarrow> jstr) \<Rightarrow> call \<Rightarrow> call" where
  "resume_turns cfg arg w =
     foldl (\<lambda>w t. if turn_waits w t then w\<lparr>c_turns := c_turns w @ [t]\<rparr> else resume_turn cfg arg t w)
       (w\<lparr>c_turns := []\<rparr>) (c_turns w)"

datatype tool_answer = OrchAnswer orch_result | DealAnswer jstr | ToolFailed

definition finish_tool :: "tool_call \<Rightarrow> tool_answer \<Rightarrow> call \<Rightarrow> call" where
  "finish_tool t ans w =
     (case ans of
        ToolFailed \<Rightarrow> w\<lparr>c_crashed := True\<rparr>
      | DealAnswer d \<Rightarrow> tool_done (fst t) (ToDealStatus d) w
      | OrchAnswer r \<Rightarrow>
          let w = (case or_escalation r of
                     Some (reason, summary, dup) \<Rightarrow>
                       if or_escalate r \<and> \<not> dup then onEscalate reason summary w else w
                   | None \<Rightarrow> w)
          in tool_done (fst t) (ToReplies (or_status r) (or_replies r) (or_escalate r)) w)"

subsection \<open>Messages of the realtime service\<close>

datatype rt_event =
  RtSessionAck
  | RtError jstr jstr
  | RtAudioDelta jstr
  | RtAssistantTranscript jstr
  | RtUserTranscript jstr
  | RtCommitted
  | RtResponseCreated
  | RtToolArgsDelta jstr jstr
  | RtToolArgsDone jstr jstr "jstr option"
  | RtResponseDone "tool_call list"

text \<open>The end of \<open>connect\<close>, once the session is acknowledged or the wait timed out.\<close>

definition session_ready :: "call_cfg \<Rightarrow> call \<Rightarrow> call" where
  "session_ready cfg w =
     (let w = beginResponse (Greeting (if c_afterHours w then cc_afterHoursGreeting cfg else cc_greeting cfg))
                (upd_br (\<lambda>b. b\<lparr>br_waiting := False\<rparr>) w)
      in w\<lparr>c_stage := StRunning\<rparr>)"

text \<open>The handler's \<open>catch\<close> around \<open>bridge.connect()\<close>.\<close>

definition connect_failed :: "call \<Rightarrow> call" where
  "connect_failed w = (end_call Failed EndVoid
     (w\<lparr>c_po := po_stop (c_po w), c_byes := c_byes w + 1\<rparr>))\<lparr>c_stage := StOver\<rparr>"

fun onMessage ::
  "jsnum list \<Rightarrow> (jsnum \<Rightarrow> jsnum) \<Rightarrow> call_cfg \<Rightarrow> (jstr \<Rightarrow> string \<Rightarrow> jstr) \<Rightarrow> rt_event \<Rightarrow> call \<Rightarrow> call" where
  "onMessage h th cfg arg RtSessionAck w =
     (let waiting = br_waiting (c_br w);
          w = upd_br (\<lambda>b. b\<lparr>br_sessionAcked := True, br_waiting := False\<rparr>) w
      in if waiting then session_ready cfg w else w)"
| "onMessage h th cfg arg (RtError param message) w =
     (if voice_rejected param message \<and> br_voiceIndex (c_br w) + 1 < length (br_voices (c_br w))
      then upd_br (\<lambda>b. sendSessionUpdate (b\<lparr>br_voiceIndex := br_voiceIndex b + 1\<rparr>)) w
      else if br_waiting (c_br w)
      then connect_failed (upd_br (\<lambda>b. b\<lparr>br_waiting := False\<rparr>) w)
      else w)"
| "onMessage h th cfg arg (RtAudioDelta delta) w = emitAudio h th delta w"
| "onMessage h th cfg arg (RtAssistantTranscript t) w = onTranscript (js ''assistant'') t w"
| "onMessage h th cfg arg (RtUserTranscript t) w = (if t = [] then w else onTranscript (js ''user'') t w)"
| "onMessage h th cfg arg RtCommitted w =
     (if \<not> br_inputMuted (c_br w) \<and> \<not> br_responseInFlight (c_br w) then beginResponse FollowUp w else w)"
| "onMessage h th cfg arg RtResponseCreated w =
     holdLine (upd_br (\<lambda>b. b\<lparr>br_responseInFlight := True, br_inputMuted := True\<rparr>) w)"
| "onMessage h th cfg arg (RtToolArgsDelta i d) w = upd_br (\<lambda>b. tool_args_delta b i d) w"
| "onMessage h th cfg arg (RtToolArgsDone i name args) w =
     (let raw = js_or (br_pendingToolArgs (c_br w) i) (js_or args (js ''{}''))
      in runTool cfg arg (i, name, raw)
           (upd_br (\<lambda>b. b\<lparr>br_pendingToolArgs := (br_pendingToolArgs b)(i := None)\<rparr>) w))"
| "onMessage h th cfg arg (RtResponseDone items) w = process_items cfg arg items w"

subsection \<open>The steps of a call\<close>

datatype call_event =
  EvClock msec
  | EvAccepted bool
  | EvActivated bool
  | EvWsOpen
  | EvWsFailed
  | EvSessionTimeout
  | EvMessage rt_event
  | EvWsClosed
  | EvRtpTick
  | EvUnmuteTimer
  | EvHangupTimer
  | EvMaxTimer
  | EvCallerAudio bytes
  | EvDialogEnd
  | EvReferDone bool
  | EvEndDone nat bool
  | EvToolDone nat tool_answer
  | EvTakeover

text \<open>\<open>handleInboundInvite\<close> up to the answer of the SIP dialog.\<close>

definition start_call :: "jsnum list \<Rightarrow> bool \<Rightarrow> msec \<Rightarrow> sessions \<Rightarrow> jstr \<Rightarrow> jstr \<Rightarrow> call" where
  "start_call h rtp now sm phone providerCallId =
     (let (sm, live) = startCall now sm phone (Some providerCallId) None
      in \<lparr>c_br = new_bridge h, c_po = new_playout, c_sm = sm, c_id = ls_callSessionId live,
          c_stage = StAccepting, c_transferRequested = False, c_generating = False,
          c_playoutIdle = True, c_unmuteAt = None, c_hangupAt = None, c_maxCallAt = None,
          c_now = now, c_afterHours = False, c_rtp = rtp, c_frames = [], c_byes = 0, c_alerts = [],
          c_jobs = [], c_turns = [], c_refers = [], c_ends = [], c_crashed = False\<rparr>)"

text \<open>One socket after the other: \<open>openSocket\<close> for the next model, or the error of the last one.\<close>

definition try_model :: "jstr list \<Rightarrow> call \<Rightarrow> call" where
  "try_model models w =
     (case models of
        [] \<Rightarrow> connect_failed w
      | _ # _ \<Rightarrow> (upd_br (\<lambda>b. b\<lparr>br_ws := Some WsConnecting\<rparr>) w)\<lparr>c_stage := StConnecting models\<rparr>)"

definition rtp_tick :: "call \<Rightarrow> call" where
  "rtp_tick w =
     (let (po, frames, idle) = po_tick (c_rtp w) (c_now w) (c_po w);
          w = w\<lparr>c_po := po, c_frames := c_frames w @ frames\<rparr>
      in if idle then onIdle w else w)"

text \<open>
  After \<open>markActive\<close>: the playout clock starts, the bridge is attached to the session, the limit
  timer is set, and the connection to the realtime service begins.
\<close>

definition activate :: "call_cfg \<Rightarrow> bool \<Rightarrow> call \<Rightarrow> call" where
  "activate cfg afterHours w0 =
     (let (po, frames, idle) = po_start (c_rtp w0) (c_now w0) (c_po w0);
          w = w0\<lparr>c_po := po, c_frames := c_frames w0 @ frames, c_afterHours := afterHours\<rparr>;
          w = (if idle then onIdle w else w);
          w = (if afterHours then onEscalate None None w else w);
          w = w\<lparr>c_sm := sm_update (c_sm w) (c_id w)
                  (\<lambda>s. s\<lparr>ls_bridge := True, ls_maxCallTimer := (0 < cc_maxCallMinutes cfg)\<rparr>),
                c_maxCallAt := (if 0 < cc_maxCallMinutes cfg
                                then Some (c_now w + cc_maxCallMinutes cfg * 60 * 1000) else None)\<rparr>
      in if cc_apiKey cfg then try_model (cc_models cfg) w else connect_failed w)"

definition dialog_end :: "call \<Rightarrow> call" where
  "dialog_end w =
     (let w = w\<lparr>c_hangupAt := None, c_po := po_stop (c_po w), c_br := bridge_close (c_br w)\<rparr>
      in end_call (if c_transferRequested w then Transferred else Completed) EndVoid w)"

text \<open>The takeover route, for the deal of this call.\<close>

definition takeover :: "call_cfg \<Rightarrow> row_id \<Rightarrow> call \<Rightarrow> call" where
  "takeover cfg dealId w =
     (case getActiveForDeal (c_sm w) dealId of
        None \<Rightarrow> w
      | Some row \<Rightarrow>
          if cr_id row \<noteq> c_id w then w
          else case sm_get (c_sm w) (cr_id row) of
            None \<Rightarrow> w
          | Some live \<Rightarrow>
              let w = request_transfer_flag w;
                  w = (if ls_bridge live then requestTransfer (js ''manager_takeover'') w else w);
                  (w, sent) = transferDialogToManager cfg ReferHttp w
              in if sent then w else end_call Transferred EndRoute w)"

definition refer_done :: "bool \<Rightarrow> call \<Rightarrow> call" where
  "refer_done ok w =
     (case c_refers w of
        [] \<Rightarrow> w
      | r # rs \<Rightarrow>
          let w = w\<lparr>c_refers := rs\<rparr>
          in if r = ReferHttp then end_call Transferred EndRoute w else if ok then end_call Transferred EndVoid w else w)"

definition call_deal :: "call \<Rightarrow> row_id" where
  "call_deal w = (case sm_getById (c_sm w) (c_id w) of Some r \<Rightarrow> cr_deal_id r | None \<Rightarrow> 0)"

fun call_event_step ::
  "jsnum list \<Rightarrow> (jsnum \<Rightarrow> jsnum) \<Rightarrow> call_cfg \<Rightarrow> (jstr \<Rightarrow> string \<Rightarrow> jstr) \<Rightarrow> call \<Rightarrow> call_event \<Rightarrow> call" where
  "call_event_step h th cfg arg w (EvClock t) = (if c_now w \<le> t then w\<lparr>c_now := t\<rparr> else w)"
| "call_event_step h th cfg arg w (EvAccepted ok) =
     (if c_stage w \<noteq> StAccepting then w
      else if ok then (w\<lparr>c_sm := markActive (c_sm w) (c_id w)\<rparr>)\<lparr>c_stage := StActivating\<rparr>
      else (end_call Failed EndVoid w)\<lparr>c_stage := StOver\<rparr>)"
| "call_event_step h th cfg arg w (EvActivated afterHours) =
     (if c_stage w = StActivating then activate cfg afterHours w else w)"
| "call_event_step h th cfg arg w EvWsOpen =
     (case c_stage w of
        StConnecting _ \<Rightarrow>
          if br_ws (c_br w) \<noteq> Some WsConnecting then w
          else let w = upd_br (\<lambda>b. sendSessionUpdate (b\<lparr>br_ws := Some WsOpen,
                    br_live := True, br_voices := cc_voices cfg, br_voiceIndex := 0\<rparr>)) w
          in if br_sessionAcked (c_br w) then session_ready cfg w
             else (upd_br (\<lambda>b. b\<lparr>br_waiting := True\<rparr>) w)\<lparr>c_stage := StWaitSession\<rparr>
      | _ \<Rightarrow> w)"
| "call_event_step h th cfg arg w EvWsFailed =
     (case c_stage w of
        StConnecting models \<Rightarrow> try_model (tl models) (upd_br (\<lambda>b. b\<lparr>br_ws := None\<rparr>) w)
      | _ \<Rightarrow> w)"
| "call_event_step h th cfg arg w EvSessionTimeout =
     (if c_stage w = StWaitSession \<and> br_waiting (c_br w) then session_ready cfg w else w)"
| "call_event_step h th cfg arg w (EvMessage e) =
     (if br_ws (c_br w) = None then w else onMessage h th cfg arg e w)"
| "call_event_step h th cfg arg w EvWsClosed =
     (if \<not> br_live (c_br w) then w
      else onClose (upd_br (\<lambda>b. b\<lparr>br_closed := True, br_live := False, br_ws := Some WsClosed\<rparr>) w))"
| "call_event_step h th cfg arg w EvRtpTick = (if po_timer (c_po w) = None then w else rtp_tick w)"
| "call_event_step h th cfg arg w EvUnmuteTimer =
     (case c_unmuteAt w of Some t \<Rightarrow> if t \<le> c_now w then unmute_fired w else w | None \<Rightarrow> w)"
| "call_event_step h th cfg arg w EvHangupTimer =
     (case c_hangupAt w of Some t \<Rightarrow> if t \<le> c_now w then hangup (w\<lparr>c_hangupAt := None\<rparr>) else w | None \<Rightarrow> w)"
| "call_event_step h th cfg arg w EvMaxTimer =
     (case c_maxCallAt w of Some t \<Rightarrow> if t \<le> c_now w then hangup (w\<lparr>c_maxCallAt := None\<rparr>) else w | None \<Rightarrow> w)"
| "call_event_step h th cfg arg w (EvCallerAudio pcm) =
     (if c_stage w = StRunning then upd_br (\<lambda>b. sendPcm8Audio b pcm) w else w)"
| "call_event_step h th cfg arg w EvDialogEnd = (if c_stage w = StRunning then dialog_end w else w)"
| "call_event_step h th cfg arg w (EvReferDone ok) = refer_done ok w"
| "call_event_step h th cfg arg w (EvEndDone k ok) = end_done k ok w"
| "call_event_step h th cfg arg w (EvToolDone k ans) =
     (if k < length (c_jobs w)
      then let t = c_jobs w ! k;
               w = finish_tool t ans (w\<lparr>c_jobs := take k (c_jobs w) @ drop (Suc k) (c_jobs w)\<rparr>)
           in if c_crashed w then w else resume_turns cfg arg w
      else w)"
| "call_event_step h th cfg arg w EvTakeover = takeover cfg (call_deal w) w"

definition call_step ::
  "jsnum list \<Rightarrow> (jsnum \<Rightarrow> jsnum) \<Rightarrow> call_cfg \<Rightarrow> (jstr \<Rightarrow> string \<Rightarrow> jstr) \<Rightarrow> call \<Rightarrow> call_event \<Rightarrow> call" where
  "call_step h th cfg arg w ev = (if c_crashed w then w else call_event_step h th cfg arg w ev)"

definition call_run ::
  "jsnum list \<Rightarrow> (jsnum \<Rightarrow> jsnum) \<Rightarrow> call_cfg \<Rightarrow> (jstr \<Rightarrow> string \<Rightarrow> jstr) \<Rightarrow> call \<Rightarrow> call_event list \<Rightarrow> call" where
  "call_run h th cfg arg = foldl (call_step h th cfg arg)"

subsection \<open>The echo guard\<close>

text \<open>
  The line is never open towards the model while it is generating or its audio is still being
  played; and the handler's \<open>generating\<close> mirrors the bridge's response in flight.
\<close>

definition echo_guard :: "call \<Rightarrow> bool" where
  "echo_guard w \<longleftrightarrow> (br_inputMuted (c_br w) \<or> (\<not> c_generating w \<and> c_playoutIdle w)) \<and>
     br_responseInFlight (c_br w) = c_generating w"

text \<open>A step that keeps the guard and forwards no caller audio.\<close>

definition calm :: "call \<Rightarrow> call \<Rightarrow> bool" where
  "calm w w' \<longleftrightarrow> (echo_guard w \<longrightarrow> echo_guard w') \<and> no_audio_sent (c_br w) (c_br w')"

lemma calm_refl [simp, intro]: "calm w w"
  by (simp add: calm_def)

lemma calm_trans: "calm u v \<Longrightarrow> calm v w \<Longrightarrow> calm u w"
  by (auto simp: calm_def no_audio_sent_def)

text \<open>A change that leaves the fields of the guard and the socket alone is calm.\<close>

definition guard_view :: "call \<Rightarrow> bool \<times> bool \<times> bool \<times> bool \<times> ws_msg list" where
  "guard_view w = (br_inputMuted (c_br w), br_responseInFlight (c_br w), c_generating w, c_playoutIdle w,
     filter is_append (br_sent (c_br w)))"

lemma calm_view: "guard_view w = guard_view w' \<Longrightarrow> calm w w'"
  by (auto simp: guard_view_def calm_def echo_guard_def no_audio_sent_def)

lemma append_ws_send [simp]:
  "\<not> is_append m \<Longrightarrow> filter is_append (br_sent (ws_send m b)) = filter is_append (br_sent b)"
  by (simp add: ws_send_def)

lemma is_append_simps [simp]:
  "\<not> is_append ClearBuffer" "\<not> is_append CommitAudio" "\<not> is_append (SessionUpdate v)"
  "\<not> is_append (CreateResponse r)" "\<not> is_append (FunctionOutput i x)" "is_append (AppendAudio a)"
  by (simp_all add: is_append_def)

lemma append_mute [simp]:
  "filter is_append (br_sent (muteInput b)) = filter is_append (br_sent b)"
  "filter is_append (br_sent (unmuteInput b)) = filter is_append (br_sent b)"
  "filter is_append (br_sent (clearInputBuffer b)) = filter is_append (br_sent b)"
  "filter is_append (br_sent (sendSessionUpdate b)) = filter is_append (br_sent b)"
  by (simp_all add: muteInput_def unmuteInput_def clearInputBuffer_def sendSessionUpdate_def)

lemma clear_simps [simp]:
  "br_inputMuted (clearInputBuffer b) = br_inputMuted b"
  "br_responseInFlight (clearInputBuffer b) = br_responseInFlight b"
  "br_inputMuted (sendSessionUpdate b) = br_inputMuted b"
  "br_responseInFlight (sendSessionUpdate b) = br_responseInFlight b"
  by (simp_all add: clearInputBuffer_def sendSessionUpdate_def)

lemmas calm_defs = calm_def echo_guard_def no_audio_sent_def upd_br_def

lemma calm_considerListen: "calm w (considerListen w)"
  by (simp add: considerListen_def calm_view guard_view_def)

lemma calm_holdLine: "br_responseInFlight (c_br w) \<Longrightarrow> calm w (holdLine w)"
  by (simp add: holdLine_def calm_defs)

lemma calm_unmute_fired: "calm w (unmute_fired w)"
  by (auto simp: unmute_fired_def calm_defs Let_def)

lemma calm_onAudioOut: "calm w (onAudioOut p w)"
  by (auto simp: onAudioOut_def calm_defs Let_def)

lemma calm_onIdle: "calm w (onIdle w)"
  by (auto simp: onIdle_def considerListen_def calm_defs)

lemma bridge_close_simps [simp]:
  "br_inputMuted (bridge_close b) = br_inputMuted b" "br_responseInFlight (bridge_close b) = br_responseInFlight b"
  "br_sent (bridge_close b) = br_sent b" "br_closed (bridge_close b)" "\<not> br_live (bridge_close b)"
  by (simp_all add: bridge_close_def)

lemma view_end_call [simp]: "guard_view (end_call st x w) = guard_view w" "guard_view (registry_end st w) = guard_view w"
  by (simp_all add: end_call_def registry_end_def guard_view_def case_prod_beta Let_def)

lemma view_end_done [simp]: "guard_view (end_done k ok w) = guard_view w"
proof -
  have "guard_view (w\<lparr>c_ends := es\<rparr>) = guard_view w" "guard_view (w\<lparr>c_ends := es, c_crashed := x\<rparr>) = guard_view w" for es x
    by (simp_all add: guard_view_def)
  then show ?thesis by (simp add: end_done_def case_prod_beta Let_def)
qed

lemma calm_beginResponse: "calm w (beginResponse r w)"
  by (auto simp: beginResponse_def holdLine_def calm_defs)

lemma view_tool [simp]:
  "guard_view (tool_done i out w) = guard_view w"
  "guard_view (onEscalate a b w) = guard_view w"
  "guard_view (onTransfer cfg w) = guard_view w"
  "guard_view (request_transfer_flag w) = guard_view w"
  "guard_view (onTranscript role txt w) = guard_view w"
  by (simp_all add: tool_done_def onEscalate_def onTransfer_def transferDialogToManager_def request_transfer_flag_def onTranscript_def
      guard_view_def upd_br_def Let_def)

lemma view_executeTool [simp]: "guard_view (executeTool cfg arg t w) = guard_view w"
  by (simp add: executeTool_def case_prod_beta Let_def) (simp add: guard_view_def)

lemma view_upd_br:
  "br_inputMuted (f (c_br w)) = br_inputMuted (c_br w) \<Longrightarrow>
   br_responseInFlight (f (c_br w)) = br_responseInFlight (c_br w) \<Longrightarrow>
   filter is_append (br_sent (f (c_br w))) = filter is_append (br_sent (c_br w)) \<Longrightarrow>
   guard_view (upd_br f w) = guard_view w"
  by (simp add: guard_view_def upd_br_def)

lemma view_runTool [simp]: "guard_view (runTool cfg arg t w) = guard_view w"
  by (simp add: runTool_def case_prod_beta Let_def view_upd_br)

lemma calm_finish_turn: "calm w (finish_turn w)"
proof -
  define v where "v = upd_br (\<lambda>b. b\<lparr>br_toolJobs := [], br_toolsThisTurn := 0, br_turnQueued := False,
    br_responseInFlight := False, br_greetingPending := False\<rparr>) w"
  define u where "u = (if br_greetingPending (c_br w) then onGreetingDone v else v)"
  have "calm w (u\<lparr>c_generating := False\<rparr>)"
    by (auto simp: u_def v_def onGreetingDone_def calm_defs)
  then have "calm w (onResponseDone u)"
    unfolding onResponseDone_def using calm_considerListen calm_trans by blast
  moreover have "finish_turn w = (if 0 < br_toolsThisTurn (c_br w) \<or> br_turnQueued (c_br w)
      then beginResponse FollowUp (onResponseDone u) else onResponseDone u)"
    by (simp add: finish_turn_def Let_def u_def v_def)
  ultimately show ?thesis using calm_beginResponse calm_trans by auto
qed

lemma calm_process_items: "calm w (process_items cfg arg ts w)"
proof (induction cfg arg ts w rule: process_items.induct)
  case (1 cfg arg w)
  then show ?case using calm_finish_turn by (simp add: calm_view guard_view_def)
next
  case (2 cfg arg t ts w)
  let ?w = "runTool cfg arg t w"
  have "calm w ?w" by (rule calm_view) simp
  moreover have "calm ?w (?w\<lparr>c_turns := c_turns ?w @ [AwaitTool (fst t) ts]\<rparr>)"
    by (rule calm_view) (simp add: guard_view_def)
  ultimately show ?case using 2 calm_trans by (auto simp: Let_def simp del: fst_conv)
qed

lemma calm_resume_turns: "calm w (resume_turns cfg arg w)"
proof -
  have step: "calm v (if turn_waits v t then v\<lparr>c_turns := c_turns v @ [t]\<rparr> else resume_turn cfg arg t v)" for v t
    by (cases t) (auto intro: calm_process_items calm_finish_turn calm_view simp: guard_view_def)
  have "calm v (foldl (\<lambda>w t. if turn_waits w t then w\<lparr>c_turns := c_turns w @ [t]\<rparr>
      else resume_turn cfg arg t w) v ts)" for v ts
  proof (induction ts arbitrary: v)
    case (Cons t ts)
    then show ?case using step[of v t] calm_trans unfolding foldl.simps by blast
  qed simp
  moreover have "calm w (w\<lparr>c_turns := []\<rparr>)" by (rule calm_view) (simp add: guard_view_def)
  ultimately show ?thesis unfolding resume_turns_def using calm_trans by blast
qed

lemma calm_session_ready: "calm w (session_ready cfg w)"
proof -
  have "calm w (upd_br (\<lambda>b. b\<lparr>br_waiting := False\<rparr>) w)" by (rule calm_view) (simp add: view_upd_br)
  then have "calm w (beginResponse r (upd_br (\<lambda>b. b\<lparr>br_waiting := False\<rparr>) w))" for r
    using calm_beginResponse calm_trans by blast
  moreover have "calm v (v\<lparr>c_stage := StRunning\<rparr>)" for v by (rule calm_view) (simp add: guard_view_def)
  ultimately show ?thesis unfolding session_ready_def Let_def using calm_trans by blast
qed

lemma view_connect_failed [simp]: "guard_view (connect_failed w) = guard_view w"
proof -
  have "guard_view (v\<lparr>c_stage := s\<rparr>) = guard_view v" for v s by (simp add: guard_view_def)
  moreover have "guard_view (w\<lparr>c_po := p, c_byes := n\<rparr>) = guard_view w" for p n by (simp add: guard_view_def)
  ultimately show ?thesis by (simp add: connect_failed_def)
qed

lemma calm_emitAudio: "calm w (emitAudio h th d w)"
proof -
  have a: "calm v (onAudioOut p (upd_br (\<lambda>b. b\<lparr>br_audioChunks := br_audioChunks b + 1\<rparr>) v))" for v p
    by (rule calm_trans[OF calm_view calm_onAudioOut]) (simp add: view_upd_br)
  have b: "calm w (upd_br (\<lambda>b. b\<lparr>br_audioIo := io\<rparr>) w)" for io
    by (rule calm_view) (simp add: view_upd_br)
  show ?thesis unfolding emitAudio_def Let_def case_prod_beta using b calm_trans[OF b a] by simp
qed

lemma calm_onMessage: "calm w (onMessage h th cfg arg e w)"
proof (cases e)
  case RtSessionAck
  have "calm w (upd_br (\<lambda>b. b\<lparr>br_sessionAcked := True, br_waiting := False\<rparr>) w)"
    by (rule calm_view) (simp add: view_upd_br)
  then show ?thesis using RtSessionAck calm_session_ready calm_trans by (auto simp: Let_def)
next
  case (RtError p m)
  then show ?thesis by (auto intro!: calm_view simp: view_upd_br)
next
  case RtCommitted
  then show ?thesis using calm_beginResponse by simp
next
  case RtResponseCreated
  then show ?thesis by (auto simp: holdLine_def calm_defs)
next
  case (RtToolArgsDelta i d)
  then show ?thesis by (auto intro!: calm_view simp: view_upd_br tool_args_delta_def)
next
  case (RtToolArgsDone i n a)
  then show ?thesis by (auto intro!: calm_view simp: view_upd_br Let_def)
next
  case (RtResponseDone ts)
  then show ?thesis using calm_process_items by simp
qed (use calm_emitAudio in \<open>auto intro!: calm_view\<close>)

lemma calm_rtp_tick: "calm w (rtp_tick w)"
proof -
  have 1: "calm w (w\<lparr>c_po := p, c_frames := f\<rparr>)" for p f by (rule calm_view) (simp add: guard_view_def)
  show ?thesis unfolding rtp_tick_def Let_def case_prod_beta
    by (auto intro: 1 calm_trans[OF 1 calm_onIdle])
qed

lemma calm_try_model: "calm w (try_model ms w)"
  by (auto simp: try_model_def split: list.splits intro!: calm_view) (simp add: guard_view_def upd_br_def)

lemma view_hangup [simp]: "guard_view (hangup w) = guard_view w"
  unfolding hangup_def view_end_call by (simp add: guard_view_def)

lemma calm_activate: "calm w (activate cfg ah w)"
proof -
  define w1 where "w1 = w\<lparr>c_po := fst (po_start (c_rtp w) (c_now w) (c_po w)),
    c_frames := c_frames w @ fst (snd (po_start (c_rtp w) (c_now w) (c_po w))), c_afterHours := ah\<rparr>"
  define w2 where "w2 = (if snd (snd (po_start (c_rtp w) (c_now w) (c_po w))) then onIdle w1 else w1)"
  define w3 where "w3 = (if ah then onEscalate None None w2 else w2)"
  define w4 where "w4 = w3\<lparr>c_sm := sm_update (c_sm w3) (c_id w3)
      (\<lambda>s. s\<lparr>ls_bridge := True, ls_maxCallTimer := (0 < cc_maxCallMinutes cfg)\<rparr>),
    c_maxCallAt := (if 0 < cc_maxCallMinutes cfg
      then Some (c_now w3 + cc_maxCallMinutes cfg * 60 * 1000) else None)\<rparr>"
  have "calm w w1" by (rule calm_view) (simp add: w1_def guard_view_def)
  moreover have "calm w1 w2" using calm_onIdle by (simp add: w2_def)
  moreover have "calm w2 w3" by (rule calm_view) (simp add: w3_def)
  moreover have "calm w3 w4" by (rule calm_view) (simp add: w4_def guard_view_def)
  ultimately have "calm w w4" using calm_trans by blast
  moreover have "activate cfg ah w = (if cc_apiKey cfg then try_model (cc_models cfg) w4 else connect_failed w4)"
    by (simp add: activate_def Let_def case_prod_beta w1_def w2_def w3_def w4_def)
  moreover have "calm w4 (connect_failed w4)" by (rule calm_view) simp
  ultimately show ?thesis using calm_try_model[of w4] calm_trans by metis
qed

lemma calm_takeover: "calm w (takeover cfg d w)"
proof -
  have 1: "calm v (requestTransfer r v)" for v r unfolding requestTransfer_def by (rule calm_beginResponse)
  have 2: "calm v (request_transfer_flag v)" for v by (rule calm_view) simp
  have 3: "calm v (end_call st x v)" for v st x by (rule calm_view) simp
  have 4: "calm v (v\<lparr>c_refers := r\<rparr>)" for v r by (rule calm_view) (simp add: guard_view_def)
  have 5: "calm w (requestTransfer r (request_transfer_flag w))" for r using 1 2 calm_trans by blast
  show ?thesis
    unfolding takeover_def transferDialogToManager_def Let_def
    by (auto split: option.splits if_splits intro: calm_trans[OF 5 3] calm_trans[OF 2 3] calm_trans[OF 5 4] calm_trans[OF 2 4])
qed

lemma calm_refer_done: "calm w (refer_done ok w)"
  unfolding refer_done_def Let_def
  by (auto split: list.splits intro!: calm_view) (simp_all add: guard_view_def end_call_def Let_def case_prod_beta)

lemma calm_finish_tool: "calm w (finish_tool t a w)"
  unfolding finish_tool_def Let_def
  by (auto split: tool_answer.splits option.splits intro!: calm_view) (simp add: guard_view_def)

lemma view_dialog_end [simp]: "guard_view (dialog_end w) = guard_view w"
  unfolding dialog_end_def Let_def view_end_call by (simp add: guard_view_def)

lemma calm_event:
  assumes "\<And>pcm. ev \<noteq> EvCallerAudio pcm"
  shows "calm w (call_event_step h th cfg arg w ev)"
proof (cases ev)
  case (EvAccepted ok)
  then show ?thesis by (auto intro!: calm_view simp: guard_view_def end_call_def Let_def case_prod_beta)
next
  case (EvActivated ah)
  then show ?thesis using calm_activate by simp
next
  case EvWsOpen
  define v where "v = upd_br (\<lambda>b. sendSessionUpdate (b\<lparr>br_ws := Some WsOpen, br_live := True,
      br_voices := cc_voices cfg, br_voiceIndex := 0\<rparr>)) w"
  have v: "calm w v" unfolding v_def by (rule calm_view) (simp add: view_upd_br)
  have 1: "calm w (session_ready cfg v)" using v calm_session_ready calm_trans by blast
  have "calm v ((upd_br (\<lambda>b. b\<lparr>br_waiting := True\<rparr>) v)\<lparr>c_stage := StWaitSession\<rparr>)"
    by (rule calm_view) (simp add: guard_view_def upd_br_def)
  then have 2: "calm w ((upd_br (\<lambda>b. b\<lparr>br_waiting := True\<rparr>) v)\<lparr>c_stage := StWaitSession\<rparr>)"
    using v calm_trans by blast
  show ?thesis using EvWsOpen 1 2 by (auto simp: Let_def simp flip: v_def split: call_stage.splits)
next
  case EvWsFailed
  have "calm w (upd_br (\<lambda>b. b\<lparr>br_ws := None\<rparr>) w)" by (rule calm_view) (simp add: view_upd_br)
  then have "calm w (try_model ms (upd_br (\<lambda>b. b\<lparr>br_ws := None\<rparr>) w))" for ms
    using calm_try_model calm_trans by blast
  then show ?thesis using EvWsFailed by (simp split: call_stage.splits)
next
  case EvWsClosed
  then show ?thesis by (auto intro!: calm_view simp: onClose_def view_upd_br)
next
  case EvHangupTimer
  then show ?thesis by (auto intro!: calm_view split: option.splits) (simp add: guard_view_def)
next
  case EvMaxTimer
  then show ?thesis by (auto intro!: calm_view split: option.splits) (simp add: guard_view_def)
next
  case EvDialogEnd
  then show ?thesis by (auto intro!: calm_view)
next
  case (EvEndDone k ok)
  then show ?thesis by (simp add: calm_view)
next
  case (EvToolDone k a)
  define v where "v = finish_tool (c_jobs w ! k) a (w\<lparr>c_jobs := take k (c_jobs w) @ drop (Suc k) (c_jobs w)\<rparr>)"
  have "calm w (w\<lparr>c_jobs := take k (c_jobs w) @ drop (Suc k) (c_jobs w)\<rparr>)"
    by (rule calm_view) (simp add: guard_view_def)
  then have "calm w v" unfolding v_def using calm_finish_tool calm_trans by blast
  then have "calm w (resume_turns cfg arg v)" "calm w v" using calm_resume_turns calm_trans by blast+
  then show ?thesis using EvToolDone by (simp add: Let_def flip: v_def)
qed (use assms calm_session_ready calm_onMessage calm_rtp_tick calm_unmute_fired calm_refer_done calm_takeover
     in \<open>auto intro!: calm_view split: option.splits simp: guard_view_def\<close>)

lemma sendPcm8_simps [simp]:
  "br_inputMuted (sendPcm8Audio b pcm) = br_inputMuted b"
  "br_responseInFlight (sendPcm8Audio b pcm) = br_responseInFlight b"
  by (simp_all add: sendPcm8Audio_def case_prod_beta Let_def)

lemma echo_guard_step [inv_intros]:
  assumes "echo_guard w"
  shows "echo_guard (call_step h th cfg arg w ev)"
proof (cases "\<exists>pcm. ev = EvCallerAudio pcm")
  case True
  then show ?thesis
    using assms by (auto simp: call_step_def echo_guard_def upd_br_def split: if_splits)
next
  case False
  then have "calm w (call_event_step h th cfg arg w ev)" by (intro calm_event) blast
  then show ?thesis using assms by (simp add: call_step_def calm_def)
qed

lemma echo_guard_start [inv_intros]: "echo_guard (start_call h rtp now sm ph p)"
  by (simp add: start_call_def echo_guard_def new_bridge_def case_prod_beta)

lemma echo_guard_run: "echo_guard w \<Longrightarrow> echo_guard (call_run h th cfg arg w evs)"
  unfolding call_run_def by (induction evs arbitrary: w) (simp_all add: echo_guard_step)

subsection \<open>What idle means\<close>

text \<open>
  While the handler takes the playout for idle there is no audio left to send: less than one frame of 20 ms is buffered and the
  playout is not speaking, or it has been stopped.
\<close>

definition nothing_to_play :: "playout \<Rightarrow> bool" where
  "nothing_to_play p \<longleftrightarrow> po_stopped p \<or> \<not> po_speaking p \<and> length (po_buf p) < 320"

definition playout_quiet :: "call \<Rightarrow> bool" where
  "playout_quiet w \<longleftrightarrow> (c_playoutIdle w \<longrightarrow> nothing_to_play (c_po w))"

definition quiet_view :: "call \<Rightarrow> bool \<times> playout" where
  "quiet_view w = (c_playoutIdle w, c_po w)"

lemma quiet_by_view: "quiet_view w' = quiet_view w \<Longrightarrow> playout_quiet w \<Longrightarrow> playout_quiet w'"
  by (simp add: quiet_view_def playout_quiet_def)

lemma tick_nothing_to_play:
  "nothing_to_play p \<Longrightarrow> nothing_to_play (fst (po_tick rtp now p))"
  "snd (snd (po_tick rtp now p)) \<Longrightarrow> nothing_to_play (fst (po_tick rtp now p))"
  using po_tick_emit[of p rtp now]
  by (cases "po_stopped p"; cases rtp p rule: emitFrame_cases; auto simp: nothing_to_play_def)+

lemma qview_ops [simp]:
  "quiet_view (upd_br f w) = quiet_view w" "quiet_view (considerListen w) = quiet_view w" "quiet_view (unmute_fired w) = quiet_view w"
  "quiet_view (end_call st x w) = quiet_view w" "quiet_view (registry_end st w) = quiet_view w" "quiet_view (end_done k ok w) = quiet_view w"
  "quiet_view (onResponseDone w) = quiet_view w" "quiet_view (onGreetingDone w) = quiet_view w" "quiet_view (onTranscript role t w) = quiet_view w"
  "quiet_view (onEscalate a b w) = quiet_view w" "quiet_view (request_transfer_flag w) = quiet_view w" "quiet_view (onTransfer cfg w) = quiet_view w"
  "quiet_view (onClose w) = quiet_view w" "quiet_view (tool_done i out w) = quiet_view w" "quiet_view (finish_tool tc ans w) = quiet_view w"
  "quiet_view (refer_done ok w) = quiet_view w"
  by (auto simp: quiet_view_def upd_br_def considerListen_def unmute_fired_def end_call_def registry_end_def end_done_def onResponseDone_def
      onGreetingDone_def onTranscript_def onEscalate_def request_transfer_flag_def onTransfer_def transferDialogToManager_def onClose_def
      tool_done_def finish_tool_def refer_done_def case_prod_beta Let_def split: tool_answer.split option.split list.split)

lemma qview_update [simp]:
  "quiet_view (w\<lparr>c_sm := sm\<rparr>) = quiet_view w" "quiet_view (w\<lparr>c_stage := st\<rparr>) = quiet_view w" "quiet_view (w\<lparr>c_turns := ts\<rparr>) = quiet_view w"
  "quiet_view (w\<lparr>c_jobs := jb\<rparr>) = quiet_view w" "quiet_view (w\<lparr>c_refers := rf\<rparr>) = quiet_view w" "quiet_view (w\<lparr>c_now := n\<rparr>) = quiet_view w"
  "quiet_view (w\<lparr>c_crashed := g\<rparr>) = quiet_view w" "quiet_view (w\<lparr>c_hangupAt := t\<rparr>) = quiet_view w" "quiet_view (w\<lparr>c_maxCallAt := t\<rparr>) = quiet_view w"
  by (simp_all add: quiet_view_def)

lemma qview_runTool [simp]: "quiet_view (runTool cfg arg t w) = quiet_view w"
  by (simp add: runTool_def executeTool_def case_prod_beta Let_def)

lemma stopped_quiet [simp, intro]: "po_stopped (c_po w) \<Longrightarrow> playout_quiet w"
  by (simp add: playout_quiet_def nothing_to_play_def)

lemma quiet_always [simp, intro]: "playout_quiet (holdLine w)" "playout_quiet (connect_failed w)" "playout_quiet (onAudioOut pcm w)"
proof -
  show "playout_quiet (holdLine w)" by (simp add: holdLine_def playout_quiet_def upd_br_def)
  show "playout_quiet (connect_failed w)" by (rule stopped_quiet) (simp add: connect_failed_def end_call_def po_stop_def)
  show "playout_quiet (onAudioOut pcm w)" by (simp add: onAudioOut_def playout_quiet_def upd_br_def Let_def)
qed

lemma quiet_ops:
  assumes "playout_quiet w"
  shows "playout_quiet (beginResponse r w)" "playout_quiet (hangup w)" "playout_quiet (dialog_end w)" "playout_quiet (session_ready cfg w)" "playout_quiet (emitAudio h th d w)"
    "playout_quiet (finish_turn w)" "playout_quiet (try_model ms w)"
proof -
  have b: "playout_quiet (beginResponse r v)" if "playout_quiet v" for r v
    using that by (auto simp: beginResponse_def intro: quiet_by_view[OF qview_ops(1)])
  show "playout_quiet (beginResponse r w)" by (rule b[OF assms])
  show "playout_quiet (hangup w)" "playout_quiet (dialog_end w)"
    by (rule stopped_quiet, simp add: hangup_def dialog_end_def end_call_def po_stop_def Let_def)+
  show "playout_quiet (session_ready cfg w)"
    unfolding session_ready_def Let_def by (rule quiet_by_view[OF qview_update(2)]) (intro b quiet_by_view[OF qview_ops(1) assms])
  show "playout_quiet (emitAudio h th d w)"
    using quiet_by_view[OF qview_ops(1) assms] by (simp add: emitAudio_def Let_def case_prod_beta)
  have "playout_quiet (onResponseDone v)" if "quiet_view v = quiet_view w" for v
    by (rule quiet_by_view[OF _ assms]) (simp add: that)
  then show "playout_quiet (finish_turn w)" unfolding finish_turn_def Let_def by (auto intro!: b)
  show "playout_quiet (try_model ms w)"
    by (auto simp: try_model_def split: list.split intro: quiet_by_view[OF _ assms])
qed

lemma quiet_process_items: "playout_quiet w \<Longrightarrow> playout_quiet (process_items cfg arg ts w)"
proof (induction cfg arg ts w rule: process_items.induct)
  case (1 cfg arg w)
  then show ?case by (auto intro: quiet_ops quiet_by_view[OF qview_update(3)])
next
  case (2 cfg arg t ts w)
  then have "playout_quiet (runTool cfg arg t w)" using quiet_by_view[OF qview_runTool] by blast
  then show ?case using 2 by (auto simp: Let_def intro: quiet_by_view[OF qview_update(3)])
qed

lemma quiet_resume_turns: "playout_quiet w \<Longrightarrow> playout_quiet (resume_turns cfg arg w)"
proof -
  have step: "playout_quiet v \<Longrightarrow> playout_quiet (if turn_waits v t then v\<lparr>c_turns := c_turns v @ [t]\<rparr> else resume_turn cfg arg t v)" for v t
    by (cases t) (auto intro: quiet_process_items quiet_ops quiet_by_view[OF qview_update(3)])
  have "playout_quiet v \<Longrightarrow> playout_quiet (foldl (\<lambda>w t. if turn_waits w t then w\<lparr>c_turns := c_turns w @ [t]\<rparr>
      else resume_turn cfg arg t w) v ts)" for v ts
    by (induction ts arbitrary: v) (use step in simp_all)
  then show "playout_quiet w \<Longrightarrow> playout_quiet (resume_turns cfg arg w)"
    unfolding resume_turns_def using quiet_by_view[OF qview_update(3)] by blast
qed

lemma quiet_message: "playout_quiet w \<Longrightarrow> playout_quiet (onMessage h th cfg arg e w)"
  by (cases e) (auto simp: Let_def intro: quiet_ops quiet_process_items quiet_by_view quiet_ops(4)[OF quiet_by_view])

lemma quiet_tick: "playout_quiet w \<Longrightarrow> playout_quiet (rtp_tick w)"
  using tick_nothing_to_play[where p = "c_po w" and rtp = "c_rtp w" and now = "c_now w"]
  by (auto simp: rtp_tick_def Let_def case_prod_beta onIdle_def considerListen_def playout_quiet_def)

lemma quiet_activate: "playout_quiet w \<Longrightarrow> playout_quiet (activate cfg ah w)"
proof -
  assume a: "playout_quiet w"
  define w1 where "w1 = w\<lparr>c_po := fst (po_start (c_rtp w) (c_now w) (c_po w)),
    c_frames := c_frames w @ fst (snd (po_start (c_rtp w) (c_now w) (c_po w))), c_afterHours := ah\<rparr>"
  define w2 where "w2 = (if snd (snd (po_start (c_rtp w) (c_now w) (c_po w))) then onIdle w1 else w1)"
  define w3 where "w3 = (if ah then onEscalate None None w2 else w2)"
  define w4 where "w4 = w3\<lparr>c_sm := sm_update (c_sm w3) (c_id w3)
      (\<lambda>s. s\<lparr>ls_bridge := True, ls_maxCallTimer := (0 < cc_maxCallMinutes cfg)\<rparr>),
    c_maxCallAt := (if 0 < cc_maxCallMinutes cfg then Some (c_now w3 + cc_maxCallMinutes cfg * 60 * 1000) else None)\<rparr>"
  have "nothing_to_play ((c_po w)\<lparr>po_nextAt := n\<rparr>) = nothing_to_play (c_po w)" for n by (simp add: nothing_to_play_def)
  then have "playout_quiet w2"
    using a tick_nothing_to_play[where p = "(c_po w)\<lparr>po_nextAt := c_now w\<rparr>" and rtp = "c_rtp w" and now = "c_now w"]
    by (auto simp: w2_def w1_def po_start_def onIdle_def considerListen_def playout_quiet_def)
  moreover have "quiet_view w4 = quiet_view w2" by (simp add: w4_def w3_def)
  ultimately have "playout_quiet w4" using quiet_by_view by blast
  moreover have "activate cfg ah w = (if cc_apiKey cfg then try_model (cc_models cfg) w4 else connect_failed w4)"
    by (simp add: activate_def Let_def case_prod_beta w1_def w2_def w3_def w4_def)
  ultimately show ?thesis by (simp add: quiet_ops)
qed

lemma quiet_takeover: "playout_quiet w \<Longrightarrow> playout_quiet (takeover cfg d w)"
  by (auto simp: takeover_def requestTransfer_def transferDialogToManager_def Let_def split: option.split
      intro: quiet_by_view quiet_ops(1)[OF quiet_by_view] quiet_by_view[OF _ quiet_ops(1)[OF quiet_by_view]])

lemma quiet_event: "playout_quiet w \<Longrightarrow> playout_quiet (call_step h th cfg arg w ev)"
proof -
  assume a: "playout_quiet w"
  note v = quiet_by_view[OF _ a]
  have "playout_quiet (call_event_step h th cfg arg w ev)"
  proof (cases ev)
    case EvWsOpen
    then show ?thesis using a by (auto simp: Let_def intro!: v quiet_ops(4) split: call_stage.split)
  next
    case EvWsFailed
    then show ?thesis using a by (auto intro!: v quiet_ops(7) split: call_stage.split)
  next
    case (EvToolDone k ans)
    then show ?thesis using a by (auto simp: Let_def intro!: v quiet_resume_turns)
  next
    case EvHangupTimer
    then show ?thesis using a by (auto intro!: v quiet_ops(2) split: option.split)
  next
    case EvMaxTimer
    then show ?thesis using a by (auto intro!: v quiet_ops(2) split: option.split)
  qed (use a in \<open>auto intro!: v quiet_activate quiet_message quiet_tick quiet_takeover quiet_ops split: option.split\<close>)
  then show ?thesis using a by (simp add: call_step_def)
qed

lemma quiet_run: "playout_quiet w \<Longrightarrow> playout_quiet (call_run h th cfg arg w evs)"
  unfolding call_run_def by (induction evs arbitrary: w) (simp_all add: quiet_event)

lemma quiet_start: "playout_quiet (start_call h rtp now sm ph p)"
  by (simp add: start_call_def playout_quiet_def nothing_to_play_def new_playout_def case_prod_beta)

subsection \<open>A response without audio\<close>

definition deaf :: "call \<Rightarrow> bool" where
  "deaf w \<longleftrightarrow> br_inputMuted (c_br w) \<and> \<not> br_responseInFlight (c_br w) \<and> \<not> c_generating w \<and>
     \<not> c_playoutIdle w \<and> c_unmuteAt w = None \<and> \<not> po_speaking (c_po w) \<and>
     length (po_buf (c_po w)) < RTP_PREROLL_BYTES"

fun waiting_event :: "call_event \<Rightarrow> bool" where
  "waiting_event (EvClock t) = True"
| "waiting_event EvRtpTick = True"
| "waiting_event EvUnmuteTimer = True"
| "waiting_event (EvCallerAudio pcm) = True"
| "waiting_event (EvMessage RtCommitted) = True"
| "waiting_event (EvMessage (RtUserTranscript t)) = True"
| "waiting_event (EvMessage (RtAssistantTranscript t)) = True"
| "waiting_event ev = False"

lemma tick_not_speaking:
  assumes "\<not> po_speaking p" and "length (po_buf p) < RTP_PREROLL_BYTES"
  shows "\<not> po_speaking (fst (po_tick rtp now p)) \<and> po_buf (fst (po_tick rtp now p)) = po_buf p \<and>
    \<not> snd (snd (po_tick rtp now p))"
  using assms po_tick_emit[of p rtp now]
  by (cases "po_stopped p"; cases rtp p rule: emitFrame_cases) (auto simp: rtp_consts)

lemma deaf_step:
  assumes "deaf w" and "waiting_event ev"
  shows "deaf (call_step h th cfg arg w ev) \<and>
    filter is_append (br_sent (c_br (call_step h th cfg arg w ev))) = filter is_append (br_sent (c_br w))"
proof (cases "ev = EvRtpTick")
  case True
  show ?thesis
    using True assms(1) tick_not_speaking[of "c_po w" "c_rtp w" "c_now w"]
    by (simp add: call_step_def rtp_tick_def case_prod_beta Let_def deaf_def)
next
  case False
  then show ?thesis using assms
    by (cases ev rule: waiting_event.cases)
      (auto simp: call_step_def deaf_def upd_br_def muted_sends_no_caller_audio onTranscript_def)
qed

lemma deaf_run:
  assumes "deaf w" and "\<forall>ev \<in> set evs. waiting_event ev"
  shows "deaf (call_run h th cfg arg w evs) \<and>
    filter is_append (br_sent (c_br (call_run h th cfg arg w evs))) = filter is_append (br_sent (c_br w))"
  using assms
proof (induction evs arbitrary: w)
  case (Cons ev evs)
  then show ?case
    using deaf_step[of w ev h th cfg arg] Cons.IH[of "call_step h th cfg arg w ev"]
    by (simp add: call_run_def)
qed (simp add: call_run_def)

lemma empty_response_deaf:
  assumes "\<not> c_crashed w" and "br_ws (c_br w) \<noteq> None" and "\<not> po_speaking (c_po w)"
    and "length (po_buf (c_po w)) < RTP_PREROLL_BYTES"
    and "br_toolsThisTurn (c_br w) = 0" and "br_toolJobs (c_br w) = []" and "\<not> br_turnQueued (c_br w)"
  shows "deaf (call_run h th cfg arg w [EvMessage RtResponseCreated, EvMessage (RtResponseDone [])])"
proof -
  have m: "br_toolsThisTurn (muteInput b) = br_toolsThisTurn b" "br_toolJobs (muteInput b) = br_toolJobs b"
    "br_turnQueued (muteInput b) = br_turnQueued b" "br_ws (muteInput b) = br_ws b" for b
    by (simp_all add: muteInput_def clearInputBuffer_def)
  show ?thesis
    using assms
    by (auto simp: call_run_def call_step_def holdLine_def upd_br_def m finish_turn_def Let_def onResponseDone_def
        onGreetingDone_def considerListen_def deaf_def)
qed

subsection \<open>Properties\<close>

text \<open>
  C1. Echo guard. In every state a call can reach, caller audio is forwarded to the realtime
  service only by an audio event of an answered call, and only while the model is not generating,
  no response is in flight and everything it said has been played: nothing is left in the playout but less than one frame, and
  it is not speaking, or it has been stopped. The model never hears its own voice through the phone line. (The two
  conditions on the first state hold at the start of a call.)
\<close>

theorem caller_audio_only_when_quiet:
  assumes "echo_guard w0" and "playout_quiet w0" and "w = call_run h th cfg arg w0 evs"
    and "filter is_append (br_sent (c_br (call_step h th cfg arg w ev))) \<noteq> filter is_append (br_sent (c_br w))"
  shows "(\<exists>pcm. ev = EvCallerAudio pcm) \<and> c_stage w = StRunning \<and> \<not> br_inputMuted (c_br w) \<and>
    \<not> c_generating w \<and> c_playoutIdle w \<and> \<not> br_responseInFlight (c_br w) \<and>
    (po_stopped (c_po w) \<or> \<not> po_speaking (c_po w) \<and> length (po_buf (c_po w)) < 320) \<and>
    echo_guard (start_call h rtp now sm ph p) \<and> playout_quiet (start_call h rtp now sm ph p)"
proof -
  have g: "echo_guard w" unfolding assms(3) by (rule echo_guard_run[OF assms(1)])
  have q: "playout_quiet w" unfolding assms(3) by (rule quiet_run[OF assms(2)])
  have "\<exists>pcm. ev = EvCallerAudio pcm"
    using assms(4) calm_event[of ev w h th cfg arg]
    by (auto simp: call_step_def calm_def no_audio_sent_def split: if_splits)
  then obtain pcm where ev: "ev = EvCallerAudio pcm" by blast
  then have "c_stage w = StRunning" "\<not> br_inputMuted (c_br w)"
    using assms(4) by (auto simp: call_step_def upd_br_def muted_sends_no_caller_audio split: if_splits)
  then show ?thesis using g q ev echo_guard_start quiet_start by (auto simp: echo_guard_def playout_quiet_def nothing_to_play_def)
qed

text \<open>
  C34. A response that produces no audio (cancelled, failed, text only, or shorter than the 120 ms preroll)
  leaves the line deaf: \<open>playoutIdle\<close> stays false because a playout that never speaks never reports
  idle, so however long the call waits and whatever the caller says, nothing is forwarded to the
  model any more and committed turns are ignored.
\<close>

theorem empty_response_deafens_line:
  assumes "\<not> c_crashed w" and "br_ws (c_br w) \<noteq> None" and "\<not> po_speaking (c_po w)"
    and "length (po_buf (c_po w)) < RTP_PREROLL_BYTES"
    and "br_toolsThisTurn (c_br w) = 0" and "br_toolJobs (c_br w) = []" and "\<not> br_turnQueued (c_br w)"
    and "\<forall>ev \<in> set evs. waiting_event ev"
  shows "br_inputMuted (c_br (call_run h th cfg arg w
      ([EvMessage RtResponseCreated, EvMessage (RtResponseDone [])] @ evs))) \<and>
    filter is_append (br_sent (c_br (call_run h th cfg arg w
      ([EvMessage RtResponseCreated, EvMessage (RtResponseDone [])] @ evs)))) =
    filter is_append (br_sent (c_br (call_run h th cfg arg w
      [EvMessage RtResponseCreated, EvMessage (RtResponseDone [])])))"
  using deaf_run[OF empty_response_deaf[OF assms(1-7)] assms(8), of h th cfg arg h th cfg arg]
  by (simp add: call_run_def deaf_def)

definition demo_cfg :: call_cfg where
  "demo_cfg = \<lparr>cc_models = [[1]], cc_voices = [[2]], cc_apiKey = True, cc_greeting = [3],
     cc_afterHoursGreeting = [4], cc_transferTo = [55], cc_maxCallMinutes = 30\<rparr>"

text \<open>A call in conversation: answered, connected, with the bridge attached to its session.\<close>

definition demo_call :: call where
  "demo_call = (let w = start_call [1] True 0 no_sessions (js ''+7'') [9]
     in w\<lparr>c_stage := StRunning, c_br := (c_br w)\<lparr>br_ws := Some WsOpen, br_live := True, br_inputMuted := False\<rparr>,
          c_sm := sm_update (c_sm w) (c_id w) (\<lambda>s. s\<lparr>ls_bridge := True\<rparr>)\<rparr>)"

lemma demo_call_simps [simp]:
  "\<not> c_crashed demo_call" "br_ws (c_br demo_call) = Some WsOpen" "c_po demo_call = new_playout"
  "br_toolsThisTurn (c_br demo_call) = 0" "br_toolJobs (c_br demo_call) = []"
  "\<not> br_turnQueued (c_br demo_call)" "c_stage demo_call = StRunning"
  "c_jobs demo_call = []" "br_handledToolCalls (c_br demo_call) = {}" "br_sent (c_br demo_call) = []"
  "c_refers demo_call = []" "\<not> c_transferRequested demo_call" "c_ends demo_call = []"
  "br_pendingToolArgs (c_br demo_call) j = None"
  by (simp_all add: demo_call_def Let_def start_call_def case_prod_beta new_bridge_def)

lemma empty_response_deafens_line_witness:
  "br_inputMuted (c_br (call_run [1] (\<lambda>x. x) demo_cfg (\<lambda>_ _. []) demo_call
      ([EvMessage RtResponseCreated, EvMessage (RtResponseDone [])] @
       [EvClock 60000, EvRtpTick, EvCallerAudio [1, 2], EvMessage RtCommitted, EvUnmuteTimer])))"
  using empty_response_deafens_line[of demo_call
      "[EvClock 60000, EvRtpTick, EvCallerAudio [1, 2], EvMessage RtCommitted, EvUnmuteTimer]"]
  by (simp add: new_playout_def rtp_consts)

lemma demo_call_guard: "echo_guard demo_call" "playout_quiet demo_call"
  by (simp_all add: demo_call_def Let_def start_call_def case_prod_beta new_bridge_def echo_guard_def playout_quiet_def nothing_to_play_def
      new_playout_def)

lemma demo_call_forwards:
  "filter is_append (br_sent (c_br (call_step h th cfg arg demo_call (EvCallerAudio pcm)))) \<noteq> []"
proof -
  have "\<not> br_inputMuted (c_br demo_call)" "\<not> br_closed (c_br demo_call)"
    by (simp_all add: demo_call_def Let_def start_call_def case_prod_beta new_bridge_def)
  then show ?thesis
    by (simp add: call_step_def upd_br_def sendPcm8Audio_def case_prod_beta Let_def ws_send_def)
qed

lemma caller_audio_only_when_quiet_witness:
  "c_playoutIdle demo_call \<and> \<not> c_generating demo_call"
  using caller_audio_only_when_quiet[OF demo_call_guard, of demo_call "[]" "\<lambda>x. x" demo_cfg "\<lambda>_ _. []" "[]"
      "EvCallerAudio [1, 2]"] demo_call_forwards[of "[]" "\<lambda>x. x" demo_cfg "\<lambda>_ _. []" "[1, 2]"]
  by (simp add: call_run_def)

subsection \<open>How calls end\<close>

lemma getById_endCall:
  "sm_getById (fst (endCall now sm i st u)) j =
     (if j = i then map_option (\<lambda>r. r\<lparr>cr_status := st, cr_ended_at := Some now,
        cr_recording_url := (case u of None \<Rightarrow> cr_recording_url r | Some x \<Rightarrow> Some x)\<rparr>) (sm_getById sm i)
      else sm_getById sm j)"
  unfolding endCall_def sm_getById_def sm_remove_state by (simp add: find_update_where[where k = cr_id])

lemma get_endCall [simp]: "sm_get (fst (endCall now sm i st u)) i = None"
  by (simp add: endCall_def sm_get_def sm_remove_state)

lemma registry_end_sm: "c_sm (registry_end st w) = fst (endCall (c_now w) (c_sm w) (c_id w) st None)"
  by (simp add: registry_end_def case_prod_beta Let_def)

lemma end_call_simps [simp]:
  "c_id (end_call st x w) = c_id w" "c_po (end_call st x w) = c_po w" "c_byes (end_call st x w) = c_byes w"
  "c_crashed (end_call st x w) = c_crashed w" "c_stage (end_call st x w) = c_stage w" "c_br (end_call st x w) = c_br w"
  "c_refers (end_call st x w) = c_refers w" "c_transferRequested (end_call st x w) = c_transferRequested w"
  "c_frames (end_call st x w) = c_frames w" "c_sm (end_call st x w) = c_sm w" "c_ends (end_call st x w) = c_ends w @ [(st, x)]"
  by (simp_all add: end_call_def)

lemma registry_end_simps [simp]:
  "c_id (registry_end st w) = c_id w" "c_po (registry_end st w) = c_po w" "c_byes (registry_end st w) = c_byes w"
  "c_crashed (registry_end st w) = c_crashed w" "c_stage (registry_end st w) = c_stage w"
  "c_frames (registry_end st w) = c_frames w" "c_ends (registry_end st w) = c_ends w"
  "br_sent (c_br (registry_end st w)) = br_sent (c_br w)" "br_closed (c_br w) \<Longrightarrow> br_closed (c_br (registry_end st w))"
  "br_ws (c_br w) \<noteq> Some WsOpen \<Longrightarrow> br_ws (c_br (registry_end st w)) \<noteq> Some WsOpen"
  "sm_get (c_sm (registry_end st w)) (c_id w) = None"
  by (auto simp: registry_end_def case_prod_beta Let_def bridge_close_def)

lemma registry_end_status:
  "map_option cr_status (sm_getById (c_sm (registry_end st w)) (c_id w)) = map_option (\<lambda>_. st) (sm_getById (c_sm w) (c_id w))"
  by (simp add: registry_end_sm getById_endCall option.map_comp o_def)

lemma registry_end_closes:
  assumes "sm_get (c_sm w) (c_id w) = Some s" and "ls_bridge s"
  shows "br_closed (c_br (registry_end st w))" and "c_maxCallAt (registry_end st w) = None"
  using assms
  by (simp_all add: registry_end_def endCall_def sm_remove_def sm_get_def case_prod_beta Let_def)

text \<open>
  A call that is over: its playout is stopped, its bridge closed and the socket not open, so that it sends nothing any more; and its
  session is released, or an end that its handlers started is still under way, or the process is gone. \<open>F\<close> and \<open>B\<close> are the
  frames and the messages sent so far and \<open>i\<close> is the session's number.
\<close>

definition final_status :: "call_status \<Rightarrow> bool" where
  "final_status st \<longleftrightarrow> st \<in> {Completed, Transferred, Failed}"

lemma final_status_simps [simp]: "final_status Completed" "final_status Transferred" "final_status Failed"
  by (simp_all add: final_status_def)

definition released :: "sessions \<Rightarrow> row_id \<Rightarrow> bool" where
  "released sm i \<longleftrightarrow> sm_get sm i = None \<and> (\<exists>r. sm_getById sm i = Some r \<and> final_status (cr_status r) \<and> cr_ended_at r \<noteq> None)"

definition silent :: "bytes list \<Rightarrow> ws_msg list \<Rightarrow> row_id \<Rightarrow> call \<Rightarrow> bool" where
  "silent F B i w \<longleftrightarrow> c_id w = i \<and> c_stage w \<in> {StRunning, StOver} \<and> po_stopped (c_po w) \<and> c_frames w = F
     \<and> br_sent (c_br w) = B \<and> br_closed (c_br w) \<and> br_ws (c_br w) \<noteq> Some WsOpen"

definition ending :: "row_id \<Rightarrow> call \<Rightarrow> bool" where
  "ending i w \<longleftrightarrow> sm_getById (c_sm w) i \<noteq> None \<and> (\<forall>e \<in> set (c_ends w). final_status (fst e))
     \<and> (c_crashed w \<or> (\<exists>st. (st, EndVoid) \<in> set (c_ends w)) \<or> released (c_sm w) i)"

definition over :: "bytes list \<Rightarrow> ws_msg list \<Rightarrow> row_id \<Rightarrow> call \<Rightarrow> bool" where
  "over F B i w \<longleftrightarrow> silent F B i w \<and> ending i w"

lemmas over_defs = over_def silent_def ending_def

named_theorems over_intros

lemma sm_update_ends [simp]:
  "sm_getById (sm_update sm i f) j = sm_getById sm j" "released sm j \<Longrightarrow> released (sm_update sm i f) j"
  by (auto simp: sm_update_def sm_getById_def released_def sm_get_def)

lemma append_ends:
  "sm_getById sm j \<noteq> None \<Longrightarrow> sm_getById (appendTranscript sm i role t) j \<noteq> None"
  "released sm j \<Longrightarrow> released (appendTranscript sm i role t) j"
proof -
  have g: "sm_getById (appendTranscript sm i role t) j =
      (if j = i then map_option (\<lambda>r. r\<lparr>cr_transcript := cr_transcript r @ [(role, t)]\<rparr>) (sm_getById sm i) else sm_getById sm j)"
    unfolding appendTranscript_def sm_getById_def by (simp add: find_update_where[where k = cr_id])
  show "sm_getById sm j \<noteq> None \<Longrightarrow> sm_getById (appendTranscript sm i role t) j \<noteq> None" by (auto simp: g)
  show "released sm j \<Longrightarrow> released (appendTranscript sm i role t) j"
    by (auto simp: released_def g) (simp_all add: appendTranscript_def sm_get_def)
qed

lemma closed_send: "br_ws b \<noteq> Some WsOpen \<Longrightarrow> ws_send m b = b"
  by (simp add: ws_send_def)

lemma over_bridge [over_intros]:
  assumes "over F B i w" "br_sent (f (c_br w)) = br_sent (c_br w)" "br_closed (f (c_br w)) = br_closed (c_br w)"
    "br_ws (f (c_br w)) = br_ws (c_br w)"
  shows "over F B i (upd_br f w)"
  using assms by (simp add: over_defs upd_br_def)

lemma over_update:
  "over F B i w \<Longrightarrow> over F B i (w\<lparr>c_unmuteAt := t\<rparr>)" "over F B i w \<Longrightarrow> over F B i (w\<lparr>c_generating := g\<rparr>)"
  "over F B i w \<Longrightarrow> over F B i (w\<lparr>c_playoutIdle := g\<rparr>)" "over F B i w \<Longrightarrow> over F B i (w\<lparr>c_hangupAt := t\<rparr>)"
  "over F B i w \<Longrightarrow> over F B i (w\<lparr>c_maxCallAt := t\<rparr>)" "over F B i w \<Longrightarrow> over F B i (w\<lparr>c_now := n\<rparr>)"
  "over F B i w \<Longrightarrow> over F B i (w\<lparr>c_alerts := al\<rparr>)" "over F B i w \<Longrightarrow> over F B i (w\<lparr>c_turns := ts\<rparr>)"
  "over F B i w \<Longrightarrow> over F B i (w\<lparr>c_refers := rf\<rparr>)" "over F B i w \<Longrightarrow> over F B i (w\<lparr>c_jobs := jb\<rparr>)"
  "over F B i w \<Longrightarrow> over F B i (w\<lparr>c_byes := k\<rparr>)" "over F B i w \<Longrightarrow> over F B i (w\<lparr>c_transferRequested := g\<rparr>)"
  "over F B i w \<Longrightarrow> over F B i (w\<lparr>c_crashed := True\<rparr>)" "over F B i w \<Longrightarrow> over F B i (w\<lparr>c_po := po_stop p\<rparr>)"
  "over F B i w \<Longrightarrow> over F B i (w\<lparr>c_stage := StOver\<rparr>)" "over F B i w \<Longrightarrow> over F B i (w\<lparr>c_stage := StRunning\<rparr>)"
  "over F B i w \<Longrightarrow> over F B i (w\<lparr>c_sm := sm_update (c_sm w) j f\<rparr>)"
  by (auto simp: over_defs po_stop_def)

lemma over_end [over_intros]:
  "over F B i w \<Longrightarrow> final_status st \<Longrightarrow> over F B i (end_call st x w)"
  by (auto simp: over_defs)

lemma over_ops [over_intros]:
  assumes "over F B i w"
  shows "over F B i (considerListen w)" "over F B i (unmute_fired w)" "over F B i (holdLine w)" "over F B i (onIdle w)"
    "over F B i (hangup w)" "over F B i (onResponseDone w)" "over F B i (onGreetingDone w)" "over F B i (onEscalate a b w)"
    "over F B i (request_transfer_flag w)" "over F B i (onTransfer cfg w)" "over F B i (onClose w)" "over F B i (beginResponse r w)"
    "over F B i (tool_done n out w)" "over F B i (onTranscript role t w)" "over F B i (onAudioOut pcm w)"
proof -
  have x: "br_ws (c_br w) \<noteq> Some WsOpen" "br_closed (c_br w)" "po_stopped (c_po w)" using assms by (simp_all add: over_defs)
  have b: "over F B i (upd_br muteInput v)" "over F B i (upd_br unmuteInput v)" "over F B i (upd_br (ws_send m) v)"
    if "over F B i v" for v m
  proof -
    have n: "br_ws (c_br v) \<noteq> Some WsOpen" using that by (simp add: over_defs)
    show "over F B i (upd_br muteInput v)" "over F B i (upd_br unmuteInput v)" "over F B i (upd_br (ws_send m) v)"
      by (rule over_bridge[OF that], simp_all add: n closed_send muteInput_def unmuteInput_def clearInputBuffer_def)+
  qed
  note u = over_update[where F = F and B = B and i = i]
  show "over F B i (considerListen w)" "over F B i (unmute_fired w)" "over F B i (holdLine w)" "over F B i (onIdle w)"
    "over F B i (onResponseDone w)" "over F B i (onGreetingDone w)" "over F B i (onEscalate a b w)"
    "over F B i (tool_done n out w)"
    using assms
    by (simp_all add: considerListen_def unmute_fired_def holdLine_def onIdle_def onResponseDone_def onGreetingDone_def onEscalate_def
        tool_done_def b u Let_def)
  show f: "over F B i (request_transfer_flag w)" using assms by (auto simp: over_defs request_transfer_flag_def)
  show "over F B i (onTransfer cfg w)" using u(9)[OF f] f by (simp add: onTransfer_def transferDialogToManager_def)
  show "over F B i (hangup w)" unfolding hangup_def by (intro over_end) (use assms in \<open>auto simp: over_defs po_stop_def\<close>)
  show "over F B i (onClose w)" using over_end[OF assms] by (simp add: onClose_def)
  show "over F B i (beginResponse r w)" using assms x by (simp add: beginResponse_def)
  show "over F B i (onTranscript role t w)"
    using assms append_ends[of "c_sm w" i "c_id w" role t] by (auto simp: over_defs onTranscript_def)
  have "po_push (c_po w) pcm = c_po w" using x by (simp add: po_push_def)
  moreover have "c_po (upd_br muteInput (w\<lparr>c_unmuteAt := None, c_playoutIdle := False\<rparr>)) = c_po w" by (simp add: upd_br_def)
  ultimately have "onAudioOut pcm w = upd_br muteInput (w\<lparr>c_unmuteAt := None, c_playoutIdle := False\<rparr>)"
    by (simp add: onAudioOut_def upd_br_def)
  then show "over F B i (onAudioOut pcm w)" using assms by (simp add: b u)
qed

lemma over_runTool [over_intros]: "over F B i w \<Longrightarrow> over F B i (runTool cfg arg t w)"
  by (auto simp: runTool_def executeTool_def Let_def case_prod_beta intro!: over_intros over_update)

lemma over_finish_turn [over_intros]: "over F B i w \<Longrightarrow> over F B i (finish_turn w)"
  unfolding finish_turn_def Let_def by (auto intro!: over_intros)

lemma over_process_items [over_intros]: "over F B i w \<Longrightarrow> over F B i (process_items cfg arg ts w)"
  by (induction cfg arg ts w rule: process_items.induct) (auto simp: Let_def intro!: over_intros over_update)

lemma over_resume_turns [over_intros]: "over F B i w \<Longrightarrow> over F B i (resume_turns cfg arg w)"
proof -
  have step: "over F B i v \<Longrightarrow> over F B i (if turn_waits v t then v\<lparr>c_turns := c_turns v @ [t]\<rparr> else resume_turn cfg arg t v)" for v t
    by (cases t) (auto intro!: over_intros over_update)
  have "over F B i v \<Longrightarrow> over F B i (foldl (\<lambda>w t. if turn_waits w t then w\<lparr>c_turns := c_turns w @ [t]\<rparr>
      else resume_turn cfg arg t w) v ts)" for v ts
    by (induction ts arbitrary: v) (use step in simp_all)
  then show "over F B i w \<Longrightarrow> over F B i (resume_turns cfg arg w)" by (simp add: resume_turns_def over_update)
qed

lemma over_message [over_intros]: "over F B i w \<Longrightarrow> over F B i (onMessage h th cfg arg e w)"
proof -
  assume a: "over F B i w"
  have x: "br_ws (c_br w) \<noteq> Some WsOpen" using a by (simp add: over_defs)
  have c: "over F B i v \<Longrightarrow> over F B i (connect_failed v)" for v
    unfolding connect_failed_def by (intro over_update over_end) (auto simp: over_defs po_stop_def)
  show ?thesis
    using a x
    by (cases e) (auto simp: session_ready_def emitAudio_def Let_def case_prod_beta tool_args_delta_def sendSessionUpdate_def closed_send
        intro!: over_intros over_update c)
qed

lemma over_end_done [over_intros]:
  assumes "over F B i w"
  shows "over F B i (end_done k ok w)"
proof (cases "k < length (c_ends w)")
  case True
  obtain st x where e: "c_ends w ! k = (st, x)" by (cases "c_ends w ! k")
  define v where "v = w\<lparr>c_ends := take k (c_ends w) @ drop (Suc k) (c_ends w)\<rparr>"
  have d: "end_done k ok w = (if ok then registry_end st v else if x = EndVoid then v\<lparr>c_crashed := True\<rparr> else v)"
    using True by (simp add: end_done_def e v_def)
  have j: "c_ends w = take k (c_ends w) @ (st, x) # drop (Suc k) (c_ends w)" using id_take_nth_drop[OF True] e by simp
  have "c_ends v = take k (c_ends w) @ drop (Suc k) (c_ends w)" by (simp add: v_def)
  then have es: "set (c_ends w) = insert (st, x) (set (c_ends v))" by (subst j) simp
  have st: "final_status st" "\<forall>e \<in> set (c_ends v). final_status (fst e)"
    using assms es by (auto simp: over_defs)
  have s: "silent F B i v" using assms by (simp add: over_def silent_def v_def)
  have v: "c_sm v = c_sm w" "c_id v = i" "c_crashed v = c_crashed w" using assms by (simp_all add: v_def over_defs)
  show ?thesis
  proof (cases ok)
    case True
    have "sm_getById (c_sm v) i \<noteq> None" using assms v(1) by (simp add: over_defs)
    then have "released (c_sm (registry_end st v)) i"
      using st(1) v(2) registry_end_simps(11)[of st v] by (auto simp: released_def registry_end_sm getById_endCall)
    moreover have "silent F B i (registry_end st v)" using s by (simp add: silent_def)
    moreover have "end_done k ok w = registry_end st v" using d True by simp
    ultimately show ?thesis using st(2) by (auto simp: over_def ending_def released_def)
  next
    case False
    have c: "silent F B i (v\<lparr>c_crashed := True\<rparr>)" using s by (simp add: silent_def)
    have "end_done k ok w = (if x = EndVoid then v\<lparr>c_crashed := True\<rparr> else v)" using d False by simp
    then show ?thesis using assms s c st(2) es v by (auto simp: over_def ending_def)
  qed
qed (use assms in \<open>simp add: end_done_def\<close>)

lemma over_event:
  assumes "over F B i w"
  shows "over F B i (call_event_step h th cfg arg w ev)"
proof -
  have st: "c_stage w \<in> {StRunning, StOver}" "po_stopped (c_po w)" "br_closed (c_br w)" "br_ws (c_br w) \<noteq> Some WsOpen"
    using assms by (simp_all add: over_defs)
  show ?thesis
  proof (cases ev)
    case EvWsClosed
    have "over F B i (upd_br (\<lambda>b. b\<lparr>br_closed := True, br_live := False, br_ws := Some WsClosed\<rparr>) w)"
      using assms by (simp add: over_defs upd_br_def)
    then show ?thesis using EvWsClosed assms by (auto intro!: over_intros)
  next
    case EvRtpTick
    then show ?thesis using assms st(2) by (simp add: rtp_tick_def po_tick_def)
  next
    case EvDialogEnd
    have "over F B i (w\<lparr>c_hangupAt := None, c_po := po_stop (c_po w), c_br := bridge_close (c_br w)\<rparr>)"
      using assms by (auto simp: over_defs po_stop_def bridge_close_def)
    then show ?thesis using EvDialogEnd assms by (auto simp: dialog_end_def intro!: over_intros)
  next
    case (EvToolDone k ans)
    have "over F B i (finish_tool t ans (w\<lparr>c_jobs := jb\<rparr>))" for t jb
      using over_update(10)[OF assms, of jb]
      by (auto simp: finish_tool_def Let_def intro!: over_intros over_update split: tool_answer.split option.split)
    then show ?thesis using EvToolDone assms by (simp add: Let_def over_resume_turns)
  next
    case EvTakeover
    then show ?thesis using assms
      by (auto simp: takeover_def requestTransfer_def transferDialogToManager_def Let_def intro!: over_intros over_update split: option.split)
  next
    case (EvReferDone ok)
    then show ?thesis using assms by (auto simp: refer_done_def Let_def intro!: over_intros over_update split: list.split)
  next
    case (EvCallerAudio pcm)
    then show ?thesis using assms st(3) by (auto simp: sendPcm8Audio_def intro!: over_intros)
  qed (use assms st in \<open>auto intro!: over_intros over_update split: call_stage.split option.split\<close>)
qed

lemma over_run: "over F B i w \<Longrightarrow> over F B i (call_run h th cfg arg w evs)"
  unfolding call_run_def by (induction evs arbitrary: w) (simp_all add: call_step_def over_event)

text \<open>
  C13. When the caller hangs up during the conversation, the call falls silent at once and for good: whatever happens afterwards
  (messages of the service, tool answers, timers, transfers, other ends of the call, in any order), no frame is sent to the caller
  and no message to the realtime service. And the call is not forgotten: the update of its row is still under way, or the session
  has left the registry and its row has a final status and an end; otherwise the process itself has ended
  (\<open>failed_end_stops_process\<close>).
\<close>

theorem dialog_end_releases_call:
  assumes "\<not> c_crashed w" and "c_stage w = StRunning" and "sm_getById (c_sm w) (c_id w) \<noteq> None"
    and "\<forall>e \<in> set (c_ends w). fst e \<in> {Completed, Transferred, Failed}"
    and "q = call_run h th cfg arg (call_step h th cfg arg w EvDialogEnd) evs"
  shows "po_stopped (c_po q) \<and> c_frames q = c_frames w \<and> br_closed (c_br q) \<and> br_sent (c_br q) = br_sent (c_br w) \<and>
    (c_crashed q \<or> (\<exists>st. (st, EndVoid) \<in> set (c_ends q)) \<or>
     sm_get (c_sm q) (c_id w) = None \<and>
     (\<exists>r. sm_getById (c_sm q) (c_id w) = Some r \<and> cr_status r \<in> {Completed, Transferred, Failed} \<and> cr_ended_at r \<noteq> None))"
proof -
  have "over (c_frames w) (br_sent (c_br w)) (c_id w) (call_step h th cfg arg w EvDialogEnd)"
    using assms(1-4) by (auto simp: call_step_def dialog_end_def over_defs final_status_def po_stop_def bridge_close_def)
  then have "over (c_frames w) (br_sent (c_br w)) (c_id w) q" unfolding assms(5) by (rule over_run)
  then show ?thesis by (simp add: over_defs released_def final_status_def)
qed

lemma demo_call_row: "sm_getById (c_sm demo_call) (c_id demo_call) \<noteq> None"
  by (simp add: demo_call_def Let_def start_call_def startCall_def no_sessions_def open_voice_deal_def
      sm_getById_def sm_update_def sm_set_def)

lemma dialog_end_releases_call_witness:
  "c_frames (call_run [1] (\<lambda>x. x) demo_cfg (\<lambda>_ _. []) (call_step [1] (\<lambda>x. x) demo_cfg (\<lambda>_ _. []) demo_call EvDialogEnd)
     [EvRtpTick, EvMessage RtResponseCreated, EvMessage (RtAudioDelta [65, 65, 65, 65]), EvRtpTick, EvEndDone 0 True]) = c_frames demo_call"
  using dialog_end_releases_call[where w = demo_call and h = "[1]" and th = "\<lambda>x. x" and cfg = demo_cfg and arg = "\<lambda>_ _. []" and
      evs = "[EvRtpTick, EvMessage RtResponseCreated, EvMessage (RtAudioDelta [65, 65, 65, 65]), EvRtpTick, EvEndDone 0 True]", OF _ _ demo_call_row _ refl]
  by simp

text \<open>
  An end of the call whose query the database refuses stops the whole gateway, with all other calls: \<open>endCall\<close> is started with
  \<open>void\<close> and nobody handles its rejection.
\<close>

lemma failed_end_stops_process:
  assumes "\<not> c_crashed w" "c_stage w = StRunning" "c_ends w = []"
  shows "c_crashed (call_run h th cfg arg w [EvDialogEnd, EvEndDone 0 False])"
  using assms by (simp add: call_run_def call_step_def dialog_end_def end_done_def Let_def)

text \<open>
  A transfer that the operator refuses is still recorded as carried out: the tool sets
  \<open>transferRequested\<close> before the REFER is sent, nothing resets it when the REFER fails, and the end
  of the dialog then stores the status "transferred".
\<close>

theorem refused_transfer_recorded:
  assumes "\<not> c_crashed w" and "c_stage w = StRunning" and "sm_getById (c_sm w) (c_id w) \<noteq> None"
    and "br_ws (c_br w) \<noteq> None" and "cc_transferTo cfg \<noteq> []" and "c_refers w = []"
    and "i \<noteq> []" and "i \<notin> br_handledToolCalls (c_br w)" and "c_ends w = []" and "\<And>raw. args = Some raw \<Longrightarrow> \<not> json_null raw"
    and "br_pendingToolArgs (c_br w) i = None"
  shows "map_option cr_status (sm_getById (c_sm (call_run h th cfg arg w
      [EvMessage (RtToolArgsDone i (js ''escalate_call'') args), EvReferDone False, EvDialogEnd, EvEndDone 0 True])) (c_id w)) =
    Some Transferred"
proof -
  let ?v = "call_step h th cfg arg w (EvMessage (RtToolArgsDone i (js ''escalate_call'') args))"
  let ?u = "call_step h th cfg arg ?v (EvReferDone False)"
  have null: "\<not> json_null (js_or None (js_or args (js ''{}'')))"
    using assms(10) by (cases args) (auto simp: js_or_def json_null_def js_def)
  have "c_transferRequested ?u \<and> c_stage ?u = StRunning \<and> \<not> c_crashed ?u \<and> c_id ?u = c_id w \<and>
      sm_calls (c_sm ?u) = sm_calls (c_sm w) \<and> c_ends ?u = []"
    using assms null
    by (auto simp: call_step_def runTool_def executeTool_def tool_waits_def tool_throws_def upd_br_def tool_done_def
        onEscalate_def onTransfer_def transferDialogToManager_def request_transfer_flag_def refer_done_def sm_update_def Let_def)
  moreover from this have "sm_getById (c_sm ?u) (c_id ?u) \<noteq> None" using assms(3) by (simp add: sm_getById_def)
  ultimately have "map_option cr_status (sm_getById (c_sm (call_step h th cfg arg (call_step h th cfg arg ?u EvDialogEnd) (EvEndDone 0 True))) (c_id w)) =
      Some Transferred"
    by (auto simp: call_step_def dialog_end_def end_done_def registry_end_sm getById_endCall)
  then show ?thesis by (simp add: call_run_def)
qed

lemma refused_transfer_recorded_witness:
  "map_option cr_status (sm_getById (c_sm (call_run [1] (\<lambda>x. x) demo_cfg (\<lambda>_ _. []) demo_call
      [EvMessage (RtToolArgsDone [7] (js ''escalate_call'') None), EvReferDone False, EvDialogEnd, EvEndDone 0 True])) (c_id demo_call)) =
    Some Transferred"
  using refused_transfer_recorded[where w = demo_call and cfg = demo_cfg and i = "[7]" and h = "[1]" and th = "\<lambda>x. x"
      and arg = "\<lambda>_ _. []" and args = None] demo_call_row
  by (simp add: demo_cfg_def)

text \<open>
  A caller who hangs up while the realtime service is still being connected is not noticed: the
  handlers of the dialog are registered only after \<open>bridge.connect()\<close>, so the call goes on, keeps
  its registry entry and its row, and the assistant greets an ended dialog.
\<close>

theorem early_hangup_unnoticed:
  assumes "\<not> c_crashed w" and "c_stage w = StConnecting ms" and "br_ws (c_br w) = Some WsConnecting"
    and "\<not> br_closed (c_br w)" and "\<not> br_responseInFlight (c_br w)" and "\<not> br_sessionAcked (c_br w)"
  shows "c_stage (call_run h th cfg arg w [EvDialogEnd, EvWsOpen, EvMessage RtSessionAck]) = StRunning \<and>
    c_sm (call_run h th cfg arg w [EvDialogEnd, EvWsOpen, EvMessage RtSessionAck]) = c_sm w \<and>
    (\<exists>r. CreateResponse r \<in> set (br_sent (c_br (call_run h th cfg arg w
       [EvDialogEnd, EvWsOpen, EvMessage RtSessionAck])))) \<and>
    po_stopped (c_po (call_run h th cfg arg w [EvDialogEnd, EvWsOpen, EvMessage RtSessionAck])) = po_stopped (c_po w)"
  using assms
  by (auto simp: call_run_def call_step_def Let_def upd_br_def sendSessionUpdate_def session_ready_def
      beginResponse_def holdLine_def ws_send_def clearInputBuffer_def muteInput_def)

definition connecting_call :: call where
  "connecting_call = demo_call\<lparr>c_stage := StConnecting [[1]],
     c_br := (new_bridge [1])\<lparr>br_ws := Some WsConnecting\<rparr>\<rparr>"

lemma early_hangup_unnoticed_witness:
  "c_stage (call_run [1] (\<lambda>x. x) demo_cfg (\<lambda>_ _. []) connecting_call
     [EvDialogEnd, EvWsOpen, EvMessage RtSessionAck]) = StRunning"
  using early_hangup_unnoticed[of connecting_call "[[1]]" "[1]" "\<lambda>x. x" demo_cfg "\<lambda>_ _. []"]
  by (simp add: connecting_call_def new_bridge_def)

text \<open>
  When a manager takes the call over and the operator refuses the REFER, the route still ends
  the session as transferred: the assistant's bridge is closed and the registry entry and limit
  timer are gone, but the dialog is neither transferred nor hung up and its playout keeps running, so
  the caller stays on a silent line.
\<close>

theorem failed_takeover_strands_caller:
  assumes "\<not> c_crashed w" and "c_refers w = []" and "cc_transferTo cfg \<noteq> []"
    and "getActiveForDeal (c_sm w) (call_deal w) = Some row" and "cr_id row = c_id w"
    and "sm_getById (c_sm w) (c_id w) \<noteq> None"
    and "sm_get (c_sm w) (c_id w) = Some s" and "ls_bridge s"
    and "v = call_run h th cfg arg w [EvTakeover, EvReferDone False, EvEndDone 0 True]" and "c_ends w = []"
  shows "map_option cr_status (sm_getById (c_sm v) (c_id w)) = Some Transferred \<and>
    br_closed (c_br v) \<and> sm_get (c_sm v) (c_id w) = None \<and> c_maxCallAt v = None \<and>
    c_byes v = c_byes w \<and> po_stopped (c_po v) = po_stopped (c_po w)"
proof -
  define u where "u = requestTransfer (js ''manager_takeover'') (request_transfer_flag w)"
  have t: "call_step h th cfg arg w EvTakeover = u\<lparr>c_refers := c_refers u @ [ReferHttp]\<rparr>"
    using assms(1,3-5,7,8) by (simp add: call_step_def takeover_def transferDialogToManager_def u_def Let_def)
  have u: "c_id u = c_id w" "c_byes u = c_byes w" "c_po u = c_po w" "c_refers u = []" "\<not> c_crashed u" "c_ends u = []"
    "c_sm u = sm_update (c_sm w) (c_id w) (\<lambda>s. s\<lparr>ls_transferRequested := True\<rparr>)"
    using assms(1,2,10)
    by (simp_all add: u_def requestTransfer_def beginResponse_def request_transfer_flag_def holdLine_def upd_br_def)
  have "u\<lparr>c_refers := []\<rparr> = u" using u(4) by (cases u) simp
  moreover have "refer_done False (u\<lparr>c_refers := c_refers u @ [ReferHttp]\<rparr>) = end_call Transferred EndRoute (u\<lparr>c_refers := []\<rparr>)"
    using u(4) by (simp add: refer_done_def)
  ultimately have "refer_done False (u\<lparr>c_refers := c_refers u @ [ReferHttp]\<rparr>) = end_call Transferred EndRoute u" by metis
  moreover have "end_done 0 True (end_call Transferred EndRoute u) = registry_end Transferred u"
  proof -
    have "(end_call Transferred EndRoute u)\<lparr>c_ends := []\<rparr> = u" using u(6) by (cases u) (simp add: end_call_def)
    then show ?thesis using u(6) by (simp add: end_done_def)
  qed
  ultimately have v: "v = registry_end Transferred u"
    using u(5) unfolding assms(9) by (simp add: call_run_def t) (simp add: call_step_def)
  have "sm_get (c_sm u) (c_id u) = Some (s\<lparr>ls_transferRequested := True\<rparr>)"
    using assms(7) u(1,7) by (simp add: sm_get_def sm_update_def)
  then have "br_closed (c_br v)" "c_maxCallAt v = None"
    unfolding v using registry_end_closes[of u] assms(8) by simp_all
  moreover have "sm_getById (c_sm u) (c_id u) \<noteq> None"
    using assms(6) u(1,7) by (simp add: sm_getById_def sm_update_def)
  then have "map_option cr_status (sm_getById (c_sm v) (c_id u)) = Some Transferred"
    unfolding v registry_end_status by auto
  ultimately show ?thesis using u registry_end_simps(11)[of Transferred u] by (simp add: v)
qed

lemma failed_takeover_strands_caller_witness:
  "br_closed (c_br (call_run [1] (\<lambda>x. x) demo_cfg (\<lambda>_ _. []) demo_call [EvTakeover, EvReferDone False, EvEndDone 0 True]))"
proof -
  have "\<exists>row s. getActiveForDeal (c_sm demo_call) (call_deal demo_call) = Some row \<and> cr_id row = c_id demo_call \<and>
      sm_get (c_sm demo_call) (c_id demo_call) = Some s \<and> ls_bridge s"
    by (simp add: demo_call_def Let_def start_call_def startCall_def no_sessions_def open_voice_deal_def
        sm_getById_def sm_update_def sm_set_def sm_get_def call_deal_def getActiveForDeal_def)
  then obtain row s where "getActiveForDeal (c_sm demo_call) (call_deal demo_call) = Some row"
    "cr_id row = c_id demo_call" "sm_get (c_sm demo_call) (c_id demo_call) = Some s" "ls_bridge s" by blast
  from failed_takeover_strands_caller[OF _ _ _ this(1,2) demo_call_row this(3,4) refl, of demo_cfg]
  show ?thesis by (simp add: demo_cfg_def)
qed

subsection \<open>Tool calls run once\<close>

text \<open>
  The ids of the outputs sent and of the tool calls still running, and the ids marked as handled.
\<close>

definition output_ids :: "ws_msg list \<Rightarrow> jstr list" where
  "output_ids ms = List.map_filter (\<lambda>m. case m of FunctionOutput i _ \<Rightarrow> Some i | _ \<Rightarrow> None) ms"

definition tool_once :: "call \<Rightarrow> bool" where
  "tool_once w \<longleftrightarrow> distinct (output_ids (br_sent (c_br w)) @ map fst (c_jobs w)) \<and>
     set (output_ids (br_sent (c_br w))) \<union> fst ` set (c_jobs w) \<subseteq> br_handledToolCalls (c_br w)"

definition tool_view :: "call \<Rightarrow> jstr list \<times> tool_call list \<times> jstr set" where
  "tool_view w = (output_ids (br_sent (c_br w)), c_jobs w, br_handledToolCalls (c_br w))"

lemma tool_once_view: "tool_view w = tool_view w' \<Longrightarrow> tool_once w = tool_once w'"
  by (simp add: tool_view_def tool_once_def)

lemma output_ids_snoc [simp]:
  "output_ids [] = []"
  "output_ids (ms @ [FunctionOutput i x]) = output_ids ms @ [i]"
  "output_ids (ms @ [ClearBuffer]) = output_ids ms" "output_ids (ms @ [CommitAudio]) = output_ids ms"
  "output_ids (ms @ [SessionUpdate v]) = output_ids ms" "output_ids (ms @ [CreateResponse r]) = output_ids ms"
  "output_ids (ms @ [AppendAudio a]) = output_ids ms"
  by (simp_all add: output_ids_def List.map_filter_def)

lemma tview_send [simp]:
  "m = ClearBuffer \<or> m = CommitAudio \<or> (\<exists>v. m = SessionUpdate v) \<or> (\<exists>r. m = CreateResponse r) \<or> (\<exists>a. m = AppendAudio a) \<Longrightarrow>
   output_ids (br_sent (ws_send m b)) = output_ids (br_sent b)"
  by (auto simp: ws_send_def)

lemma tview_bridge [simp]:
  "output_ids (br_sent (muteInput b)) = output_ids (br_sent b)"
  "output_ids (br_sent (unmuteInput b)) = output_ids (br_sent b)"
  "output_ids (br_sent (clearInputBuffer b)) = output_ids (br_sent b)"
  "output_ids (br_sent (sendSessionUpdate b)) = output_ids (br_sent b)"
  "output_ids (br_sent (sendPcm8Audio b pcm)) = output_ids (br_sent b)"
  "br_handledToolCalls (muteInput b) = br_handledToolCalls b"
  "br_handledToolCalls (unmuteInput b) = br_handledToolCalls b"
  "br_handledToolCalls (clearInputBuffer b) = br_handledToolCalls b"
  "br_handledToolCalls (sendSessionUpdate b) = br_handledToolCalls b"
  "br_handledToolCalls (sendPcm8Audio b pcm) = br_handledToolCalls b"
  "br_handledToolCalls (bridge_close b) = br_handledToolCalls b"
  by (simp_all add: muteInput_def unmuteInput_def clearInputBuffer_def sendSessionUpdate_def
      sendPcm8Audio_def bridge_close_def case_prod_beta Let_def)

lemma tview_upd_br:
  "output_ids (br_sent (f (c_br w))) = output_ids (br_sent (c_br w)) \<Longrightarrow>
   br_handledToolCalls (f (c_br w)) = br_handledToolCalls (c_br w) \<Longrightarrow> tool_view (upd_br f w) = tool_view w"
  by (simp add: tool_view_def upd_br_def)

lemma tview_update [simp]:
  "tool_view (w\<lparr>c_po := p\<rparr>) = tool_view w" "tool_view (w\<lparr>c_sm := s\<rparr>) = tool_view w"
  "tool_view (w\<lparr>c_stage := st\<rparr>) = tool_view w" "tool_view (w\<lparr>c_unmuteAt := t\<rparr>) = tool_view w"
  "tool_view (w\<lparr>c_generating := g\<rparr>) = tool_view w" "tool_view (w\<lparr>c_playoutIdle := g\<rparr>) = tool_view w"
  "tool_view (w\<lparr>c_hangupAt := t\<rparr>) = tool_view w" "tool_view (w\<lparr>c_maxCallAt := t\<rparr>) = tool_view w"
  "tool_view (w\<lparr>c_now := n\<rparr>) = tool_view w" "tool_view (w\<lparr>c_alerts := al\<rparr>) = tool_view w"
  "tool_view (w\<lparr>c_turns := ts\<rparr>) = tool_view w" "tool_view (w\<lparr>c_refers := rf\<rparr>) = tool_view w"
  "tool_view (w\<lparr>c_byes := k\<rparr>) = tool_view w" "tool_view (w\<lparr>c_frames := fr\<rparr>) = tool_view w"
  "tool_view (w\<lparr>c_crashed := g\<rparr>) = tool_view w" "tool_view (w\<lparr>c_afterHours := g\<rparr>) = tool_view w"
  "tool_view (w\<lparr>c_transferRequested := g\<rparr>) = tool_view w" "tool_view (w\<lparr>c_ends := es\<rparr>) = tool_view w"
  by (simp_all add: tool_view_def)

lemma tview_end_call [simp]: "tool_view (end_call st x w) = tool_view w" "tool_view (registry_end st w) = tool_view w"
  by (simp_all add: end_call_def registry_end_def tool_view_def case_prod_beta Let_def)

lemma tview_end_done [simp]: "tool_view (end_done k ok w) = tool_view w"
  by (simp add: end_done_def case_prod_beta Let_def)

lemma tview_ops [simp]:
  "tool_view (considerListen w) = tool_view w" "tool_view (holdLine w) = tool_view w"
  "tool_view (unmute_fired w) = tool_view w" "tool_view (onAudioOut pcm w) = tool_view w"
  "tool_view (onIdle w) = tool_view w" "tool_view (hangup w) = tool_view w"
  "tool_view (onResponseDone w) = tool_view w" "tool_view (onGreetingDone w) = tool_view w"
  "tool_view (onTranscript a b w) = tool_view w" "tool_view (onEscalate c d w) = tool_view w"
  "tool_view (request_transfer_flag w) = tool_view w" "tool_view (onTransfer cfg w) = tool_view w"
  "tool_view (onClose w) = tool_view w" "tool_view (connect_failed w) = tool_view w"
  by (simp_all add: considerListen_def holdLine_def unmute_fired_def onAudioOut_def onIdle_def hangup_def
      onResponseDone_def onGreetingDone_def onTranscript_def onEscalate_def request_transfer_flag_def
      onTransfer_def transferDialogToManager_def onClose_def connect_failed_def tview_upd_br Let_def)

lemma tview_ops2 [simp]:
  "tool_view (beginResponse r w) = tool_view w" "tool_view (emitAudio h th dl w) = tool_view w"
  "tool_view (finish_turn w) = tool_view w" "tool_view (session_ready cfg w) = tool_view w"
  "tool_view (rtp_tick w) = tool_view w" "tool_view (try_model ms w) = tool_view w"
  by (auto simp: beginResponse_def emitAudio_def finish_turn_def session_ready_def rtp_tick_def try_model_def
      dialog_end_def requestTransfer_def tview_upd_br Let_def case_prod_beta split: list.splits)

lemma tview_dialog_end [simp]: "tool_view (dialog_end w) = tool_view w"
  unfolding dialog_end_def Let_def tview_end_call by (simp add: tool_view_def)

lemma tview_ops3 [simp]:
  "tool_view (requestTransfer rs w) = tool_view w"
  "tool_view (activate cfg ah w) = tool_view w" "tool_view (takeover cfg d w) = tool_view w"
  "tool_view (refer_done ok w) = tool_view w"
  by (auto simp: requestTransfer_def activate_def takeover_def transferDialogToManager_def refer_done_def Let_def case_prod_beta
      split: option.splits list.splits)

lemma tool_done_view:
  "tool_view (tool_done i out w) =
     (if br_ws (c_br w) = Some WsOpen
      then (output_ids (br_sent (c_br w)) @ [i], c_jobs w, br_handledToolCalls (c_br w)) else tool_view w)"
  by (simp add: tool_done_def upd_br_def tool_view_def ws_send_def)

lemma executeTool_view:
  obtains (job) "tool_view (executeTool cfg arg t w) =
      (output_ids (br_sent (c_br w)), c_jobs w @ [t], br_handledToolCalls (c_br w))"
  | (out) "tool_view (executeTool cfg arg t w) =
      (output_ids (br_sent (c_br w)) @ [fst t], c_jobs w, br_handledToolCalls (c_br w))"
  | (none) "tool_view (executeTool cfg arg t w) = tool_view w"
proof -
  obtain i name raw where t: "t = (i, name, raw)" by (cases t)
  define v where "v = (if name = js ''escalate_call'' \<and> \<not> name = js ''process_client_message''
    then onEscalate (Some (js_or (Some (arg raw ''reason'')) (js ''voice_escalation'')))
       (Some (js_or (Some (arg raw ''summary'')) (js ''Manager requested via voice agent''))) (onTransfer cfg w) else w)"
  have v: "tool_view v = tool_view w" by (simp add: v_def)
  have "\<exists>out. \<not> tool_throws t \<and> \<not> tool_waits arg t \<longrightarrow> executeTool cfg arg t w = tool_done i out v"
    by (auto simp: executeTool_def t v_def Let_def)
  then obtain out where o: "\<not> tool_throws t \<and> \<not> tool_waits arg t \<longrightarrow> executeTool cfg arg t w = tool_done i out v" by blast
  consider (throws) "tool_throws t" | (waits) "\<not> tool_throws t" "tool_waits arg t" | (answers) "\<not> tool_throws t" "\<not> tool_waits arg t" by blast
  then show ?thesis
  proof cases
    case throws
    then show ?thesis by (intro none) (simp add: executeTool_def t)
  next
    case waits
    then show ?thesis by (intro job) (simp add: executeTool_def t tool_view_def)
  next
    case answers
    then have e: "tool_view (executeTool cfg arg t w) = tool_view (tool_done i out v)" using o by simp
    have w: "output_ids (br_sent (c_br v)) = output_ids (br_sent (c_br w))" "c_jobs v = c_jobs w"
      "br_handledToolCalls (c_br v) = br_handledToolCalls (c_br w)"
      using v by (simp_all add: tool_view_def)
    show ?thesis
    proof (cases "br_ws (c_br v) = Some WsOpen")
      case True
      then show ?thesis using e w by (intro out) (simp add: tool_done_view t)
    next
      case False
      then show ?thesis using e v by (intro none) (simp add: tool_done_view)
    qed
  qed
qed

lemma runTool_once: "tool_once w \<Longrightarrow> tool_once (runTool cfg arg t w)"
proof -
  assume a: "tool_once w"
  obtain i name raw where t: "t = (i, name, raw)" by (cases t)
  show ?thesis
  proof (cases "i = [] \<or> i \<in> br_handledToolCalls (c_br w)")
    case True
    then show ?thesis using a by (simp add: runTool_def t)
  next
    case False
    define v where "v = upd_br (\<lambda>b. b\<lparr>br_handledToolCalls := insert i (br_handledToolCalls b),
        br_toolsThisTurn := br_toolsThisTurn b + 1\<rparr>) w"
    have v: "tool_view v = (output_ids (br_sent (c_br w)), c_jobs w, insert i (br_handledToolCalls (c_br w)))"
      by (simp add: v_def tool_view_def upd_br_def)
    have e: "tool_view (runTool cfg arg t w) = tool_view (executeTool cfg arg t v)"
      using False by (simp add: runTool_def t v_def tview_upd_br)
    show ?thesis
      using a False v e
      by (cases cfg arg t v rule: executeTool_view) (auto simp: tool_once_def tool_view_def t)
  qed
qed

lemma process_items_once: "tool_once w \<Longrightarrow> tool_once (process_items cfg arg ts w)"
proof (induction cfg arg ts w rule: process_items.induct)
  case (1 cfg arg w)
  then show ?case using tool_once_view[of "finish_turn w" w] tool_once_view[of "w\<lparr>c_turns := _\<rparr>" w] by simp
next
  case (2 cfg arg t ts w)
  have r: "tool_once (runTool cfg arg t w)" by (rule runTool_once[OF 2(2)])
  show ?case
    using 2(1)[OF refl refl _ _ r] r tool_once_view[of "(runTool cfg arg t w)\<lparr>c_turns := _\<rparr>" "runTool cfg arg t w"]
    by (auto simp: Let_def)
qed

lemma resume_turns_once: "tool_once w \<Longrightarrow> tool_once (resume_turns cfg arg w)"
proof -
  assume a: "tool_once w"
  have step: "tool_once v \<Longrightarrow> tool_once (if turn_waits v t then v\<lparr>c_turns := c_turns v @ [t]\<rparr> else resume_turn cfg arg t v)"
    for v t
    using tool_once_view[of "v\<lparr>c_turns := c_turns v @ [t]\<rparr>" v] tool_once_view[of "finish_turn v" v]
    by (cases t) (auto intro: process_items_once)
  have "tool_once v \<Longrightarrow> tool_once (foldl (\<lambda>w t. if turn_waits w t then w\<lparr>c_turns := c_turns w @ [t]\<rparr>
      else resume_turn cfg arg t w) v ts)" for v ts
    by (induction ts arbitrary: v) (use step in simp_all)
  then show ?thesis using a tool_once_view[of "w\<lparr>c_turns := []\<rparr>" w] by (simp add: resume_turns_def)
qed

lemma finish_tool_once:
  assumes "tool_once w" and "k < length (c_jobs w)"
  shows "tool_once (finish_tool (c_jobs w ! k) a (w\<lparr>c_jobs := take k (c_jobs w) @ drop (Suc k) (c_jobs w)\<rparr>))"
proof -
  let ?w = "w\<lparr>c_jobs := take k (c_jobs w) @ drop (Suc k) (c_jobs w)\<rparr>"
  let ?t = "c_jobs w ! k"
  have j: "c_jobs w = take k (c_jobs w) @ ?t # drop (Suc k) (c_jobs w)" by (rule id_take_nth_drop[OF assms(2)])
  have d: "distinct (output_ids (br_sent (c_br w)) @ map fst (take k (c_jobs w) @ ?t # drop (Suc k) (c_jobs w)))"
    "set (output_ids (br_sent (c_br w))) \<union> fst ` set (take k (c_jobs w) @ ?t # drop (Suc k) (c_jobs w))
      \<subseteq> br_handledToolCalls (c_br w)"
    using assms(1) unfolding tool_once_def j[symmetric] by auto
  have base: "tool_once ?w" "tool_once v" if "tool_view v = (output_ids (br_sent (c_br w)) @ [fst ?t],
      take k (c_jobs w) @ drop (Suc k) (c_jobs w), br_handledToolCalls (c_br w))" for v
    using d that by (auto simp: tool_once_def tool_view_def)
  have w0: "tool_once ?w" using d by (auto simp: tool_once_def)
  have done_: "tool_once (tool_done (fst ?t) out v)" if "tool_view v = tool_view ?w" for out v
  proof (cases "br_ws (c_br v) = Some WsOpen")
    case True
    then show ?thesis using that by (intro base(2)) (simp add: tool_done_view, simp add: tool_view_def)
  next
    case False
    then show ?thesis using that w0 tool_once_view[of "tool_done (fst ?t) out v" ?w] by (simp add: tool_done_view)
  qed
  show ?thesis
  proof (cases a)
    case ToolFailed
    then show ?thesis using w0 tool_once_view[of "?w\<lparr>c_crashed := True\<rparr>" ?w] by (simp add: finish_tool_def)
  next
    case (DealAnswer dl)
    then show ?thesis using done_ by (simp add: finish_tool_def)
  next
    case (OrchAnswer rr)
    then show ?thesis using done_ by (auto simp: finish_tool_def Let_def split: option.splits)
  qed
qed

lemma tool_once_event:
  assumes "tool_once w"
  shows "tool_once (call_event_step h th cfg arg w ev)"
proof -
  have keep: "tool_once v" if "tool_view v = tool_view w" for v using that assms tool_once_view by blast
  show ?thesis
  proof (cases ev)
    case (EvMessage e)
    show ?thesis
    proof (cases e)
      case (RtToolArgsDone i n a)
      have "tool_once (upd_br (\<lambda>b. b\<lparr>br_pendingToolArgs := (br_pendingToolArgs b)(i := None)\<rparr>) w)"
        by (rule keep) (simp add: tview_upd_br)
      then show ?thesis using EvMessage RtToolArgsDone assms by (simp add: Let_def runTool_once)
    next
      case (RtResponseDone ts)
      then show ?thesis using EvMessage assms by (simp add: process_items_once)
    qed (use EvMessage assms in \<open>auto intro!: keep simp: tview_upd_br tool_args_delta_def Let_def\<close>)
  next
    case (EvToolDone k a)
    then show ?thesis using assms finish_tool_once[of w k a] resume_turns_once by (simp add: Let_def)
  qed (use assms in \<open>auto intro!: keep simp: tview_upd_br onClose_def Let_def split: option.splits call_stage.splits\<close>)
qed

text \<open>
  C6. The model's tool calls are executed and answered at most once, although the service reports
  each call twice (when its arguments are complete and again at the end of the response) and answers
  can arrive in any order: along every run of a call no call id is answered twice, and none is
  answered while it is running.
\<close>

theorem tool_calls_at_most_once:
  "distinct (output_ids (br_sent (c_br (call_run h th cfg arg (start_call h rtp now sm ph p) evs))) @
     map fst (c_jobs (call_run h th cfg arg (start_call h rtp now sm ph p) evs)))"
proof -
  have "tool_once (foldl (call_step h th cfg arg) w evs)" if "tool_once w" for w
    using that by (induction evs arbitrary: w) (auto simp: call_step_def intro: tool_once_event)
  moreover have "tool_once (start_call h rtp now sm ph p)"
    by (simp add: tool_once_def start_call_def new_bridge_def case_prod_beta)
  ultimately show ?thesis by (simp add: call_run_def tool_once_def)
qed

text \<open>
  The line reopens after the assistant has spoken: when the playout reports idle and no response
  is being generated, the guard timer is set, and 900 ms later, if nothing was said in between, the caller
  is heard again.
\<close>

theorem line_reopens:
  assumes "\<not> c_crashed w" and "\<not> c_generating w" and "po_timer (c_po w) \<noteq> None"
    and "snd (snd (po_tick (c_rtp w) (c_now w) (c_po w)))" and "c_now w + 900 \<le> t"
  shows "\<not> br_inputMuted (c_br (call_run h th cfg arg w [EvRtpTick, EvClock t, EvUnmuteTimer]))"
  using assms
proof -
  obtain tm where "po_timer (c_po w) = Some tm" using assms(3) by auto
  then show ?thesis
    using assms
    by (simp add: call_run_def call_step_def rtp_tick_def case_prod_beta Let_def onIdle_def considerListen_def
        ECHO_GUARD_MS_def unmute_fired_def upd_br_def)
qed

lemma line_reopens_witness:
  "\<not> br_inputMuted (c_br (call_run [1] (\<lambda>x. x) demo_cfg (\<lambda>_ _. [])
     (demo_call\<lparr>c_playoutIdle := False, c_po := new_playout\<lparr>po_speaking := True, po_underrunMs := 500, po_timer := Some 0\<rparr>\<rparr>)
     [EvRtpTick, EvClock 1000, EvUnmuteTimer]))"
  by (rule line_reopens)
    (simp_all add: demo_call_def Let_def start_call_def case_prod_beta po_tick_def emitFrame_def new_playout_def rtp_consts)

end
