(* ===== verification/SipRegister.thy ===== *)
theory SipRegister
  imports SipConfig
begin

text \<open>
  The registrar client of \<open>sip/register.ts\<close> (class \<open>SipRegistrar\<close>). The record holds the fields
  of the class, the callbacks handed to the SIP stack (each with the variables its closure captured and how
  often the stack has called it) and the pending timers of the process. \<open>digest.signRequest\<close> of the SIP library
  is the parameter \<open>signr\<close>: it returns the new context and the authorisation header, or \<open>None\<close> where it
  throws. Nothing is assumed of the stack: it may call any callback at any time, again and again, with any response
  (a provisional one and then the final one, for instance) or none. An event of the environment (start, stop, a
  response, a timer) is one step of \<open>reg_step\<close>, which returns the requests sent.
\<close>

record sip_response =
  rs_status :: nat
  rs_reason :: "jstr option"
  rs_expires :: numval
  rs_contactExpires :: numval

record reg_request =
  rq_uri :: jstr
  rq_aor :: jstr
  rq_callId :: jstr
  rq_cseq :: nat
  rq_contact :: jstr
  rq_expires :: rat
  rq_route :: "(jstr \<times> rat \<times> sip_transport) option"
  rq_auth :: "jstr option"

datatype reg_tx = FirstTx reg_request rat | AuthedTx reg_request sip_response jstr rat

record 'c registrar =
  rg_timer :: "nat option"
  rg_stopped :: bool
  rg_cseq :: nat
  rg_callId :: jstr
  rg_authCtx :: 'c
  rg_registered :: bool
  rg_lastStatus :: "nat option"
  rg_lastReason :: jstr
  rg_calls :: "(reg_tx \<times> nat) list"
  rg_timers :: "(nat \<times> int) list"
  rg_nextTimer :: nat

type_synonym 'c signer = "'c \<Rightarrow> reg_request \<Rightarrow> sip_response \<Rightarrow> jstr \<Rightarrow> jstr \<Rightarrow> ('c \<times> jstr) option"

definition new_registrar :: "jstr \<Rightarrow> 'c \<Rightarrow> 'c registrar" where
  "new_registrar callId ctx = \<lparr>rg_timer = None, rg_stopped = False, rg_cseq = 1, rg_callId = callId,
     rg_authCtx = ctx, rg_registered = False, rg_lastStatus = None, rg_lastReason = [],
     rg_calls = [], rg_timers = [], rg_nextTimer = 0\<rparr>"

definition reg_aor :: "sip_config \<Rightarrow> jstr" where
  "reg_aor cfg = js ''sip:'' @ sc_username cfg @ js ''@'' @ sc_domain cfg"

definition rat_text :: "rat \<Rightarrow> jstr" where
  "rat_text r = show_int \<lfloor>r\<rfloor>"

definition buildRegister :: "sip_config \<Rightarrow> 'c registrar \<Rightarrow> rat \<Rightarrow> reg_request \<times> 'c registrar" where
  "buildRegister cfg st expires =
     (\<lparr>rq_uri = js ''sip:'' @ sc_domain cfg @ js '':5060'', rq_aor = reg_aor cfg,
       rq_callId = rg_callId st, rq_cseq = rg_cseq st,
       rq_contact = js ''sip:'' @ sc_username cfg @ js ''@'' @ sc_publicHost cfg @ js '':'' @ rat_text (sc_port cfg),
       rq_expires = expires,
       rq_route = (if sc_outboundProxy cfg \<noteq> []
                   then Some (sc_outboundProxy cfg, sc_port cfg, sc_transport cfg) else None),
       rq_auth = None\<rparr>,
      st\<lparr>rg_cseq := rg_cseq st + 1\<rparr>)"

text \<open>Node runs a timer with a delay above 2147483647 ms, or below 1 ms, after 1 ms.\<close>

definition node_delay :: "int \<Rightarrow> int" where
  "node_delay ms = (if 2147483647 < ms \<or> ms < 1 then 1 else ms)"

definition set_timer :: "int \<Rightarrow> 'c registrar \<Rightarrow> 'c registrar" where
  "set_timer ms st = st\<lparr>rg_timers := rg_timers st @ [(rg_nextTimer st, node_delay ms)],
     rg_timer := Some (rg_nextTimer st), rg_nextTimer := rg_nextTimer st + 1\<rparr>"

definition clear_timer :: "'c registrar \<Rightarrow> 'c registrar" where
  "clear_timer st = (case rg_timer st of None \<Rightarrow> st
     | Some i \<Rightarrow> st\<lparr>rg_timers := filter (\<lambda>t. fst t \<noteq> i) (rg_timers st)\<rparr>)"

definition scheduleRetry :: "int \<Rightarrow> 'c registrar \<Rightarrow> 'c registrar" where
  "scheduleRetry seconds st =
     (if rg_stopped st then st else set_timer (seconds * 1000) (clear_timer st))"

definition reg_users :: "sip_config \<Rightarrow> jstr list" where
  "reg_users cfg =
     (let a = js_or (Some (sc_authUsername cfg)) (sc_username cfg); b = sc_username cfg
      in filter (\<lambda>u. u \<noteq> []) (if b = a then [a] else [a, b]))"

definition sendAuthed ::
  "sip_config \<Rightarrow> 'c signer \<Rightarrow> reg_request \<Rightarrow> sip_response \<Rightarrow> jstr \<Rightarrow> rat \<Rightarrow> 'c registrar
    \<Rightarrow> 'c registrar \<times> reg_request list" where
  "sendAuthed cfg signr base rs401 user expires st =
     (let (rq0, st) = buildRegister cfg st expires;
          rq = rq0\<lparr>rq_callId := rq_callId base\<rparr>
      in case signr (rg_authCtx st) rq rs401 user (sc_password cfg) of
           None \<Rightarrow> (scheduleRetry 30 st, [])
         | Some (ctx, auth) \<Rightarrow>
             (st\<lparr>rg_authCtx := ctx, rg_calls := rg_calls st @ [(AuthedTx base rs401 user expires, 0)]\<rparr>,
              [rq\<lparr>rq_auth := Some auth\<rparr>]))"

definition refresh_ms :: "numval \<Rightarrow> int" where
  "refresh_ms granted =
     (case granted of Num g \<Rightarrow> max 30 \<lfloor>mul_js g (fl (8/10))\<rfloor> * 1000
      | PosInf \<Rightarrow> 2147483648 | NegInf \<Rightarrow> 30000 | NaN \<Rightarrow> 0)"

definition onFinal :: "sip_response option \<Rightarrow> rat \<Rightarrow> 'c registrar \<Rightarrow> 'c registrar" where
  "onFinal rs expires st =
     (case rs of
        None \<Rightarrow> scheduleRetry 30 st
      | Some r \<Rightarrow>
          if 200 \<le> rs_status r \<and> rs_status r < 300
          then let granted = num_or (num_or (rs_expires r) (rs_contactExpires r)) (Num expires);
                   st = st\<lparr>rg_registered := True, rg_lastStatus := Some (rs_status r),
                          rg_lastReason := js_or (rs_reason r) (js ''OK'')\<rparr>
               in if \<not> rg_stopped st \<and> 0 < expires then set_timer (refresh_ms granted) st else st
          else let st = st\<lparr>rg_registered := False, rg_lastStatus := Some (rs_status r),
                          rg_lastReason := js_or (rs_reason r) []\<rparr>
               in if \<not> rg_stopped st \<and> 0 < expires
                  then scheduleRetry (if rs_status r = 403 \<or> rs_status r = 401 then 90 else 60) st
                  else st)"

definition next_user :: "jstr list \<Rightarrow> jstr \<Rightarrow> jstr option" where
  "next_user users user =
     (case dropWhile (\<lambda>u. u \<noteq> user) users of _ # u # _ \<Rightarrow> Some u | _ \<Rightarrow> None)"

definition auth_rejected :: "sip_response \<Rightarrow> bool" where
  "auth_rejected r \<longleftrightarrow> rs_status r = 403 \<and> js_includes (js_toLowerCase (js_or (rs_reason r) [])) (js ''auth'')"

definition registerOnce :: "sip_config \<Rightarrow> rat \<Rightarrow> 'c registrar \<Rightarrow> 'c registrar \<times> reg_request list" where
  "registerOnce cfg expires st =
     (let (rq, st) = buildRegister cfg st expires
      in (st\<lparr>rg_calls := rg_calls st @ [(FirstTx rq expires, 0)]\<rparr>, [rq]))"

definition on_response ::
  "sip_config \<Rightarrow> 'c signer \<Rightarrow> 'c \<Rightarrow> reg_tx \<Rightarrow> sip_response option \<Rightarrow> 'c registrar
    \<Rightarrow> 'c registrar \<times> reg_request list" where
  "on_response cfg signr empty_ctx tx rs st =
     (case tx of
        FirstTx rq expires \<Rightarrow>
          (case rs of
             None \<Rightarrow> (scheduleRetry 30 st, [])
           | Some r \<Rightarrow>
               if rs_status r = 401 \<or> rs_status r = 407
               then sendAuthed cfg signr rq r (case reg_users cfg of [] \<Rightarrow> [] | u # _ \<Rightarrow> u) expires st
               else (onFinal rs expires st, []))
      | AuthedTx base rs401 user expires \<Rightarrow>
          (case rs of
             Some r \<Rightarrow>
               if auth_rejected r \<and> user \<noteq> (if reg_users cfg = [] then [] else last (reg_users cfg))
               then (case next_user (reg_users cfg) user of
                       Some u \<Rightarrow> sendAuthed cfg signr base rs401 u expires (st\<lparr>rg_authCtx := empty_ctx\<rparr>)
                     | None \<Rightarrow> (onFinal rs expires st, []))
               else (onFinal rs expires st, [])
           | None \<Rightarrow> (onFinal rs expires st, [])))"

definition reg_start :: "sip_config \<Rightarrow> 'c registrar \<Rightarrow> 'c registrar \<times> reg_request list" where
  "reg_start cfg st =
     (if sc_uriMode cfg \<or> sc_username cfg = [] \<or> sc_password cfg = [] then (st, [])
      else registerOnce cfg (sc_registerExpires cfg) (st\<lparr>rg_stopped := False\<rparr>))"

definition reg_stop :: "sip_config \<Rightarrow> 'c registrar \<Rightarrow> 'c registrar \<times> reg_request list" where
  "reg_stop cfg st =
     registerOnce cfg 0 ((clear_timer (st\<lparr>rg_stopped := True\<rparr>))\<lparr>rg_timer := None\<rparr>)"

datatype reg_event = RegStart | RegStop | RegTimer nat | RegResponse nat "sip_response option"

fun reg_step ::
  "sip_config \<Rightarrow> 'c signer \<Rightarrow> 'c \<Rightarrow> 'c registrar \<Rightarrow> reg_event \<Rightarrow> 'c registrar \<times> reg_request list" where
  "reg_step cfg signr e st RegStart = reg_start cfg st"
| "reg_step cfg signr e st RegStop = reg_stop cfg st"
| "reg_step cfg signr e st (RegTimer i) =
     (if i \<in> fst ` set (rg_timers st)
      then registerOnce cfg (sc_registerExpires cfg) (st\<lparr>rg_timers := filter (\<lambda>t. fst t \<noteq> i) (rg_timers st)\<rparr>)
      else (st, []))"
| "reg_step cfg signr e st (RegResponse k rs) =
     (if k < length (rg_calls st)
      then on_response cfg signr e (fst (rg_calls st ! k)) rs
             (st\<lparr>rg_calls := (rg_calls st)[k := (fst (rg_calls st ! k), Suc (snd (rg_calls st ! k)))]\<rparr>)
      else (st, []))"

subsection \<open>Registration never stalls\<close>

fun tx_expires :: "reg_tx \<Rightarrow> rat" where
  "tx_expires (FirstTx _ e) = e"
| "tx_expires (AuthedTx _ _ _ e) = e"

text \<open>The callbacks the stack has not called yet, and what the registrar waits for: these and the timers.\<close>

definition unanswered :: "'c registrar \<Rightarrow> reg_tx list" where
  "unanswered st = map fst (filter (\<lambda>c. snd c = 0) (rg_calls st))"

definition awaited :: "'c registrar \<Rightarrow> nat" where
  "awaited st = length (unanswered st) + length (rg_timers st)"

definition reg_live :: "sip_config \<Rightarrow> 'c registrar \<Rightarrow> bool" where
  "reg_live cfg st \<longleftrightarrow> \<not> rg_stopped st \<and> (\<forall>c \<in> set (rg_calls st). tx_expires (fst c) = sc_registerExpires cfg)"

definition called_twice :: "'c registrar \<Rightarrow> bool" where
  "called_twice st \<longleftrightarrow> (\<exists>c \<in> set (rg_calls st). 1 < snd c)"

definition reg_alive :: "sip_config \<Rightarrow> 'c registrar \<Rightarrow> bool" where
  "reg_alive cfg st \<longleftrightarrow> reg_live cfg st \<and> 1 \<le> awaited st \<and> (called_twice st \<or> awaited st = 1)"

lemmas awaited_defs = awaited_def unanswered_def

text \<open>What running a callback does to the timers and the callbacks: it adds one timer, perhaps in place of another, or one callback.\<close>

definition one_more :: "sip_config \<Rightarrow> 'c registrar \<Rightarrow> 'c registrar \<Rightarrow> bool" where
  "one_more cfg st st' \<longleftrightarrow> rg_stopped st' = rg_stopped st \<and>
     ((rg_calls st' = rg_calls st \<and> (\<exists>P t. rg_timers st' = filter P (rg_timers st) @ [t]))
      \<or> (\<exists>tx. tx_expires tx = sc_registerExpires cfg \<and> rg_calls st' = rg_calls st @ [(tx, 0)] \<and> rg_timers st' = rg_timers st))"

lemma schedule_one_more:
  assumes "\<not> rg_stopped st"
  shows "one_more cfg st (scheduleRetry s st)"
  using assms
  by (auto simp: scheduleRetry_def set_timer_def clear_timer_def one_more_def split: option.splits intro: exI[of _ "\<lambda>_. True"])

lemma one_more_cong:
  assumes "one_more cfg st1 st'" "rg_stopped st1 = rg_stopped st" "rg_calls st1 = rg_calls st" "rg_timers st1 = rg_timers st"
  shows "one_more cfg st st'"
  using assms by (simp add: one_more_def)

lemma num_or_not_NaN: "num_or a (Num e) \<noteq> NaN"
  by (auto simp: num_or_def)

lemma refresh_ms_ge: "v \<noteq> NaN \<Longrightarrow> 30000 \<le> refresh_ms v"
  by (auto simp: refresh_ms_def split: numval.splits)

lemma set_timer_one_more: "one_more cfg st (set_timer ms st)"
  by (auto simp: set_timer_def one_more_def intro: exI[of _ "\<lambda>_. True"])

lemma onFinal_one_more:
  assumes "\<not> rg_stopped st" and "0 < expires"
  shows "one_more cfg st (onFinal rs expires st)"
  using assms
  by (cases rs) (auto simp: onFinal_def Let_def intro!: schedule_one_more intro: one_more_cong[OF schedule_one_more] one_more_cong[OF set_timer_one_more])

lemma buildRegister_state: "snd (buildRegister cfg st e) = st\<lparr>rg_cseq := rg_cseq st + 1\<rparr>"
  by (simp add: buildRegister_def)

lemma sendAuthed_cases:
  obtains (throws) "sendAuthed cfg signr base rs user e st =
      (scheduleRetry 30 (st\<lparr>rg_cseq := rg_cseq st + 1\<rparr>), [])"
  | (sent) ctx rq where "sendAuthed cfg signr base rs user e st =
      (st\<lparr>rg_cseq := rg_cseq st + 1, rg_authCtx := ctx,
          rg_calls := rg_calls st @ [(AuthedTx base rs user e, 0)]\<rparr>, [rq])"
proof -
  obtain rq0 st1 where b: "buildRegister cfg st e = (rq0, st1)" by (cases "buildRegister cfg st e")
  then have s1: "st1 = st\<lparr>rg_cseq := rg_cseq st + 1\<rparr>" using buildRegister_state[of cfg st e] by simp
  show ?thesis
  proof (cases "signr (rg_authCtx st1) (rq0\<lparr>rq_callId := rq_callId base\<rparr>) rs user (sc_password cfg)")
    case None
    then show ?thesis by (intro throws) (simp add: sendAuthed_def b s1)
  next
    case (Some p)
    then show ?thesis by (cases p, intro sent) (simp add: sendAuthed_def b s1)
  qed
qed

lemma sendAuthed_one_more:
  assumes "\<not> rg_stopped st" and "expires = sc_registerExpires cfg"
  shows "one_more cfg st (fst (sendAuthed cfg signr base rs user expires st))"
proof (cases cfg signr base rs user expires st rule: sendAuthed_cases)
  case throws
  then show ?thesis using assms by (auto intro: one_more_cong[OF schedule_one_more])
next
  case (sent ctx rq)
  then show ?thesis using assms by (simp add: one_more_def)
qed

lemma on_response_one_more:
  assumes "\<not> rg_stopped st" and "tx_expires tx = sc_registerExpires cfg" and "0 < sc_registerExpires cfg"
  shows "one_more cfg st (fst (on_response cfg signr e tx rs st))"
  using assms
  by (cases tx; cases rs)
    (auto simp: on_response_def intro!: schedule_one_more onFinal_one_more sendAuthed_one_more
       intro: one_more_cong[OF sendAuthed_one_more] split: option.splits)

lemma one_more_live:
  assumes "one_more cfg st st'" "reg_live cfg st"
  shows "reg_live cfg st'" "1 \<le> awaited st'" "called_twice st \<Longrightarrow> called_twice st'" "awaited st = 0 \<Longrightarrow> awaited st' = 1"
  using assms by (auto simp: one_more_def reg_live_def awaited_defs called_twice_def)

lemma registerOnce_one_more: "one_more cfg st (fst (registerOnce cfg (sc_registerExpires cfg) st))"
  by (simp add: registerOnce_def buildRegister_def one_more_def)

text \<open>Marking a callback as called: the first time one answer less is awaited, later the callback has been called twice.\<close>

lemma mark_called:
  assumes "k < length (rg_calls st)" "reg_live cfg st"
    and "st1 = st\<lparr>rg_calls := (rg_calls st)[k := (fst (rg_calls st ! k), Suc (snd (rg_calls st ! k)))]\<rparr>"
  shows "reg_live cfg st1" "called_twice st \<Longrightarrow> called_twice st1"
    "called_twice st1 \<or> Suc (awaited st1) = awaited st"
proof -
  obtain xs tx n ys where c: "rg_calls st = xs @ (tx, n) # ys" "length xs = k"
    using assms(1) by (metis id_take_nth_drop length_take min.absorb4 surj_pair)
  have "rg_calls st ! k = (tx, n)" using c by auto
  then have c1: "rg_calls st1 = xs @ (tx, Suc n) # ys" using assms(3) c by (simp add: list_update_append)
  show "reg_live cfg st1" "called_twice st \<Longrightarrow> called_twice st1"
    using assms(2,3) c c1 by (auto simp: reg_live_def called_twice_def)
  show "called_twice st1 \<or> Suc (awaited st1) = awaited st"
    using assms(3) c c1 by (cases n) (auto simp: called_twice_def awaited_defs)
qed

lemma reg_step_alive [inv_intros]:
  assumes "reg_alive cfg st" and "ev \<noteq> RegStart" and "ev \<noteq> RegStop" and "0 < sc_registerExpires cfg"
  shows "reg_alive cfg (fst (reg_step cfg signr e st ev))"
proof (cases ev)
  case (RegTimer i)
  let ?s = "st\<lparr>rg_timers := filter (\<lambda>t. fst t \<noteq> i) (rg_timers st)\<rparr>"
  have l: "reg_live cfg ?s" "called_twice st \<Longrightarrow> called_twice ?s" using assms(1) by (auto simp: reg_alive_def reg_live_def called_twice_def)
  have "awaited ?s = 0" if i: "i \<in> fst ` set (rg_timers st)" and w: "awaited st = 1"
  proof -
    have "rg_timers st \<noteq> []" using i by auto
    then obtain t where "rg_timers st = [t]" "unanswered st = []"
      using w by (cases "rg_timers st") (auto simp: awaited_def)
    then show ?thesis using i by (simp add: awaited_defs)
  qed
  then show ?thesis
    using assms(1) RegTimer l one_more_live[OF registerOnce_one_more, of cfg ?s] by (auto simp: reg_alive_def)
next
  case (RegResponse k rs)
  show ?thesis
  proof (cases "k < length (rg_calls st)")
    case True
    define s where "s = st\<lparr>rg_calls := (rg_calls st)[k := (fst (rg_calls st ! k), Suc (snd (rg_calls st ! k)))]\<rparr>"
    have r: "reg_live cfg st" using assms(1) by (simp add: reg_alive_def)
    note m = mark_called[OF True r s_def]
    have "tx_expires (fst (rg_calls st ! k)) = sc_registerExpires cfg" using True r by (simp add: reg_live_def)
    then have "one_more cfg s (fst (on_response cfg signr e (fst (rg_calls st ! k)) rs s))"
      using m(1) assms(4) by (intro on_response_one_more) (simp_all add: reg_live_def)
    then show ?thesis
      using assms(1) RegResponse True m one_more_live[OF _ m(1)] by (auto simp: reg_alive_def simp flip: s_def)
  qed (use assms(1) RegResponse in simp)
qed (use assms in auto)

lemma reg_start_alive:
  assumes "\<not> sc_uriMode cfg" and "sc_username cfg \<noteq> []" and "sc_password cfg \<noteq> []"
  shows "reg_alive cfg (fst (reg_start cfg (new_registrar callId ctx)))"
  using assms
  by (simp add: reg_start_def new_registrar_def registerOnce_def buildRegister_def reg_alive_def reg_live_def awaited_defs)

subsection \<open>Refresh and retry times\<close>

lemma refresh_in_time:
  assumes "30 \<le> g" and "g \<le> 2684354"
  shows "30000 \<le> node_delay (refresh_ms (Num g))" and "of_int (node_delay (refresh_ms (Num g))) \<le> g * 1000"
proof -
  have c: "\<bar>fl (8/10) - 8/10\<bar> \<le> 2 powi (0 - 53)" by (rule fl_abs_bound) auto
  have t: "(2::jsnum) powi (0 - 53) \<le> 1 / 10 ^ 9" "(2::jsnum) powi (22 - 53) \<le> 1 / 10 ^ 9"
    by (simp_all add: power_int_def power_divide)
  let ?y = "g * fl (8/10)"
  have "fl (8/10) \<le> 8/10 + 1 / 10 ^ 9" "8/10 - 1 / 10 ^ 9 \<le> fl (8/10)" using c t by linarith+
  then have y: "?y \<le> g * (8/10 + 1 / 10 ^ 9)" "0 \<le> ?y"
    using assms(1) by (auto intro!: mult_left_mono mult_nonneg_nonneg simp: power_divide)
  then have y': "?y \<le> 8/10 * g + 1/100" using assms(2) by (simp add: algebra_simps)
  have "\<bar>?y\<bar> \<le> 2 powi 22" using y' y(2) assms(2) by (simp add: power_int_def)
  then have "\<bar>fl ?y - ?y\<bar> \<le> 2 powi (22 - 53)" by (rule fl_abs_bound) auto
  then have m: "mul_js g (fl (8/10)) \<le> 8/10 * g + 2/100"
  proof -
    have "fl ?y \<le> ?y + 1 / 10 ^ 9" using \<open>\<bar>fl ?y - ?y\<bar> \<le> 2 powi (22 - 53)\<close> t(2) by linarith
    also have "\<dots> \<le> 8/10 * g + (1/100 + 1 / 10 ^ 9)" using y' by linarith
    also have "\<dots> \<le> 8/10 * g + 2/100" by (intro add_left_mono) simp
    finally show ?thesis unfolding mul_js_def .
  qed
  then have f: "of_int \<lfloor>mul_js g (fl (8/10))\<rfloor> \<le> 8/10 * g + 2/100"
    by (meson of_int_floor_le order_trans)
  have fi: "\<lfloor>mul_js g (fl (8/10))\<rfloor> \<le> 2147483"
  proof -
    have "(of_int \<lfloor>mul_js g (fl (8/10))\<rfloor> :: rat) < of_int 2147484"
      using f assms(2) unfolding of_int_numeral by linarith
    then show ?thesis by (simp only: of_int_less_iff)
  qed
  let ?r = "max 30 \<lfloor>mul_js g (fl (8/10))\<rfloor>"
  have d: "node_delay (refresh_ms (Num g)) = ?r * 1000"
  proof -
    have "30 \<le> ?r" "?r \<le> 2147483" using fi by auto
    then have "1 \<le> ?r * 1000" "?r * 1000 \<le> 2147483647" by linarith+
    then show ?thesis unfolding refresh_ms_def node_delay_def numval.case by (simp only: not_less[symmetric] if_False simp_thms)
  qed
  show "30000 \<le> node_delay (refresh_ms (Num g))" unfolding d by simp
  have "of_int ?r \<le> g" using f assms(1) by (simp add: max_def)
  then show "of_int (node_delay (refresh_ms (Num g))) \<le> g * 1000" unfolding d by simp
qed

subsection \<open>Properties\<close>

text \<open>
  C2. Registration never stalls. After one \<open>start\<close> with credentials, whatever the SIP stack answers (errors, challenges,
  provisional responses, silence), however often it calls a callback and whatever timers fire, until \<open>stop\<close> the registrar
  still awaits something: a request whose callback has not been called, or a timer. It awaits exactly one of them,
  so that registrations do not multiply, when the stack has called no callback twice.
\<close>

theorem registration_never_stalls:
  assumes "\<not> sc_uriMode cfg" and "sc_username cfg \<noteq> []" and "sc_password cfg \<noteq> []"
    and "0 < sc_registerExpires cfg" and "RegStart \<notin> set evs" and "RegStop \<notin> set evs"
    and "st = fst (run_stream (reg_step cfg signr e) (fst (reg_start cfg (new_registrar callId e))) evs)"
  shows "1 \<le> length (filter (\<lambda>(tx, n). n = 0) (rg_calls st)) + length (rg_timers st)
    \<and> ((\<forall>(tx, n) \<in> set (rg_calls st). n \<le> 1) \<longrightarrow>
        length (filter (\<lambda>(tx, n). n = 0) (rg_calls st)) + length (rg_timers st) = 1)"
proof -
  have "reg_alive cfg st"
    unfolding assms(7) by (rule run_stream_inv) (use assms reg_start_alive in \<open>auto intro!: reg_step_alive\<close>)
  then show ?thesis by (auto simp: reg_alive_def awaited_defs called_twice_def case_prod_unfold not_less)
qed

definition demo_sip_config :: sip_config where
  "demo_sip_config = (sip_config_of (\<lambda>_. None) (SIP_PROVIDERS Zadarma))
     \<lparr>sc_uriMode := False, sc_username := js ''u'', sc_authUsername := js ''u@d'', sc_password := js ''p'',
      sc_registerExpires := 600\<rparr>"

definition demo_sip_response :: "nat \<Rightarrow> numval \<Rightarrow> sip_response" where
  "demo_sip_response c ex = \<lparr>rs_status = c, rs_reason = Some (js ''Forbidden auth''), rs_expires = ex,
     rs_contactExpires = NaN\<rparr>"

definition demo_signer :: "unit signer" where
  "demo_signer c rq r u p = Some (c, u)"

lemma registration_never_stalls_witness:
  "1 \<le> length (filter (\<lambda>(tx, n). n = 0) (rg_calls (fst (run_stream (reg_step demo_sip_config demo_signer ())
       (fst (reg_start demo_sip_config (new_registrar [] ())))
       [RegResponse 0 (Some (demo_sip_response 100 NaN)), RegResponse 0 (Some (demo_sip_response 401 NaN)), RegTimer 0]))))
   + length (rg_timers (fst (run_stream (reg_step demo_sip_config demo_signer ())
       (fst (reg_start demo_sip_config (new_registrar [] ())))
       [RegResponse 0 (Some (demo_sip_response 100 NaN)), RegResponse 0 (Some (demo_sip_response 401 NaN)), RegTimer 0])))"
  using registration_never_stalls[of demo_sip_config
      "[RegResponse 0 (Some (demo_sip_response 100 NaN)), RegResponse 0 (Some (demo_sip_response 401 NaN)), RegTimer 0]" _ demo_signer "()" "[]", OF _ _ _ _ _ _ refl]
  by (simp add: demo_sip_config_def js_def)

text \<open>
  A provisional answer runs the same callback as the final one: the client takes the 100 for a refusal, reports itself
  unregistered and schedules a retry, and the 200 that follows adds its refresh without clearing that retry. From then on two
  timers run, each of them starting a registration of its own.
\<close>

lemma provisional_doubles_registration:
  assumes "\<not> sc_uriMode cfg" "sc_username cfg \<noteq> []" "sc_password cfg \<noteq> []" "0 < sc_registerExpires cfg"
    and "rs_status r1 < 200" "200 \<le> rs_status r2" "rs_status r2 < 300"
    and "st0 = fst (reg_start cfg (new_registrar callId e))"
    and "st1 = fst (reg_step cfg signr e st0 (RegResponse 0 (Some r1)))"
    and "st2 = fst (reg_step cfg signr e st1 (RegResponse 0 (Some r2)))"
  shows "\<not> rg_registered st1 \<and> rg_lastStatus st1 = Some (rs_status r1) \<and> map snd (rg_timers st1) = [60000]
    \<and> rg_registered st2 \<and> length (rg_timers st2) = 2"
  using assms
  by (auto simp: reg_start_def new_registrar_def registerOnce_def buildRegister_def on_response_def onFinal_def Let_def
      scheduleRetry_def set_timer_def clear_timer_def node_delay_def)

text \<open>
  When the registrar grants between 30 seconds and 2684354 seconds, the refresh is scheduled
  before the registration runs out and not earlier than after 30 seconds.
\<close>

theorem refresh_before_expiry:
  assumes "\<not> rg_stopped st" and "0 < expires" and "200 \<le> rs_status r" and "rs_status r < 300"
    and "rs_expires r = Num g" and "30 \<le> g" and "g \<le> 2684354"
  shows "rg_registered (onFinal (Some r) expires st) \<and>
    (\<exists>i ms. rg_timers (onFinal (Some r) expires st) = rg_timers st @ [(i, ms)] \<and>
      30000 \<le> ms \<and> of_int ms \<le> g * 1000)"
proof -
  have "num_or (num_or (rs_expires r) (rs_contactExpires r)) (Num expires) = Num g"
    using assms(5,6) by (simp add: num_or_def)
  then have "onFinal (Some r) expires st = set_timer (refresh_ms (Num g))
      (st\<lparr>rg_registered := True, rg_lastStatus := Some (rs_status r), rg_lastReason := js_or (rs_reason r) (js ''OK'')\<rparr>)"
    using assms(1-4) by (simp add: onFinal_def Let_def)
  then show ?thesis using refresh_in_time[OF assms(6,7)] by (simp add: set_timer_def)
qed

lemma refresh_before_expiry_witness:
  "rg_registered (onFinal (Some (demo_sip_response 200 (Num 600))) 600 (new_registrar [] ()))"
  using refresh_before_expiry[of "new_registrar [] ()" 600 "demo_sip_response 200 (Num 600)" 600]
  by (simp add: new_registrar_def demo_sip_response_def)

text \<open>
  After \<open>stop\<close>, the acceptance of the de-registration (a 2xx answer to REGISTER with expiry 0)
  sets \<open>registered\<close> to true: the health endpoint then reports the trunk as registered although
  the client has just withdrawn its registration.
\<close>

theorem stop_reports_registered:
  assumes "200 \<le> rs_status r" and "rs_status r < 300"
  shows "rg_registered (fst (reg_step cfg signr e (fst (reg_step cfg signr e st RegStop)) (RegResponse (length (rg_calls st)) (Some r)))) \<and>
    map rq_expires (snd (reg_step cfg signr e st RegStop)) = [0]"
proof -
  let ?s = "fst (reg_step cfg signr e st RegStop)"
  have p: "\<exists>rq. rg_calls ?s = rg_calls st @ [(FirstTx rq 0, 0)]"
    by (simp add: reg_stop_def registerOnce_def buildRegister_def clear_timer_def split: option.splits)
  then have "rg_registered (fst (reg_step cfg signr e ?s (RegResponse (length (rg_calls st)) (Some r))))"
    using assms by (auto simp: on_response_def onFinal_def Let_def)
  then show ?thesis
    by (simp add: reg_stop_def registerOnce_def buildRegister_def)
qed

lemma stop_reports_registered_witness:
  "rg_registered (fst (reg_step demo_sip_config (\<lambda>c _ _ u _. Some (c, u)) ()
      (fst (reg_step demo_sip_config (\<lambda>c _ _ u _. Some (c, u)) () (new_registrar [] ()) RegStop))
      (RegResponse 0 (Some (demo_sip_response 200 NaN)))))"
  using stop_reports_registered[of "demo_sip_response 200 NaN" demo_sip_config
      "\<lambda>c _ _ u _. Some (c, u)" "()" "new_registrar [] ()"]
  by (simp add: new_registrar_def demo_sip_response_def)

end
