(* ===== verification/SipCaller.thy ===== *)
theory SipCaller
  imports JsString
begin

text \<open>
  The identity of an inbound call (\<open>extractCallerPhone\<close> and \<open>extractCallId\<close> of
  \<open>apps/voice-gateway/src/sip/calls.ts\<close>), with \<open>decodeURIComponent\<close> as ECMAScript defines it:
  percent escapes are UTF-8 bytes, and a malformed escape throws (result \<open>None\<close>). The From header is
  the caller's own text, so every string can arrive here.
\<close>

subsection \<open>Percent decoding\<close>

datatype uri_token = RawUnit nat | PctByte nat

definition hex_val :: "nat \<Rightarrow> nat option" where
  "hex_val c = (case digit_val c of Some d \<Rightarrow> if d < 16 then Some d else None | None \<Rightarrow> None)"

fun pct_tokens :: "jstr \<Rightarrow> uri_token list option" where
  "pct_tokens [] = Some []"
| "pct_tokens (c # s) =
     (if c \<noteq> 37 then map_option (\<lambda>ts. RawUnit c # ts) (pct_tokens s)
      else case s of
        a # b # r \<Rightarrow>
          (case (hex_val a, hex_val b) of
             (Some x, Some y) \<Rightarrow> map_option (\<lambda>ts. PctByte (16 * x + y) # ts) (pct_tokens r)
           | _ \<Rightarrow> None)
      | _ \<Rightarrow> None)"

definition utf8_cont :: "nat \<Rightarrow> bool" where
  "utf8_cont b \<longleftrightarrow> 128 \<le> b \<and> b < 192"

definition utf16_units :: "nat \<Rightarrow> jstr" where
  "utf16_units cp = (if cp < 65536 then [cp]
     else [55296 + (cp - 65536) div 1024, 56320 + (cp - 65536) mod 1024])"

fun utf8_decode :: "uri_token list \<Rightarrow> jstr option" where
  "utf8_decode [] = Some []"
| "utf8_decode (RawUnit c # ts) = map_option (\<lambda>s. c # s) (utf8_decode ts)"
| "utf8_decode (PctByte b # ts) =
     (if b < 128 then map_option (\<lambda>s. b # s) (utf8_decode ts)
      else if b < 194 then None
      else if b < 224 then
        (case ts of PctByte b1 # r \<Rightarrow>
           if utf8_cont b1 then map_option (\<lambda>s. utf16_units ((b - 192) * 64 + (b1 - 128)) @ s) (utf8_decode r)
           else None
         | _ \<Rightarrow> None)
      else if b < 240 then
        (case ts of PctByte b1 # PctByte b2 # r \<Rightarrow>
           let cp = (b - 224) * 4096 + (b1 - 128) * 64 + (b2 - 128)
           in if utf8_cont b1 \<and> utf8_cont b2 \<and> 2048 \<le> cp \<and> \<not> (55296 \<le> cp \<and> cp < 57344)
              then map_option (\<lambda>s. utf16_units cp @ s) (utf8_decode r) else None
         | _ \<Rightarrow> None)
      else if b < 245 then
        (case ts of PctByte b1 # PctByte b2 # PctByte b3 # r \<Rightarrow>
           let cp = (b - 240) * 262144 + (b1 - 128) * 4096 + (b2 - 128) * 64 + (b3 - 128)
           in if utf8_cont b1 \<and> utf8_cont b2 \<and> utf8_cont b3 \<and> 65536 \<le> cp \<and> cp < 1114112
              then map_option (\<lambda>s. utf16_units cp @ s) (utf8_decode r) else None
         | _ \<Rightarrow> None)
      else None)"

definition decodeURIComponent :: "jstr \<Rightarrow> jstr option" where
  "decodeURIComponent s = (case pct_tokens s of None \<Rightarrow> None | Some ts \<Rightarrow> utf8_decode ts)"

subsection \<open>Caller number\<close>

text \<open>The group of \<open>/sip:([^@;>]+)/i\<close>: the first match, the longest run after it.\<close>

definition uri_user_char :: "nat \<Rightarrow> bool" where
  "uri_user_char c \<longleftrightarrow> c \<noteq> 64 \<and> c \<noteq> 59 \<and> c \<noteq> 62"

fun sip_user :: "jstr \<Rightarrow> jstr" where
  "sip_user [] = []"
| "sip_user (c # s) =
     (if starts_with (js_toLowerCase (c # s)) (js ''sip:'') \<and> takeWhile uri_user_char (drop 3 s) \<noteq> []
      then takeWhile uri_user_char (drop 3 s) else sip_user s)"

definition strip_quotes :: "jstr \<Rightarrow> jstr" where
  "strip_quotes s =
     (let a = (case s of c # r \<Rightarrow> if c = 34 then r else s | [] \<Rightarrow> [])
      in if a \<noteq> [] \<and> last a = 34 then butlast a else a)"

text \<open>The From header is absent, a plain string, or an object with a \<open>uri\<close>.\<close>

datatype from_header = NoFrom | FromText jstr | FromUri "jstr option"

definition from_uri :: "from_header \<Rightarrow> jstr" where
  "from_uri f = (case f of NoFrom \<Rightarrow> [] | FromText t \<Rightarrow> t | FromUri u \<Rightarrow> js_or u [])"

definition extractCallerPhone :: "from_header \<Rightarrow> jstr option" where
  "extractCallerPhone hdr =
     (case decodeURIComponent (sip_user (from_uri hdr)) of
        None \<Rightarrow> None
      | Some decoded \<Rightarrow>
          let user = strip_quotes decoded
          in if user = [] \<or> js_toLowerCase user = js ''anonymous'' then Some (js ''+70000000000'')
             else if starts_with user (js ''+'') then Some user
             else let digits = filter js_digit user
                  in if 10 \<le> length digits
                     then Some (if starts_with digits (js ''8'') \<and> length digits = 11
                                then js ''+7'' @ drop 1 digits else js ''+'' @ digits)
                     else Some (js ''+'' @ js_or (Some digits) (js ''70000000000'')))"

definition extractCallId :: "jstr option \<Rightarrow> jstr option \<Rightarrow> msec \<Rightarrow> jstr" where
  "extractCallId dialogId callIdHeader now =
     js_or dialogId (js_or callIdHeader (js ''sip-'' @ show_int now))"

subsection \<open>Lemmas\<close>

lemma pct_tokens_plain: "37 \<notin> set s \<Longrightarrow> pct_tokens s = Some (map RawUnit s)"
  by (induction s) auto

lemma utf8_decode_raw: "utf8_decode (map RawUnit s) = Some s"
  by (induction s) auto

lemma decode_plain: "37 \<notin> set s \<Longrightarrow> decodeURIComponent s = Some s"
  by (simp add: decodeURIComponent_def pct_tokens_plain utf8_decode_raw)

lemma extract_shape: "extractCallerPhone hdr = Some p \<Longrightarrow> \<exists>r. p = 43 # r"
  by (cases "decodeURIComponent (sip_user (from_uri hdr))")
    (auto simp: extractCallerPhone_def Let_def js_def starts_with_iff split: if_splits dest: sym)

subsection \<open>Properties\<close>

text \<open>
  The caller number is a plus sign followed by something, whenever it can be extracted at all;
  it can for every From header without a percent sign in its user part; and a malformed percent
  escape, which any caller can send, makes the extraction throw. The exception leaves
  \<open>handleInboundInvite\<close> before its first \<open>try\<close>.
\<close>

theorem extractCallerPhone_cases:
  "(\<forall>p. extractCallerPhone hdr = Some p \<longrightarrow> (\<exists>r. p = 43 # r)) \<and>
   (37 \<notin> set (sip_user (from_uri hdr)) \<longrightarrow> extractCallerPhone hdr \<noteq> None) \<and>
   extractCallerPhone (FromText (js ''<sip:%ZZ@host>'')) = None"
proof -
  have "pct_tokens (sip_user (js ''<sip:%ZZ@host>'')) = None"
    by (simp add: js_def js_toLowerCase_def js_lower_unit_def uri_user_char_def hex_val_def digit_val_def js_digit_def)
  then have "extractCallerPhone (FromText (js ''<sip:%ZZ@host>'')) = None"
    by (simp add: extractCallerPhone_def from_uri_def decodeURIComponent_def)
  moreover have "37 \<notin> set (sip_user (from_uri hdr)) \<longrightarrow> extractCallerPhone hdr \<noteq> None"
    by (auto simp: extractCallerPhone_def decode_plain Let_def)
  ultimately show ?thesis using extract_shape by blast
qed

lemma extractCallerPhone_cases_witness:
  "\<exists>r. extractCallerPhone (FromUri (Some (js ''sip:8916@b''))) = Some (43 # r)"
proof -
  have "37 \<notin> set (sip_user (from_uri (FromUri (Some (js ''sip:8916@b'')))))"
    by (simp add: from_uri_def js_def js_toLowerCase_def js_lower_unit_def uri_user_char_def)
  then show ?thesis
    using extractCallerPhone_cases[of "FromUri (Some (js ''sip:8916@b''))"] by auto
qed

end
