(* ===== verification/FakeTls.thy ===== *)
theory FakeTls
  imports JsString
begin

text \<open>
  The Fake-TLS transport of the Telegram gateway (\<open>apps/tg-gateway/src/mtprotoFakeTls.ts\<close>): the
  ClientHello with its keyed digest, the framing of application data as TLS records, the socket
  wrapper with its buffered reads and the handshake, and the padded intermediate packet codec. HMAC
  SHA-256, the random bytes and the clock are arguments. Data events of the socket are a list of
  chunks; a read that finds nothing takes the next chunk, or is \<open>Blocked\<close> when none is left.
\<close>

definition DIGEST_LEN :: nat where "DIGEST_LEN = 32"
definition DIGEST_POS :: nat where "DIGEST_POS = 11"
definition MAX_TLS_PACKET :: nat where "MAX_TLS_PACKET = 2878"
definition TLS_CCS :: bytes where "TLS_CCS = [0x14, 0x03, 0x03, 0x00, 0x01, 0x01]"

lemmas tls_consts = DIGEST_LEN_def DIGEST_POS_def MAX_TLS_PACKET_def

subsection \<open>ClientHello\<close>

text \<open>\<open>[(n >> 8) & 0xff, n & 0xff]\<close> and \<open>writeUInt16BE\<close> agree on the lengths used here.\<close>

definition ascii_bytes :: "jstr \<Rightarrow> bytes" where
  "ascii_bytes s = map word_of_nat s"

definition buildSniExtension :: "jstr \<Rightarrow> bytes" where
  "buildSniExtension domain =
     (let sni = ascii_bytes domain;
          inner = [0x00] @ write_u16_be (length sni) @ sni;
          innerList = write_u16_be (length inner) @ inner
      in [0x00, 0x00] @ write_u16_be (length innerList) @ innerList)"

definition tls_ext :: "nat \<Rightarrow> bytes \<Rightarrow> bytes" where
  "tls_ext typ body = write_u16_be typ @ write_u16_be (length body) @ body"

definition cipherSuites :: bytes where
  "cipherSuites = [0x13, 0x01, 0x13, 0x02, 0x13, 0x03, 0xc0, 0x2b, 0xc0, 0x2f, 0xc0, 0x2c, 0xc0, 0x30,
     0xcc, 0xa9, 0xcc, 0xa8, 0xc0, 0x13, 0xc0, 0x14, 0x00, 0x9c, 0x00, 0x9d, 0x00, 0x2f, 0x00, 0x35]"

definition alpn_protocols :: bytes where
  "alpn_protocols = [0x02, 0x68, 0x32, 0x08] @ ascii_bytes (js ''http/1.1'')"

definition sigAlgs :: bytes where
  "sigAlgs = [0x04, 0x03, 0x08, 0x04, 0x04, 0x01, 0x05, 0x03, 0x08, 0x05, 0x05, 0x01, 0x08, 0x06,
     0x06, 0x01, 0x02, 0x01]"

definition hello_extensions :: "jstr \<Rightarrow> bytes \<Rightarrow> bytes" where
  "hello_extensions domain x25519Pub =
     (let keyShareEntry = [0x00, 0x1d, 0x00, 0x20] @ x25519Pub;
          keyShareList = write_u16_be (length keyShareEntry) @ keyShareEntry
      in buildSniExtension domain @ tls_ext 0x17 [] @ [0xff, 0x01, 0x00, 0x01, 0x00]
         @ tls_ext 0x0a [0x00, 0x06, 0x00, 0x1d, 0x00, 0x17, 0x00, 0x18]
         @ tls_ext 0x0b [0x01, 0x00] @ tls_ext 0x23 []
         @ tls_ext 0x10 (write_u16_be (length alpn_protocols) @ alpn_protocols)
         @ tls_ext 0x05 [0x01, 0x00, 0x00, 0x00, 0x00]
         @ tls_ext 0x0d (write_u16_be (length sigAlgs) @ sigAlgs)
         @ tls_ext 0x12 [] @ tls_ext 0x33 keyShareList @ tls_ext 0x2d [0x01, 0x01]
         @ tls_ext 0x2b [0x04, 0x03, 0x04, 0x03, 0x03] @ tls_ext 0x1b [0x02, 0x00, 0x02])"

text \<open>The hello with a zero random field, which the digest is computed over.\<close>

definition hello_zero :: "jstr \<Rightarrow> bytes \<Rightarrow> bytes \<Rightarrow> bytes" where
  "hello_zero domain sessionId x25519Pub =
     (let exts0 = hello_extensions domain x25519Pub;
          currentTotal = 5 + 4 + 2 + 32 + 1 + 32 + 2 + length cipherSuites + 2 + 2 + length exts0;
          padNeeded = 517 - currentTotal - 4;
          exts = exts0 @ tls_ext 0x15 (replicate padNeeded 0);
          body = [0x03, 0x03] @ replicate DIGEST_LEN 0 @ [word_of_nat (length sessionId)] @ sessionId
            @ write_u16_be (length cipherSuites) @ cipherSuites @ [0x01, 0x00]
            @ write_u16_be (length exts) @ exts;
          handshake = [0x01] @ tl (write_u32_be (length body)) @ body
      in [0x16, 0x03, 0x01] @ write_u16_be (length handshake) @ handshake)"

text \<open>Copying the random field into the hello at \<open>DIGEST_POS\<close>.\<close>

definition put_random :: "bytes \<Rightarrow> bytes \<Rightarrow> bytes" where
  "put_random r hello = take DIGEST_POS hello @ r @ drop (DIGEST_POS + length r) hello"

definition buildFakeTlsClientHello ::
  "(bytes \<Rightarrow> bytes \<Rightarrow> bytes) \<Rightarrow> nat \<Rightarrow> bytes \<Rightarrow> bytes \<Rightarrow> jstr \<Rightarrow> bytes \<Rightarrow> bytes" where
  "buildFakeTlsClientHello hmac nowSec sessionId x25519Pub domain secret =
     (let hello = hello_zero domain sessionId x25519Pub;
          digest = hmac secret hello;
          ts = write_u32_le nowSec;
          randomField = take 28 digest @ map2 (XOR) (drop 28 digest) ts
      in put_random randomField hello)"

subsection \<open>Records\<close>

definition tls_record :: "bytes \<Rightarrow> bytes" where
  "tls_record piece = [0x17, 0x03, 0x03] @ write_u16_be (length piece) @ piece"

function wrapTlsAppData :: "bytes \<Rightarrow> bytes" where
  "wrapTlsAppData d =
     (if d = [] then [] else tls_record (take MAX_TLS_PACKET d) @ wrapTlsAppData (drop MAX_TLS_PACKET d))"
  by auto
termination by (relation "measure length") (auto simp: MAX_TLS_PACKET_def)

declare wrapTlsAppData.simps [simp del]

text \<open>The loop of \<open>ingestAppRecords\<close> on the bytes held back: the payloads it pushes, and the rest.\<close>

function ingest_loop :: "bytes \<Rightarrow> bytes \<times> bytes" where
  "ingest_loop hold =
     (if length hold < 5 then ([], hold)
      else let len = read_u16_be (hold ! 3) (hold ! 4)
           in if length hold < 5 + len then ([], hold)
              else let payload = take len (drop 5 hold);
                       (tail_bytes, rest) = ingest_loop (drop (5 + len) hold)
                   in (if hold ! 0 = 0x17 then payload @ tail_bytes else tail_bytes, rest))"
  by auto
termination by (relation "measure length") auto

declare ingest_loop.simps [simp del]

subsection \<open>The socket\<close>

record fts =
  ft_stream :: bytes
  ft_hold :: bytes
  ft_appMode :: bool
  ft_closed :: bool
  ft_ready :: bool
  ft_written :: "bytes list"

definition new_fts :: fts where
  "new_fts = \<lparr>ft_stream = [], ft_hold = [], ft_appMode = False, ft_closed = True, ft_ready = True,
     ft_written = []\<rparr>"

definition ingestAppRecords :: "bytes \<Rightarrow> fts \<Rightarrow> fts" where
  "ingestAppRecords chunk st =
     (let (payload, rest) = ingest_loop (ft_hold st @ chunk)
      in st\<lparr>ft_stream := ft_stream st @ payload, ft_hold := rest\<rparr>)"

definition on_data :: "bytes \<Rightarrow> fts \<Rightarrow> fts" where
  "on_data message st =
     (let st = (if ft_appMode st then ingestAppRecords message st
                else st\<lparr>ft_stream := ft_stream st @ message\<rparr>)
      in st\<lparr>ft_ready := True\<rparr>)"

definition on_close :: "fts \<Rightarrow> fts" where
  "on_close st = st\<lparr>ft_closed := True, ft_ready := True\<rparr>"

datatype 'a awaited = Done 'a | Blocked | Throws

text \<open>One \<open>read(n)\<close> on a stream whose promise has been resolved.\<close>

definition fts_read :: "nat \<Rightarrow> fts \<Rightarrow> bytes \<times> fts" where
  "fts_read n st =
     (let rest = drop n (ft_stream st)
      in (take n (ft_stream st), st\<lparr>ft_stream := rest, ft_ready := (rest \<noteq> [])\<rparr>))"

function readExactly :: "nat \<Rightarrow> bytes \<Rightarrow> fts \<Rightarrow> bytes list \<Rightarrow> (bytes \<times> fts \<times> bytes list) awaited" where
  "readExactly left acc st arrivals =
     (if left = 0 then Done (acc, st, arrivals)
      else if ft_closed st then Throws
      else if \<not> ft_ready st
      then (case arrivals of [] \<Rightarrow> Blocked | m # ms \<Rightarrow> readExactly left acc (on_data m st) ms)
      else let (part, st') = fts_read left st
           in readExactly (left - length part) (acc @ part) st' arrivals)"
  by pat_completeness auto
termination
  by (relation "measures [\<lambda>(left, acc, st, arr). length arr, \<lambda>(left, acc, st, arr). left,
        \<lambda>(left, acc, st, arr). if ft_ready st then 1 else 0]")
    (auto simp: fts_read_def)

declare readExactly.simps [simp del]

definition fts_write :: "bytes \<Rightarrow> fts \<Rightarrow> fts" where
  "fts_write d st = st\<lparr>ft_written := ft_written st @ [if ft_appMode st then wrapTlsAppData d else d]\<rparr>"

text \<open>\<open>readTlsRecord\<close>: the header with the expected type, then the body it announces.\<close>

definition readTlsRecord :: "byte \<Rightarrow> fts \<Rightarrow> bytes list \<Rightarrow> (bytes \<times> fts \<times> bytes list) awaited" where
  "readTlsRecord typ st arrivals =
     (case readExactly 5 [] st arrivals of
        Done (hdr, st, arrivals) \<Rightarrow>
          if hdr ! 0 \<noteq> typ then Throws
          else (case readExactly (read_u16_be (hdr ! 3) (hdr ! 4)) [] st arrivals of
                  Done (body, st, arrivals) \<Rightarrow> Done (hdr @ body, st, arrivals)
                | Blocked \<Rightarrow> Blocked | Throws \<Rightarrow> Throws)
      | Blocked \<Rightarrow> Blocked | Throws \<Rightarrow> Throws)"

definition zero_random :: "bytes \<Rightarrow> bytes" where
  "zero_random resp = take DIGEST_POS resp @ replicate (length (take DIGEST_LEN (drop DIGEST_POS resp))) 0
     @ drop (DIGEST_POS + DIGEST_LEN) resp"

definition fts_handshake ::
  "(bytes \<Rightarrow> bytes \<Rightarrow> bytes) \<Rightarrow> bytes \<Rightarrow> bytes \<Rightarrow> fts \<Rightarrow> bytes list \<Rightarrow> (fts \<times> bytes list) awaited" where
  "fts_handshake hmac secret hello st arrivals =
     (let helloRand = take DIGEST_LEN (drop DIGEST_POS hello); st = fts_write hello st
      in case readTlsRecord 0x16 st arrivals of
           Done (rec1, st, arrivals) \<Rightarrow>
             (case readTlsRecord 0x14 st arrivals of
                Done (rec2, st, arrivals) \<Rightarrow>
                  (case readTlsRecord 0x17 st arrivals of
                     Done (rec3, st, arrivals) \<Rightarrow>
                       let resp = rec1 @ rec2 @ rec3;
                           respRand = take DIGEST_LEN (drop DIGEST_POS resp);
                           expected = hmac secret (helloRand @ zero_random resp)
                       in if expected \<noteq> respRand then Throws
                          else Done (fts_write TLS_CCS st, arrivals)
                   | Blocked \<Rightarrow> Blocked | Throws \<Rightarrow> Throws)
              | Blocked \<Rightarrow> Blocked | Throws \<Rightarrow> Throws)
         | Blocked \<Rightarrow> Blocked | Throws \<Rightarrow> Throws)"

text \<open>\<open>connect\<close> resets the stream and the mode, but not the bytes held back from before.\<close>

definition fts_connect ::
  "(bytes \<Rightarrow> bytes \<Rightarrow> bytes) \<Rightarrow> bytes \<Rightarrow> bytes \<Rightarrow> fts \<Rightarrow> bytes list \<Rightarrow> (fts \<times> bytes list) awaited" where
  "fts_connect hmac secret hello st arrivals =
     (let st = st\<lparr>ft_stream := [], ft_appMode := False, ft_closed := False, ft_ready := False\<rparr>
      in case fts_handshake hmac secret hello st arrivals of
           Done (st, arrivals) \<Rightarrow>
             let st = st\<lparr>ft_appMode := True\<rparr>
             in Done (if ft_stream st \<noteq> []
                      then ingestAppRecords (ft_stream st) (st\<lparr>ft_stream := []\<rparr>) else st, arrivals)
         | Blocked \<Rightarrow> Blocked | Throws \<Rightarrow> Throws)"

subsection \<open>Padded intermediate packets\<close>

definition encodePacket :: "bytes \<Rightarrow> bytes \<Rightarrow> bytes" where
  "encodePacket pad d = write_u32_le (length (d @ pad)) @ d @ pad"

definition readPacket :: "fts \<Rightarrow> bytes list \<Rightarrow> (bytes \<times> fts \<times> bytes list) awaited" where
  "readPacket st arrivals =
     (case readExactly 4 [] st arrivals of
        Done (lenBuf, st, arrivals) \<Rightarrow>
          let len = read_int32_le (lenBuf ! 0) (lenBuf ! 1) (lenBuf ! 2) (lenBuf ! 3)
          in if len < 0 \<or> 16 * 1024 * 1024 < len then Throws
             else (case readExactly (nat len) [] st arrivals of
                     Done (packet, st, arrivals) \<Rightarrow>
                       Done (take (length packet - length packet mod 4) packet, st, arrivals)
                   | Blocked \<Rightarrow> Blocked | Throws \<Rightarrow> Throws)
      | Blocked \<Rightarrow> Blocked | Throws \<Rightarrow> Throws)"

subsection \<open>Records survive any chunking\<close>

text \<open>
  What the socket relies on: a parser that keeps an unfinished record back may be given its input
  in pieces.
\<close>

locale incremental_parser =
  fixes parse :: "'a list \<Rightarrow> 'b list \<times> 'a list"
  assumes parse_append: "parse (a @ b) = (fst (parse a) @ fst (parse (snd (parse a) @ b)), snd (parse (snd (parse a) @ b)))"
begin

definition feed :: "'b list \<times> 'a list \<Rightarrow> 'a list \<Rightarrow> 'b list \<times> 'a list" where
  "feed s chunk = (fst s @ fst (parse (snd s @ chunk)), snd (parse (snd s @ chunk)))"

lemma feed_chunks:
  "chunks \<noteq> [] \<Longrightarrow> foldl feed (out, hold) chunks =
     (out @ fst (parse (hold @ concat chunks)), snd (parse (hold @ concat chunks)))"
proof (induction chunks arbitrary: out hold)
  case (Cons c cs)
  show ?case
  proof (cases cs)
    case Nil
    then show ?thesis by (simp add: feed_def)
  next
    case Cons2: (Cons d ds)
    then show ?thesis
      using Cons.IH[of "out @ fst (parse (hold @ c))" "snd (parse (hold @ c))"] parse_append[of "hold @ c" "concat cs"]
      by (simp add: feed_def)
  qed
qed simp

end

lemma ingest_short: "length hold < 5 \<Longrightarrow> ingest_loop hold = ([], hold)"
  by (subst ingest_loop.simps) simp

lemma ingest_partial:
  "length hold < 5 + read_u16_be (hold ! 3) (hold ! 4) \<Longrightarrow> ingest_loop hold = ([], hold)"
  by (subst ingest_loop.simps) simp

lemma ingest_full:
  assumes "5 + read_u16_be (hold ! 3) (hold ! 4) \<le> length hold"
  shows "ingest_loop hold =
    ((if hold ! 0 = 0x17 then take (read_u16_be (hold ! 3) (hold ! 4)) (drop 5 hold) else [])
       @ fst (ingest_loop (drop (5 + read_u16_be (hold ! 3) (hold ! 4)) hold)),
     snd (ingest_loop (drop (5 + read_u16_be (hold ! 3) (hold ! 4)) hold)))"
  using assms by (subst ingest_loop.simps) (simp add: case_prod_beta Let_def)

lemma ingest_append:
  "ingest_loop (a @ b) =
     (fst (ingest_loop a) @ fst (ingest_loop (snd (ingest_loop a) @ b)),
      snd (ingest_loop (snd (ingest_loop a) @ b)))"
proof (induction a rule: length_induct)
  case (1 a)
  let ?n = "read_u16_be (a ! 3) (a ! 4)"
  show ?case
  proof (cases "5 + ?n \<le> length a")
    case False
    then have "ingest_loop a = ([], a)" by (intro ingest_partial) simp
    then show ?thesis by simp
  next
    case True
    have "0 < length a" "3 < length a" "4 < length a" using True by linarith+
    then have n: "(a @ b) ! 3 = a ! 3" "(a @ b) ! 4 = a ! 4" "(a @ b) ! 0 = a ! 0"
      unfolding nth_append by simp_all
    have ab: "5 + read_u16_be ((a @ b) ! 3) ((a @ b) ! 4) \<le> length (a @ b)" using True n by simp
    have "length (drop (5 + ?n) a) < length a" using True by simp
    then have IH: "ingest_loop (drop (5 + ?n) a @ b) =
        (fst (ingest_loop (drop (5 + ?n) a)) @ fst (ingest_loop (snd (ingest_loop (drop (5 + ?n) a)) @ b)),
         snd (ingest_loop (snd (ingest_loop (drop (5 + ?n) a)) @ b)))"
      using 1 by blast
    show ?thesis
      using True IH unfolding ingest_full[OF ab] n ingest_full[OF True] by simp
  qed
qed

interpretation tls_records: incremental_parser ingest_loop
  by unfold_locales (rule ingest_append)

lemma tls_record_parts:
  "length (tls_record d) = 5 + length d" "tls_record d ! 0 = 0x17"
  "tls_record d ! 3 = word_of_nat (length d div 256)" "tls_record d ! 4 = word_of_nat (length d)"
  by (simp_all add: tls_record_def write_u16_be_def)

lemma ingest_tls_record:
  assumes "length d < 65536"
  shows "ingest_loop (tls_record d @ rest) = (d @ fst (ingest_loop rest), snd (ingest_loop rest))"
proof -
  let ?h = "tls_record d @ rest"
  have n: "?h ! 0 = 0x17" "read_u16_be (?h ! 3) (?h ! 4) = length d"
    using assms by (simp_all add: nth_append tls_record_parts)
  have "5 + read_u16_be (?h ! 3) (?h ! 4) \<le> length ?h" using n by (simp add: tls_record_parts)
  moreover have "take (length d) (drop 5 ?h) = d" by (simp add: tls_record_def write_u16_be_def)
  moreover have "drop (5 + length d) ?h = rest" using tls_record_parts(1)[of d] by (metis append_eq_conv_conj)
  ultimately show ?thesis using ingest_full[of ?h] unfolding n by simp
qed

lemma ingest_wrap: "ingest_loop (wrapTlsAppData d @ rest) = (d @ fst (ingest_loop rest), snd (ingest_loop rest))"
proof (induction d rule: wrapTlsAppData.induct)
  case (1 d)
  show ?case
  proof (cases "d = []")
    case True
    then show ?thesis by (subst wrapTlsAppData.simps) simp
  next
    case False
    have l: "length (take MAX_TLS_PACKET d) < 65536" by (simp add: MAX_TLS_PACKET_def)
    have "wrapTlsAppData d @ rest = tls_record (take MAX_TLS_PACKET d) @ (wrapTlsAppData (drop MAX_TLS_PACKET d) @ rest)"
      using False by (subst wrapTlsAppData.simps) simp
    moreover have "d = take MAX_TLS_PACKET d @ drop MAX_TLS_PACKET d" by simp
    ultimately show ?thesis
      using ingest_tls_record[OF l] 1[OF False] by (metis append_assoc fst_conv snd_conv)
  qed
qed

subsection \<open>Exact reads\<close>

text \<open>The bytes a reader will see: what is buffered, then what the arriving chunks decode to.\<close>

definition pending :: "fts \<Rightarrow> bytes list \<Rightarrow> bytes" where
  "pending st arr = ft_stream st @
     (if ft_appMode st then fst (ingest_loop (ft_hold st @ concat arr)) else concat arr)"

definition fts_ok :: "fts \<Rightarrow> bool" where
  "fts_ok st \<longleftrightarrow> \<not> ft_closed st \<and> (\<not> ft_ready st \<longrightarrow> ft_stream st = []) \<and>
     (ft_appMode st \<longrightarrow> ingest_loop (ft_hold st) = ([], ft_hold st))"

definition same_conn :: "fts \<Rightarrow> fts \<Rightarrow> bool" where
  "same_conn st st' \<longleftrightarrow> ft_appMode st' = ft_appMode st \<and> ft_closed st' = ft_closed st \<and>
     ft_written st' = ft_written st \<and> (\<not> ft_appMode st \<longrightarrow> ft_hold st' = ft_hold st)"

lemma same_conn_refl [simp]: "same_conn st st"
  by (simp add: same_conn_def)

lemma same_conn_trans: "same_conn a b \<Longrightarrow> same_conn b c \<Longrightarrow> same_conn a c"
  by (auto simp: same_conn_def)

lemma ingest_rest: "ingest_loop (snd (ingest_loop a)) = ([], snd (ingest_loop a))"
  using ingest_append[of a "[]"] by (simp add: prod_eq_iff)

lemma on_data_pending:
  "pending (on_data m st) ms = pending st (m # ms)" "same_conn st (on_data m st)" "fts_ok st \<Longrightarrow> fts_ok (on_data m st)"
  using ingest_append[of "ft_hold st @ m" "concat ms"] ingest_rest[of "ft_hold st @ m"]
  by (auto simp: pending_def on_data_def ingestAppRecords_def same_conn_def fts_ok_def case_prod_beta Let_def)

lemma fts_read_pending:
  assumes "fts_ok st" and "n \<le> length (pending st arr)" and "fts_read n st = (part, st')"
  shows "part = take n (ft_stream st)" and "pending st' arr = drop (length part) (pending st arr)"
    and "pending st arr = part @ pending st' arr"
    and "same_conn st st'" and "fts_ok st'" and "length part \<le> n"
proof -
  have e: "part = take n (ft_stream st)" "ft_stream st' = drop n (ft_stream st)"
    using assms(3) by (auto simp: fts_read_def)
  then have "ft_stream st = part @ ft_stream st'" by simp
  moreover have k: "ft_appMode st' = ft_appMode st" "ft_hold st' = ft_hold st"
    using assms(3) by (auto simp: fts_read_def)
  ultimately show p: "pending st arr = part @ pending st' arr" by (simp add: pending_def)
  show "part = take n (ft_stream st)" by (rule e(1))
  show "pending st' arr = drop (length part) (pending st arr)" unfolding p by simp
  show "same_conn st st'" "fts_ok st'" using assms(1,3) by (auto simp: fts_read_def same_conn_def fts_ok_def Let_def)
  show "length part \<le> n" unfolding e by simp
qed

lemma readExactly_done:
  assumes "fts_ok st" and "left \<le> length (pending st arr)"
  shows "\<exists>st' arr'. readExactly left acc st arr = Done (acc @ take left (pending st arr), st', arr') \<and>
    pending st' arr' = drop left (pending st arr) \<and> same_conn st st' \<and> fts_ok st'"
  using assms
proof (induction left acc st arr rule: readExactly.induct)
  case (1 left acc st arr)
  consider (zero) "left = 0" | (wait) "left \<noteq> 0" "\<not> ft_ready st" | (go) "left \<noteq> 0" "ft_ready st" by blast
  then show ?case
  proof cases
    case zero
    then show ?thesis using 1(3) by (subst readExactly.simps) simp
  next
    case wait
    have s: "ft_stream st = []" "\<not> ft_closed st" using 1(3) wait(2) by (auto simp: fts_ok_def)
    have "pending st [] = []" using s 1(3) by (simp add: pending_def fts_ok_def)
    then obtain m ms where arr: "arr = m # ms" using 1(4) wait(1) by (cases arr) auto
    have "readExactly left acc st arr = readExactly left acc (on_data m st) ms"
      using wait s by (subst readExactly.simps) (simp add: arr)
    then show ?thesis
      using 1(1)[OF wait(1) _ wait(2) arr] 1(3,4) s on_data_pending[where m = m and st = st] same_conn_trans
      unfolding arr by (metis (no_types, lifting))
  next
    case go
    obtain part st' where p: "fts_read left st = (part, st')" by (cases "fts_read left st")
    note rd = fts_read_pending[OF 1(3,4) p]
    have c: "\<not> ft_closed st" using 1(3) by (simp add: fts_ok_def)
    have e: "readExactly left acc st arr = readExactly (left - length part) (acc @ part) st' arr"
      using go c p by (subst readExactly.simps) simp
    have l: "left - length part \<le> length (pending st' arr)" using rd 1(4) by simp
    have "\<exists>st'' arr'. readExactly (left - length part) (acc @ part) st' arr =
        Done ((acc @ part) @ take (left - length part) (pending st' arr), st'', arr') \<and>
        pending st'' arr' = drop (left - length part) (pending st' arr) \<and> same_conn st' st'' \<and> fts_ok st''"
      using 1(2)[OF go(1) c _ p[symmetric] refl rd(5) l] go(2) by simp
    then obtain st'' arr' where d: "readExactly (left - length part) (acc @ part) st' arr =
        Done ((acc @ part) @ take (left - length part) (pending st' arr), st'', arr')"
      "pending st'' arr' = drop (left - length part) (pending st' arr)" "same_conn st' st''" "fts_ok st''"
      by blast
    have "take left (pending st arr) = part @ take (left - length part) (pending st' arr)"
      "drop left (pending st arr) = drop (left - length part) (pending st' arr)"
      using rd(3,6) by simp_all
    then show ?thesis using e d same_conn_trans[OF rd(4) d(3)] by simp
  qed
qed

subsection \<open>Handshake\<close>

definition tls_rec :: "byte \<Rightarrow> byte \<Rightarrow> byte \<Rightarrow> bytes \<Rightarrow> bytes" where
  "tls_rec typ v1 v2 body = [typ, v1, v2] @ write_u16_be (length body) @ body"

lemma readTlsRecord_done:
  assumes "fts_ok st" and "pending st arr = tls_rec typ v1 v2 body @ rest" and "length body < 65536"
  shows "\<exists>st' arr'. readTlsRecord typ st arr = Done (tls_rec typ v1 v2 body, st', arr') \<and>
    pending st' arr' = rest \<and> same_conn st st' \<and> fts_ok st'"
proof -
  let ?hdr = "[typ, v1, v2] @ write_u16_be (length body)"
  have p: "pending st arr = ?hdr @ (body @ rest)" using assms(2) by (simp add: tls_rec_def)
  have l: "length ?hdr = 5" by simp
  have t: "take 5 (pending st arr) = ?hdr" "drop 5 (pending st arr) = body @ rest"
    unfolding p using l by (metis append_eq_conv_conj)+
  obtain st1 arr1 where 1: "readExactly 5 [] st arr = Done (?hdr, st1, arr1)"
    "pending st1 arr1 = body @ rest" "same_conn st st1" "fts_ok st1"
    using readExactly_done[OF assms(1), of 5 arr "[]"] t p by auto
  have h: "?hdr ! 0 = typ" "read_u16_be (?hdr ! 3) (?hdr ! 4) = length body"
    using assms(3) by (simp_all add: write_u16_be_def)
  obtain st2 arr2 where 2: "readExactly (length body) [] st1 arr1 = Done (body, st2, arr2)"
    "pending st2 arr2 = rest" "same_conn st1 st2" "fts_ok st2"
    using readExactly_done[OF 1(4), of "length body" arr1 "[]"] 1(2) by auto
  have "readTlsRecord typ st arr = Done (?hdr @ body, st2, arr2)"
    unfolding readTlsRecord_def 1(1) awaited.case prod.case h using 2(1) by simp
  then show ?thesis using 2 same_conn_trans[OF 1(3) 2(3)] by (simp add: tls_rec_def)
qed

lemma pending_write [simp]: "pending (fts_write d st) arr = pending st arr" "fts_ok (fts_write d st) = fts_ok st"
  by (simp_all add: pending_def fts_write_def fts_ok_def)

lemma fts_handshake_done:
  assumes "fts_ok st" and "\<not> ft_appMode st"
    and "resp = tls_rec 0x16 v1 v2 b1 @ tls_rec 0x14 v3 v4 b2 @ tls_rec 0x17 v5 v6 b3"
    and "length b1 < 65536" and "length b2 < 65536" and "length b3 < 65536"
    and "pending st arr = resp @ rest"
    and "hmac secret (take DIGEST_LEN (drop DIGEST_POS hello) @ zero_random resp) =
      take DIGEST_LEN (drop DIGEST_POS resp)"
  shows "\<exists>st' arr'. fts_handshake hmac secret hello st arr = Done (st', arr') \<and> pending st' arr' = rest \<and>
    ft_written st' = ft_written st @ [hello, TLS_CCS] \<and> \<not> ft_appMode st' \<and> ft_hold st' = ft_hold st \<and> fts_ok st'"
proof -
  let ?s = "fts_write hello st"
  have w: "ft_written ?s = ft_written st @ [hello]" "ft_hold ?s = ft_hold st" "\<not> ft_appMode ?s"
    using assms(2) by (simp_all add: fts_write_def)
  obtain s1 a1 where 1: "readTlsRecord 0x16 ?s arr = Done (tls_rec 0x16 v1 v2 b1, s1, a1)"
    "pending s1 a1 = (tls_rec 0x14 v3 v4 b2 @ tls_rec 0x17 v5 v6 b3) @ rest" "same_conn ?s s1" "fts_ok s1"
    using readTlsRecord_done[of ?s arr "0x16" v1 v2 b1 "(tls_rec 0x14 v3 v4 b2 @ tls_rec 0x17 v5 v6 b3) @ rest"] assms
    by auto
  obtain s2 a2 where 2: "readTlsRecord 0x14 s1 a1 = Done (tls_rec 0x14 v3 v4 b2, s2, a2)"
    "pending s2 a2 = tls_rec 0x17 v5 v6 b3 @ rest" "same_conn s1 s2" "fts_ok s2"
    using readTlsRecord_done[OF 1(4), of a1 "0x14" v3 v4 b2 "tls_rec 0x17 v5 v6 b3 @ rest"] assms 1(2) by auto
  obtain s3 a3 where 3: "readTlsRecord 0x17 s2 a2 = Done (tls_rec 0x17 v5 v6 b3, s3, a3)"
    "pending s3 a3 = rest" "same_conn s2 s3" "fts_ok s3"
    using readTlsRecord_done[OF 2(4), of a2 "0x17" v5 v6 b3 rest] assms 2(2) by auto
  have "fts_handshake hmac secret hello st arr = Done (fts_write TLS_CCS s3, a3)"
    unfolding fts_handshake_def Let_def 1(1) awaited.case prod.case 2(1) 3(1)
    using assms(3,8) by simp
  moreover have "same_conn ?s s3" using same_conn_trans 1(3) 2(3) 3(3) by blast
  ultimately show ?thesis
    using w 3 by (auto simp: same_conn_def) (simp_all add: fts_write_def)
qed

lemma app_mode_pending:
  assumes "fts_ok st" and "\<not> ft_appMode st" and "ft_hold st = []"
    and "pending st arr = raw"
    and "st' = (let s = st\<lparr>ft_appMode := True\<rparr> in if ft_stream s \<noteq> []
            then ingestAppRecords (ft_stream s) (s\<lparr>ft_stream := []\<rparr>) else s)"
  shows "pending st' arr = fst (ingest_loop raw)" and "fts_ok st'" and "ft_written st' = ft_written st"
    and "ft_appMode st'"
proof -
  show "pending st' arr = fst (ingest_loop raw)"
    using assms ingest_append[of "ft_stream st" "concat arr"]
    by (auto simp: pending_def ingestAppRecords_def Let_def case_prod_beta)
  show "fts_ok st'" using assms ingest_rest[of "ft_stream st"]
    by (auto simp: fts_ok_def ingestAppRecords_def Let_def case_prod_beta ingest_short)
  show "ft_written st' = ft_written st" "ft_appMode st'"
    using assms by (auto simp: ingestAppRecords_def Let_def case_prod_beta)
qed

lemma fts_connect_done:
  assumes "ft_hold st = []"
    and "resp = tls_rec 0x16 v1 v2 b1 @ tls_rec 0x14 v3 v4 b2 @ tls_rec 0x17 v5 v6 b3"
    and "length b1 < 65536" and "length b2 < 65536" and "length b3 < 65536"
    and "concat arrivals = resp @ raw"
    and "hmac secret (take DIGEST_LEN (drop DIGEST_POS hello) @ zero_random resp) =
      take DIGEST_LEN (drop DIGEST_POS resp)"
  shows "\<exists>st' arr'. fts_connect hmac secret hello st arrivals = Done (st', arr') \<and>
    pending st' arr' = fst (ingest_loop raw) \<and> ft_written st' = ft_written st @ [hello, TLS_CCS] \<and>
    ft_appMode st' \<and> fts_ok st'"
proof -
  let ?s = "st\<lparr>ft_stream := [], ft_appMode := False, ft_closed := False, ft_ready := False\<rparr>"
  have "fts_ok ?s" "\<not> ft_appMode ?s" "pending ?s arrivals = resp @ raw"
    using assms(6) by (simp_all add: fts_ok_def pending_def)
  from fts_handshake_done[where hmac = hmac and secret = secret and hello = hello,
      OF this(1,2) assms(2-5) this(3) assms(7)]
  obtain s1 a1 where 1: "fts_handshake hmac secret hello ?s arrivals = Done (s1, a1)" "pending s1 a1 = raw"
    "ft_written s1 = ft_written st @ [hello, TLS_CCS]" "\<not> ft_appMode s1" "ft_hold s1 = []" "fts_ok s1"
    using assms(1) by auto
  define s2 where "s2 = (let s = s1\<lparr>ft_appMode := True\<rparr> in if ft_stream s \<noteq> []
            then ingestAppRecords (ft_stream s) (s\<lparr>ft_stream := []\<rparr>) else s)"
  have "fts_connect hmac secret hello st arrivals = Done (s2, a1)"
    unfolding fts_connect_def Let_def 1(1) s2_def by simp
  then show ?thesis using app_mode_pending[OF 1(6,4,5,2) s2_def] 1(3) by auto
qed

subsection \<open>The hello\<close>

lemma length_tls_ext [simp]: "length (tls_ext t b) = 4 + length b"
  by (simp add: tls_ext_def)

lemma length_sni [simp]: "length (buildSniExtension dn) = 9 + length dn"
  by (simp add: buildSniExtension_def ascii_bytes_def Let_def)

lemma length_hello_extensions:
  "length pub = 32 \<Longrightarrow> length (hello_extensions dn pub) = 159 + length dn"
  by (simp add: hello_extensions_def alpn_protocols_def sigAlgs_def ascii_bytes_def js_def Let_def)

lemma length_cipherSuites [simp]: "length cipherSuites = 30"
  by (simp add: cipherSuites_def)

lemma hello_zero_shape:
  assumes "length sid = 32" and "length pub = 32" and "length dn \<le> 242"
  shows "length (hello_zero dn sid pub) = 517"
    and "\<exists>a b. length a = 11 \<and> hello_zero dn sid pub = a @ replicate 32 0 @ b"
proof -
  define exts where "exts = hello_extensions dn pub @ tls_ext 0x15 (replicate (242 - length dn) 0)"
  have l: "length exts = 405" using assms by (simp add: exts_def length_hello_extensions)
  define body where "body = [0x03, 0x03] @ replicate 32 (0::byte) @ [word_of_nat 32] @ sid
            @ write_u16_be 30 @ cipherSuites @ [0x01, 0x00] @ write_u16_be (length exts) @ exts"
  have lb: "length body = 508" using assms l by (simp add: body_def)
  have e: "hello_zero dn sid pub = [0x16, 0x03, 0x01] @ write_u16_be 512 @ [0x01] @ tl (write_u32_be 508) @ body"
  proof -
    have b: "[0x03, 0x03] @ replicate DIGEST_LEN 0 @ [word_of_nat (length sid)] @ sid
            @ write_u16_be (length cipherSuites) @ cipherSuites @ [0x01, 0x00]
            @ write_u16_be (length exts) @ exts = body"
      by (simp add: body_def DIGEST_LEN_def assms(1))
    have x: "hello_extensions dn pub @ tls_ext 0x15 (replicate (517 - (5 + 4 + 2 + 32 + 1 + 32 + 2
        + length cipherSuites + 2 + 2 + length (hello_extensions dn pub)) - 4) 0) = exts"
      using assms by (simp add: exts_def length_hello_extensions)
    have h: "length ([0x01] @ tl (write_u32_be 508) @ body) = 512" using lb by simp
    show ?thesis unfolding hello_zero_def Let_def x b lb h ..
  qed
  show "length (hello_zero dn sid pub) = 517" unfolding e using lb by simp
  have "hello_zero dn sid pub = ([0x16, 0x03, 0x01] @ write_u16_be 512 @ [0x01] @ tl (write_u32_be 508) @ [0x03, 0x03])
      @ replicate 32 0 @ ([word_of_nat 32] @ sid
            @ write_u16_be 30 @ cipherSuites @ [0x01, 0x00] @ write_u16_be (length exts) @ exts)"
    unfolding e body_def by simp
  moreover have "length ([0x16, 0x03, 0x01] @ write_u16_be 512 @ [0x01] @ tl (write_u32_be 508) @ [0x03, 0x03]) = 11"
    by simp
  ultimately show "\<exists>a b. length a = 11 \<and> hello_zero dn sid pub = a @ replicate 32 0 @ b" by blast
qed

lemma xor_twice: "length a = length b \<Longrightarrow> map2 (XOR) (map2 (XOR) a b) (a :: bytes) = b"
  by (induction a b rule: list_induct2) (simp_all add: xor.commute flip: xor.assoc)

lemma random_field:
  fixes digest ts :: bytes
  assumes "length digest = 32" and "length ts = 4"
  shows "length (take 28 digest @ map2 (XOR) (drop 28 digest) ts) = 32"
    and "map2 (XOR) digest (take 28 digest @ map2 (XOR) (drop 28 digest) ts) = replicate 28 0 @ ts"
proof -
  show "length (take 28 digest @ map2 (XOR) (drop 28 digest) ts) = 32" using assms by simp
  have z: "map2 (XOR) a a = replicate (length a) (0 :: byte)" for a
    by (induction a) auto
  have s: "map2 (XOR) a (map2 (XOR) a b) = b" if "length a = length b" for a b :: bytes
    using that by (induction a b rule: list_induct2) (simp_all flip: xor.assoc)
  have "map2 (XOR) (take 28 digest @ drop 28 digest) (take 28 digest @ map2 (XOR) (drop 28 digest) ts) =
      map2 (XOR) (take 28 digest) (take 28 digest) @ map2 (XOR) (drop 28 digest) (map2 (XOR) (drop 28 digest) ts)"
    by (subst zip_append) simp_all
  also have "\<dots> = replicate 28 0 @ ts" using assms by (simp add: z s)
  finally show "map2 (XOR) digest (take 28 digest @ map2 (XOR) (drop 28 digest) ts) = replicate 28 0 @ ts" by simp
qed

lemma put_random_at:
  assumes "length a = 11" and "length r = 32"
  shows "put_random r (a @ replicate 32 0 @ b) = a @ r @ b"
  using assms by (simp add: put_random_def DIGEST_POS_def)

lemma encodePacket_le: "length (d @ pad) < 2147483648 \<Longrightarrow>
  encodePacket pad d = [word_of_nat (length (d @ pad)), word_of_nat (length (d @ pad) div 256),
    word_of_nat (length (d @ pad) div 65536), word_of_nat (length (d @ pad) div 16777216)] @ d @ pad"
  using read_write_int32_le(1)[of "length (d @ pad)"] by (simp add: encodePacket_def)

lemma readPacket_done:
  assumes "fts_ok st" and "pending st arr = encodePacket pad d @ tail_bytes" and "length d mod 4 = 0"
    and "length pad < 4" and "length (d @ pad) \<le> 16777216"
  shows "\<exists>st' arr'. readPacket st arr = Done (d, st', arr') \<and> pending st' arr' = tail_bytes \<and> fts_ok st'"
proof -
  let ?n = "length (d @ pad)"
  let ?h = "[word_of_nat ?n, word_of_nat (?n div 256), word_of_nat (?n div 65536), word_of_nat (?n div 16777216)] :: bytes"
  have n: "?n < 2147483648" using assms(5) by simp
  have p: "pending st arr = ?h @ (d @ pad @ tail_bytes)" using assms(2) encodePacket_le[OF n] by simp
  obtain st1 arr1 where 1: "readExactly 4 [] st arr = Done (?h, st1, arr1)"
    "pending st1 arr1 = d @ pad @ tail_bytes" "fts_ok st1"
    using readExactly_done[OF assms(1), of 4 arr "[]"] p by auto
  obtain st2 arr2 where 2: "readExactly ?n [] st1 arr1 = Done (d @ pad, st2, arr2)"
    "pending st2 arr2 = tail_bytes" "fts_ok st2"
    using readExactly_done[OF 1(3), of ?n arr1 "[]"] 1(2) by auto
  have r: "read_int32_le (?h ! 0) (?h ! 1) (?h ! 2) (?h ! 3) = int ?n"
    using read_write_int32_le(2)[OF n] by simp
  have m: "?n - ?n mod 4 = length d"
  proof -
    have "?n mod 4 = length pad" using assms(3,4) by (metis length_append mod_add_left_eq add_0 mod_less)
    then show ?thesis by simp
  qed
  have "readPacket st arr = Done (take (?n - ?n mod 4) (d @ pad), st2, arr2)"
    unfolding readPacket_def 1(1) awaited.case prod.case r Let_def
    unfolding nat_int 2(1) using assms(5) by simp
  then show ?thesis unfolding m using 2 by simp
qed

subsection \<open>Properties\<close>

text \<open>
  C10. The Fake-TLS connection is transparent. If the proxy answers with the three expected records
  and a correct hash, then, however the bytes of its answer and of the records after it are cut
  into chunks, \<open>connect\<close> succeeds, has written the hello and the change-cipher record, and every
  exact read afterwards returns the next bytes of the payload, none lost at the switch from the
  handshake to application data.
\<close>

theorem fake_tls_transparent:
  assumes "ft_hold st = []"
    and "resp = tls_rec 0x16 v1 v2 b1 @ tls_rec 0x14 v3 v4 b2 @ tls_rec 0x17 v5 v6 b3"
    and "length b1 < 65536" and "length b2 < 65536" and "length b3 < 65536"
    and "concat arrivals = resp @ wrapTlsAppData d" and "n \<le> length d"
    and "hmac secret (take DIGEST_LEN (drop DIGEST_POS hello) @ zero_random resp) =
      take DIGEST_LEN (drop DIGEST_POS resp)"
  shows "\<exists>st1 arr1 st2 arr2. fts_connect hmac secret hello st arrivals = Done (st1, arr1) \<and>
    ft_written st1 = ft_written st @ [hello, TLS_CCS] \<and>
    readExactly n [] st1 arr1 = Done (take n d, st2, arr2) \<and> pending st2 arr2 = drop n d"
proof -
  have w: "fst (ingest_loop (wrapTlsAppData d)) = d" using ingest_wrap[of d "[]"] by (simp add: ingest_short)
  obtain st1 arr1 where 1: "fts_connect hmac secret hello st arrivals = Done (st1, arr1)"
    "pending st1 arr1 = d" "ft_written st1 = ft_written st @ [hello, TLS_CCS]" "fts_ok st1"
    using fts_connect_done[where hmac = hmac and secret = secret and hello = hello, OF assms(1-6,8)] w by auto
  then show ?thesis using readExactly_done[OF 1(4), of n arr1 "[]"] assms(7) by auto
qed

definition demo_answer :: bytes where
  "demo_answer = tls_rec 0x16 3 3 (replicate 40 0) @ tls_rec 0x14 3 3 [1] @ tls_rec 0x17 3 3 [9]"

lemma fake_tls_transparent_witness:
  "\<exists>st1 arr1 st2 arr2. fts_connect (\<lambda>_ _. replicate 32 0) [] [] new_fts
       [take 7 demo_answer, drop 7 demo_answer @ wrapTlsAppData [5, 6, 7]] = Done (st1, arr1) \<and>
     readExactly 2 [] st1 arr1 = Done ([5, 6], st2, arr2) \<and> pending st2 arr2 = [7]"
proof -
  have h: "replicate 32 0 = take DIGEST_LEN (drop DIGEST_POS demo_answer)"
    by (simp add: demo_answer_def tls_rec_def write_u16_be_def tls_consts)
  have c: "concat [take 7 demo_answer, drop 7 demo_answer @ wrapTlsAppData [5, 6, 7]] =
      demo_answer @ wrapTlsAppData [5, 6, 7]"
    by (simp flip: append_assoc)
  have n: "ft_hold new_fts = []" by (simp add: new_fts_def)
  have "\<exists>st1 arr1 st2 arr2. fts_connect (\<lambda>_ _. replicate 32 0) [] [] new_fts
       [take 7 demo_answer, drop 7 demo_answer @ wrapTlsAppData [5, 6, 7]] = Done (st1, arr1) \<and>
     ft_written st1 = ft_written new_fts @ [[], TLS_CCS] \<and>
     readExactly 2 [] st1 arr1 = Done (take 2 [5, 6, 7], st2, arr2) \<and> pending st2 arr2 = drop 2 [5, 6, 7]"
    by (rule fake_tls_transparent[where hmac = "\<lambda>_ _. replicate 32 0" and secret = "[]" and hello = "[]",
        OF n demo_answer_def _ _ _ c _ h]) simp_all
  then show ?thesis by auto
qed

text \<open>
  The ClientHello has exactly 517 bytes for every domain of up to 242 characters, and carries
  the proof the proxy checks: zeroing its 32 random bytes and taking the HMAC of the result gives the
  random field up to its last four bytes, which differ by the time stamp.
\<close>

theorem clientHello_proof:
  assumes "length sid = 32" and "length pub = 32" and "length dn \<le> 242"
    and "length (hmac secret (hello_zero dn sid pub)) = 32"
    and "hello = buildFakeTlsClientHello hmac now sid pub dn secret"
  shows "length hello = 517 \<and>
    map2 (XOR) (hmac secret (zero_random hello)) (take DIGEST_LEN (drop DIGEST_POS hello)) =
      replicate 28 0 @ write_u32_le now"
proof -
  obtain a b where z: "length a = 11" "hello_zero dn sid pub = a @ replicate 32 0 @ b"
    using hello_zero_shape(2)[OF assms(1-3)] by blast
  let ?dg = "hmac secret (hello_zero dn sid pub)"
  let ?r = "take 28 ?dg @ map2 (XOR) (drop 28 ?dg) (write_u32_le now)"
  note rf = random_field[OF assms(4), of "write_u32_le now"]
  have h: "hello = a @ ?r @ b"
    using put_random_at[OF z(1)] rf(1)
    unfolding assms(5) buildFakeTlsClientHello_def Let_def z(2) by simp
  have r: "length ?r = 32" using rf(1) by simp
  have "length (hello_zero dn sid pub) = 43 + length b" using z by simp
  then have len: "length hello = 517" using hello_zero_shape(1)[OF assms(1-3)] r z(1) by (simp add: h)
  have f: "take DIGEST_LEN (drop DIGEST_POS hello) = ?r" using z(1) r by (simp add: h tls_consts)
  have "zero_random hello = hello_zero dn sid pub"
    using z r f unfolding zero_random_def by (simp add: h tls_consts)
  then show ?thesis using len f rf(2) by simp
qed

lemma clientHello_proof_witness:
  "length (buildFakeTlsClientHello (\<lambda>_ _. replicate 32 7) 5 (replicate 32 1) (replicate 32 2) (js ''ya.ru'') []) = 517"
  using clientHello_proof[of "replicate 32 1" "replicate 32 2" "js ''ya.ru''" "\<lambda>_ _. replicate 32 7" "[]" _ 5]
  by (simp add: js_def)

text \<open>
  A packet of the padded intermediate codec, sent through the record layer and delivered in any
  chunks, is read back exactly, provided the payload is a multiple of four bytes (as MTProto's are);
  the bytes after it stay available to the next read.
\<close>

theorem packet_roundtrip:
  assumes "ft_appMode st" and "\<not> ft_closed st" and "ft_stream st = []" and "ft_hold st = []"
    and "concat arrivals = wrapTlsAppData (encodePacket pad d @ tail_bytes)"
    and "length d mod 4 = 0" and "length pad < 4" and "length (d @ pad) \<le> 16777216"
  shows "\<exists>st' arr'. readPacket st arrivals = Done (d, st', arr') \<and> pending st' arr' = tail_bytes"
proof -
  have "fts_ok st" using assms(2-4) by (simp add: fts_ok_def ingest_short)
  moreover have "pending st arrivals = encodePacket pad d @ tail_bytes"
    using assms ingest_wrap[of "encodePacket pad d @ tail_bytes" "[]"] by (simp add: pending_def ingest_short)
  ultimately show ?thesis using readPacket_done[of st arrivals pad d tail_bytes] assms(6-8) by blast
qed

lemma packet_roundtrip_witness:
  "\<exists>st' arr'. readPacket (new_fts\<lparr>ft_appMode := True, ft_closed := False\<rparr>)
     [wrapTlsAppData (encodePacket [9] [1, 2, 3, 4] @ [8])] = Done ([1, 2, 3, 4], st', arr') \<and> pending st' arr' = [8]"
  by (rule packet_roundtrip[where pad = "[9]"]) (simp_all add: new_fts_def)

text \<open>
  A second \<open>connect\<close> on the same object keeps the bytes held back from the first: a stale record
  header swallows the payload of the new connection until its length is reached.
\<close>

lemma stale_hold_swallows:
  "length raw < 65535 \<Longrightarrow> ingest_loop ([0x17, 3, 3, 0xff, 0xff] @ raw) = ([], [0x17, 3, 3, 0xff, 0xff] @ raw)"
  by (rule ingest_partial) (simp add: read_u16_be_def)

end
