(* ===== verification/Regex.thy ===== *)
theory Regex
  imports JsString
begin

text \<open>
  The regular expressions the source uses, as data: character classes, sequence, alternation, greedy and
  lazy repetition, numbered groups, \<open>^\<close>, \<open>$\<close> and \<open>\b\<close>. \<open>rx_runs\<close> lists the ways an expression matches
  from a position in the order JavaScript's backtracking tries them, with the repetition rule that an
  optional iteration must consume input; \<open>Mbol\<close> and \<open>Meol\<close> are \<open>^\<close> and \<open>$\<close> under the \<open>m\<close> flag; \<open>rx_find\<close> is \<open>exec\<close> and \<open>rx_test\<close> is \<open>test\<close>. Groups inside a
  repetition are not used by the source. As in JavaScript without the \<open>u\<close> flag, \<open>\w\<close>, \<open>\d\<close> and \<open>\b\<close> know
  ASCII only. \<open>rx_runs_sound_complete\<close> shows that the matcher finds exactly the spans of the declarative
  semantics \<open>rx_lang\<close>.

  \<open>ru\<close> writes Cyrillic text by the KOI-7 table: each letter stands for the Cyrillic letter of the same code
  in KOI8 (\<open>a b c\<close> are the Russian a, be, tse), with \<open>#\<close> for yo; other characters stand for themselves.
\<close>

subsection \<open>Cyrillic literals and case\<close>

definition koi_lower :: "nat list" where
  "koi_lower = [1072, 1073, 1094, 1076, 1077, 1092, 1075, 1093, 1080, 1081, 1082, 1083, 1084, 1085,
     1086, 1087, 1103, 1088, 1089, 1090, 1091, 1078, 1074, 1100, 1099, 1079, 1096, 1101, 1097, 1095]"

definition koi_unit :: "nat \<Rightarrow> nat" where
  "koi_unit c = (if 97 \<le> c \<and> c \<le> 126 then koi_lower ! (c - 97)
     else if 65 \<le> c \<and> c \<le> 90 then koi_lower ! (c - 65) - 32
     else if c = 96 then 1102 else if c = 95 then 1098 else if c = 35 then 1105 else c)"

definition ru :: "string \<Rightarrow> jstr" where
  "ru s = map koi_unit (js s)"

definition js_upper_unit :: "nat \<Rightarrow> nat" where
  "js_upper_unit c =
     (if 97 \<le> c \<and> c \<le> 122 then c - 32
      else if 224 \<le> c \<and> c \<le> 254 \<and> c \<noteq> 247 then c - 32
      else if 1072 \<le> c \<and> c \<le> 1103 then c - 32
      else if 1104 \<le> c \<and> c \<le> 1119 then c - 80
      else c)"

subsection \<open>Expressions and the matcher\<close>

datatype rx =
  Emp
  | Cls bool "(nat \<times> nat) list"
  | Sq rx rx
  | Alt rx rx
  | Rep bool nat "nat option" rx
  | Cap nat rx
  | Bol | Eol | Wb | Mbol | Meol

type_synonym rpos = "jstr \<times> jstr \<times> (nat \<times> jstr) list"

definition in_ranges :: "(nat \<times> nat) list \<Rightarrow> nat \<Rightarrow> bool" where
  "in_ranges rs c = list_ex (\<lambda>(a, b). a \<le> c \<and> c \<le> b) rs"

definition cls_has :: "bool \<Rightarrow> (nat \<times> nat) list \<Rightarrow> nat \<Rightarrow> bool" where
  "cls_has i rs c \<longleftrightarrow> in_ranges rs c
     \<or> (i \<and> (in_ranges rs (js_lower_unit c) \<or> in_ranges rs (js_upper_unit c)))"

text \<open>Where \<open>^\<close> and \<open>$\<close> hold under the \<open>m\<close> flag: at an end of the text or next to a line terminator.\<close>

definition line_end :: "jstr \<Rightarrow> bool" where
  "line_end s = (case s of [] \<Rightarrow> True | c # _ \<Rightarrow> js_eol c)"

definition at_word :: "jstr \<Rightarrow> bool" where
  "at_word s = (case s of [] \<Rightarrow> False | c # _ \<Rightarrow> js_word c)"

fun reps :: "(rpos \<Rightarrow> rpos list) \<Rightarrow> bool \<Rightarrow> nat \<Rightarrow> nat \<Rightarrow> nat option \<Rightarrow> rpos \<Rightarrow> rpos list" where
  "reps f g 0 lo hi st = []"
| "reps f g (Suc k) lo hi st =
     (if hi = Some 0 then [st]
      else let hi' = map_option (\<lambda>h. h - 1) hi
      in if 0 < lo then concat (map (reps f g k (lo - 1) hi') (f st))
         else let again = concat (map (reps f g k 0 hi')
                 (filter (\<lambda>x. length (fst (snd x)) < length (fst (snd st))) (f st)))
              in if g then again @ [st] else st # again)"

primrec rx_runs :: "bool \<Rightarrow> rx \<Rightarrow> rpos \<Rightarrow> rpos list" where
  "rx_runs i Emp st = [st]"
| "rx_runs i (Cls neg rs) st =
     (case st of (p, t, cs) \<Rightarrow>
        (case t of [] \<Rightarrow> []
         | c # t' \<Rightarrow> if cls_has i rs c \<noteq> neg then [(c # p, t', cs)] else []))"
| "rx_runs i (Sq a b) st = concat (map (rx_runs i b) (rx_runs i a st))"
| "rx_runs i (Alt a b) st = rx_runs i a st @ rx_runs i b st"
| "rx_runs i (Rep g lo hi a) st = reps (rx_runs i a) g (Suc (lo + length (fst (snd st)))) lo hi st"
| "rx_runs i (Cap n a) st =
     map (\<lambda>(p, t, cs). (p, t, (n, take (length (fst (snd st)) - length t) (fst (snd st))) # cs))
       (rx_runs i a st)"
| "rx_runs i Bol st = (if fst st = [] then [st] else [])"
| "rx_runs i Eol st = (if fst (snd st) = [] then [st] else [])"
| "rx_runs i Wb st = (if at_word (fst st) \<noteq> at_word (fst (snd st)) then [st] else [])"
| "rx_runs i Mbol st = (if line_end (fst st) then [st] else [])"
| "rx_runs i Meol st = (if line_end (fst (snd st)) then [st] else [])"

text \<open>\<open>exec\<close>: the text before the match, the match, its groups and the text after it.\<close>

fun rx_find :: "bool \<Rightarrow> rx \<Rightarrow> jstr \<Rightarrow> jstr \<Rightarrow> (jstr \<times> jstr \<times> (nat \<times> jstr) list \<times> jstr) option" where
  "rx_find i r p t =
     (case rx_runs i r (p, t, []) of
        (_, t', cs) # _ \<Rightarrow> Some (rev p, take (length t - length t') t, cs, t')
      | [] \<Rightarrow> (case t of [] \<Rightarrow> None | c # u \<Rightarrow> rx_find i r (c # p) u))"

declare rx_find.simps [simp del]

definition rx_exec :: "bool \<Rightarrow> rx \<Rightarrow> jstr \<Rightarrow> (jstr \<times> jstr \<times> (nat \<times> jstr) list \<times> jstr) option" where
  "rx_exec i r s = rx_find i r [] s"

definition rx_test :: "bool \<Rightarrow> rx \<Rightarrow> jstr \<Rightarrow> bool" where
  "rx_test i r s = (rx_exec i r s \<noteq> None)"

subsection \<open>What an expression matches\<close>

text \<open>
  The declarative semantics: the pairs of positions (text read, reversed, and text left) an expression
  spans. It is defined on expressions whose repetition bounds are in order.
\<close>

primrec rx_lang :: "bool \<Rightarrow> rx \<Rightarrow> ((jstr \<times> jstr) \<times> (jstr \<times> jstr)) set" where
  "rx_lang i Emp = Id"
| "rx_lang i (Cls neg rs) = {((p, c # t), (c # p, t)) |p c t. cls_has i rs c \<noteq> neg}"
| "rx_lang i (Sq a b) = rx_lang i a O rx_lang i b"
| "rx_lang i (Alt a b) = rx_lang i a \<union> rx_lang i b"
| "rx_lang i (Rep g lo hi a) =
     {(x, y). \<exists>n\<ge>lo. (\<forall>h. hi = Some h \<longrightarrow> n \<le> h) \<and> (x, y) \<in> rx_lang i a ^^ n}"
| "rx_lang i (Cap n a) = rx_lang i a"
| "rx_lang i Bol = {(x, x) |x. fst x = []}"
| "rx_lang i Eol = {(x, x) |x. snd x = []}"
| "rx_lang i Wb = {(x, x) |x. at_word (fst x) \<noteq> at_word (snd x)}"
| "rx_lang i Mbol = {(x, x) |x. line_end (fst x)}"
| "rx_lang i Meol = {(x, x) |x. line_end (snd x)}"

primrec rx_ok :: "rx \<Rightarrow> bool" where
  "rx_ok Emp = True"
| "rx_ok (Cls neg rs) = True"
| "rx_ok (Sq a b) = (rx_ok a \<and> rx_ok b)"
| "rx_ok (Alt a b) = (rx_ok a \<and> rx_ok b)"
| "rx_ok (Rep g lo hi a) = (rx_ok a \<and> (case hi of None \<Rightarrow> True | Some h \<Rightarrow> lo \<le> h))"
| "rx_ok (Cap n a) = rx_ok a"
| "rx_ok Bol = True"
| "rx_ok Eol = True"
| "rx_ok Wb = True"
| "rx_ok Mbol = True"
| "rx_ok Meol = True"

definition advances :: "((jstr \<times> jstr) \<times> (jstr \<times> jstr)) set \<Rightarrow> bool" where
  "advances R \<longleftrightarrow> (\<forall>x y. (x, y) \<in> R \<longrightarrow> y = x \<or> length (snd y) < length (snd x))"

lemma advances_relpow: "advances R \<Longrightarrow> advances (R ^^ n)"
proof (induction n)
  case (Suc n)
  then show ?case unfolding advances_def by (fastforce elim!: relpow_Suc_E)
qed (simp add: advances_def)

lemma rx_lang_advances: "advances (rx_lang i r)"
proof (induction r)
  case (Sq a b)
  then show ?case unfolding advances_def by fastforce
next
  case (Rep g lo hi a)
  show ?case unfolding advances_def
  proof (intro allI impI)
    fix x y assume "(x, y) \<in> rx_lang i (Rep g lo hi a)"
    then obtain n where "(x, y) \<in> rx_lang i a ^^ n" by auto
    then show "y = x \<or> length (snd y) < length (snd x)"
      using advances_relpow[OF Rep.IH] unfolding advances_def by blast
  qed
qed (auto simp: advances_def)

lemma relpow_first_move:
  assumes "advances R" "(a, y) \<in> R ^^ n"
  shows "y = a \<or> (\<exists>x m. (a, x) \<in> R \<and> length (snd x) < length (snd a) \<and> (x, y) \<in> R ^^ m \<and> Suc m \<le> n)"
  using assms(2)
proof (induction n)
  case (Suc n)
  then obtain x where x: "(a, x) \<in> R" "(x, y) \<in> R ^^ n" by (metis relpow_Suc_D2)
  then consider "x = a" | "length (snd x) < length (snd a)"
    using assms(1) unfolding advances_def by blast
  then show ?case
  proof cases
    case 1
    then show ?thesis using Suc.IH x(2) le_SucI by blast
  next
    case 2
    then show ?thesis using x by blast
  qed
qed simp

definition rpos_of :: "rpos \<Rightarrow> jstr \<times> jstr" where
  "rpos_of st = (fst st, fst (snd st))"

lemma reps_spec:
  assumes f: "\<And>st. rpos_of ` set (f st) = R `` {rpos_of st}" and R: "advances R"
  shows "lo + length (fst (snd st)) < k \<Longrightarrow> (\<forall>h. hi = Some h \<longrightarrow> lo \<le> h) \<Longrightarrow>
    rpos_of ` set (reps f g k lo hi st) =
      {y. \<exists>n\<ge>lo. (\<forall>h. hi = Some h \<longrightarrow> n \<le> h) \<and> (rpos_of st, y) \<in> R ^^ n}"
proof (induction k arbitrary: lo hi st)
  case (Suc k)
  define hi' where "hi' = map_option (\<lambda>h. h - 1) hi"
  have shorter: "length (fst (snd x)) \<le> length (fst (snd st))" if "x \<in> set (f st)" for x
  proof -
    have "(rpos_of st, rpos_of x) \<in> R" using f[of st] that by blast
    then show ?thesis using R unfolding advances_def rpos_of_def by fastforce
  qed
  show ?case
  proof (cases "hi = Some 0")
    case True
    then show ?thesis using Suc.prems by auto
  next
    case hi: False
    have hi': "(\<forall>h. hi' = Some h \<longrightarrow> n \<le> h) \<longleftrightarrow> (\<forall>h. hi = Some h \<longrightarrow> Suc n \<le> h)" for n
      using hi unfolding hi'_def by (cases hi) auto
    show ?thesis
    proof (cases "0 < lo")
      case lo: True
      then obtain l where l: "lo = Suc l" using gr0_implies_Suc by blast
      have IH: "rpos_of ` set (reps f g k l hi' x) =
          {y. \<exists>n\<ge>l. (\<forall>h. hi = Some h \<longrightarrow> Suc n \<le> h) \<and> (rpos_of x, y) \<in> R ^^ n}"
        if "x \<in> set (f st)" for x
        using Suc.IH[of l x hi'] Suc.prems shorter[OF that] l by (simp add: hi')
      have "rpos_of ` set (reps f g (Suc k) lo hi st) =
          (\<Union>x\<in>set (f st). rpos_of ` set (reps f g k l hi' x))"
        using hi lo l by (simp add: hi'_def Let_def image_UN)
      also have "\<dots> = (\<Union>x\<in>rpos_of ` set (f st).
          {y. \<exists>n\<ge>l. (\<forall>h. hi = Some h \<longrightarrow> Suc n \<le> h) \<and> (x, y) \<in> R ^^ n})"
        using IH by simp
      also have "\<dots> = {y. \<exists>n\<ge>lo. (\<forall>h. hi = Some h \<longrightarrow> n \<le> h) \<and> (rpos_of st, y) \<in> R ^^ n}"
        (is "?A = ?B")
      proof (rule set_eqI)
        fix y
        show "y \<in> ?A \<longleftrightarrow> y \<in> ?B"
        proof
          assume "y \<in> ?A"
          then obtain x n where "(rpos_of st, x) \<in> R" "n \<ge> l" "\<forall>h. hi = Some h \<longrightarrow> Suc n \<le> h"
              "(x, y) \<in> R ^^ n"
            unfolding f by auto
          moreover from this have "(rpos_of st, y) \<in> R ^^ Suc n" by (blast intro: relpow_Suc_I2)
          ultimately show "y \<in> ?B" using l by (intro CollectI exI[of _ "Suc n"]) simp
        next
          assume "y \<in> ?B"
          then obtain n where n: "n \<ge> lo" "\<forall>h. hi = Some h \<longrightarrow> n \<le> h" "(rpos_of st, y) \<in> R ^^ n" by auto
          then obtain m where m: "n = Suc m" using l by (cases n) auto
          then obtain x where "(rpos_of st, x) \<in> R" "(x, y) \<in> R ^^ m" using n(3) by (metis relpow_Suc_D2)
          then show "y \<in> ?A" unfolding f using n m l by auto
        qed
      qed
      finally show ?thesis .
    next
      case lo: False
      define xs where "xs = filter (\<lambda>x. length (fst (snd x)) < length (fst (snd st))) (f st)"
      have IH: "rpos_of ` set (reps f g k 0 hi' x) =
          {y. \<exists>n. (\<forall>h. hi = Some h \<longrightarrow> Suc n \<le> h) \<and> (rpos_of x, y) \<in> R ^^ n}" if "x \<in> set xs" for x
        using Suc.IH[of 0 x hi'] Suc.prems that hi' unfolding xs_def by simp
      have mem: "rpos_of ` set xs = {x. (rpos_of st, x) \<in> R \<and> length (snd x) < length (snd (rpos_of st))}"
      proof -
        have "rpos_of ` set xs =
            {x \<in> rpos_of ` set (f st). length (snd x) < length (snd (rpos_of st))}"
          unfolding xs_def rpos_of_def by force
        then show ?thesis unfolding f by auto
      qed
      have "rpos_of ` set (reps f g (Suc k) lo hi st) =
          insert (rpos_of st) (\<Union>x\<in>set xs. rpos_of ` set (reps f g k 0 hi' x))"
        using hi lo by (simp add: hi'_def Let_def image_UN xs_def)
      also have "\<dots> = insert (rpos_of st) (\<Union>x\<in>rpos_of ` set xs.
          {y. \<exists>n. (\<forall>h. hi = Some h \<longrightarrow> Suc n \<le> h) \<and> (x, y) \<in> R ^^ n})"
        using IH by simp
      also have "\<dots> = {y. \<exists>n\<ge>lo. (\<forall>h. hi = Some h \<longrightarrow> n \<le> h) \<and> (rpos_of st, y) \<in> R ^^ n}"
        (is "?A = ?B")
      proof (rule set_eqI)
        fix y
        show "y \<in> ?A \<longleftrightarrow> y \<in> ?B"
        proof
          assume "y \<in> ?A"
          then consider "y = rpos_of st"
            | x n where "(rpos_of st, x) \<in> R" "\<forall>h. hi = Some h \<longrightarrow> Suc n \<le> h" "(x, y) \<in> R ^^ n"
            unfolding mem by auto
          then show "y \<in> ?B"
          proof cases
            case 1
            then show ?thesis using lo by (intro CollectI exI[of _ 0]) auto
          next
            case 2
            moreover from this have "(rpos_of st, y) \<in> R ^^ Suc n" by (blast intro: relpow_Suc_I2)
            ultimately show ?thesis using lo by (intro CollectI exI[of _ "Suc n"]) simp
          qed
        next
          assume "y \<in> ?B"
          then obtain n where n: "\<forall>h. hi = Some h \<longrightarrow> n \<le> h" "(rpos_of st, y) \<in> R ^^ n" by auto
          from relpow_first_move[OF R n(2)] show "y \<in> ?A"
          proof
            assume "\<exists>x m. (rpos_of st, x) \<in> R \<and> length (snd x) < length (snd (rpos_of st)) \<and>
              (x, y) \<in> R ^^ m \<and> Suc m \<le> n"
            then obtain x m where x: "(rpos_of st, x) \<in> R" "length (snd x) < length (snd (rpos_of st))"
              "(x, y) \<in> R ^^ m" "Suc m \<le> n" by blast
            then have "x \<in> rpos_of ` set xs" unfolding mem by simp
            moreover have "\<forall>h. hi = Some h \<longrightarrow> Suc m \<le> h" using n(1) x(4) le_trans by blast
            ultimately show ?thesis using x(3) by blast
          qed simp
        qed
      qed
      finally show ?thesis .
    qed
  qed
qed simp

theorem rx_runs_sound_complete:
  "rx_ok r \<Longrightarrow> rpos_of ` set (rx_runs i r st) = rx_lang i r `` {rpos_of st}"
proof (induction r arbitrary: st)
  case (Cls neg rs)
  obtain p t cs where st: "st = (p, t, cs)" by (cases st)
  show ?case unfolding st by (cases t) (auto simp: rpos_of_def)
next
  case (Sq a b)
  have "rpos_of ` set (rx_runs i (Sq a b) st) = (\<Union>x\<in>set (rx_runs i a st). rx_lang i b `` {rpos_of x})"
    using Sq by (simp add: image_UN)
  also have "\<dots> = rx_lang i b `` (rpos_of ` set (rx_runs i a st))" by auto
  also have "\<dots> = rx_lang i (Sq a b) `` {rpos_of st}" using Sq by (simp add: relcomp_Image)
  finally show ?case .
next
  case (Rep g lo hi a)
  have "\<And>st. rpos_of ` set (rx_runs i a st) = rx_lang i a `` {rpos_of st}" using Rep by simp
  from reps_spec[OF this rx_lang_advances, of lo st "Suc (lo + length (fst (snd st)))" hi g] Rep.prems
  show ?case by (auto simp del: reps.simps split: option.splits)
next
  case (Cap n a)
  have "rpos_of (case x of (p, t, cs) \<Rightarrow> (p, t, f p t cs)) = rpos_of x" for x f
    by (simp add: rpos_of_def split: prod.splits)
  then have "rpos_of ` set (rx_runs i (Cap n a) st) = rpos_of ` set (rx_runs i a st)"
    by (simp add: image_image)
  then show ?case using Cap by simp
next
  case (Alt a b)
  then show ?case by (simp add: image_Un Un_Image)
qed (auto simp: rpos_of_def)

lemma rx_runs_Nil_iff: "rx_ok r \<Longrightarrow> rx_runs i r (p, t, cs) = [] \<longleftrightarrow> rx_lang i r `` {(p, t)} = {}"
  using rx_runs_sound_complete[of r i "(p, t, cs)"]
  by (metis (no_types, lifting) fst_conv image_is_empty rpos_of_def set_empty snd_conv)

lemma rx_find_iff:
  assumes "rx_ok r"
  shows "rx_find i r p t \<noteq> None \<longleftrightarrow> (\<exists>a b y. t = a @ b \<and> ((rev a @ p, b), y) \<in> rx_lang i r)"
proof (induction t arbitrary: p)
  case Nil
  show ?case
    using rx_runs_Nil_iff[OF assms, of i p "[]" "[]"]
    by (subst rx_find.simps) (auto split: list.splits)
next
  case (Cons c u)
  have split: "(\<exists>a b y. c # u = a @ b \<and> ((rev a @ p, b), y) \<in> rx_lang i r) \<longleftrightarrow>
      (\<exists>y. ((p, c # u), y) \<in> rx_lang i r) \<or>
      (\<exists>a b y. u = a @ b \<and> ((rev a @ c # p, b), y) \<in> rx_lang i r)" (is "?L \<longleftrightarrow> ?A \<or> ?B")
  proof
    assume ?L
    then obtain a b y where e: "c # u = a @ b" "((rev a @ p, b), y) \<in> rx_lang i r" by blast
    show "?A \<or> ?B"
    proof (cases a)
      case Nil
      then have "((p, c # u), y) \<in> rx_lang i r" using e by simp
      then show ?thesis by blast
    next
      case (Cons d a')
      then have "u = a' @ b" "((rev a' @ c # p, b), y) \<in> rx_lang i r" using e by auto
      then show ?thesis by blast
    qed
  next
    assume "?A \<or> ?B"
    then show ?L
    proof
      assume ?A
      then show ?L by (metis append_Nil rev.simps(1))
    next
      assume ?B
      then obtain a b y where "u = a @ b" "((rev a @ c # p, b), y) \<in> rx_lang i r" by blast
      then show ?L by (intro exI[of _ "c # a"] exI[of _ b] exI[of _ y]) simp
    qed
  qed
  show ?case
  proof (cases "rx_runs i r (p, c # u, [])")
    case Nil
    then have "\<not> (\<exists>y. ((p, c # u), y) \<in> rx_lang i r)"
      using rx_runs_Nil_iff[OF assms, of i p "c # u" "[]"] by blast
    then show ?thesis unfolding split using Nil Cons.IH[of "c # p"] by (simp add: rx_find.simps[of i r p])
  next
    case (Cons x xs)
    then have "\<exists>y. ((p, c # u), y) \<in> rx_lang i r"
      using rx_runs_Nil_iff[OF assms, of i p "c # u" "[]"] by auto
    then show ?thesis unfolding split using Cons
      by (simp add: rx_find.simps[of i r p] split: prod.splits)
  qed
qed

text \<open>A match splits the text, and its span belongs to the expression.\<close>

lemma rx_lang_suffix: "((p, t), (q, u)) \<in> rx_lang i r \<Longrightarrow> \<exists>m. t = m @ u \<and> q = rev m @ p"
proof (induction r arbitrary: p t q u)
  case (Sq a b)
  then obtain p1 t1 where 1: "((p, t), (p1, t1)) \<in> rx_lang i a" "((p1, t1), (q, u)) \<in> rx_lang i b" by auto
  from Sq.IH(1)[OF 1(1)] Sq.IH(2)[OF 1(2)] show ?case by fastforce
next
  case (Rep g lo hi a)
  then obtain n where "((p, t), (q, u)) \<in> rx_lang i a ^^ n" by auto
  then show ?case
  proof (induction n arbitrary: q u)
    case (Suc n)
    then obtain p1 t1 where 1: "((p, t), (p1, t1)) \<in> rx_lang i a ^^ n" "((p1, t1), (q, u)) \<in> rx_lang i a" by auto
    from Suc.IH[OF 1(1)] Rep.IH[OF 1(2)] show ?case by fastforce
  qed simp
qed auto

lemma rx_find_sound:
  assumes "rx_ok r" "rx_find i r p t = Some (pre, m, cs, post)"
  shows "\<exists>a. pre = rev p @ a \<and> t = a @ m @ post \<and> ((rev pre, m @ post), (rev (pre @ m), post)) \<in> rx_lang i r"
  using assms(2)
proof (induction t arbitrary: p)
  case Nil
  then obtain q u ds xs where 1: "rx_runs i r (p, [], []) = (q, u, ds) # xs"
    by (subst (asm) rx_find.simps) (auto split: list.splits prod.splits)
  then have "rpos_of (q, u, ds) \<in> rpos_of ` set (rx_runs i r (p, [], []))" by simp
  then have 2: "((p, []), (q, u)) \<in> rx_lang i r"
    unfolding rx_runs_sound_complete[OF assms(1)] by (simp add: rpos_of_def)
  from rx_lang_suffix[OF this] have uq: "u = []" "q = p" by auto
  then have "pre = rev p" "m = []" "post = []" using Nil 1 by (simp_all add: rx_find.simps[of i r p])
  then show ?case using 2 uq by simp
next
  case (Cons c t)
  show ?case
  proof (cases "rx_runs i r (p, c # t, [])")
    case Nil
    then have "rx_find i r (c # p) t = Some (pre, m, cs, post)"
      using Cons.prems by (simp add: rx_find.simps[of i r p])
    from Cons.IH[OF this] obtain a where "pre = rev (c # p) @ a" "t = a @ m @ post"
      "((rev pre, m @ post), (rev (pre @ m), post)) \<in> rx_lang i r" by blast
    then show ?thesis by (intro exI[of _ "c # a"]) simp
  next
    case 1: (Cons x xs)
    obtain q u ds where x: "x = (q, u, ds)" by (cases x)
    have "rpos_of x \<in> rpos_of ` set (rx_runs i r (p, c # t, []))" using 1 by simp
    then have 2: "((p, c # t), (q, u)) \<in> rx_lang i r"
      unfolding rx_runs_sound_complete[OF assms(1)] by (simp add: rpos_of_def x)
    from rx_lang_suffix[OF this] obtain d where d: "c # t = d @ u" "q = rev d @ p" by blast
    have "rx_find i r p (c # t) = Some (rev p, take (length (c # t) - length u) (c # t), ds, u)"
      unfolding rx_find.simps[of i r p] 1 x by simp
    from trans[OF sym[OF Cons.prems] this]
    have e: "pre = rev p" "m = take (length (c # t) - length u) (c # t)" "post = u"
      unfolding option.inject prod.inject by blast+
    then have "m = d" using d(1) by simp
    then show ?thesis using d 2 e(1,3) by (intro exI[of _ "[]"]) simp
  qed
qed

lemma rx_exec_sound:
  assumes "rx_ok r" "rx_exec i r s = Some (pre, m, cs, post)"
  shows "s = pre @ m @ post \<and> ((rev pre, m @ post), (rev (pre @ m), post)) \<in> rx_lang i r"
  using rx_find_sound[OF assms(1), of i "[]" s] assms(2) by (auto simp: rx_exec_def)

lemma rx_test_iff:
  "rx_ok r \<Longrightarrow> rx_test i r s \<longleftrightarrow> (\<exists>a b y. s = a @ b \<and> ((rev a, b), y) \<in> rx_lang i r)"
  using rx_find_iff[of r i "[]" s] by (simp add: rx_test_def rx_exec_def)

text \<open>What a repeated class spans.\<close>

lemma lang_cls_pow:
  "((p, t), (q, u)) \<in> rx_lang i (Cls neg rs) ^^ n \<Longrightarrow>
   \<exists>w. length w = n \<and> t = w @ u \<and> q = rev w @ p \<and> (\<forall>c \<in> set w. cls_has i rs c \<noteq> neg)"
proof (induction n arbitrary: q u)
  case (Suc n)
  then obtain p1 t1 where 1: "((p, t), (p1, t1)) \<in> rx_lang i (Cls neg rs) ^^ n" "((p1, t1), (q, u)) \<in> rx_lang i (Cls neg rs)"
    by auto
  from Suc.IH[OF 1(1)] obtain w where "length w = n" "t = w @ t1" "p1 = rev w @ p" "\<forall>c \<in> set w. cls_has i rs c \<noteq> neg" by blast
  moreover from 1(2) obtain c where "t1 = c # u" "q = c # p1" "cls_has i rs c \<noteq> neg" by auto
  ultimately show ?case by (intro exI[of _ "w @ [c]"]) auto
qed auto

subsection \<open>Abbreviated expressions\<close>

definition chars :: "jstr \<Rightarrow> (nat \<times> nat) list" where
  "chars s = map (\<lambda>c. (c, c)) s"

definition lit :: "jstr \<Rightarrow> rx" where
  "lit s = foldr (\<lambda>c r. Sq (Cls False [(c, c)]) r) s Emp"

fun sq :: "rx list \<Rightarrow> rx" where
  "sq [] = Emp"
| "sq [r] = r"
| "sq (r # s # rs) = Sq r (sq (s # rs))"

fun alts :: "rx list \<Rightarrow> rx" where
  "alts [] = Cls False []"
| "alts [r] = r"
| "alts (r # s # rs) = Alt r (alts (s # rs))"

definition opt :: "rx \<Rightarrow> rx" where "opt = Rep True 0 (Some 1)"
definition star :: "rx \<Rightarrow> rx" where "star = Rep True 0 None"
definition plus1 :: "rx \<Rightarrow> rx" where "plus1 = Rep True 1 None"
definition rep_to :: "nat \<Rightarrow> nat \<Rightarrow> rx \<Rightarrow> rx" where "rep_to a b = Rep True a (Some b)"

definition space_ranges :: "(nat \<times> nat) list" where
  "space_ranges = [(9, 13), (32, 32), (160, 160), (5760, 5760), (8192, 8202), (8232, 8233), (8239, 8239),
     (8287, 8287), (12288, 12288), (65279, 65279)]"
definition word_ranges :: "(nat \<times> nat) list" where
  "word_ranges = [(48, 57), (65, 90), (95, 95), (97, 122)]"

definition sp :: rx where "sp = Cls False space_ranges"
definition wd :: rx where "wd = Cls False word_ranges"
definition dg :: rx where "dg = Cls False [(48, 57)]"
definition nondg :: rx where "nondg = Cls True [(48, 57)]"
definition dot :: rx where "dot = Cls True [(10, 10), (13, 13), (8232, 8233)]"
definition one :: "jstr \<Rightarrow> rx" where "one s = Cls False (chars s)"
definition rr :: "string \<Rightarrow> rx" where "rr s = lit (ru s)"
definition ll :: "string \<Rightarrow> rx" where "ll s = lit (js s)"
definition yo :: rx where "yo = Cls False [(1077, 1077), (1105, 1105)]"
definition rng :: "nat \<Rightarrow> nat \<Rightarrow> rx" where "rng a b = Cls False [(a, b)]"

definition anyc :: rx where "anyc = Cls True []"

text \<open>\<open>match[n]\<close>; \<open>s.replace(r, t)\<close> at the first match, and \<open>s.replace(r, t)\<close> with the \<open>g\<close> flag for
  expressions that match no empty text.\<close>

definition grp :: "nat \<Rightarrow> (nat \<times> jstr) list \<Rightarrow> jstr option" where
  "grp n cs = map_of cs n"

definition rx_replace :: "bool \<Rightarrow> rx \<Rightarrow> jstr \<Rightarrow> jstr \<Rightarrow> jstr" where
  "rx_replace i r rep s = (case rx_exec i r s of None \<Rightarrow> s | Some (pre, m, _, post) \<Rightarrow> pre @ rep @ post)"

function replace_all :: "bool \<Rightarrow> rx \<Rightarrow> jstr \<Rightarrow> jstr \<Rightarrow> jstr" where
  "replace_all i r rep s =
     (case rx_exec i r s of
        None \<Rightarrow> s
      | Some (pre, m, _, post) \<Rightarrow> if length post < length s then pre @ rep @ replace_all i r rep post else s)"
  by pat_completeness auto
termination by (relation "measure (\<lambda>(i, r, rep, s). length s)") auto

declare replace_all.simps [simp del]

text \<open>\<open>matchAll\<close> and \<open>match\<close> with the \<open>g\<close> flag: each match with its groups.\<close>

function match_all :: "bool \<Rightarrow> rx \<Rightarrow> jstr \<Rightarrow> jstr \<Rightarrow> (jstr \<times> (nat \<times> jstr) list) list" where
  "match_all i r p s =
     (case rx_find i r p s of
        None \<Rightarrow> []
      | Some (pre, m, cs, post) \<Rightarrow> if length post < length s then (m, cs) # match_all i r (rev m @ rev pre) post else [])"
  by pat_completeness auto
termination by (relation "measure (\<lambda>(i, r, p, s). length s)") auto

declare match_all.simps [simp del]

lemmas rx_abbrevs = lit_def opt_def star_def plus1_def rep_to_def sp_def wd_def dg_def nondg_def dot_def
  one_def rng_def chars_def space_ranges_def word_ranges_def

lemma lang_cls_sq: "((p, t), y) \<in> rx_lang i (Sq (Cls neg rs) r) \<longleftrightarrow>
   (\<exists>c t'. t = c # t' \<and> cls_has i rs c \<noteq> neg \<and> ((c # p, t'), y) \<in> rx_lang i r)"
  unfolding rx_lang.simps relcomp_unfold by blast

lemma lang_lit: "((p, t), (q, u)) \<in> rx_lang False (lit s) \<longleftrightarrow> t = s @ u \<and> q = rev s @ p"
proof (induction s arbitrary: p t)
  case Nil
  then show ?case by (auto simp: lit_def)
next
  case (Cons c s)
  have l: "lit (c # s) = Sq (Cls False [(c, c)]) (lit s)" by (simp add: lit_def)
  have h: "cls_has False [(c, c)] d \<noteq> False \<longleftrightarrow> d = c" for d by (auto simp: cls_has_def in_ranges_def)
  show ?case unfolding l lang_cls_sq h Cons by auto
qed

text \<open>Alternatives and literal words inside a text.\<close>

lemma rx_ok_alts [simp]: "rx_ok (alts rs) \<longleftrightarrow> list_all rx_ok rs"
  by (induction rs rule: alts.induct) auto

lemma lang_alts: "rx_lang i (alts rs) = (\<Union>r \<in> set rs. rx_lang i r)"
  by (induction rs rule: alts.induct) (auto simp: cls_has_def in_ranges_def)

lemma rx_test_alts:
  assumes "list_all rx_ok rs"
  shows "rx_test i (alts rs) s \<longleftrightarrow> (\<exists>r \<in> set rs. rx_test i r s)"
proof -
  have "rx_ok (alts rs)" using assms by simp
  from rx_test_iff[OF this] have "rx_test i (alts rs) s \<longleftrightarrow> (\<exists>r \<in> set rs. \<exists>a b y. s = a @ b \<and> ((rev a, b), y) \<in> rx_lang i r)"
    unfolding lang_alts by blast
  also have "\<dots> \<longleftrightarrow> (\<exists>r \<in> set rs. rx_test i r s)"
    using assms rx_test_iff[of _ i s] by (auto simp: list_all_iff)
  finally show ?thesis .
qed

lemma rx_ok_lit [simp]: "rx_ok (lit w)"
proof (induction w)
  case (Cons c w)
  then show ?case by (simp add: lit_def)
qed (simp add: lit_def)

lemma lang_lit_self: "((p, w @ u), (rev w @ p, u)) \<in> rx_lang i (lit w)"
proof (induction w arbitrary: p)
  case (Cons c w)
  have "lit (c # w) = Sq (Cls False [(c, c)]) (lit w)" by (simp add: lit_def)
  moreover have "cls_has i [(c, c)] c" by (simp add: cls_has_def in_ranges_def)
  ultimately show ?case using Cons[of "c # p"] unfolding append_Cons by (simp only: lang_cls_sq) auto
qed (simp add: lit_def)

lemma rx_test_lit: "rx_test i (lit w) (a @ w @ b)"
  unfolding rx_test_iff[OF rx_ok_lit] using lang_lit_self[of "rev a" w b i] by blast

lemma lang_star_cls:
  assumes "((p, t), (q, u)) \<in> rx_lang i (star (Cls neg rs))"
  obtains w where "t = w @ u" "q = rev w @ p" "\<forall>c \<in> set w. cls_has i rs c \<noteq> neg"
proof -
  obtain n where "((p, t), (q, u)) \<in> rx_lang i (Cls neg rs) ^^ n"
    using assms unfolding star_def rx_lang.simps by blast
  from lang_cls_pow[OF this] show ?thesis using that by blast
qed

lemma cls_space: "cls_has False space_ranges c \<longleftrightarrow> js_space c"
  unfolding cls_has_def in_ranges_def space_ranges_def js_space_def by (simp; presburger)

lemma cls_eol: "cls_has False [(10, 10), (13, 13), (8232, 8233)] c \<longleftrightarrow> js_eol c"
  unfolding cls_has_def in_ranges_def js_eol_def by (simp; presburger)

lemmas js_text_eval = js_def js_trim_def js_space_def js_toLowerCase_def js_lower_unit_def
lemmas ru_eval = ru_def js_def koi_unit_def koi_lower_def
lemma rx_find_Nil:
  "rx_find i r p [] = (case rx_runs i r (p, [], []) of
     (_, t', cs) # _ \<Rightarrow> Some (rev p, [], cs, t') | [] \<Rightarrow> None)"
  by (subst rx_find.simps) (simp split: list.splits)

lemma rx_find_Cons:
  "rx_find i r p (c # u) = (case rx_runs i r (p, c # u, []) of
     (_, t', cs) # _ \<Rightarrow> Some (rev p, take (length (c # u) - length t') (c # u), cs, t')
   | [] \<Rightarrow> rx_find i r (c # p) u)"
  by (subst rx_find.simps) (simp split: list.splits)

lemma reps_numeral:
  "reps f g (numeral k) lo hi st =
     (if hi = Some 0 then [st]
      else let hi' = map_option (\<lambda>h. h - 1) hi
      in if 0 < lo then concat (map (reps f g (pred_numeral k) (lo - 1) hi') (f st))
         else let again = concat (map (reps f g (pred_numeral k) 0 hi')
                 (filter (\<lambda>x. length (fst (snd x)) < length (fst (snd st))) (f st)))
              in if g then again @ [st] else st # again)"
  by (simp add: numeral_eq_Suc)

lemmas rx_eval = rx_abbrevs reps_numeral rx_test_def rx_exec_def rx_find_Nil rx_find_Cons cls_has_def in_ranges_def at_word_def line_end_def js_eol_def
  js_lower_unit_def js_upper_unit_def js_word_def js_letter_def js_digit_def

end
