(* ===== verification/MailRules.thy ===== *)
theory MailRules
  imports Regex
begin

text \<open>
  Classification of inbound mail (\<open>packages/shared/src/mailRules.ts\<close>): service-provider rules, the
  freight-request score, the newsletter test, the gate applied before a deal is opened, and the
  kind of an attachment. Cyrillic text is written with \<open>ru\<close> (theory Regex). A header value is a string
  or a list of strings, as the mail parser delivers it.
\<close>

datatype service_category = SC_post | SC_fuel | SC_glonass | SC_tracking | SC_telecom | SC_bank | SC_it_saas
  | SC_other_service

datatype attachment_kind = AK_kp | AK_contracts | AK_invoices | AK_payments | AK_customs | AK_client | AK_other

record service_rule =
  sr_category :: service_category
  sr_name :: jstr
  sr_domains :: "jstr list"
  sr_keywords :: rx

definition category_name :: "service_category \<Rightarrow> jstr" where
  "category_name c = js (case c of SC_post \<Rightarrow> ''post'' | SC_fuel \<Rightarrow> ''fuel'' | SC_glonass \<Rightarrow> ''glonass''
     | SC_tracking \<Rightarrow> ''tracking'' | SC_telecom \<Rightarrow> ''telecom'' | SC_bank \<Rightarrow> ''bank'' | SC_it_saas \<Rightarrow> ''it_saas''
     | SC_other_service \<Rightarrow> ''other_service'')"

subsection \<open>Expressions\<close>

definition RX_POST :: rx where
  "RX_POST = alts [sq [rr ''po~ta'', star sp, rr ''rossi''], ll ''pochta.ru'', sq [ll ''russian'', star sp, ll ''post'']]"

definition RX_FUEL :: rx where
  "RX_FUEL = alts [sq [rr ''topliwn'', star wd, star sp, rr ''kart''], sq [rr ''ppr'', Wb],
     sq [rr ''gazpromneftx'', star dot, rr ''kart''], sq [ll ''petrol'', star sp, ll ''plus''],
     sq [rr ''lukojl'', star dot, rr ''kart'']]"

definition RX_GLONASS :: rx where
  "RX_GLONASS = alts [rr ''glonass'', ll ''glonass'', ll ''wialon'', sq [rr ''monitoring'', star sp, rr ''transport''],
     sq [rr ''fort'', opt dot, rr ''monitor'']]"

definition RX_TRACKING :: rx where
  "RX_TRACKING = alts [rr ''telematik'', sq [ll ''gps'', opt dot, rr ''trek''], rr ''awtotrek'']"

definition RX_TELECOM :: rx where
  "RX_TELECOM = alts [rr ''bilajn'', ll ''beeline'', sq [rr ''mts'', Wb], ll ''megafon'', rr ''megafon'', rr ''tele2'',
     sq [ll ''sip'', opt dot, rr ''telefon''], rr ''zadarma'', sq [rr ''mango'', opt dot, rr ''ofis'']]"

definition RX_BANK :: rx where
  "RX_BANK = alts [sq [rr ''bank'', star sp, rr ''to~ka''], ll ''tochka.com'', rr ''tinxkoff'', rr ''sberbank'',
     rr ''wypisk'', rr ''|kwajring'']"

definition RX_IT :: rx where
  "RX_IT = alts [ll ''bitrix'', rr ''bitriks'', sq [ll ''1'', Cls False [(1089, 1089), (99, 99)], Wb],
     sq [rr ''qndeks'', star sp, ll ''360''], ll ''timeweb'', rr ''hosting'',
     sq [rr ''rassylk'', star dot, rr ''serwis'']]"

definition SERVICE_PROVIDER_RULES :: "service_rule list" where
  "SERVICE_PROVIDER_RULES =
    [\<lparr>sr_category = SC_post, sr_name = ru ''Po~ta Rossii'', sr_domains = map js [''pochta.ru'', ''russianpost.ru''],
       sr_keywords = RX_POST\<rparr>,
     \<lparr>sr_category = SC_fuel, sr_name = ru ''Topliwnye karty'',
       sr_domains = map js [''ppr.ru'', ''gpnbonus.ru'', ''petrolplus.ru'', ''lukoil.ru''], sr_keywords = RX_FUEL\<rparr>,
     \<lparr>sr_category = SC_glonass, sr_name = ru ''GLONASS / monitoring'',
       sr_domains = map js [''glonass.ru'', ''fort-monitor.ru'', ''wialon.com''], sr_keywords = RX_GLONASS\<rparr>,
     \<lparr>sr_category = SC_tracking, sr_name = ru ''Treking / telematika'',
       sr_domains = map js [''scout-gps.ru'', ''autotracker.ru''], sr_keywords = RX_TRACKING\<rparr>,
     \<lparr>sr_category = SC_telecom, sr_name = ru ''Telefoniq / swqzx'',
       sr_domains = map js [''beeline.ru'', ''mts.ru'', ''megafon.ru'', ''tele2.ru'', ''zadarma.com'', ''mango-office.ru''],
       sr_keywords = RX_TELECOM\<rparr>,
     \<lparr>sr_category = SC_bank, sr_name = ru ''Bank / |kwajring'',
       sr_domains = map js [''tochka.com'', ''tinkoff.ru'', ''sberbank.ru'', ''modulbank.ru''], sr_keywords = RX_BANK\<rparr>,
     \<lparr>sr_category = SC_it_saas, sr_name = js ''IT / SaaS'',
       sr_domains = map js [''bitrix24.ru'', ''1c.ru'', ''yandex.ru'', ''timeweb.ru'', ''reg.ru'', ''google.com''],
       sr_keywords = RX_IT\<rparr>]"

definition CALC_POSITIVE :: rx where
  "CALC_POSITIVE = alts [sq [rr ''ras~'', yo, rr ''t''], rr ''stawk'', rr ''stoimost'', rr ''tarif'', rr ''perewoz'',
     rr ''mar{rut'', rr ''dostawk'', sq [rr ''zaqwk'', star wd, plus1 sp, rr ''na'', plus1 sp, rr ''perewoz''],
     sq [rr ''skolxko'', plus1 sp, rr ''stoit''], ll ''quote'', ll ''rate'', ll ''freight'', rr ''wagon'',
     rr ''platform'', rr ''stanci'']"

definition CALC_NEGATIVE :: rx where
  "CALC_NEGATIVE = alts [sq [rr ''s~'', yo, rr ''t'', plus1 sp, rr ''na'', plus1 sp, rr ''oplat''],
     sq [rr ''akt'', plus1 sp, rr ''swerk''], sq [rr ''upd'', Wb], sq [rr ''s~'', yo, rr ''t'', opt dot, rr ''faktur''],
     sq [rr ''bankowsk'', star wd, plus1 sp, rr ''wypisk''], ll ''unsubscribe'', rr ''otpisatxsq'', ll ''newsletter'',
     rr ''rassylk'']"

definition BUSINESS_MARKERS :: rx where
  "BUSINESS_MARKERS = alts [sq [rr ''ras~'', yo, rr ''t''], rr ''stawk'', rr ''perewoz'', rr ''dogowor'',
     sq [rr ''s~'', yo, rr ''t''], ll ''invoice'', ll ''contract'', rr ''gruz'', rr ''mar{rut'', rr ''zaqwk'']"

subsection \<open>Headers and providers\<close>

datatype header_value = HStr jstr | HList "jstr list"

type_synonym mail_headers = "jstr \<Rightarrow> header_value option"

definition headerGet :: "mail_headers \<Rightarrow> jstr \<Rightarrow> jstr" where
  "headerGet h k =
     (let v = (case h k of None \<Rightarrow> h (js_toLowerCase k) | Some (HStr []) \<Rightarrow> h (js_toLowerCase k) | v \<Rightarrow> v)
      in case v of None \<Rightarrow> [] | Some (HStr s) \<Rightarrow> s | Some (HList ss) \<Rightarrow> js_join (js '' '') ss)"

definition ends_with :: "jstr \<Rightarrow> jstr \<Rightarrow> bool" where
  "ends_with s p = starts_with (rev s) (rev p)"

definition mail_domain :: "jstr \<Rightarrow> jstr" where
  "mail_domain a = (case js_split1 64 a of _ # d # _ \<Rightarrow> d | _ \<Rightarrow> [])"

definition rule_hit :: "jstr \<Rightarrow> jstr \<Rightarrow> service_rule \<Rightarrow> bool" where
  "rule_hit blob dmn r \<longleftrightarrow>
     list_ex (\<lambda>d. dmn = d \<or> ends_with dmn (js ''.'' @ d) \<or> js_includes blob d) (sr_domains r)
     \<or> rx_test True (sr_keywords r) blob"

definition matchServiceProvider :: "jstr \<Rightarrow> jstr \<Rightarrow> jstr \<Rightarrow> (service_category \<times> jstr) option" where
  "matchServiceProvider fromEmail subject body =
     (let blob = js_toLowerCase (fromEmail @ js '' '' @ subject @ js '' '' @ body);
          dmn = js_toLowerCase (mail_domain fromEmail)
      in map_option (\<lambda>r. (sr_category r, sr_name r)) (find (rule_hit blob dmn) SERVICE_PROVIDER_RULES))"

subsection \<open>Request score\<close>

record calc_score =
  cs_score :: int
  cs_isCalc :: bool
  cs_reasons :: "jstr list"

definition RX_ROUTE1 :: rx where
  "RX_ROUTE1 = sq [alts [rr ''iz'', rr ''ot''], rep_to 2 40 dot, alts [rr ''w'', rr ''do'', lit [8594], ll ''->'']]"
definition RX_ROUTE2 :: rx where
  "RX_ROUTE2 = (let w = Rep True 3 None (Cls False [(1040, 1071), (1072, 1103)])
     in sq [w, star sp, Cls False [(45, 45), (8211, 8211), (8212, 8212), (8594, 8594)], star sp, w])"
definition RX_CARGO :: rx where
  "RX_CARGO = sq [plus1 dg, star sp, alts [rr ''kg'', rr ''t'', lit (ru ''m'' @ [179]), rr ''m3'', rr ''mest'']]"
definition RX_RZD :: rx where
  "RX_RZD = alts [sq [rr ''v'', star (Cls False (space_ranges @ chars (js ''/.-''))), rr ''d''], rr ''wagon'',
     rr ''platform'', rr ''stanci'', rr ''rvd'']"

definition calcRequestScore :: "jstr \<Rightarrow> jstr \<Rightarrow> jstr option \<Rightarrow> calc_score" where
  "calcRequestScore subject body mailboxId =
     (let blob = subject @ js '' '' @ body;
          hits = (if rx_test True CALC_NEGATIVE blob then [(-3, js ''negative_doc'')] else [])
            @ (if rx_test True CALC_POSITIVE blob then [(2, js ''positive_lex'')] else [])
            @ (if rx_test True RX_ROUTE1 blob \<or> rx_test False RX_ROUTE2 blob then [(1, js ''route'')] else [])
            @ (if rx_test True RX_CARGO blob then [(1, js ''cargo_qty'')] else [])
            @ (if mailboxId = Some (js ''rzd-perevoz'') \<and> rx_test True RX_RZD blob then [(1, js ''rzd_lex'')] else []);
          score = sum_list (map fst hits)
      in \<lparr>cs_score = score, cs_isCalc = (2 \<le> score), cs_reasons = map snd hits\<rparr>)"

subsection \<open>Newsletters and the gate\<close>

definition RX_BULK :: rx where "RX_BULK = alts [ll ''bulk'', ll ''list'']"
definition RX_MAILER :: rx where
  "RX_MAILER = alts [ll ''mailchimp'', ll ''sendgrid'', ll ''unisender'', ll ''getsresponse'', ll ''daemon'']"
definition RX_NOREPLY :: rx where
  "RX_NOREPLY = alts [ll ''noreply'', ll ''no-reply'', ll ''mailer-daemon'', ll ''newsletter'', ll ''notify@'',
     ll ''donotreply'']"
definition RX_UNSUB :: rx where "RX_UNSUB = alts [rr ''otpisatxsq'', ll ''unsubscribe'']"
definition RX_PROMO :: rx where
  "RX_PROMO = alts [rr ''otpisatxsq'', ll ''unsubscribe'', rr ''rassylk'', ll ''newsletter'']"
definition RX_PROMO2 :: rx where
  "RX_PROMO2 = alts [rr ''otpisatxsq'', ll ''unsubscribe'', ll ''newsletter'', rr ''rassylk'']"
definition RX_SYSDOM :: rx where
  "RX_SYSDOM = sq [Bol, alts [ll ''accounts.google.com'', ll ''google.com'', ll ''yandex.ru'', ll ''mail.ru''], Eol]"
definition RX_SECURITY :: rx where
  "RX_SECURITY = alts [rr ''bezopasn'', ll ''security'', ll ''verification'', rr ''podtwervden'', rr ''uwedomlen'']"

definition str_or :: "jstr \<Rightarrow> jstr \<Rightarrow> jstr" where
  "str_or a b = (if a = [] then b else a)"

definition looksLikeNewsletter :: "jstr \<Rightarrow> jstr \<Rightarrow> jstr \<Rightarrow> mail_headers \<Rightarrow> bool \<times> jstr" where
  "looksLikeNewsletter fromEmail subject body h =
     (let listId = str_or (headerGet h (js ''list-id'')) (headerGet h (js ''List-Id''));
          listUnsub = str_or (headerGet h (js ''list-unsubscribe'')) (headerGet h (js ''List-Unsubscribe''));
          precedence = js_toLowerCase (str_or (headerGet h (js ''precedence'')) (headerGet h (js ''Precedence'')));
          xmailer = str_or (headerGet h (js ''x-mailer'')) (headerGet h (js ''X-Mailer''));
          calc = cs_isCalc (calcRequestScore subject body None);
          raw = subject @ js '' '' @ body;
          business = rx_test True BUSINESS_MARKERS raw;
          from_addr = js_toLowerCase fromEmail;
          blob = js_toLowerCase raw;
          dmn = mail_domain from_addr
      in if (listId \<noteq> [] \<or> listUnsub \<noteq> []) \<and> \<not> calc then (True, js ''list_headers'')
         else if (listId \<noteq> [] \<or> listUnsub \<noteq> []) \<and> \<not> business then (True, js ''list_headers'')
         else if rx_test False RX_BULK precedence then (True, js ''precedence_bulk'')
         else if rx_test True RX_MAILER xmailer then (True, js ''bulk_mailer'')
         else if rx_test True RX_NOREPLY from_addr \<and> \<not> calc \<and> \<not> business then (True, js ''noreply_from'')
         else if rx_test True RX_NOREPLY from_addr \<and> \<not> calc \<and> rx_test True RX_PROMO raw
         then (True, js ''noreply_promo'')
         else if rx_test False RX_PROMO2 blob \<and> \<not> calc
              \<and> (\<not> rx_test True BUSINESS_MARKERS blob \<or> rx_test False RX_UNSUB blob)
         then (True, js ''unsubscribe_lex'')
         else if rx_test True RX_SYSDOM dmn \<and> rx_test True RX_SECURITY blob then (True, js ''system_notify'')
         else (False, []))"

datatype mail_verdict = Noise jstr | Service jstr

definition preClassifyInboundMail :: "jstr \<Rightarrow> jstr \<Rightarrow> jstr \<Rightarrow> mail_headers \<Rightarrow> bool \<Rightarrow> mail_verdict option" where
  "preClassifyInboundMail fromEmail subject body h hasDealRef =
     (let from_addr = js_toLowerCase fromEmail;
          nl = looksLikeNewsletter from_addr subject body h
      in if fst nl then Some (Noise (snd nl))
         else case matchServiceProvider from_addr subject body of
           None \<Rightarrow> None
         | Some (cat, nm) \<Rightarrow>
             if \<not> hasDealRef \<and> \<not> cs_isCalc (calcRequestScore subject body None)
             then Some (Service (category_name cat @ js '':'' @ nm)) else None)"

subsection \<open>Attachments\<close>

definition not_alnum :: rx where "not_alnum = Cls True [(97, 122), (1072, 1103), (1105, 1105), (48, 57)]"
definition not_letter :: rx where "not_letter = Cls True [(1072, 1103), (97, 122)]"

definition RX_A_CONTRACT :: rx where "RX_A_CONTRACT = alts [rr ''dogowor'', ll ''contract'', rr ''sogla{eni'']"
definition RX_A_PAYMENT :: rx where
  "RX_A_PAYMENT = alts [rr ''platev'', rr ''plat#v'', rr ''platevn'', rr ''poru~en'', ll ''payment'', rr ''kwitanc'',
     sq [Alt Bol not_alnum, rr ''pp'', Alt not_alnum Eol]]"
definition RX_A_INVOICE :: rx where
  "RX_A_INVOICE = alts [sq [rr ''s~'', yo, rr ''t''], ll ''invoice'', rr ''upd'', rr ''s~et-faktur'',
     sq [Alt Bol not_alnum, rr ''sf'', Alt not_alnum Eol], sq [rr ''akt'', Wb]]"
definition RX_A_KP :: rx where
  "RX_A_KP = alts [sq [Alt Bol not_letter, rr ''kp'', Alt not_letter Eol], sq [rr ''ras~'', yo, rr ''t''],
     ll ''offer'', ll ''quote'', rr ''stawk'']"
definition RX_A_CUSTOMS :: rx where
  "RX_A_CUSTOMS = alts [rr ''tamov'', ll ''customs'', rr ''gtd'', sq [Wb, rr ''dt'', Wb], rr ''deklarac'', rr ''sertifik'']"
definition RX_A_TYPE :: rx where
  "RX_A_TYPE = alts [ll ''pdf'', ll ''word'', ll ''excel'', ll ''sheet'', ll ''document'']"
definition RX_A_EXT :: rx where
  "RX_A_EXT = sq [ll ''.'', alts [ll ''pdf'', sq [ll ''doc'', opt (ll ''x'')], sq [ll ''xls'', opt (ll ''x'')], ll ''xls''], Eol]"

definition classifyAttachmentKind :: "jstr \<Rightarrow> jstr \<Rightarrow> attachment_kind" where
  "classifyAttachmentKind filename contentType =
     (let nm = js_toLowerCase filename; ct = js_toLowerCase contentType
      in if rx_test False RX_A_CONTRACT nm then AK_contracts
         else if rx_test True RX_A_PAYMENT nm then AK_payments
         else if rx_test False RX_A_INVOICE nm then AK_invoices
         else if rx_test False RX_A_KP nm then AK_kp
         else if rx_test False RX_A_CUSTOMS nm then AK_customs
         else if rx_test False RX_A_TYPE ct \<or> rx_test True RX_A_EXT nm then AK_client
         else AK_other)"

definition shouldSkipInlineAttachment :: "jstr \<Rightarrow> jstr \<Rightarrow> jstr \<Rightarrow> nat \<Rightarrow> bool" where
  "shouldSkipInlineAttachment filename disposition contentType sz =
     (let cd = js_toLowerCase disposition; ct = js_toLowerCase contentType; nm = js_trim filename
      in (js_includes cd (js ''inline'') \<and> nm = [] \<and> sz < 20000)
         \<or> (rx_test False (sq [Bol, ll ''image/'']) ct \<and> sz < 20000 \<and> nm = []))"

subsection \<open>Laws\<close>

lemmas mail_rx = rr_def ll_def yo_def RX_POST_def RX_FUEL_def RX_GLONASS_def RX_TRACKING_def RX_TELECOM_def
  RX_BANK_def RX_IT_def CALC_POSITIVE_def CALC_NEGATIVE_def BUSINESS_MARKERS_def RX_ROUTE1_def RX_ROUTE2_def
  RX_CARGO_def RX_RZD_def RX_BULK_def RX_MAILER_def RX_NOREPLY_def RX_UNSUB_def RX_PROMO_def RX_PROMO2_def
  RX_SYSDOM_def RX_SECURITY_def not_alnum_def not_letter_def RX_A_CONTRACT_def RX_A_PAYMENT_def
  RX_A_INVOICE_def RX_A_KP_def RX_A_CUSTOMS_def RX_A_TYPE_def RX_A_EXT_def

lemmas mail_eval = mail_rx Let_def rx_eval js_def ru_eval

definition route_hit :: "jstr \<Rightarrow> bool" where
  "route_hit s \<longleftrightarrow> rx_test True RX_ROUTE1 s \<or> rx_test False RX_ROUTE2 s"

text \<open>
  The freight-request score decided by its markers. In every mailbox but the railway one, where the
  gate also scores, a message counts as a request exactly when it has no accounting or newsletter marker
  and either request words, or both a route and a cargo quantity; in the railway mailbox a message with
  such a marker counts only when all four positive markers are present. The score stays within -3 and 5.
\<close>

theorem request_score_decided:
  assumes m: "m = su @ js '' '' @ bo"
  shows "(mb = Some (js ''rzd-perevoz'') \<and> rx_test True CALC_NEGATIVE m \<longrightarrow>
      (cs_isCalc (calcRequestScore su bo mb) \<longleftrightarrow> rx_test True CALC_POSITIVE m \<and> route_hit m
         \<and> rx_test True RX_CARGO m \<and> rx_test True RX_RZD m))
    \<and> (mb \<noteq> Some (js ''rzd-perevoz'') \<longrightarrow>
      (cs_isCalc (calcRequestScore su bo mb) \<longleftrightarrow> \<not> rx_test True CALC_NEGATIVE m
         \<and> (rx_test True CALC_POSITIVE m \<or> route_hit m \<and> rx_test True RX_CARGO m)))
    \<and> -3 \<le> cs_score (calcRequestScore su bo mb) \<and> cs_score (calcRequestScore su bo mb) \<le> 5"
  unfolding calcRequestScore_def Let_def m[symmetric] route_hit_def
  by (cases "rx_test True CALC_NEGATIVE m"; cases "rx_test True CALC_POSITIVE m"; cases "rx_test True RX_CARGO m";
      cases "rx_test True RX_RZD m"; cases "rx_test True RX_ROUTE1 m \<or> rx_test False RX_ROUTE2 m") simp_all

lemma request_score_decided_witness:
  "cs_isCalc (calcRequestScore [] (ru ''tarif'') None) \<longleftrightarrow>
     \<not> rx_test True CALC_NEGATIVE (js '' '' @ ru ''tarif'') \<and> (rx_test True CALC_POSITIVE (js '' '' @ ru ''tarif'')
       \<or> route_hit (js '' '' @ ru ''tarif'') \<and> rx_test True RX_CARGO (js '' '' @ ru ''tarif''))"
  using request_score_decided[of "js '' '' @ ru ''tarif''" "[]" "ru ''tarif''" None] by simp

definition bulk_sender :: "mail_headers \<Rightarrow> bool" where
  "bulk_sender h \<longleftrightarrow>
     rx_test False RX_BULK (js_toLowerCase (str_or (headerGet h (js ''precedence'')) (headerGet h (js ''Precedence''))))
     \<or> rx_test True RX_MAILER (str_or (headerGet h (js ''x-mailer'')) (headerGet h (js ''X-Mailer'')))"

definition list_mail :: "mail_headers \<Rightarrow> bool" where
  "list_mail h \<longleftrightarrow> str_or (headerGet h (js ''list-id'')) (headerGet h (js ''List-Id'')) \<noteq> []
     \<or> str_or (headerGet h (js ''list-unsubscribe'')) (headerGet h (js ''List-Unsubscribe'')) \<noteq> []"

definition system_notice :: "jstr \<Rightarrow> jstr \<Rightarrow> jstr \<Rightarrow> bool" where
  "system_notice a subject body \<longleftrightarrow> rx_test True RX_SYSDOM (mail_domain (js_toLowerCase a))
     \<and> rx_test True RX_SECURITY (js_toLowerCase (subject @ js '' '' @ body))"

lemma newsletter_of_request:
  assumes "cs_isCalc (calcRequestScore su bo None)"
  shows "fst (looksLikeNewsletter a su bo h) \<longleftrightarrow>
    list_mail h \<and> \<not> rx_test True BUSINESS_MARKERS (su @ js '' '' @ bo) \<or> bulk_sender h \<or> system_notice a su bo"
  using assms
  by (simp add: looksLikeNewsletter_def Let_def list_mail_def bulk_sender_def system_notice_def
      split: if_splits)


lemma tarif_is_request: "cs_isCalc (calcRequestScore [] (ru ''tarif'') None)"
  by (simp add: calcRequestScore_def mail_eval)

lemma no_headers [simp]: "headerGet (\<lambda>_. None) k = []"
  by (simp add: headerGet_def)

lemma not_bulk_no_headers: "\<not> list_mail (\<lambda>_. None)" "\<not> bulk_sender (\<lambda>_. None)"
  by (simp_all add: list_mail_def bulk_sender_def str_or_def js_toLowerCase_def mail_eval)


text \<open>
  A request sent from an ordinary mailbox of one of these systems is dropped as a system notice when it
  contains a word like "confirmation": here the body asks for a tariff with confirmation.
\<close>

lemma public_mailbox_request_dropped:
  "cs_isCalc (calcRequestScore (ru ''podtwervden'') (ru ''tarif'') None)
   \<and> fst (looksLikeNewsletter (js ''a@mail.ru'') (ru ''podtwervden'') (ru ''tarif'') (\<lambda>_. None))"
proof -
  have c: "cs_isCalc (calcRequestScore (ru ''podtwervden'') (ru ''tarif'') None)"
    by (simp add: calcRequestScore_def mail_eval)
  have "system_notice (js ''a@mail.ru'') (ru ''podtwervden'') (ru ''tarif'')"
    by (simp add: system_notice_def mail_domain_def js_toLowerCase_def mail_eval)
  then show ?thesis using c newsletter_of_request[OF c] by simp
qed

text \<open>
  \<open>\b\<close> after a Cyrillic letter holds only before an ASCII letter, digit or underscore. The rules that
  write it to end a Russian word (\<open>upd\<close>, \<open>akt\<close>, \<open>mts\<close>, \<open>ppr\<close>) therefore never match the word on its own.
\<close>

lemma lit_append: "lit (u @ v) = foldr (\<lambda>c r. Sq (Cls False [(c, c)]) r) u (lit v)"
  by (simp add: lit_def)

lemma rx_lang_lit:
  "rx_lang False (lit w) = {((p, w @ t), (rev w @ p, t)) |p t. True}"
proof (induction w)
  case Nil
  then show ?case by (auto simp: lit_def Id_def)
next
  case (Cons c w)
  have e: "lit (c # w) = Sq (Cls False [(c, c)]) (lit w)" by (simp add: lit_def)
  have 1: "rx_lang False (Cls False [(c, c)]) = {((p, c # t), (c # p, t)) |p t. True}"
    by (auto simp: cls_has_def in_ranges_def)
  show ?case unfolding e rx_lang.simps(3) 1 Cons by fastforce
qed

lemma word_end_needs_ascii:
  assumes "w \<noteq> []" "\<not> js_word (last w)"
  shows "rx_test False (sq [lit w, Wb]) s \<longleftrightarrow> (\<exists>a b. s = a @ w @ b \<and> at_word b)"
proof -
  have h: "at_word (rev w @ p) = js_word (last w)" for p
    using assms(1) by (cases w rule: rev_cases) (auto simp: at_word_def)
  have "rx_test False (sq [lit w, Wb]) s \<longleftrightarrow>
      (\<exists>a b y. s = a @ b \<and> ((rev a, b), y) \<in> rx_lang False (lit w) O rx_lang False Wb)"
    by (simp add: rx_test_iff)
  also have "\<dots> \<longleftrightarrow> (\<exists>a b. s = a @ w @ b \<and> at_word b)"
    unfolding rx_lang_lit using h assms(2) by fastforce
  finally show ?thesis .
qed

lemma act_without_boundary:
  "\<not> rx_test False (sq [rr ''akt'', Wb]) (ru ''akt'')"
  using word_end_needs_ascii[of "ru ''akt''" "ru ''akt''"]
  by (simp add: mail_eval)

end
