(* ===== verification/PdfSimple.thy ===== *)
theory PdfSimple
  imports JsString
begin

text \<open>
  The PDF writer of \<open>packages/shared/src/pdfSimple.ts\<close>: one page of Helvetica text with an information
  dictionary, a cross-reference table and a trailer. Text is a list of UTF-16 code units; the file is
  built as text and its units are written as Latin-1 bytes. Dates enter as the text \<open>toISOString\<close> gives;
  the layout numbers are integers, as all callers pass.
\<close>

subsection \<open>Lines of text\<close>

text \<open>\<open>[...value]\<close> and \<open>for (const ch of value)\<close> take a surrogate pair as one character.\<close>

fun js_points :: "jstr \<Rightarrow> jstr list" where
  "js_points (h # l # s) =
     (if 55296 \<le> h \<and> h \<le> 56319 \<and> 56320 \<le> l \<and> l \<le> 57343 then [h, l] # js_points s
      else [h] # js_points (l # s))"
| "js_points [c] = [[c]]"
| "js_points [] = []"

definition asciiLine :: "jstr \<Rightarrow> jstr" where
  "asciiLine value = concat (map (\<lambda>ch. if hd ch < 128 then ch else js ''?'') (js_points value))"

definition js_replace_unit :: "nat \<Rightarrow> jstr \<Rightarrow> jstr \<Rightarrow> jstr" where
  "js_replace_unit c r s = concat (map (\<lambda>x. if x = c then r else [x]) s)"

definition pdfEscape :: "jstr \<Rightarrow> jstr" where
  "pdfEscape value =
     js_replace_unit 41 [92, 41] (js_replace_unit 40 [92, 40] (js_replace_unit 92 [92, 92] (asciiLine value)))"

definition hex_unit :: "nat \<Rightarrow> nat" where
  "hex_unit d = (if d < 10 then 48 + d else 55 + d)"

fun show_hex :: "nat \<Rightarrow> jstr" where
  "show_hex n = (if n < 16 then [hex_unit n] else show_hex (n div 16) @ [hex_unit (n mod 16)])"

declare show_hex.simps [simp del]

definition padStart :: "nat \<Rightarrow> nat \<Rightarrow> jstr \<Rightarrow> jstr" where
  "padStart n c s = replicate (n - length s) c @ s"

definition utf16BeHex :: "jstr \<Rightarrow> jstr" where
  "utf16BeHex value = js ''FEFF'' @ concat (map (\<lambda>ch. padStart 4 48 (show_hex (hd ch))) (js_points value))"

subsection \<open>The file\<close>

record text_pdf_options =
  to_lines :: "jstr list"
  to_title :: jstr
  to_generatedAt :: jstr
  to_lineHeight :: "int option"
  to_startY :: "int option"
  to_fontSize :: "int option"

definition the_or :: "int \<Rightarrow> int option \<Rightarrow> int" where
  "the_or d x = (case x of None \<Rightarrow> d | Some v \<Rightarrow> v)"

definition text_op :: "int \<Rightarrow> int \<Rightarrow> int \<Rightarrow> nat \<Rightarrow> jstr \<Rightarrow> jstr" where
  "text_op lineHeight startY fontSize i line =
     (let y = startY - int i * lineHeight
      in if y < 40 then []
         else js ''BT /F1 '' @ show_int fontSize @ js '' Tf 50 '' @ show_int y @ js '' Td ('' @ pdfEscape line @ js '') Tj ET'')"

definition pdf_stream :: "text_pdf_options \<Rightarrow> jstr" where
  "pdf_stream opts =
     (let lineHeight = the_or 22 (to_lineHeight opts);
          startY = the_or 760 (to_startY opts);
          fontSize = the_or 12 (to_fontSize opts);
          lines = map asciiLine (to_lines opts);
          textOps = js_join [10] (filter (\<lambda>s. s \<noteq> [])
            (map (\<lambda>(i, l). text_op lineHeight startY fontSize i l) (enumerate 0 lines)))
      in textOps @ [10])"

definition date_stamp :: "jstr \<Rightarrow> jstr" where
  "date_stamp when = take 15 (filter (\<lambda>c. c \<noteq> 45 \<and> c \<noteq> 58) when)"

definition pdf_objects :: "text_pdf_options \<Rightarrow> jstr list" where
  "pdf_objects opts =
     (let stream = pdf_stream opts
      in [js ''<< /Type /Catalog /Pages 2 0 R >>'',
          js ''<< /Type /Pages /Kids [3 0 R] /Count 1 >>'',
          js ''<< /Type /Page /Parent 2 0 R /MediaBox [0 0 595 842] /Contents 4 0 R /Resources << /Font << /F1 5 0 R >> >> >>'',
          js ''<< /Length '' @ show_nat (length stream) @ js '' >>'' @ [10] @ js ''stream'' @ [10] @ stream @ js ''endstream'',
          js ''<< /Type /Font /Subtype /Type1 /BaseFont /Helvetica >>'',
          js ''<< /Title <'' @ utf16BeHex (take 120 (to_title opts))
            @ js ''> /Creator (AutoLogistics OS) /CreationDate (D:'' @ date_stamp (to_generatedAt opts) @ js ''Z) >>''])"

definition pdf_object :: "nat \<Rightarrow> jstr \<Rightarrow> jstr" where
  "pdf_object n obj = show_nat n @ js '' 0 obj'' @ [10] @ obj @ [10] @ js ''endobj'' @ [10]"

text \<open>The loop over the objects: the file so far and the offsets noted so far.\<close>

fun add_objects :: "nat \<Rightarrow> jstr list \<Rightarrow> jstr \<Rightarrow> nat list \<Rightarrow> jstr \<times> nat list" where
  "add_objects i [] body offsets = (body, offsets)"
| "add_objects i (obj # objs) body offsets =
     add_objects (i + 1) objs (body @ pdf_object (i + 1) obj) (offsets @ [length body])"

definition xref_entry :: "nat \<Rightarrow> jstr" where
  "xref_entry off = padStart 10 48 (show_nat off) @ js '' 00000 n '' @ [10]"

definition buildTextPdf :: "text_pdf_options \<Rightarrow> jstr" where
  "buildTextPdf opts =
     (let objects = pdf_objects opts;
          (body, offsets) = add_objects 0 objects (js ''%PDF-1.4'' @ [10]) [0];
          xrefAt = length body
      in body @ js ''xref'' @ [10] @ js ''0 '' @ show_nat (length objects + 1) @ [10] @ js ''0000000000 65535 f '' @ [10]
           @ concat (map xref_entry (tl offsets))
           @ js ''trailer << /Size '' @ show_nat (length objects + 1) @ js '' /Root 1 0 R /Info 6 0 R >>'' @ [10]
           @ js ''startxref'' @ [10] @ show_nat xrefAt @ [10] @ js ''%%EOF'' @ [10])"

definition pdf_bytes :: "text_pdf_options \<Rightarrow> bytes" where
  "pdf_bytes opts = map word_of_nat (buildTextPdf opts)"

subsection \<open>Contracts\<close>

record contract_pdf_input =
  ci_dealId :: jstr
  ci_clientName :: "jstr option"
  ci_draftMd :: jstr
  ci_generatedAt :: jstr

fun split_lines :: "jstr \<Rightarrow> jstr list" where
  "split_lines [] = [[]]"
| "split_lines (c # s) =
     (if c = 10 then [] # split_lines s
      else if c = 13 \<and> (case s of d # _ \<Rightarrow> d = 10 | [] \<Rightarrow> False) then split_lines s
      else case split_lines s of [] \<Rightarrow> [[c]] | w # ws \<Rightarrow> (c # w) # ws)"

definition js_trimEnd :: "jstr \<Rightarrow> jstr" where
  "js_trimEnd s = rev (dropWhile js_space (rev s))"

definition body_lines :: "jstr \<Rightarrow> jstr list" where
  "body_lines draft =
     (let arr = map js_trimEnd (split_lines draft)
      in take 32 (map snd (filter (\<lambda>(i, l). 0 < length l \<or> (0 < i \<and> 0 < length (arr ! (i - 1)))) (enumerate 0 arr))))"

definition buildContractPdf :: "contract_pdf_input \<Rightarrow> text_pdf_options" where
  "buildContractPdf input =
     (let header = [js ''TRANSINVEST  contract draft'', js ''Deal: '' @ ci_dealId input,
            js ''Client: '' @ js_or (ci_clientName input) (js ''-''), js ''Generated: '' @ ci_generatedAt input, []]
      in \<lparr>to_lines = header @ body_lines (ci_draftMd input),
          to_title = js ''Contract '' @ js_or (ci_clientName input) (ci_dealId input),
          to_generatedAt = ci_generatedAt input, to_lineHeight = Some 16, to_startY = None, to_fontSize = Some 10\<rparr>)"

subsection \<open>Cross references\<close>

definition objects_text :: "nat \<Rightarrow> jstr list \<Rightarrow> jstr" where
  "objects_text i objs = concat (map (\<lambda>(k, obj). pdf_object (k + 1) obj) (enumerate i objs))"

definition object_offsets :: "nat \<Rightarrow> nat \<Rightarrow> jstr list \<Rightarrow> nat list" where
  "object_offsets n i objs = map (\<lambda>k. n + length (objects_text i (take k objs))) [0..<length objs]"

lemma objects_text_simps [simp]:
  "objects_text i [] = []"
  "objects_text i (obj # objs) = pdf_object (i + 1) obj @ objects_text (i + 1) objs"
  by (simp_all add: objects_text_def)

lemma add_objects_eq:
  "add_objects i objs b offs = (b @ objects_text i objs, offs @ object_offsets (length b) i objs)"
proof (induction objs arbitrary: i b offs)
  case Nil
  then show ?case by (simp add: object_offsets_def)
next
  case (Cons obj objs)
  have "object_offsets (length b) i (obj # objs) =
      length b # object_offsets (length (b @ pdf_object (i + 1) obj)) (i + 1) objs"
    by (simp add: object_offsets_def upt_conv_Cons map_Suc_upt[symmetric] del: upt_Suc)
  then show ?case by (simp add: Cons)
qed

lemma object_at_offset:
  "k < length objs \<Longrightarrow>
   starts_with (drop (object_offsets (length b) i objs ! k) (b @ objects_text i objs @ rest)) (pdf_object (i + k + 1) (objs ! k))"
proof (induction objs arbitrary: i k b)
  case (Cons obj objs)
  show ?case
  proof (cases k)
    case 0
    then show ?thesis by (simp add: object_offsets_def upt_conv_Cons del: upt_Suc)
  next
    case (Suc m)
    let ?b = "b @ pdf_object (i + 1) obj"
    have "object_offsets (length b) i (obj # objs) ! k = object_offsets (length ?b) (i + 1) objs ! m"
      using Cons.prems Suc by (simp add: object_offsets_def del: upt_Suc)
    then show ?thesis using Cons.IH[of m ?b "i + 1"] Cons.prems Suc by simp
  qed
qed simp

lemma objects_text_take: "length (objects_text i (take k objs)) \<le> length (objects_text i objs)"
proof (induction objs arbitrary: i k)
  case (Cons obj objs)
  then show ?case by (cases k) simp_all
qed simp

lemma digits_value_pad: "digits_value 10 0 (padStart n 48 (show_nat k)) = Some k"
proof -
  have "digits_value 10 0 (replicate m 48 @ s) = digits_value 10 0 s" for m s
    by (induction m) (simp_all add: digit_val_def js_digit_def)
  then show ?thesis by (simp add: padStart_def digits_value_show)
qed

lemma length_show_nat: "0 < d \<Longrightarrow> n < 10 ^ d \<Longrightarrow> length (show_nat n) \<le> d"
proof (induction d arbitrary: n)
  case (Suc d)
  show ?case
  proof (cases "n < 10")
    case True
    then show ?thesis by (subst show_nat.simps) simp
  next
    case False
    then have "0 < d" using Suc.prems by (cases d) auto
    moreover have "n div 10 < 10 ^ d" using Suc.prems by (simp add: less_mult_imp_div_less mult.commute)
    ultimately have "length (show_nat (n div 10)) \<le> d" using Suc.IH by blast
    then show ?thesis using False by (subst show_nat.simps) simp
  qed
qed simp

lemma length_xref_entry: "n < 10 ^ 10 \<Longrightarrow> length (xref_entry n) = 20"
  using length_show_nat[of 10 n] by (simp add: xref_entry_def padStart_def js_def)

lemma take_xref_entry: "n < 10 ^ 10 \<Longrightarrow> take 10 (xref_entry n @ rest) = padStart 10 48 (show_nat n)"
  using length_show_nat[of 10 n] by (simp add: xref_entry_def padStart_def js_def)

lemma nth_block:
  assumes "\<forall>x \<in> set xs. length (f x) = w" "k < length xs"
  shows "\<exists>r. drop (w * k) (concat (map f xs) @ rest) = f (xs ! k) @ r"
  using assms
proof (induction xs arbitrary: k)
  case (Cons x xs)
  show ?case
  proof (cases k)
    case (Suc m)
    then show ?thesis using Cons.IH[of m] Cons.prems by simp
  qed simp
qed simp

text \<open>
  A reader of the file: the decimal offset in entry \<open>n\<close> of the table that starts at \<open>pos\<close>, whose two
  header lines are nine characters and whose entries are twenty.
\<close>

definition read_xref :: "jstr \<Rightarrow> nat \<Rightarrow> nat \<Rightarrow> nat option" where
  "read_xref file pos n = digits_value 10 0 (take 10 (drop (pos + 9 + 20 * n) file))"

definition xref_ok :: "jstr \<Rightarrow> jstr list \<Rightarrow> nat \<Rightarrow> bool" where
  "xref_ok file objs pos \<longleftrightarrow> starts_with (drop pos file) (js ''xref'' @ [10] @ js ''0 7'' @ [10])
     \<and> (\<exists>pre. file = pre @ js ''startxref'' @ [10] @ show_nat pos @ [10] @ js ''%%EOF'' @ [10])
     \<and> (\<forall>n < length objs. case read_xref file pos (n + 1) of None \<Rightarrow> False
          | Some off \<Rightarrow> starts_with (drop off file) (pdf_object (n + 1) (objs ! n)))"

lemma length_pdf_objects [simp]: "length (pdf_objects opts) = 6"
  by (simp add: pdf_objects_def Let_def)

text \<open>
  C12. The cross-reference table of every file the writer produces is right: the number after
  \<open>startxref\<close> is the position of the table, and for each of the six objects the entry of its number
  holds the position at which that object begins, whatever the text and the title are, as long as the
  file is below ten gigabytes.
\<close>

theorem pdf_xref_points:
  assumes "length (buildTextPdf opts) < 10 ^ 10"
  shows "\<exists>pos. xref_ok (buildTextPdf opts) (pdf_objects opts) pos"
proof -
  define b where "b = js ''%PDF-1.4'' @ [10]"
  define objs where "objs = pdf_objects opts"
  define body where "body = b @ objects_text 0 objs"
  define offs where "offs = object_offsets (length b) 0 objs"
  define head where "head = js ''xref'' @ [10] @ js ''0 7'' @ [10]"
  define first where "first = js ''0000000000 65535 f '' @ [10]"
  define trailer where "trailer = js ''trailer << /Size '' @ show_nat 7 @ js '' /Root 1 0 R /Info 6 0 R >>'' @ [10]"
  define start where "start = js ''startxref'' @ [10] @ show_nat (length body) @ [10] @ js ''%%EOF'' @ [10]"
  have seven: "show_nat 7 = js ''7''" by (subst show_nat.simps) (simp add: js_def)
  have fileq: "buildTextPdf opts = body @ head @ first @ concat (map xref_entry offs) @ trailer @ start"
    by (simp add: buildTextPdf_def add_objects_eq Let_def body_def b_def objs_def offs_def head_def
        first_def trailer_def start_def seven) (simp add: js_def)
  have n: "length objs = 6" "length offs = 6"
    by (simp_all add: objs_def offs_def object_offsets_def)
  have len: "length head = 9" "length first = 20" by (simp_all add: head_def first_def js_def)
  have off_le: "offs ! k < 10 ^ 10" if k: "k < 6" for k
  proof -
    have "offs ! k \<le> length body"
      using k n objects_text_take[of 0 k objs] by (simp add: offs_def object_offsets_def body_def)
    then show ?thesis using assms unfolding fileq by simp
  qed
  have "xref_ok (buildTextPdf opts) objs (length body)"
    unfolding xref_ok_def
  proof (intro conjI allI impI)
    show "starts_with (drop (length body) (buildTextPdf opts)) (js ''xref'' @ [10] @ js ''0 7'' @ [10])"
      unfolding fileq head_def[symmetric] by simp
    show "\<exists>pre. buildTextPdf opts = pre @ js ''startxref'' @ [10] @ show_nat (length body) @ [10] @ js ''%%EOF'' @ [10]"
      unfolding fileq start_def by (metis append.assoc)
    fix k assume "k < length objs"
    then have k: "k < 6" using n by simp
    have "\<forall>x \<in> set offs. length (xref_entry x) = 20"
      using off_le n(2) length_xref_entry by (auto simp: in_set_conv_nth)
    from nth_block[OF this, of k "trailer @ start"] k n(2) obtain r where
      r: "drop (20 * k) (concat (map xref_entry offs) @ trailer @ start) = xref_entry (offs ! k) @ r" by auto
    have "drop (length body + 9 + 20 * (k + 1)) (buildTextPdf opts) =
        drop (20 * k) (concat (map xref_entry offs) @ trailer @ start)"
      unfolding fileq by (simp add: len)
    then have "read_xref (buildTextPdf opts) (length body) (k + 1) = Some (offs ! k)"
      unfolding read_xref_def r by (simp only: take_xref_entry[OF off_le[OF k]] digits_value_pad)
    moreover have "starts_with (drop (offs ! k) (buildTextPdf opts)) (pdf_object (k + 1) (objs ! k))"
      using object_at_offset[of k objs b 0 "head @ first @ concat (map xref_entry offs) @ trailer @ start"]
        k n(1) unfolding fileq body_def by (simp del: drop_append flip: offs_def)
    ultimately show "case read_xref (buildTextPdf opts) (length body) (k + 1) of None \<Rightarrow> False
        | Some off \<Rightarrow> starts_with (drop off (buildTextPdf opts)) (pdf_object (k + 1) (objs ! k))" by simp
  qed
  then show ?thesis unfolding objs_def by blast
qed

text \<open>The empty document as a concrete file: its table is found and its objects are where it says.\<close>

definition empty_doc :: text_pdf_options where
  "empty_doc = \<lparr>to_lines = [], to_title = [], to_generatedAt = [], to_lineHeight = None, to_startY = None,
     to_fontSize = None\<rparr>"

lemma pdf_xref_points_witness:
  "\<exists>pos. xref_ok (buildTextPdf empty_doc) (pdf_objects empty_doc) pos"
proof (rule pdf_xref_points)
  show "length (buildTextPdf empty_doc) < 10 ^ 10"
    by (simp add: buildTextPdf_def add_objects_eq Let_def pdf_objects_def pdf_stream_def empty_doc_def
        objects_text_def object_offsets_def upt_conv_Cons pdf_object_def utf16BeHex_def date_stamp_def
        enumerate_Suc_eq xref_entry_def padStart_def show_nat.simps js_def)
qed

subsection \<open>Text in the file\<close>

text \<open>
  A reader of PDF literal strings: up to the parenthesis that closes depth zero, a backslash taking the
  next character as it is.
\<close>

fun pdf_literal :: "nat \<Rightarrow> jstr \<Rightarrow> (jstr \<times> jstr) option" where
  "pdf_literal d [] = None"
| "pdf_literal d (c # s) =
     (if c = 92 then (case s of [] \<Rightarrow> None
        | e # t \<Rightarrow> map_option (\<lambda>(v, r). (e # v, r)) (pdf_literal d t))
      else if c = 40 then map_option (\<lambda>(v, r). (c # v, r)) (pdf_literal (d + 1) s)
      else if c = 41 then
        (if d = 0 then Some ([], s) else map_option (\<lambda>(v, r). (c # v, r)) (pdf_literal (d - 1) s))
      else map_option (\<lambda>(v, r). (c # v, r)) (pdf_literal d s))"

definition esc_unit :: "nat \<Rightarrow> jstr" where
  "esc_unit c = (if c = 92 \<or> c = 40 \<or> c = 41 then [92, c] else [c])"

lemma pdfEscape_units: "pdfEscape v = concat (map esc_unit (asciiLine v))"
proof -
  have "js_replace_unit 41 [92, 41] (js_replace_unit 40 [92, 40] (js_replace_unit 92 [92, 92] s)) =
      concat (map esc_unit s)" for s
    by (induction s) (simp_all add: js_replace_unit_def esc_unit_def)
  then show ?thesis by (simp add: pdfEscape_def)
qed

lemma pdf_literal_escaped: "pdf_literal 0 (concat (map esc_unit s) @ 41 # rest) = Some (s, rest)"
  by (induction s) (simp_all add: esc_unit_def)

lemma js_points_nonempty: "ch \<in> set (js_points s) \<Longrightarrow> ch \<noteq> [] \<and> (length ch = 2 \<longrightarrow> 128 \<le> hd ch) \<and> length ch \<le> 2"
  by (induction s rule: js_points.induct) (auto split: if_splits)

lemma asciiLine_points: "length (asciiLine v) = length (js_points v) \<and> list_all (\<lambda>c. c < 128) (asciiLine v)"
proof -
  have "length (concat (map (\<lambda>ch. if hd ch < 128 then ch else js ''?'') ps)) = length ps
      \<and> list_all (\<lambda>c. c < 128) (concat (map (\<lambda>ch. if hd ch < 128 then ch else js ''?'') ps))"
    if "\<forall>ch \<in> set ps. ch \<noteq> [] \<and> (length ch = 2 \<longrightarrow> 128 \<le> hd ch) \<and> length ch \<le> 2" for ps :: "jstr list"
    using that
  proof (induction ps)
    case (Cons ch ps)
    then have c: "ch \<noteq> []" "length ch = 2 \<longrightarrow> 128 \<le> hd ch" "length ch \<le> 2" by auto
    have "length ch = 1" if "hd ch < 128"
    proof -
      have "length ch \<noteq> 0" "length ch \<noteq> 2" using c that by auto
      then show ?thesis using c(3) by linarith
    qed
    then have "length (if hd ch < 128 then ch else js ''?'') = 1 \<and> list_all (\<lambda>c. c < 128) (if hd ch < 128 then ch else js ''?'')"
      by (cases ch) (auto simp: js_def)
    then show ?case using Cons by auto
  qed simp
  from this[of "js_points v"] show ?thesis using js_points_nonempty by (auto simp: asciiLine_def)
qed

text \<open>
  No text can leave the string it is drawn in: a PDF reader that reads the escaped line up to its
  closing parenthesis gets back the ASCII rendering of the line and stops exactly at the operator that
  follows, for every text, with one printed character for each character of the text.
\<close>

theorem pdf_text_roundtrip:
  "pdf_literal 0 (pdfEscape v @ 41 # rest) = Some (asciiLine v, rest)
   \<and> length (asciiLine v) = length (js_points v) \<and> list_all (\<lambda>c. c < 128) (asciiLine v)"
  using pdf_literal_escaped asciiLine_points by (simp add: pdfEscape_units)

subsection \<open>Contract pages\<close>

lemma text_op_nonempty: "40 \<le> st - int i * h \<Longrightarrow> text_op h st f i l \<noteq> []"
  by (simp add: text_op_def js_def)

lemma length_body_lines: "length (body_lines d) \<le> 32"
  by (simp add: body_lines_def Let_def)

text \<open>
  Every line of a contract page is drawn: the header and the at most 32 lines taken from the draft fit
  above the bottom margin, so the layout drops none of them. What the draft holds beyond these lines is
  not in the document.
\<close>

theorem contract_lines_drawn:
  "pdf_stream (buildContractPdf c) = js_join [10] (map (\<lambda>(i, l). text_op 16 760 10 i (asciiLine l))
       (enumerate 0 (to_lines (buildContractPdf c)))) @ [10]
   \<and> length (to_lines (buildContractPdf c)) = 5 + length (body_lines (ci_draftMd c))
   \<and> length (body_lines (ci_draftMd c)) \<le> 32"
proof -
  let ?ls = "to_lines (buildContractPdf c)"
  have n: "length ?ls \<le> 37" using length_body_lines[of "ci_draftMd c"] by (simp add: buildContractPdf_def Let_def)
  have "filter (\<lambda>s. s \<noteq> []) (map (\<lambda>(i, l). text_op 16 760 10 i l) (enumerate 0 (map asciiLine ?ls))) =
      map (\<lambda>(i, l). text_op 16 760 10 i l) (enumerate 0 (map asciiLine ?ls))"
  proof (rule filter_True, rule ballI)
    fix x assume "x \<in> set (map (\<lambda>(i, l). text_op 16 760 10 i l) (enumerate 0 (map asciiLine ?ls)))"
    then obtain i l where x: "x = text_op 16 760 10 i l" "(i, l) \<in> set (enumerate 0 (map asciiLine ?ls))" by auto
    then have "i < length ?ls" by (simp add: in_set_enumerate_eq)
    then show "x \<noteq> []" unfolding x(1) using n by (intro text_op_nonempty) simp
  qed
  moreover have "map (\<lambda>(i, l). text_op 16 760 10 i l) (enumerate 0 (map asciiLine ?ls)) =
      map (\<lambda>(i, l). text_op 16 760 10 i (asciiLine l)) (enumerate 0 ?ls)"
    by (rule nth_equalityI) (simp_all add: nth_enumerate_eq)
  ultimately show ?thesis
    using length_body_lines[of "ci_draftMd c"]
    by (simp add: pdf_stream_def Let_def the_or_def buildContractPdf_def)
qed

text \<open>
  The title loses half of every character outside the basic plane: only the first unit of a surrogate
  pair is written. The creation date keeps the letter of the ISO form, which PDF dates do not have.
\<close>

lemma title_drops_low_surrogate:
  "utf16BeHex [55357, 56832] = js ''FEFFD83D'' \<and>
   date_stamp (js ''2026-07-15T10:30:45.123Z'') = js ''20260715T103045''"
  by (simp add: utf16BeHex_def padStart_def show_hex.simps hex_unit_def date_stamp_def js_def)

end
