(* ===== verification/RateLimit.thy ===== *)
theory RateLimit
  imports JsString
begin

text \<open>
  The request limiter and the security headers of \<open>apps/api/src/security.ts\<close>. The environment is the list of
  its variables; a request carries the parts the code reads, a repeated header being joined by Node into one
  string. Time is in milliseconds and numbers from the environment are rationals. The map of buckets is
  explicit state. Logging and the text of the replies are not modelled.
\<close>

type_synonym penv = "(jstr \<times> jstr) list"

definition env_get :: "penv \<Rightarrow> string \<Rightarrow> jstr option" where
  "env_get env name = map_of env (js name)"

definition isProduction :: "penv \<Rightarrow> bool" where
  "isProduction env \<longleftrightarrow> env_get env ''ALO_ENV'' = Some (js ''production'')
     \<or> env_get env ''NODE_ENV'' = Some (js ''production'')"

definition envInt_pos :: "penv \<Rightarrow> string \<Rightarrow> rat \<Rightarrow> rat" where
  "envInt_pos env name fallback =
     (case env_get env name of None \<Rightarrow> fallback
      | Some v \<Rightarrow> (case js_Number v of Num n \<Rightarrow> if 0 < n then n else fallback | _ \<Rightarrow> fallback))"

definition rateLimitMax :: "penv \<Rightarrow> rat" where
  "rateLimitMax env = envInt_pos env ''API_RATE_LIMIT_MAX'' 120"

definition rateLimitWindowMs :: "penv \<Rightarrow> rat" where
  "rateLimitWindowMs env = envInt_pos env ''API_RATE_LIMIT_WINDOW_MS'' 60000"

definition applySecurityHeaders :: "penv \<Rightarrow> (jstr \<times> jstr) list" where
  "applySecurityHeaders env =
     [(js ''X-Content-Type-Options'', js ''nosniff''), (js ''X-Frame-Options'', js ''DENY''),
      (js ''Referrer-Policy'', js ''no-referrer''), (js ''X-DNS-Prefetch-Control'', js ''off''),
      (js ''X-Permitted-Cross-Domain-Policies'', js ''none''),
      (js ''Permissions-Policy'', js ''camera=(), microphone=(), geolocation=()'')]
     @ (if isProduction env
        then [(js ''Strict-Transport-Security'', js ''max-age=15552000; includeSubDomains'')] else [])"

record http_req =
  rq_method :: jstr
  rq_url :: jstr
  rq_xff :: "jstr option"
  rq_internal :: "jstr option"
  rq_authorization :: "jstr option"
  rq_ip :: jstr

record bucket =
  bk_count :: nat
  bk_resetAt :: rat

type_synonym buckets = "jstr \<Rightarrow> bucket option"

definition clientKey :: "http_req \<Rightarrow> jstr" where
  "clientKey req =
     (case rq_xff req of
        Some xf \<Rightarrow> if js_trim xf \<noteq> [] then js_trim (hd (js_split1 44 xf)) else js_or (Some (rq_ip req)) (js ''unknown'')
      | None \<Rightarrow> js_or (Some (rq_ip req)) (js ''unknown''))"

definition live_bucket :: "rat \<Rightarrow> rat \<Rightarrow> bucket option \<Rightarrow> bucket" where
  "live_bucket windowMs now b =
     (case b of None \<Rightarrow> \<lparr>bk_count = 0, bk_resetAt = now + windowMs\<rparr>
      | Some b \<Rightarrow> if bk_resetAt b \<le> now then \<lparr>bk_count = 0, bk_resetAt = now + windowMs\<rparr> else b)"

definition consumeRateLimit :: "penv \<Rightarrow> rat \<Rightarrow> http_req \<Rightarrow> buckets \<Rightarrow> int option \<times> buckets" where
  "consumeRateLimit env now req bs =
     (let key = clientKey req;
          b0 = live_bucket (rateLimitWindowMs env) now (bs key);
          b = b0\<lparr>bk_count := bk_count b0 + 1\<rparr>
      in (if rateLimitMax env < of_nat (bk_count b) then Some (max 1 \<lceil>(bk_resetAt b - now) / 1000\<rceil>) else None,
          bs(key \<mapsto> b)))"

definition resetRateLimitForTests :: "buckets \<Rightarrow> buckets" where
  "resetRateLimitForTests bs = (\<lambda>_. None)"

definition url_path :: "jstr \<Rightarrow> jstr" where
  "url_path url = hd (js_split1 63 url)"

text \<open>The first \<open>onRequest\<close> hook: \<open>Some\<close> seconds to wait when the request is answered with 429.\<close>

definition rate_hook :: "penv \<Rightarrow> rat \<Rightarrow> http_req \<Rightarrow> buckets \<Rightarrow> int option \<times> buckets" where
  "rate_hook env now req bs =
     (if rq_method req = js ''OPTIONS'' then (None, bs)
      else if url_path (rq_url req) = js ''/health'' then (None, bs)
      else consumeRateLimit env now req bs)"

subsection \<open>What the limiter guarantees\<close>

text \<open>A run over requests with their arrival times; \<open>admitted\<close> lists the requests that were let through.\<close>

fun admitted :: "penv \<Rightarrow> buckets \<Rightarrow> (rat \<times> http_req) list \<Rightarrow> (rat \<times> http_req) list" where
  "admitted env bs [] = []"
| "admitted env bs ((now, req) # rs) =
     (let (limited, bs') = rate_hook env now req bs
      in (if limited = None then [(now, req)] else []) @ admitted env bs' rs)"

definition counted :: "http_req \<Rightarrow> bool" where
  "counted req \<longleftrightarrow> rq_method req \<noteq> js ''OPTIONS'' \<and> url_path (rq_url req) \<noteq> js ''/health''"

definition in_span :: "jstr \<Rightarrow> rat \<Rightarrow> rat \<Rightarrow> rat \<times> http_req \<Rightarrow> bool" where
  "in_span key t w x \<longleftrightarrow> counted (snd x) \<and> clientKey (snd x) = key \<and> t \<le> fst x \<and> fst x < t + w"

text \<open>How many more requests of a key a state can admit within the span.\<close>

definition allowance :: "nat \<Rightarrow> rat \<Rightarrow> rat \<Rightarrow> bucket option \<Rightarrow> nat" where
  "allowance m t w b =
     (case b of None \<Rightarrow> 2 * m
      | Some b \<Rightarrow> if t + w \<le> bk_resetAt b then m - bk_count b
                  else if t \<le> bk_resetAt b then (m - bk_count b) + m else 2 * m)"

lemma span_over:
  assumes "sorted (map fst rs)" "\<forall>x \<in> set rs. t + w \<le> fst x"
  shows "filter (in_span key t w) (admitted env bs rs) = []"
proof -
  have "set (admitted env bs rs) \<subseteq> set rs"
  proof (induction rs arbitrary: bs)
    case (Cons x rs)
    then show ?case by (cases x) (auto simp: Let_def case_prod_beta split: if_splits dest: subsetD[OF Cons])
  qed simp
  then show ?thesis using assms(2) by (fastforce simp: filter_empty_conv in_span_def)
qed

lemma le_floor_count: "0 < k \<Longrightarrow> of_nat k \<le> (r :: rat) \<longleftrightarrow> k \<le> nat \<lfloor>r\<rfloor>"
proof -
  assume "0 < k"
  have "of_nat k \<le> r \<longleftrightarrow> int k \<le> \<lfloor>r\<rfloor>" by (simp add: le_floor_iff)
  then show ?thesis using \<open>0 < k\<close> by linarith
qed

lemma admitted_allowance:
  assumes w: "w = rateLimitWindowMs env" "0 < w" and m: "m = nat \<lfloor>rateLimitMax env\<rfloor>"
  shows "sorted (map fst rs) \<Longrightarrow>
    length (filter (in_span key t w) (admitted env bs rs)) \<le> allowance m t w (bs key)"
proof (induction rs arbitrary: bs)
  case (Cons x rs)
  obtain now req where x: "x = (now, req)" by (cases x)
  obtain limited bs' where h: "rate_hook env now req bs = (limited, bs')" by (cases "rate_hook env now req bs")
  have IH: "length (filter (in_span key t w) (admitted env bs' rs)) \<le> allowance m t w (bs' key)"
    using Cons by simp
  show ?case
  proof (cases "t + w \<le> now")
    case True
    then have "\<forall>y \<in> set (x # rs). t + w \<le> fst y" using Cons.prems x by auto
    from span_over[OF Cons.prems this] show ?thesis by simp
  next
    case before: False
    show ?thesis
    proof (cases "counted req \<and> clientKey req = key")
      case False
      have "bs' key = bs key"
        using h False by (auto simp: rate_hook_def counted_def consumeRateLimit_def Let_def split: if_splits)
      moreover have "\<not> in_span key t w (now, req)" using False by (auto simp: in_span_def)
      ultimately show ?thesis using IH h x by simp
    next
      case True
      define b0 where "b0 = live_bucket w now (bs key)"
      have lim: "limited = None \<longleftrightarrow> bk_count b0 + 1 \<le> m"
        and bs': "bs' key = Some (b0\<lparr>bk_count := bk_count b0 + 1\<rparr>)"
        using h True w m le_floor_count[of "bk_count b0 + 1" "rateLimitMax env"]
        by (auto simp: rate_hook_def counted_def consumeRateLimit_def Let_def b0_def)
      have step: "(if limited = None \<and> t \<le> now then 1 else 0) + allowance m t w (bs' key) \<le> allowance m t w (bs key)"
        using before w(2) lim bs'
        by (cases "bs key") (auto simp: allowance_def b0_def live_bucket_def split: if_splits)
      have "length (filter (in_span key t w) (admitted env bs (x # rs))) =
          (if limited = None \<and> t \<le> now then 1 else 0) + length (filter (in_span key t w) (admitted env bs' rs))"
        using h x True before by (simp add: in_span_def)
      then show ?thesis using IH step by linarith
    qed
  qed
qed simp

lemma rateLimitWindowMs_pos [simp]: "0 < rateLimitWindowMs env"
  by (simp add: rateLimitWindowMs_def envInt_pos_def split: option.split numval.split)

lemma rateLimitMax_pos [simp]: "0 < rateLimitMax env"
  by (simp add: rateLimitMax_def envInt_pos_def split: option.split numval.split)

text \<open>
  C11. What the fixed windows give in every sliding window: over any sequence of requests arriving in time
  order, from any state of the buckets, a client is let through at most twice the configured maximum in any
  span of one window length, however the requests of other clients are interleaved.
\<close>

theorem rate_limit_sliding:
  assumes "sorted (map fst rs)" "w = rateLimitWindowMs env"
  shows "length (filter (in_span key t w) (admitted env bs rs)) \<le> 2 * nat \<lfloor>rateLimitMax env\<rfloor>"
proof -
  have "allowance m t w b \<le> 2 * m" for m b
    by (cases b) (auto simp: allowance_def)
  then show ?thesis
    using admitted_allowance[OF assms(2) _ refl assms(1)] assms(2) order_trans by (metis rateLimitWindowMs_pos)
qed

text \<open>
  Two full windows around a reset: with a maximum of one, requests at 59999 and 60000 are both admitted
  and the next one is refused, so the bound is reached.
\<close>

definition demo_req :: http_req where
  "demo_req = \<lparr>rq_method = js ''GET'', rq_url = js ''/deals'', rq_xff = None, rq_internal = None,
     rq_authorization = None, rq_ip = js ''10.0.0.1''\<rparr>"

definition demo_env :: penv where
  "demo_env = [(js ''API_RATE_LIMIT_MAX'', js ''1'')]"

lemma demo_limits: "rateLimitMax demo_env = 1" "rateLimitWindowMs demo_env = 60000"
proof -
  have "js_Number [49] = Num 1"
    by (simp add: js_Number_def js_unsigned_dec_def js_trim_def js_space_def js_def js_digit_def digit_val_def
        fl_of_int[of 1, simplified])
  then show "rateLimitMax demo_env = 1"
    by (simp add: rateLimitMax_def envInt_pos_def env_get_def demo_env_def js_def)
  show "rateLimitWindowMs demo_env = 60000"
    by (simp add: rateLimitWindowMs_def envInt_pos_def env_get_def demo_env_def js_def)
qed

lemma rate_limit_sliding_witness:
  "length (filter (in_span (js ''10.0.0.1'') 0 60000)
     (admitted demo_env (\<lambda>_. None) [(59999, demo_req), (59999, demo_req), (60000, demo_req)])) \<le> 2"
proof -
  have e: "2 * nat \<lfloor>rateLimitMax demo_env\<rfloor> = 2" by (simp add: demo_limits)
  have t: "sorted (map fst [(59999 :: rat, demo_req), (59999, demo_req), (60000, demo_req)])" by simp
  show ?thesis by (rule rate_limit_sliding[OF t demo_limits(2)[symmetric], unfolded e])
qed

text \<open>
  The client is named by a header it writes itself: a sender that puts a fresh value in
  \<open>X-Forwarded-For\<close> for every request is never limited, at any rate and with any maximum of at least one.
\<close>

theorem forged_forwarded_for_unlimited:
  assumes "distinct (map (clientKey \<circ> snd) rs)" "\<forall>x \<in> set rs. bs (clientKey (snd x)) = None"
    and "1 \<le> rateLimitMax env"
  shows "admitted env bs rs = rs"
  using assms(1,2)
proof (induction rs arbitrary: bs)
  case (Cons x rs)
  obtain now req where x: "x = (now, req)" by (cases x)
  define bs' where "bs' = snd (rate_hook env now req bs)"
  have "fst (rate_hook env now req bs) = None"
    using Cons.prems assms(3) x by (simp add: rate_hook_def consumeRateLimit_def Let_def live_bucket_def)
  then have h: "rate_hook env now req bs = (None, bs')"
    by (metis bs'_def prod.collapse)
  have "\<forall>y \<in> set rs. bs' (clientKey (snd y)) = None"
    using Cons.prems x by (auto simp: bs'_def rate_hook_def consumeRateLimit_def Let_def image_iff split: if_splits)
  then show ?case using Cons h x by simp
qed simp

lemma forged_forwarded_for_unlimited_witness:
  "admitted demo_env (\<lambda>_. None) [(0, demo_req\<lparr>rq_xff := Some (js ''1'')\<rparr>), (0, demo_req\<lparr>rq_xff := Some (js ''2'')\<rparr>)] =
     [(0, demo_req\<lparr>rq_xff := Some (js ''1'')\<rparr>), (0, demo_req\<lparr>rq_xff := Some (js ''2'')\<rparr>)]"
  by (rule forged_forwarded_for_unlimited)
    (simp_all add: demo_limits clientKey_def js_trim_def js_space_def js_def)

end
