(* ===== verification/HexText.thy ===== *)
theory HexText
  imports JsString
begin

text \<open>
  Hexadecimal text of buffers: \<open>toString("hex")\<close> and \<open>Buffer.from(s, "hex")\<close>, which stops at the first
  pair that is not two hexadecimal digits.
\<close>

definition hex_lower :: "nat \<Rightarrow> nat" where
  "hex_lower d = (if d < 10 then 48 + d else 87 + d)"

definition to_hex :: "bytes \<Rightarrow> jstr" where
  "to_hex bs = concat (map (\<lambda>b. [hex_lower (unat b div 16), hex_lower (unat b mod 16)]) bs)"

definition hex_digit :: "nat \<Rightarrow> nat option" where
  "hex_digit c = (case digit_val c of Some d \<Rightarrow> if d < 16 then Some d else None | None \<Rightarrow> None)"

fun from_hex :: "jstr \<Rightarrow> bytes" where
  "from_hex (a # b # s) =
     (case (hex_digit a, hex_digit b) of
        (Some x, Some y) \<Rightarrow> word_of_nat (16 * x + y) # from_hex s
      | _ \<Rightarrow> [])"
| "from_hex _ = []"

lemma hex_digit_lower: "d < 16 \<Longrightarrow> hex_digit (hex_lower d) = Some d"
  by (auto simp: hex_digit_def hex_lower_def digit_val_def js_digit_def)

lemma hex_split_byte: "(word_of_nat (16 * (unat b div 16) + unat b mod 16) :: byte) = b"
  by (simp add: mult_div_mod_eq)

lemma from_to_hex_append: "from_hex (to_hex bs @ s) = bs @ from_hex s"
proof (induction bs)
  case (Cons b bs)
  have "unat b div 16 < 16" using unat_byte_less[of b] by (simp add: less_mult_imp_div_less)
  then show ?case using Cons hex_split_byte[of b] by (simp add: to_hex_def hex_digit_lower)
qed (simp add: to_hex_def)

theorem from_to_hex [simp]: "from_hex (to_hex bs) = bs"
  using from_to_hex_append[of bs "[]"] by simp

lemma length_to_hex [simp, len_simps]: "length (to_hex bs) = 2 * length bs"
  by (induction bs) (simp_all add: to_hex_def)

lemma to_hex_Nil_iff [simp]: "to_hex bs = [] \<longleftrightarrow> bs = []"
  by (metis length_0_conv length_to_hex mult_eq_0_iff zero_neq_numeral)


lemma hex_lower_range: "d < 16 \<Longrightarrow> js_digit (hex_lower d) \<or> (97 \<le> hex_lower d \<and> hex_lower d \<le> 102)"
  by (auto simp: hex_lower_def js_digit_def)

lemma to_hex_range: "c \<in> set (to_hex bs) \<Longrightarrow> js_digit c \<or> (97 \<le> c \<and> c \<le> 102)"
proof (induction bs)
  case (Cons b bs)
  have "unat b div 16 < 16" using unat_byte_less[of b] by (simp add: less_mult_imp_div_less)
  then have "js_digit c \<or> 97 \<le> c \<and> c \<le> 102"
    if "c \<in> {hex_lower (unat b div 16), hex_lower (unat b mod 16)}"
    using that hex_lower_range[of "unat b div 16"] hex_lower_range[of "unat b mod 16"] by auto
  moreover have "c \<in> {hex_lower (unat b div 16), hex_lower (unat b mod 16)} \<or> c \<in> set (to_hex bs)"
    using Cons.prems by (auto simp: to_hex_def)
  ultimately show ?case using Cons.IH by blast
qed (simp add: to_hex_def)

end
