(* ===== verification/ApiAuth.thy ===== *)
theory ApiAuth
  imports RateLimit Regex HexText
begin

text \<open>
  Access to the HTTP API: \<open>auth.ts\<close> (roles, passwords, the caller's token, document folders),
  \<open>bootGuard.ts\<close> (what a production start requires), the authentication hook of \<open>app.ts\<close> and the guard of
  the internal routes. Verification of a JSON web token, the password hash function, the tariff
  directory and the random salt are parameters. A thrown error is a value of \<open>boot_error\<close>.
\<close>

datatype auth_role = Director | Manager | Service_role

record request_staff =
  st_id :: "jstr option"
  st_email :: "jstr option"
  st_name :: "jstr option"
  st_role :: auth_role

definition DIRECTOR_ESCALATION_REASONS :: "jstr list" where
  "DIRECTOR_ESCALATION_REASONS = map js [''amount_threshold'', ''margin_or_discount_policy'',
     ''profit_below_minimum'', ''cashflow_gap'', ''legal_must_approve'', ''grey_scheme_hard_block'',
     ''grey_scheme_request'', ''sanctioned_goods'', ''procurement_loss_pattern'']"

subsection \<open>Passwords\<close>

text \<open>\<open>scrypt\<close> with a key length of 64 is a function of the password and the salt text.\<close>

definition hashPassword :: "(jstr \<Rightarrow> jstr \<Rightarrow> bytes) \<Rightarrow> bytes \<Rightarrow> jstr \<Rightarrow> jstr" where
  "hashPassword scrypt random16 password =
     (let salt = to_hex random16; buf = scrypt password salt in salt @ js '':'' @ to_hex buf)"

definition verifyPassword :: "(jstr \<Rightarrow> jstr \<Rightarrow> bytes) \<Rightarrow> jstr \<Rightarrow> jstr \<Rightarrow> bool" where
  "verifyPassword scrypt password stored =
     (case js_split1 58 stored of
        salt # hex # _ \<Rightarrow>
          if salt = [] \<or> hex = [] then False
          else let buf = scrypt password salt; storedBuf = from_hex hex
               in if length buf \<noteq> length storedBuf then False else buf = storedBuf
      | _ \<Rightarrow> False)"

subsection \<open>Tokens, public paths and roles\<close>

definition publicPath :: "jstr \<Rightarrow> bool" where
  "publicPath url \<longleftrightarrow> url_path url = js ''/health'' \<or> url_path url = js ''/auth/login''"

definition bearer :: "jstr option \<Rightarrow> jstr option" where
  "bearer a = (case a of Some s \<Rightarrow> if starts_with s (js ''Bearer '') then Some (drop 7 s) else None | None \<Rightarrow> None)"

definition readInternalToken :: "http_req \<Rightarrow> jstr" where
  "readInternalToken req =
     (case rq_internal req of
        Some h \<Rightarrow> if h \<noteq> [] then h else (case bearer (rq_authorization req) of Some t \<Rightarrow> t | None \<Rightarrow> [])
      | None \<Rightarrow> (case bearer (rq_authorization req) of Some t \<Rightarrow> t | None \<Rightarrow> []))"

text \<open>\<open>None\<close> when the action goes on, the status code when the request is answered.\<close>

definition requireDirector :: "request_staff option \<Rightarrow> nat option" where
  "requireDirector staff =
     (case staff of None \<Rightarrow> None
      | Some s \<Rightarrow> if st_role s = Service_role \<or> st_role s = Director then None else Some 403)"

subsection \<open>Boot guard\<close>

datatype boot_error = NoJwtSecret | AuthOffInProduction | NoInternalToken | MockRatesInProduction
  | NoPartnerChannels | NoOpenAiKey | DefaultDirectorPassword

definition env_word :: "penv \<Rightarrow> string \<Rightarrow> jstr" where
  "env_word env name = js_toLowerCase (js_trim (js_or (env_get env name) []))"

definition envOn :: "penv \<Rightarrow> string \<Rightarrow> bool" where
  "envOn env name \<longleftrightarrow> env_word env name \<in> set (map js [''1'', ''true'', ''yes'', ''on''])"

definition envOff :: "penv \<Rightarrow> string \<Rightarrow> bool" where
  "envOff env name \<longleftrightarrow> env_word env name \<in> set (map js [''0'', ''false'', ''no'', ''off''])"

definition DEV_JWT_FALLBACK :: jstr where
  "DEV_JWT_FALLBACK = js ''dev-transinvest-cabinet-secret''"

definition resolveJwtSecret :: "penv \<Rightarrow> boot_error + jstr" where
  "resolveJwtSecret env =
     (let secret = js_trim (js_or (env_get env ''JWT_SECRET'') [])
      in if secret \<noteq> [] then Inr secret
         else if isProduction env then Inl NoJwtSecret else Inr DEV_JWT_FALLBACK)"

definition cabinetAuthRequired :: "penv \<Rightarrow> boot_error + bool" where
  "cabinetAuthRequired env =
     (let stated = (case env_get env ''CABINET_AUTH_REQUIRED'' of None \<Rightarrow> False | Some v \<Rightarrow> js_trim v \<noteq> [])
      in if stated \<and> envOn env ''CABINET_AUTH_REQUIRED'' then Inr True
         else if stated \<and> envOff env ''CABINET_AUTH_REQUIRED''
         then if isProduction env \<and> \<not> envOn env ''ALLOW_INSECURE_CABINET'' then Inl AuthOffInProduction else Inr False
         else Inr (isProduction env))"

definition emailListConfigured :: "jstr option \<Rightarrow> bool" where
  "emailListConfigured v = (case v of None \<Rightarrow> False | Some s \<Rightarrow> s \<noteq> [] \<and> js_includes s (js ''@''))"

definition hasSupplierEmailChannels :: "penv \<Rightarrow> bool" where
  "hasSupplierEmailChannels env \<longleftrightarrow>
     emailListConfigured (env_get env ''SUPPLIER_QUOTE_EMAILS'')
     \<or> emailListConfigured (env_get env ''PARTNER_QUOTE_EMAILS'')
     \<or> emailListConfigured (env_get env ''SOURCING_QUOTE_EMAILS'')
     \<or> list_ex (\<lambda>(key, val). (starts_with key (js ''SUPPLIER_EMAIL_'') \<or> starts_with key (js ''PARTNER_EMAIL_''))
          \<and> emailListConfigured (Some val)) env"

definition hasHttpPartnerChannels :: "penv \<Rightarrow> bool" where
  "hasHttpPartnerChannels env \<longleftrightarrow>
     list_ex (\<lambda>(key, val). (starts_with key (js ''SUPPLIER_HTTP_'') \<or> starts_with key (js ''PARTNER_HTTP_''))
       \<and> starts_with val (js ''http'')) env"

definition str_ends_with :: "jstr \<Rightarrow> jstr \<Rightarrow> bool" where
  "str_ends_with s p = starts_with (rev s) (rev p)"

text \<open>The tariff directory: its file names, or \<open>None\<close> when it does not exist.\<close>

definition listActiveTariffFiles :: "jstr list option \<Rightarrow> jstr list" where
  "listActiveTariffFiles dir =
     (case dir of None \<Rightarrow> []
      | Some names \<Rightarrow> filter (\<lambda>n. str_ends_with n (js ''.json'') \<and> \<not> starts_with n (js ''example'')
          \<and> \<not> str_ends_with n (js ''.example.json'')) names)"

definition hasFileTariffChannels :: "penv \<Rightarrow> jstr list option \<Rightarrow> bool" where
  "hasFileTariffChannels env dir \<longleftrightarrow> envOn env ''ALLOW_FILE_TARIFFS'' \<and> 0 < length (listActiveTariffFiles dir)"

definition hasPartnerChannels :: "penv \<Rightarrow> jstr list option \<Rightarrow> bool" where
  "hasPartnerChannels env dir \<longleftrightarrow>
     hasSupplierEmailChannels env \<or> hasHttpPartnerChannels env \<or> hasFileTariffChannels env dir"

record boot_report =
  br_production :: bool
  br_cabinetAuthRequired :: bool
  br_email :: bool
  br_http :: bool
  br_fileTariffs :: bool
  br_tariffFiles :: "jstr list"
  br_mockRates :: bool

definition inspectBootConfig :: "penv \<Rightarrow> jstr list option \<Rightarrow> boot_report" where
  "inspectBootConfig env dir =
     \<lparr>br_production = isProduction env,
      br_cabinetAuthRequired = (case cabinetAuthRequired env of Inr b \<Rightarrow> b | Inl _ \<Rightarrow> True),
      br_email = hasSupplierEmailChannels env, br_http = hasHttpPartnerChannels env,
      br_fileTariffs = hasFileTariffChannels env dir, br_tariffFiles = listActiveTariffFiles dir,
      br_mockRates = envOn env ''ALLOW_MOCK_RATES''\<rparr>"

definition bad_director_passwords :: "jstr list" where
  "bad_director_passwords = map js [''TransinvestDir!2026'', ''changeme'', ''password'']"

definition assertProductionReady :: "penv \<Rightarrow> jstr list option \<Rightarrow> boot_error + boot_report" where
  "assertProductionReady env dir =
     (let report = inspectBootConfig env dir
      in if \<not> isProduction env then Inr report
         else case cabinetAuthRequired env of Inl e \<Rightarrow> Inl e
         | Inr _ \<Rightarrow>
         (case resolveJwtSecret env of Inl e \<Rightarrow> Inl e
         | Inr _ \<Rightarrow>
           let token = js_trim (js_or (env_get env ''INTERNAL_API_TOKEN'') [])
           in if token = [] \<or> length token < 16 then Inl NoInternalToken
              else if envOn env ''ALLOW_MOCK_RATES'' then Inl MockRatesInProduction
              else if \<not> hasPartnerChannels env dir then Inl NoPartnerChannels
              else if js_trim (js_or (env_get env ''OPENAI_API_KEY'') []) = [] then Inl NoOpenAiKey
              else if js_or (env_get env ''CABINET_DIRECTOR_PASSWORD'') [] \<in> set bad_director_passwords
              then Inl DefaultDirectorPassword
              else Inr report))"

subsection \<open>The hooks of a request\<close>

record api_app =
  ap_env :: penv
  ap_jwtSecret :: jstr
  ap_requireCabinetAuth :: bool

definition createApp :: "penv \<Rightarrow> boot_error + api_app" where
  "createApp env =
     (case resolveJwtSecret env of Inl e \<Rightarrow> Inl e
      | Inr secret \<Rightarrow>
        (case cabinetAuthRequired env of Inl e \<Rightarrow> Inl e
         | Inr req \<Rightarrow> Inr \<lparr>ap_env = env, ap_jwtSecret = secret, ap_requireCabinetAuth = req\<rparr>))"

text \<open>\<open>index.ts\<close>: the guard runs before the application is created and both may stop the start.\<close>

definition api_start :: "penv \<Rightarrow> jstr list option \<Rightarrow> boot_error + api_app" where
  "api_start env dir =
     (case assertProductionReady env dir of Inl e \<Rightarrow> Inl e | Inr _ \<Rightarrow> createApp env)"

datatype hook_result = Continue "request_staff option" | Answer nat

definition service_staff :: request_staff where
  "service_staff = \<lparr>st_id = None, st_email = None, st_name = None, st_role = Service_role\<rparr>"

type_synonym jwt_verify = "jstr \<Rightarrow> jstr \<Rightarrow> request_staff option"

definition auth_hook :: "jwt_verify \<Rightarrow> api_app \<Rightarrow> http_req \<Rightarrow> hook_result" where
  "auth_hook jwtVerify app req =
     (let url = url_path (rq_url req);
          internal = js_or (env_get (ap_env app) ''INTERNAL_API_TOKEN'') [];
          got = readInternalToken req
      in if rq_method req = js ''OPTIONS'' then Continue None
         else if starts_with url (js ''/internal'') then Continue None
         else if publicPath url then Continue None
         else if internal \<noteq> [] \<and> got = internal then Continue (Some service_staff)
         else if bearer (rq_authorization req) \<noteq> None \<and> got \<noteq> internal
         then (case jwtVerify (ap_jwtSecret app) (js_or (rq_authorization req) []) of
                 Some staff \<Rightarrow> Continue (Some staff) | None \<Rightarrow> Answer 401)
         else if ap_requireCabinetAuth app then Answer 401
         else Continue None)"

definition assertInternalAuth :: "penv \<Rightarrow> http_req \<Rightarrow> nat option" where
  "assertInternalAuth env req =
     (let token = js_or (env_get env ''INTERNAL_API_TOKEN'') []
      in if token = [] then (if isProduction env then Some 401 else None)
         else let got = js_or (rq_internal req) (case bearer (rq_authorization req) of Some t \<Rightarrow> t | None \<Rightarrow> [])
              in if got \<noteq> token then Some 401 else None)"

definition internal_guard :: "penv \<Rightarrow> http_req \<Rightarrow> nat option" where
  "internal_guard env req = (if starts_with (rq_url req) (js ''/internal'') then assertInternalAuth env req else None)"

text \<open>All hooks before a handler, in the order Fastify runs them.\<close>

definition request_hooks :: "jwt_verify \<Rightarrow> api_app \<Rightarrow> rat \<Rightarrow> http_req \<Rightarrow> buckets \<Rightarrow> hook_result \<times> buckets" where
  "request_hooks jwtVerify app now req bs =
     (let (limited, bs') = rate_hook (ap_env app) now req bs
      in (case limited of Some _ \<Rightarrow> Answer 429
          | None \<Rightarrow> (case auth_hook jwtVerify app req of
               Answer c \<Rightarrow> Answer c
             | Continue staff \<Rightarrow> (case internal_guard (ap_env app) req of
                  Some c \<Rightarrow> Answer c | None \<Rightarrow> Continue staff)), bs'))"

subsection \<open>Document folders\<close>

datatype document_folder = F_kp | F_contracts | F_invoices | F_customs | F_client | F_other

definition DOCUMENT_FOLDERS :: "(jstr \<times> document_folder) list" where
  "DOCUMENT_FOLDERS = [(js ''kp'', F_kp), (js ''contracts'', F_contracts), (js ''invoices'', F_invoices),
     (js ''customs'', F_customs), (js ''client'', F_client), (js ''other'', F_other)]"

definition yo_e :: rx where "yo_e = Cls False [(1077, 1077), (1105, 1105)]"

definition RX_F_KP :: rx where
  "RX_F_KP = sq [Wb, alts [lit (js ''kp''), lit (js ''quote''), lit (js ''offer''),
     sq [lit (ru ''ras~''), yo_e, lit (ru ''t'')], lit (ru ''kommer~'')]]"
definition RX_F_CONTRACT :: rx where
  "RX_F_CONTRACT = sq [Wb, alts [lit (js ''contract''), lit (ru ''dogowor''), lit (ru ''sogla{en'')]]"
definition RX_F_INVOICE :: rx where
  "RX_F_INVOICE = sq [Wb, alts [lit (js ''invoice''), lit (ru ''inwojs''), sq [lit (ru ''s~''), yo_e, lit (ru ''t'')]]]"
definition RX_F_CUSTOMS :: rx where
  "RX_F_CUSTOMS = sq [Wb, alts [lit (js ''customs''), lit (js ''hs''), lit (js ''cert''), lit (ru ''tamov''),
     lit (ru ''sertif''), lit (ru ''dt''), lit (ru ''gtd'')]]"
definition RX_F_CLIENT :: rx where
  "RX_F_CLIENT = sq [Wb, alts [lit (js ''client''), lit (ru ''klient'')]]"

definition folderFromKind :: "jstr option \<Rightarrow> jstr option \<Rightarrow> document_folder" where
  "folderFromKind kind filename =
     (let k = js_toLowerCase (js_or kind []); n = js_toLowerCase (js_or filename []); blob = k @ js '' '' @ n
      in if rx_test True RX_F_KP blob \<or> k = js ''kp'' then F_kp
         else if rx_test True RX_F_CONTRACT blob \<or> k = js ''contracts'' then F_contracts
         else if rx_test True RX_F_INVOICE blob \<or> k = js ''invoices'' then F_invoices
         else if rx_test True RX_F_CUSTOMS blob \<or> k = js ''customs'' then F_customs
         else if rx_test True RX_F_CLIENT blob \<or> k = js ''client'' then F_client
         else F_other)"

record attachment_meta =
  am_deal_id :: "jstr option"
  am_filename :: "jstr option"
  am_kind :: "jstr option"
  am_folder :: "jstr option"

definition folder_name :: "document_folder \<Rightarrow> jstr" where
  "folder_name f = js (case f of F_kp \<Rightarrow> ''kp'' | F_contracts \<Rightarrow> ''contracts'' | F_invoices \<Rightarrow> ''invoices''
     | F_customs \<Rightarrow> ''customs'' | F_client \<Rightarrow> ''client'' | F_other \<Rightarrow> ''other'')"

definition normalizeFolder :: "jstr option \<Rightarrow> document_folder" where
  "normalizeFolder value =
     (let v = js_toLowerCase (js_or value [])
      in case map_of DOCUMENT_FOLDERS v of Some f \<Rightarrow> f | None \<Rightarrow> folderFromKind value None)"

definition withFolder :: "attachment_meta \<Rightarrow> jstr option \<Rightarrow> attachment_meta" where
  "withFolder att dealId =
     (let folder = normalizeFolder (Some (js_or (am_folder att) (folder_name (folderFromKind (am_kind att) (am_filename att)))))
      in att\<lparr>am_deal_id := (case am_deal_id att of Some d \<Rightarrow> if d = [] then dealId else Some d | None \<Rightarrow> dealId),
             am_folder := Some (folder_name folder)\<rparr>)"

text \<open>The attachments of a deal's metadata: entries that are not objects are dropped.\<close>

definition listDealAttachments :: "attachment_meta option list option \<Rightarrow> jstr \<Rightarrow> attachment_meta list" where
  "listDealAttachments attachments dealId =
     (case attachments of None \<Rightarrow> []
      | Some raw \<Rightarrow> map (\<lambda>att. withFolder att (Some dealId)) (List.map_filter id raw))"

subsection \<open>Laws\<close>

lemma hd_split_prefix: "\<exists>r. s = hd (js_split1 c s) @ r"
proof (induction s)
  case (Cons x s)
  then obtain r where r: "s = hd (js_split1 c s) @ r" by blast
  show ?case
  proof (cases "x = c")
    case False
    have "hd (js_split1 c (x # s)) = x # hd (js_split1 c s)"
      using False js_split1_nonempty[of c s] by (simp split: list.split)
    then show ?thesis using r by (metis append_Cons)
  qed simp
qed simp

lemma url_path_prefix: "starts_with (url_path url) p \<Longrightarrow> starts_with url p"
  using hd_split_prefix[of url 63] by (metis append.assoc starts_with_iff url_path_def)

lemma trimmed_length: "length (js_trim s) \<le> length s"
proof -
  have "length (dropWhile js_space (rev (dropWhile js_space s))) \<le> length (dropWhile js_space s)"
    using length_dropWhile_le[of js_space "rev (dropWhile js_space s)"] by simp
  then show ?thesis using length_dropWhile_le[of js_space s] by (simp add: js_trim_def)
qed

lemma production_start:
  assumes "api_start env dir = Inr app" "isProduction env"
  shows "\<exists>token. env_get env ''INTERNAL_API_TOKEN'' = Some token \<and> 16 \<le> length token"
    and "ap_env app = env" "ap_jwtSecret app = js_trim (js_or (env_get env ''JWT_SECRET'') [])" "ap_jwtSecret app \<noteq> []"
    and "\<not> envOn env ''ALLOW_INSECURE_CABINET'' \<Longrightarrow> ap_requireCabinetAuth app"
proof -
  let ?t = "js_or (env_get env ''INTERNAL_API_TOKEN'') []"
  have ready: "\<exists>r. assertProductionReady env dir = Inr r" and app: "createApp env = Inr app"
    using assms(1) by (auto simp: api_start_def split: sum.splits)
  have "16 \<le> length (js_trim ?t)"
    using ready assms(2) by (auto simp: assertProductionReady_def Let_def split: sum.splits if_splits)
  then have t: "16 \<le> length ?t" using trimmed_length[of ?t] by linarith
  then show "\<exists>token. env_get env ''INTERNAL_API_TOKEN'' = Some token \<and> 16 \<le> length token"
    by (cases "env_get env ''INTERNAL_API_TOKEN''") (auto simp: js_or_def split: if_splits)
  show "ap_env app = env" "ap_jwtSecret app = js_trim (js_or (env_get env ''JWT_SECRET'') [])" "ap_jwtSecret app \<noteq> []"
    using app assms(2) by (auto simp: createApp_def resolveJwtSecret_def Let_def split: sum.splits if_splits)
  show "\<not> envOn env ''ALLOW_INSECURE_CABINET'' \<Longrightarrow> ap_requireCabinetAuth app"
    using app assms(2) by (auto simp: createApp_def cabinetAuthRequired_def Let_def split: sum.splits if_splits)
qed

lemma readInternalToken_or:
  "readInternalToken req = js_or (rq_internal req) (case bearer (rq_authorization req) of Some t \<Rightarrow> t | None \<Rightarrow> [])"
  by (simp add: readInternalToken_def js_or_def split: option.split)

text \<open>
  C3. Who gets in on a production server. When the boot guard lets the API start in production and the
  emergency switch is off, a request reaches a handler only as a CORS preflight, on one of the two public
  paths, with the configured internal token, which has at least 16 characters, or with a web token that
  verifies under the configured secret and whose staff identity the handler then sees; the internal routes
  accept only the internal token.
\<close>

theorem production_admission:
  assumes "api_start env dir = Inr app" "isProduction env" "\<not> envOn env ''ALLOW_INSECURE_CABINET''"
    and "fst (request_hooks jwtVerify app now req bs) = Continue staff"
  shows "(\<exists>token. env_get env ''INTERNAL_API_TOKEN'' = Some token \<and> 16 \<le> length token
        \<and> readInternalToken req = token)
    \<or> \<not> starts_with (rq_url req) (js ''/internal'') \<and>
        (rq_method req = js ''OPTIONS'' \<or> publicPath (url_path (rq_url req))
         \<or> (\<exists>s. staff = Some s \<and> jwtVerify (js_trim (js_or (env_get env ''JWT_SECRET'') [])) (js_or (rq_authorization req) []) = Some s))"
proof -
  note start = production_start[OF assms(1,2)]
  obtain token where tok: "env_get env ''INTERNAL_API_TOKEN'' = Some token" "16 \<le> length token"
    using start(1) by blast
  have tn: "token \<noteq> []" using tok(2) by auto
  have hook: "auth_hook jwtVerify app req = Continue staff" and guard: "internal_guard env req = None"
    using assms(4) start(2)
    by (auto simp: request_hooks_def Let_def case_prod_beta split: option.splits hook_result.splits)
  show ?thesis
  proof (cases "starts_with (rq_url req) (js ''/internal'')")
    case True
    then have "readInternalToken req = token"
      using guard tok(1) tn
      by (simp add: internal_guard_def assertInternalAuth_def Let_def readInternalToken_or js_or_def split: if_splits)
    then show ?thesis using tok by blast
  next
    case False
    then have "\<not> starts_with (url_path (rq_url req)) (js ''/internal'')" using url_path_prefix by blast
    then show ?thesis
      using hook tok tn False start(2,3) start(5)[OF assms(3)]
      by (auto simp: auth_hook_def Let_def js_or_def split: if_splits option.splits)
  qed
qed

definition prod_env :: penv where
  "prod_env = [(js ''ALO_ENV'', js ''production''), (js ''JWT_SECRET'', js ''s3cr3t''),
     (js ''INTERNAL_API_TOKEN'', js ''0123456789abcdef''), (js ''SUPPLIER_QUOTE_EMAILS'', js ''a@b''),
     (js ''OPENAI_API_KEY'', js ''k'')]"

lemmas boot_eval = env_get_def envOn_def envOff_def env_word_def js_text_eval

lemma production_admission_witness:
  "\<exists>app. api_start prod_env None = Inr app \<and>
     fst (request_hooks (\<lambda>_ _. None) app 0 (demo_req\<lparr>rq_internal := Some (js ''0123456789abcdef'')\<rparr>) (\<lambda>_. None))
       = Continue (Some service_staff)
     \<and> (\<exists>token. env_get prod_env ''INTERNAL_API_TOKEN'' = Some token \<and> 16 \<le> length token
          \<and> readInternalToken (demo_req\<lparr>rq_internal := Some (js ''0123456789abcdef'')\<rparr>) = token)"
proof -
  let ?req = "demo_req\<lparr>rq_internal := Some (js ''0123456789abcdef'')\<rparr>"
  define app where "app = \<lparr>ap_env = prod_env, ap_jwtSecret = js ''s3cr3t'', ap_requireCabinetAuth = True\<rparr>"
  have p: "isProduction prod_env" by (simp add: isProduction_def prod_env_def env_get_def)
  have i: "\<not> envOn prod_env ''ALLOW_INSECURE_CABINET''" by (simp add: prod_env_def boot_eval)
  have g: "env_get prod_env ''JWT_SECRET'' = Some (js ''s3cr3t'')"
    "env_get prod_env ''INTERNAL_API_TOKEN'' = Some (js ''0123456789abcdef'')"
    "env_get prod_env ''OPENAI_API_KEY'' = Some (js ''k'')" "env_get prod_env ''CABINET_AUTH_REQUIRED'' = None"
    "env_get prod_env ''CABINET_DIRECTOR_PASSWORD'' = None" "env_get prod_env ''SUPPLIER_QUOTE_EMAILS'' = Some (js ''a@b'')"
    by (simp_all add: prod_env_def env_get_def js_def)
  have m: "\<not> envOn prod_env ''ALLOW_MOCK_RATES''" by (simp add: prod_env_def boot_eval)
  have ch: "hasPartnerChannels prod_env None"
    by (simp add: hasPartnerChannels_def hasSupplierEmailChannels_def emailListConfigured_def g) (simp add: js_def)
  have j: "resolveJwtSecret prod_env = Inr (js ''s3cr3t'')"
    by (simp add: resolveJwtSecret_def g js_or_def Let_def) (simp add: js_text_eval)
  have c: "cabinetAuthRequired prod_env = Inr True" by (simp add: cabinetAuthRequired_def g p)
  have "assertProductionReady prod_env None = Inr (inspectBootConfig prod_env None)"
    by (simp add: assertProductionReady_def Let_def p c j m ch g js_or_def) (simp add: js_text_eval bad_director_passwords_def)
  then have s: "api_start prod_env None = Inr app"
    by (simp add: api_start_def createApp_def j c app_def)
  have r: "rateLimitMax prod_env = 120" by (simp add: rateLimitMax_def envInt_pos_def prod_env_def boot_eval)
  have u: "url_path (rq_url ?req) = js ''/deals''" "rq_method ?req \<noteq> js ''OPTIONS''"
    by (simp_all add: url_path_def demo_req_def js_def)
  have n: "\<not> publicPath (js ''/deals'')" "js ''/deals'' \<noteq> js ''/health''" "\<not> starts_with (js ''/deals'') (js ''/internal'')"
    by (simp_all add: publicPath_def url_path_def js_def)
  have t: "readInternalToken ?req = js ''0123456789abcdef''" by (simp add: readInternalToken_def js_def)
  have a: "auth_hook (\<lambda>_ _. None) app ?req = Continue (Some service_staff)"
    unfolding auth_hook_def Let_def u(1) t using u(2) n by (simp add: app_def g js_or_def) (simp add: js_def)
  have ig: "internal_guard prod_env ?req = None"
    using n(3) by (simp add: internal_guard_def demo_req_def)
  have rh: "fst (rate_hook prod_env 0 ?req (\<lambda>_. None)) = None"
    by (simp add: rate_hook_def consumeRateLimit_def Let_def live_bucket_def r)
  have h: "fst (request_hooks (\<lambda>_ _. None) app 0 ?req (\<lambda>_. None)) = Continue (Some service_staff)"
    using a ig rh by (simp add: request_hooks_def Let_def case_prod_beta) (simp add: app_def)
  have "(\<exists>token. env_get prod_env ''INTERNAL_API_TOKEN'' = Some token \<and> 16 \<le> length token \<and> readInternalToken ?req = token)
    \<or> \<not> starts_with (rq_url ?req) (js ''/internal'') \<and> (rq_method ?req = js ''OPTIONS'' \<or> publicPath (url_path (rq_url ?req))
      \<or> (\<exists>s. Some service_staff = Some s \<and> (\<lambda>_ _. None) (js_trim (js_or (env_get prod_env ''JWT_SECRET'') [])) (js_or (rq_authorization ?req) []) = Some s))"
    by (rule production_admission[OF s p i h])
  then show ?thesis using s h u n(1) by auto
qed

lemma colon_not_hex: "58 \<notin> set (to_hex bs)"
  using to_hex_range[of 58 bs] by (auto simp: js_digit_def)

lemma verify_hash:
  assumes "random16 \<noteq> []" "\<forall>p s. length (scrypt p s) = 64"
  shows "verifyPassword scrypt p' (hashPassword scrypt random16 p) \<longleftrightarrow> scrypt p' (to_hex random16) = scrypt p (to_hex random16)"
proof -
  have "js_split1 58 (hashPassword scrypt random16 p) = [to_hex random16, to_hex (scrypt p (to_hex random16))]"
    by (simp add: hashPassword_def Let_def js_def js_split1_skip colon_not_hex js_split1_none)
  moreover have "scrypt p (to_hex random16) \<noteq> []" using assms(2) by (metis list.size(3) zero_neq_numeral)
  ultimately show ?thesis using assms by (simp add: verifyPassword_def Let_def)
qed

text \<open>
  Stored passwords: the hash of a password is accepted for exactly those passwords the key derivation
  does not tell apart from it under the same salt, so the right password is always accepted.
\<close>

theorem password_accepted_iff:
  assumes "random16 \<noteq> []" "\<forall>p s. length (scrypt p s) = 64"
  shows "verifyPassword scrypt p' (hashPassword scrypt random16 p) \<longleftrightarrow> scrypt p' (to_hex random16) = scrypt p (to_hex random16)"
  by (rule verify_hash[OF assms])

definition toy_kdf :: "jstr \<Rightarrow> jstr \<Rightarrow> bytes" where
  "toy_kdf p s = take 64 (map word_of_nat p @ replicate 64 0)"

lemma password_accepted_iff_witness:
  "verifyPassword toy_kdf (js ''pw'') (hashPassword toy_kdf [7] (js ''pw'')) \<and>
   \<not> verifyPassword toy_kdf (js ''px'') (hashPassword toy_kdf [7] (js ''pw''))"
proof -
  have l: "\<forall>p s. length (toy_kdf p s) = 64" by (auto simp: toy_kdf_def)
  have ne: "toy_kdf (js ''px'') s \<noteq> toy_kdf (js ''pw'') s" for s by (simp add: toy_kdf_def js_def)
  show ?thesis
    by (simp only: password_accepted_iff[OF list.distinct(2) l] ne simp_thms)
qed

lemma lower_not_word: "\<not> js_word c \<Longrightarrow> \<not> js_word (js_lower_unit c)"
  by (auto simp: js_word_def js_letter_def js_digit_def js_lower_unit_def split: if_splits)

lemma boundary_first_fails:
  assumes "rx_ok r" "\<forall>c \<in> set s. \<not> js_word c"
  shows "\<not> rx_test i (Sq Wb r) s"
proof -
  have "at_word u \<longleftrightarrow> False" if "set u \<subseteq> set s" for u
    using that assms(2) by (cases u) (auto simp: at_word_def)
  then have "\<not> (s = a @ b \<and> ((rev a, b), y) \<in> rx_lang i (Sq Wb r))" for a b y by fastforce
  then show ?thesis using rx_test_iff[of "Sq Wb r" i s] assms(1) by auto
qed

text \<open>
  A document whose kind and file name are written without ASCII letters, digits and underscores is
  always filed under "other": the word boundary in front of the Russian words never holds there, so a
  contract or an invoice with a Russian name is not recognised.
\<close>

theorem russian_documents_unfiled:
  assumes "\<forall>c \<in> set (js_or kind []) \<union> set (js_or filename []). \<not> js_word c"
  shows "folderFromKind kind filename = F_other"
proof -
  define blob where "blob = js_toLowerCase (js_or kind []) @ js '' '' @ js_toLowerCase (js_or filename [])"
  have b: "\<forall>c \<in> set blob. \<not> js_word c"
  proof
    fix c assume "c \<in> set blob"
    then have "c = 32 \<or> (\<exists>d \<in> set (js_or kind []) \<union> set (js_or filename []). c = js_lower_unit d)"
      by (auto simp: blob_def js_toLowerCase_def js_def)
    then show "\<not> js_word c"
    proof
      assume "c = 32"
      then show ?thesis by (simp add: js_word_def js_letter_def js_digit_def)
    next
      assume "\<exists>d \<in> set (js_or kind []) \<union> set (js_or filename []). c = js_lower_unit d"
      then show ?thesis using assms lower_not_word by blast
    qed
  qed
  have no: "\<not> rx_test True (sq (Wb # r # rs)) blob" if "rx_ok (sq (r # rs))" for r rs
    using boundary_first_fails[OF that b, of True] by simp
  have ok: "\<not> rx_test True RX_F_KP blob" "\<not> rx_test True RX_F_CONTRACT blob" "\<not> rx_test True RX_F_INVOICE blob"
    "\<not> rx_test True RX_F_CUSTOMS blob" "\<not> rx_test True RX_F_CLIENT blob"
    unfolding RX_F_KP_def RX_F_CONTRACT_def RX_F_INVOICE_def RX_F_CUSTOMS_def RX_F_CLIENT_def
    by (rule no, simp add: yo_e_def)+
  have kw: "js_toLowerCase (js_or kind []) \<noteq> js w" if "list_ex js_word (js w)" for w
  proof
    assume e: "js_toLowerCase (js_or kind []) = js w"
    have "set (js w) \<subseteq> set blob" unfolding blob_def e by auto
    then show False using that b by (auto simp: list_ex_iff)
  qed
  have "js_toLowerCase (js_or kind []) \<noteq> js ''kp''" "js_toLowerCase (js_or kind []) \<noteq> js ''contracts''"
    "js_toLowerCase (js_or kind []) \<noteq> js ''invoices''" "js_toLowerCase (js_or kind []) \<noteq> js ''customs''"
    "js_toLowerCase (js_or kind []) \<noteq> js ''client''"
    by (rule kw, simp add: js_def js_word_def js_letter_def)+
  then show ?thesis using ok by (simp add: folderFromKind_def Let_def flip: blob_def)
qed

lemma russian_documents_unfiled_witness:
  "folderFromKind (Some (ru ''dogowor'')) (Some (ru ''s~et na oplatu'')) = F_other"
  by (rule russian_documents_unfiled) (simp add: ru_eval js_or_def js_word_def js_letter_def js_digit_def)

lemma russian_contract_pdf_unfiled: "folderFromKind None (Some (ru ''dogowor'' @ js ''.pdf'')) = F_other"
  by (simp add: folderFromKind_def js_toLowerCase_def Let_def RX_F_KP_def RX_F_CONTRACT_def RX_F_INVOICE_def
      RX_F_CUSTOMS_def RX_F_CLIENT_def yo_e_def rx_eval js_def ru_eval)

subsection \<open>Attachments of a deal\<close>

lemma folder_name_lookup: "map_of DOCUMENT_FOLDERS (js_toLowerCase (folder_name f)) = Some f"
  by (cases f) (simp_all add: DOCUMENT_FOLDERS_def folder_name_def js_text_eval)

lemma folder_name_nonempty: "folder_name f \<noteq> []"
  by (cases f) (simp_all add: folder_name_def js_def)

lemma normalizeFolder_name [simp]: "normalizeFolder (Some (folder_name f)) = f"
  using folder_name_lookup[of f] folder_name_nonempty[of f]
  by (simp add: normalizeFolder_def Let_def js_or_def)

lemma withFolder_idem: "withFolder (withFolder a d) d = withFolder a d"
proof -
  have 1: "am_folder (withFolder a d) = Some (folder_name (normalizeFolder (Some (js_or (am_folder a)
      (folder_name (folderFromKind (am_kind a) (am_filename a)))))))"
    by (simp add: withFolder_def Let_def)
  have 2: "am_deal_id (withFolder a d) = (case am_deal_id a of Some x \<Rightarrow> if x = [] then d else Some x | None \<Rightarrow> d)"
    by (simp add: withFolder_def Let_def)
  have 3: "js_or (Some (folder_name f)) x = folder_name f" for f x
    using folder_name_nonempty[of f] by (simp add: js_or_def)
  show ?thesis
    by (subst (1) withFolder_def) (simp add: Let_def 1 2 3 split: option.split)
qed

text \<open>
  The listed attachments of a deal are well typed: each carries the name of one of the six folders,
  and passing one through the classification again changes nothing.
\<close>

theorem attachments_well_filed:
  "list_all (\<lambda>a. am_folder a \<in> Some ` fst ` set DOCUMENT_FOLDERS \<and> withFolder a (Some dealId) = a)
     (listDealAttachments attachments dealId)"
proof -
  have "am_folder (withFolder a d) \<in> Some ` fst ` set DOCUMENT_FOLDERS" for a d
  proof -
    obtain f where "am_folder (withFolder a d) = Some (folder_name f)" by (simp add: withFolder_def Let_def)
    then show ?thesis by (cases f) (simp_all add: DOCUMENT_FOLDERS_def folder_name_def)
  qed
  then show ?thesis
    by (auto simp: listDealAttachments_def list_all_iff withFolder_idem split: option.split)
qed

end
