(* ===== verification/Deals.thy ===== *)
theory Deals
  imports SharedTypes ApiAuth
begin

text \<open>
  Deals and escalations of the API (\<open>routes/deals.ts\<close>, \<open>routes/escalations.ts\<close>) over the tables they use.
  A table is a list of rows in insertion order; a database error inside a transaction leaves the state as it
  was and answers 500. Generated identifiers and the current time are arguments. The JSON columns no modelled
  operation reads are left out of the rows; of a deal's metadata the fields the handlers use are kept.
  Validation of bodies by zod is represented by the validated body. The outbound queue is the list of jobs
  added; whether it takes an identifier is a parameter of the operations that add to it.
\<close>

subsection \<open>Tables\<close>

record deal_meta =
  dm_kp_hold :: bool
  dm_pending :: "jstr list option"
  dm_approved_at :: "int option"
  dm_rfq_status :: "jstr option"

record deal =
  d_id :: jstr
  d_telegram :: bool
  d_tg_chat_id :: "int option"
  d_tg_user_id :: "int option"
  d_client_name :: "jstr option"
  d_status :: deal_status
  d_previous :: "deal_status option"
  d_takeover :: bool
  d_paused :: bool
  d_escalate :: bool
  d_offer_price :: rat
  d_meta :: deal_meta
  d_updated_at :: int
  d_closed_at :: "int option"

datatype esc_status = Esc_pending | Esc_approved | Esc_rejected | Esc_resolved

record escalation =
  e_id :: jstr
  e_deal_id :: jstr
  e_reason :: jstr
  e_summary :: jstr
  e_recommendation :: "jstr option"
  e_needed_decision :: "jstr option"
  e_status :: esc_status
  e_manager_note :: "jstr option"
  e_created_at :: int
  e_resolved_at :: "int option"

datatype direction = Inbound | Outbound | System_msg

record message =
  m_deal_id :: jstr
  m_chat_id :: "int option"
  m_tg_message_id :: "int option"
  m_direction :: direction
  m_sender :: jstr
  m_text :: jstr
  m_created_at :: int

record tg_job =
  j_id :: jstr
  j_chat_id :: int
  j_text :: jstr
  j_deal_id :: jstr

record api_db =
  db_deals :: "deal list"
  db_escs :: "escalation list"
  db_msgs :: "message list"
  db_jobs :: "tg_job list"
  db_events :: "(jstr \<times> jstr) list"

definition deal_by_id :: "jstr \<Rightarrow> api_db \<Rightarrow> deal option" where
  "deal_by_id i db = find (\<lambda>d. d_id d = i) (db_deals db)"

definition esc_by_id :: "jstr \<Rightarrow> api_db \<Rightarrow> escalation option" where
  "esc_by_id i db = find (\<lambda>e. e_id e = i) (db_escs db)"

definition update_deal :: "jstr \<Rightarrow> (deal \<Rightarrow> deal) \<Rightarrow> api_db \<Rightarrow> api_db" where
  "update_deal i f db = db\<lparr>db_deals := update_where (\<lambda>d. d_id d = i) f (db_deals db)\<rparr>"

text \<open>The enum type of the status column: other texts are a database error.\<close>

definition all_statuses :: "deal_status list" where
  "all_statuses = [Intake, Sizing, Customs, Quoting, Pricing, Negotiation, Contract, Execution,
     Awaiting_manager, Closed_won, Closed_lost, Cancelled]"

definition parse_status :: "jstr \<Rightarrow> deal_status option" where
  "parse_status s = find (\<lambda>x. deal_status_name x = s) all_statuses"

text \<open>\<open>logStaffEvent\<close> as the action and the target it records, for callers with a staff identity.\<close>

definition log_event :: "request_staff option \<Rightarrow> string \<Rightarrow> jstr \<Rightarrow> api_db \<Rightarrow> api_db" where
  "log_event staff action target db =
     (case staff of
        Some s \<Rightarrow> if js_or (st_id s) [] \<noteq> [] then db\<lparr>db_events := db_events db @ [(js action, target)]\<rparr> else db
      | None \<Rightarrow> db)"

subsection \<open>Escalations\<close>

record escalate_body =
  eb_reason :: jstr
  eb_summary :: jstr
  eb_recommendation :: "jstr option"
  eb_needed_decision :: "jstr option"

definition post_escalate :: "jstr \<Rightarrow> int \<Rightarrow> jstr \<Rightarrow> escalate_body \<Rightarrow> api_db \<Rightarrow> api_db \<times> nat" where
  "post_escalate new_id now dealId body db =
     (case deal_by_id dealId db of
        None \<Rightarrow> (db, 404)
      | Some _ \<Rightarrow>
          let db1 = update_deal dealId (\<lambda>d. d\<lparr>d_previous := Some (d_status d), d_status := Awaiting_manager,
                d_escalate := True, d_updated_at := now\<rparr>) db;
              e = \<lparr>e_id = new_id, e_deal_id = dealId, e_reason = eb_reason body, e_summary = eb_summary body,
                e_recommendation = eb_recommendation body, e_needed_decision = eb_needed_decision body,
                e_status = Esc_pending, e_manager_note = None, e_created_at = now, e_resolved_at = None\<rparr>
          in (db1\<lparr>db_escs := db_escs db1 @ [e]\<rparr>, 201))"

definition get_escalations :: "esc_status option \<Rightarrow> api_db \<Rightarrow> escalation list" where
  "get_escalations status db =
     take 50 (sort_key (\<lambda>e. - e_created_at e)
       (filter (\<lambda>e. e_status e = (case status of None \<Rightarrow> Esc_pending | Some s \<Rightarrow> s)
          \<and> deal_by_id (e_deal_id e) db \<noteq> None) (db_escs db)))"

datatype decision = Approved | Rejected

record decide_body =
  db_decision :: decision
  db_note :: "jstr option"
  db_resume :: "jstr option"

definition decision_status :: "decision \<Rightarrow> esc_status" where
  "decision_status d = (case d of Approved \<Rightarrow> Esc_approved | Rejected \<Rightarrow> Esc_rejected)"

definition resume_status :: "jstr option \<Rightarrow> deal option \<Rightarrow> bool \<Rightarrow> jstr" where
  "resume_status req deal rfq =
     (case req of
        Some s \<Rightarrow> if s \<noteq> [] then s else
          (case deal of Some d \<Rightarrow> (case d_previous d of Some p \<Rightarrow> deal_status_name p
              | None \<Rightarrow> js (if rfq then ''quoting'' else ''negotiation''))
           | None \<Rightarrow> js (if rfq then ''quoting'' else ''negotiation''))
      | None \<Rightarrow>
          (case deal of Some d \<Rightarrow> (case d_previous d of Some p \<Rightarrow> deal_status_name p
              | None \<Rightarrow> js (if rfq then ''quoting'' else ''negotiation''))
           | None \<Rightarrow> js (if rfq then ''quoting'' else ''negotiation'')))"

text \<open>The three ways a decision changes the deal; \<open>None\<close> is a database error.\<close>

definition apply_decision :: "int \<Rightarrow> decide_body \<Rightarrow> jstr \<Rightarrow> jstr \<Rightarrow> api_db \<Rightarrow> api_db option" where
  "apply_decision now body reason dealId db =
     (let rfq = (reason = js ''rfq_preflight'')
      in if db_decision body = Approved
         then map_option (\<lambda>st. update_deal dealId (\<lambda>d. d\<lparr>d_status := st, d_escalate := False, d_updated_at := now\<rparr>) db)
                (parse_status (resume_status (db_resume body) (deal_by_id dealId db) rfq))
         else if rfq
         then Some (update_deal dealId (\<lambda>d. d\<lparr>d_meta := (d_meta d)\<lparr>dm_rfq_status := Some (js ''rejected'')\<rparr>\<rparr>)
                (update_deal dealId (\<lambda>d. d\<lparr>d_escalate := False,
                   d_status := (case d_previous d of None \<Rightarrow> Quoting | Some p \<Rightarrow> p), d_updated_at := now\<rparr>) db))
         else Some (update_deal dealId (\<lambda>d. d\<lparr>d_status := Cancelled, d_escalate := False,
                d_closed_at := Some now, d_updated_at := now\<rparr>) db))"

definition post_decide :: "int \<Rightarrow> request_staff option \<Rightarrow> jstr \<Rightarrow> decide_body \<Rightarrow> api_db \<Rightarrow> api_db \<times> nat" where
  "post_decide now staff escId body db =
     (case esc_by_id escId db of
        None \<Rightarrow> (db, 404)
      | Some e \<Rightarrow>
          (case (if e_reason e \<in> set DIRECTOR_ESCALATION_REASONS then requireDirector staff else None) of
             Some code \<Rightarrow> (db, code)
           | None \<Rightarrow>
               let db1 = db\<lparr>db_escs := update_where (\<lambda>x. e_id x = escId)
                     (\<lambda>x. x\<lparr>e_status := decision_status (db_decision body), e_manager_note := db_note body,
                        e_resolved_at := Some now\<rparr>) (db_escs db)\<rparr>
               in (case apply_decision now body (e_reason e) (e_deal_id e) db1 of
                     None \<Rightarrow> (db, 500)
                   | Some db2 \<Rightarrow> (log_event staff ''escalation_decide'' (e_deal_id e) db2, 200))))"

subsection \<open>Deals\<close>

record create_body =
  cb_tg_chat_id :: "int option"
  cb_tg_user_id :: "int option"
  cb_client_name :: "jstr option"
  cb_meta :: deal_meta

definition post_deal :: "jstr \<Rightarrow> int \<Rightarrow> create_body \<Rightarrow> api_db \<Rightarrow> api_db \<times> nat" where
  "post_deal new_id now body db =
     (db\<lparr>db_deals := db_deals db @ [\<lparr>d_id = new_id, d_telegram = True, d_tg_chat_id = cb_tg_chat_id body,
        d_tg_user_id = cb_tg_user_id body, d_client_name = cb_client_name body, d_status = Intake,
        d_previous = None, d_takeover = False, d_paused = False, d_escalate = False, d_offer_price = 0,
        d_meta = cb_meta body, d_updated_at = now, d_closed_at = None\<rparr>]\<rparr>, 201)"

definition get_deal_by_chat :: "int \<Rightarrow> api_db \<Rightarrow> deal option" where
  "get_deal_by_chat chat db =
     (case sort_key (\<lambda>d. - d_updated_at d)
         (filter (\<lambda>d. d_tg_chat_id d = Some chat \<and> \<not> deal_closed (d_status d)) (db_deals db)) of
        [] \<Rightarrow> None | d # _ \<Rightarrow> Some d)"

text \<open>
  The columns of a patch this model follows; an absent key is \<open>None\<close>. \<open>pt_other\<close> says that one of the
  other allowed keys is present.
\<close>

record deal_patch =
  pt_status :: "jstr option"
  pt_previous :: "jstr option option"
  pt_takeover :: "bool option"
  pt_paused :: "bool option"
  pt_escalate :: "bool option"
  pt_client_name :: "jstr option option"
  pt_meta :: "deal_meta option"
  pt_other :: bool

definition set_opt :: "'a option \<Rightarrow> ('a \<Rightarrow> deal \<Rightarrow> deal) \<Rightarrow> deal \<Rightarrow> deal" where
  "set_opt x f d = (case x of None \<Rightarrow> d | Some v \<Rightarrow> f v d)"

definition empty_patch :: "deal_patch \<Rightarrow> bool" where
  "empty_patch p \<longleftrightarrow> pt_status p = None \<and> pt_previous p = None \<and> pt_takeover p = None \<and> pt_paused p = None
     \<and> pt_escalate p = None \<and> pt_client_name p = None \<and> pt_meta p = None \<and> \<not> pt_other p"

definition valid_status_patch :: "deal_patch \<Rightarrow> bool" where
  "valid_status_patch p \<longleftrightarrow> (case pt_status p of None \<Rightarrow> True | Some s \<Rightarrow> parse_status s \<noteq> None)
     \<and> (case pt_previous p of Some (Some s) \<Rightarrow> parse_status s \<noteq> None | _ \<Rightarrow> True)"

definition patch_row :: "int \<Rightarrow> deal_patch \<Rightarrow> deal \<Rightarrow> deal" where
  "patch_row now p d =
     (set_opt (pt_status p) (\<lambda>s d. d\<lparr>d_status := the (parse_status s)\<rparr>)
      (set_opt (pt_previous p) (\<lambda>s d. d\<lparr>d_previous := Option.bind s parse_status\<rparr>)
      (set_opt (pt_takeover p) (\<lambda>b d. d\<lparr>d_takeover := b\<rparr>)
      (set_opt (pt_paused p) (\<lambda>b d. d\<lparr>d_paused := b\<rparr>)
      (set_opt (pt_escalate p) (\<lambda>b d. d\<lparr>d_escalate := b\<rparr>)
      (set_opt (pt_client_name p) (\<lambda>n d. d\<lparr>d_client_name := n\<rparr>)
      (set_opt (pt_meta p) (\<lambda>m d. d\<lparr>d_meta := m\<rparr>) d)))))))\<lparr>d_updated_at := now\<rparr>"

definition patch_deal :: "int \<Rightarrow> request_staff option \<Rightarrow> jstr \<Rightarrow> deal_patch \<Rightarrow> api_db \<Rightarrow> api_db \<times> nat" where
  "patch_deal now staff dealId p db =
     (if empty_patch p then (db, 400)
      else if \<not> valid_status_patch p then (db, 500)
      else if deal_by_id dealId db = None then (db, 404)
      else (log_event staff ''deal_patch'' dealId (update_deal dealId (patch_row now p) db), 200))"

text \<open>\<open>enqueueOutboundTg\<close>: the identifier of the job and the attempt to add it.\<close>

fun collapse_spaces :: "bool \<Rightarrow> jstr \<Rightarrow> jstr" where
  "collapse_spaces inside [] = []"
| "collapse_spaces inside (c # s) =
     (if js_space c then (if inside then collapse_spaces True s else 95 # collapse_spaces True s)
      else c # collapse_spaces False s)"

definition kp_job :: "int \<Rightarrow> jstr \<Rightarrow> jstr \<Rightarrow> nat \<Rightarrow> tg_job" where
  "kp_job chatId text dealId idx =
     \<lparr>j_id = js ''approve-kp-'' @ dealId @ js ''-'' @ show_nat idx @ js ''-'' @ collapse_spaces False (take 24 text),
      j_chat_id = chatId, j_text = text, j_deal_id = dealId\<rparr>"

fun send_pending :: "(jstr \<Rightarrow> bool) \<Rightarrow> int \<Rightarrow> jstr \<Rightarrow> nat \<Rightarrow> jstr list \<Rightarrow> tg_job list \<times> nat" where
  "send_pending accepts chatId dealId i [] = ([], 0)"
| "send_pending accepts chatId dealId i (text # rest) =
     (let (jobs, sent) = send_pending accepts chatId dealId (i + 1) rest; j = kp_job chatId text dealId i
      in if accepts (j_id j) then (j # jobs, sent + 1) else (jobs, sent))"

datatype kp_mode = Release_to_client nat | To_contract

definition approve_kp :: "(jstr \<Rightarrow> bool) \<Rightarrow> int \<Rightarrow> request_staff option \<Rightarrow> jstr \<Rightarrow> api_db \<Rightarrow> api_db \<times> (nat + kp_mode)" where
  "approve_kp accepts now staff dealId db =
     (case deal_by_id dealId db of
        None \<Rightarrow> (db, Inl 404)
      | Some deal \<Rightarrow>
          let meta = d_meta deal;
              pending = (case dm_pending meta of None \<Rightarrow> [] | Some ps \<Rightarrow> ps);
              held = dm_kp_hold meta \<or> d_status deal = Awaiting_manager;
              nextMeta = meta\<lparr>dm_kp_hold := False, dm_pending := Some [], dm_approved_at := Some now\<rparr>
          in if held \<and> (pending \<noteq> [] \<or> d_offer_price deal \<noteq> 0)
             then let db1 = update_deal dealId (\<lambda>d. d\<lparr>d_status := Pricing, d_escalate := False, d_paused := False,
                        d_meta := nextMeta, d_updated_at := now\<rparr>) db;
                      chatId = (case d_tg_chat_id deal of None \<Rightarrow> 0 | Some c \<Rightarrow> c);
                      (jobs, sent) = (if chatId \<noteq> 0 then send_pending accepts chatId dealId 0 pending else ([], 0))
                  in (log_event staff ''approve_kp'' dealId (db1\<lparr>db_jobs := db_jobs db1 @ jobs\<rparr>), Inr (Release_to_client sent))
             else (log_event staff ''approve_kp'' dealId
                     (update_deal dealId (\<lambda>d. d\<lparr>d_status := Contract, d_escalate := False, d_paused := False,
                        d_meta := nextMeta, d_updated_at := now\<rparr>) db), Inr To_contract))"

subsection \<open>Messages\<close>

definition post_message :: "message \<Rightarrow> api_db \<Rightarrow> api_db \<times> nat" where
  "post_message m db =
     (if deal_by_id (m_deal_id m) db = None then (db, 500)
      else (db\<lparr>db_msgs := db_msgs db @ [m\<lparr>m_chat_id := Some (case m_chat_id m of None \<Rightarrow> 0 | Some c \<Rightarrow> c)\<rparr>]\<rparr>, 201))"

definition get_messages :: "jstr \<Rightarrow> api_db \<Rightarrow> message list" where
  "get_messages dealId db = sort_key m_created_at (filter (\<lambda>m. m_deal_id m = dealId) (db_msgs db))"

definition last_message :: "jstr \<Rightarrow> api_db \<Rightarrow> message option" where
  "last_message dealId db =
     (case sort_key (\<lambda>m. - m_created_at m) (filter (\<lambda>m. m_deal_id m = dealId) (db_msgs db)) of
        [] \<Rightarrow> None | m # _ \<Rightarrow> Some m)"

record open_row =
  or_id :: jstr
  or_chat_id :: "int option"
  or_status :: deal_status
  or_paused :: bool
  or_takeover :: bool
  or_last_direction :: "direction option"
  or_last_inbound_text :: "jstr option"
  or_needs_reply :: bool

definition open_row_of :: "api_db \<Rightarrow> deal \<Rightarrow> open_row" where
  "open_row_of db d =
     (let lm = last_message (d_id d) db
      in \<lparr>or_id = d_id d, or_chat_id = d_tg_chat_id d, or_status = d_status d, or_paused = d_paused d,
          or_takeover = d_takeover d, or_last_direction = map_option m_direction lm,
          or_last_inbound_text = (case lm of Some m \<Rightarrow> if m_direction m = Inbound then Some (m_text m) else None | None \<Rightarrow> None),
          or_needs_reply = (case lm of None \<Rightarrow> False
             | Some m \<Rightarrow> m_direction m = Inbound \<and> \<not> list_ex (\<lambda>x. m_deal_id x = d_id d \<and> m_direction x = Outbound
                  \<and> m_created_at m < m_created_at x) (db_msgs db))\<rparr>)"

definition get_open_telegram :: "api_db \<Rightarrow> open_row list" where
  "get_open_telegram db =
     map (open_row_of db) (take 200 (sort_key (\<lambda>d. - d_updated_at d)
       (filter (\<lambda>d. d_telegram d \<and> d_tg_chat_id d \<noteq> None \<and> \<not> deal_closed (d_status d)) (db_deals db))))"

definition message_exists :: "int option \<Rightarrow> int option \<Rightarrow> api_db \<Rightarrow> bool" where
  "message_exists chatId msgId db =
     (case (chatId, msgId) of
        (Some c, Some i) \<Rightarrow> list_ex (\<lambda>m. m_tg_message_id m = Some i \<and> m_direction m = Inbound
            \<and> (case deal_by_id (m_deal_id m) db of Some d \<Rightarrow> d_tg_chat_id d = Some c | None \<Rightarrow> False)) (db_msgs db)
      | _ \<Rightarrow> False)"

subsection \<open>Laws of the tables\<close>

lemma parse_status_name [simp]: "parse_status (deal_status_name s) = Some s"
  by (cases s) (simp_all add: parse_status_def all_statuses_def deal_status_name_def js_def)

lemma deal_by_id_update:
  "(\<And>d. d_id (f d) = d_id d) \<Longrightarrow>
   deal_by_id i (update_deal j f db) = (if i = j then map_option f (deal_by_id i db) else deal_by_id i db)"
  using find_update_where[of d_id f i j "db_deals db"] by (simp add: deal_by_id_def update_deal_def)

lemma deal_by_id_cong [simp]:
  "deal_by_id i (db\<lparr>db_escs := es\<rparr>) = deal_by_id i db"
  "deal_by_id i (db\<lparr>db_jobs := js'\<rparr>) = deal_by_id i db"
  "deal_by_id i (log_event staff a t db) = deal_by_id i db"
  by (simp_all add: deal_by_id_def log_event_def split: option.split)

lemma db_escs_update_deal [simp]:
  "db_escs (update_deal i f db) = db_escs db" "db_escs (log_event staff a t db) = db_escs db"
  "db_jobs (update_deal i f db) = db_jobs db" "db_jobs (log_event staff a t db) = db_jobs db"
  by (simp_all add: update_deal_def log_event_def split: option.split)

lemma esc_by_id_cong [simp]:
  "esc_by_id n (update_deal i f db) = esc_by_id n db"
  "esc_by_id n (log_event staff a t db) = esc_by_id n db"
  by (simp_all add: esc_by_id_def)

lemma find_snoc: "find P (xs @ [e]) = (case find P xs of Some x \<Rightarrow> Some x | None \<Rightarrow> if P e then Some e else None)"
  by (induction xs) auto

lemma esc_by_id_set [simp]: "esc_by_id n (db\<lparr>db_escs := es\<rparr>) = find (\<lambda>e. e_id e = n) es"
  by (simp add: esc_by_id_def)

lemma find_esc_update:
  "(\<And>e. e_id (f e) = e_id e) \<Longrightarrow>
   find (\<lambda>e. e_id e = n) (update_where (\<lambda>x. e_id x = m) f (db_escs db)) =
     (if n = m then map_option f (esc_by_id n db) else esc_by_id n db)"
  using find_update_where[of e_id f n m "db_escs db"] by (simp add: esc_by_id_def)

text \<open>What one escalation and one approval without an explicit status do to the rows of the deal.\<close>

lemma escalate_row:
  assumes "deal_by_id i db = Some d"
  shows "deal_by_id i (fst (post_escalate n t i b db)) =
      Some (d\<lparr>d_previous := Some (d_status d), d_status := Awaiting_manager, d_escalate := True, d_updated_at := t\<rparr>)"
    and "esc_by_id n db = None \<Longrightarrow> \<exists>e. esc_by_id n (fst (post_escalate n t i b db)) = Some e
          \<and> e_deal_id e = i \<and> e_reason e = eb_reason b"
    and "m \<noteq> n \<Longrightarrow> esc_by_id m (fst (post_escalate n t i b db)) = esc_by_id m db"
    and "snd (post_escalate n t i b db) = 201"
  using assms by (auto simp: post_escalate_def Let_def deal_by_id_update find_snoc simp flip: esc_by_id_def split: option.splits)

lemma approve_row:
  assumes "esc_by_id n db = Some e" "e_deal_id e = i" "deal_by_id i db = Some d" "d_previous d = Some p"
    and "e_reason e \<in> set DIRECTOR_ESCALATION_REASONS \<Longrightarrow> requireDirector staff = None"
    and "db_decision body = Approved" "db_resume body = None"
  shows "snd (post_decide t staff n body db) = 200"
    and "deal_by_id i (fst (post_decide t staff n body db)) =
      Some (d\<lparr>d_status := p, d_escalate := False, d_updated_at := t\<rparr>)"
    and "m \<noteq> n \<Longrightarrow> esc_by_id m (fst (post_decide t staff n body db)) = esc_by_id m db"
proof -
  let ?db1 = "db\<lparr>db_escs := update_where (\<lambda>x. e_id x = n) (\<lambda>x. x\<lparr>e_status := Esc_approved, e_manager_note := db_note body,
      e_resolved_at := Some t\<rparr>) (db_escs db)\<rparr>"
  have r: "resume_status (db_resume body) (deal_by_id i db) b = deal_status_name p" for b
    using assms(3,4,7) by (simp add: resume_status_def)
  have "post_decide t staff n body db = (log_event staff ''escalation_decide'' i
      (update_deal i (\<lambda>d. d\<lparr>d_status := p, d_escalate := False, d_updated_at := t\<rparr>) ?db1), 200)"
    using assms(1,2,5,6) by (simp add: post_decide_def apply_decision_def Let_def decision_status_def r)
  then show "snd (post_decide t staff n body db) = 200"
    and "deal_by_id i (fst (post_decide t staff n body db)) =
      Some (d\<lparr>d_status := p, d_escalate := False, d_updated_at := t\<rparr>)"
    and "m \<noteq> n \<Longrightarrow> esc_by_id m (fst (post_decide t staff n body db)) = esc_by_id m db"
    using assms(3) by (simp_all add: deal_by_id_update find_esc_update)
qed

subsection \<open>Escalation properties\<close>

text \<open>
  C9. An escalated deal goes back to where it was. From any state of the tables, escalating a deal and
  approving that escalation without naming a status, by a caller allowed to decide it, answers 201 and 200
  and leaves the deal in the status it had before, with the escalation flag cleared.
\<close>

theorem escalation_roundtrip:
  assumes "deal_by_id i db = Some d" "esc_by_id n db = None"
    and "eb_reason b \<in> set DIRECTOR_ESCALATION_REASONS \<Longrightarrow> requireDirector staff = None"
    and "db_decision body = Approved" "db_resume body = None"
  shows "snd (post_escalate n t1 i b db) = 201
    \<and> snd (post_decide t2 staff n body (fst (post_escalate n t1 i b db))) = 200
    \<and> deal_by_id i (fst (post_decide t2 staff n body (fst (post_escalate n t1 i b db)))) =
        Some (d\<lparr>d_previous := Some (d_status d), d_escalate := False, d_updated_at := t2\<rparr>)"
proof -
  obtain e where e: "esc_by_id n (fst (post_escalate n t1 i b db)) = Some e" "e_deal_id e = i" "e_reason e = eb_reason b"
    using escalate_row(2)[OF assms(1,2)] by blast
  have a: "e_reason e \<in> set DIRECTOR_ESCALATION_REASONS \<Longrightarrow> requireDirector staff = None" using assms(3) e(3) by simp
  show ?thesis
    using approve_row(1,2)[OF e(1,2) escalate_row(1)[OF assms(1)] _ a assms(4,5), where p = "d_status d" and t = t2]
      escalate_row(4)[OF assms(1)] by simp
qed

definition demo_meta :: deal_meta where
  "demo_meta = \<lparr>dm_kp_hold = True, dm_pending = Some [ru ''KP: 1''], dm_approved_at = None, dm_rfq_status = None\<rparr>"

definition demo_deal :: deal where
  "demo_deal = \<lparr>d_id = js ''d1'', d_telegram = True, d_tg_chat_id = Some 7, d_tg_user_id = None, d_client_name = None,
     d_status = Quoting, d_previous = None, d_takeover = False, d_paused = False, d_escalate = False,
     d_offer_price = 0, d_meta = demo_meta, d_updated_at = 0, d_closed_at = None\<rparr>"

definition demo_db :: api_db where
  "demo_db = \<lparr>db_deals = [demo_deal], db_escs = [], db_msgs = [], db_jobs = [], db_events = []\<rparr>"

definition demo_esc :: escalate_body where
  "demo_esc = \<lparr>eb_reason = js ''other'', eb_summary = [], eb_recommendation = None, eb_needed_decision = None\<rparr>"

definition demo_yes :: decide_body where
  "demo_yes = \<lparr>db_decision = Approved, db_note = None, db_resume = None\<rparr>"

lemma demo_rows: "deal_by_id (js ''d1'') demo_db = Some demo_deal" "esc_by_id n demo_db = None"
  by (simp_all add: deal_by_id_def esc_by_id_def demo_db_def demo_deal_def)

lemma demo_not_director: "eb_reason demo_esc \<notin> set DIRECTOR_ESCALATION_REASONS"
  by (simp add: demo_esc_def DIRECTOR_ESCALATION_REASONS_def js_def)

lemma escalation_roundtrip_witness:
  "map_option d_status (deal_by_id (js ''d1'') (fst (post_decide 2 None (js ''e1'') demo_yes
     (fst (post_escalate (js ''e1'') 1 (js ''d1'') demo_esc demo_db))))) = Some Quoting"
proof -
  have y: "db_decision demo_yes = Approved" "db_resume demo_yes = None" by (simp_all add: demo_yes_def)
  have q: "d_status demo_deal = Quoting" by (simp add: demo_deal_def)
  show ?thesis
    using escalation_roundtrip[OF demo_rows, of demo_esc None demo_yes "js ''e1''" 1 2] demo_not_director y q by simp
qed

text \<open>
  Two open escalations of one deal lose its status. If a deal that is already waiting is escalated
  again, the status saved for the way back is overwritten: after both escalations are approved, in the
  order they came, the deal is still waiting for a manager, without the escalation flag that would show it
  as pending, and no column remembers where it was.
\<close>

theorem double_escalation_stuck:
  assumes "deal_by_id i db = Some d" "esc_by_id n db = None" "esc_by_id m db = None" "m \<noteq> n"
    and "requireDirector staff = None" "db_decision body = Approved" "db_resume body = None"
    and "db2 = fst (post_escalate m t2 i b2 (fst (post_escalate n t1 i b1 db)))"
    and "db3 = fst (post_decide t3 staff n body db2)"
  shows "snd (post_decide t3 staff n body db2) = 200 \<and> snd (post_decide t4 staff m body db3) = 200
    \<and> deal_by_id i (fst (post_decide t4 staff m body db3)) =
        Some (d\<lparr>d_previous := Some Awaiting_manager, d_status := Awaiting_manager, d_escalate := False, d_updated_at := t4\<rparr>)"
proof -
  let ?db1 = "fst (post_escalate n t1 i b1 db)"
  note r1 = escalate_row(1)[OF assms(1), of n t1 b1]
  have d2: "deal_by_id i db2 = Some (d\<lparr>d_previous := Some Awaiting_manager, d_status := Awaiting_manager,
      d_escalate := True, d_updated_at := t2\<rparr>)"
    using escalate_row(1)[OF r1, of m t2 b2] assms(8) by simp
  obtain e where e: "esc_by_id n db2 = Some e" "e_deal_id e = i"
    using escalate_row(2)[OF assms(1,2)] escalate_row(3)[OF r1] assms(4,8) by metis
  have "esc_by_id m ?db1 = None" using escalate_row(3)[OF assms(1)] assms(3,4) by simp
  then obtain e2 where e2: "esc_by_id m db2 = Some e2" "e_deal_id e2 = i"
    using escalate_row(2)[OF r1] assms(8) by blast
  have dir: "e_reason x \<in> set DIRECTOR_ESCALATION_REASONS \<Longrightarrow> requireDirector staff = None" for x
    using assms(5) by simp
  note a = approve_row[OF e d2 _ dir[of e] assms(6,7), where p = Awaiting_manager and t = t3, simplified]
  have d3: "deal_by_id i db3 = Some (d\<lparr>d_previous := Some Awaiting_manager, d_status := Awaiting_manager,
      d_escalate := False, d_updated_at := t3\<rparr>)"
    using a(2) assms(9) by simp
  have e3: "esc_by_id m db3 = Some e2" using a(3)[of m] assms(4,9) e2(1) by simp
  show ?thesis
    using a(1) approve_row(1,2)[OF e3 e2(2) d3 _ dir[of e2] assms(6,7), where p = Awaiting_manager and t = t4] by simp
qed

lemma double_escalation_stuck_witness:
  "\<exists>db3. map_option d_status (deal_by_id (js ''d1'') (fst (post_decide 4 None (js ''e2'') demo_yes db3))) = Some Awaiting_manager
    \<and> db3 = fst (post_decide 3 None (js ''e1'') demo_yes (fst (post_escalate (js ''e2'') 2 (js ''d1'') demo_esc
         (fst (post_escalate (js ''e1'') 1 (js ''d1'') demo_esc demo_db)))))"
proof -
  have y: "db_decision demo_yes = Approved" "db_resume demo_yes = None" by (simp_all add: demo_yes_def)
  have ne: "js ''e2'' \<noteq> js ''e1''" by (simp add: js_def)
  have "requireDirector None = None" by (simp add: requireDirector_def)
  from double_escalation_stuck[OF demo_rows(1) demo_rows(2) demo_rows(2) ne this y refl refl]
  show ?thesis by auto
qed

text \<open>A decision on a reason of the director's list by a manager changes nothing and answers 403.\<close>

lemma manager_cannot_decide:
  assumes "esc_by_id n db = Some e" "e_reason e \<in> set DIRECTOR_ESCALATION_REASONS" "st_role s = Manager"
  shows "post_decide t (Some s) n body db = (db, 403)"
  using assms by (simp add: post_decide_def requireDirector_def)

text \<open>Nothing checks that an escalation is still pending: rejecting one that was approved cancels the deal.\<close>

lemma decided_again:
  assumes "esc_by_id n db = Some e" "e_status e = Esc_approved" "e_deal_id e = i" "deal_by_id i db = Some d"
    and "e_reason e \<notin> set DIRECTOR_ESCALATION_REASONS" "e_reason e \<noteq> js ''rfq_preflight''" "db_decision body = Rejected"
  shows "map_option d_status (deal_by_id i (fst (post_decide t staff n body db))) = Some Cancelled"
  using assms by (simp add: post_decide_def apply_decision_def Let_def deal_by_id_update)

subsection \<open>Releasing a held offer\<close>

lemma send_pending_jobs:
  "send_pending accepts c i k ps = (js', sent) \<Longrightarrow> sent = length js' \<and> sent \<le> length ps
    \<and> list_all (\<lambda>j. accepts (j_id j) \<and> j_chat_id j = c \<and> j_deal_id j = i \<and> j_text j \<in> set ps) js'"
proof (induction ps arbitrary: k js' sent)
  case (Cons p ps)
  obtain js1 s1 where r: "send_pending accepts c i (k + 1) ps = (js1, s1)"
    by (cases "send_pending accepts c i (k + 1) ps")
  have "s1 = length js1 \<and> s1 \<le> length ps
    \<and> list_all (\<lambda>j. accepts (j_id j) \<and> j_chat_id j = c \<and> j_deal_id j = i \<and> j_text j \<in> set (p # ps)) js1"
    using Cons.IH[OF r] by (auto simp: list_all_iff)
  moreover have "j_chat_id (kp_job c p i k) = c \<and> j_deal_id (kp_job c p i k) = i \<and> j_text (kp_job c p i k) = p"
    by (simp add: kp_job_def)
  ultimately show ?case using Cons.prems r by (auto simp: Let_def split: if_splits)
qed simp

text \<open>
  Approving a held offer twice. The first approval releases the held texts: each job goes to the deal's
  chat with one of the pending texts, no more jobs than texts, the list is emptied and the deal is set to
  pricing. The second approval of the same deal, as a second click sends it, sends nothing but moves the
  deal on to the contract stage, whatever happened in between to the offer.
\<close>

theorem approve_kp_twice:
  assumes "deal_by_id i db = Some d" "dm_kp_hold (d_meta d) \<or> d_status d = Awaiting_manager"
    and "dm_pending (d_meta d) = Some ps" "ps \<noteq> []" "d_tg_chat_id d = Some c" "c \<noteq> 0"
    and "approve_kp accepts t1 staff i db = (db1, r1)" "approve_kp accepts t2 staff i db1 = (db2, r2)"
  shows "\<exists>jobs. r1 = Inr (Release_to_client (length jobs)) \<and> db_jobs db1 = db_jobs db @ jobs \<and> length jobs \<le> length ps
      \<and> list_all (\<lambda>j. j_chat_id j = c \<and> j_deal_id j = i \<and> j_text j \<in> set ps) jobs
      \<and> r2 = Inr To_contract \<and> db_jobs db2 = db_jobs db1 \<and> map_option d_status (deal_by_id i db2) = Some Contract"
proof -
  obtain jobs sent where s: "send_pending accepts c i 0 ps = (jobs, sent)" by (cases "send_pending accepts c i 0 ps")
  have 1: "r1 = Inr (Release_to_client sent)" "db_jobs db1 = db_jobs db @ jobs"
    "deal_by_id i db1 = Some (d\<lparr>d_status := Pricing, d_escalate := False, d_paused := False,
       d_meta := (d_meta d)\<lparr>dm_kp_hold := False, dm_pending := Some [], dm_approved_at := Some t1\<rparr>, d_updated_at := t1\<rparr>)"
    using assms(1-7) s by (auto simp: approve_kp_def Let_def deal_by_id_update)
  have 2: "r2 = Inr To_contract" "db_jobs db2 = db_jobs db1" "map_option d_status (deal_by_id i db2) = Some Contract"
    using assms(8) 1(3) by (auto simp: approve_kp_def Let_def deal_by_id_update)
  have "sent = length jobs \<and> length jobs \<le> length ps
    \<and> list_all (\<lambda>j. j_chat_id j = c \<and> j_deal_id j = i \<and> j_text j \<in> set ps) jobs"
    using send_pending_jobs[OF s] by (auto simp: list_all_iff)
  then show ?thesis using 1 2 by blast
qed

lemma approve_kp_twice_witness:
  "map_option d_status (deal_by_id (js ''d1'') (fst (approve_kp (\<lambda>_. True) 2 None (js ''d1'')
     (fst (approve_kp (\<lambda>_. True) 1 None (js ''d1'') demo_db))))) = Some Contract"
proof -
  have p: "dm_kp_hold (d_meta demo_deal) \<or> d_status demo_deal = Awaiting_manager"
    "dm_pending (d_meta demo_deal) = Some [ru ''KP: 1'']" "d_tg_chat_id demo_deal = Some 7"
    by (simp_all add: demo_deal_def demo_meta_def)
  have seven: "(7 :: int) \<noteq> 0" by simp
  obtain db1 r1 where a: "approve_kp (\<lambda>_. True) 1 None (js ''d1'') demo_db = (db1, r1)"
    by (cases "approve_kp (\<lambda>_. True) 1 None (js ''d1'') demo_db")
  obtain db2 r2 where b: "approve_kp (\<lambda>_. True) 2 None (js ''d1'') db1 = (db2, r2)"
    by (cases "approve_kp (\<lambda>_. True) 2 None (js ''d1'') db1")
  from approve_kp_twice[OF demo_rows(1) p(1,2) _ p(3) seven a b] a b show ?thesis by auto
qed

text \<open>
  A text the queue does not take is lost: bullmq refuses identifiers with a colon, the identifier contains
  the first characters of the text, the refusal is swallowed and the pending list is cleared all the same.
\<close>

lemma kp_text_lost:
  "case approve_kp (\<lambda>i. 58 \<notin> set i) 1 None (js ''d1'') demo_db of (db1, r) \<Rightarrow>
     r = Inr (Release_to_client 0) \<and> db_jobs db1 = []
     \<and> map_option (\<lambda>d. dm_pending (d_meta d)) (deal_by_id (js ''d1'') db1) = Some (Some [])"
proof -
  have "58 \<in> set (j_id (kp_job 7 (ru ''KP: 1'') (js ''d1'') 0))"
    by (simp add: kp_job_def ru_eval js_space_def)
  then show ?thesis
    using demo_rows(1)
    by (simp add: approve_kp_def Let_def deal_by_id_update demo_deal_def demo_meta_def)
      (simp add: demo_db_def)
qed

text \<open>Approving works on a closed deal too and reopens it.\<close>

lemma approve_kp_reopens:
  assumes "deal_by_id i db = Some d" "d_status d = Closed_lost" "\<not> dm_kp_hold (d_meta d)"
  shows "map_option d_status (deal_by_id i (fst (approve_kp accepts t staff i db))) = Some Contract"
  using assms by (simp add: approve_kp_def Let_def deal_by_id_update)

end
