(* ===== verification/TgRouting.thy ===== *)
theory TgRouting
  imports RateLimit Regex
begin

text \<open>
  Telegram user accounts and traffic rules: account loading and the sticky round-robin router
  (\<open>packages/shared/src/tgAccounts.ts\<close>), the anti-ban pacing (\<open>apps/tg-gateway/src/antiBan.ts\<close>), job identifiers
  and the inbound filter (\<open>dedupe.ts\<close>), and what the gateway replays after a restart (\<open>unreadCatchUp.ts\<close>,
  \<open>resumeOpenDeals.ts\<close>). Chat and user identifiers are integers. Parsing of the accounts JSON, the messages
  Telegram returns and the media download are parameters; sleeping, typing marks and logging are left out.
\<close>

subsection \<open>Accounts\<close>

record tg_account =
  ta_id :: jstr
  ta_api_id :: numval
  ta_api_hash :: jstr
  ta_session :: jstr
  ta_manager_user_id :: "int option"
  ta_label :: "jstr option"

definition num_truthy :: "numval \<Rightarrow> bool" where
  "num_truthy n \<longleftrightarrow> n \<noteq> NaN \<and> n \<noteq> Num 0"

definition account_complete :: "tg_account \<Rightarrow> bool" where
  "account_complete a \<longleftrightarrow> ta_id a \<noteq> [] \<and> num_truthy (ta_api_id a) \<and> ta_api_hash a \<noteq> [] \<and> ta_session a \<noteq> []"

definition loadTgAccountsFromEnv :: "(jstr \<Rightarrow> tg_account list option) \<Rightarrow> penv \<Rightarrow> tg_account list" where
  "loadTgAccountsFromEnv parse env =
     (let raw = js_trim (js_or (env_get env ''TG_ACCOUNTS_JSON'') []);
          apiId = js_Number (js_trim (hd (js_split1 35 (js_or (env_get env ''TG_API_ID'') (js ''0'')))));
          apiHash = js_trim (hd (js_split1 35 (js_or (env_get env ''TG_API_HASH'') [])));
          session = js_trim (js_or (env_get env ''TG_STRING_SESSION'') []);
          single = (if num_truthy apiId \<and> apiHash \<noteq> [] \<and> session \<noteq> []
            then [\<lparr>ta_id = js_or (env_get env ''TG_DEFAULT_ACCOUNT_ID'') (js ''default''), ta_api_id = apiId,
                   ta_api_hash = apiHash, ta_session = session, ta_manager_user_id = None,
                   ta_label = Some (js ''default'')\<rparr>]
            else [])
      in if raw \<noteq> [] then (case parse raw of Some as \<Rightarrow> filter account_complete as | None \<Rightarrow> single) else single)"

record tg_router =
  rt_accounts :: "tg_account list"
  rt_sticky :: "int \<Rightarrow> jstr option"
  rt_rr :: nat

definition new_router :: "tg_account list \<Rightarrow> tg_router" where
  "new_router accounts = \<lparr>rt_accounts = accounts, rt_sticky = (\<lambda>_. None), rt_rr = 0\<rparr>"

definition rt_list :: "tg_router \<Rightarrow> (jstr \<times> jstr option \<times> int option) list" where
  "rt_list r = map (\<lambda>a. (ta_id a, ta_label a, ta_manager_user_id a)) (rt_accounts r)"

definition rt_get :: "jstr \<Rightarrow> tg_router \<Rightarrow> tg_account option" where
  "rt_get i r = find (\<lambda>a. ta_id a = i) (rt_accounts r)"

definition rt_rotate :: "int \<Rightarrow> tg_router \<Rightarrow> tg_account option \<times> tg_router" where
  "rt_rotate chat r =
     (let pick = rt_accounts r ! (rt_rr r mod length (rt_accounts r))
      in (Some pick, r\<lparr>rt_rr := rt_rr r + 1, rt_sticky := (rt_sticky r)(chat \<mapsto> ta_id pick)\<rparr>))"

definition rt_assign :: "int \<Rightarrow> jstr option \<Rightarrow> tg_router \<Rightarrow> tg_account option \<times> tg_router" where
  "rt_assign chat preferred r =
     (if rt_accounts r = [] then (None, r)
      else case (case preferred of Some p \<Rightarrow> if p = [] then None else rt_get p r | None \<Rightarrow> None) of
        Some pref \<Rightarrow> (Some pref, r\<lparr>rt_sticky := (rt_sticky r)(chat \<mapsto> ta_id pref)\<rparr>)
      | None \<Rightarrow>
          (case (case rt_sticky r chat of Some e \<Rightarrow> if e = [] then None else rt_get e r | None \<Rightarrow> None) of
             Some acc \<Rightarrow> (Some acc, r)
           | None \<Rightarrow> rt_rotate chat r))"

definition rt_bind :: "int \<Rightarrow> jstr \<Rightarrow> tg_router \<Rightarrow> tg_router" where
  "rt_bind chat i r = r\<lparr>rt_sticky := (rt_sticky r)(chat \<mapsto> i)\<rparr>"

subsection \<open>Pacing\<close>

definition env_num :: "penv \<Rightarrow> string \<Rightarrow> rat \<Rightarrow> numval" where
  "env_num env name d =
     (case env_get env name of None \<Rightarrow> Num d | Some v \<Rightarrow> if v = [] then Num d else js_Number v)"

definition num_le :: "numval \<Rightarrow> numval \<Rightarrow> bool" where
  "num_le a b = (case (a, b) of (NaN, _) \<Rightarrow> False | (_, NaN) \<Rightarrow> False | (NegInf, _) \<Rightarrow> True | (_, PosInf) \<Rightarrow> True
     | (Num x, Num y) \<Rightarrow> x \<le> y | _ \<Rightarrow> False)"

definition num_less :: "numval \<Rightarrow> numval \<Rightarrow> bool" where
  "num_less a b \<longleftrightarrow> num_le a b \<and> a \<noteq> b"

definition withinWorkHours :: "penv \<Rightarrow> nat \<Rightarrow> bool" where
  "withinWorkHours env hour \<longleftrightarrow>
     num_le (env_num env ''TG_WORK_HOURS_START'' 9) (Num (of_nat hour))
     \<and> num_less (Num (of_nat hour)) (env_num env ''TG_WORK_HOURS_END'' 21)"

text \<open>\<open>Math.random\<close> is an argument between 0 and 1.\<close>

definition humanDelay :: "rat \<Rightarrow> rat \<Rightarrow> rat \<Rightarrow> rat" where
  "humanDelay lo hi random = of_int \<lfloor>random * (hi - lo + 1)\<rfloor> + lo"

definition rateLimitOk :: "penv \<Rightarrow> int \<Rightarrow> int list \<Rightarrow> bool \<times> int list" where
  "rateLimitOk env now minuteBuckets =
     (let kept = dropWhile (\<lambda>b. now - b > 60000) minuteBuckets
      in if num_le (env_num env ''TG_MAX_MSGS_PER_MINUTE'' 20) (Num (of_nat (length kept))) then (False, kept)
         else (True, kept @ [now]))"

subsection \<open>Job identifiers and the inbound filter\<close>

definition id_safe :: "nat \<Rightarrow> bool" where
  "id_safe c \<longleftrightarrow> js_letter c \<or> js_digit c \<or> c = 46 \<or> c = 95 \<or> c = 45"

text \<open>\<open>replace(/[^..]+/g, "-")\<close> and \<open>replace(/-+/g, "-")\<close>: each run of matching units becomes one dash.\<close>

fun dash_runs :: "(nat \<Rightarrow> bool) \<Rightarrow> bool \<Rightarrow> jstr \<Rightarrow> jstr" where
  "dash_runs p inside [] = []"
| "dash_runs p inside (c # s) =
     (if p c then (if inside then dash_runs p True s else 45 # dash_runs p True s) else c # dash_runs p False s)"

definition strip_dash :: "jstr \<Rightarrow> jstr" where
  "strip_dash s =
     (let t = (case s of c # r \<Rightarrow> if c = 45 then r else s | [] \<Rightarrow> [])
      in if t \<noteq> [] \<and> last t = 45 then butlast t else t)"

definition channelJobId :: "jstr \<Rightarrow> jstr option list \<Rightarrow> jstr" where
  "channelJobId kind parts =
     take 128 (strip_dash (dash_runs (\<lambda>c. c = 45) False (dash_runs (\<lambda>c. \<not> id_safe c) False
       (js_join (js ''-'') (kind # map (\<lambda>p. case p of None \<Rightarrow> js ''0'' | Some s \<Rightarrow> s) parts)))))"

definition isJobExistsError :: "jstr \<Rightarrow> bool" where
  "isJobExistsError msg = rx_test True (lit (js ''already exists'')) msg"

definition isPrivateUserChat :: "int \<Rightarrow> bool" where
  "isPrivateUserChat chatId \<longleftrightarrow> chatId > 0"

datatype blocked_id = BNum int | BStr jstr

definition blocked_text :: "blocked_id \<Rightarrow> jstr" where
  "blocked_text b = (case b of BNum n \<Rightarrow> show_int n | BStr s \<Rightarrow> s)"

definition shouldIgnoreInbound :: "int \<Rightarrow> int option \<Rightarrow> int option \<Rightarrow> blocked_id option list \<Rightarrow> bool" where
  "shouldIgnoreInbound chatId userId skipBotId blocked \<longleftrightarrow>
     \<not> isPrivateUserChat chatId
     \<or> (case skipBotId of Some b \<Rightarrow> b \<noteq> 0 \<and> (chatId = b \<or> userId = Some b) | None \<Rightarrow> False)
     \<or> list_ex (\<lambda>x. case x of None \<Rightarrow> False
          | Some i \<Rightarrow> i \<noteq> BStr [] \<and> (blocked_text i = show_int chatId
              \<or> (case userId of Some u \<Rightarrow> blocked_text i = show_int u | None \<Rightarrow> False))) blocked"

subsection \<open>Replay after a restart\<close>

record tg_message =
  tm_id :: int
  tm_out :: bool
  tm_chat :: int
  tm_user :: "int option"
  tm_text :: jstr
  tm_has_media :: bool

record inbound_msg =
  im_chat :: int
  im_user :: "int option"
  im_message_id :: int
  im_text :: jstr
  im_media :: bool

definition processTelegramMessage :: "tg_message \<Rightarrow> inbound_msg option" where
  "processTelegramMessage m =
     (let text = js_trim (tm_text m)
      in if tm_out m then None
         else if \<not> isPrivateUserChat (tm_chat m) then None
         else if text = [] \<and> \<not> tm_has_media m then None
         else Some \<lparr>im_chat = tm_chat m, im_user = tm_user m, im_message_id = tm_id m, im_text = text,
                im_media = tm_has_media m\<rparr>)"

record tg_dialog =
  dg_user :: "int option"
  dg_unread :: nat

definition latest_inbound :: "tg_message list \<Rightarrow> tg_message option" where
  "latest_inbound batch =
     (case rev (sort_key tm_id (filter (\<lambda>m. \<not> tm_out m) batch)) of [] \<Rightarrow> None | m # _ \<Rightarrow> Some m)"

text \<open>One dialog: the message handed on and the identifier up to which the chat is marked read.\<close>

definition catch_up_dialog :: "(int \<Rightarrow> nat \<Rightarrow> tg_message list) \<Rightarrow> int option \<Rightarrow> blocked_id option list \<Rightarrow> tg_dialog
    \<Rightarrow> inbound_msg list \<times> (int \<times> int) list" where
  "catch_up_dialog fetch skipBotId blocked dialog =
     (case (case dg_user dialog of Some u \<Rightarrow> if isPrivateUserChat u then Some u else None | None \<Rightarrow> None) of
        None \<Rightarrow> ([], [])
      | Some chatId \<Rightarrow>
          if shouldIgnoreInbound chatId None skipBotId blocked then ([], [])
          else let lim = (if 0 < dg_unread dialog then min (dg_unread dialog + 5) 80 else 0)
               in if lim = 0 then ([], [])
                  else case latest_inbound (fetch chatId lim) of
                         None \<Rightarrow> ([], [])
                       | Some m \<Rightarrow> (case processTelegramMessage m of Some i \<Rightarrow> [i] | None \<Rightarrow> [], [(chatId, tm_id m)]))"

definition catchUpPrivateChats :: "(int \<Rightarrow> nat \<Rightarrow> tg_message list) \<Rightarrow> int option \<Rightarrow> blocked_id option list \<Rightarrow> tg_dialog list
    \<Rightarrow> inbound_msg list \<times> (int \<times> int) list" where
  "catchUpPrivateChats fetch skipBotId blocked dialogs =
     (let rs = map (catch_up_dialog fetch skipBotId blocked) (take 150 dialogs)
      in (concat (map fst rs), concat (map snd rs)))"

definition catchUpChatSince :: "(int \<Rightarrow> int \<Rightarrow> tg_message list) \<Rightarrow> int \<Rightarrow> int option \<Rightarrow> inbound_msg list" where
  "catchUpChatSince fetch chatId minMessageId =
     (let minId = (case minMessageId of None \<Rightarrow> 0 | Some m \<Rightarrow> m)
      in if minId \<le> 0 then []
         else case latest_inbound (filter (\<lambda>m. minId < tm_id m) (fetch chatId minId)) of
                None \<Rightarrow> []
              | Some m \<Rightarrow> (case processTelegramMessage m of Some i \<Rightarrow> [i] | None \<Rightarrow> []))"

record open_deal =
  od_id :: jstr
  od_chat :: int
  od_last_message_id :: "int option"
  od_last_inbound_text :: "jstr option"
  od_needs_reply :: bool
  od_paused :: bool
  od_takeover :: bool

datatype resume_event = Replayed inbound_msg | Resumed jstr

text \<open>
  The calls of the two callbacks, in order. \<open>fetch\<close> gives the messages Telegram returns after an identifier, or
  \<open>None\<close> when the request fails; a failing callback is logged and the loop goes on, so the callbacks are events.
\<close>

fun resume_deals :: "(int \<Rightarrow> int \<Rightarrow> tg_message list option) \<Rightarrow> int set \<Rightarrow> open_deal list \<Rightarrow> resume_event list" where
  "resume_deals fetch seen [] = []"
| "resume_deals fetch seen (d # ds) =
     (if od_chat d \<le> 0 \<or> od_paused d \<or> od_takeover d then resume_deals fetch seen ds
      else (if od_chat d \<in> seen then []
            else case od_last_message_id d of
                   None \<Rightarrow> []
                 | Some i \<Rightarrow> if i \<le> 0 then []
                     else (case fetch (od_chat d) i of None \<Rightarrow> []
                           | Some ms \<Rightarrow> map Replayed (catchUpChatSince (\<lambda>_ _. ms) (od_chat d) (Some i))))
           @ (if od_needs_reply d \<and> js_trim (js_or (od_last_inbound_text d) []) \<noteq> [] then [Resumed (od_id d)] else [])
           @ resume_deals fetch (insert (od_chat d) seen) ds)"

subsection \<open>The router\<close>

datatype router_op = RAssign int "jstr option" | RBind int jstr

fun rt_step :: "tg_router \<Rightarrow> router_op \<Rightarrow> tg_router" where
  "rt_step r (RAssign c p) = snd (rt_assign c p r)"
| "rt_step r (RBind c i) = rt_bind c i r"

fun op_chat :: "router_op \<Rightarrow> int" where
  "op_chat (RAssign c p) = c"
| "op_chat (RBind c i) = c"

lemma rt_assign_other:
  "c' \<noteq> c \<Longrightarrow> rt_sticky (snd (rt_assign c p r)) c' = rt_sticky r c'"
  by (simp add: rt_assign_def rt_rotate_def Let_def split: option.splits)

lemma rt_assign_accounts [simp]: "rt_accounts (snd (rt_assign c p r)) = rt_accounts r"
  by (simp add: rt_assign_def rt_rotate_def Let_def split: option.splits)

lemma rt_step_other: "op_chat x \<noteq> c \<Longrightarrow> rt_sticky (rt_step r x) c = rt_sticky r c \<and> rt_accounts (rt_step r x) = rt_accounts r"
  by (cases x) (auto simp: rt_assign_other rt_bind_def)

lemma rt_steps_other:
  "list_all (\<lambda>x. op_chat x \<noteq> c) xs \<Longrightarrow>
   rt_sticky (foldl rt_step r xs) c = rt_sticky r c \<and> rt_accounts (foldl rt_step r xs) = rt_accounts r"
  by (induction xs arbitrary: r) (auto simp: rt_step_other)

lemma find_distinct_key:
  assumes "distinct (map k xs)" "x \<in> set xs"
  shows "find (\<lambda>y. k y = k x) xs = Some x"
  using assms by (induction xs) (auto simp: image_iff)

lemma rt_assign_result:
  assumes "distinct (map ta_id (rt_accounts r))" "rt_assign c p r = (Some a, r1)"
  shows "a \<in> set (rt_accounts r) \<and> rt_sticky r1 c = Some (ta_id a)"
proof (cases "rt_accounts r = []")
  case True
  then show ?thesis using assms(2) by (simp add: rt_assign_def)
next
  case False
  then have pick: "rt_accounts r ! (rt_rr r mod length (rt_accounts r)) \<in> set (rt_accounts r)" by simp
  show ?thesis
    using assms(2) False pick
    by (auto simp: rt_assign_def rt_rotate_def rt_get_def Let_def dest!: find_SomeD split: option.splits if_splits)
qed

text \<open>
  C14. A chat keeps its account. With accounts of distinct, non-empty identifiers, once a chat has been
  assigned an account, every later assignment of it without a preference gives the same account and leaves
  the router as it is, after any assignments and bindings of other chats in between.
\<close>

theorem router_sticky:
  assumes "distinct (map ta_id (rt_accounts r))" "\<forall>x \<in> set (rt_accounts r). ta_id x \<noteq> []"
    and "rt_assign c p r = (Some a, r1)" "list_all (\<lambda>x. op_chat x \<noteq> c) xs"
  shows "rt_assign c None (foldl rt_step r1 xs) = (Some a, foldl rt_step r1 xs)"
proof -
  let ?r2 = "foldl rt_step r1 xs"
  note a = rt_assign_result[OF assms(1,3)]
  have acc: "rt_accounts r1 = rt_accounts r" using rt_assign_accounts[of c p r] assms(3) by simp
  have 2: "rt_sticky ?r2 c = Some (ta_id a)" "rt_accounts ?r2 = rt_accounts r"
    using rt_steps_other[OF assms(4), of r1] a acc by auto
  have "rt_get (ta_id a) ?r2 = Some a"
    using find_distinct_key[OF assms(1)] a 2(2) by (simp add: rt_get_def)
  moreover have "ta_id a \<noteq> []" "rt_accounts ?r2 \<noteq> []" using a assms(2) 2(2) by auto
  ultimately show ?thesis using 2(1) by (simp add: rt_assign_def)
qed

definition demo_account :: "string \<Rightarrow> tg_account" where
  "demo_account i = \<lparr>ta_id = js i, ta_api_id = Num 1, ta_api_hash = js ''h'', ta_session = js ''s'',
     ta_manager_user_id = None, ta_label = None\<rparr>"

lemma router_sticky_witness:
  "rt_assign 5 None (foldl rt_step (snd (rt_assign 5 None (new_router [demo_account ''a'', demo_account ''b'']))) [RAssign 6 None, RBind 7 (js ''b'')])
   = (Some (demo_account ''a''), foldl rt_step (snd (rt_assign 5 None (new_router [demo_account ''a'', demo_account ''b'']))) [RAssign 6 None, RBind 7 (js ''b'')])"
proof -
  let ?r = "new_router [demo_account ''a'', demo_account ''b'']"
  have d: "distinct (map ta_id (rt_accounts ?r))" "\<forall>x \<in> set (rt_accounts ?r). ta_id x \<noteq> []"
    by (simp_all add: new_router_def demo_account_def js_def)
  have "rt_assign 5 None ?r = (Some (demo_account ''a''), snd (rt_assign 5 None ?r))"
    by (simp add: rt_assign_def rt_rotate_def new_router_def Let_def)
  moreover have "list_all (\<lambda>x. op_chat x \<noteq> 5) [RAssign 6 None, RBind 7 (js ''b'')]" by simp
  ultimately show ?thesis by (rule router_sticky[OF d])
qed

text \<open>New chats take the accounts in turn.\<close>

definition rt_take :: "tg_router \<Rightarrow> int \<Rightarrow> tg_router \<times> tg_account option list" where
  "rt_take r c = (case rt_assign c None r of (a, r') \<Rightarrow> (r', [a]))"

lemma router_rotation:
  assumes "rt_accounts r \<noteq> []" "distinct cs" "\<forall>c \<in> set cs. rt_sticky r c = None"
  shows "snd (run_stream rt_take r cs) =
      map (\<lambda>i. Some (rt_accounts r ! ((rt_rr r + i) mod length (rt_accounts r)))) [0..<length cs]"
  using assms
proof (induction cs arbitrary: r)
  case (Cons c cs)
  define r1 where "r1 = snd (rt_rotate c r)"
  have a: "rt_take r c = (r1, [Some (rt_accounts r ! (rt_rr r mod length (rt_accounts r)))])"
    using Cons.prems by (simp add: rt_take_def rt_assign_def rt_rotate_def Let_def r1_def)
  have r1: "rt_accounts r1 = rt_accounts r" "rt_rr r1 = rt_rr r + 1" "\<forall>x \<in> set cs. rt_sticky r1 x = None"
    using Cons.prems by (auto simp: r1_def rt_rotate_def Let_def)
  have "snd (run_stream rt_take r1 cs) =
      map (\<lambda>i. Some (rt_accounts r ! ((rt_rr r + Suc i) mod length (rt_accounts r)))) [0..<length cs]"
    using Cons.IH[of r1] Cons.prems r1 by simp
  moreover have "[0..<length (c # cs)] = 0 # map Suc [0..<length cs]"
    by (simp add: upt_conv_Cons map_Suc_upt del: upt_Suc)
  ultimately show ?case using a by (simp add: case_prod_beta del: upt_Suc)
qed simp

subsection \<open>The pace of sending\<close>

text \<open>\<open>rate_accepts\<close> lists the times at which sending was allowed, in order.\<close>

fun rate_accepts :: "penv \<Rightarrow> int list \<Rightarrow> int list \<Rightarrow> int list" where
  "rate_accepts env bs [] = []"
| "rate_accepts env bs (now # ts) =
     (let (ok, bs') = rateLimitOk env now bs in (if ok then [now] else []) @ rate_accepts env bs' ts)"

lemma dropWhile_sorted_filter:
  "sorted bs \<Longrightarrow> dropWhile (\<lambda>b. now - b > 60000) bs = filter (\<lambda>b. now - b \<le> 60000) (bs :: int list)"
proof (induction bs)
  case (Cons b bs)
  then show ?case by (cases "now - b > 60000") (auto intro!: filter_True[symmetric])
qed simp

definition paced :: "nat \<Rightarrow> int list \<Rightarrow> bool" where
  "paced m acc \<longleftrightarrow> (\<forall>k < length acc. length (filter (\<lambda>y. acc ! k - y \<le> 60000) (take k acc)) < m)"

lemma paced_snoc: "paced m (acc @ [x]) \<longleftrightarrow> paced m acc \<and> length (filter (\<lambda>y. x - y \<le> 60000) acc) < m"
  by (auto simp: paced_def nth_append less_Suc_eq)

lemma paced_window:
  "paced m acc \<Longrightarrow> sorted acc \<Longrightarrow> length (filter (\<lambda>y. t \<le> y \<and> y \<le> t + 60000) acc) \<le> m"
proof (induction acc rule: rev_induct)
  case (snoc x acc)
  have s: "sorted acc" "\<forall>y \<in> set acc. y \<le> x" using snoc.prems(2) by (auto simp: sorted_append)
  show ?case
  proof (cases "t \<le> x \<and> x \<le> t + 60000")
    case True
    have e: "filter (\<lambda>y. t \<le> y \<and> y \<le> t + 60000) acc = filter (\<lambda>y. t \<le> y \<and> y \<le> t + 60000) (filter (\<lambda>y. x - y \<le> 60000) acc)"
      using True by (auto simp: filter_filter intro!: filter_cong)
    have "length (filter (\<lambda>y. t \<le> y \<and> y \<le> t + 60000) acc) \<le> length (filter (\<lambda>y. x - y \<le> 60000) acc)"
      unfolding e by (rule length_filter_le)
    then show ?thesis using snoc.prems(1) True by (simp add: paced_snoc)
  next
    case False
    then show ?thesis using snoc s(1) by (auto simp: paced_snoc)
  qed
qed simp

lemma rate_accepts_paced:
  assumes "env_num env ''TG_MAX_MSGS_PER_MINUTE'' 20 = Num l"
  shows "sorted (past @ ts) \<Longrightarrow> sorted acc \<Longrightarrow> set acc \<subseteq> set past \<Longrightarrow> paced (nat \<lceil>l\<rceil>) acc \<Longrightarrow>
    (\<forall>now. (\<forall>p \<in> set past. p \<le> now) \<longrightarrow> filter (\<lambda>b. now - b \<le> 60000) bs = filter (\<lambda>b. now - b \<le> 60000) acc) \<Longrightarrow>
    sorted bs \<Longrightarrow> paced (nat \<lceil>l\<rceil>) (acc @ rate_accepts env bs ts) \<and> sorted (acc @ rate_accepts env bs ts)"
proof (induction ts arbitrary: past acc bs)
  case (Cons now ts)
  define kept where "kept = filter (\<lambda>b. now - b \<le> 60000) bs"
  have now: "\<forall>p \<in> set past. p \<le> now" using Cons.prems(1) by (auto simp: sorted_append)
  have kept: "kept = filter (\<lambda>b. now - b \<le> 60000) acc" using Cons.prems(5) now unfolding kept_def by blast
  have later: "filter (\<lambda>b. n - b \<le> 60000) kept = filter (\<lambda>b. n - b \<le> 60000) acc" if "now \<le> n" for n
    using that unfolding kept by (auto simp: filter_filter intro!: filter_cong)
  have sk: "sorted kept" using Cons.prems(6) by (simp add: kept_def sorted_wrt_filter)
  have so: "sorted ((past @ [now]) @ ts)" using Cons.prems(1) by simp
  have r: "rateLimitOk env now bs = (if l \<le> of_nat (length kept) then (False, kept) else (True, kept @ [now]))"
    using assms Cons.prems(6) by (simp add: rateLimitOk_def Let_def dropWhile_sorted_filter num_le_def kept_def)
  show ?case
  proof (cases "l \<le> of_nat (length kept)")
    case True
    have "\<forall>n. (\<forall>p \<in> set (past @ [now]). p \<le> n) \<longrightarrow> filter (\<lambda>b. n - b \<le> 60000) kept = filter (\<lambda>b. n - b \<le> 60000) acc"
      using later by simp
    from Cons.IH[OF so Cons.prems(2) _ Cons.prems(4) this sk] show ?thesis
      using Cons.prems(3) True r by auto
  next
    case False
    have sa: "sorted (acc @ [now])" using Cons.prems(2,3) now by (auto simp: sorted_append)
    have "int (length kept) < \<lceil>l\<rceil>" using False by (simp add: less_ceiling_iff)
    then have "length kept < nat \<lceil>l\<rceil>" by linarith
    then have pa: "paced (nat \<lceil>l\<rceil>) (acc @ [now])" using Cons.prems(4) kept by (simp add: paced_snoc)
    have f: "\<forall>n. (\<forall>p \<in> set (past @ [now]). p \<le> n) \<longrightarrow>
        filter (\<lambda>b. n - b \<le> 60000) (kept @ [now]) = filter (\<lambda>b. n - b \<le> 60000) (acc @ [now])"
      using later by simp
    have sk2: "sorted (kept @ [now])" using sk sa kept by (auto simp: sorted_append)
    have "set (acc @ [now]) \<subseteq> set (past @ [now])" using Cons.prems(3) by auto
    from Cons.IH[OF so sa this pa f sk2] show ?thesis using False r by simp
  qed
qed simp

text \<open>
  The limit on messages per minute holds in every minute, not only from one reset to the next: however
  often sending is asked for, at times in order, the number of permissions given within any span of sixty
  seconds, both ends included, is at most the configured limit (rounded up).
\<close>

theorem send_rate_bounded:
  assumes "env_num env ''TG_MAX_MSGS_PER_MINUTE'' 20 = Num l" "sorted ts"
  shows "length (filter (\<lambda>y. t \<le> y \<and> y \<le> t + 60000) (rate_accepts env [] ts)) \<le> nat \<lceil>l\<rceil>"
proof -
  have "paced (nat \<lceil>l\<rceil>) ([] @ rate_accepts env [] ts) \<and> sorted ([] @ rate_accepts env [] ts)"
    by (rule rate_accepts_paced[OF assms(1), of "[]"]) (simp_all add: assms(2) paced_def)
  then show ?thesis using paced_window by simp
qed

lemma send_rate_bounded_witness:
  "length (filter (\<lambda>y. 0 \<le> y \<and> y \<le> 0 + 60000) (rate_accepts [] [] (replicate 30 5))) \<le> 20"
proof -
  have l: "env_num [] ''TG_MAX_MSGS_PER_MINUTE'' 20 = Num 20" by (simp add: env_num_def env_get_def)
  have "nat \<lceil>20 :: rat\<rceil> = 20" by simp
  then show ?thesis using send_rate_bounded[OF l, of "replicate 30 5" 0] by simp
qed

subsection \<open>Job identifiers\<close>

fun no_double_dash :: "jstr \<Rightarrow> bool" where
  "no_double_dash (a # b # s) = ((a \<noteq> 45 \<or> b \<noteq> 45) \<and> no_double_dash (b # s))"
| "no_double_dash _ = True"

lemma dash_runs_safe:
  "list_all (\<lambda>c. id_safe c \<or> p c) s \<Longrightarrow> list_all id_safe (dash_runs p i s)"
  by (induction s arbitrary: i) (auto simp: id_safe_def)

lemma dash_runs_no_double:
  "no_double_dash (dash_runs (\<lambda>c. c = 45) i s)
   \<and> (i \<longrightarrow> (case dash_runs (\<lambda>c. c = 45) i s of [] \<Rightarrow> True | c # _ \<Rightarrow> c \<noteq> 45))"
proof (induction s arbitrary: i)
  case (Cons c s)
  show ?case
  proof (cases "c = 45")
    case True
    then show ?thesis
      using Cons[of True] by (cases i; cases "dash_runs (\<lambda>c. c = 45) True s") auto
  next
    case False
    then show ?thesis
      using Cons[of False] by (cases "dash_runs (\<lambda>c. c = 45) False s") auto
  qed
qed simp

lemma no_double_dash_append: "no_double_dash (a @ b) \<Longrightarrow> no_double_dash a \<and> no_double_dash b"
  by (induction a rule: no_double_dash.induct; cases b) auto

lemma list_all_append_part: "list_all P (a @ b) \<Longrightarrow> list_all P a \<and> list_all P b"
  by simp

lemma strip_dash_part:
  assumes "no_double_dash s"
  shows "\<exists>a b. s = a @ strip_dash s @ b" "case strip_dash s of [] \<Rightarrow> True | c # _ \<Rightarrow> c \<noteq> 45"
proof -
  define t where "t = (case s of c # r \<Rightarrow> if c = 45 then r else s | [] \<Rightarrow> [])"
  have t1: "\<exists>a. s = a @ t" unfolding t_def by (cases s) (auto intro: exI[of _ "[45]"])
  have t2: "case t of [] \<Rightarrow> True | c # _ \<Rightarrow> c \<noteq> 45"
  proof (cases s)
    case (Cons c r)
    then show ?thesis using assms unfolding t_def by (cases r) auto
  qed (simp add: t_def)
  have st: "strip_dash s = (if t \<noteq> [] \<and> last t = 45 then butlast t else t)"
    by (simp add: strip_dash_def t_def Let_def)
  have t3: "\<exists>b. t = strip_dash s @ b"
  proof (cases "t \<noteq> [] \<and> last t = 45")
    case True
    then have "t = strip_dash s @ [45]" using append_butlast_last_id[of t] by (simp add: st)
    then show ?thesis by blast
  next
    case False
    then have "t = strip_dash s @ []" by (auto simp: st)
    then show ?thesis by blast
  qed
  then show "\<exists>a b. s = a @ strip_dash s @ b" using t1 by metis
  show "case strip_dash s of [] \<Rightarrow> True | c # _ \<Rightarrow> c \<noteq> 45" using t2 t3 by (auto split: list.splits)
qed

lemma dash_runs_hd: "\<not> p c \<Longrightarrow> dash_runs p i (c # s) = c # dash_runs p False s"
  by simp

lemma channel_id_hd:
  assumes "js_letter c"
  shows "\<exists>r. channelJobId (c # k) parts = c # r"
proof -
  have s: "id_safe c" "c \<noteq> 45" using assms by (auto simp: id_safe_def js_letter_def)
  obtain r0 where j: "js_join (js ''-'') ((c # k) # map (\<lambda>p. case p of None \<Rightarrow> js ''0'' | Some s \<Rightarrow> s) parts) = c # r0"
    by (cases parts) auto
  obtain r1 where r1: "dash_runs (\<lambda>c. c = 45) False (dash_runs (\<lambda>c. \<not> id_safe c) False (c # r0)) = c # r1"
    using s by simp
  have "strip_dash (c # r1) = c # r1 \<or> r1 \<noteq> [] \<and> strip_dash (c # r1) = c # butlast r1"
    using s(2) by (auto simp: strip_dash_def Let_def)
  then obtain r2 where "strip_dash (c # r1) = c # r2" by blast
  moreover have "take 128 (c # r2) = c # take 127 r2" by (simp add: take_Cons')
  ultimately show ?thesis unfolding channelJobId_def j r1 by simp
qed

text \<open>
  C37. An identifier whose kind begins with a letter, as the kind the gateway passes does, has the form a
  custom identifier must have: it begins with that letter, so it is neither empty nor a number nor led by a dash, it has at
  most 128 characters, all of them letters, digits, dots, underscores or dashes (so never a colon), and no two dashes
  stand side by side, whatever the rest of the kind and the parts contain.
\<close>

theorem channel_job_id_wellformed:
  assumes "js_letter c"
  shows "length (channelJobId (c # k) parts) \<le> 128 \<and> list_all id_safe (channelJobId (c # k) parts)
    \<and> 58 \<notin> set (channelJobId (c # k) parts) \<and> no_double_dash (channelJobId (c # k) parts)
    \<and> (\<exists>r. channelJobId (c # k) parts = c # r) \<and> digits_value 10 0 (channelJobId (c # k) parts) = None"
proof -
  define kind where "kind = c # k"
  define raw where "raw = js_join (js ''-'') (kind # map (\<lambda>p. case p of None \<Rightarrow> js ''0'' | Some s \<Rightarrow> s) parts)"
  define safe where "safe = dash_runs (\<lambda>c. c = 45) False (dash_runs (\<lambda>c. \<not> id_safe c) False raw)"
  have "list_all id_safe (dash_runs (\<lambda>c. \<not> id_safe c) False raw)" by (rule dash_runs_safe) (simp add: list_all_iff)
  then have s1: "list_all id_safe safe" unfolding safe_def by (intro dash_runs_safe) (auto simp: list_all_iff)
  have s2: "no_double_dash safe" unfolding safe_def using dash_runs_no_double by blast
  obtain a b where ab: "safe = a @ strip_dash safe @ b" using strip_dash_part(1)[OF s2] by blast
  have ch: "channelJobId kind parts = take 128 (strip_dash safe)"
    by (simp add: channelJobId_def safe_def raw_def)
  obtain c' where c': "strip_dash safe = channelJobId kind parts @ c'" unfolding ch by (metis append_take_drop_id)
  have 1: "list_all id_safe (channelJobId kind parts)" using s1 ab c' by (metis list_all_append)
  moreover have "no_double_dash (channelJobId kind parts)" using s2 ab c' no_double_dash_append by metis
  moreover have "58 \<notin> set (channelJobId kind parts)"
    using 1 by (auto simp: list_all_iff id_safe_def js_letter_def js_digit_def)
  moreover obtain r where r: "channelJobId kind parts = c # r" using channel_id_hd[OF assms, of k parts] by (auto simp: kind_def)
  moreover have "digit_val c = None \<or> (\<exists>d \<ge> 10. digit_val c = Some d)"
    using assms by (auto simp: digit_val_def js_letter_def)
  then have "digits_value 10 0 (c # r) = None" by (auto split: option.splits)
  moreover have "length (channelJobId kind parts) \<le> 128" by (simp add: ch)
  ultimately show ?thesis unfolding kind_def by (metis (no_types))
qed

lemma channel_job_id_wellformed_witness:
  "\<exists>r. channelJobId (js ''esc'') [Some (js ''12''), None] = 101 # r"
  using channel_job_id_wellformed[of 101 "[115, 99]" "[Some (js ''12''), None]"] by (simp add: js_letter_def js_def)

subsection \<open>Replay\<close>

text \<open>Deals under a manager's control are left alone by the replay.\<close>

lemma resume_only_free_deals:
  "Resumed i \<in> set (resume_deals fetch seen ds) \<Longrightarrow>
   \<exists>d \<in> set ds. od_id d = i \<and> \<not> od_paused d \<and> \<not> od_takeover d \<and> od_needs_reply d"
  by (induction fetch seen ds rule: resume_deals.induct) (auto split: if_splits option.splits)

text \<open>
  A client who wrote before the stop and again while the gateway was down is answered twice: the new
  message is replayed and the stored one is resumed as well.
\<close>

lemma restart_answers_twice:
  "resume_deals (\<lambda>_ _. Some [\<lparr>tm_id = 11, tm_out = False, tm_chat = 5, tm_user = Some 5, tm_text = js ''new'', tm_has_media = False\<rparr>]) {}
     [\<lparr>od_id = js ''d1'', od_chat = 5, od_last_message_id = Some 10, od_last_inbound_text = Some (js ''old''),
       od_needs_reply = True, od_paused = False, od_takeover = False\<rparr>] =
   [Replayed \<lparr>im_chat = 5, im_user = Some 5, im_message_id = 11, im_text = js ''new'', im_media = False\<rparr>, Resumed (js ''d1'')]"
  by (simp add: catchUpChatSince_def latest_inbound_def processTelegramMessage_def isPrivateUserChat_def js_text_eval Let_def)

end
