(* ===== verification/MtProxy.thy ===== *)
theory MtProxy
  imports RateLimit HexText SipCaller Regex
begin

text \<open>
  Proxy configuration (\<open>packages/shared/src/proxy.ts\<close>): the HTTP/SOCKS proxy of the environment and its URLs,
  MTProxy links and secrets, the choice made for the Telegram client, the cached proxy agent and the refresh
  from the provider's list. The URL parser and the provider's answer are parameters; an agent is a number.
  \<open>encodeURIComponent\<close> and \<open>toString("utf8")\<close> follow ECMAScript and the encoding standard.
\<close>

subsection \<open>UTF-8 and percent encoding\<close>

definition utf8_bytes :: "nat \<Rightarrow> nat list" where
  "utf8_bytes cp =
     (if cp < 128 then [cp]
      else if cp < 2048 then [192 + cp div 64, 128 + cp mod 64]
      else if cp < 65536 then [224 + cp div 4096, 128 + cp div 64 mod 64, 128 + cp mod 64]
      else [240 + cp div 262144, 128 + cp div 4096 mod 64, 128 + cp div 64 mod 64, 128 + cp mod 64])"

definition hex_upper :: "nat \<Rightarrow> nat" where
  "hex_upper d = (if d < 10 then 48 + d else 55 + d)"

definition pct_byte :: "nat \<Rightarrow> jstr" where
  "pct_byte b = [37, hex_upper (b div 16), hex_upper (b mod 16)]"

definition uri_unreserved :: "nat \<Rightarrow> bool" where
  "uri_unreserved c \<longleftrightarrow> js_letter c \<or> js_digit c \<or> c \<in> {45, 95, 46, 33, 126, 42, 39, 40, 41}"

fun encodeURIComponent :: "jstr \<Rightarrow> jstr option" where
  "encodeURIComponent [] = Some []"
| "encodeURIComponent (c # s) =
     (if uri_unreserved c then map_option ((#) c) (encodeURIComponent s)
      else if c < 55296 \<or> 57343 < c then map_option (\<lambda>t. concat (map pct_byte (utf8_bytes c)) @ t) (encodeURIComponent s)
      else if 56320 \<le> c then None
      else case s of
        [] \<Rightarrow> None
      | l # r \<Rightarrow> if 56320 \<le> l \<and> l \<le> 57343
          then map_option (\<lambda>t. concat (map pct_byte (utf8_bytes ((c - 55296) * 1024 + (l - 56320) + 65536))) @ t) (encodeURIComponent r)
          else None)"

text \<open>
  The decoder of the encoding standard: code point, bytes still needed, and the range the next byte must
  be in. A byte outside the range ends the sequence with a replacement character and is read again.
\<close>

fun utf8_text :: "nat \<Rightarrow> nat \<Rightarrow> nat \<Rightarrow> nat \<Rightarrow> nat list \<Rightarrow> jstr" where
  "utf8_text cp need lo hi [] = (if need = 0 then [] else [65533])"
| "utf8_text cp need lo hi (b # bs) =
     (let start = (\<lambda>b. if b < 128 then b # utf8_text 0 0 128 191 bs
            else if b < 194 \<or> 244 < b then 65533 # utf8_text 0 0 128 191 bs
            else if b < 224 then utf8_text (b - 192) 1 128 191 bs
            else if b < 240 then utf8_text (b - 224) 2 (if b = 224 then 160 else 128) (if b = 237 then 159 else 191) bs
            else utf8_text (b - 240) 3 (if b = 240 then 144 else 128) (if b = 244 then 143 else 191) bs)
      in if need = 0 then start b
         else if lo \<le> b \<and> b \<le> hi
         then (if need = 1 then utf16_units (cp * 64 + (b - 128)) @ utf8_text 0 0 128 191 bs
               else utf8_text (cp * 64 + (b - 128)) (need - 1) 128 191 bs)
         else 65533 # start b)"

definition utf8_toString :: "bytes \<Rightarrow> jstr" where
  "utf8_toString bs = utf8_text 0 0 128 191 (map unat bs)"

subsection \<open>The proxy of the environment\<close>

datatype proxy_type = Socks5 | HttpProxy

record app_proxy_config =
  px_host :: jstr
  px_port :: numval
  px_username :: jstr
  px_password :: jstr
  px_type :: proxy_type

definition envTrim :: "penv \<Rightarrow> string \<Rightarrow> jstr" where
  "envTrim env name = js_trim (js_or (env_get env name) [])"

definition proxy_envBool :: "penv \<Rightarrow> string \<Rightarrow> bool \<Rightarrow> bool" where
  "proxy_envBool env name fallback =
     (case env_get env name of None \<Rightarrow> fallback
      | Some v \<Rightarrow> if v = [] then fallback else js_toLowerCase v \<in> set (map js [''1'', ''true'', ''yes'', ''on'']))"

definition first_text :: "jstr list \<Rightarrow> jstr" where
  "first_text ss = (case filter (\<lambda>s. s \<noteq> []) ss of [] \<Rightarrow> [] | s # _ \<Rightarrow> s)"

text \<open>Finite and positive.\<close>

definition port_ok :: "numval \<Rightarrow> bool" where
  "port_ok n = (case n of Num p \<Rightarrow> 0 < p | _ \<Rightarrow> False)"

definition port_truthy :: "numval \<Rightarrow> bool" where
  "port_truthy n \<longleftrightarrow> n \<noteq> NaN \<and> n \<noteq> Num 0"

definition loadAppProxy :: "penv \<Rightarrow> app_proxy_config option" where
  "loadAppProxy env =
     (let host = first_text [envTrim env ''PROXY_HOST'', envTrim env ''PX6_HOST''];
          port = js_Number (first_text [envTrim env ''PROXY_PORT'', envTrim env ''PX6_PORT'', js ''0'']);
          enabled = proxy_envBool env ''PROXY_ENABLED'' (host \<noteq> [] \<and> port_truthy port);
          typeRaw = js_toLowerCase (first_text [envTrim env ''PROXY_TYPE'', js ''socks5''])
      in if \<not> enabled \<or> host = [] \<or> \<not> port_ok port then None
         else Some \<lparr>px_host = host, px_port = port,
           px_username = first_text [envTrim env ''PROXY_USERNAME'', envTrim env ''PROXY_USER'', envTrim env ''PX6_USER''],
           px_password = first_text [envTrim env ''PROXY_PASSWORD'', envTrim env ''PROXY_PASS'', envTrim env ''PX6_PASS''],
           px_type = (if typeRaw = js ''http'' \<or> typeRaw = js ''https'' then HttpProxy else Socks5)\<rparr>)"

text \<open>A lone surrogate in the credentials makes the encoding throw (\<open>None\<close>).\<close>

definition authPrefix :: "app_proxy_config \<Rightarrow> jstr option" where
  "authPrefix cfg =
     (if px_username cfg = [] then Some []
      else case (encodeURIComponent (px_username cfg), encodeURIComponent (px_password cfg)) of
        (Some u, Some p) \<Rightarrow> Some (u @ js '':'' @ p @ js ''@'')
      | _ \<Rightarrow> None)"

text \<open>The port as the template literal writes it; ports are integers.\<close>

definition port_text :: "numval \<Rightarrow> jstr" where
  "port_text n = (case n of Num p \<Rightarrow> show_int \<lfloor>p\<rfloor> | _ \<Rightarrow> [])"

definition httpProxyUrl :: "app_proxy_config \<Rightarrow> jstr option" where
  "httpProxyUrl cfg = map_option (\<lambda>a. js ''http://'' @ a @ px_host cfg @ js '':'' @ port_text (px_port cfg)) (authPrefix cfg)"

definition socksProxyUrl :: "app_proxy_config \<Rightarrow> jstr option" where
  "socksProxyUrl cfg = map_option (\<lambda>a. js ''socks5://'' @ a @ px_host cfg @ js '':'' @ port_text (px_port cfg)) (authPrefix cfg)"

subsection \<open>MTProxy links and secrets\<close>

record parsed_url =
  pu_param :: "jstr \<Rightarrow> jstr option"
  pu_hostname :: jstr
  pu_port :: jstr

record tg_proxy_uri =
  tp_host :: jstr
  tp_port :: numval
  tp_secret :: jstr

definition https_of_tg :: "jstr \<Rightarrow> jstr" where
  "https_of_tg raw = (if js_toLowerCase (take 3 raw) = js ''tg:'' then js ''https:'' @ drop 3 raw else raw)"

definition parseTgProxyUri :: "(jstr \<Rightarrow> parsed_url option) \<Rightarrow> jstr \<Rightarrow> tg_proxy_uri option" where
  "parseTgProxyUri url uri =
     (let raw = js_trim uri
      in if raw = [] then None
         else case url (https_of_tg raw) of
           None \<Rightarrow> None
         | Some u \<Rightarrow>
             let host = js_or (pu_param u (js ''server'')) (pu_hostname u);
                 port = js_Number (js_or (pu_param u (js ''port'')) (js_or (Some (pu_port u)) (js ''443'')));
                 secret = js_or (pu_param u (js ''secret'')) []
             in if host = [] \<or> secret = [] then None
                else Some \<lparr>tp_host = host, tp_port = (if port_ok port then port else Num 443), tp_secret = secret\<rparr>)"

definition all_hex :: "jstr \<Rightarrow> bool" where
  "all_hex s \<longleftrightarrow> s \<noteq> [] \<and> list_all (\<lambda>c. hex_digit c \<noteq> None) s"

definition decodeMtProtoSecretBytes :: "(jstr \<Rightarrow> parsed_url option) \<Rightarrow> jstr \<Rightarrow> bytes" where
  "decodeMtProtoSecretBytes url raw =
     (let secret0 = js_trim raw;
          secret = (case parseTgProxyUri url secret0 of Some p \<Rightarrow> tp_secret p | None \<Rightarrow> secret0)
      in if all_hex secret \<and> 32 \<le> length secret \<and> length secret mod 2 = 0 then from_hex secret
         else let buf = from_base64 secret
              in if length buf < 16 then from_base64 (map (\<lambda>c. if c = 45 then 43 else if c = 95 then 47 else c) secret)
                 else buf)"

record mtproto_secret =
  ms_keyHex :: jstr
  ms_domain :: "jstr option"
  ms_fakeTls :: bool

definition parseMtProtoSecret :: "(jstr \<Rightarrow> parsed_url option) \<Rightarrow> jstr \<Rightarrow> mtproto_secret" where
  "parseMtProtoSecret url raw =
     (let buf = decodeMtProtoSecretBytes url raw
      in if 18 \<le> length buf \<and> buf ! 0 = 0xee
         then \<lparr>ms_keyHex = to_hex (take 16 (drop 1 buf)),
                ms_domain = Some (js_trim (filter (\<lambda>c. c \<noteq> 0) (utf8_toString (drop 17 buf)))), ms_fakeTls = True\<rparr>
         else if 17 \<le> length buf \<and> buf ! 0 = 0xdd
         then \<lparr>ms_keyHex = to_hex (take 17 buf), ms_domain = None, ms_fakeTls = False\<rparr>
         else if 16 \<le> length buf
         then \<lparr>ms_keyHex = to_hex (take 16 buf), ms_domain = None, ms_fakeTls = False\<rparr>
         else \<lparr>ms_keyHex = js_trim raw, ms_domain = None, ms_fakeTls = False\<rparr>)"

definition normalizeMtProtoSecret :: "(jstr \<Rightarrow> parsed_url option) \<Rightarrow> jstr \<Rightarrow> jstr" where
  "normalizeMtProtoSecret url raw = ms_keyHex (parseMtProtoSecret url raw)"

record mtproto_proxy =
  mp_ip :: jstr
  mp_port :: numval
  mp_secret :: jstr
  mp_fakeTlsDomain :: "jstr option"

definition loadMtProtoProxy :: "(jstr \<Rightarrow> parsed_url option) \<Rightarrow> penv \<Rightarrow> mtproto_proxy option" where
  "loadMtProtoProxy url env =
     (if \<not> proxy_envBool env ''PROXY_ENABLED'' True \<and> \<not> proxy_envBool env ''TG_MTPROTO_ENABLED'' False then None
      else if env_get env ''TG_MTPROTO_ENABLED'' \<noteq> None \<and> \<not> proxy_envBool env ''TG_MTPROTO_ENABLED'' True then None
      else
        let uri = first_text [envTrim env ''TG_MTPROTO_URI'', envTrim env ''PROXY_MTPROTO_URI''];
            parsed = (if uri = [] then None else parseTgProxyUri url uri);
            host = first_text [envTrim env ''TG_MTPROTO_HOST'', envTrim env ''PROXY_MTPROTO_HOST'',
              (case parsed of Some p \<Rightarrow> tp_host p | None \<Rightarrow> [])];
            portTxt = first_text [envTrim env ''TG_MTPROTO_PORT'', envTrim env ''PROXY_MTPROTO_PORT''];
            port = (if portTxt \<noteq> [] then js_Number portTxt
                    else case parsed of Some p \<Rightarrow> tp_port p | None \<Rightarrow> Num 443);
            secretRaw = first_text [envTrim env ''TG_MTPROTO_SECRET'', envTrim env ''PROXY_MTPROTO_SECRET'',
              (case parsed of Some p \<Rightarrow> tp_secret p | None \<Rightarrow> [])]
        in if host = [] \<or> secretRaw = [] \<or> \<not> port_ok port then None
           else let s = parseMtProtoSecret url secretRaw
                in Some \<lparr>mp_ip = host, mp_port = port, mp_secret = ms_keyHex s,
                     mp_fakeTlsDomain = (if ms_fakeTls s then (case ms_domain s of Some d \<Rightarrow> if d = [] then None else Some d | None \<Rightarrow> None)
                       else None)\<rparr>)"

datatype gram_proxy = MtProxy mtproto_proxy | SocksProxy jstr numval "jstr option" "jstr option"

definition nonempty :: "jstr \<Rightarrow> jstr option" where
  "nonempty s = (if s = [] then None else Some s)"

definition gramJsProxy :: "(jstr \<Rightarrow> parsed_url option) \<Rightarrow> penv \<Rightarrow> gram_proxy option" where
  "gramJsProxy url env =
     (case loadMtProtoProxy url env of
        Some mt \<Rightarrow> Some (MtProxy mt)
      | None \<Rightarrow> map_option (\<lambda>cfg. SocksProxy (px_host cfg) (px_port cfg) (nonempty (px_username cfg)) (nonempty (px_password cfg)))
                  (loadAppProxy env))"

subsection \<open>The cached agent and the refresh from the provider\<close>

record agent_cache =
  ac_agent :: "(jstr \<times> nat) option"
  ac_next :: nat

text \<open>The outer \<open>None\<close> is the thrown encoding error; the state is then unchanged.\<close>

definition proxyDispatcher :: "penv \<Rightarrow> agent_cache \<Rightarrow> (nat option \<times> agent_cache) option" where
  "proxyDispatcher env ac =
     (case loadAppProxy env of
        None \<Rightarrow> Some (None, ac\<lparr>ac_agent := None\<rparr>)
      | Some cfg \<Rightarrow>
          (case httpProxyUrl cfg of
             None \<Rightarrow> None
           | Some url \<Rightarrow>
               (case ac_agent ac of
                  Some (k, a) \<Rightarrow>
                    if k = url then Some (Some a, ac)
                    else Some (Some (ac_next ac), \<lparr>ac_agent = Some (url, ac_next ac), ac_next = ac_next ac + 1\<rparr>)
                | None \<Rightarrow> Some (Some (ac_next ac), \<lparr>ac_agent = Some (url, ac_next ac), ac_next = ac_next ac + 1\<rparr>))))"

record px6_item =
  p6_host :: "jstr option"
  p6_port :: "jstr option"
  p6_user :: "jstr option"
  p6_pass :: "jstr option"
  p6_secret :: "jstr option"
  p6_type :: "jstr option"
  p6_descr :: "jstr option"

definition set_env :: "string \<Rightarrow> jstr \<Rightarrow> penv \<Rightarrow> penv" where
  "set_env name v env = (js name, v) # env"

definition set_env_opt :: "string \<Rightarrow> jstr option \<Rightarrow> penv \<Rightarrow> penv" where
  "set_env_opt name v env = (case v of Some s \<Rightarrow> if s = [] then env else set_env name s env | None \<Rightarrow> env)"

definition find_or :: "('a \<Rightarrow> bool) \<Rightarrow> 'a list \<Rightarrow> 'a option \<Rightarrow> 'a option" where
  "find_or p xs d = (case find p xs of Some x \<Rightarrow> Some x | None \<Rightarrow> d)"

definition item_port :: "px6_item \<Rightarrow> numval" where
  "item_port p = (case p6_port p of None \<Rightarrow> NaN | Some s \<Rightarrow> js_Number s)"

definition refreshPx6ProxyFromApi :: "px6_item list \<Rightarrow> penv \<Rightarrow> agent_cache \<Rightarrow> app_proxy_config option \<times> penv \<times> agent_cache" where
  "refreshPx6ProxyFromApi apiList env ac =
     (case loadAppProxy env of
        Some existing \<Rightarrow> (Some existing, env, ac)
      | None \<Rightarrow>
          let httpHost = envTrim env ''PROXY_HOST'';
              first = find_or (\<lambda>p. js_or (p6_host p) [] \<noteq> [] \<and> item_port p \<noteq> Num 443 \<and> p6_host p \<noteq> Some (js ''38.154.88.76'')) apiList
                (find_or (\<lambda>p. js_or (p6_host p) [] \<noteq> [] \<and> p6_host p = Some httpHost) apiList
                  (case apiList of [] \<Rightarrow> None | p # _ \<Rightarrow> Some p))
          in (case first of
                None \<Rightarrow> (None, env, ac)
              | Some p \<Rightarrow>
                  if js_or (p6_host p) [] = [] \<or> js_or (p6_port p) [] = [] then (None, env, ac)
                  else let env1 = set_env_opt ''PROXY_PASSWORD'' (p6_pass p) (set_env_opt ''PROXY_USERNAME'' (p6_user p)
                             (set_env ''PROXY_PORT'' (js_or (p6_port p) []) (set_env ''PROXY_HOST'' (js_or (p6_host p) [])
                               (set_env ''PROXY_ENABLED'' (js ''true'') env))))
                       in (loadAppProxy env1, env1, ac\<lparr>ac_agent := None\<rparr>)))"

definition is_mtproto_item :: "jstr \<Rightarrow> px6_item \<Rightarrow> bool" where
  "is_mtproto_item httpHost p \<longleftrightarrow>
     js_or (p6_secret p) [] \<noteq> []
     \<or> rx_test True (lit (js ''mtproto'')) (js_or (p6_type p) (js_or (p6_descr p) []))
     \<or> (item_port p = Num 443 \<and> 16 \<le> length (js_or (p6_secret p) (js_or (p6_pass p) []))
        \<and> (case p6_host p of None \<Rightarrow> js ''undefined'' | Some h \<Rightarrow> h) \<noteq> httpHost)"

definition refreshPx6MtProtoFromApi :: "(jstr \<Rightarrow> parsed_url option) \<Rightarrow> px6_item list \<Rightarrow> penv \<Rightarrow> mtproto_proxy option \<times> penv" where
  "refreshPx6MtProtoFromApi url apiList env =
     (let existing = loadMtProtoProxy url env
      in case find (is_mtproto_item (envTrim env ''PROXY_HOST'')) apiList of
           None \<Rightarrow> (existing, env)
         | Some mt \<Rightarrow>
             let secret = js_or (p6_secret mt) (js_or (p6_pass mt) [])
             in if js_or (p6_host mt) [] \<noteq> [] \<and> secret \<noteq> []
                then let env1 = set_env ''TG_MTPROTO_SECRET'' secret (set_env ''TG_MTPROTO_PORT'' (js_or (p6_port mt) (js ''443''))
                           (set_env ''TG_MTPROTO_HOST'' (js_or (p6_host mt) []) env))
                     in (loadMtProtoProxy url env1, env1)
                else (existing, env))"

subsection \<open>Credentials in the URL\<close>

lemma hex_val_upper: "d < 16 \<Longrightarrow> hex_val (hex_upper d) = Some d"
  by (auto simp: hex_val_def hex_upper_def digit_val_def js_digit_def)

lemma pct_tokens_byte:
  assumes "b < 256"
  shows "pct_tokens (pct_byte b @ s) = map_option (\<lambda>ts. PctByte b # ts) (pct_tokens s)"
proof -
  have "b div 16 < 16" using assms by (simp add: less_mult_imp_div_less)
  then show ?thesis by (simp add: pct_byte_def hex_val_upper)
qed

lemma pct_tokens_bytes:
  "list_all (\<lambda>b. b < 256) bs \<Longrightarrow>
   pct_tokens (concat (map pct_byte bs) @ s) = map_option (\<lambda>ts. map PctByte bs @ ts) (pct_tokens s)"
  by (induction bs) (auto simp: pct_tokens_byte option.map_comp comp_def split: option.split simp: option.map_ident cong: option.map_cong)

lemma utf8_bytes_range: "cp < 1114112 \<Longrightarrow> list_all (\<lambda>b. b < 256) (utf8_bytes cp)"
proof -
  assume cp: "cp < 1114112"
  have "cp < 2048 \<Longrightarrow> cp div 64 < 32" "cp < 65536 \<Longrightarrow> cp div 4096 < 16" "cp div 262144 < 5"
    using cp by (simp_all add: less_mult_imp_div_less)
  moreover have "cp mod 64 < 64" "cp div 64 mod 64 < 64" "cp div 4096 mod 64 < 64" by simp_all
  ultimately show ?thesis unfolding utf8_bytes_def by (auto intro: less_trans)
qed

lemma utf8_digits:
  "cp div 64 * 64 + cp mod 64 = (cp :: nat)"
  "cp div 4096 * 4096 + cp div 64 mod 64 * 64 + cp mod 64 = cp"
  "cp div 262144 * 262144 + cp div 4096 mod 64 * 4096 + cp div 64 mod 64 * 64 + cp mod 64 = cp"
proof -
  have a: "n = n div 64 * 64 + n mod 64" for n :: nat by simp
  have b: "cp div 64 div 64 = cp div 4096" "cp div 4096 div 64 = cp div 262144" by (simp_all flip: div_mult2_eq)
  show "cp div 64 * 64 + cp mod 64 = cp" by simp
  show "cp div 4096 * 4096 + cp div 64 mod 64 * 64 + cp mod 64 = cp"
    using a[of cp] a[of "cp div 64"] b by linarith
  show "cp div 262144 * 262144 + cp div 4096 mod 64 * 4096 + cp div 64 mod 64 * 64 + cp mod 64 = cp"
    using a[of cp] a[of "cp div 64"] a[of "cp div 4096"] b by linarith
qed

lemma utf8_decode_bytes:
  assumes "cp < 1114112" "\<not> (55296 \<le> cp \<and> cp < 57344)"
  shows "utf8_decode (map PctByte (utf8_bytes cp) @ ts) = map_option (\<lambda>s. utf16_units cp @ s) (utf8_decode ts)"
proof -
  have m: "cp mod 64 < 64" "cp div 64 mod 64 < 64" "cp div 4096 mod 64 < 64" by simp_all
  consider "cp < 128" | "128 \<le> cp" "cp < 2048" | "2048 \<le> cp" "cp < 65536" | "65536 \<le> cp" by linarith
  then show ?thesis
  proof cases
    case 1
    then show ?thesis by (simp add: utf8_bytes_def utf16_units_def)
  next
    case 2
    have "64 * 2 \<le> cp" "cp < 64 * 32" using 2 by simp_all
    then have d: "2 \<le> cp div 64" "cp div 64 < 32" by linarith+
    have u: "utf8_bytes cp = [192 + cp div 64, 128 + cp mod 64]" "utf16_units cp = [cp]"
      using 2 by (simp_all add: utf8_bytes_def utf16_units_def)
    show ?thesis
      using d m(1) utf8_digits(1)[of cp] by (cases "utf8_decode ts") (simp_all add: u utf8_cont_def)
  next
    case 3
    then have d: "cp div 4096 < 16" by (simp add: less_mult_imp_div_less)
    have u: "utf8_bytes cp = [224 + cp div 4096, 128 + cp div 64 mod 64, 128 + cp mod 64]"
      using 3 by (simp add: utf8_bytes_def)
    show ?thesis
      using d m assms 3(1) utf8_digits(2)[of cp] by (simp add: u utf8_cont_def Let_def)
  next
    case 4
    then have d: "cp div 262144 < 5" using assms by (simp add: less_mult_imp_div_less)
    have u: "utf8_bytes cp = [240 + cp div 262144, 128 + cp div 4096 mod 64, 128 + cp div 64 mod 64, 128 + cp mod 64]"
      using 4 by (simp add: utf8_bytes_def)
    show ?thesis
      using d m assms 4 utf8_digits(3)[of cp] by (simp add: u utf8_cont_def Let_def)
  qed
qed

lemma unreserved_plain: "uri_unreserved c \<Longrightarrow> c \<noteq> 37"
  by (auto simp: uri_unreserved_def js_letter_def js_digit_def)

lemma encode_tokens:
  assumes "list_all (\<lambda>c. c < 65536) s" "encodeURIComponent s = Some t"
  shows "\<exists>ts. pct_tokens t = Some ts \<and> utf8_decode ts = Some s"
  using assms
proof (induction s arbitrary: t rule: encodeURIComponent.induct)
  case 1
  then show ?case by simp
next
  case (2 c s)
  show ?case
  proof (cases "uri_unreserved c")
    case True
    then obtain t' where t': "encodeURIComponent s = Some t'" "t = c # t'" using 2(5) by auto
    then obtain ts where "pct_tokens t' = Some ts" "utf8_decode ts = Some s" using 2(1)[OF True _ t'(1)] 2(4) by auto
    then show ?thesis using t' True unreserved_plain by simp
  next
    case res: False
    show ?thesis
    proof (cases "c < 55296 \<or> 57343 < c")
      case True
      then obtain t' where t': "encodeURIComponent s = Some t'" "t = concat (map pct_byte (utf8_bytes c)) @ t'"
        using 2(5) res by auto
      have c: "c < 65536" using 2(4) by simp
      obtain ts where "pct_tokens t' = Some ts" "utf8_decode ts = Some s" using 2(2)[OF res True _ t'(1)] 2(4) by auto
      then show ?thesis
        using t' c True pct_tokens_bytes[OF utf8_bytes_range[of c]] utf8_decode_bytes[of c ts]
        by (auto simp: utf16_units_def)
    next
      case sur: False
      then obtain l r where s: "s = l # r" "c < 56320" "56320 \<le> l \<and> l \<le> 57343"
        using 2(5) res by (auto split: if_splits list.splits)
      define cp where "cp = (c - 55296) * 1024 + (l - 56320) + 65536"
      have cp: "65536 \<le> cp" "cp < 1114112" using s sur by (auto simp: cp_def)
      obtain t' where t': "encodeURIComponent r = Some t'" "t = concat (map pct_byte (utf8_bytes cp)) @ t'"
        using 2(5) res sur s by (auto simp: cp_def)
      obtain ts where ts: "pct_tokens t' = Some ts" "utf8_decode ts = Some r"
        using 2(3)[OF res sur _ s(1) s(3) _ t'(1)] 2(4) s by auto
      have "cp - 65536 = (l - 56320) + (c - 55296) * 1024" "l - 56320 < 1024" using s by (auto simp: cp_def)
      then have "(cp - 65536) div 1024 = c - 55296" "(cp - 65536) mod 1024 = l - 56320"
        by simp_all
      then have u: "utf16_units cp = [c, l]" using cp s sur by (auto simp: utf16_units_def)
      show ?thesis
        using t' ts s u cp pct_tokens_bytes[OF utf8_bytes_range[OF cp(2)]] utf8_decode_bytes[OF cp(2), of ts] by auto
    qed
  qed
qed

lemma encode_safe: "encodeURIComponent s = Some t \<Longrightarrow> list_all (\<lambda>c. c < 65536) s \<Longrightarrow> list_all (\<lambda>c. uri_unreserved c \<or> c = 37) t"
proof (induction s arbitrary: t rule: encodeURIComponent.induct)
  case (2 c s)
  have h: "uri_unreserved (hex_upper d) \<or> hex_upper d = 37" if "d < 16" for d
    using that by (auto simp: uri_unreserved_def hex_upper_def js_letter_def js_digit_def)
  have p: "list_all (\<lambda>c. uri_unreserved c \<or> c = 37) (concat (map pct_byte bs))" if "list_all (\<lambda>b. b < 256) bs" for bs
    using that by (induction bs) (auto simp: pct_byte_def h less_mult_imp_div_less)
  show ?case
    using 2 by (auto split: if_splits list.splits intro!: p utf8_bytes_range)
qed simp

text \<open>
  Proxy credentials cannot change the URL they are put into. When they can be encoded at all, the part
  before the host is the encoded name, a colon, the encoded password and an at sign; neither encoded part
  holds a colon, an at sign or a slash, and decoding them gives the name and the password back.
\<close>

theorem proxy_credentials_roundtrip:
  assumes "authPrefix cfg = Some a" "px_username cfg \<noteq> []"
    and "list_all (\<lambda>c. c < 65536) (px_username cfg)" "list_all (\<lambda>c. c < 65536) (px_password cfg)"
  shows "\<exists>u p. a = u @ js '':'' @ p @ js ''@'' \<and> set (u @ p) \<inter> {58, 64, 47} = {}
    \<and> decodeURIComponent u = Some (px_username cfg) \<and> decodeURIComponent p = Some (px_password cfg)"
proof -
  obtain u p where e: "encodeURIComponent (px_username cfg) = Some u" "encodeURIComponent (px_password cfg) = Some p"
    "a = u @ js '':'' @ p @ js ''@''"
    using assms(1,2) by (auto simp: authPrefix_def split: option.splits)
  have "list_all (\<lambda>c. uri_unreserved c \<or> c = 37) (u @ p)" using encode_safe[OF e(1) assms(3)] encode_safe[OF e(2) assms(4)] by simp
  moreover have "\<forall>c \<in> {58, 64, 47}. \<not> (uri_unreserved c \<or> c = 37)"
    by (simp add: uri_unreserved_def js_letter_def js_digit_def)
  ultimately have "set (u @ p) \<inter> {58, 64, 47} = {}" unfolding list_all_iff by blast
  moreover have "decodeURIComponent u = Some (px_username cfg)" "decodeURIComponent p = Some (px_password cfg)"
    using encode_tokens[OF assms(3) e(1)] encode_tokens[OF assms(4) e(2)] by (auto simp: decodeURIComponent_def)
  ultimately show ?thesis using e(3) by blast
qed

definition demo_proxy :: app_proxy_config where
  "demo_proxy = \<lparr>px_host = js ''h'', px_port = Num 80, px_username = js ''a@b'', px_password = js '':'', px_type = Socks5\<rparr>"

lemma proxy_credentials_roundtrip_witness:
  "authPrefix demo_proxy = Some (js ''a%40b:%3A@'') \<and> decodeURIComponent (js ''a%40b'') = Some (js ''a@b'')"
proof -
  have a: "authPrefix demo_proxy = Some (js ''a%40b:%3A@'')"
    by (simp add: authPrefix_def demo_proxy_def js_def uri_unreserved_def js_letter_def js_digit_def utf8_bytes_def pct_byte_def
        hex_upper_def)
  have n: "px_username demo_proxy \<noteq> []" "list_all (\<lambda>c. c < 65536) (px_username demo_proxy)"
    "list_all (\<lambda>c. c < 65536) (px_password demo_proxy)"
    by (simp_all add: demo_proxy_def js_def)
  obtain u p where u: "js ''a%40b:%3A@'' = u @ js '':'' @ p @ js ''@''" "set (u @ p) \<inter> {58, 64, 47} = {}"
      "decodeURIComponent u = Some (px_username demo_proxy)"
    using proxy_credentials_roundtrip[OF a n] by blast
  have "takeWhile (\<lambda>c. c \<noteq> 58) (u @ js '':'' @ p @ js ''@'') = u"
    using u(2) by (subst takeWhile_append2) (auto simp: js_def)
  then have "u = js ''a%40b''" by (simp flip: u(1)) (simp add: js_def)
  then show ?thesis using a u(3) by (simp add: demo_proxy_def)
qed

subsection \<open>Secrets\<close>

lemma hex_digit_of_to_hex: "list_all (\<lambda>c. hex_digit c \<noteq> None) (to_hex bs)"
proof (induction bs)
  case (Cons b bs)
  have "unat b div 16 < 16" using unat_byte_less[of b] by (simp add: less_mult_imp_div_less)
  then show ?case using Cons by (simp add: to_hex_def hex_digit_lower)
qed (simp add: to_hex_def)

lemma js_trim_hex: "js_trim (to_hex bs) = to_hex bs"
proof -
  have no: "\<not> js_space c" if "c \<in> set (to_hex bs)" for c
    using to_hex_range[OF that] by (auto simp: js_space_def js_digit_def)
  have "dropWhile js_space xs = xs" if "set xs \<subseteq> set (to_hex bs)" for xs
    using that no by (cases xs) auto
  then show ?thesis by (simp add: js_trim_def)
qed

lemma secret_bytes_hex:
  assumes "16 \<le> length bs" "url (https_of_tg (to_hex bs)) = None"
  shows "decodeMtProtoSecretBytes url (to_hex bs) = bs"
proof -
  have "bs \<noteq> []" using assms(1) by auto
  then show ?thesis
    using assms hex_digit_of_to_hex[of bs]
    by (simp add: decodeMtProtoSecretBytes_def Let_def js_trim_hex parseTgProxyUri_def all_hex_def)
qed

lemma utf8_text_ascii: "list_all (\<lambda>b. b < 128) bs \<Longrightarrow> utf8_text 0 0 128 191 bs = bs"
  by (induction bs) (simp_all add: Let_def)

text \<open>
  MTProxy secrets in hexadecimal are read for what they are. A Fake-TLS secret, the byte \<open>ee\<close> with a
  16-byte key and a domain, gives the key and the domain; a padded secret keeps its \<open>dd\<close> byte; a plain
  16-byte key gives itself unless it begins like one of the two longer forms, which it is too short for.
\<close>

theorem mtproto_secret_forms:
  assumes "length key = 16" "list_all (\<lambda>b. 32 < b \<and> b < 127) (map unat dmn)" "dmn \<noteq> []"
    and "\<forall>s. url s = None"
  shows "parseMtProtoSecret url (to_hex (0xee # key @ dmn)) =
      \<lparr>ms_keyHex = to_hex key, ms_domain = Some (map unat dmn), ms_fakeTls = True\<rparr>
    \<and> parseMtProtoSecret url (to_hex (0xdd # key)) =
      \<lparr>ms_keyHex = to_hex (0xdd # key), ms_domain = None, ms_fakeTls = False\<rparr>
    \<and> parseMtProtoSecret url (to_hex key) = \<lparr>ms_keyHex = to_hex key, ms_domain = None, ms_fakeTls = False\<rparr>"
proof -
  have dmn: "list_all (\<lambda>b. b < 128) (map unat dmn)" "\<forall>c \<in> set (map unat dmn). \<not> js_space c \<and> c \<noteq> 0"
    using assms(2) by (auto simp: list_all_iff js_space_def)
  have f: "filter (\<lambda>c. c \<noteq> 0) (map unat dmn) = map unat dmn" using dmn(2) by (intro filter_True) blast
  have "dropWhile js_space xs = xs" if "set xs \<subseteq> set (map unat dmn)" for xs
    using that dmn(2) by (cases xs) auto
  then have t: "js_trim (map unat dmn) = map unat dmn" by (simp add: js_trim_def)
  have l: "1 \<le> length dmn" using assms(3) by (cases dmn) auto
  have 1: "decodeMtProtoSecretBytes url (to_hex (0xee # key @ dmn)) = 0xee # key @ dmn"
    "decodeMtProtoSecretBytes url (to_hex (0xdd # key)) = 0xdd # key" "decodeMtProtoSecretBytes url (to_hex key) = key"
    by (rule secret_bytes_hex; simp add: assms(1,4))+
  show ?thesis
    unfolding parseMtProtoSecret_def Let_def 1
    using assms(1) l utf8_text_ascii[OF dmn(1)] f t by (simp add: utf8_toString_def)
qed

lemma mtproto_secret_forms_witness:
  "ms_domain (parseMtProtoSecret (\<lambda>_. None) (to_hex (0xee # replicate 16 7 @ [97, 46, 98]))) = Some (js ''a.b'')"
proof -
  have a: "length (replicate 16 (7 :: byte)) = 16" "list_all (\<lambda>b. 32 < b \<and> b < 127) (map unat [97, 46, 98 :: byte])"
    "[97, 46, 98 :: byte] \<noteq> []" "\<forall>s. (\<lambda>_. None :: parsed_url option) (s :: jstr) = None"
    by simp_all
  show ?thesis using mtproto_secret_forms[OF a] by (simp add: js_def)
qed

text \<open>The agent is kept exactly as long as the URL is the same.\<close>

lemma proxy_agent_cached:
  assumes "proxyDispatcher env ac = Some (Some a, ac1)"
  shows "proxyDispatcher env ac1 = Some (Some a, ac1)"
  using assms by (auto simp: proxyDispatcher_def split: option.splits if_splits prod.splits)

end
