(* ===== verification/Staff.thy ===== *)
theory Staff
  imports ApiAuth
begin

text \<open>
  Staff accounts of the API (\<open>auth.ts\<close>, \<open>routes/staff.ts\<close>, \<open>routes/auth.ts\<close>, \<open>staffEvents.ts\<close>): seeding at boot,
  creation of managers with a generated login and password, reset, deletion and login over the tables
  \<open>staff_users\<close> and \<open>staff_events\<close>. Random bytes, generated identifiers, the time and the key derivation are
  arguments, and so is zod's check of e-mail addresses; the token is represented by the claims it is signed over.
  The database's \<open>lower\<close> is the case mapping of theory JsString. Address, summary and JSON of an event are left out.
\<close>

subsection \<open>Tables\<close>

record staff_user =
  su_id :: jstr
  su_email :: jstr
  su_hash :: jstr
  su_role :: auth_role
  su_name :: jstr
  su_active :: bool
  su_last_login :: "int option"
  su_updated_at :: int

record staff_event =
  sv_actor :: "jstr option"
  sv_action :: jstr
  sv_target_id :: "jstr option"
  sv_target_email :: "jstr option"

record staff_db =
  sd_users :: "staff_user list"
  sd_events :: "staff_event list"

type_synonym kdf = "jstr \<Rightarrow> jstr \<Rightarrow> bytes"

definition logStaffEvent :: "jstr option \<Rightarrow> string \<Rightarrow> jstr option \<Rightarrow> jstr option \<Rightarrow> staff_db \<Rightarrow> staff_db" where
  "logStaffEvent actor action tid temail db =
     db\<lparr>sd_events := sd_events db @ [\<lparr>sv_actor = actor, sv_action = js action, sv_target_id = tid, sv_target_email = temail\<rparr>]\<rparr>"

definition actor_id :: "request_staff option \<Rightarrow> jstr option" where
  "actor_id staff = (case staff of None \<Rightarrow> None | Some s \<Rightarrow> st_id s)"

definition findStaffByEmail :: "jstr \<Rightarrow> staff_user list \<Rightarrow> staff_user option" where
  "findStaffByEmail email users = find (\<lambda>u. js_toLowerCase (su_email u) = js_toLowerCase (js_trim email)) users"

subsection \<open>Seeding\<close>

definition upsertStaff :: "kdf \<Rightarrow> bytes \<Rightarrow> jstr \<Rightarrow> int \<Rightarrow> jstr \<Rightarrow> jstr \<Rightarrow> auth_role \<Rightarrow> jstr \<Rightarrow> staff_user list \<Rightarrow> staff_user list" where
  "upsertStaff scrypt salt new_id now email password role name users =
     (let hash = hashPassword scrypt salt password; e = js_trim (js_toLowerCase email)
      in if e \<in> set (map su_email users)
         then update_where (\<lambda>u. su_email u = e)
                (\<lambda>u. u\<lparr>su_hash := hash, su_role := role, su_name := name, su_active := True, su_updated_at := now\<rparr>) users
         else users @ [\<lparr>su_id = new_id, su_email = e, su_hash = hash, su_role = role, su_name = name, su_active = True,
                su_last_login = None, su_updated_at = now\<rparr>])"

definition seed_accounts :: "penv \<Rightarrow> (jstr \<times> jstr \<times> auth_role \<times> jstr) list" where
  "seed_accounts env =
     (let prod = isProduction env;
          dflt = (\<lambda>name d. js_or (env_get env name) (if prod then [] else js d));
          directorEmail = dflt ''CABINET_DIRECTOR_EMAIL'' ''director@transinvest.local'';
          directorPassword = dflt ''CABINET_DIRECTOR_PASSWORD'' ''TransinvestDir!2026'';
          managerEmail = dflt ''CABINET_MANAGER_EMAIL'' ''manager@transinvest.local'';
          managerPassword = dflt ''CABINET_MANAGER_PASSWORD'' ''TransinvestMgr!2026''
      in (if directorEmail \<noteq> [] \<and> directorPassword \<noteq> []
          then [(directorEmail, directorPassword, Director,
                 js_or (env_get env ''CABINET_DIRECTOR_NAME'') [1044, 1080, 1088, 1077, 1082, 1090, 1086, 1088])] else [])
       @ (if managerEmail \<noteq> [] \<and> managerPassword \<noteq> []
          then [(managerEmail, managerPassword, Manager,
                 js_or (env_get env ''CABINET_MANAGER_NAME'') [1052, 1077, 1085, 1077, 1076, 1078, 1077, 1088])] else []))"

fun seed_all :: "kdf \<Rightarrow> int \<Rightarrow> (bytes \<times> jstr) list \<Rightarrow> (jstr \<times> jstr \<times> auth_role \<times> jstr) list \<Rightarrow> staff_user list \<Rightarrow> staff_user list" where
  "seed_all scrypt now ((salt, i) # fs) ((email, password, role, name) # as) users =
     seed_all scrypt now fs as (upsertStaff scrypt salt i now email password role name users)"
| "seed_all scrypt now fs as users = users"

text \<open>The two rows may need two salts and two identifiers.\<close>

definition seedStaffUsers :: "kdf \<Rightarrow> penv \<Rightarrow> int \<Rightarrow> bytes \<times> jstr \<Rightarrow> bytes \<times> jstr \<Rightarrow> staff_db \<Rightarrow> staff_db" where
  "seedStaffUsers scrypt env now f1 f2 db = db\<lparr>sd_users := seed_all scrypt now [f1, f2] (seed_accounts env) (sd_users db)\<rparr>"

subsection \<open>Logins and passwords of new managers\<close>

definition pw_alphabet :: jstr where
  "pw_alphabet = js ''ABCDEFGHJKLMNPQRSTUVWXYZabcdefghijkmnopqrstuvwxyz23456789!@$%''"

definition generatePassword :: "bytes \<Rightarrow> jstr" where
  "generatePassword random = map (\<lambda>b. pw_alphabet ! (unat b mod length pw_alphabet)) random"

definition cyr_letters :: "jstr list" where
  "cyr_letters = map js [''a'', ''b'', ''v'', ''g'', ''d'', ''e'', ''zh'', ''z'', ''i'', ''i'', ''k'', ''l'', ''m'', ''n'', ''o'', ''p'',
     ''r'', ''s'', ''t'', ''u'', ''f'', ''h'', ''c'', ''ch'', ''sh'', ''sch'', [], ''y'', [], ''e'', ''yu'', ''ya'']"

definition CYR :: "nat \<Rightarrow> jstr option" where
  "CYR c =
     (if c = 1105 then Some (js ''e'')
      else if 1072 \<le> c \<and> c \<le> 1103
      then Some (cyr_letters ! (c - 1072))
      else None)"

definition slug_piece :: "nat \<Rightarrow> jstr" where
  "slug_piece c =
     (case CYR c of
        Some s \<Rightarrow> s
      | None \<Rightarrow> if (97 \<le> c \<and> c \<le> 122) \<or> js_digit c then [c]
          else if js_space c \<or> c \<in> {45, 95, 46} then [46] else [])"

text \<open>\<open>replace(/\.+/g, ".")\<close> and \<open>replace(/^\.|\.$/g, "")\<close>.\<close>

fun squeeze_dots :: "jstr \<Rightarrow> jstr" where
  "squeeze_dots (c # d # s) = (if c = 46 \<and> d = 46 then squeeze_dots (d # s) else c # squeeze_dots (d # s))"
| "squeeze_dots s = s"

definition strip_dots :: "jstr \<Rightarrow> jstr" where
  "strip_dots s =
     (let t = (case s of c # r \<Rightarrow> if c = 46 then r else s | [] \<Rightarrow> [])
      in if t \<noteq> [] \<and> last t = 46 then butlast t else t)"

definition slugFromName :: "jstr \<Rightarrow> jstr" where
  "slugFromName name =
     (let s = strip_dots (squeeze_dots (concat (map slug_piece (js_toLowerCase (js_trim name)))))
      in if s = [] then js ''manager'' else s)"

definition email_taken :: "staff_user list \<Rightarrow> jstr \<Rightarrow> bool" where
  "email_taken users e \<longleftrightarrow> js_toLowerCase e \<in> (\<lambda>u. js_toLowerCase (su_email u)) ` set users"

definition uniqueEmail :: "bytes \<Rightarrow> jstr \<Rightarrow> staff_user list \<Rightarrow> jstr" where
  "uniqueEmail random2 base users =
     (let localpart = hd (js_split1 64 base);
          domain = js ''@transinvest.local'';
          wanted = localpart @ domain
      in if \<not> email_taken users wanted then js_toLowerCase wanted
         else case find (\<lambda>c. \<not> email_taken users c) (map (\<lambda>i. js_toLowerCase (localpart @ show_nat i @ domain)) [2..<50]) of
           Some candidate \<Rightarrow> candidate
         | None \<Rightarrow> localpart @ js ''.'' @ to_hex random2 @ domain)"

subsection \<open>Routes\<close>

record manager_body =
  mb_name :: jstr
  mb_email :: "jstr option"

record fresh =
  fr_id :: jstr
  fr_salt :: bytes
  fr_pw :: bytes
  fr_mail :: bytes

text \<open>
  The schemas of the routes are zod's: its check of an e-mail address is the parameter \<open>zod\<close>. A body that the schema refuses
  makes the route throw, which Fastify answers with 500.
\<close>

definition manager_body_ok :: "(jstr \<Rightarrow> bool) \<Rightarrow> manager_body \<Rightarrow> bool" where
  "manager_body_ok zod body \<longleftrightarrow> 2 \<le> length (mb_name body) \<and> length (mb_name body) \<le> 120
     \<and> (case mb_email body of None \<Rightarrow> True | Some e \<Rightarrow> zod e \<or> e = [])"

definition post_manager :: "(jstr \<Rightarrow> bool) \<Rightarrow> kdf \<Rightarrow> fresh \<Rightarrow> int \<Rightarrow> request_staff option \<Rightarrow> manager_body \<Rightarrow> staff_db
    \<Rightarrow> staff_db \<times> (nat + staff_user \<times> jstr \<times> jstr)" where
  "post_manager zod scrypt f now staff body db =
     (case requireDirector staff of
        Some code \<Rightarrow> (db, Inl code)
      | None \<Rightarrow>
          if \<not> manager_body_ok zod body then (db, Inl 500) else
          let email = (if js_or (mb_email body) [] \<noteq> [] then js_trim (js_toLowerCase (js_or (mb_email body) []))
                       else uniqueEmail (fr_mail f) (slugFromName (mb_name body)) (sd_users db));
              password = generatePassword (fr_pw f);
              u = \<lparr>su_id = fr_id f, su_email = email, su_hash = hashPassword scrypt (fr_salt f) password, su_role = Manager,
                su_name = js_trim (mb_name body), su_active = True, su_last_login = None, su_updated_at = now\<rparr>
          in if email \<in> set (map su_email (sd_users db)) then (db, Inl 409)
             else (logStaffEvent (actor_id staff) ''manager_created'' (Some (su_id u)) (Some email) (db\<lparr>sd_users := sd_users db @ [u]\<rparr>),
                   Inr (u, email, password)))"

definition reset_password :: "kdf \<Rightarrow> fresh \<Rightarrow> int \<Rightarrow> request_staff option \<Rightarrow> jstr \<Rightarrow> staff_db \<Rightarrow> staff_db \<times> (nat + jstr \<times> jstr)" where
  "reset_password scrypt f now staff i db =
     (case requireDirector staff of
        Some code \<Rightarrow> (db, Inl code)
      | None \<Rightarrow>
          let password = generatePassword (fr_pw f)
          in case find (\<lambda>u. su_id u = i \<and> su_role u = Manager) (sd_users db) of
               None \<Rightarrow> (db, Inl 404)
             | Some u \<Rightarrow>
                 (logStaffEvent (actor_id staff) ''manager_password_reset'' (Some (su_id u)) (Some (su_email u))
                    (db\<lparr>sd_users := update_where (\<lambda>u. su_id u = i \<and> su_role u = Manager)
                       (\<lambda>u. u\<lparr>su_hash := hashPassword scrypt (fr_salt f) password, su_updated_at := now\<rparr>) (sd_users db)\<rparr>),
                  Inr (su_email u, password)))"

definition delete_manager :: "request_staff option \<Rightarrow> jstr \<Rightarrow> staff_db \<Rightarrow> staff_db \<times> nat" where
  "delete_manager staff i db =
     (case requireDirector staff of
        Some code \<Rightarrow> (db, code)
      | None \<Rightarrow>
          if js_or (actor_id staff) [] \<noteq> [] \<and> actor_id staff = Some i then (db, 400)
          else case find (\<lambda>u. su_id u = i \<and> su_role u = Manager) (sd_users db) of
               None \<Rightarrow> (db, 404)
             | Some u \<Rightarrow>
                 (logStaffEvent (actor_id staff) ''manager_deleted'' (Some (su_id u)) (Some (su_email u))
                    (db\<lparr>sd_users := filter (\<lambda>u. \<not> (su_id u = i \<and> su_role u = Manager)) (sd_users db)\<rparr>), 200))"

definition claims_of :: "staff_user \<Rightarrow> request_staff" where
  "claims_of u = \<lparr>st_id = Some (su_id u), st_email = Some (su_email u), st_name = Some (su_name u), st_role = su_role u\<rparr>"

definition login_route :: "(jstr \<Rightarrow> bool) \<Rightarrow> kdf \<Rightarrow> int \<Rightarrow> jstr \<Rightarrow> jstr \<Rightarrow> staff_db \<Rightarrow> staff_db \<times> (nat + request_staff)" where
  "login_route zod scrypt now email password db =
     (if \<not> zod email \<or> password = [] then (db, Inl 500) else
      case findStaffByEmail email (sd_users db) of
        None \<Rightarrow> (logStaffEvent None ''login_fail'' None (Some email) db, Inl 401)
      | Some user \<Rightarrow>
          if \<not> su_active user then (logStaffEvent None ''login_fail'' None (Some email) db, Inl 401)
          else if \<not> verifyPassword scrypt password (su_hash user)
          then (logStaffEvent (Some (su_id user)) ''login_fail'' (Some (su_id user)) (Some (su_email user)) db, Inl 401)
          else (logStaffEvent (Some (su_id user)) ''login_ok'' (Some (su_id user)) (Some (su_email user))
                  (db\<lparr>sd_users := update_where (\<lambda>u. su_id u = su_id user) (\<lambda>u. u\<lparr>su_last_login := Some now\<rparr>) (sd_users db)\<rparr>),
                Inr (claims_of user)))"

text \<open>\<open>GET /auth/me\<close>.\<close>

definition auth_me :: "request_staff option \<Rightarrow> nat + request_staff" where
  "auth_me staff =
     (case staff of None \<Rightarrow> Inl 401
      | Some s \<Rightarrow> if st_role s = Service_role \<or> js_or (st_id s) [] = [] then Inl 401 else Inr s)"

subsection \<open>Steps\<close>

text \<open>Whose account a step writes: the accounts a restart seeds, or the one a director acts on.\<close>

datatype touched = Nobody | Seeded "jstr list" | Person jstr

definition seeded_emails :: "penv \<Rightarrow> jstr list" where
  "seeded_emails env = map (\<lambda>a. js_trim (js_toLowerCase (fst a))) (seed_accounts env)"

definition fresh_for :: "fresh \<Rightarrow> staff_db \<Rightarrow> bool" where
  "fresh_for f db \<longleftrightarrow> fr_id f \<notin> set (map su_id (sd_users db)) \<and> length (fr_salt f) = 16 \<and> length (fr_pw f) = 12 \<and> length (fr_mail f) = 2"

inductive staff_step :: "(jstr \<Rightarrow> bool) \<Rightarrow> kdf \<Rightarrow> staff_db \<Rightarrow> touched \<Rightarrow> staff_db \<Rightarrow> bool" for zod scrypt where
  step_seed: "fst f1 \<noteq> [] \<Longrightarrow> fst f2 \<noteq> [] \<Longrightarrow> distinct (snd f1 # snd f2 # map su_id (sd_users db)) \<Longrightarrow>
     staff_step zod scrypt db (Seeded (seeded_emails env)) (seedStaffUsers scrypt env now f1 f2 db)"
| step_create: "fresh_for f db \<Longrightarrow> staff_step zod scrypt db Nobody (fst (post_manager zod scrypt f now staff body db))"
| step_reset: "staff_step zod scrypt db (Person i) (fst (reset_password scrypt f now staff i db))"
| step_delete: "staff_step zod scrypt db (Person i) (fst (delete_manager staff i db))"
| step_login: "staff_step zod scrypt db Nobody (fst (login_route zod scrypt now email password db))"

inductive staff_run :: "(jstr \<Rightarrow> bool) \<Rightarrow> kdf \<Rightarrow> staff_db \<Rightarrow> touched list \<Rightarrow> staff_db \<Rightarrow> bool" for zod scrypt where
  run_done: "staff_run zod scrypt db [] db"
| run_step: "staff_run zod scrypt db ts db1 \<Longrightarrow> staff_step zod scrypt db1 t db2 \<Longrightarrow> staff_run zod scrypt db (ts @ [t]) db2"

inductive_cases staff_step_cases [elim]: "staff_step zod scrypt db t db'"

definition no_staff :: staff_db where
  "no_staff = \<lparr>sd_users = [], sd_events = []\<rparr>"

subsection \<open>Invariant of the table\<close>

definition plain_email :: "jstr \<Rightarrow> bool" where
  "plain_email e \<longleftrightarrow> js_toLowerCase e = e \<and> js_trim e = e"

definition staff_ok :: "staff_user list \<Rightarrow> bool" where
  "staff_ok us \<longleftrightarrow> distinct (map su_id us) \<and> distinct (map su_email us)
     \<and> list_all (\<lambda>u. plain_email (su_email u) \<and> su_role u \<noteq> Service_role) us"

lemma plain_normal [simp, inv_intros]: "plain_email (js_trim (js_toLowerCase s))"
  by (simp add: plain_email_def trim_lower)

lemma plain_no_space: "\<forall>c \<in> set s. \<not> js_space c \<Longrightarrow> js_toLowerCase s = s \<Longrightarrow> plain_email s"
  by (simp add: plain_email_def js_trim_id)

lemma ok_append:
  "staff_ok us \<Longrightarrow> su_id u \<notin> set (map su_id us) \<Longrightarrow> su_email u \<notin> set (map su_email us) \<Longrightarrow> plain_email (su_email u)
   \<Longrightarrow> su_role u \<noteq> Service_role \<Longrightarrow> staff_ok (us @ [u])"
  by (auto simp: staff_ok_def)

lemma ok_update:
  "staff_ok us \<Longrightarrow> (\<And>u. su_id (f u) = su_id u) \<Longrightarrow> (\<And>u. su_email (f u) = su_email u)
   \<Longrightarrow> (\<And>u. su_role u \<noteq> Service_role \<Longrightarrow> su_role (f u) \<noteq> Service_role) \<Longrightarrow> staff_ok (update_where p f us)"
  by (auto simp: staff_ok_def list_all_iff in_set_update_where split: if_splits)

lemma ok_filter: "staff_ok us \<Longrightarrow> staff_ok (filter p us)"
  by (auto simp: staff_ok_def list_all_iff distinct_map_filter)

lemma upsert_ok:
  assumes "staff_ok us" "i \<notin> set (map su_id us)" "role \<noteq> Service_role"
  shows "staff_ok (upsertStaff scrypt salt i now email pw role name us)"
    and "set (map su_id (upsertStaff scrypt salt i now email pw role name us)) \<subseteq> insert i (set (map su_id us))"
proof -
  show "staff_ok (upsertStaff scrypt salt i now email pw role name us)"
    unfolding upsertStaff_def Let_def using assms by (auto intro!: ok_append ok_update)
  show "set (map su_id (upsertStaff scrypt salt i now email pw role name us)) \<subseteq> insert i (set (map su_id us))"
    by (auto simp: upsertStaff_def Let_def update_where_def)
qed

lemma seed_all_ok:
  "staff_ok us \<Longrightarrow> distinct (map snd fs @ map su_id us) \<Longrightarrow> list_all (\<lambda>(e, p, r, n). r \<noteq> Service_role) as
   \<Longrightarrow> staff_ok (seed_all scrypt now fs as us)"
proof (induction scrypt now fs as us rule: seed_all.induct)
  case (1 scrypt now salt i fs email pw role name as us)
  let ?us = "upsertStaff scrypt salt i now email pw role name us"
  have u: "i \<notin> set (map su_id us)" "role \<noteq> Service_role" using 1 by auto
  have "set (map snd fs) \<inter> set (map su_id ?us) = {}" using upsert_ok(2)[OF 1(2) u, of scrypt salt now email pw name] 1(3)
    by (simp add: disjoint_iff) blast
  moreover have "staff_ok ?us" by (rule upsert_ok(1)[OF 1(2) u])
  moreover from this have "distinct (map su_id ?us)" by (simp add: staff_ok_def)
  ultimately show ?case using 1 by auto
qed simp_all

lemma seed_accounts_roles: "list_all (\<lambda>(e, p, r, n). r \<noteq> Service_role) (seed_accounts env)"
  by (simp add: seed_accounts_def Let_def)

lemma squeeze_set: "set (squeeze_dots s) \<subseteq> set s"
  by (induction s rule: squeeze_dots.induct) auto

lemma strip_set: "set (strip_dots s) \<subseteq> set s"
  by (auto simp: strip_dots_def Let_def split: list.splits if_splits dest!: in_set_butlastD)

definition slug_char :: "nat \<Rightarrow> bool" where
  "slug_char c \<longleftrightarrow> (97 \<le> c \<and> c \<le> 122) \<or> js_digit c \<or> c = 46"

lemma CYR_chars: "CYR c = Some s \<Longrightarrow> x \<in> set s \<Longrightarrow> slug_char x"
proof -
  assume a: "CYR c = Some s" "x \<in> set s"
  have "list_all (list_all slug_char) cyr_letters" by (simp add: cyr_letters_def js_def slug_char_def)
  moreover have "s = js ''e'' \<or> s \<in> set cyr_letters"
  proof (cases "c = 1105")
    case False
    then have "1072 \<le> c" "c \<le> 1103" "s = cyr_letters ! (c - 1072)" using a(1) by (auto simp: CYR_def split: if_splits)
    moreover from this have "c - 1072 < length cyr_letters" by (simp add: cyr_letters_def)
    ultimately show ?thesis by (metis nth_mem)
  qed (use a(1) in \<open>simp add: CYR_def\<close>)
  ultimately show ?thesis using a(2) by (auto simp: list_all_iff js_def slug_char_def)
qed

lemma slug_chars: "c \<in> set (slugFromName name) \<Longrightarrow> slug_char c"
proof -
  let ?t = "concat (map slug_piece (js_toLowerCase (js_trim name)))"
  assume c: "c \<in> set (slugFromName name)"
  have 1: "x \<in> set (slug_piece d) \<Longrightarrow> slug_char x" for x d
    by (auto simp: slug_piece_def slug_char_def[of d] slug_char_def[of 46] split: option.splits if_splits dest: CYR_chars)
  have "\<forall>x \<in> set ?t. slug_char x"
  proof
    fix x assume "x \<in> set ?t"
    then obtain d where "x \<in> set (slug_piece d)" by auto
    then show "slug_char x" by (rule 1)
  qed
  moreover have "slugFromName name = js ''manager'' \<or> set (slugFromName name) \<subseteq> set ?t"
    using subset_trans[OF strip_set[of "squeeze_dots ?t"] squeeze_set[of ?t]] unfolding slugFromName_def Let_def by presburger
  moreover have "\<forall>x \<in> set (js ''manager''). slug_char x" by (simp add: js_def slug_char_def)
  ultimately show ?thesis using c by (elim disjE) (simp, blast)
qed

lemma hex_slug: "c \<in> set (to_hex bs) \<Longrightarrow> slug_char c"
  using to_hex_range[of c bs] by (auto simp: slug_char_def)

lemma plain_slug_email:
  assumes "\<forall>c \<in> set s. slug_char c"
  shows "plain_email (s @ js ''@transinvest.local'')" "js_toLowerCase (s @ js ''@transinvest.local'') = s @ js ''@transinvest.local''"
proof -
  let ?P = "\<lambda>c. \<not> js_space c \<and> js_lower_unit c = c"
  have "list_all ?P (js ''@transinvest.local'')" by (simp add: js_def js_space_def js_lower_unit_def)
  moreover have "?P c" if "slug_char c" for c
  proof -
    have r: "45 < c \<and> c \<le> 57 \<or> 97 \<le> c \<and> c \<le> 122" using that by (auto simp: slug_char_def js_digit_def)
    then have "js_lower_unit c = c" by (elim disjE) (simp_all add: js_lower_unit_def)
    moreover have "\<not> js_space c" unfolding js_space_def using r by (elim disjE) simp_all
    ultimately show ?thesis by simp
  qed
  then have "list_all ?P s" using assms unfolding list_all_iff by blast
  ultimately have "list_all ?P (s @ js ''@transinvest.local'')" by (simp only: list_all_append simp_thms)
  then have c: "\<forall>c \<in> set (s @ js ''@transinvest.local''). ?P c" by (simp only: list_all_iff)
  have "\<forall>c \<in> set (s @ js ''@transinvest.local''). \<not> js_space c" using c by blast
  moreover have "js_toLowerCase (s @ js ''@transinvest.local'') = s @ js ''@transinvest.local''"
    unfolding js_toLowerCase_def by (rule map_idI) (use c in blast)
  ultimately show "plain_email (s @ js ''@transinvest.local'')" "js_toLowerCase (s @ js ''@transinvest.local'') = s @ js ''@transinvest.local''"
    by (simp_all add: plain_no_space)
qed

lemma slug_localpart: "hd (js_split1 64 (slugFromName name)) = slugFromName name"
proof -
  have "64 \<notin> set (slugFromName name)" using slug_chars[of 64 name] by (auto simp: slug_char_def js_digit_def)
  then show ?thesis by (simp add: js_split1_none)
qed

lemma unique_email_plain: "plain_email (uniqueEmail r (slugFromName name) us)"
proof -
  let ?s = "slugFromName name" and ?d = "js ''@transinvest.local''"
  have s: "\<forall>c \<in> set ?s. slug_char c" using slug_chars by blast
  have n: "\<forall>c \<in> set (?s @ show_nat i). slug_char c" for i using s show_nat_digits by (fastforce simp: slug_char_def)
  have h: "\<forall>c \<in> set (?s @ js ''.'' @ to_hex r). slug_char c" using s hex_slug by (auto simp: js_def slug_char_def[of 46])
  have "plain_email (js_toLowerCase (?s @ show_nat i @ ?d))" for i using plain_slug_email[OF n[of i]] by simp
  moreover have "plain_email (js_toLowerCase (?s @ ?d))" using plain_slug_email[OF s] by simp
  moreover have "plain_email (?s @ js ''.'' @ to_hex r @ ?d)" using plain_slug_email(1)[OF h] by simp
  ultimately show ?thesis
    unfolding uniqueEmail_def Let_def slug_localpart by (auto split: option.splits dest!: find_SomeD)
qed

lemma create_ok:
  assumes "staff_ok (sd_users db)" "fresh_for f db"
  shows "staff_ok (sd_users (fst (post_manager zod scrypt f now staff body db)))"
  using assms unique_email_plain[of "fr_mail f" "mb_name body" "sd_users db"]
  by (auto simp: post_manager_def Let_def logStaffEvent_def fresh_for_def split: option.splits intro!: ok_append)

lemma step_ok: "staff_step zod scrypt db t db' \<Longrightarrow> staff_ok (sd_users db) \<Longrightarrow> staff_ok (sd_users db')"
proof (induction rule: staff_step.induct)
  case (step_seed f1 f2 db env now)
  then show ?case
    using seed_all_ok[OF _ _ seed_accounts_roles, of "sd_users db" "[f1, f2]" scrypt now env] by (simp add: seedStaffUsers_def)
next
  case (step_create f db now staff body)
  then show ?case by (intro create_ok)
next
  case (step_reset i f now staff db)
  then show ?case
    by (auto simp: reset_password_def Let_def logStaffEvent_def split: option.splits intro!: ok_update)
next
  case (step_delete i staff db)
  then show ?case by (auto simp: delete_manager_def logStaffEvent_def split: option.splits intro!: ok_filter)
next
  case (step_login now email password db)
  then show ?case by (auto simp: login_route_def logStaffEvent_def split: option.splits intro!: ok_update)
qed

lemma run_ok: "staff_run zod scrypt db ts db' \<Longrightarrow> staff_ok (sd_users db) \<Longrightarrow> staff_ok (sd_users db')"
  by (induction rule: staff_run.induct) (auto intro: step_ok)

lemma no_staff_ok [simp]: "staff_ok (sd_users no_staff)"
  by (simp add: no_staff_def staff_ok_def)

lemma ok_inj:
  assumes "staff_ok us" "u \<in> set us" "w \<in> set us"
  shows "su_id w = su_id u \<Longrightarrow> w = u" "su_email w = su_email u \<Longrightarrow> w = u"
  using assms by (auto simp: staff_ok_def distinct_map dest: inj_onD)

lemma find_by_own_email:
  assumes "staff_ok us" "u \<in> set us" "js_toLowerCase (js_trim typed) = su_email u"
  shows "findStaffByEmail typed us = Some u"
proof -
  have p: "js_toLowerCase (su_email w) = su_email w" if "w \<in> set us" for w
    using assms(1) that by (auto simp: staff_ok_def list_all_iff plain_email_def)
  have "findStaffByEmail typed us \<noteq> None"
    unfolding findStaffByEmail_def find_None_iff using assms(2,3) p[OF assms(2)] by auto
  then obtain w where w: "findStaffByEmail typed us = Some w" by blast
  have "w \<in> set us" "js_toLowerCase (su_email w) = su_email u"
    using find_SomeD[OF w[unfolded findStaffByEmail_def]] assms(3) by simp_all
  then have "w = u" using p[of w] ok_inj(2)[OF assms(1,2)] by simp
  then show ?thesis using w by simp
qed

subsection \<open>What other steps leave alone\<close>

definition same_login :: "staff_user \<Rightarrow> staff_user \<Rightarrow> bool" where
  "same_login u w \<longleftrightarrow> su_id w = su_id u \<and> su_email w = su_email u \<and> su_hash w = su_hash u \<and> su_role w = su_role u
     \<and> su_name w = su_name u \<and> su_active w = su_active u"

definition keeps :: "staff_user \<Rightarrow> staff_user list \<Rightarrow> bool" where
  "keeps u us \<longleftrightarrow> (\<exists>w \<in> set us. same_login u w)"

fun touches :: "staff_user \<Rightarrow> touched \<Rightarrow> bool" where
  "touches u Nobody = False"
| "touches u (Seeded es) = (su_email u \<in> set es)"
| "touches u (Person i) = (su_id u = i)"

lemma keeps_append: "keeps u us \<Longrightarrow> keeps u (us @ ws)"
  by (auto simp: keeps_def)

lemma keeps_update:
  "keeps u us \<Longrightarrow> (\<And>w. same_login u w \<Longrightarrow> p w \<Longrightarrow> same_login u (f w)) \<Longrightarrow> keeps u (update_where p f us)"
proof -
  assume k: "keeps u us" "\<And>w. same_login u w \<Longrightarrow> p w \<Longrightarrow> same_login u (f w)"
  then obtain w where "w \<in> set us" "same_login u w" by (auto simp: keeps_def)
  then show ?thesis using k(2)[of w] update_where_mem[of w us p f] unfolding keeps_def by (cases "p w") auto
qed

lemma keeps_upsert:
  "keeps u us \<Longrightarrow> su_email u \<noteq> js_trim (js_toLowerCase email) \<Longrightarrow> keeps u (upsertStaff scrypt salt i now email pw role name us)"
  by (auto simp: upsertStaff_def Let_def same_login_def intro!: keeps_append keeps_update)

lemma keeps_seed_all:
  "keeps u us \<Longrightarrow> su_email u \<notin> set (map (\<lambda>a. js_trim (js_toLowerCase (fst a))) as) \<Longrightarrow> keeps u (seed_all scrypt now fs as us)"
  by (induction scrypt now fs as us rule: seed_all.induct) (simp_all add: keeps_upsert)

lemma step_keeps: "staff_step zod scrypt db t db' \<Longrightarrow> keeps u (sd_users db) \<Longrightarrow> \<not> touches u t \<Longrightarrow> keeps u (sd_users db')"
proof (induction rule: staff_step.induct)
  case (step_seed f1 f2 db env now)
  then show ?case by (simp add: seedStaffUsers_def seeded_emails_def keeps_seed_all)
next
  case (step_create f db now staff body)
  then show ?case by (simp add: post_manager_def Let_def logStaffEvent_def keeps_append split: option.split)
next
  case (step_reset i f now staff db)
  then show ?case
    by (auto simp: reset_password_def Let_def logStaffEvent_def same_login_def split: option.split intro!: keeps_update)
next
  case (step_delete i staff db)
  then show ?case
    by (auto simp: delete_manager_def logStaffEvent_def keeps_def same_login_def split: option.split)
next
  case (step_login now email password db)
  then show ?case
    by (auto simp: login_route_def logStaffEvent_def same_login_def split: option.split intro!: keeps_update)
qed

lemma run_keeps:
  "staff_run zod scrypt db ts db' \<Longrightarrow> keeps u (sd_users db) \<Longrightarrow> list_all (\<lambda>t. \<not> touches u t) ts \<Longrightarrow> keeps u (sd_users db')"
  by (induction rule: staff_run.induct) (auto intro: step_keeps)

lemma login_accepts:
  assumes "staff_ok (sd_users db)" "keeps u (sd_users db)" "su_active u" "su_hash u = hashPassword scrypt salt pw"
    and "salt \<noteq> []" "\<forall>p s. length (scrypt p s) = 64" "js_toLowerCase (js_trim typed) = su_email u" "zod typed" "pw \<noteq> []"
  shows "snd (login_route zod scrypt now typed pw db) = Inr (claims_of u)"
proof -
  obtain w where w: "w \<in> set (sd_users db)" "same_login u w" using assms(2) by (auto simp: keeps_def)
  then have "findStaffByEmail typed (sd_users db) = Some w"
    using find_by_own_email[OF assms(1)] assms(7) by (simp add: same_login_def)
  moreover have "verifyPassword scrypt pw (su_hash w)" using w assms(4) verify_hash[OF assms(5,6)] by (simp add: same_login_def)
  ultimately show ?thesis using w assms(3,8,9) by (simp add: login_route_def claims_of_def same_login_def)
qed

subsection \<open>Properties\<close>

text \<open>
  C8. Credentials that a director hands out work. In every state of the accounts reachable from an empty table,
  if creating a manager succeeds, then after any further steps - logins, other managers created, reset or deleted,
  restarts that seed other addresses - the manager can log in with the returned password and the returned login, typed in
  any way the form's check of addresses admits (another letter case, for instance), and the token carries the manager's
  identity and role. Only a reset or deletion of that account, or a restart that seeds its address, can end this.
\<close>

theorem issued_credentials_work:
  assumes "staff_run zod scrypt no_staff ts0 db" "fresh_for f db" "\<forall>p s. length (scrypt p s) = 64"
    and "post_manager zod scrypt f now staff body db = (db1, Inr (u, email, pw))"
    and "staff_run zod scrypt db1 ts db2" "list_all (\<lambda>t. \<not> touches u t) ts"
    and "js_toLowerCase (js_trim typed) = email" "zod typed"
  shows "snd (login_route zod scrypt now2 typed pw db2) =
    Inr \<lparr>st_id = Some (fr_id f), st_email = Some email, st_name = Some (js_trim (mb_name body)), st_role = Manager\<rparr>"
proof -
  have ok: "staff_ok (sd_users db)" using run_ok[OF assms(1)] by simp
  have u: "su_id u = fr_id f" "su_email u = email" "su_name u = js_trim (mb_name body)" "su_role u = Manager" "su_active u"
    "su_hash u = hashPassword scrypt (fr_salt f) pw" "keeps u (sd_users db1)"
    using assms(4) by (auto simp: post_manager_def Let_def logStaffEvent_def keeps_def same_login_def split: option.splits if_splits)
  have "staff_ok (sd_users db1)" using create_ok[OF ok assms(2), of zod scrypt now staff body] assms(4) by simp
  then have "staff_ok (sd_users db2)" by (rule run_ok[OF assms(5)])
  moreover have "keeps u (sd_users db2)" by (rule run_keeps[OF assms(5) u(7) assms(6)])
  moreover have "fr_salt f \<noteq> []" using assms(2) by (auto simp: fresh_for_def)
  moreover have "pw = generatePassword (fr_pw f)"
    using assms(4) by (auto simp: post_manager_def Let_def split: option.splits if_splits)
  then have "pw \<noteq> []" using assms(2) by (auto simp: fresh_for_def generatePassword_def)
  ultimately show ?thesis
    using login_accepts[OF _ _ u(5,6) _ assms(3)] assms(7,8) u by (simp add: claims_of_def)
qed

text \<open>Any string with an at sign is an address here.\<close>

definition demo_zod :: "jstr \<Rightarrow> bool" where
  "demo_zod e \<longleftrightarrow> 64 \<in> set e"

definition demo_fresh :: fresh where
  "demo_fresh = \<lparr>fr_id = js ''m1'', fr_salt = replicate 16 7, fr_pw = replicate 12 0, fr_mail = [0, 0]\<rparr>"

definition demo_manager :: manager_body where
  "demo_manager = \<lparr>mb_name = [1071, 1085, 1072], mb_email = None\<rparr>"

lemma demo_slug: "slugFromName [1071, 1085, 1072] = js ''yana''"
  by (simp add: slugFromName_def slug_piece_def CYR_def cyr_letters_def js_text_eval strip_dots_def Let_def)

lemma demo_create:
  "post_manager demo_zod toy_kdf demo_fresh 5 None demo_manager no_staff =
     (fst (post_manager demo_zod toy_kdf demo_fresh 5 None demo_manager no_staff),
      Inr (\<lparr>su_id = js ''m1'', su_email = js ''yana@transinvest.local'', su_hash = hashPassword toy_kdf (replicate 16 7) (replicate 12 65),
        su_role = Manager, su_name = [1071, 1085, 1072], su_active = True, su_last_login = None, su_updated_at = 5\<rparr>,
        js ''yana@transinvest.local'', replicate 12 65))"
proof -
  have l: "js_toLowerCase (js ''yana'' @ js ''@transinvest.local'') = js ''yana@transinvest.local''" by (simp add: js_text_eval)
  have h: "hd (js_split1 64 (js ''yana'')) = js ''yana''" by (simp add: js_def)
  have e: "uniqueEmail [0, 0] (js ''yana'') [] = js ''yana@transinvest.local''"
    unfolding uniqueEmail_def Let_def email_taken_def h l by simp
  have p: "generatePassword (replicate 12 0) = replicate 12 65" by (simp add: generatePassword_def pw_alphabet_def js_def)
  have t: "js_trim [1071, 1085, 1072] = [1071, 1085, 1072]" by (simp add: js_trim_def js_space_def)
  show ?thesis
    by (simp add: post_manager_def manager_body_ok_def requireDirector_def demo_manager_def demo_fresh_def no_staff_def demo_slug e p t Let_def)
qed

lemma issued_credentials_work_witness:
  "snd (login_route demo_zod toy_kdf 9 (js ''Yana@transinvest.local'') (replicate 12 65)
      (fst (post_manager demo_zod toy_kdf demo_fresh 5 None demo_manager no_staff))) =
    Inr \<lparr>st_id = Some (js ''m1''), st_email = Some (js ''yana@transinvest.local''), st_name = Some [1071, 1085, 1072], st_role = Manager\<rparr>"
proof -
  have l: "\<forall>p s. length (toy_kdf p s) = 64" by (auto simp: toy_kdf_def)
  have f: "fresh_for demo_fresh no_staff" by (simp add: fresh_for_def demo_fresh_def no_staff_def)
  have t: "js_toLowerCase (js_trim (js ''Yana@transinvest.local'')) = js ''yana@transinvest.local''" by (simp add: js_text_eval)
  have z: "demo_zod (js ''Yana@transinvest.local'')" by (simp add: demo_zod_def js_def)
  have n: "js_trim (mb_name demo_manager) = [1071, 1085, 1072]" "fr_id demo_fresh = js ''m1''"
    by (simp_all add: demo_manager_def demo_fresh_def js_trim_def js_space_def)
  have e: "list_all (\<lambda>t. \<not> touches u t) []" for u by simp
  show ?thesis
    using issued_credentials_work[OF run_done f l demo_create run_done e t z, of 9] unfolding n .
qed

fun no_double_dot :: "jstr \<Rightarrow> bool" where
  "no_double_dot (c # d # s) = (\<not> (c = 46 \<and> d = 46) \<and> no_double_dot (d # s))"
| "no_double_dot s = True"

lemma squeeze_hd: "squeeze_dots (c # s) \<noteq> [] \<and> hd (squeeze_dots (c # s)) = c"
  by (induction s arbitrary: c) auto

lemma squeeze_single: "no_double_dot (squeeze_dots s)"
proof (induction s rule: squeeze_dots.induct)
  case (1 c d s)
  obtain r where r: "squeeze_dots (d # s) = d # r" using squeeze_hd[of d s] by (metis list.collapse)
  show ?case using 1 r by (cases "c = 46 \<and> d = 46") auto
qed simp_all

lemma no_double_tl: "no_double_dot (c # s) \<Longrightarrow> no_double_dot s \<and> (c = 46 \<longrightarrow> s = [] \<or> hd s \<noteq> 46)"
  by (cases s) auto

lemma no_double_butlast: "no_double_dot s \<Longrightarrow> no_double_dot (butlast s) \<and> (s \<noteq> [] \<and> last s = 46 \<longrightarrow> butlast s = [] \<or> last (butlast s) \<noteq> 46)"
  by (induction s rule: no_double_dot.induct) auto

lemma strip_ends:
  assumes "no_double_dot s"
  shows "no_double_dot (strip_dots s) \<and> (strip_dots s \<noteq> [] \<longrightarrow> hd (strip_dots s) \<noteq> 46 \<and> last (strip_dots s) \<noteq> 46)"
proof -
  define t where "t = (case s of c # r \<Rightarrow> if c = 46 then r else s | [] \<Rightarrow> [])"
  have t: "no_double_dot t \<and> (t \<noteq> [] \<longrightarrow> hd t \<noteq> 46)"
  proof (cases s)
    case (Cons c r)
    then show ?thesis using no_double_tl[of c r] assms by (auto simp: t_def)
  qed (simp add: t_def)
  have s: "strip_dots s = (if t \<noteq> [] \<and> last t = 46 then butlast t else t)" by (simp add: strip_dots_def t_def Let_def)
  show ?thesis
  proof (cases "t \<noteq> [] \<and> last t = 46")
    case True
    moreover have "butlast t \<noteq> [] \<Longrightarrow> hd (butlast t) = hd t" by (cases t) auto
    ultimately show ?thesis using s t no_double_butlast[of t] by auto
  next
    case False
    then show ?thesis using s t by auto
  qed
qed

text \<open>
  The generated login is a well-formed local part: letters \<open>a\<close>-\<open>z\<close>, digits and single dots, never empty,
  with no dot at either end and no two in a row, whatever the name is.
\<close>

theorem slug_wellformed:
  "slugFromName name \<noteq> [] \<and> list_all slug_char (slugFromName name) \<and> hd (slugFromName name) \<noteq> 46
   \<and> last (slugFromName name) \<noteq> 46 \<and> no_double_dot (slugFromName name)"
proof -
  have m: "js ''manager'' \<noteq> []" "hd (js ''manager'') \<noteq> 46" "last (js ''manager'') \<noteq> 46" "no_double_dot (js ''manager'')"
    by (simp_all add: js_def)
  show ?thesis
    using strip_ends[OF squeeze_single] m slug_chars by (auto simp: slugFromName_def Let_def list_all_iff)
qed

lemma upsert_has:
  "\<exists>w \<in> set (upsertStaff scrypt salt i now email pw role name us). su_email w = js_trim (js_toLowerCase email)
     \<and> su_role w = role \<and> su_active w \<and> su_hash w = hashPassword scrypt salt pw"
proof (cases "js_trim (js_toLowerCase email) \<in> set (map su_email us)")
  case True
  then obtain q where "q \<in> set us" "su_email q = js_trim (js_toLowerCase email)" by auto
  note q = this
  let ?f = "\<lambda>u. u\<lparr>su_hash := hashPassword scrypt salt pw, su_role := role, su_name := name, su_active := True, su_updated_at := now\<rparr>"
  have "?f q \<in> set (upsertStaff scrypt salt i now email pw role name us)"
    using True update_where_mem[OF q(1), of "\<lambda>u. su_email u = js_trim (js_toLowerCase email)" ?f] q(2)
    by (simp add: upsertStaff_def Let_def)
  then show ?thesis by (rule bexI[rotated]) (simp add: q)
qed (simp add: upsertStaff_def Let_def)

lemma deleted_gone:
  assumes "staff_ok (sd_users db)" "delete_manager staff i db = (db1, 200)" "u \<in> set (sd_users db)" "su_id u = i"
  shows "su_email u \<notin> su_email ` set (sd_users db1)" "set (sd_users db1) \<subseteq> set (sd_users db)"
proof -
  obtain w where w: "find (\<lambda>u. su_id u = i \<and> su_role u = Manager) (sd_users db) = Some w"
    "sd_users db1 = filter (\<lambda>u. \<not> (su_id u = i \<and> su_role u = Manager)) (sd_users db)"
  proof -
    have r: "requireDirector staff = None" using assms(2)
      by (cases "requireDirector staff") (auto simp: delete_manager_def requireDirector_def split: option.splits if_splits)
    show thesis
    proof (cases "find (\<lambda>u. su_id u = i \<and> su_role u = Manager) (sd_users db)")
      case None
      then show thesis using assms(2) r by (simp add: delete_manager_def split: if_splits)
    next
      case (Some w)
      then have "sd_users db1 = filter (\<lambda>u. \<not> (su_id u = i \<and> su_role u = Manager)) (sd_users db)"
        using assms(2) r by (auto simp: delete_manager_def logStaffEvent_def split: if_splits)
      then show thesis using Some that by blast
    qed
  qed
  have "w = u" using find_SomeD[OF w(1)] ok_inj(1)[OF assms(1,3)] assms(4) by simp
  then have "u \<notin> set (sd_users db1)" using find_SomeD[OF w(1)] w(2) by simp
  moreover show "set (sd_users db1) \<subseteq> set (sd_users db)" using w(2) by auto
  ultimately show "su_email u \<notin> su_email ` set (sd_users db1)" using ok_inj(2)[OF assms(1,3)] by auto
qed

text \<open>
  A restart undoes what a director did to a seeded account. If the environment names the login and password of
  a manager whom a director has deleted, in any reachable state, then nobody can log in under that address until the
  service restarts; the restart makes the account anew, active and with the configured password, and the deleted
  manager is let in again.
\<close>

theorem restart_revives_deleted:
  assumes "staff_run zod scrypt no_staff ts db" "\<forall>p s. length (scrypt p s) = 64"
    and "u \<in> set (sd_users db)" "su_id u = i" "delete_manager staff i db = (db1, 200)"
    and "seed_accounts env = [(d, dp, Director, dn), (email, pw, Manager, name)]" "su_email u = js_trim (js_toLowerCase email)"
    and "fst f1 \<noteq> []" "fst f2 \<noteq> []" "distinct (snd f1 # snd f2 # map su_id (sd_users db1))"
    and "zod email" "pw \<noteq> []" "any \<noteq> []"
  shows "snd (login_route zod scrypt now2 email any db1) = Inl 401
    \<and> (\<exists>c. snd (login_route zod scrypt now2 email pw (seedStaffUsers scrypt env now f1 f2 db1)) = Inr c
      \<and> st_email c = Some (su_email u) \<and> st_role c = Manager)"
proof -
  let ?db2 = "seedStaffUsers scrypt env now f1 f2 db1"
  have ok: "staff_ok (sd_users db)" using run_ok[OF assms(1)] by simp
  have s: "staff_step zod scrypt db (Person i) db1" using step_delete[of zod scrypt db i staff] assms(5) by simp
  have ok1: "staff_ok (sd_users db1)" by (rule step_ok[OF s ok])
  have ok2: "staff_ok (sd_users ?db2)" by (rule step_ok[OF step_seed[OF assms(8-10)] ok1])
  have e: "js_toLowerCase (js_trim email) = su_email u" using assms(7) by (simp add: trim_lower)
  have "js_toLowerCase (su_email w) \<noteq> su_email u" if "w \<in> set (sd_users db1)" for w
  proof
    assume "js_toLowerCase (su_email w) = su_email u"
    moreover have "js_toLowerCase (su_email w) = su_email w"
      using that ok1 by (auto simp: staff_ok_def list_all_iff plain_email_def)
    ultimately show False using deleted_gone(1)[OF ok assms(5,3,4)] imageI[OF that, of su_email] by simp
  qed
  then have "findStaffByEmail email (sd_users db1) = None"
    unfolding findStaffByEmail_def find_None_iff e by blast
  then have refused: "snd (login_route zod scrypt now2 email any db1) = Inl 401" using assms(11,13) by (simp add: login_route_def)
  define us where "us = upsertStaff scrypt (fst f1) (snd f1) now d dp Director dn (sd_users db1)"
  have "sd_users ?db2 = upsertStaff scrypt (fst f2) (snd f2) now email pw Manager name us"
    by (cases f1; cases f2) (simp add: seedStaffUsers_def assms(6) us_def)
  then obtain w where w: "w \<in> set (sd_users ?db2)" "su_email w = su_email u" "su_role w = Manager" "su_active w"
      "su_hash w = hashPassword scrypt (fst f2) pw"
    using upsert_has[of scrypt "fst f2" "snd f2" now email pw Manager name us] assms(7) by auto
  have "keeps w (sd_users ?db2)" using w(1) by (auto simp: keeps_def same_login_def)
  then have "snd (login_route zod scrypt now2 email pw ?db2) = Inr (claims_of w)"
    using login_accepts[OF ok2 _ w(4,5) assms(9,2)] w(2) e assms(11,12) by simp
  then show ?thesis using w refused by (simp add: claims_of_def)
qed

definition dev_seed :: staff_db where
  "dev_seed = seedStaffUsers toy_kdf [] 1 ([7], js ''d1'') ([8], js ''m1'') no_staff"

definition dev_accounts :: "(jstr \<times> jstr \<times> auth_role \<times> jstr) list" where
  "dev_accounts = [(js ''director@transinvest.local'', js ''TransinvestDir!2026'', Director, [1044, 1080, 1088, 1077, 1082, 1090, 1086, 1088]),
     (js ''manager@transinvest.local'', js ''TransinvestMgr!2026'', Manager, [1052, 1077, 1085, 1077, 1076, 1078, 1077, 1088])]"

lemma dev_accounts: "seed_accounts [] = dev_accounts"
  by (simp add: seed_accounts_def dev_accounts_def Let_def isProduction_def env_get_def js_or_def js_def)

lemma dev_plain:
  "js_trim (js_toLowerCase (js ''director@transinvest.local'')) = js ''director@transinvest.local''"
  "js_trim (js_toLowerCase (js ''manager@transinvest.local'')) = js ''manager@transinvest.local''"
  "js ''director@transinvest.local'' \<noteq> js ''manager@transinvest.local''" "js ''d1'' \<noteq> js ''m1''"
  by (simp_all add: js_text_eval)

lemma dev_users:
  "map su_id (sd_users dev_seed) = [js ''d1'', js ''m1'']"
  "map su_email (sd_users dev_seed) = [js ''director@transinvest.local'', js ''manager@transinvest.local'']"
  "map su_role (sd_users dev_seed) = [Director, Manager]"
  using dev_plain(3) by (simp_all add: dev_seed_def seedStaffUsers_def dev_accounts dev_accounts_def no_staff_def upsertStaff_def
      Let_def dev_plain(1,2))

lemma restart_revives_deleted_witness:
  "\<exists>c. snd (login_route demo_zod toy_kdf 9 (js ''manager@transinvest.local'') (js ''TransinvestMgr!2026'')
      (seedStaffUsers toy_kdf [] 8 ([7], js ''d2'') ([8], js ''m2'') (fst (delete_manager None (js ''m1'') dev_seed)))) = Inr c
    \<and> st_email c = Some (js ''manager@transinvest.local'') \<and> st_role c = Manager"
proof -
  have l: "\<forall>p s. length (toy_kdf p s) = 64" by (auto simp: toy_kdf_def)
  have "staff_step demo_zod toy_kdf no_staff (Seeded (seeded_emails [])) dev_seed"
    unfolding dev_seed_def using dev_plain(4) by (intro step_seed) (simp_all add: no_staff_def)
  then have r: "staff_run demo_zod toy_kdf no_staff ([] @ [Seeded (seeded_emails [])]) dev_seed" by (intro run_step[OF run_done])
  obtain x u where us: "sd_users dev_seed = [x, u]" using dev_users(1) by (auto simp: map_eq_Cons_conv)
  have u: "u \<in> set (sd_users dev_seed)" "su_id u = js ''m1''" "su_email u = js_trim (js_toLowerCase (js ''manager@transinvest.local''))"
    "su_id x = js ''d1''" "su_role u = Manager"
    using dev_users us dev_plain by simp_all
  have d: "delete_manager None (js ''m1'') dev_seed = (fst (delete_manager None (js ''m1'') dev_seed), 200)"
    using u dev_plain(4) by (simp add: delete_manager_def requireDirector_def actor_id_def us)
  have us1: "sd_users (fst (delete_manager None (js ''m1'') dev_seed)) = [x]"
    using u dev_plain(4) by (simp add: delete_manager_def requireDirector_def actor_id_def us logStaffEvent_def)
  have f: "distinct (snd ([7 :: byte], js ''d2'') # snd ([8 :: byte], js ''m2'') # map su_id (sd_users (fst (delete_manager None (js ''m1'') dev_seed))))"
    unfolding us1 using u(4) by (simp add: js_def)
  have z: "demo_zod (js ''manager@transinvest.local'')" "js ''TransinvestMgr!2026'' \<noteq> []" by (simp_all add: demo_zod_def js_def)
  have n: "fst ([7 :: byte], js ''d2'') \<noteq> []" "fst ([8 :: byte], js ''m2'') \<noteq> []" by simp_all
  show ?thesis
    using restart_revives_deleted[OF r l u(1,2) d dev_accounts[unfolded dev_accounts_def] u(3) n f z z(2)] u(3) by (simp add: dev_plain)
qed

end
