(* ===== verification/SupplierQuality.thy ===== *)
theory SupplierQuality
  imports RateLimit Regex
begin

text \<open>
  How the mail worker rates suppliers (\<open>supplierQuality.ts\<close>): a request sent, an answer received and the
  periodic marking of silent suppliers, over the tables \<open>suppliers\<close> and \<open>partner_contacts\<close>. Times are
  milliseconds. Of the JSON column \<open>performance\<close> the keys these functions write are kept; how the driver
  writes the number of hours is a parameter.
\<close>

subsection \<open>Tables\<close>

record supplier =
  sp_id :: jstr
  sp_partner :: "jstr option"
  sp_active :: bool
  sp_left_market :: bool
  sp_silent :: bool
  sp_silent_at :: "rat option"
  sp_silent_note :: "jstr option"
  sp_last_rfq :: "rat option"
  sp_last_reply :: "rat option"
  sp_streak :: int
  sp_perf_rfq_email :: "jstr option"
  sp_perf_reply_email :: "jstr option"
  sp_perf_streak :: "int option"
  sp_updated_at :: rat

record partner_contact =
  pc_partner :: jstr
  pc_email :: jstr

definition has_contact :: "partner_contact list \<Rightarrow> jstr \<Rightarrow> supplier \<Rightarrow> bool" where
  "has_contact contacts addr s \<longleftrightarrow>
     list_ex (\<lambda>pc. sp_partner s = Some (pc_partner pc) \<and> js_toLowerCase (pc_email pc) = addr) contacts"

subsection \<open>Thresholds\<close>

definition streakThreshold :: "penv \<Rightarrow> int" where
  "streakThreshold env =
     (case js_Number (js_or (env_get env ''SUPPLIER_SILENT_AFTER_STREAK'') (js ''3'')) of
        Num n \<Rightarrow> if 0 < n then \<lfloor>n\<rfloor> else 3
      | _ \<Rightarrow> 3)"

definition staleHours :: "penv \<Rightarrow> rat" where
  "staleHours env =
     (case js_Number (js_or (env_get env ''SUPPLIER_SILENT_AFTER_HOURS'') (js ''72'')) of
        Num n \<Rightarrow> if 0 < n then n else 72
      | _ \<Rightarrow> 72)"

subsection \<open>Operations\<close>

definition clean_email :: "jstr option \<Rightarrow> jstr option" where
  "clean_email email =
     (let a = js_toLowerCase (js_trim (js_or email [])) in if a = [] \<or> 64 \<notin> set a then None else Some a)"

definition markSupplierRfqSent :: "partner_contact list \<Rightarrow> rat \<Rightarrow> jstr option \<Rightarrow> supplier list \<Rightarrow> supplier list" where
  "markSupplierRfqSent contacts now email ss =
     (case clean_email email of
        None \<Rightarrow> ss
      | Some addr \<Rightarrow>
          update_where (\<lambda>s. has_contact contacts addr s \<and> sp_active s \<and> \<not> sp_left_market s)
            (\<lambda>s. s\<lparr>sp_last_rfq := Some now, sp_streak := sp_streak s + 1, sp_perf_rfq_email := Some addr,
               sp_perf_streak := Some (sp_streak s + 1), sp_updated_at := now\<rparr>) ss)"

definition RX_EMAIL :: rx where
  "RX_EMAIL = sq [plus1 (Cls False [(97, 122), (48, 57), (46, 46), (95, 95), (37, 37), (43, 43), (45, 45)]), lit (js ''@''),
     plus1 (Cls False [(97, 122), (48, 57), (46, 46), (45, 45)]), lit (js ''.''), Rep True 2 None (rng 97 122)]"

definition bare_email :: "jstr \<Rightarrow> jstr" where
  "bare_email a = (case rx_exec True RX_EMAIL a of Some (_, m, _) \<Rightarrow> js_toLowerCase m | None \<Rightarrow> js_toLowerCase a)"

text \<open>\<open>COALESCE(silent_note, '') LIKE 'auto:%'\<close>.\<close>

definition auto_silent :: "supplier \<Rightarrow> bool" where
  "auto_silent s \<longleftrightarrow> sp_silent s \<and> starts_with (case sp_silent_note s of None \<Rightarrow> [] | Some n \<Rightarrow> n) (js ''auto:'')"

definition markSupplierReplied :: "partner_contact list \<Rightarrow> rat \<Rightarrow> jstr option \<Rightarrow> supplier list \<Rightarrow> supplier list" where
  "markSupplierReplied contacts now email ss =
     (case clean_email email of
        None \<Rightarrow> ss
      | Some a \<Rightarrow>
          let addr = bare_email a
          in update_where (has_contact contacts addr)
               (\<lambda>s. s\<lparr>sp_last_reply := Some now, sp_streak := 0,
                  sp_silent := (if auto_silent s then False else sp_silent s),
                  sp_silent_at := (if auto_silent s then None else sp_silent_at s),
                  sp_silent_note := (if auto_silent s then None else sp_silent_note s),
                  sp_perf_reply_email := Some addr, sp_perf_streak := Some 0, sp_updated_at := now\<rparr>) ss)"

definition silence_due :: "penv \<Rightarrow> rat \<Rightarrow> supplier \<Rightarrow> bool" where
  "silence_due env now s \<longleftrightarrow> sp_active s \<and> \<not> sp_left_market s \<and> \<not> sp_silent s
     \<and> (case sp_last_rfq s of
          None \<Rightarrow> False
        | Some rfq \<Rightarrow> streakThreshold env \<le> sp_streak s
            \<or> (rfq < now - staleHours env * 3600000
               \<and> (case sp_last_reply s of None \<Rightarrow> True | Some r \<Rightarrow> r < rfq)))"

definition silent_note :: "(rat \<Rightarrow> jstr) \<Rightarrow> penv \<Rightarrow> supplier \<Rightarrow> jstr" where
  "silent_note hours_text env s =
     (if streakThreshold env \<le> sp_streak s
      then js ''auto: '' @ ru ''net otweta posle '' @ show_int (sp_streak s) @ js '' RFQ''
      else js ''auto: '' @ ru ''net otweta > '' @ hours_text (staleHours env) @ ru '' ~ posle poslednego '' @ js ''RFQ'')"

definition autoMarkSilentSuppliers :: "(rat \<Rightarrow> jstr) \<Rightarrow> penv \<Rightarrow> rat \<Rightarrow> supplier list \<Rightarrow> supplier list \<times> nat" where
  "autoMarkSilentSuppliers hours_text env now ss =
     (update_where (silence_due env now)
        (\<lambda>s. s\<lparr>sp_silent := True, sp_silent_at := Some now, sp_silent_note := Some (silent_note hours_text env s), sp_updated_at := now\<rparr>) ss,
      length (filter (silence_due env now) ss))"

subsection \<open>The worker's runs\<close>

datatype quality_event = Rfq_sent "jstr option" | Reply_seen "jstr option" | Auto_mark

fun quality_step :: "(rat \<Rightarrow> jstr) \<Rightarrow> penv \<Rightarrow> partner_contact list \<Rightarrow> rat \<times> quality_event \<Rightarrow> supplier list \<Rightarrow> supplier list" where
  "quality_step ht env cs (now, Rfq_sent e) ss = markSupplierRfqSent cs now e ss"
| "quality_step ht env cs (now, Reply_seen e) ss = markSupplierReplied cs now e ss"
| "quality_step ht env cs (now, Auto_mark) ss = fst (autoMarkSilentSuppliers ht env now ss)"

definition quality_run :: "(rat \<Rightarrow> jstr) \<Rightarrow> penv \<Rightarrow> partner_contact list \<Rightarrow> (rat \<times> quality_event) list \<Rightarrow> supplier list \<Rightarrow> supplier list" where
  "quality_run ht env cs evs ss = fold (quality_step ht env cs) evs ss"

subsection \<open>Rows\<close>

text \<open>Every operation works on each row alone, so a run over the table is the run over each row.\<close>

definition row_step :: "(rat \<Rightarrow> jstr) \<Rightarrow> penv \<Rightarrow> partner_contact list \<Rightarrow> rat \<times> quality_event \<Rightarrow> supplier \<Rightarrow> supplier" where
  "row_step ht env cs ev s = hd (quality_step ht env cs ev [s])"

lemma update_where_row: "update_where p f ss = map (\<lambda>s. hd (update_where p f [s])) ss"
  by (simp add: update_where_def)

lemma quality_step_rows: "quality_step ht env cs ev ss = map (row_step ht env cs ev) ss"
proof -
  obtain now e where ev: "ev = (now, e)" by force
  show ?thesis
    unfolding ev row_step_def
    by (cases e) (auto simp: markSupplierRfqSent_def markSupplierReplied_def autoMarkSilentSuppliers_def update_where_def Let_def
        split: option.split)
qed

lemma quality_run_rows: "quality_run ht env cs evs ss = map (fold (row_step ht env cs) evs) ss"
  unfolding quality_run_def by (induction evs arbitrary: ss) (simp_all add: quality_step_rows)

lemma row_step_simps:
  "row_step ht env cs (now, Rfq_sent e) s = hd (markSupplierRfqSent cs now e [s])"
  "row_step ht env cs (now, Reply_seen e) s = hd (markSupplierReplied cs now e [s])"
  "row_step ht env cs (now, Auto_mark) s = hd (fst (autoMarkSilentSuppliers ht env now [s]))"
  by (simp_all add: row_step_def)

fun asks :: "partner_contact list \<Rightarrow> jstr option \<Rightarrow> quality_event \<Rightarrow> bool" where
  "asks cs partner (Rfq_sent e) = (case clean_email e of None \<Rightarrow> False
     | Some a \<Rightarrow> list_ex (\<lambda>pc. partner = Some (pc_partner pc) \<and> js_toLowerCase (pc_email pc) = a) cs)"
| "asks cs partner ev = False"

text \<open>What an answer leaves behind: nothing in it gives the marking a reason.\<close>

definition answered :: "rat \<Rightarrow> supplier \<Rightarrow> bool" where
  "answered t0 s \<longleftrightarrow> \<not> auto_silent s \<and> sp_streak s = 0 \<and> (\<exists>r. sp_last_reply s = Some r \<and> t0 \<le> r)
     \<and> (case sp_last_rfq s of None \<Rightarrow> True | Some q \<Rightarrow> q \<le> t0)"

lemma answered_not_due: "answered t0 s \<Longrightarrow> 0 < streakThreshold env \<Longrightarrow> \<not> silence_due env now s"
  by (auto simp: answered_def silence_due_def split: option.splits)

lemma row_step_answered:
  assumes "answered t0 s" "0 < streakThreshold env" "t0 \<le> now" "\<not> asks cs (sp_partner s) ev"
  shows "answered t0 (row_step ht env cs (now, ev) s) \<and> sp_silent (row_step ht env cs (now, ev) s) = sp_silent s
    \<and> sp_partner (row_step ht env cs (now, ev) s) = sp_partner s"
proof (cases ev)
  case (Rfq_sent e)
  then show ?thesis
    using assms by (auto simp: row_step_simps markSupplierRfqSent_def has_contact_def split: option.splits)
next
  case (Reply_seen e)
  then show ?thesis
    using assms(1,3) by (auto simp: row_step_simps markSupplierReplied_def Let_def answered_def auto_silent_def split: option.splits)
next
  case Auto_mark
  then show ?thesis
    using assms(1) answered_not_due[OF assms(1,2)] by (simp add: row_step_simps autoMarkSilentSuppliers_def)
qed

lemma rows_answered:
  assumes "answered t0 s" "0 < streakThreshold env" "list_all (\<lambda>(t, ev). t0 \<le> t \<and> \<not> asks cs (sp_partner s) ev) evs"
  shows "answered t0 (fold (row_step ht env cs) evs s) \<and> sp_silent (fold (row_step ht env cs) evs s) = sp_silent s"
  using assms
proof (induction evs arbitrary: s)
  case (Cons e evs)
  obtain now ev where e: "e = (now, ev)" by force
  have r: "answered t0 (row_step ht env cs e s) \<and> sp_silent (row_step ht env cs e s) = sp_silent s
    \<and> sp_partner (row_step ht env cs e s) = sp_partner s"
    unfolding e using Cons.prems by (intro row_step_answered) (auto simp: e)
  then show ?case using Cons.IH[of "row_step ht env cs e s"] Cons.prems by simp
qed simp

text \<open>
  C15. A supplier who has answered is left in peace. With a positive streak threshold, an answer from an address of
  a supplier's partner lifts an automatic silence, keeps a manual one, and whatever the worker does afterwards -
  requests to others, further answers, any number of automatic markings, however late - the supplier's silence
  stays as the answer left it until another request is sent to it.
\<close>

theorem answered_supplier_not_silenced:
  assumes "0 < streakThreshold env" "clean_email email = Some a" "i < length ss" "has_contact cs (bare_email a) (ss ! i)"
    and "\<forall>q. sp_last_rfq (ss ! i) = Some q \<longrightarrow> q \<le> t0"
    and "list_all (\<lambda>(t, ev). t0 \<le> t \<and> \<not> asks cs (sp_partner (ss ! i)) ev) evs"
  shows "let s = quality_run ht env cs ((t0, Reply_seen email) # evs) ss ! i
    in sp_silent s \<longleftrightarrow> sp_silent (ss ! i) \<and> \<not> auto_silent (ss ! i)"
proof -
  let ?s = "row_step ht env cs (t0, Reply_seen email) (ss ! i)"
  have s: "answered t0 ?s" "sp_silent ?s \<longleftrightarrow> sp_silent (ss ! i) \<and> \<not> auto_silent (ss ! i)" "sp_partner ?s = sp_partner (ss ! i)"
    using assms(2,4,5) by (auto simp: row_step_simps markSupplierReplied_def Let_def answered_def auto_silent_def split: option.splits)
  then show ?thesis
    using rows_answered[OF s(1) assms(1), of cs evs ht] assms(3,6) by (simp add: quality_run_rows Let_def)
qed

definition demo_supplier :: supplier where
  "demo_supplier = \<lparr>sp_id = js ''s'', sp_partner = Some (js ''p''), sp_active = True, sp_left_market = False, sp_silent = True,
     sp_silent_at = Some 5, sp_silent_note = Some (js ''auto: x''), sp_last_rfq = Some 0, sp_last_reply = None, sp_streak = 3,
     sp_perf_rfq_email = None, sp_perf_reply_email = None, sp_perf_streak = Some 3, sp_updated_at = 5\<rparr>"

definition demo_contacts :: "partner_contact list" where
  "demo_contacts = [\<lparr>pc_partner = js ''p'', pc_email = js ''A@b''\<rparr>]"

lemma demo_bare: "clean_email (Some (js ''a@B '')) = Some (js ''a@b'')" "bare_email (js ''a@b'') = js ''a@b''"
  by (simp_all add: clean_email_def bare_email_def RX_EMAIL_def rx_eval js_text_eval)

lemma default_threshold: "streakThreshold [] = 3"
  using fl_of_int[of 3]
  by (simp add: streakThreshold_def env_get_def js_Number_def js_unsigned_dec_def js_text_eval js_digit_def digit_val_def)

lemma answered_supplier_not_silenced_witness:
  "\<not> sp_silent (quality_run (\<lambda>_. []) [] demo_contacts [(7, Reply_seen (Some (js ''a@B ''))), (999999999, Auto_mark)] [demo_supplier] ! 0)"
proof -
  have t: "0 < streakThreshold []" "0 < length [demo_supplier]" by (simp_all add: default_threshold)
  have c: "has_contact demo_contacts (bare_email (js ''a@b'')) ([demo_supplier] ! 0)"
    unfolding demo_bare(2) by (simp add: has_contact_def demo_contacts_def demo_supplier_def js_text_eval)
  have q: "\<forall>q. sp_last_rfq ([demo_supplier] ! 0) = Some q \<longrightarrow> q \<le> 7" by (simp add: demo_supplier_def)
  have e: "list_all (\<lambda>(t, ev). (7 :: rat) \<le> t \<and> \<not> asks demo_contacts (sp_partner ([demo_supplier] ! 0)) ev) [(999999999, Auto_mark)]"
    by simp
  have a: "auto_silent demo_supplier" by (simp add: auto_silent_def demo_supplier_def js_def)
  show ?thesis using answered_supplier_not_silenced[OF t(1) demo_bare(1) t(2) c q e, of "\<lambda>_. []"] a by (simp add: Let_def)
qed

text \<open>A threshold between zero and one is rounded down to zero, and every asked supplier is silenced, answered or not.\<close>

lemma fractional_threshold_silences:
  assumes "streakThreshold env = 0" "sp_active s" "\<not> sp_left_market s" "\<not> sp_silent s" "sp_last_rfq s \<noteq> None" "0 \<le> sp_streak s"
  shows "sp_silent (row_step ht env cs (now, Auto_mark) s)"
  using assms by (auto simp: row_step_simps autoMarkSilentSuppliers_def silence_due_def)

lemma fractional_threshold: "streakThreshold [(js ''SUPPLIER_SILENT_AFTER_STREAK'', js ''0.5'')] = 0"
proof -
  have half: "fl (1 / 2) = 1 / 2" using fl_representable[of 1 "-1"] by simp
  have zero: "\<lfloor>1 / 2 :: rat\<rfloor> = 0" by (simp add: floor_eq_iff)
  show ?thesis by (simp add: half zero streakThreshold_def env_get_def js_Number_def js_unsigned_dec_def js_text_eval js_digit_def digit_val_def)
qed

end
