(* ===== verification/QuoteParse.thy ===== *)
theory QuoteParse
  imports MailRules
begin

text \<open>
  Extraction of a freight quote from a supplier's mail (\<open>quoteParse.ts\<close>): price and currency, transit time,
  validity and the deal the mail refers to. Groups of an expression are numbered as in the source; a number
  is the value of \<open>Number\<close> on the matched text.
\<close>

subsection \<open>Expressions\<close>

definition hexd :: rx where "hexd = Cls False [(48, 57), (97, 102)]"
definition hexes :: "nat \<Rightarrow> rx" where "hexes n = rep_to n n hexd"

definition REF_RE :: rx where
  "REF_RE = sq [ll ''Ref:'', star sp,
     Cap 1 (sq [hexes 8, ll ''-'', hexes 4, ll ''-'', hexes 4, ll ''-'', hexes 4, ll ''-'', hexes 12])]"

definition amount_rx :: "nat \<Rightarrow> rx" where
  "amount_rx lo = sq [dg, rep_to lo 14 (Cls False ((48, 57) # space_ranges)),
     opt (sq [one (js ''.,''), rep_to 1 2 dg])]"

text \<open>Rouble 8381, euro 8364, yen 165.\<close>

definition currency_rx :: rx where
  "currency_rx = alts [lit [8381], sq [rr ''rub'', opt (ll ''.'')], ll ''rub'', ll ''usd'', ll ''$'', ll ''eur'', lit [8364],
     ll ''cny'', lit [165], ll ''rmb'']"

definition PRICE_LABEL_RE :: rx where
  "PRICE_LABEL_RE = sq [alts [rr ''cena'', rr ''stoimostx'', rr ''itogo'', rr ''tarif'', rr ''stawka'', rr ''fraht'',
       ll ''rate'', ll ''price'', ll ''cost'', ll ''total'', ll ''amount''],
     rep_to 0 24 nondg, Cap 1 (amount_rx 1), star sp, opt (Cap 2 currency_rx)]"

definition PRICE_CURRENCY_FIRST_RE :: rx where
  "PRICE_CURRENCY_FIRST_RE = sq [alts [ll ''usd'', ll ''$'', ll ''eur'', lit [8364], ll ''cny'', lit [165], ll ''rmb'', ll ''rub'', lit [8381]],
     star sp, Cap 1 (sq [dg, rep_to 1 14 (Cls False ((48, 57) # (44, 44) # space_ranges)), opt (sq [ll ''.'', rep_to 1 2 dg])])]"

definition PRICE_SUFFIX_RE :: rx where
  "PRICE_SUFFIX_RE = sq [Cap 1 (amount_rx 2), star sp, Cap 2 currency_rx]"

definition day_words :: rx where
  "day_words = alts [rr ''dn'', rr ''denx'', rr ''dnq'', rr ''dnej'', ll ''day'', ll ''days'']"

definition ETA_RANGE_RE :: rx where
  "ETA_RANGE_RE = sq [alts [rr ''srok'', ll ''eta'', ll ''transit'', rr ''dostawka'', rr ''gotownostx''], rep_to 0 30 nondg,
     Cap 1 (rep_to 1 3 dg), star sp, Cls False [(45, 45), (8211, 8211), (8212, 8212)], star sp, Cap 2 (rep_to 1 3 dg), star sp, opt day_words]"

definition ETA_SINGLE_RE :: rx where
  "ETA_SINGLE_RE = sq [alts [rr ''srok'', ll ''eta'', ll ''transit'', rr ''dostawka''], rep_to 0 30 nondg,
     opt (alts [rr ''okolo'', lit [126], rr ''primerno'']), star sp, Cap 1 (rep_to 1 3 dg), star sp, day_words]"

definition VALID_RE :: rx where
  "VALID_RE = sq [alts [rr ''dejstw'', ll ''valid'', rr ''ofert''], rep_to 0 40 nondg, Cap 1 (rep_to 1 3 dg), star sp,
     alts [rr ''~as'', sq [rr ''~'', ll ''.''], ll ''h'', ll ''hour'']]"

subsection \<open>Text\<close>

definition stripHtml :: "jstr \<Rightarrow> jstr" where
  "stripHtml html =
     (let lazy = Rep False 0 None anyc;
          s1 = replace_all True (sq [ll ''<script'', lazy, ll ''</script>'']) (js '' '') html;
          s2 = replace_all True (sq [ll ''<style'', lazy, ll ''</style>'']) (js '' '') s1;
          s3 = replace_all False (sq [ll ''<'', plus1 (Cls True [(62, 62)]), ll ''>'']) (js '' '') s2;
          s4 = replace_all True (ll ''&nbsp;'') (js '' '') s3;
          s5 = replace_all True (ll ''&amp;'') (js ''&'') s4
      in js_trim (replace_all False (plus1 sp) (js '' '') s5))"

subsection \<open>Numbers and currencies\<close>

fun replace_first :: "nat \<Rightarrow> nat \<Rightarrow> jstr \<Rightarrow> jstr" where
  "replace_first a b [] = []"
| "replace_first a b (c # s) = (if c = a then b # s else c # replace_first a b s)"

definition grouped_rx :: "nat \<Rightarrow> nat \<Rightarrow> rx" where
  "grouped_rx sep point = sq [Bol, rep_to 1 3 dg, plus1 (sq [lit [sep], rep_to 3 3 dg]), opt (sq [lit [point], plus1 dg]), Eol]"

definition clean_number :: "jstr \<Rightarrow> jstr" where
  "clean_number raw =
     (let s = filter (\<lambda>c. \<not> js_space c) raw
      in if rx_test False (grouped_rx 44 46) s then filter (\<lambda>c. c \<noteq> 44) s
         else if rx_test False (grouped_rx 46 44) s then replace_first 44 46 (filter (\<lambda>c. c \<noteq> 46) s)
         else replace_first 44 46 s)"

definition parseNumber :: "jstr \<Rightarrow> rat option" where
  "parseNumber raw =
     (case js_Number (clean_number raw) of
        Num n \<Rightarrow> if n < 500 \<or> 50000000 < n then None else Some n
      | _ \<Rightarrow> None)"

datatype currency = USD | EUR | CNY | RUB

definition currencyFromToken :: "jstr option \<Rightarrow> jstr \<Rightarrow> currency" where
  "currencyFromToken tok blob =
     (let t = js_toLowerCase (js_or tok []); b = take 80 blob
      in if t = js ''$'' \<or> t = js ''usd'' then USD
         else if t = [8364] \<or> t = js ''eur'' then EUR
         else if t = [165] \<or> t = js ''cny'' \<or> t = js ''rmb'' then CNY
         else if t = [8381] \<or> starts_with t (ru ''rub'') \<or> t = js ''rub'' then RUB
         else if rx_test True (alts [ll ''$'', ll ''usd'']) b then USD
         else if rx_test True (alts [lit [8364], ll ''eur'']) b then EUR
         else if rx_test True (alts [lit [165], ll ''cny'', ll ''rmb'']) b then CNY
         else RUB)"

definition first_word :: "jstr \<Rightarrow> jstr" where
  "first_word s = takeWhile (\<lambda>c. \<not> js_space c) (js_trim s)"

subsection \<open>The quote\<close>

record mail_quote =
  mq_price :: "rat option"
  mq_currency :: "currency option"
  mq_etaMin :: "rat option"
  mq_etaMax :: "rat option"
  mq_valid :: "rat option"
  mq_deal :: "jstr option"

fun extractDealId :: "jstr option list \<Rightarrow> jstr option" where
  "extractDealId [] = None"
| "extractDealId (p # ps) =
     (if js_or p [] = [] then extractDealId ps
      else case rx_exec True REF_RE (js_or p []) of
        Some (_, _, cs, _) \<Rightarrow> grp 1 cs
      | None \<Rightarrow> extractDealId ps)"

text \<open>Price and the currency seen with it; the second component is meaningful when the first is there.\<close>

definition labelled_price :: "jstr \<Rightarrow> (rat \<times> currency) option" where
  "labelled_price blob =
     (case rx_exec True PRICE_LABEL_RE blob of
        None \<Rightarrow> None
      | Some (_, m, cs, _) \<Rightarrow> map_option (\<lambda>p. (p, currencyFromToken (grp 2 cs) m)) (parseNumber (js_or (grp 1 cs) [])))"

definition leading_currency_price :: "jstr \<Rightarrow> (rat \<times> currency) option" where
  "leading_currency_price blob =
     (case rx_exec True PRICE_CURRENCY_FIRST_RE blob of
        None \<Rightarrow> None
      | Some (_, m, cs, _) \<Rightarrow> map_option (\<lambda>p. (p, currencyFromToken (Some (first_word m)) m)) (parseNumber (js_or (grp 1 cs) [])))"

definition trailing_currency_price :: "jstr \<Rightarrow> (rat \<times> currency) option" where
  "trailing_currency_price blob =
     (case rx_exec True PRICE_SUFFIX_RE blob of
        None \<Rightarrow> None
      | Some (_, m, cs, _) \<Rightarrow> map_option (\<lambda>p. (p, currencyFromToken (grp 2 cs) m)) (parseNumber (js_or (grp 1 cs) [])))"

definition find_price :: "jstr \<Rightarrow> (rat \<times> currency) option" where
  "find_price blob =
     (case labelled_price blob of Some p \<Rightarrow> Some p
      | None \<Rightarrow> (case leading_currency_price blob of Some p \<Rightarrow> Some p
         | None \<Rightarrow> trailing_currency_price blob))"

definition find_eta :: "jstr \<Rightarrow> (rat \<times> rat) option" where
  "find_eta blob =
     (case rx_exec True ETA_RANGE_RE blob of
        Some (_, _, cs, _) \<Rightarrow>
          (case (js_Number (js_or (grp 1 cs) []), js_Number (js_or (grp 2 cs) [])) of
             (Num a, Num b) \<Rightarrow> if 1 \<le> a \<and> b \<le> 120 then Some (min a b, max a b) else None
           | _ \<Rightarrow> None)
      | None \<Rightarrow>
          (case rx_exec True ETA_SINGLE_RE blob of
             None \<Rightarrow> None
           | Some (_, _, cs, _) \<Rightarrow>
               (case js_Number (js_or (grp 1 cs) []) of
                  Num d \<Rightarrow> if 1 \<le> d \<and> d \<le> 120 then Some (d, d) else None
                | _ \<Rightarrow> None)))"

definition find_valid :: "jstr \<Rightarrow> rat option" where
  "find_valid blob =
     (case rx_exec True VALID_RE blob of
        None \<Rightarrow> None
      | Some (_, _, cs, _) \<Rightarrow>
          (case js_Number (js_or (grp 1 cs) []) of
             Num h \<Rightarrow> if 1 \<le> h \<and> h \<le> 720 then Some h else None
           | _ \<Rightarrow> None))"

definition parseQuoteFromMail :: "jstr option \<Rightarrow> jstr option \<Rightarrow> jstr option \<Rightarrow> mail_quote" where
  "parseQuoteFromMail subject text html =
     (let subj = js_or subject [];
          txt = (let t = js_trim (js_or text []) in if t \<noteq> [] then t else if js_or html [] \<noteq> [] then stripHtml (js_or html []) else []);
          blob = subj @ [10] @ txt;
          price = find_price blob;
          eta = find_eta blob
      in \<lparr>mq_price = map_option fst price, mq_currency = map_option snd price, mq_etaMin = map_option fst eta,
          mq_etaMax = map_option snd eta, mq_valid = find_valid blob, mq_deal = extractDealId [Some subj, Some txt]\<rparr>)"

subsection \<open>Properties\<close>

lemma parse_number_range: "parseNumber s = Some n \<Longrightarrow> 500 \<le> n \<and> n \<le> 50000000"
  by (auto simp: parseNumber_def split: numval.splits if_splits)

lemma price_range: "find_price blob = Some (p, c) \<Longrightarrow> 500 \<le> p \<and> p \<le> 50000000"
  by (auto simp: find_price_def labelled_price_def leading_currency_price_def trailing_currency_price_def
      split: option.splits dest: parse_number_range)

lemma eta_range: "find_eta blob = Some (a, b) \<Longrightarrow> a \<le> b \<and> a \<le> 120 \<and> 1 \<le> b"
  by (auto simp: find_eta_def split: option.splits numval.splits if_splits)

lemma valid_range: "find_valid blob = Some h \<Longrightarrow> 1 \<le> h \<and> h \<le> 720"
  by (auto simp: find_valid_def split: option.splits numval.splits if_splits)

text \<open>
  What a parsed quote can contain. A price lies between 500 and 50 million; the shorter transit time is at most
  the longer one and at most 120 days, the longer one is at least one day; a validity is between one hour and
  30 days. A price comes with a currency, and both transit times come together.
\<close>

theorem quote_ranges:
  "let q = parseQuoteFromMail subject text html in
     (case mq_price q of None \<Rightarrow> mq_currency q = None | Some p \<Rightarrow> 500 \<le> p \<and> p \<le> 50000000 \<and> mq_currency q \<noteq> None)
   \<and> (case mq_etaMin q of None \<Rightarrow> mq_etaMax q = None
       | Some a \<Rightarrow> (case mq_etaMax q of None \<Rightarrow> False | Some b \<Rightarrow> a \<le> b \<and> a \<le> 120 \<and> 1 \<le> b))
   \<and> (case mq_valid q of None \<Rightarrow> True | Some h \<Rightarrow> 1 \<le> h \<and> h \<le> 720)"
proof -
  let ?q = "parseQuoteFromMail subject text html"
  obtain b where b: "mq_price ?q = map_option fst (find_price b)" "mq_currency ?q = map_option snd (find_price b)"
    "mq_etaMin ?q = map_option fst (find_eta b)" "mq_etaMax ?q = map_option snd (find_eta b)" "mq_valid ?q = find_valid b"
    unfolding parseQuoteFromMail_def Let_def by simp
  have "case mq_price ?q of None \<Rightarrow> mq_currency ?q = None | Some p \<Rightarrow> 500 \<le> p \<and> p \<le> 50000000 \<and> mq_currency ?q \<noteq> None"
    unfolding b using price_range[of b] by (cases "find_price b") auto
  moreover have "case mq_etaMin ?q of None \<Rightarrow> mq_etaMax ?q = None
      | Some x \<Rightarrow> (case mq_etaMax ?q of None \<Rightarrow> False | Some y \<Rightarrow> x \<le> y \<and> x \<le> 120 \<and> 1 \<le> y)"
    unfolding b using eta_range[of b] by (cases "find_eta b") auto
  moreover have "case mq_valid ?q of None \<Rightarrow> True | Some h \<Rightarrow> 1 \<le> h \<and> h \<le> 720"
    unfolding b using valid_range[of b] by (cases "find_valid b") auto
  ultimately show ?thesis unfolding Let_def by blast
qed

text \<open>
  An amount with a comma of thousands and the currency after it is read from its last group: 12,500 dollars
  become 500 dollars.
\<close>

lemma number_500: "parseNumber (js ''500'') = Some 500"
proof -
  have c: "clean_number (js ''500'') = js ''500''"
    by (simp add: clean_number_def grouped_rx_def Let_def rx_eval js_def js_space_def)
  have f: "fl 500 = 500" using fl_of_int[of 500] by simp
  have "js_Number (js ''500'') = Num 500"
    by (simp add: js_Number_def js_unsigned_dec_def js_text_eval js_digit_def digit_val_def f)
  then show ?thesis unfolding parseNumber_def c by simp
qed

lemma thousands_price: "find_price (js ''12,500$'') = Some (500, USD)"
proof -
  have a: "rx_exec True PRICE_LABEL_RE (js ''12,500$'') = None"
    by (simp add: PRICE_LABEL_RE_def rr_def ll_def amount_rx_def currency_rx_def Let_def rx_eval js_def ru_eval)
  have b: "rx_exec True PRICE_CURRENCY_FIRST_RE (js ''12,500$'') = None"
    by (simp add: PRICE_CURRENCY_FIRST_RE_def rr_def ll_def Let_def rx_eval js_def ru_eval)
  have c: "rx_exec True PRICE_SUFFIX_RE (js ''12,500$'') = Some (js ''12,'', js ''500$'', [(2, js ''$''), (1, js ''500'')], [])"
    by (simp add: PRICE_SUFFIX_RE_def amount_rx_def currency_rx_def rr_def ll_def Let_def rx_eval js_def ru_eval)
  have d: "currencyFromToken (Some (js ''$'')) m = USD" for m by (simp add: currencyFromToken_def js_text_eval)
  have e: "js_or (grp 1 [(2, js ''$''), (1, js ''500'')]) [] = js ''500''" "grp 2 [(2, js ''$''), (1, js ''500'')] = Some (js ''$'')"
    by (simp_all add: grp_def js_def)
  show ?thesis
    unfolding find_price_def labelled_price_def leading_currency_price_def trailing_currency_price_def a b c
    by (simp only: option.case prod.case e number_500 d option.map)
qed

text \<open>Only the second number of a range is limited, so a range written backwards has no upper bound of 120 days.\<close>

lemma backward_range: "find_eta (js ''eta 500-3'') = Some (3, 500)"
proof -
  have a: "rx_exec True ETA_RANGE_RE (js ''eta 500-3'') = Some ([], js ''eta 500-3'', [(2, js ''3''), (1, js ''500'')], [])"
    by (simp add: ETA_RANGE_RE_def day_words_def rr_def ll_def Let_def rx_eval js_def ru_eval)
  have n: "js_Number (js ''500'') = Num 500" "js_Number (js ''3'') = Num 3"
    using fl_of_int[of 500] fl_of_int[of 3]
    by (simp_all add: js_Number_def js_unsigned_dec_def js_text_eval js_digit_def digit_val_def)
  have e: "js_or (grp 1 [(2, js ''3''), (1, js ''500'')]) [] = js ''500''" "js_or (grp 2 [(2, js ''3''), (1, js ''500'')]) [] = js ''3''"
    by (simp_all add: grp_def js_def)
  show ?thesis unfolding find_eta_def a by (simp add: e n del: One_nat_def)
qed

end
