(* ===== verification/EnvConfig.thy ===== *)
theory EnvConfig
  imports RateLimit Regex "HOL-Library.AList"
begin

text \<open>
  Configuration shared by every process: the reader of the root \<open>.env\<close> file (\<open>packages/shared/src/loadRootEnv.ts\<close>),
  the model routing read from it (\<open>openai.ts\<close>) and the log levels and sinks (\<open>logger.ts\<close>). A POSIX path is the
  list of its segments; the file system is the map from paths to texts, and the environment the list of its
  variables, the newest first. An object built by assignment is the association list of its properties in
  insertion order.
\<close>

subsection \<open>The text of an environment file\<close>

definition chop_cr :: "jstr \<Rightarrow> jstr" where
  "chop_cr l = (if l \<noteq> [] \<and> last l = 13 then butlast l else l)"

text \<open>\<open>text.split(/\r?\n/)\<close>\<close>

definition split_lines :: "jstr \<Rightarrow> jstr list" where
  "split_lines s = (let ps = js_split1 10 s in map chop_cr (butlast ps) @ [last ps])"

definition key_ok :: "jstr \<Rightarrow> bool" where
  "key_ok key = (case key of [] \<Rightarrow> False | c # r \<Rightarrow> (js_letter c \<or> c = 95) \<and> list_all js_word r)"

definition COMMENT_RE :: rx where
  "COMMENT_RE = sq [plus1 sp, lit [35]]"

definition wrapped :: "nat \<Rightarrow> jstr \<Rightarrow> bool" where
  "wrapped q v \<longleftrightarrow> v \<noteq> [] \<and> hd v = q \<and> last v = q"

definition quote_first :: "jstr \<Rightarrow> bool" where
  "quote_first v \<longleftrightarrow> v \<noteq> [] \<and> hd v \<in> {34, 39}"

definition env_value :: "jstr \<Rightarrow> jstr" where
  "env_value raw =
     (let cut = (if \<not> quote_first (js_trim raw) \<and> rx_test False COMMENT_RE raw
                 then rx_replace False (sq [COMMENT_RE, star dot, Eol]) [] raw else raw);
          v = js_trim cut
      in if wrapped 34 v \<or> wrapped 39 v then butlast (tl v) else v)"

definition env_line :: "jstr \<Rightarrow> (jstr \<times> jstr) option" where
  "env_line raw =
     (let line = js_trim raw
      in if line = [] \<or> hd line = 35 then None
         else if 61 \<notin> set line then None
         else let key = js_trim (takeWhile (\<lambda>c. c \<noteq> 61) line)
              in if key_ok key then Some (key, env_value (tl (dropWhile (\<lambda>c. c \<noteq> 61) line))) else None)"

text \<open>Assigning a string to \<open>__proto__\<close> leaves the object as it is.\<close>

definition env_assign :: "jstr \<Rightarrow> (jstr \<times> jstr) list \<Rightarrow> (jstr \<times> jstr) list" where
  "env_assign raw out =
     (case env_line raw of None \<Rightarrow> out
      | Some (k, v) \<Rightarrow> if k = js ''__proto__'' then out else AList.update k v out)"

definition parseEnvFile :: "jstr \<Rightarrow> (jstr \<times> jstr) list" where
  "parseEnvFile text = fold env_assign (split_lines text) []"

subsection \<open>Loading it\<close>

type_synonym fpath = "jstr list"
type_synonym filesystem = "fpath \<Rightarrow> jstr option"

definition path_text :: "fpath \<Rightarrow> jstr" where
  "path_text p = 47 # js_join [47] p"

definition path_seg :: "jstr \<Rightarrow> fpath \<Rightarrow> fpath" where
  "path_seg s p = (if s = [] \<or> s = js ''.'' then p else if s = js ''..'' then butlast p else p @ [s])"

definition resolve :: "fpath \<Rightarrow> jstr \<Rightarrow> fpath" where
  "resolve base s = fold path_seg (js_split1 47 s) (if starts_with s [47] then [] else base)"

text \<open>At most ten directories are looked at; \<open>dirname\<close> of the root is the root.\<close>

fun find_root_from :: "nat \<Rightarrow> filesystem \<Rightarrow> fpath \<Rightarrow> fpath option" where
  "find_root_from 0 fs dir = None"
| "find_root_from (Suc n) fs dir =
     (if fs (dir @ [js ''pnpm-workspace.yaml'']) \<noteq> None \<or> fs (dir @ [js ''.env'']) \<noteq> None then Some dir
      else if butlast dir = dir then None else find_root_from n fs (butlast dir))"

definition findRepoRoot :: "filesystem \<Rightarrow> fpath \<Rightarrow> fpath" where
  "findRepoRoot fs start = (case find_root_from 10 fs start of Some d \<Rightarrow> d | None \<Rightarrow> start)"

definition env_set :: "jstr \<Rightarrow> jstr \<Rightarrow> penv \<Rightarrow> penv" where
  "env_set k v env = (k, v) # env"

definition load_var :: "bool \<Rightarrow> jstr \<times> jstr \<Rightarrow> penv \<Rightarrow> penv" where
  "load_var override kv env =
     (if \<not> override \<and> map_of env (fst kv) \<noteq> None then env else env_set (fst kv) (snd kv) env)"

text \<open>\<open>cwd\<close> is the working directory and \<open>here\<close> the directory of the module, when it is known.\<close>

definition loadRootEnv :: "bool \<Rightarrow> fpath \<Rightarrow> fpath option \<Rightarrow> filesystem \<Rightarrow> penv \<Rightarrow> fpath \<times> penv" where
  "loadRootEnv override cwd here fs env =
     (let fromEnv = js_trim (js_or (env_get env ''ALO_ROOT'') []);
          root = (if fromEnv \<noteq> [] then resolve cwd fromEnv
                  else findRepoRoot fs (case here of Some d \<Rightarrow> resolve d (js ''../../..'') | None \<Rightarrow> cwd));
          envPath = root @ [js ''.env''];
          env1 = (case fs envPath of None \<Rightarrow> env | Some text \<Rightarrow> fold (load_var override) (parseEnvFile text) env)
      in (envPath, env_set (js ''ALO_ROOT'') (path_text root) env1))"

subsection \<open>Model routing\<close>

datatype openai_role = MainRole | FastRole | CodingRole | DocumentRole

definition ROLE_ENV :: "openai_role \<Rightarrow> string" where
  "ROLE_ENV r = (case r of MainRole \<Rightarrow> ''OPENAI_MODEL'' | FastRole \<Rightarrow> ''OPENAI_FAST_MODEL''
     | CodingRole \<Rightarrow> ''OPENAI_CODING_MODEL'' | DocumentRole \<Rightarrow> ''OPENAI_DOCUMENT_MODEL'')"

definition ROLE_DEFAULT :: "openai_role \<Rightarrow> jstr" where
  "ROLE_DEFAULT r = js (case r of FastRole \<Rightarrow> ''gpt-5.6-luna'' | _ \<Rightarrow> ''gpt-5.6-sol'')"

definition env_trimmed :: "penv \<Rightarrow> string \<Rightarrow> jstr" where
  "env_trimmed env name = js_trim (js_or (env_get env name) [])"

definition drop_last_unit :: "nat \<Rightarrow> jstr \<Rightarrow> jstr" where
  "drop_last_unit c s = (if s \<noteq> [] \<and> last s = c then butlast s else s)"

definition firstModelId :: "jstr option \<Rightarrow> jstr \<Rightarrow> jstr" where
  "firstModelId raw fallback =
     (let s = js_or (Some (js_trim (takeWhile (\<lambda>c. c \<noteq> 44 \<and> c \<noteq> 59) (js_or raw fallback)))) fallback
      in js_or (Some (drop_last_unit 45 s)) fallback)"

definition openaiModel :: "penv \<Rightarrow> openai_role \<Rightarrow> jstr" where
  "openaiModel env role =
     (let fromRole = env_trimmed env (ROLE_ENV role); fromMain = env_trimmed env ''OPENAI_MODEL''
      in firstModelId (Some (js_or (Some fromRole) (js_or (Some fromMain) (ROLE_DEFAULT role)))) (ROLE_DEFAULT role))"

definition openaiBaseUrl :: "penv \<Rightarrow> jstr" where
  "openaiBaseUrl env =
     drop_last_unit 47 (js_or (Some (env_trimmed env ''OPENAI_BASE_URL'')) (js ''https://api.openai.com/v1''))"

definition openaiApiKey :: "penv \<Rightarrow> jstr" where
  "openaiApiKey env = env_trimmed env ''OPENAI_API_KEY''"

definition openaiReasoningEffort :: "penv \<Rightarrow> jstr" where
  "openaiReasoningEffort env = js_or (Some (env_trimmed env ''OPENAI_REASONING_EFFORT'')) (js ''high'')"

definition openaiTimeoutMs :: "penv \<Rightarrow> int" where
  "openaiTimeoutMs env =
     (case js_Number (js_or (Some (env_trimmed env ''OPENAI_TIMEOUT_SEC'')) (js ''120'')) of
        Num sec \<Rightarrow> if sec \<le> 0 then 120000 else math_round (mul_js sec 1000)
      | _ \<Rightarrow> 120000)"

definition openaiMaxCompletionTokens :: "penv \<Rightarrow> int option" where
  "openaiMaxCompletionTokens env =
     (let raw = js_or (Some (env_trimmed env ''OPENAI_MAX_COMPLETION_TOKENS'')) (js ''32768'')
      in if js_toLowerCase raw \<in> {[], js ''0'', js ''none'', js ''off''} then None
         else case js_Number raw of Num n \<Rightarrow> if n \<le> 0 then Some 32768 else Some \<lfloor>n\<rfloor> | _ \<Rightarrow> Some 32768)"

definition openaiTranscribeModel :: "penv \<Rightarrow> jstr" where
  "openaiTranscribeModel env =
     firstModelId (Some (js_or (Some (env_trimmed env ''OPENAI_TRANSCRIBE_MODEL'')) (js ''gpt-transcribe'')))
       (js ''gpt-transcribe'')"

definition openaiRealtimeModel :: "penv \<Rightarrow> jstr" where
  "openaiRealtimeModel env =
     firstModelId (Some (js_or (Some (env_trimmed env ''OPENAI_REALTIME_MODEL'')) (js ''gpt-realtime-2.1'')))
       (js ''gpt-realtime-2.1'')"

definition openaiEmbeddingModel :: "penv \<Rightarrow> jstr" where
  "openaiEmbeddingModel env =
     firstModelId (Some (js_or (Some (env_trimmed env ''OPENAI_EMBEDDING_MODEL'')) (js ''text-embedding-3-large'')))
       (js ''text-embedding-3-large'')"

definition isReasoningModel :: "jstr \<Rightarrow> bool" where
  "isReasoningModel model =
     (let m = js_toLowerCase model
      in starts_with m (js ''gpt-5'') \<or> (case m of a # b # _ \<Rightarrow> a = 111 \<and> 49 \<le> b \<and> b \<le> 52 | _ \<Rightarrow> False))"

text \<open>The extra fields of a request; a token limit of zero is not sent.\<close>

datatype chat_extra = ReasoningEffort jstr | MaxCompletionTokens int | Temperature rat

definition openaiChatExtras :: "penv \<Rightarrow> jstr \<Rightarrow> rat option \<Rightarrow> chat_extra list" where
  "openaiChatExtras env model temperature =
     (if isReasoningModel model
      then (let effort = openaiReasoningEffort env in if effort = [] then [] else [ReasoningEffort effort])
        @ (case openaiMaxCompletionTokens env of None \<Rightarrow> [] | Some n \<Rightarrow> if n = 0 then [] else [MaxCompletionTokens n])
      else [Temperature (case temperature of None \<Rightarrow> 0 | Some t \<Rightarrow> t)])"

subsection \<open>Logging\<close>

datatype log_level = Debug | Info | Warn | Error

definition LEVEL_ORDER :: "log_level \<Rightarrow> nat" where
  "LEVEL_ORDER l = (case l of Debug \<Rightarrow> 10 | Info \<Rightarrow> 20 | Warn \<Rightarrow> 30 | Error \<Rightarrow> 40)"

lemma LEVEL_ORDER_inj [simp]: "LEVEL_ORDER a = LEVEL_ORDER b \<longleftrightarrow> a = b"
  by (cases a; cases b) (simp_all add: LEVEL_ORDER_def)

text \<open>Levels are ordered by \<open>LEVEL_ORDER\<close>.\<close>

instantiation log_level :: linorder
begin

definition less_eq_log_level :: "log_level \<Rightarrow> log_level \<Rightarrow> bool" where
  "less_eq_log_level a b \<longleftrightarrow> LEVEL_ORDER a \<le> LEVEL_ORDER b"

definition less_log_level :: "log_level \<Rightarrow> log_level \<Rightarrow> bool" where
  "less_log_level a b \<longleftrightarrow> LEVEL_ORDER a < LEVEL_ORDER b"

instance
  by standard (auto simp: less_eq_log_level_def less_log_level_def simp flip: LEVEL_ORDER_inj)

end

definition minLevel :: "penv \<Rightarrow> log_level" where
  "minLevel env =
     (let v = js_toLowerCase (js_or (env_get env ''LOG_LEVEL'') (js ''info''))
      in if v = js ''debug'' then Debug else if v = js ''warn'' then Warn else if v = js ''error'' then Error else Info)"

text \<open>
  A logger keeps the file names fixed when it is created; the records a call appends are given by their file
  and line. \<open>day\<close> is the date of the call as \<open>toISOString().slice(0, 10)\<close> gives it.
\<close>

record logger =
  lg_root :: fpath
  lg_dayFile :: fpath
  lg_current :: fpath

definition log_rootDir :: "penv \<Rightarrow> filesystem \<Rightarrow> fpath \<Rightarrow> fpath" where
  "log_rootDir env fs cwd =
     (let dir = js_or (env_get env ''LOG_DIR'') []
      in if dir \<noteq> [] then resolve cwd dir
         else case find (\<lambda>c. fs (butlast c @ [js ''pnpm-workspace.yaml'']) \<noteq> None \<or> fs (butlast c @ [js ''package.json'']) \<noteq> None)
                [resolve cwd (js ''logs''), resolve cwd (js ''../../logs''), resolve cwd (js ''../logs'')] of
                Some c \<Rightarrow> c | None \<Rightarrow> resolve cwd (js ''logs''))"

definition createLogger :: "fpath \<Rightarrow> jstr \<Rightarrow> jstr \<Rightarrow> logger" where
  "createLogger d service day =
     \<lparr>lg_root = d, lg_dayFile = d @ [service, day @ js ''.log''],
      lg_current = d @ [service, js ''current.log'']\<rparr>"

definition log_write :: "penv \<Rightarrow> logger \<Rightarrow> log_level \<Rightarrow> jstr \<Rightarrow> (fpath \<times> jstr) list" where
  "log_write env lg level line =
     (if level < minLevel env then [] else [(lg_dayFile lg, line @ [10]), (lg_current lg, line @ [10])])"

definition log_audit :: "penv \<Rightarrow> logger \<Rightarrow> jstr \<Rightarrow> jstr \<Rightarrow> jstr \<Rightarrow> (fpath \<times> jstr) list" where
  "log_audit env lg day audit_line info_line =
     [(lg_root lg @ [js ''audit'', day @ js ''.log''], audit_line @ [10]),
      (lg_root lg @ [js ''audit'', js ''current.log''], audit_line @ [10])]
     @ log_write env lg Info info_line"


subsection \<open>What the reader gives\<close>

lemma trim_chop_cr [simp]: "js_trim (chop_cr l) = js_trim l"
proof (cases l rule: rev_cases)
  case (snoc k c)
  show ?thesis
  proof (cases "c = 13")
    case True
    have 13: "js_space 13" by (simp add: js_space_def)
    then have "dropWhile js_space (k @ [13]) = (if list_all js_space k then [] else dropWhile js_space k @ [13])"
      by (induction k) auto
    moreover have "dropWhile js_space k = []" if "list_all js_space k"
      using that by (simp add: list_all_iff)
    ultimately show ?thesis using snoc True 13
      by (cases "list_all js_space k") (simp_all add: chop_cr_def js_trim_def del: dropWhile_eq_Nil_conv)
  qed (use snoc in \<open>simp add: chop_cr_def\<close>)
qed (simp add: chop_cr_def)

lemma env_line_chop [simp]: "env_line (chop_cr l) = env_line l"
  by (simp add: env_line_def)

lemma fold_chop: "fold env_assign (map chop_cr ls) out = fold env_assign ls out"
  by (induction ls arbitrary: out) (simp_all add: env_assign_def)

text \<open>Line ends with and without carriage return read alike, and a text is the list of its lines.\<close>

lemma parseEnvFile_lines: "parseEnvFile text = fold env_assign (js_split1 10 text) []"
proof -
  have "fold env_assign ls [] = fold env_assign (butlast ls @ [last ls]) []" if "ls \<noteq> []" for ls
    using that by simp
  from this[of "js_split1 10 text"] show ?thesis
    by (simp add: parseEnvFile_def split_lines_def Let_def fold_chop del: append_butlast_last_id)
qed

definition assigns :: "jstr \<Rightarrow> jstr \<Rightarrow> bool" where
  "assigns k l \<longleftrightarrow> map_option fst (env_line l) = Some k"

lemma env_assign_get:
  "map_of (env_assign l out) k =
     (case env_line l of Some (k', v) \<Rightarrow> if k' = k \<and> k \<noteq> js ''__proto__'' then Some v else map_of out k
      | None \<Rightarrow> map_of out k)"
  by (auto simp: env_assign_def update_conv split: option.splits)

lemma fold_env_assign_none:
  "list_all (\<lambda>l. \<not> assigns k l) ls \<Longrightarrow> map_of (fold env_assign ls out) k = map_of out k"
  by (induction ls arbitrary: out) (auto simp: env_assign_get assigns_def split: option.splits)

lemma parse_last_assignment:
  assumes "js_split1 10 text = a @ l # b" "env_line l = Some (k, v)" "k \<noteq> js ''__proto__''"
    and "list_all (\<lambda>l. \<not> assigns k l) b"
  shows "map_of (parseEnvFile text) k = Some v"
  using assms by (simp add: parseEnvFile_lines fold_env_assign_none env_assign_get)

lemma key_ok_chars: "key_ok k \<Longrightarrow> k \<noteq> [] \<and> (\<forall>c \<in> set k. \<not> js_space c \<and> c \<noteq> 61 \<and> c \<noteq> 35 \<and> c \<noteq> 10)"
  by (fastforce simp: key_ok_def js_word_def js_letter_def js_digit_def js_space_def list_all_iff split: list.splits)

text \<open>Reading depends only on the lines that assign, and a line that begins with \<open>#\<close> or is blank assigns nothing.\<close>

lemma fold_env_assign_filter:
  "map_of (fold env_assign ls out) k = map_of (fold env_assign (filter (assigns k) ls) out) k"
proof (induction ls rule: rev_induct)
  case (snoc l ls)
  then show ?case by (auto simp: env_assign_get assigns_def split: option.splits)
qed simp

lemma trim_hash: "js_trim (35 # z) = 35 # rev (dropWhile js_space (rev z))"
proof -
  have "\<not> js_space 35" by (simp add: js_space_def)
  then show ?thesis by (cases "list_all js_space (rev z)") (auto simp: js_trim_def dropWhile_append list_all_iff)
qed

lemma env_line_hash [simp]: "env_line (35 # z) = None"
  by (simp add: env_line_def trim_hash)

lemma env_line_blank: "list_all js_space l \<Longrightarrow> env_line l = None"
proof -
  assume "list_all js_space l"
  then have "dropWhile js_space l = []" by (simp add: list_all_iff)
  then show ?thesis by (simp add: env_line_def js_trim_def del: dropWhile_eq_Nil_conv)
qed

lemma env_line_key:
  assumes "key_ok k" "list_all js_space z"
  shows "env_line (z @ k @ 61 # d) = Some (k, env_value (rev (dropWhile js_space (rev d))))"
proof -
  note k = key_ok_chars[OF assms(1)]
  have "dropWhile js_space (z @ k @ 61 # d) = k @ 61 # d"
    using assms(2) k by (subst dropWhile_append2) (auto simp: list_all_iff, cases k, auto)
  moreover have "dropWhile js_space (rev (k @ 61 # d)) = dropWhile js_space (rev d) @ 61 # rev k"
    by (cases "\<forall>x \<in> set (rev d). js_space x") (auto simp: dropWhile_append js_space_def[of 61])
  ultimately have t: "js_trim (z @ k @ 61 # d) = k @ 61 # rev (dropWhile js_space (rev d))"
    by (simp add: js_trim_def)
  have "takeWhile (\<lambda>c. c \<noteq> 61) (k @ 61 # r) = k" "dropWhile (\<lambda>c. c \<noteq> 61) (k @ 61 # r) = 61 # r" for r
    using k by (auto simp: takeWhile_append2 dropWhile_append2)
  moreover have "js_trim k = k" using k by (intro js_trim_id) blast
  moreover have "hd (k @ 61 # r) \<noteq> 35" for r using k by (cases k) auto
  ultimately show ?thesis using assms(1) by (simp add: env_line_def Let_def t)
qed

text \<open>How a value can be written so that it reads back: as it is, or between double quotes.\<close>

definition env_write :: "jstr \<Rightarrow> jstr" where
  "env_write v = (if js_trim v = v \<and> \<not> quote_first v \<and> \<not> rx_test False COMMENT_RE v then v else 34 # v @ [34])"

lemma env_write_trimmed: "js_trim (env_write v) = env_write v"
  by (auto simp: env_write_def js_space_def intro: js_trim_ends)

lemma env_value_write [simp]: "env_value (env_write v) = v"
proof (cases "js_trim v = v \<and> \<not> quote_first v \<and> \<not> rx_test False COMMENT_RE v")
  case True
  then have "\<not> wrapped 34 v" "\<not> wrapped 39 v" by (auto simp: quote_first_def wrapped_def)
  then show ?thesis using True by (simp add: env_write_def env_value_def Let_def)
next
  case False
  have t: "js_trim (34 # v @ [34]) = 34 # v @ [34]" by (rule js_trim_ends) (simp add: js_space_def)
  have "env_write v = 34 # v @ [34]" using False by (auto simp: env_write_def)
  then show ?thesis by (simp add: env_value_def Let_def t quote_first_def wrapped_def)
qed

lemma env_line_write:
  assumes "key_ok k"
  shows "env_line (k @ 61 # env_write v) = Some (k, v)"
proof -
  note k = key_ok_chars[OF assms]
  have h: "\<not> js_space (hd k)" "hd k \<noteq> 35" using k by auto
  have "last (k @ 61 # env_write v) = (if env_write v = [] then 61 else last (env_write v))" by simp
  moreover have "env_write v \<noteq> [] \<Longrightarrow> \<not> js_space (last (env_write v))"
    using js_trim_hd_last[of "env_write v"] by (simp add: env_write_trimmed)
  ultimately have t: "js_trim (k @ 61 # env_write v) = k @ 61 # env_write v"
    using k h by (intro js_trim_ends) (auto simp: js_space_def)
  have "takeWhile (\<lambda>c. c \<noteq> 61) (k @ 61 # env_write v) = k"
      "dropWhile (\<lambda>c. c \<noteq> 61) (k @ 61 # env_write v) = 61 # env_write v"
    using k by (auto simp: takeWhile_append2 dropWhile_append2)
  moreover have "js_trim k = k" using k by (intro js_trim_id) blast
  ultimately show ?thesis using k h assms by (simp add: env_line_def Let_def t)
qed

text \<open>
  C38. Any value without a line feed can be put into the environment file and is read back unchanged: a line
  \<open>KEY=value\<close>, with the value as it is or between double quotes, gives the key that value, whatever the lines
  before it say and whatever the lines after it say of other keys; carriage returns at the line ends do not
  matter.
\<close>

theorem env_file_roundtrip:
  assumes "key_ok k" "k \<noteq> js ''__proto__''" "10 \<notin> set v"
    and "list_all (\<lambda>l. 10 \<notin> set l) (before @ after)" "list_all (\<lambda>l. \<not> assigns k l) after"
  shows "map_of (parseEnvFile (js_join [10] (before @ (k @ 61 # env_write v) # after))) k = Some v"
proof -
  have "10 \<notin> set (env_write v)" using assms(3) by (simp add: env_write_def)
  then have "js_split1 10 (js_join [10] (before @ (k @ 61 # env_write v) # after)) = before @ (k @ 61 # env_write v) # after"
    using assms(4) key_ok_chars[OF assms(1)] by (intro js_split1_join) auto
  then show ?thesis using assms(1,2,5) by (intro parse_last_assignment) (auto simp: env_line_write)
qed

lemma env_file_roundtrip_witness:
  "map_of (parseEnvFile (js_join [10] ([js ''K=1''] @ (js ''K'' @ 61 # env_write (js ''a #b'')) # [js ''#K=2'']))) (js ''K'') = Some (js ''a #b'')"
  by (rule env_file_roundtrip) (simp_all add: key_ok_def js_word_def js_letter_def js_def assigns_def env_line_def js_trim_def js_space_def)

text \<open>An inline comment after a quoted value is not cut off: the quotes and the comment stay in the value.\<close>

lemma quoted_value_keeps_comment:
  "env_line (js ''A=''  @ [34] @ js ''x'' @ [34] @ js '' #c'') = Some (js ''A'', [34] @ js ''x'' @ [34] @ js '' #c'')"
  by (simp add: env_line_def env_value_def js_text_eval quote_first_def wrapped_def key_ok_def js_letter_def)

subsection \<open>What loading does\<close>

lemma distinct_env_assign: "distinct (map fst out) \<Longrightarrow> distinct (map fst (env_assign l out))"
  by (auto simp: env_assign_def distinct_update split: option.splits)

lemma distinct_parseEnvFile: "distinct (map fst (parseEnvFile text))"
proof -
  have "distinct (map fst out) \<Longrightarrow> distinct (map fst (fold env_assign ls out))" for ls out
    by (induction ls arbitrary: out) (auto simp: distinct_env_assign)
  then show ?thesis by (simp add: parseEnvFile_def)
qed

lemma fold_load_var:
  "distinct (map fst kvs) \<Longrightarrow> map_of (fold (load_var override) kvs env) =
     (if override then map_of env ++ map_of kvs else map_of kvs ++ map_of env)"
proof (induction kvs arbitrary: env)
  case (Cons kv kvs)
  obtain k v where kv: "kv = (k, v)" by (cases kv)
  have k: "map_of kvs k = None" using Cons.prems kv by (simp add: map_of_eq_None_iff)
  show ?case
    using Cons k kv
    by (auto simp: load_var_def env_set_def fun_eq_iff map_add_def split: option.splits)
qed simp

text \<open>
  What loading the root \<open>.env\<close> does to the environment: without \<open>override\<close> every variable that is already
  set keeps its value and the others come from the file; with it the file wins; \<open>ALO_ROOT\<close> always becomes the
  root that was used. Without a file nothing else changes.
\<close>

theorem loadRootEnv_precedence:
  "let r = loadRootEnv override cwd here fs env;
       vars = (case fs (fst r) of None \<Rightarrow> Map.empty | Some text \<Rightarrow> map_of (parseEnvFile text))
   in map_of (snd r) =
     (if override then map_of env ++ vars else vars ++ map_of env)(js ''ALO_ROOT'' \<mapsto> path_text (butlast (fst r)))"
  by (simp add: loadRootEnv_def Let_def env_set_def fold_load_var distinct_parseEnvFile split: option.splits)

text \<open>The search for the root looks at directories above the start only.\<close>

lemma find_root_prefix: "find_root_from n fs dir = Some d \<Longrightarrow> \<exists>r. dir = d @ r \<and> length r < n"
proof (induction n arbitrary: dir)
  case (Suc n)
  show ?case
  proof (cases "fs (dir @ [js ''pnpm-workspace.yaml'']) \<noteq> None \<or> fs (dir @ [js ''.env'']) \<noteq> None")
    case False
    then have "butlast dir \<noteq> dir" "find_root_from n fs (butlast dir) = Some d"
      using Suc.prems by (auto split: if_splits)
    then obtain r where "butlast dir = d @ r" "length r < n" "dir \<noteq> []" using Suc.IH by fastforce
    then have "dir = d @ r @ [last dir]" by (metis append_butlast_last_id append_assoc)
    then show ?thesis using \<open>length r < n\<close> by (intro exI[of _ "r @ [last dir]"]) simp
  qed (use Suc.prems in auto)
qed simp

lemma firstModelId_nonempty: "fallback \<noteq> [] \<Longrightarrow> firstModelId raw fallback \<noteq> []"
  by (simp add: firstModelId_def Let_def js_or_def)

lemma log_write_level:
  "log_write env lg level line \<noteq> [] \<longleftrightarrow> minLevel env \<le> level"
  by (auto simp: log_write_def)

text \<open>A logger that lives over midnight keeps the file of the day it was created on.\<close>

lemma log_file_of_first_day:
  "(f, t) \<in> set (log_audit env (createLogger d service day0) day1 a i) \<Longrightarrow> last f = day1 @ js ''.log'' \<Longrightarrow>
   day0 \<noteq> day1 \<Longrightarrow> day1 \<noteq> js ''current'' \<Longrightarrow> f = d @ [js ''audit'', day1 @ js ''.log'']"
  by (auto simp: log_audit_def log_write_def createLogger_def js_def split: if_splits)

end
