(* ===== verification/Media.thy ===== *)
theory Media
  imports Regex EnvConfig
begin

text \<open>
  Files and voice messages a person sends (\<open>apps/tg-gateway/src/media.ts\<close>, \<open>packages/shared/src/office.ts\<close>): what
  kind of file it is, the name and content type it is stored under, the text taken out of it and the text the
  rest of the program sees. The Word and Excel readers, the transcription and the description of a picture are
  parameters; what the code does with their answers is modelled.
\<close>

subsection \<open>Kinds\<close>

datatype office_kind = OfficeWord | OfficeExcel

datatype media_kind = MPhoto | MImage | MPdf | MWord | MExcel | MVoice | MAudio

definition ends_with :: "jstr \<Rightarrow> jstr \<Rightarrow> bool" where
  "ends_with s p = starts_with (rev s) (rev p)"

definition WORD_MIME :: "jstr list" where
  "WORD_MIME = [js ''application/msword'', js ''application/vnd.ms-word'',
     js ''application/vnd.openxmlformats-officedocument.wordprocessingml.document'',
     js ''application/vnd.ms-word.document.macroenabled.12'']"

definition EXCEL_MIME :: "jstr list" where
  "EXCEL_MIME = [js ''application/vnd.ms-excel'',
     js ''application/vnd.openxmlformats-officedocument.spreadsheetml.sheet'',
     js ''application/vnd.ms-excel.sheet.macroenabled.12'',
     js ''application/vnd.ms-excel.sheet.binary.macroenabled.12'', js ''text/csv'', js ''application/csv'']"

definition classifyOfficeFile :: "jstr \<Rightarrow> jstr \<Rightarrow> office_kind option" where
  "classifyOfficeFile filename mime =
     (let name = js_toLowerCase filename; ct = js_toLowerCase mime
      in if list_ex (ends_with name) [js ''.docx'', js ''.doc'', js ''.rtf'']
           \<or> list_ex (\<lambda>m. js_includes ct m \<or> ct = m) WORD_MIME then Some OfficeWord
         else if list_ex (ends_with name) [js ''.xlsx'', js ''.xls'', js ''.xlsm'', js ''.xlsb'', js ''.csv'']
           \<or> list_ex (\<lambda>m. js_includes ct m \<or> ct = m) EXCEL_MIME then Some OfficeExcel
         else None)"

datatype doc_attr = AFilename jstr | ASticker | AAnimated | AAudio bool | AVideo bool | AOther

record tg_document =
  doc_attrs :: "doc_attr list"
  doc_mime :: jstr

definition documentFilename :: "tg_document \<Rightarrow> jstr" where
  "documentFilename d =
     (case find (\<lambda>a. case a of AFilename _ \<Rightarrow> True | _ \<Rightarrow> False) (doc_attrs d) of Some (AFilename n) \<Rightarrow> n | _ \<Rightarrow> [])"

definition isStickerOrAnimated :: "tg_document \<Rightarrow> bool" where
  "isStickerOrAnimated d \<longleftrightarrow> list_ex (\<lambda>a. a = ASticker \<or> a = AAnimated) (doc_attrs d)"

definition audioKind :: "tg_document \<Rightarrow> media_kind option" where
  "audioKind d =
     (case find (\<lambda>a. case a of AAudio _ \<Rightarrow> True | _ \<Rightarrow> False) (doc_attrs d) of
        Some (AAudio voice) \<Rightarrow> Some (if voice then MVoice else MAudio)
      | _ \<Rightarrow>
          let mime = js_toLowerCase (doc_mime d); name = js_toLowerCase (documentFilename d)
          in if starts_with mime (js ''audio/'') \<or> mime = js ''application/ogg''
               \<or> list_ex (ends_with name) (map js [''.ogg'', ''.opus'', ''.mp3'', ''.m4a'', ''.wav'', ''.flac'', ''.oga''])
             then Some MAudio else None)"

definition isRoundVideo :: "tg_document \<Rightarrow> bool" where
  "isRoundVideo d \<longleftrightarrow> list_ex (\<lambda>a. a = AVideo True) (doc_attrs d)"

definition classifyTelegramMedia :: "bool \<Rightarrow> tg_document option \<Rightarrow> media_kind option" where
  "classifyTelegramMedia photo document =
     (if photo then Some MPhoto
      else case document of None \<Rightarrow> None
      | Some doc \<Rightarrow>
          if isStickerOrAnimated doc \<or> isRoundVideo doc then None
          else case audioKind doc of Some k \<Rightarrow> Some k
          | None \<Rightarrow>
              let mime = js_toLowerCase (doc_mime doc); name = js_toLowerCase (documentFilename doc)
              in if mime = js ''application/pdf'' \<or> ends_with name (js ''.pdf'') then Some MPdf
                 else case classifyOfficeFile name mime of
                   Some OfficeWord \<Rightarrow> Some MWord | Some OfficeExcel \<Rightarrow> Some MExcel
                 | None \<Rightarrow> if starts_with mime (js ''image/'')
                       \<or> list_ex (ends_with name) (map js [''.png'', ''.jpg'', ''.jpeg'', ''.webp'', ''.gif''])
                     then Some MImage else None)"

record inbound_media =
  md_buffer :: bytes
  md_contentType :: jstr
  md_filename :: jstr
  md_kind :: media_kind

definition default_name :: "media_kind \<Rightarrow> jstr" where
  "default_name k = js (case k of MPdf \<Rightarrow> ''file.pdf'' | MWord \<Rightarrow> ''file.docx'' | MExcel \<Rightarrow> ''file.xlsx''
     | MVoice \<Rightarrow> ''voice.ogg'' | MAudio \<Rightarrow> ''audio.ogg'' | MPhoto \<Rightarrow> ''photo.jpg'' | MImage \<Rightarrow> ''photo.jpg'')"

definition default_type :: "media_kind \<Rightarrow> jstr" where
  "default_type k = js (case k of MPhoto \<Rightarrow> ''image/jpeg'' | MImage \<Rightarrow> ''image/jpeg'' | MPdf \<Rightarrow> ''application/pdf''
     | MWord \<Rightarrow> ''application/vnd.openxmlformats-officedocument.wordprocessingml.document''
     | MExcel \<Rightarrow> ''application/vnd.openxmlformats-officedocument.spreadsheetml.sheet''
     | MVoice \<Rightarrow> ''audio/ogg'' | MAudio \<Rightarrow> ''audio/ogg'')"

text \<open>\<open>raw\<close> is the downloaded file, when the download gave one.\<close>

definition downloadInboundMedia :: "bool \<Rightarrow> tg_document option \<Rightarrow> bytes option \<Rightarrow> inbound_media option" where
  "downloadInboundMedia photo document raw =
     (case classifyTelegramMedia photo document of None \<Rightarrow> None
      | Some k \<Rightarrow>
          (case raw of None \<Rightarrow> None
           | Some buffer \<Rightarrow>
               if buffer = [] then None
               else let mime = (case document of Some d \<Rightarrow> doc_mime d | None \<Rightarrow> []);
                        name = (case document of Some d \<Rightarrow> documentFilename d | None \<Rightarrow> [])
                    in Some \<lparr>md_buffer = buffer,
                         md_contentType = (if k = MPhoto then js ''image/jpeg'' else js_or (Some mime) (default_type k)),
                         md_filename = js_or (Some name) (default_name k), md_kind = k\<rparr>))"

subsection \<open>Text out of a file\<close>

definition clip :: "jstr \<Rightarrow> jstr" where
  "clip text =
     (let t0 = map (\<lambda>c. if c = 0 then 32 else c) text;
          t1 = replace_all False (sq [plus1 (one [32, 9]), lit [10]]) [10] t0;
          t = js_trim (replace_all False (Rep True 3 None (lit [10])) [10, 10] t1)
      in if length t \<le> 20000 then t else take 20000 t @ [10, 8230])"

fun utf16le :: "bytes \<Rightarrow> jstr" where
  "utf16le (a # b # bs) = (unat a + 256 * unat b) # utf16le bs"
| "utf16le _ = []"

definition latin1 :: "bytes \<Rightarrow> jstr" where
  "latin1 bs = map unat bs"

definition extractLegacyDoc :: "bytes \<Rightarrow> jstr" where
  "extractLegacyDoc buf =
     (let runs = map fst (match_all False (Rep True 6 None (Cls False [(9, 10), (13, 13), (32, 126), (160, 65535)])) [] (utf16le buf));
          joined = js_join [10] (filter (rx_test False (Cls False
             [(65, 90), (97, 122), (1040, 1071), (1072, 1103), (1025, 1025), (1105, 1105), (48, 57)])) runs)
      in if 40 < length (filter (\<lambda>c. \<not> js_space c) joined) then clip joined
         else clip (js_join [10] (map fst (match_all False (Rep True 8 None (Cls False [(9, 10), (13, 13), (32, 126)])) [] (latin1 buf)))))"

definition rtf_text :: "bytes \<Rightarrow> jstr" where
  "rtf_text buf =
     map (\<lambda>c. if c = 123 \<or> c = 125 then 32 else c)
       (replace_all False (sq [lit [92], plus1 (rng 97 122), star dg, opt (lit [32])]) []
         (replace_all False (sq [lit [92], lit (js ''par''), opt (lit [100])]) [10] (latin1 buf)))"

text \<open>\<open>docx\<close> is the text the Word reader gives, \<open>None\<close> when it fails.\<close>

definition extractWordText :: "(bytes \<Rightarrow> jstr option) \<Rightarrow> bytes \<Rightarrow> jstr \<Rightarrow> jstr" where
  "extractWordText docx buf filename =
     (if ends_with (js_toLowerCase filename) (js ''.rtf'')
         \<or> map (\<lambda>b. unat b mod 128) (take 5 buf) = [123, 92, 114, 116, 102]
      then clip (rtf_text buf)
      else case docx buf of
             Some t \<Rightarrow> if js_trim t \<noteq> [] then clip (js_trim t) else extractLegacyDoc buf
           | None \<Rightarrow> extractLegacyDoc buf)"

text \<open>\<open>sheets\<close> is what the Excel reader gives: the sheets with their names and rows as CSV.\<close>

definition extractExcelText :: "(jstr \<times> jstr option) list \<Rightarrow> jstr \<Rightarrow> jstr" where
  "extractExcelText sheets filename =
     (if sheets = [] then []
      else let limit = (if ends_with (js_toLowerCase filename) (js ''.csv'') then 1 else 8);
               parts = concat (map (\<lambda>(name, ws). case ws of None \<Rightarrow> []
                   | Some csv \<Rightarrow> let t = js_trim csv in
                       if t = [] then []
                       else [if 1 < length sheets then ru ''List '' @ [171] @ name @ [187, 58, 10] @ t else t])
                 (take limit sheets))
           in clip (js_join [10, 10] parts))"

definition text_or_none :: "jstr \<Rightarrow> jstr option" where
  "text_or_none t = (if t = [] then None else Some t)"

definition extractOfficeText :: "(bytes \<Rightarrow> jstr option) \<Rightarrow> (bytes \<Rightarrow> (jstr \<times> jstr option) list option) \<Rightarrow> bytes \<Rightarrow> jstr \<Rightarrow> jstr \<Rightarrow> jstr option" where
  "extractOfficeText docx xlsx buf filename mime =
     (case classifyOfficeFile filename mime of None \<Rightarrow> None
      | Some OfficeWord \<Rightarrow> text_or_none (extractWordText docx buf filename)
      | Some OfficeExcel \<Rightarrow> (case xlsx buf of None \<Rightarrow> None | Some sheets \<Rightarrow> text_or_none (extractExcelText sheets filename)))"

definition paren_text :: rx where
  "paren_text = sq [lit [40], star (Alt (sq [lit [92], dot]) (Cls True [(92, 92), (41, 41)])), lit [41]]"

fun unescape_parens :: "jstr \<Rightarrow> jstr" where
  "unescape_parens (c # d # s) =
     (if c = 92 \<and> d \<in> {92, 40, 41} then d # unescape_parens s else c # unescape_parens (d # s))"
| "unescape_parens s = s"

definition pdf_piece :: "jstr \<Rightarrow> jstr list" where
  "pdf_piece p =
     (let inner = unescape_parens (replace_all False (lit [92, 110]) [10] (butlast (tl p)))
      in if js_trim inner \<noteq> [] then [inner] else [])"

definition extractPdfText :: "bytes \<Rightarrow> jstr" where
  "extractPdfText buf =
     (let raw = latin1 buf;
          tj = concat (map (\<lambda>(m, _). pdf_piece (rx_replace False (sq [star sp, lit (js ''Tj''), Eol]) [] m))
                 (match_all False (sq [paren_text, star sp, lit (js ''Tj'')]) [] raw));
          arr = concat (map (\<lambda>(m, cs). concat (map (pdf_piece \<circ> fst) (match_all False paren_text [] (js_or (grp 1 cs) []))))
                 (match_all False (sq [lit [91], Cap 1 (Rep False 0 None anyc), lit [93], star sp, lit (js ''TJ'')]) [] raw))
      in js_trim (replace_all False (plus1 sp) (js '' '') (js_join (js '' '') (tj @ arr))))"

subsection \<open>Speech and pictures\<close>

definition MAX_AUDIO_BYTES :: nat where "MAX_AUDIO_BYTES = 24 * 1024 * 1024"
definition MAX_VISION_BYTES :: nat where "MAX_VISION_BYTES = 18 * 1024 * 1024"

fun first_text :: "(jstr \<Rightarrow> jstr option) \<Rightarrow> jstr list \<Rightarrow> jstr option" where
  "first_text ask [] = None"
| "first_text ask (m # ms) =
     (case ask m of Some t \<Rightarrow> if js_trim t \<noteq> [] then Some (js_trim t) else first_text ask ms | None \<Rightarrow> first_text ask ms)"

text \<open>\<open>ask model\<close> is the transcript the service gives with that model; \<open>None\<close> when the request fails.\<close>

definition transcribe_models :: "penv \<Rightarrow> jstr list" where
  "transcribe_models env =
     filter (\<lambda>m. m \<noteq> []) (rev (remdups (rev [openaiTranscribeModel env, js ''whisper-1'', js ''gpt-4o-mini-transcribe''])))"

definition transcribeAudio :: "penv \<Rightarrow> (jstr \<Rightarrow> jstr option) \<Rightarrow> bytes \<Rightarrow> jstr option" where
  "transcribeAudio env ask buf =
     (if openaiApiKey env = [] then None
      else if MAX_AUDIO_BYTES < length buf then None
      else first_text ask (transcribe_models env))"

text \<open>\<open>ask model mime\<close> is the description the service gives.\<close>

definition visionDescribe :: "penv \<Rightarrow> (jstr \<Rightarrow> jstr \<Rightarrow> jstr option) \<Rightarrow> bytes \<Rightarrow> jstr \<Rightarrow> jstr option" where
  "visionDescribe env ask buf contentType =
     (if openaiApiKey env = [] then None
      else if MAX_VISION_BYTES < length buf then None
      else let mime = (if starts_with contentType (js ''image/'') then contentType else js ''image/jpeg'')
           in case ask (openaiModel env DocumentRole) mime of None \<Rightarrow> None | Some t \<Rightarrow> text_or_none (js_trim t))"

definition describeInboundMedia :: "penv \<Rightarrow> (bytes \<Rightarrow> jstr option) \<Rightarrow> (bytes \<Rightarrow> (jstr \<times> jstr option) list option)
    \<Rightarrow> (jstr \<Rightarrow> jstr option) \<Rightarrow> (jstr \<Rightarrow> jstr \<Rightarrow> jstr option) \<Rightarrow> inbound_media \<Rightarrow> jstr option" where
  "describeInboundMedia env docx xlsx speech vision media =
     (case md_kind media of
        MPdf \<Rightarrow> text_or_none (extractPdfText (md_buffer media))
      | MWord \<Rightarrow> extractOfficeText docx xlsx (md_buffer media) (md_filename media) (md_contentType media)
      | MExcel \<Rightarrow> extractOfficeText docx xlsx (md_buffer media) (md_filename media) (md_contentType media)
      | MVoice \<Rightarrow> transcribeAudio env speech (md_buffer media)
      | MAudio \<Rightarrow> transcribeAudio env speech (md_buffer media)
      | MPhoto \<Rightarrow> visionDescribe env vision (md_buffer media) (md_contentType media)
      | MImage \<Rightarrow> visionDescribe env vision (md_buffer media) (md_contentType media))"

subsection \<open>The text the program sees\<close>

datatype audience = ToClient | ToStaff

definition media_label :: "media_kind \<Rightarrow> jstr" where
  "media_label k = (case k of MPdf \<Rightarrow> ru ''dokument '' @ js ''PDF'' | MWord \<Rightarrow> ru ''dokument '' @ js ''Word''
     | MExcel \<Rightarrow> ru ''tablicu '' @ js ''Excel'' | MImage \<Rightarrow> ru ''fajl-izobravenie''
     | MVoice \<Rightarrow> ru ''golosowoe soob}enie'' | MAudio \<Rightarrow> ru ''audiofajl'' | MPhoto \<Rightarrow> ru ''foto'')"

definition spoken :: "media_kind \<Rightarrow> bool" where
  "spoken k \<longleftrightarrow> k = MVoice \<or> k = MAudio"

definition composeInboundText :: "jstr \<Rightarrow> inbound_media option \<Rightarrow> jstr option \<Rightarrow> audience \<Rightarrow> jstr" where
  "composeInboundText caption0 media extracted audience =
     (let caption = js_trim caption0
      in case media of None \<Rightarrow> caption
      | Some m \<Rightarrow>
          if audience = ToStaff \<and> spoken (md_kind m)
          then (let t = js_trim (js_or extracted [])
                in if t \<noteq> [] then js_join [10] (filter (\<lambda>l. l \<noteq> [])
                     [t, if caption \<noteq> [] then ru ''(podpisx: '' @ caption @ js '')'' else []])
                   else js_or (Some caption)
                     (ru ''Ne udalosx raspoznatx golosowoe. Napi{ite tekstom ili pri{lite golosowoe e}# raz.''))
          else let who = (if audience = ToStaff then ru ''Kollega prislal'' else ru ''Klient prislal'')
               in js_join [10]
                 ([who @ [32] @ media_label (md_kind m) @ js '' ('' @ md_filename m @ js '').'']
                  @ (if caption \<noteq> [] then [ru ''Podpisx: '' @ caption] else [])
                  @ (let e = js_or extracted []
                     in if e \<noteq> [] then [(if spoken (md_kind m) then ru ''Ras{ifrowka re~i'' else ru ''Sodervimoe'') @ [58, 10] @ e]
                        else if spoken (md_kind m)
                        then [ru ''Ne udalosx raspoznatx re~x. Poprosi korotko powtoritx tekstom: ~to wez#m, otkuda i kuda.'']
                        else [ru ''Raspoznatx sodervimoe ne udalosx. Poprosi prislatx bolee ~#tkij snimok ili napisatx tekstom: ~to za gruz, wes, inwojs, otkuda i kuda.''])))"

subsection \<open>What holds of it\<close>

lemma clip_bounded: "length (clip text) \<le> 20002"
  by (simp add: clip_def Let_def)

lemma first_text_sound: "first_text ask ms = Some t \<Longrightarrow> t \<noteq> [] \<and> (\<exists>m \<in> set ms. \<exists>r. ask m = Some r \<and> t = js_trim r)"
  by (induction ms) (auto split: option.splits if_splits)

text \<open>Stickers, animations and round videos are never taken for a document, whatever their name says.\<close>

lemma sticker_not_media:
  "isStickerOrAnimated d \<or> isRoundVideo d \<Longrightarrow> downloadInboundMedia False (Some d) raw = None"
  by (simp add: downloadInboundMedia_def classifyTelegramMedia_def)

lemma js_trim_nonempty: "c \<in> set s \<Longrightarrow> \<not> js_space c \<Longrightarrow> js_trim s \<noteq> []"
  by (auto simp: js_trim_def dropWhile_eq_Nil_conv dest!: bspec) (metis dropWhile_eq_Nil_conv set_dropWhileD takeWhile_dropWhile_id Un_iff set_append set_takeWhileD)

lemma js_join_hd: "js_join sep (s # ss) = s @ (if ss = [] then [] else sep @ js_join sep ss)"
  by (cases ss) auto

text \<open>
  A message with a file is never lost as empty: the text made for the program from a caption and a file is
  blank exactly when there is no file and the caption is blank, whether or not the file could be read.
\<close>

theorem composed_text_blank:
  "js_trim (composeInboundText caption media extracted audience) = [] \<longleftrightarrow> media = None \<and> js_trim caption = []"
proof (cases media)
  case None
  then show ?thesis by (simp add: composeInboundText_def)
next
  case (Some m)
  have K: "\<not> js_space 1050" by (simp add: js_space_def)
  have nb: "js_trim s \<noteq> [] \<Longrightarrow> js_trim (js_trim s @ t) \<noteq> []" for s t
    using js_trim_hd_last[of s] by (intro js_trim_nonempty[of "hd (js_trim s)"]) auto
  show ?thesis
  proof (cases "audience = ToStaff \<and> spoken (md_kind m)")
    case True
    have "js_trim (ru ''Ne udalosx raspoznatx golosowoe. Napi{ite tekstom ili pri{lite golosowoe e}# raz.'') \<noteq> []"
      by (rule js_trim_nonempty[of 1053]) (simp_all add: ru_eval js_space_def)
    then show ?thesis
      using Some True nb[of "js_or extracted []"] nb[of "js_or extracted []" "[]"]
      by (auto simp: composeInboundText_def Let_def js_join_hd js_or_def split: option.splits)
  next
    case False
    have "1050 \<in> set (ru ''Kollega prislal'')" "1050 \<in> set (ru ''Klient prislal'')" by (simp_all add: ru_eval)
    then have "1050 \<in> set (composeInboundText caption media extracted audience)"
      using Some False unfolding composeInboundText_def Let_def by (simp add: js_join_hd)
    then have "js_trim (composeInboundText caption media extracted audience) \<noteq> []"
      using K by (rule js_trim_nonempty)
    then show ?thesis using Some by simp
  qed
qed

end
