(* ===== verification/StaffListen.thy ===== *)
theory StaffListen
  imports Media "HOL-Library.Sublist"
begin

text \<open>
  The listener of the staff room (\<open>apps/tg-gateway/src/staffListen.ts\<close>): which messages of the room reach the
  dispatcher, the three time-limited maps that keep a message from being handled twice and the robot from hearing
  itself, and the bridge that hears the room through a user account. Chat, user and message identifiers are
  integers, times are milliseconds. The hash of \<open>textFingerprint\<close> is a parameter, and so are Telegram's answers
  (the sender, the message replied to) and what became of a voice message.
\<close>

subsection \<open>Maps whose entries expire\<close>

type_synonym ttl_map = "jstr \<Rightarrow> int option"

definition pruneMap :: "int \<Rightarrow> int \<Rightarrow> ttl_map \<Rightarrow> ttl_map" where
  "pruneMap now ttl m = (\<lambda>k. case m k of None \<Rightarrow> None | Some ts \<Rightarrow> if now - ts > ttl then None else Some ts)"

lemma pruneMap_Some: "pruneMap now ttl m k = Some t \<longleftrightarrow> m k = Some t \<and> now - t \<le> ttl"
  by (auto simp: pruneMap_def split: option.splits)

lemma pruneMap_None: "pruneMap now ttl m k = None \<longleftrightarrow> (\<forall>t. m k = Some t \<longrightarrow> ttl < now - t)"
  by (auto simp: pruneMap_def split: option.splits)

text \<open>
  The contract of a claim on such a map: a claim succeeds exactly when its key, if it has one, was not claimed
  within the last \<open>ttl\<close> milliseconds; a success is remembered under its key, and a claim forgets nothing that is
  still fresh.
\<close>

locale ttl_claims =
  fixes claim :: "int \<Rightarrow> 'a \<Rightarrow> ttl_map \<Rightarrow> bool \<times> ttl_map" and key :: "'a \<Rightarrow> jstr option" and ttl :: int
  assumes claim_ok: "fst (claim now x m) \<longleftrightarrow> (\<forall>k t. key x = Some k \<longrightarrow> m k = Some t \<longrightarrow> ttl < now - t)"
    and claim_new: "fst (claim now x m) \<Longrightarrow> key x = Some k \<Longrightarrow> snd (claim now x m) k = Some now"
    and claim_keeps: "m k = Some t \<Longrightarrow> now - t \<le> ttl \<Longrightarrow> snd (claim now x m) k = Some t"
begin

text \<open>The items accepted by a run over timed items.\<close>

fun accepted :: "ttl_map \<Rightarrow> (int \<times> 'a) list \<Rightarrow> (int \<times> 'a) list" where
  "accepted m [] = []"
| "accepted m ((now, x) # xs) =
     (let (ok, m') = claim now x m in (if ok then [(now, x)] else []) @ accepted m' xs)"

lemma accepted_subseq: "subseq (accepted m xs) xs"
proof (induction xs arbitrary: m)
  case (Cons p xs)
  obtain ok m' where "claim (fst p) (snd p) m = (ok, m')" by fastforce
  then show ?case using Cons[of m'] by (cases p) (auto intro: subseq_Cons')
qed simp

lemma accepted_subset: "set (accepted m xs) \<subseteq> set xs"
  using list_emb_set[OF accepted_subseq] by blast

lemma accepted_fresh:
  assumes "m k = Some t" "sorted (map fst xs)" "(s, y) \<in> set (accepted m xs)" "key y = Some k"
  shows "ttl < s - t"
  using assms
proof (induction xs arbitrary: m)
  case (Cons p xs)
  obtain now z where p: "p = (now, z)" by (cases p)
  obtain ok m' where c: "claim now z m = (ok, m')" by (cases "claim now z m")
  show ?case
  proof (cases "now - t \<le> ttl")
    case True
    then have "m' k = Some t" using claim_keeps[of m k t now z] Cons.prems(1) c by simp
    moreover have "\<not> (ok \<and> key z = Some k)" using claim_ok[of now z m] c True Cons.prems(1) by auto
    ultimately show ?thesis using Cons.IH[of m'] Cons.prems p c by (auto split: if_splits)
  next
    case False
    have "(s, y) \<in> set ((now, z) # xs)"
      using Cons.prems(3) list_emb_set[OF accepted_subseq] p by blast
    then have "now \<le> s" using Cons.prems(2) p by auto
    then show ?thesis using False by simp
  qed
qed simp

theorem claims_apart:
  assumes "sorted (map fst xs)"
  shows "sorted_wrt (\<lambda>(s, x) (t, y). key x \<noteq> None \<and> key x = key y \<longrightarrow> ttl < t - s) (accepted m xs)"
  using assms
proof (induction xs arbitrary: m)
  case (Cons p xs)
  obtain now z where p: "p = (now, z)" by (cases p)
  obtain ok m' where c: "claim now z m = (ok, m')" by (cases "claim now z m")
  have "ttl < t - now" if "ok" "(t, y) \<in> set (accepted m' xs)" "key z = key y" "key z = Some k" for t y k
    using claim_new[of now z m k] c that Cons.prems p by (intro accepted_fresh[of m' k now xs t y]) auto
  then show ?case using Cons.IH[of m'] Cons.prems p c by auto
qed simp

end

subsection \<open>Messages of the room\<close>

datatype staff_source = FromBot | FromUser | FromHistory

record staff_inbound =
  sg_chat :: int
  sg_user :: "int option"
  sg_message :: "int option"
  sg_thread :: "int option"
  sg_reply_to :: "int option"
  sg_text :: jstr
  sg_reply_text :: "jstr option"
  sg_username :: "jstr option"
  sg_name :: "jstr option"
  sg_source :: staff_source

record forum_reply =
  fr_msg :: "int option"
  fr_top :: "int option"
  fr_forum :: bool

text \<open>\<open>Number(x || 0) || undefined\<close>\<close>

definition id_or_none :: "int option \<Rightarrow> int option" where
  "id_or_none x = (case x of None \<Rightarrow> None | Some n \<Rightarrow> if n = 0 then None else Some n)"

definition extractForumThreadIds :: "forum_reply option \<Rightarrow> int option \<times> int option" where
  "extractForumThreadIds replyTo =
     (case replyTo of None \<Rightarrow> (None, None)
      | Some r \<Rightarrow>
          let reply = id_or_none (fr_msg r); thread = id_or_none (fr_top r)
          in (if thread = None \<and> fr_forum r then reply else thread, reply))"

definition SELF_REPLY_RE :: rx where
  "SELF_REPLY_RE = sq [Bol, alts [lit (ru ''podskazku ponqla''),
     sq [lit (ru ''ponqla''), opt (one (js '',.'')), star sp, lit (ru ''u~tu'')],
     lit (ru ''slu{a` gruppu''), lit (ru ''|to ne tolxko |skalac''), lit (ru ''rabo~aq gruppa''),
     lit (ru ''swodka na sej~as''), lit (ru ''otkrytyh |skalacij''),
     sq [lit (ru ''sdelku ''), plus1 dot, lit (ru '' ne na{la'')], lit (ru ''ne do konca ponql''),
     lit (ru ''sboj na moej storone''), sq [lit (ru ''ok,''), star sp, alts [lit (ru ''kp''), lit (ru ''aktiwnaq'')]],
     sq [lit (js ''rfq ''), lit (ru ''otprawila'')], sq [lit (ru ''minus 3''), lit (js ''%'')],
     lit (ru ''pauza ii''), lit (ru ''perehwat wkl`~''), lit [55358, 56605], lit [55357, 56386], lit [55358, 56810]]]"

definition escalationChatId :: "penv \<Rightarrow> rat option" where
  "escalationChatId env =
     (let raw = js_trim (js_or (env_get env ''TG_STAFF_CHAT_ID'') (js_or (env_get env ''TG_ESCALATION_CHAT_ID'') []))
      in if raw = [] then None
         else case js_Number raw of Num n \<Rightarrow> if n = 0 then None else Some n | _ \<Rightarrow> None)"

text \<open>The identifier without the \<open>100\<close> that the Bot API puts before a channel.\<close>

definition strip_chat :: "int \<Rightarrow> jstr" where
  "strip_chat n =
     (let s = show_nat (nat \<bar>n\<bar>) in if starts_with s (js ''100'') \<and> 10 < length s then drop 3 s else s)"

definition sameStaffChat :: "int \<Rightarrow> int \<Rightarrow> bool" where
  "sameStaffChat a b \<longleftrightarrow> a = b \<or> \<bar>a\<bar> = \<bar>b\<bar> \<or> strip_chat a = strip_chat b"

definition managementBotUserId :: "penv \<Rightarrow> rat" where
  "managementBotUserId env =
     (case js_Number (hd (js_split1 58 (js_or (env_get env ''TG_BOT_TOKEN'') []))) of
        Num n \<Rightarrow> if 0 < n then n else 0 | _ \<Rightarrow> 0)"

lemma sameStaffChat_equiv: "equivp sameStaffChat"
  by (rule equivpI) (auto simp: reflp_def symp_def transp_def sameStaffChat_def strip_chat_def)

subsection \<open>What is handled only once\<close>

record listen_state =
  ls_seenMsg :: ttl_map
  ls_seenText :: ttl_map
  ls_recentOut :: ttl_map

definition SEEN_TTL_MS :: int where "SEEN_TTL_MS = 180000"
definition TEXT_DEDUP_MS :: int where "TEXT_DEDUP_MS = 45000"
definition OUT_TTL_MS :: int where "OUT_TTL_MS = 180000"

text \<open>\<open>replace(/\s+/g, " ")\<close>\<close>

fun squeeze_spaces :: "bool \<Rightarrow> jstr \<Rightarrow> jstr" where
  "squeeze_spaces inside [] = []"
| "squeeze_spaces inside (c # s) =
     (if js_space c then (if inside then squeeze_spaces True s else 32 # squeeze_spaces True s)
      else c # squeeze_spaces False s)"

definition norm_text :: "jstr \<Rightarrow> jstr" where
  "norm_text text = take 800 (js_toLowerCase (js_trim (squeeze_spaces False text)))"

text \<open>\<open>sha\<close> is the first sixteen hexadecimal digits of the SHA-1 of a text.\<close>

definition textFingerprint :: "(jstr \<Rightarrow> jstr) \<Rightarrow> int \<Rightarrow> jstr \<Rightarrow> jstr" where
  "textFingerprint sha chatId text = show_int chatId @ js '':t:'' @ sha (norm_text text)"

definition msg_key :: "int \<Rightarrow> int \<Rightarrow> jstr" where
  "msg_key chatId messageId = show_int chatId @ [58] @ show_int messageId"

definition claimStaffMessage :: "int \<Rightarrow> int \<Rightarrow> int option \<Rightarrow> ttl_map \<Rightarrow> bool \<times> ttl_map" where
  "claimStaffMessage now chatId messageId m =
     (case id_or_none messageId of None \<Rightarrow> (True, m)
      | Some i \<Rightarrow>
          let m1 = pruneMap now SEEN_TTL_MS m; key = msg_key chatId i
          in if m1 key \<noteq> None then (False, m1) else (True, m1(key \<mapsto> now)))"

definition claimStaffText :: "(jstr \<Rightarrow> jstr) \<Rightarrow> int \<Rightarrow> int \<Rightarrow> jstr \<Rightarrow> ttl_map \<Rightarrow> bool \<times> ttl_map" where
  "claimStaffText sha now chatId text m =
     (let m1 = pruneMap now TEXT_DEDUP_MS m; key = textFingerprint sha chatId text
      in if m1 key \<noteq> None then (False, m1) else (True, m1(key \<mapsto> now)))"

definition rememberStaffOutbound :: "(jstr \<Rightarrow> jstr) \<Rightarrow> int \<Rightarrow> int \<Rightarrow> jstr \<Rightarrow> ttl_map \<Rightarrow> ttl_map" where
  "rememberStaffOutbound sha now chatId text m =
     (pruneMap now OUT_TTL_MS m)(textFingerprint sha chatId text \<mapsto> now)"

definition isRecentOutbound :: "(jstr \<Rightarrow> jstr) \<Rightarrow> int \<Rightarrow> int \<Rightarrow> jstr \<Rightarrow> ttl_map \<Rightarrow> bool \<times> ttl_map" where
  "isRecentOutbound sha now chatId text m =
     (let m1 = pruneMap now OUT_TTL_MS m in (m1 (textFingerprint sha chatId text) \<noteq> None, m1))"

definition shouldIgnoreStaffInbound :: "(jstr \<Rightarrow> jstr) \<Rightarrow> int \<Rightarrow> jstr \<Rightarrow> int \<Rightarrow> ttl_map \<Rightarrow> bool \<times> ttl_map" where
  "shouldIgnoreStaffInbound sha now text chatId m =
     (let t = js_trim text
      in if t = [] then (True, m)
         else if rx_test True SELF_REPLY_RE t then (True, m)
         else isRecentOutbound sha now chatId t m)"

text \<open>
  \<open>dispatchStaffGroup\<close> with a dispatcher set: the result tells whether the message is handed to it.
\<close>

definition dispatchStaffGroup :: "(jstr \<Rightarrow> jstr) \<Rightarrow> int \<Rightarrow> staff_inbound \<Rightarrow> listen_state \<Rightarrow> bool \<times> listen_state" where
  "dispatchStaffGroup sha now msg st =
     (let (ignore, out1) = shouldIgnoreStaffInbound sha now (sg_text msg) (sg_chat msg) (ls_recentOut st);
          st1 = st\<lparr>ls_recentOut := out1\<rparr>
      in if ignore then (False, st1)
         else let (okm, seen1) = claimStaffMessage now (sg_chat msg) (sg_message msg) (ls_seenMsg st1);
                  st2 = st1\<lparr>ls_seenMsg := seen1\<rparr>
              in if \<not> okm then (False, st2)
                 else let (okt, txt1) = claimStaffText sha now (sg_chat msg) (sg_text msg) (ls_seenText st2)
                      in (okt, st2\<lparr>ls_seenText := txt1\<rparr>))"


text \<open>What a run of heard and sent messages hands to the dispatcher.\<close>

datatype staff_event = Heard int staff_inbound | Sent int int jstr

fun event_time :: "staff_event \<Rightarrow> int" where
  "event_time (Heard now msg) = now"
| "event_time (Sent now chat text) = now"

fun dispatched :: "(jstr \<Rightarrow> jstr) \<Rightarrow> listen_state \<Rightarrow> staff_event list \<Rightarrow> (int \<times> staff_inbound) list" where
  "dispatched sha st [] = []"
| "dispatched sha st (Heard now msg # es) =
     (let (ok, st') = dispatchStaffGroup sha now msg st in (if ok then [(now, msg)] else []) @ dispatched sha st' es)"
| "dispatched sha st (Sent now chat text # es) =
     dispatched sha (st\<lparr>ls_recentOut := rememberStaffOutbound sha now chat text (ls_recentOut st)\<rparr>) es"

subsection \<open>The bridge through a user account\<close>

datatype tg_sender = SUser bool int "jstr option" "jstr option" "jstr option" | SOther int "jstr option"

definition isBotSender :: "tg_sender option \<Rightarrow> rat \<Rightarrow> bool" where
  "isBotSender sender botId =
     (case sender of Some (SUser b i _ _ _) \<Rightarrow> b \<or> (botId \<noteq> 0 \<and> of_int i = botId) | _ \<Rightarrow> False)"

text \<open>
  A new message as the account sees it: the sender when Telegram gives it, the user in \<open>fromId\<close>, the text, the
  file (\<open>None\<close> inside when there is none or it is of no known kind, \<open>None\<close> outside when the download failed),
  the transcript of a voice message, the text of the message replied to and the reply header.
\<close>

record bridge_msg =
  bm_out :: bool
  bm_chat :: int
  bm_id :: int
  bm_sender :: "tg_sender option"
  bm_from :: "int option"
  bm_text :: jstr
  bm_media :: "inbound_media option option"
  bm_extracted :: "jstr option"
  bm_replied :: "jstr option"
  bm_reply :: "forum_reply option"

definition bridge_text :: "bridge_msg \<Rightarrow> jstr" where
  "bridge_text m =
     (let caption = js_trim (bm_text m)
      in case bm_media m of
           Some (Some md) \<Rightarrow> if spoken (md_kind md) then js_trim (composeInboundText caption (Some md) (bm_extracted m) ToStaff) else caption
         | _ \<Rightarrow> caption)"

definition person_name :: "jstr option \<Rightarrow> jstr option \<Rightarrow> jstr option" where
  "person_name first last' = text_or_none (js_join [32] (filter (\<lambda>s. s \<noteq> []) [js_or first [], js_or last' []]))"

definition bridge_inbound :: "int \<Rightarrow> bridge_msg \<Rightarrow> staff_inbound" where
  "bridge_inbound esc m =
     (let (thread, reply) = extractForumThreadIds (bm_reply m)
      in \<lparr>sg_chat = esc,
          sg_user = (case bm_sender m of Some (SUser _ i _ _ _) \<Rightarrow> Some i | Some (SOther i _) \<Rightarrow> Some i | None \<Rightarrow> None),
          sg_message = Some (bm_id m), sg_thread = thread, sg_reply_to = reply, sg_text = bridge_text m,
          sg_reply_text = (case bm_replied m of None \<Rightarrow> None | Some t \<Rightarrow> text_or_none t),
          sg_username = (case bm_sender m of Some (SUser _ _ u _ _) \<Rightarrow> text_or_none (js_or u [])
             | Some (SOther _ u) \<Rightarrow> text_or_none (js_or u []) | None \<Rightarrow> None),
          sg_name = (case bm_sender m of Some (SUser _ _ _ f l) \<Rightarrow> person_name f l | _ \<Rightarrow> None),
          sg_source = FromUser\<rparr>)"

definition bridge_drops :: "rat \<Rightarrow> int \<Rightarrow> bridge_msg \<Rightarrow> bool" where
  "bridge_drops botId esc m \<longleftrightarrow>
     bm_out m \<or> \<not> sameStaffChat (bm_chat m) esc \<or> isBotSender (bm_sender m) botId
     \<or> (botId \<noteq> 0 \<and> (case bm_from m of Some u \<Rightarrow> of_int u = botId | None \<Rightarrow> False))
     \<or> starts_with (js_trim (bm_text m)) [47] \<or> bridge_text m = []"

text \<open>The handler: what goes to \<open>dispatchStaffGroup\<close>, which looks at the text once more.\<close>

definition staff_user_bridge :: "(jstr \<Rightarrow> jstr) \<Rightarrow> rat \<Rightarrow> int \<Rightarrow> int \<Rightarrow> bridge_msg \<Rightarrow> listen_state
    \<Rightarrow> (int \<times> staff_inbound) list \<times> listen_state" where
  "staff_user_bridge sha botId esc now m st =
     (if bridge_drops botId esc m then ([], st)
      else let (ignore, out1) = shouldIgnoreStaffInbound sha now (bridge_text m) esc (ls_recentOut st);
               st1 = st\<lparr>ls_recentOut := out1\<rparr>
           in if ignore then ([], st1)
              else let (ok, st2) = dispatchStaffGroup sha now (bridge_inbound esc m) st1
                   in (if ok then [(now, bridge_inbound esc m)] else [], st2))"

subsection \<open>Nothing is handled twice\<close>

definition room_key :: "staff_inbound \<Rightarrow> jstr option" where
  "room_key msg = map_option (msg_key (sg_chat msg)) (id_or_none (sg_message msg))"

definition claim_room_message :: "int \<Rightarrow> staff_inbound \<Rightarrow> ttl_map \<Rightarrow> bool \<times> ttl_map" where
  "claim_room_message now msg m = claimStaffMessage now (sg_chat msg) (sg_message msg) m"

definition claim_room_text :: "(jstr \<Rightarrow> jstr) \<Rightarrow> int \<Rightarrow> staff_inbound \<Rightarrow> ttl_map \<Rightarrow> bool \<times> ttl_map" where
  "claim_room_text sha now msg m = claimStaffText sha now (sg_chat msg) (sg_text msg) m"

definition text_key :: "(jstr \<Rightarrow> jstr) \<Rightarrow> staff_inbound \<Rightarrow> jstr option" where
  "text_key sha msg = Some (textFingerprint sha (sg_chat msg) (sg_text msg))"

interpretation room_messages: ttl_claims claim_room_message room_key SEEN_TTL_MS
  by unfold_locales
    (auto simp: claim_room_message_def claimStaffMessage_def room_key_def Let_def pruneMap_Some pruneMap_None
      split: option.splits)

interpretation room_texts: ttl_claims "claim_room_text sha" "text_key sha" TEXT_DEDUP_MS for sha
  by unfold_locales
    (auto simp: claim_room_text_def claimStaffText_def text_key_def Let_def pruneMap_Some pruneMap_None
      split: option.splits)

text \<open>The messages that are not ignored, in order.\<close>

fun heard :: "(jstr \<Rightarrow> jstr) \<Rightarrow> ttl_map \<Rightarrow> staff_event list \<Rightarrow> (int \<times> staff_inbound) list" where
  "heard sha out [] = []"
| "heard sha out (Heard now msg # es) =
     (let (ignore, out') = shouldIgnoreStaffInbound sha now (sg_text msg) (sg_chat msg) out
      in (if ignore then [] else [(now, msg)]) @ heard sha out' es)"
| "heard sha out (Sent now chat text # es) = heard sha (rememberStaffOutbound sha now chat text out) es"

text \<open>Dispatching is three filters one after the other, each with its own map.\<close>

lemma dispatched_stages:
  "dispatched sha st es =
     room_texts.accepted sha (ls_seenText st) (room_messages.accepted (ls_seenMsg st) (heard sha (ls_recentOut st) es))"
proof (induction es arbitrary: st)
  case (Cons e es)
  show ?case
  proof (cases e)
    case (Heard now msg)
    obtain ig out1 where 1: "shouldIgnoreStaffInbound sha now (sg_text msg) (sg_chat msg) (ls_recentOut st) = (ig, out1)"
      by (cases "shouldIgnoreStaffInbound sha now (sg_text msg) (sg_chat msg) (ls_recentOut st)")
    obtain okm seen1 where 2: "claimStaffMessage now (sg_chat msg) (sg_message msg) (ls_seenMsg st) = (okm, seen1)"
      by (cases "claimStaffMessage now (sg_chat msg) (sg_message msg) (ls_seenMsg st)")
    obtain okt txt1 where 3: "claimStaffText sha now (sg_chat msg) (sg_text msg) (ls_seenText st) = (okt, txt1)"
      by (cases "claimStaffText sha now (sg_chat msg) (sg_text msg) (ls_seenText st)")
    have 4: "claim_room_message now msg (ls_seenMsg st) = (okm, seen1)"
        "claim_room_text sha now msg (ls_seenText st) = (okt, txt1)"
      using 2 3 by (simp_all add: claim_room_message_def claim_room_text_def)
    show ?thesis using 1 2 3 4 Cons.IH Heard by (simp add: dispatchStaffGroup_def Let_def)
  next
    case (Sent now chat t)
    then show ?thesis using Cons.IH by simp
  qed
qed simp

lemma heard_sorted: "sorted (map event_time es) \<Longrightarrow> sorted (map fst (heard sha out es))
    \<and> fst ` set (heard sha out es) \<subseteq> event_time ` set es"
proof (induction es arbitrary: out)
  case (Cons e es)
  have s: "sorted (map event_time es)" "\<forall>x \<in> set es. event_time e \<le> event_time x"
    using Cons.prems by auto
  show ?case
  proof (cases e)
    case (Heard now msg)
    obtain ig out1 where 1: "shouldIgnoreStaffInbound sha now (sg_text msg) (sg_chat msg) out = (ig, out1)"
      by (cases "shouldIgnoreStaffInbound sha now (sg_text msg) (sg_chat msg) out")
    have "\<forall>t \<in> fst ` set (heard sha out1 es). now \<le> t" using Cons.IH[OF s(1), of out1] s(2) Heard by fastforce
    then show ?thesis using Cons.IH[OF s(1), of out1] 1 Heard by auto
  next
    case (Sent now chat t)
    then show ?thesis using Cons.IH[OF s(1)] by auto
  qed
qed simp

lemma sorted_wrt_both: "sorted_wrt R xs \<Longrightarrow> sorted_wrt S xs \<Longrightarrow> sorted_wrt (\<lambda>x y. R x y \<and> S x y) xs"
  by (induction xs) auto

lemma subseq_sorted_wrt: "subseq xs ys \<Longrightarrow> sorted_wrt R ys \<Longrightarrow> sorted_wrt R xs"
proof (induction rule: list_emb.induct)
  case (list_emb_Cons2 x y xs ys)
  then show ?case using list_emb_set[of "(=)" xs ys] by fastforce
qed simp_all

text \<open>
  C17. The staff room is handled once: over any run of messages heard and sent, with times that do not go back,
  two messages handed to the dispatcher that carry the same message number of the same chat are more than three
  minutes apart, and two of the same chat with the same text, up to case and white space, more than 45 seconds.
\<close>

theorem staff_handled_once:
  assumes "sorted (map event_time es)"
  shows "sorted_wrt (\<lambda>(s, x) (t, y).
      (sg_chat x = sg_chat y \<and> sg_message x = sg_message y \<and> id_or_none (sg_message x) \<noteq> None \<longrightarrow> 180000 < t - s)
      \<and> (sg_chat x = sg_chat y \<and> norm_text (sg_text x) = norm_text (sg_text y) \<longrightarrow> 45000 < t - s))
    (dispatched sha st es)"
proof -
  let ?h = "heard sha (ls_recentOut st) es"
  let ?m = "room_messages.accepted (ls_seenMsg st) ?h"
  have h: "sorted (map fst ?h)" using heard_sorted[OF assms] by blast
  then have m: "sorted (map fst ?m)"
    using subseq_map[OF room_messages.accepted_subseq, of fst] subseq_sorted_wrt by blast
  have 1: "sorted_wrt (\<lambda>(s, x) (t, y). room_key x \<noteq> None \<and> room_key x = room_key y \<longrightarrow> SEEN_TTL_MS < t - s) (dispatched sha st es)"
    unfolding dispatched_stages
    by (rule subseq_sorted_wrt[OF room_texts.accepted_subseq room_messages.claims_apart[OF h]])
  have 2: "sorted_wrt (\<lambda>(s, x) (t, y). text_key sha x \<noteq> None \<and> text_key sha x = text_key sha y \<longrightarrow> TEXT_DEDUP_MS < t - s) (dispatched sha st es)"
    unfolding dispatched_stages by (rule room_texts.claims_apart[OF m])
  show ?thesis
    by (rule sorted_wrt_mono_rel[OF _ sorted_wrt_both[OF 1 2]])
      (auto simp: room_key_def text_key_def textFingerprint_def SEEN_TTL_MS_def TEXT_DEDUP_MS_def)
qed

definition demo_msg :: "int \<Rightarrow> string \<Rightarrow> staff_inbound" where
  "demo_msg i t = \<lparr>sg_chat = -100, sg_user = Some 7, sg_message = Some i, sg_thread = None, sg_reply_to = None,
     sg_text = js t, sg_reply_text = None, sg_username = None, sg_name = None, sg_source = FromBot\<rparr>"

definition no_claims :: listen_state where
  "no_claims = \<lparr>ls_seenMsg = (\<lambda>_. None), ls_seenText = (\<lambda>_. None), ls_recentOut = (\<lambda>_. None)\<rparr>"

lemma staff_handled_once_witness:
  "sorted (map event_time [Heard 0 (demo_msg 1 ''go''), Heard 50 (demo_msg 1 ''go'')]) \<and>
   sorted_wrt (\<lambda>(s, x) (t, y).
      (sg_chat x = sg_chat y \<and> sg_message x = sg_message y \<and> id_or_none (sg_message x) \<noteq> None \<longrightarrow> 180000 < t - s)
      \<and> (sg_chat x = sg_chat y \<and> norm_text (sg_text x) = norm_text (sg_text y) \<longrightarrow> 45000 < t - s))
    (dispatched id no_claims [Heard 0 (demo_msg 1 ''go''), Heard 50 (demo_msg 1 ''go'')])"
proof -
  have "sorted (map event_time [Heard 0 (demo_msg 1 ''go''), Heard 50 (demo_msg 1 ''go'')])" by simp
  with staff_handled_once[OF this, of id no_claims] show ?thesis by blast
qed

subsection \<open>The robot does not hear itself\<close>

lemma drop_squeeze: "dropWhile js_space (squeeze_spaces b s) = squeeze_spaces False (dropWhile js_space s)"
  by (induction b s rule: squeeze_spaces.induct) (auto simp: js_space_def[of 32])

lemma squeeze_append_space:
  "list_all js_space w \<Longrightarrow> \<exists>z. squeeze_spaces b (u @ w) = squeeze_spaces b u @ z \<and> list_all js_space z"
proof (induction u arbitrary: b)
  case Nil
  then show ?case
    by (induction b w rule: squeeze_spaces.induct) (auto simp: js_space_def[of 32])
next
  case (Cons c u)
  then show ?case
    by (cases "js_space c"; cases b) (metis append_Cons squeeze_spaces.simps(2))+
qed

lemma rdrop_append_space: "list_all js_space z \<Longrightarrow> dropWhile js_space (rev z @ r) = dropWhile js_space r"
  by (rule dropWhile_append2) (auto simp: list_all_iff)

lemma norm_trim [simp]: "norm_text (js_trim s) = norm_text s"
proof -
  define t where "t = dropWhile js_space s"
  define q where "q = rev (takeWhile js_space (rev t))"
  have "rev t = takeWhile js_space (rev t) @ rev (js_trim s)" by (simp add: js_trim_def t_def)
  then have t: "t = js_trim s @ q" unfolding q_def by (metis rev_append rev_rev_ident)
  have q: "list_all js_space q" by (auto simp: q_def list_all_iff dest: set_takeWhileD)
  have d: "dropWhile js_space (js_trim s) = js_trim s"
    using js_trim_hd_last[of s] by (cases "js_trim s") auto
  obtain z where z: "squeeze_spaces False t = squeeze_spaces False (js_trim s) @ z" "list_all js_space z"
    using squeeze_append_space[OF q] t by metis
  have "js_trim (squeeze_spaces False s) = js_trim (squeeze_spaces False (js_trim s))"
    using z by (simp add: js_trim_def[of "squeeze_spaces False _"] drop_squeeze d rdrop_append_space flip: t_def)
  then show ?thesis by (simp add: norm_text_def)
qed

lemma heard_not_own:
  assumes "out (textFingerprint sha (sg_chat msg) (sg_text msg)) = Some t0"
    and "sorted (map event_time es)" "\<forall>e \<in> set es. t0 \<le> event_time e" "(s, msg) \<in> set (heard sha out es)"
  shows "OUT_TTL_MS < s - t0"
  using assms
proof (induction es arbitrary: out t0)
  case (Cons e es)
  let ?k = "textFingerprint sha (sg_chat msg) (sg_text msg)"
  have le: "event_time e \<le> s"
  proof -
    have "s \<in> event_time ` set (e # es)" using heard_sorted[OF Cons.prems(2)] Cons.prems(4) by force
    then show ?thesis using Cons.prems(2) by auto
  qed
  show ?case
  proof (cases "OUT_TTL_MS < event_time e - t0")
    case True
    then show ?thesis using le by simp
  next
    case fresh: False
    show ?thesis
    proof (cases e)
      case (Heard now m)
      have k: "textFingerprint sha (sg_chat msg) (js_trim (sg_text msg)) = ?k" by (simp add: textFingerprint_def)
      have o: "snd (shouldIgnoreStaffInbound sha now (sg_text m) (sg_chat m) out) ?k = Some t0"
        using Cons.prems(1) fresh Heard
        by (auto simp: shouldIgnoreStaffInbound_def isRecentOutbound_def Let_def pruneMap_Some)
      have "fst (shouldIgnoreStaffInbound sha now (sg_text m) (sg_chat m) out)" if "m = msg"
        using Cons.prems(1) fresh Heard that k
        by (auto simp: shouldIgnoreStaffInbound_def isRecentOutbound_def Let_def pruneMap_Some)
      then have "(s, msg) \<in> set (heard sha (snd (shouldIgnoreStaffInbound sha now (sg_text m) (sg_chat m) out)) es)"
        using Cons.prems(4) Heard by (auto simp: case_prod_beta split: if_splits)
      from Cons.IH[OF o _ _ this] show ?thesis using Cons.prems(2,3) by simp
    next
      case (Sent now chat t)
      obtain t1 where t1: "rememberStaffOutbound sha now chat t out ?k = Some t1" "t0 \<le> t1" "t1 \<le> now"
        using Cons.prems(1,3) fresh Sent
        by (cases "textFingerprint sha chat t = ?k") (auto simp: rememberStaffOutbound_def pruneMap_Some)
      have "\<forall>e \<in> set es. t1 \<le> event_time e" using Cons.prems(2) Sent t1(3) by auto
      from Cons.IH[of "rememberStaffOutbound sha now chat t out" t1, OF t1(1) _ this] have "OUT_TTL_MS < s - t1" using Cons.prems(2,4) Sent by simp
      then show ?thesis using t1(2) by simp
    qed
  qed
qed simp

text \<open>
  The robot does not hear itself: once it has sent a text to the staff room, no message of that chat with the
  same text, up to case and white space, is handed to the dispatcher within the next three minutes, whatever else
  is heard and sent meanwhile.
\<close>

theorem own_words_not_heard:
  assumes "sorted (map event_time (Sent now chat words # es))"
    and "(t, msg) \<in> set (dispatched sha st (Sent now chat words # es))"
    and "sg_chat msg = chat" "norm_text (sg_text msg) = norm_text words"
  shows "180000 < t - now"
proof -
  let ?out = "rememberStaffOutbound sha now chat words (ls_recentOut st)"
  have "(t, msg) \<in> set (heard sha ?out es)"
    using assms(2) room_texts.accepted_subset room_messages.accepted_subset unfolding dispatched_stages
    by (auto dest!: subsetD[OF room_texts.accepted_subset] subsetD[OF room_messages.accepted_subset])
  moreover have "?out (textFingerprint sha (sg_chat msg) (sg_text msg)) = Some now"
    using assms(3,4) by (simp add: rememberStaffOutbound_def textFingerprint_def)
  ultimately show ?thesis
    using heard_not_own[of ?out sha msg now es t] assms(1) by (simp add: OUT_TTL_MS_def)
qed

lemma own_words_not_heard_witness:
  "(200000, demo_msg 1 ''Done'') \<in> set (dispatched id no_claims (Sent 0 (-100) (js ''done'') # [Heard 200000 (demo_msg 1 ''Done'')]))
   \<and> (180000::int) < 200000 - 0"
proof -
  have r: "\<not> rx_test True SELF_REPLY_RE (js ''Done'')" by (simp add: SELF_REPLY_RE_def js_def ru_eval rx_eval)
  have n: "js_trim (js ''Done'') = js ''Done''" "js ''Done'' \<noteq> []" by (simp_all add: js_text_eval)
  have d: "(200000, demo_msg 1 ''Done'') \<in> set (dispatched id no_claims (Sent 0 (-100) (js ''done'') # [Heard 200000 (demo_msg 1 ''Done'')]))"
    by (simp add: dispatchStaffGroup_def shouldIgnoreStaffInbound_def isRecentOutbound_def demo_msg_def no_claims_def
        rememberStaffOutbound_def claimStaffMessage_def claimStaffText_def Let_def pruneMap_def id_or_none_def r n
        OUT_TTL_MS_def) blast
  have "sorted (map event_time (Sent 0 (-100) (js ''done'') # [Heard 200000 (demo_msg 1 ''Done'')]))" by simp
  from own_words_not_heard[OF this d] d show ?thesis
    by (simp add: demo_msg_def norm_text_def js_text_eval)
qed

text \<open>
  The text is remembered without its author or topic: the same words of another person, in another topic, within
  45 seconds of an accepted message are not handed on.
\<close>

lemma dispatch_remembers:
  "fst (dispatchStaffGroup sha s x st) \<Longrightarrow>
   ls_seenText (snd (dispatchStaffGroup sha s x st)) (textFingerprint sha (sg_chat x) (sg_text x)) = Some s"
  by (simp add: dispatchStaffGroup_def claimStaffText_def Let_def case_prod_beta split: if_splits)

lemma dispatch_text_fresh:
  "fst (dispatchStaffGroup sha t y st) \<Longrightarrow>
   ls_seenText st (textFingerprint sha (sg_chat y) (sg_text y)) = Some s \<Longrightarrow> 45000 < t - s"
  by (auto simp: dispatchStaffGroup_def claimStaffText_def Let_def case_prod_beta pruneMap_None TEXT_DEDUP_MS_def
      split: if_splits)

lemma same_words_swallowed:
  assumes "fst (dispatchStaffGroup sha s x st)" "t - s \<le> 45000"
    and "sg_chat y = sg_chat x" "norm_text (sg_text y) = norm_text (sg_text x)"
  shows "\<not> fst (dispatchStaffGroup sha t y (snd (dispatchStaffGroup sha s x st)))"
  using dispatch_remembers[OF assms(1)] dispatch_text_fresh[of sha t y _ s] assms(2-)
  by (auto simp: textFingerprint_def)

end
