(* ===== verification/StaffTopics.thy ===== *)
theory StaffTopics
  imports StaffListen
begin

text \<open>
  The fixed forum topics of the staff room (\<open>apps/tg-gateway/src/staffTopics.ts\<close>, \<open>staffForumBootstrap.ts\<close>): which
  topic a post or a reply belongs to, how the topics are found or created, and how their numbers are written into
  the root \<open>.env\<close>. What Telegram answers is a parameter; a topic number is a JavaScript number. Numbers that are
  not whole are printed by the parameter \<open>digits\<close>.
\<close>

subsection \<open>Kinds of topic\<close>

datatype topic_kind = TGeneral | TEscalations | TRfq | TCoaching

datatype staff_intent = IHelp | IStatus | IEscalations | IAwaiting | IDealCard | IApproveKp | IRejectDeal | ITakeover
  | IPause | IResume | ICut3 | IOpsHint | ISetActive | IApproveRfq | IAnswer | IObserve | IUnclear

definition STAFF_TOPIC_TITLES :: "topic_kind \<Rightarrow> jstr" where
  "STAFF_TOPIC_TITLES k = (case k of TGeneral \<Rightarrow> ru ''Ob}ee'' | TEscalations \<Rightarrow> 1069 # ru ''skalacii''
     | TRfq \<Rightarrow> js ''RFQ'' | TCoaching \<Rightarrow> ru ''Obu~enie'')"

definition KIND_ORDER :: "topic_kind list" where
  "KIND_ORDER = [TGeneral, TEscalations, TRfq, TCoaching]"

definition topic_env_key :: "topic_kind \<Rightarrow> string" where
  "topic_env_key k = (case k of TGeneral \<Rightarrow> ''TG_STAFF_TOPIC_GENERAL'' | TEscalations \<Rightarrow> ''TG_STAFF_TOPIC_ESCALATIONS''
     | TRfq \<Rightarrow> ''TG_STAFF_TOPIC_RFQ'' | TCoaching \<Rightarrow> ''TG_STAFF_TOPIC_COACHING'')"

definition switched_on :: "penv \<Rightarrow> string \<Rightarrow> bool" where
  "switched_on env name =
     (js_trim (js_toLowerCase (js_or (env_get env name) (js ''on''))) \<notin> set (map js [''0'', ''false'', ''off'', ''no'']))"

definition forumEnabled :: "penv \<Rightarrow> bool" where
  "forumEnabled env = switched_on env ''TG_STAFF_FORUM''"

definition envTopicId :: "penv \<Rightarrow> topic_kind \<Rightarrow> rat option" where
  "envTopicId env kind =
     (let raw = env_trimmed env (topic_env_key kind)
      in if raw = [] then None
         else case js_Number raw of Num n \<Rightarrow> if 0 < n then Some n else None | _ \<Rightarrow> None)"

definition normalizeTitle :: "jstr \<Rightarrow> jstr" where
  "normalizeTitle s = js_toLowerCase (js_trim (squeeze_spaces False s))"

definition topicKindForOutbound :: "jstr \<Rightarrow> topic_kind" where
  "topicKindForOutbound kind =
     (let k = js_toLowerCase (js_or (Some kind) (js ''info''))
      in if k = js ''alert'' then TEscalations
         else if k = js ''learning'' then TCoaching
         else if k = js ''ops'' \<or> k = js ''rfq'' then TRfq else TGeneral)"

definition topicKindForIntent :: "staff_intent \<Rightarrow> topic_kind" where
  "topicKindForIntent i =
     (if i \<in> {IEscalations, IApproveKp, IRejectDeal, ITakeover, IPause, IResume, ICut3} then TEscalations
      else if i \<in> {IOpsHint, IApproveRfq} then TRfq
      else if i \<in> {IAnswer, IObserve, IHelp} then TCoaching else TGeneral)"

subsection \<open>Known topics\<close>

type_synonym topic_ids = "topic_kind \<Rightarrow> rat option"

definition getStaffTopicId :: "penv \<Rightarrow> topic_ids \<Rightarrow> topic_kind \<Rightarrow> rat option" where
  "getStaffTopicId env ids kind = (case envTopicId env kind of Some n \<Rightarrow> Some n | None \<Rightarrow> ids kind)"

definition getStaffTopicMap :: "penv \<Rightarrow> topic_ids \<Rightarrow> topic_ids" where
  "getStaffTopicMap env ids = (\<lambda>k. case getStaffTopicId env ids k of Some n \<Rightarrow> if n = 0 then None else Some n | None \<Rightarrow> None)"

definition resolveTopicKindByThreadId :: "penv \<Rightarrow> topic_ids \<Rightarrow> rat option \<Rightarrow> topic_kind option" where
  "resolveTopicKindByThreadId env ids threadId =
     (case threadId of None \<Rightarrow> None
      | Some t \<Rightarrow>
          if t = 0 then None
          else case find (\<lambda>k. getStaffTopicId env ids k = Some t) KIND_ORDER of
                 Some k \<Rightarrow> Some k | None \<Rightarrow> if t = 1 then Some TGeneral else None)"

definition threadIdForOutbound :: "penv \<Rightarrow> topic_ids \<Rightarrow> jstr \<Rightarrow> rat option" where
  "threadIdForOutbound env ids kind = getStaffTopicId env ids (topicKindForOutbound kind)"

definition threadIdForReply :: "penv \<Rightarrow> topic_ids \<Rightarrow> rat option \<Rightarrow> staff_intent option \<Rightarrow> rat option" where
  "threadIdForReply env ids inbound intent =
     (case inbound of
        Some t \<Rightarrow> if 0 < t then Some t
          else (case intent of Some i \<Rightarrow> getStaffTopicId env ids (topicKindForIntent i) | None \<Rightarrow> getStaffTopicId env ids TGeneral)
      | None \<Rightarrow> (case intent of Some i \<Rightarrow> getStaffTopicId env ids (topicKindForIntent i) | None \<Rightarrow> getStaffTopicId env ids TGeneral))"

subsection \<open>Listing the topics\<close>

text \<open>One page of \<open>GetForumTopics\<close>: its entries (a deleted topic is \<open>None\<close>) and the total count it reports.\<close>

record forum_topic =
  ft_id :: rat
  ft_title :: jstr
  ft_top_message :: rat
  ft_date :: rat

type_synonym topic_page = "forum_topic option list \<times> rat option"

definition page_topics :: "topic_page \<Rightarrow> forum_topic list" where
  "page_topics p = List.map_filter id (fst p)"

text \<open>\<open>fetch\<close> gets the offsets of date, message and topic; at most twenty pages are read.\<close>

fun list_pages :: "nat \<Rightarrow> (rat \<times> rat \<times> rat \<Rightarrow> topic_page option) \<Rightarrow> rat \<times> rat \<times> rat \<Rightarrow> (rat \<times> jstr) list
    \<Rightarrow> (rat \<times> jstr) list option" where
  "list_pages 0 fetch off out = Some out"
| "list_pages (Suc n) fetch off out =
     (case fetch off of None \<Rightarrow> None
      | Some p \<Rightarrow>
          if fst p = [] then Some out
          else let ts = page_topics p;
                   out' = out @ map (\<lambda>t. (ft_id t, ft_title t)) ts;
                   off' = (if ts = [] then off else (ft_date (last ts), ft_top_message (last ts), ft_id (last ts)));
                   count = (case snd p of Some c \<Rightarrow> if c = 0 then of_nat (length out') else c | None \<Rightarrow> of_nat (length out'))
               in if count \<le> of_nat (length out') \<or> length (fst p) < 100 then Some out'
                  else list_pages n fetch off' out')"

definition listForumTopics :: "(rat \<times> rat \<times> rat \<Rightarrow> topic_page option) \<Rightarrow> (rat \<times> jstr) list option" where
  "listForumTopics fetch = list_pages 20 fetch (0, 0, 0) []"

subsection \<open>Finding and creating the topics\<close>

text \<open>
  Telegram for the forum: the first and the second listing, the updates a user's \<open>CreateForumTopic\<close> returns
  (message number and whether its action is a topic's) with the listing made after it, and the thread number the
  bot's \<open>createForumTopic\<close> gives.
\<close>

record forum_api =
  fa_list :: "nat \<Rightarrow> (rat \<times> jstr) list option"
  fa_updates :: "jstr \<Rightarrow> (rat \<times> bool) list option"
  fa_relist :: "jstr \<Rightarrow> (rat \<times> jstr) list option"
  fa_bot_create :: "jstr \<Rightarrow> numval option"

definition createTopicViaBot :: "forum_api \<Rightarrow> jstr \<Rightarrow> rat option" where
  "createTopicViaBot api title =
     (case fa_bot_create api title of Some (Num n) \<Rightarrow> if 0 < n then Some n else None | _ \<Rightarrow> None)"

definition createTopicViaUser :: "forum_api \<Rightarrow> jstr \<Rightarrow> rat option" where
  "createTopicViaUser api title =
     (case fa_updates api title of None \<Rightarrow> None
      | Some us \<Rightarrow>
          (case find snd us of Some (i, _) \<Rightarrow> Some i
           | None \<Rightarrow>
               (case fa_relist api title of None \<Rightarrow> None
                | Some ts \<Rightarrow> map_option fst (find (\<lambda>t. normalizeTitle (snd t) = normalizeTitle title) ts))))"

definition topic_aliases :: "topic_kind \<Rightarrow> jstr list" where
  "topic_aliases k =
     (case k of
        TGeneral \<Rightarrow> [ru ''ob}ee'', js ''general'', js ''general topic'']
      | TEscalations \<Rightarrow> [ru ''|skalacii'', js ''escalations'', js ''alerts'',
          ru ''|skalaciq re{enie zada~i wmeste s ~elowekom'', ru ''zakazy kotorye pere{li w ru~noj revim'']
      | TRfq \<Rightarrow> [js ''rfq'', ru ''stawki'', ru ''zaprosy'']
      | TCoaching \<Rightarrow> [ru ''obu~enie'', js ''coaching'', js ''training''])"

definition nonzero_id :: "rat option \<Rightarrow> rat option" where
  "nonzero_id x = (case x of Some n \<Rightarrow> if n = 0 then None else Some n | None \<Rightarrow> None)"

definition find_topic :: "(jstr \<Rightarrow> rat option) \<Rightarrow> topic_kind \<Rightarrow> rat option" where
  "find_topic byTitle kind =
     (case nonzero_id (byTitle (normalizeTitle (STAFF_TOPIC_TITLES kind))) of
        Some i \<Rightarrow> Some i
      | None \<Rightarrow>
          (case find (\<lambda>a. nonzero_id (byTitle a) \<noteq> None) (topic_aliases kind) of
             Some a \<Rightarrow> nonzero_id (byTitle a) | None \<Rightarrow> None))"

definition create_topic :: "bool \<Rightarrow> bool \<Rightarrow> forum_api \<Rightarrow> topic_kind \<Rightarrow> rat option" where
  "create_topic client bot' api kind =
     (case (if client then nonzero_id (createTopicViaUser api (STAFF_TOPIC_TITLES kind)) else None) of
        Some i \<Rightarrow> Some i
      | None \<Rightarrow> if bot' then createTopicViaBot api (STAFF_TOPIC_TITLES kind) else None)"

text \<open>The loop over the kinds; the last component lists the kinds a creation was asked for.\<close>

definition ensure_kind :: "bool \<Rightarrow> bool \<Rightarrow> forum_api \<Rightarrow> topic_kind
    \<Rightarrow> topic_ids \<times> (jstr \<Rightarrow> rat option) \<times> topic_kind list \<Rightarrow> topic_ids \<times> (jstr \<Rightarrow> rat option) \<times> topic_kind list" where
  "ensure_kind client bot' api kind s =
     (case s of (ids, byTitle, asked) \<Rightarrow>
        if ids kind \<noteq> None then s
        else case find_topic byTitle kind of
               Some i \<Rightarrow> (ids(kind \<mapsto> i), byTitle, asked)
             | None \<Rightarrow>
                 (case create_topic client bot' api kind of
                    Some i \<Rightarrow> (ids(kind \<mapsto> i), byTitle(normalizeTitle (STAFF_TOPIC_TITLES kind) \<mapsto> i), asked @ [kind])
                  | None \<Rightarrow> (ids, byTitle, asked @ [kind])))"

record topics_state =
  ts_ids :: topic_ids
  ts_ready :: bool
  ts_promise :: "topic_ids option"

definition by_title :: "(rat \<times> jstr) list \<Rightarrow> jstr \<Rightarrow> rat option" where
  "by_title listed = map_of (rev (map (\<lambda>(i, t). (normalizeTitle t, i)) listed))"

definition seed_ids :: "penv \<Rightarrow> topic_ids \<Rightarrow> topic_ids" where
  "seed_ids env ids = (\<lambda>k. case envTopicId env k of Some n \<Rightarrow> Some n | None \<Rightarrow> ids k)"

definition some_topic :: "topic_ids \<Rightarrow> bool" where
  "some_topic ids = list_ex (\<lambda>k. ids k \<noteq> None) KIND_ORDER"

text \<open>
  \<open>ensureStaffTopics\<close> run to its end: the map it resolves to, the kinds whose creation was asked for, and the
  state after it. A finished run with topics is remembered and answers every later call.
\<close>

definition ensureStaffTopics :: "penv \<Rightarrow> bool \<Rightarrow> bool \<Rightarrow> forum_api \<Rightarrow> topics_state \<Rightarrow> topic_ids \<times> topic_kind list \<times> topics_state" where
  "ensureStaffTopics env client bot' api st =
     (if \<not> forumEnabled env then (getStaffTopicMap env (ts_ids st), [], st)
      else case ts_promise st of Some m \<Rightarrow> (m, [], st)
      | None \<Rightarrow>
          let finish = (\<lambda>ids ready asked.
                 let m = getStaffTopicMap env ids
                 in (m, asked, \<lparr>ts_ids = ids, ts_ready = ready, ts_promise = (if ready then Some m else None)\<rparr>))
          in if escalationChatId env = None then finish (ts_ids st) (ts_ready st) []
             else let ids0 = seed_ids env (ts_ids st);
                      listed = (if \<not> client then Some []
                        else case fa_list api 0 of Some l \<Rightarrow> Some l | None \<Rightarrow> fa_list api 1)
                  in case listed of
                       None \<Rightarrow> finish ids0 (some_topic ids0) []
                     | Some l \<Rightarrow>
                         (case fold (ensure_kind client bot' api) KIND_ORDER (ids0, by_title l, []) of
                            (ids, _, asked) \<Rightarrow> finish ids (some_topic ids) asked))"

subsection \<open>Writing the numbers down\<close>

text \<open>\<open>String(n)\<close>: whole numbers below ten to the 21 in digits, the others by \<open>digits\<close>.\<close>

definition num_str :: "(rat \<Rightarrow> jstr) \<Rightarrow> rat \<Rightarrow> jstr" where
  "num_str digits r = (if r = of_int \<lfloor>r\<rfloor> \<and> \<bar>r\<bar> < 10 ^ 21 then show_int \<lfloor>r\<rfloor> else digits r)"

definition topic_line_re :: "jstr \<Rightarrow> rx" where
  "topic_line_re key = sq [Mbol, opt (lit [35]), star sp, lit (key @ [61]), star dot, Meol]"

definition js_trimEnd :: "jstr \<Rightarrow> jstr" where
  "js_trimEnd s = rev (dropWhile js_space (rev s))"

definition upsert_line :: "jstr \<Rightarrow> jstr \<Rightarrow> jstr \<Rightarrow> jstr" where
  "upsert_line key value out =
     (if rx_test False (topic_line_re key) out
      then rx_replace False (topic_line_re key) (key @ [61] @ value) out
      else js_trimEnd out @ [10] @ key @ [61] @ value @ [10])"

definition applyTopicIdsToEnvText :: "(rat \<Rightarrow> jstr) \<Rightarrow> jstr \<Rightarrow> topic_ids \<Rightarrow> jstr" where
  "applyTopicIdsToEnvText digits envText ids =
     fold (\<lambda>kind out. case nonzero_id (ids kind) of None \<Rightarrow> out
             | Some i \<Rightarrow> upsert_line (js (topic_env_key kind)) (num_str digits i) out)
       KIND_ORDER envText"


subsection \<open>A written number is read back\<close>

definition lf_only :: "jstr \<Rightarrow> bool" where
  "lf_only s \<longleftrightarrow> list_all (\<lambda>c. js_eol c \<longrightarrow> c = 10) s"

lemma topic_match:
  assumes "rx_exec False (topic_line_re key) out = Some (pre, m, cs, post)"
  shows "out = pre @ m @ post \<and> line_end (rev pre) \<and> line_end post
    \<and> (\<exists>h w d. m = h @ w @ key @ 61 # d \<and> h \<in> {[], [35]} \<and> list_all js_space w \<and> list_all (\<lambda>c. \<not> js_eol c) d)"
proof -
  have ok: "rx_ok (topic_line_re key)"
  proof -
    have "rx_ok (lit s)" for s by (induction s) (auto simp: lit_def)
    then show ?thesis by (simp add: topic_line_re_def opt_def star_def sp_def dot_def)
  qed
  from rx_exec_sound[OF ok assms] have out: "out = pre @ m @ post"
    and l: "((rev pre, m @ post), (rev (pre @ m), post)) \<in> rx_lang False (topic_line_re key)" by blast+
  from l obtain p1 t1 p2 t2 p3 t3 p4 t4 where
      0: "line_end (rev pre)"
    and 1: "((rev pre, m @ post), (p1, t1)) \<in> rx_lang False (opt (lit [35]))"
    and 2: "((p1, t1), (p2, t2)) \<in> rx_lang False (star sp)"
    and 3: "((p2, t2), (p3, t3)) \<in> rx_lang False (lit (key @ [61]))"
    and 4: "((p3, t3), (p4, t4)) \<in> rx_lang False (star dot)"
    and 5: "p4 = rev (pre @ m)" "t4 = post" "line_end post"
    unfolding topic_line_re_def sq.simps rx_lang.simps relcomp_unfold by auto
  from 1 obtain n where "n \<le> 1" "((rev pre, m @ post), (p1, t1)) \<in> rx_lang False (lit [35]) ^^ n"
    by (auto simp: opt_def)
  then have "(p1, t1) = (rev pre, m @ post) \<or> ((rev pre, m @ post), (p1, t1)) \<in> rx_lang False (lit [35])"
    by (cases n) auto
  then obtain h where h: "h \<in> {[], [35]}" "m @ post = h @ t1"
    by (auto simp: lang_lit)
  from 2[unfolded sp_def] obtain w where w: "t1 = w @ t2" "\<forall>c \<in> set w. cls_has False space_ranges c \<noteq> False"
    by (rule lang_star_cls)
  from 3 have t3: "t2 = key @ 61 # t3" by (simp add: lang_lit)
  from 4[unfolded dot_def] obtain d where d: "t3 = d @ t4" "\<forall>c \<in> set d. cls_has False [(10, 10), (13, 13), (8232, 8233)] c \<noteq> True"
    by (rule lang_star_cls)
  have "m @ post = (h @ w @ key @ 61 # d) @ post" using h(2) w(1) t3 d(1) 5(2) by simp
  then have "m = h @ w @ key @ 61 # d" unfolding append_same_eq .
  moreover have "list_all js_space w" using w(2) by (simp add: list_all_iff cls_space)
  moreover have "list_all (\<lambda>c. \<not> js_eol c) d" using d(2) by (simp add: list_all_iff cls_eol)
  ultimately show ?thesis using out 0 5(3) h(1) by blast
qed

definition lines_before :: "jstr \<Rightarrow> jstr list" where
  "lines_before pre = (if pre = [] then [] else js_split1 10 (butlast pre))"

definition lines_after :: "jstr \<Rightarrow> jstr list" where
  "lines_after post = (if post = [] then [] else js_split1 10 (tl post))"

lemma lines_around:
  assumes "line_end (rev pre)" "line_end post" "lf_only pre" "lf_only post"
  shows "js_split1 10 (pre @ x @ post) = lines_before pre @ js_split1 10 x @ lines_after post"
proof -
  have p: "js_split1 10 (x @ post) = js_split1 10 x @ lines_after post"
  proof (cases post)
    case (Cons c r)
    then have "c = 10" using assms(2,4) by (simp add: line_end_def lf_only_def)
    then show ?thesis using Cons by (simp add: js_split1_append lines_after_def)
  qed (simp add: lines_after_def)
  show ?thesis
  proof (cases pre rule: rev_cases)
    case (snoc r c)
    then have "c = 10" using assms(1,3) by (simp add: line_end_def lf_only_def)
    then show ?thesis using snoc p by (simp add: js_split1_append lines_before_def)
  qed (simp add: p lines_before_def)
qed

text \<open>Lines without effect: blank ones and comments.\<close>

definition quiet :: "jstr \<Rightarrow> bool" where
  "quiet l \<longleftrightarrow> list_all js_space l \<or> (\<exists>z. l = 35 # z)"

lemma quiet_lines:
  assumes "h \<in> {[], [35]}" "list_all js_space w" "l \<in> set (js_split1 10 (h @ w))"
  shows "quiet l"
proof -
  have w: "list_all js_space v" if "v \<in> set (js_split1 10 w)" for v
    using js_split1_subset[OF that] assms(2) by (auto simp: list_all_iff)
  obtain a r where a: "js_split1 10 w = a # r" by (cases "js_split1 10 w") auto
  show ?thesis using assms(1,3) a w by (auto simp: quiet_def)
qed

definition mentions :: "jstr \<Rightarrow> jstr \<Rightarrow> bool" where
  "mentions key l \<longleftrightarrow> js_includes l (key @ [61]) \<or> assigns key l"

lemma quiet_no_assign: "quiet l \<Longrightarrow> \<not> assigns k l"
  by (auto simp: quiet_def assigns_def env_line_blank)

text \<open>
  What writing a line does to the lines of the text: some lines are kept before and after, and those replaced
  hold the key's line and otherwise nothing that assigns.
\<close>

lemma upsert_replaces:
  assumes "rx_test False (topic_line_re key) out" "lf_only out" "key_ok key" "10 \<notin> set value"
  obtains a b c where "js_split1 10 out = a @ b @ c" "js_split1 10 (upsert_line key value out) = a @ [key @ 61 # value] @ c"
    "\<exists>l \<in> set b. mentions key l" "\<forall>k l. l \<in> set b \<longrightarrow> k \<noteq> key \<longrightarrow> \<not> assigns k l"
proof -
  obtain pre m cs post where x: "rx_exec False (topic_line_re key) out = Some (pre, m, cs, post)"
    using assms(1) unfolding rx_test_def by (cases "rx_exec False (topic_line_re key) out") auto
  from topic_match[OF x] obtain h w d where out: "out = pre @ m @ post" and e: "line_end (rev pre)" "line_end post"
    and m: "m = h @ w @ key @ 61 # d" "h \<in> {[], [35]}" "list_all js_space w" "list_all (\<lambda>c. \<not> js_eol c) d" by blast
  have lf: "lf_only pre" "lf_only post" using assms(2) out by (auto simp: lf_only_def)
  note k = key_ok_chars[OF assms(3)]
  have "10 \<notin> set (key @ 61 # d)" using k m(4) by (auto simp: list_all_iff js_eol_def)
  then have b: "js_split1 10 m = butlast (js_split1 10 (h @ w)) @ [last (js_split1 10 (h @ w)) @ key @ 61 # d]"
    using js_split1_snoc[of 10 "key @ 61 # d" "h @ w"] m(1) by simp
  define z where "z = last (js_split1 10 (h @ w))"
  have z: "quiet z" using quiet_lines[OF m(2,3), of z] by (simp add: z_def)
  have "js_split1 10 (key @ 61 # value) = [key @ 61 # value]" using k assms(4) by (intro js_split1_none) auto
  then have new: "js_split1 10 (upsert_line key value out) = lines_before pre @ [key @ 61 # value] @ lines_after post"
    using assms(1) x lines_around[OF e lf, of "key @ 61 # value"] by (simp add: upsert_line_def rx_replace_def)
  have men: "mentions key (z @ key @ 61 # d)"
    unfolding mentions_def js_includes_iff by (rule disjI1, rule exI[of _ z], rule exI[of _ d]) simp
  have la: "\<not> assigns j (z @ key @ 61 # d)" if "j \<noteq> key" for j
    using z that by (auto simp: quiet_def assigns_def env_line_key[OF assms(3)])
  have na: "\<not> assigns j l" if "l \<in> set (js_split1 10 m)" "j \<noteq> key" for j l
    using that la quiet_no_assign[OF quiet_lines[OF m(2,3)]] unfolding b
    by (auto simp flip: z_def dest: in_set_butlastD)
  show ?thesis
    using that[of "lines_before pre" "js_split1 10 m" "lines_after post"] out lines_around[OF e lf, of m] new men na
    unfolding b by (auto simp flip: z_def)
qed

text \<open>Otherwise the line is put at the end.\<close>

lemma upsert_appends:
  assumes "\<not> rx_test False (topic_line_re key) out" "key_ok key" "10 \<notin> set value"
  shows "js_split1 10 (upsert_line key value out) = js_split1 10 (js_trimEnd out) @ [key @ 61 # value, []]"
proof -
  have k: "10 \<notin> set (key @ 61 # value)" using key_ok_chars[OF assms(2)] assms(3) by auto
  have "upsert_line key value out = js_trimEnd out @ 10 # ((key @ 61 # value) @ 10 # [])"
    using assms(1) by (simp add: upsert_line_def)
  then show ?thesis
    using js_split1_append[of 10 "js_trimEnd out"] js_split1_append[of 10 "key @ 61 # value" "[]"] js_split1_none[OF k]
    by (simp only: js_split1.simps append_Cons append_Nil append_assoc)
qed


lemma trimEnd_split: "\<exists>w. s = js_trimEnd s @ w \<and> list_all js_space w"
proof -
  have "rev s = takeWhile js_space (rev s) @ rev (js_trimEnd s)" by (simp add: js_trimEnd_def)
  then have "s = js_trimEnd s @ rev (takeWhile js_space (rev s))" by (metis rev_append rev_rev_ident)
  then show ?thesis by (intro exI[of _ "rev (takeWhile js_space (rev s))"]) (auto simp: list_all_iff dest: set_takeWhileD)
qed

text \<open>Cutting white space off the end of the text changes no assignment and adds no mention.\<close>

lemma trimEnd_lines:
  obtains l w r where "js_split1 10 s = butlast (js_split1 10 (js_trimEnd s)) @ [l @ w] @ r"
    "last (js_split1 10 (js_trimEnd s)) = l" "list_all js_space w" "list_all quiet r"
proof -
  obtain v where v: "s = js_trimEnd s @ v" "list_all js_space v" using trimEnd_split by blast
  have x: "list_all js_space x" if "x \<in> set (js_split1 10 v)" for x
    using js_split1_subset[OF that] v(2) by (auto simp: list_all_iff)
  obtain y ys where y: "js_split1 10 v = y # ys" by (cases "js_split1 10 v") auto
  have "list_all js_space (hd (js_split1 10 v))" using x[of y] y by simp
  moreover have "list_all quiet (tl (js_split1 10 v))" using x y by (simp add: list_all_iff[of quiet] quiet_def)
  ultimately show ?thesis using that js_split1_append_gen[of 10 "js_trimEnd s" v] v(1) by metis
qed

lemma env_line_append_space: "list_all js_space w \<Longrightarrow> env_line (l @ w) = env_line l"
  by (simp add: env_line_def js_trim_append_space)

lemma assigns_append_space: "list_all js_space w \<Longrightarrow> assigns k (l @ w) = assigns k l"
  by (simp add: assigns_def env_line_append_space)

lemma fold_quiet: "list_all quiet r \<Longrightarrow> fold env_assign r out = out"
proof (induction r arbitrary: out)
  case (Cons l r)
  then have "env_line l = None" by (auto simp: quiet_def env_line_blank)
  then show ?case using Cons by (simp add: env_assign_def)
qed simp

lemma parse_trimEnd: "fold env_assign (js_split1 10 (js_trimEnd s)) [] = parseEnvFile s"
proof -
  obtain l w r where 1: "js_split1 10 s = butlast (js_split1 10 (js_trimEnd s)) @ [l @ w] @ r"
    and 2: "last (js_split1 10 (js_trimEnd s)) = l" "list_all js_space w" "list_all quiet r" by (rule trimEnd_lines)
  have "env_assign (l @ w) = env_assign l" using 2(2) by (simp add: env_assign_def env_line_append_space fun_eq_iff)
  then have "parseEnvFile s = fold env_assign (butlast (js_split1 10 (js_trimEnd s)) @ [l]) []"
    unfolding parseEnvFile_lines 1 using fold_quiet[OF 2(3)] by simp
  then show ?thesis using 2(1) by (metis append_butlast_last_id js_split1_nonempty)
qed

definition mention_count :: "jstr \<Rightarrow> jstr \<Rightarrow> nat" where
  "mention_count key text = length (filter (mentions key) (js_split1 10 text))"

lemma js_includes_append: "js_includes l p \<Longrightarrow> js_includes (l @ w) p"
  unfolding js_includes_iff by (metis append_assoc)

lemma mentions_append_space: "list_all js_space w \<Longrightarrow> mentions k l \<Longrightarrow> mentions k (l @ w)"
  by (auto simp: mentions_def assigns_append_space js_includes_append)

lemma mention_count_trimEnd: "mention_count k (js_trimEnd s) \<le> mention_count k s"
proof -
  obtain l w r where 1: "js_split1 10 s = butlast (js_split1 10 (js_trimEnd s)) @ [l @ w] @ r"
    and 2: "last (js_split1 10 (js_trimEnd s)) = l" "list_all js_space w" "list_all quiet r" by (rule trimEnd_lines)
  have "js_split1 10 (js_trimEnd s) = butlast (js_split1 10 (js_trimEnd s)) @ [l]"
    using 2(1) by (metis append_butlast_last_id js_split1_nonempty)
  then have "mention_count k (js_trimEnd s) = length (filter (mentions k) (butlast (js_split1 10 (js_trimEnd s)) @ [l]))"
    by (simp add: mention_count_def)
  also have "\<dots> \<le> mention_count k s"
    unfolding mention_count_def 1 using mentions_append_space[OF 2(2), of k l] by simp
  finally show ?thesis .
qed

text \<open>A value that can be written as it is, and keys none of which ends in another.\<close>

definition plain_value :: "jstr \<Rightarrow> bool" where
  "plain_value v \<longleftrightarrow> env_write v = v \<and> list_all (\<lambda>c. \<not> js_eol c \<and> c \<noteq> 61) v"

definition apart :: "jstr \<Rightarrow> jstr \<Rightarrow> bool" where
  "apart k key \<longleftrightarrow> k \<noteq> key \<and> \<not> ends_with key k"

lemma key_line_mentions:
  assumes "key_ok key" "plain_value v" "apart k key"
  shows "\<not> mentions k (key @ 61 # v)"
proof -
  have "\<not> js_includes (key @ 61 # v) (k @ [61])"
  proof
    assume "js_includes (key @ 61 # v) (k @ [61])"
    then obtain a b where "key @ 61 # v = (a @ k) @ 61 # b" by (auto simp: js_includes_iff)
    moreover have "61 \<notin> set key" "61 \<notin> set v"
      using key_ok_chars[OF assms(1)] assms(2) by (auto simp: plain_value_def list_all_iff)
    ultimately have "key = a @ k" by (metis append_Cons_eq_iff in_set_conv_decomp append_eq_Cons_conv Un_iff set_append list.set_intros(1))
    then show False using assms(3) by (auto simp: apart_def ends_with_def starts_with_iff)
  qed
  moreover have "env_line (key @ 61 # v) = Some (key, v)"
    using env_line_write[OF assms(1), of v] assms(2) by (simp add: plain_value_def)
  ultimately show ?thesis using assms(3) by (auto simp: mentions_def assigns_def apart_def)
qed


lemma upsert_reads:
  assumes "lf_only out" "key_ok key" "key \<noteq> js ''__proto__''" "plain_value v" "mention_count key out \<le> 1"
  shows "map_of (parseEnvFile (upsert_line key v out)) key = Some v"
proof -
  have v: "10 \<notin> set v" "env_line (key @ 61 # v) = Some (key, v)"
    using assms(4) env_line_write[OF assms(2), of v] by (auto simp: plain_value_def list_all_iff js_eol_def)
  show ?thesis
  proof (cases "rx_test False (topic_line_re key) out")
    case True
    obtain a b c where 1: "js_split1 10 out = a @ b @ c" "\<exists>l \<in> set b. mentions key l"
      and 2: "js_split1 10 (upsert_line key v out) = a @ [key @ 61 # v] @ c"
      by (rule upsert_replaces[OF True assms(1,2) v(1)])
    from 1(2) have "filter (mentions key) b \<noteq> []" by (auto simp: filter_empty_conv)
    then have "filter (mentions key) c = []"
      using assms(5) unfolding mention_count_def 1(1) by (cases "filter (mentions key) b") auto
    then have "list_all (\<lambda>l. \<not> assigns key l) c" by (auto simp: list_all_iff filter_empty_conv mentions_def)
    then show ?thesis using 2 v(2) assms(3) by (intro parse_last_assignment[of _ a "key @ 61 # v" c]) auto
  next
    case False
    have "\<not> assigns key []" by (simp add: assigns_def env_line_blank)
    then show ?thesis
      using upsert_appends[OF False assms(2) v(1)] v(2) assms(3)
      by (intro parse_last_assignment[of _ "js_split1 10 (js_trimEnd out)" "key @ 61 # v" "[[]]"]) auto
  qed
qed

lemma upsert_others:
  assumes "lf_only out" "key_ok key" "plain_value v" "k \<noteq> key"
  shows "map_of (parseEnvFile (upsert_line key v out)) k = map_of (parseEnvFile out) k"
proof -
  have v: "10 \<notin> set v" and l: "\<not> assigns k (key @ 61 # v)"
    using assms env_line_write[OF assms(2), of v] by (auto simp: plain_value_def list_all_iff js_eol_def assigns_def)
  show ?thesis
  proof (cases "rx_test False (topic_line_re key) out")
    case True
    obtain a b c where 1: "js_split1 10 out = a @ b @ c" "js_split1 10 (upsert_line key v out) = a @ [key @ 61 # v] @ c"
      "\<forall>k l. l \<in> set b \<longrightarrow> k \<noteq> key \<longrightarrow> \<not> assigns k l"
      by (rule upsert_replaces[OF True assms(1,2) v])
    have "filter (assigns k) b = []" using 1(3) assms(4) by (auto simp: filter_empty_conv)
    then show ?thesis
      unfolding parseEnvFile_lines 1(1,2) using l
      by (subst (1 2) fold_env_assign_filter) simp
  next
    case False
    have "\<not> assigns k []" by (simp add: assigns_def env_line_blank)
    then have "map_of (parseEnvFile (upsert_line key v out)) k = map_of (fold env_assign (js_split1 10 (js_trimEnd out)) []) k"
      unfolding parseEnvFile_lines upsert_appends[OF False assms(2) v] using l
      by (subst (1 2) fold_env_assign_filter) simp
    then show ?thesis by (simp add: parse_trimEnd)
  qed
qed

lemma upsert_mentions:
  assumes "lf_only out" "key_ok key" "plain_value v" "apart k key" "key_ok k"
  shows "mention_count k (upsert_line key v out) \<le> mention_count k out"
proof -
  have v: "10 \<notin> set v" using assms by (auto simp: plain_value_def list_all_iff js_eol_def)
  note l = key_line_mentions[OF assms(2,3,4)]
  show ?thesis
  proof (cases "rx_test False (topic_line_re key) out")
    case True
    obtain a b c where 1: "js_split1 10 out = a @ b @ c" "js_split1 10 (upsert_line key v out) = a @ [key @ 61 # v] @ c"
      by (rule upsert_replaces[OF True assms(1,2) v])
    show ?thesis unfolding mention_count_def 1 using l by simp
  next
    case False
    have "\<not> mentions k []" using key_ok_chars[OF assms(5)] by (simp add: mentions_def assigns_def env_line_blank)
    then have "mention_count k (upsert_line key v out) = mention_count k (js_trimEnd out)"
      unfolding mention_count_def upsert_appends[OF False assms(2) v] using l by simp
    then show ?thesis using mention_count_trimEnd[of k out] by simp
  qed
qed

lemma upsert_lf_only:
  assumes "lf_only out" "key_ok key" "plain_value v"
  shows "lf_only (upsert_line key v out)"
proof -
  have k: "list_all (\<lambda>c. js_eol c \<longrightarrow> c = 10) (key @ 61 # v)"
    using key_ok_chars[OF assms(2)] assms(3) by (auto simp: list_all_iff plain_value_def js_eol_def js_space_def)
  have "lf_only (js_trimEnd out)" using trimEnd_split[of out] assms(1) by (metis lf_only_def list_all_append)
  moreover have "lf_only pre \<and> lf_only post" if "rx_exec False (topic_line_re key) out = Some (pre, m, cs, post)" for pre m cs post
    using topic_match[OF that] assms(1) by (auto simp: lf_only_def)
  ultimately show ?thesis
    using k assms(1) by (auto simp: upsert_line_def rx_replace_def lf_only_def js_eol_def split: option.splits)
qed

text \<open>Writing a list of keys one after the other.\<close>

lemma apart_distinct: "sorted_wrt (\<lambda>a b. apart (fst b) (fst a)) kvs \<Longrightarrow> distinct (map fst kvs)"
  by (induction kvs) (auto simp: apart_def)

lemma upserts_read:
  assumes "lf_only out"
    and "list_all (\<lambda>(k, v). key_ok k \<and> k \<noteq> js ''__proto__'' \<and> plain_value v \<and> mention_count k out \<le> 1) kvs"
    and "sorted_wrt (\<lambda>a b. apart (fst b) (fst a)) kvs"
  shows "map_of (parseEnvFile (fold (\<lambda>(k, v). upsert_line k v) kvs out)) =
     map_of (parseEnvFile out) ++ map_of kvs"
  using assms
proof (induction kvs arbitrary: out)
  case (Cons kv kvs)
  obtain k v where kv: "kv = (k, v)" by (cases kv)
  let ?o = "upsert_line k v out"
  have p: "key_ok k" "k \<noteq> js ''__proto__''" "plain_value v" "mention_count k out \<le> 1"
    using Cons.prems(2) kv by auto
  have m: "list_all (\<lambda>(k, v). key_ok k \<and> k \<noteq> js ''__proto__'' \<and> plain_value v \<and> mention_count k ?o \<le> 1) kvs"
    using Cons.prems(2,3) kv upsert_mentions[OF Cons.prems(1) p(1,3)]
    by (fastforce simp: list_all_iff intro: le_trans)
  have "map_of (parseEnvFile (fold (\<lambda>(k, v). upsert_line k v) kvs ?o)) = map_of (parseEnvFile ?o) ++ map_of kvs"
    using Cons.IH[OF upsert_lf_only[OF Cons.prems(1) p(1,3)] m] Cons.prems(3) by simp
  moreover have "map_of (parseEnvFile ?o) = (map_of (parseEnvFile out))(k \<mapsto> v)"
    using upsert_reads[OF Cons.prems(1) p(1-4)] upsert_others[OF Cons.prems(1) p(1,3)] by (auto simp: fun_eq_iff)
  moreover have "map_of kvs k = None" using apart_distinct[OF Cons.prems(3)] kv by (simp add: map_of_eq_None_iff)
  ultimately show ?case using kv by (auto simp: fun_eq_iff map_add_def split: option.splits)
qed simp


lemma comment_needs_hash:
  assumes "rx_test False COMMENT_RE s" shows "35 \<in> set s"
proof -
  have "rx_ok COMMENT_RE" by (simp add: COMMENT_RE_def plus1_def sp_def lit_def)
  then obtain a b q u where 1: "s = a @ b" "((rev a, b), (q, u)) \<in> rx_lang False COMMENT_RE"
    using assms by (auto simp: rx_test_iff)
  then obtain p t where 2: "((rev a, b), (p, t)) \<in> rx_lang False (plus1 sp)" "((p, t), (q, u)) \<in> rx_lang False (lit [35])"
    unfolding COMMENT_RE_def sq.simps rx_lang.simps relcomp_unfold by auto
  from rx_lang_suffix[OF 2(1)] obtain m where "b = m @ t" by blast
  then show ?thesis using 1(1) 2(2) by (simp add: lang_lit)
qed

lemma show_nat_plain: "plain_value (show_nat n)"
proof -
  have d: "js_digit c \<Longrightarrow> \<not> js_space c \<and> c \<noteq> 35 \<and> c \<notin> {34, 39} \<and> \<not> js_eol c \<and> c \<noteq> 61" for c
    by (auto simp: js_digit_def js_space_def js_eol_def)
  have "js_trim (show_nat n) = show_nat n" using d show_nat_digits by (intro js_trim_id) blast
  moreover have "\<not> rx_test False COMMENT_RE (show_nat n)" using comment_needs_hash d show_nat_digits by blast
  moreover have "\<not> quote_first (show_nat n)"
    using d show_nat_digits[of "hd (show_nat n)" n] by (auto simp: quote_first_def)
  ultimately show ?thesis using d show_nat_digits[of _ n] by (auto simp: plain_value_def env_write_def list_all_iff)
qed

definition topic_lines :: "(rat \<Rightarrow> jstr) \<Rightarrow> topic_ids \<Rightarrow> (jstr \<times> jstr) list" where
  "topic_lines digits ids =
     concat (map (\<lambda>k. case nonzero_id (ids k) of None \<Rightarrow> [] | Some i \<Rightarrow> [(js (topic_env_key k), num_str digits i)]) KIND_ORDER)"

lemma apply_fold: "applyTopicIdsToEnvText digits t ids = fold (\<lambda>(k, v). upsert_line k v) (topic_lines digits ids) t"
  by (simp add: applyTopicIdsToEnvText_def topic_lines_def KIND_ORDER_def split: option.splits)

lemma topic_keys_apart: "k \<noteq> k' \<Longrightarrow> apart (js (topic_env_key k)) (js (topic_env_key k'))"
  by (cases k; cases k') (simp_all add: apart_def ends_with_def topic_env_key_def js_def)

lemma topic_key_ok: "key_ok (js (topic_env_key k)) \<and> js (topic_env_key k) \<noteq> js ''__proto__''"
  by (cases k) (simp_all add: topic_env_key_def js_def key_ok_def js_word_def js_letter_def js_digit_def)

lemma topic_lines_get:
  "map_of (topic_lines digits ids) (js (topic_env_key k)) = map_option (num_str digits) (nonzero_id (ids k))"
proof -
  have "js (topic_env_key a) = js (topic_env_key b) \<longleftrightarrow> a = b" for a b
    using topic_keys_apart[of a b] by (auto simp: apart_def)
  then show ?thesis
    by (cases k) (auto simp: topic_lines_def KIND_ORDER_def split: option.splits)
qed

text \<open>
  What the bootstrap writes is what the next start reads. For a text with plain line feeds in which each topic
  key is named on at most one line, writing the topic numbers and reading the file again gives every known topic
  its number, and every other variable the value it had.
\<close>

theorem topic_ids_roundtrip:
  assumes "lf_only envText" "list_all (\<lambda>k. mention_count (js (topic_env_key k)) envText \<le> 1) KIND_ORDER"
    and "list_all (\<lambda>k. case ids k of Some n \<Rightarrow> n < 10 ^ 21 | None \<Rightarrow> True) KIND_ORDER"
  shows "map_of (parseEnvFile (applyTopicIdsToEnvText digits envText (\<lambda>k. map_option of_nat (ids k)))) =
     map_of (parseEnvFile envText) ++ map_of (topic_lines digits (\<lambda>k. map_option of_nat (ids k)))
   \<and> map_of (topic_lines digits (\<lambda>k. map_option of_nat (ids k))) (js (topic_env_key kind)) =
     (case ids kind of Some n \<Rightarrow> if n = 0 then None else Some (show_nat n) | None \<Rightarrow> None)"
proof -
  have b: "ids k = Some n \<Longrightarrow> n < 10 ^ 21" for k n
    using assms(3) by (cases k) (auto simp: KIND_ORDER_def)
  have s: "num_str digits (of_nat n) = show_nat n" if "n < 10 ^ 21" for n
  proof -
    have "(of_nat n :: rat) < of_nat (10 ^ 21)" using that by (simp only: of_nat_less_iff)
    then show ?thesis by (simp add: num_str_def show_int_def)
  qed
  have m: "mention_count (js (topic_env_key k)) envText \<le> 1" for k
    using assms(2) by (cases k) (auto simp: KIND_ORDER_def)
  let ?ids = "\<lambda>k. map_option of_nat (ids k)"
  have one: "(key, v) \<in> set (topic_lines digits ?ids) \<Longrightarrow> \<exists>k n. key = js (topic_env_key k) \<and> v = show_nat n" for key v
    using b s by (auto simp: topic_lines_def nonzero_id_def split: option.splits if_splits)
  have srt: "sorted_wrt (\<lambda>a b. apart (fst b) (fst a)) (topic_lines digits ?ids)"
    using topic_keys_apart by (auto simp: topic_lines_def KIND_ORDER_def split: option.splits)
  moreover have "list_all (\<lambda>(k, v). key_ok k \<and> k \<noteq> js ''__proto__'' \<and> plain_value v \<and> mention_count k envText \<le> 1) (topic_lines digits ?ids)"
    using topic_key_ok m show_nat_plain by (fastforce simp: list_all_iff dest!: one)
  ultimately have "map_of (parseEnvFile (applyTopicIdsToEnvText digits envText ?ids)) =
      map_of (parseEnvFile envText) ++ map_of (topic_lines digits ?ids)"
    unfolding apply_fold by (intro upserts_read[OF assms(1)])
  moreover have "map_of (topic_lines digits ?ids) (js (topic_env_key kind)) =
      (case ids kind of Some n \<Rightarrow> if n = 0 then None else Some (show_nat n) | None \<Rightarrow> None)"
    using b[of kind] s by (auto simp: topic_lines_get nonzero_id_def split: option.splits)
  ultimately show ?thesis by blast
qed


definition demo_topic_ids :: "topic_kind \<Rightarrow> nat option" where
  "demo_topic_ids k = (if k = TRfq then Some 7 else None)"

lemma topic_ids_roundtrip_witness:
  "map_of (parseEnvFile (applyTopicIdsToEnvText (\<lambda>_. []) (js ''A=1'') (\<lambda>k. map_option of_nat (demo_topic_ids k)))) =
     map_of (parseEnvFile (js ''A=1'')) ++ map_of (topic_lines (\<lambda>_. []) (\<lambda>k. map_option of_nat (demo_topic_ids k)))
   \<and> map_of (topic_lines (\<lambda>_. []) (\<lambda>k. map_option of_nat (demo_topic_ids k))) (js (topic_env_key TRfq)) =
     (case demo_topic_ids TRfq of Some n \<Rightarrow> if n = 0 then None else Some (show_nat n) | None \<Rightarrow> None)"
proof (rule topic_ids_roundtrip)
  show "lf_only (js ''A=1'')" by (simp add: lf_only_def js_def js_eol_def)
  have a: "\<not> assigns k (js ''A=1'')" if "k \<noteq> js ''A''" for k
    using that env_line_key[of "js ''A''" "[]" "js ''1''"]
    by (auto simp: assigns_def key_ok_def js_letter_def js_def)
  have "mention_count (js (topic_env_key k)) (js ''A=1'') \<le> 1" for k
    using a[of "js (topic_env_key k)"]
    by (cases k) (simp_all add: mention_count_def mentions_def topic_env_key_def js_def)
  then show "list_all (\<lambda>k. mention_count (js (topic_env_key k)) (js ''A=1'') \<le> 1) KIND_ORDER"
    by (simp add: list_all_iff)
  show "list_all (\<lambda>k. case demo_topic_ids k of Some n \<Rightarrow> n < 10 ^ 21 | None \<Rightarrow> True) KIND_ORDER"
    by (simp add: KIND_ORDER_def demo_topic_ids_def)
qed

text \<open>
  With carriage returns before the line feeds the line feed in front of the key's line is swallowed: the line
  before it and the key's line become one.
\<close>

lemma crlf_lines_merged:
  "upsert_line (js ''K'') (js ''7'') (js ''A=1'' @ [13, 10] @ js ''K=2'') = js ''A=1'' @ [13] @ js ''K=7''"
  by (simp add: upsert_line_def rx_replace_def topic_line_re_def js_def rx_eval)

text \<open>A commented line of the key is taken first, and an assignment after it stays and wins.\<close>

lemma later_assignment_wins:
  "map_of (parseEnvFile (upsert_line (js ''K'') (js ''7'') (js ''#K=1'' @ [10] @ js ''K=2''))) (js ''K'') = Some (js ''2'')"
proof -
  have u: "upsert_line (js ''K'') (js ''7'') (js ''#K=1'' @ [10] @ js ''K=2'') = js ''K=7'' @ [10] @ js ''K=2''"
    by (simp add: upsert_line_def rx_replace_def topic_line_re_def js_def rx_eval)
  have "plain_value (show_nat 2)" by (rule show_nat_plain)
  moreover have "show_nat 2 = js ''2''" by (subst show_nat.simps) (simp add: js_def)
  ultimately have "env_line (js ''K'' @ 61 # js ''2'') = Some (js ''K'', js ''2'')"
    using env_line_write[of "js ''K''" "js ''2''"] by (simp add: plain_value_def key_ok_def js_letter_def js_def)
  then show ?thesis unfolding u
    by (intro parse_last_assignment[of _ "[js ''K=7'']" "js ''K=2''" "[]"]) (simp_all add: js_def)
qed

subsection \<open>Topics are looked for before they are made\<close>

lemma nonzero_create: "create_topic client bot' api kind = Some i \<Longrightarrow> i \<noteq> 0"
  by (auto simp: create_topic_def createTopicViaBot_def nonzero_id_def split: option.splits if_splits numval.splits)

lemma find_topic_None:
  "find_topic m k = None \<longleftrightarrow>
     nonzero_id (m (normalizeTitle (STAFF_TOPIC_TITLES k))) = None \<and> (\<forall>a \<in> set (topic_aliases k). nonzero_id (m a) = None)"
proof -
  have "(case find P xs of Some a \<Rightarrow> f a | None \<Rightarrow> None) = None \<longleftrightarrow> (\<forall>a \<in> set xs. f a = None)"
    if "P = (\<lambda>a. f a \<noteq> None)" for P and f :: "jstr \<Rightarrow> rat option" and xs
    using that by (induction xs) auto
  then show ?thesis by (auto simp: find_topic_def split: option.splits)
qed

lemma find_topic_mono:
  assumes "\<And>t. nonzero_id (m' t) = None \<Longrightarrow> nonzero_id (m t) = None" "find_topic m' k = None"
  shows "find_topic m k = None"
  using assms by (simp add: find_topic_None)

lemma seed_None: "seed_ids env ids k = None \<longleftrightarrow> envTopicId env k = None \<and> ids k = None"
  by (auto simp: seed_ids_def split: option.splits)

lemma fold_ensure_asked:
  assumes "\<And>t. nonzero_id (m t) = None \<Longrightarrow> nonzero_id (m0 t) = None"
    and "list_all (\<lambda>k. ids0 k = None \<and> find_topic m0 k = None) asked" "\<forall>k. ids k = None \<longrightarrow> ids0 k = None"
  shows "list_all (\<lambda>k. ids0 k = None \<and> find_topic m0 k = None)
    (snd (snd (fold (ensure_kind client bot' api) ks (ids, m, asked))))"
  using assms
proof (induction ks arbitrary: ids m asked)
  case (Cons k ks)
  obtain ids1 m1 asked1 where e: "ensure_kind client bot' api k (ids, m, asked) = (ids1, m1, asked1)"
    by (cases "ensure_kind client bot' api k (ids, m, asked)")
  have 1: "nonzero_id (m1 t) = None \<Longrightarrow> nonzero_id (m t) = None" for t
    using e nonzero_create[of client bot' api k]
    by (auto simp: ensure_kind_def nonzero_id_def split: if_splits option.splits)
  have 2: "\<forall>j. ids1 j = None \<longrightarrow> ids j = None"
    using e by (auto simp: ensure_kind_def split: if_splits option.splits)
  have "find_topic m k = None \<Longrightarrow> find_topic m0 k = None" using find_topic_mono Cons.prems(1) by blast
  then have 3: "list_all (\<lambda>k. ids0 k = None \<and> find_topic m0 k = None) asked1"
    using e Cons.prems(2,3) by (auto simp: ensure_kind_def split: if_splits option.splits)
  show ?case using Cons.IH[of m1 asked1 ids1] 1 2 3 Cons.prems(1,3) e by auto
qed simp

text \<open>The listing a run works with: the first one, or the second when the first fails; none without an account.\<close>

definition listing :: "bool \<Rightarrow> forum_api \<Rightarrow> (rat \<times> jstr) list" where
  "listing client api =
     (if client then (case fa_list api 0 of Some l \<Rightarrow> l | None \<Rightarrow> (case fa_list api 1 of Some l \<Rightarrow> l | None \<Rightarrow> [])) else [])"

text \<open>Without the number zero in the listing a title that \<open>by_title\<close> does not know is not listed.\<close>

lemma by_title_None:
  assumes "\<forall>(i, t) \<in> set l. i \<noteq> 0" "nonzero_id (by_title l x) = None"
  shows "\<forall>(i, t) \<in> set l. normalizeTitle t \<noteq> x"
proof -
  have "by_title l x = None"
  proof (rule ccontr)
    assume "by_title l x \<noteq> None"
    then obtain i where i: "by_title l x = Some i" by blast
    then have "(x, i) \<in> set (map (\<lambda>(i, t). (normalizeTitle t, i)) l)" using map_of_SomeD unfolding by_title_def by fastforce
    then show False using assms i by (auto simp: nonzero_id_def)
  qed
  then show ?thesis unfolding by_title_def map_of_eq_None_iff by force
qed

text \<open>
  C19. A topic is created only when it is missing. Whatever Telegram answers, a kind whose creation \<open>ensureStaffTopics\<close> asks for
  has no number in the environment and none from an earlier run, and among the topics the user account was shown there is
  none whose title, with blanks and letter case evened out, is the title of the kind or one of its other names. (Without a
  user account nothing is listed, and a bot then creates topics the forum already has: \<open>bot_start_creates_all\<close>.)
\<close>

theorem only_missing_topics_created:
  assumes "\<forall>(i, t) \<in> set (listing client api). i \<noteq> 0" "k \<in> set (fst (snd (ensureStaffTopics env client bot' api st)))"
  shows "envTopicId env k = None \<and> ts_ids st k = None
    \<and> (\<forall>(i, t) \<in> set (listing client api). normalizeTitle t \<notin> set (normalizeTitle (STAFF_TOPIC_TITLES k) # topic_aliases k))"
proof -
  have "list_all (\<lambda>k. seed_ids env (ts_ids st) k = None \<and> find_topic (by_title l) k = None)
      (snd (snd (fold (ensure_kind client bot' api) KIND_ORDER (seed_ids env (ts_ids st), by_title l, []))))" for l
    by (rule fold_ensure_asked) auto
  then have "list_all (\<lambda>k. envTopicId env k = None \<and> ts_ids st k = None \<and> find_topic (by_title l) k = None)
      (snd (snd (fold (ensure_kind client bot' api) KIND_ORDER (seed_ids env (ts_ids st), by_title l, []))))" for l
    by (simp add: seed_None)
  then have "list_all (\<lambda>k. envTopicId env k = None \<and> ts_ids st k = None \<and> find_topic (by_title (listing client api)) k = None)
      (fst (snd (ensureStaffTopics env client bot' api st)))"
    by (auto simp: ensureStaffTopics_def Let_def listing_def case_prod_beta split: option.splits)
  then have k: "envTopicId env k = None" "ts_ids st k = None" "find_topic (by_title (listing client api)) k = None"
    using assms(2) by (auto simp: list_all_iff)
  then have z: "nonzero_id (by_title (listing client api) x) = None"
    if "x \<in> set (normalizeTitle (STAFF_TOPIC_TITLES k) # topic_aliases k)" for x
    using that by (auto simp: find_topic_None)
  have "normalizeTitle t \<noteq> x" if "(i, t) \<in> set (listing client api)" "x \<in> set (normalizeTitle (STAFF_TOPIC_TITLES k) # topic_aliases k)" for i t x
    using by_title_None[OF assms(1) z[OF that(2)]] that(1) by blast
  then show ?thesis using k by blast
qed

definition one_topic_api :: forum_api where
  "one_topic_api = \<lparr>fa_list = \<lambda>_. Some [(5, js ''General'')], fa_updates = \<lambda>_. None, fa_relist = \<lambda>_. None, fa_bot_create = \<lambda>_. None\<rparr>"

lemma only_missing_topics_created_witness:
  "ts_ids \<lparr>ts_ids = \<lambda>_. None, ts_ready = False, ts_promise = None\<rparr> TRfq = None
    \<and> TRfq \<in> set (fst (snd (ensureStaffTopics [(js ''TG_STAFF_CHAT_ID'', js ''-5'')] True False one_topic_api
        \<lparr>ts_ids = \<lambda>_. None, ts_ready = False, ts_promise = None\<rparr>)))"
proof -
  let ?env = "[(js ''TG_STAFF_CHAT_ID'', js ''-5'')]" and ?st = "\<lparr>ts_ids = \<lambda>_. None, ts_ready = False, ts_promise = None\<rparr>"
  have l: "listing True one_topic_api = [(5, js ''General'')]" by (simp add: listing_def one_topic_api_def)
  have f: "forumEnabled ?env" by (simp add: forumEnabled_def switched_on_def env_get_def js_text_eval js_or_def)
  have "js_unsigned_dec (js ''5'') = Some 5" using fl_of_int[of 5] by (simp add: js_unsigned_dec_def js_def digit_val_def js_digit_def)
  then have c: "escalationChatId ?env \<noteq> None"
    by (simp add: escalationChatId_def env_get_def js_text_eval js_or_def js_Number_def starts_with.simps)
  have e: "envTopicId ?env j = None" for j by (cases j) (simp_all add: envTopicId_def env_trimmed_def env_get_def topic_env_key_def js_text_eval js_or_def)
  have n: "normalizeTitle (js ''General'') = js ''general''" by (simp add: normalizeTitle_def js_text_eval)
  define m where "m = by_title [(5, js ''General'')]"
  have g: "m x = (if x = js ''general'' then Some 5 else None)" for x by (simp add: m_def by_title_def n)
  have c0: "create_topic True False one_topic_api j = None" for j
    by (simp add: create_topic_def createTopicViaUser_def one_topic_api_def nonzero_id_def)
  have u: "normalizeTitle (STAFF_TOPIC_TITLES TGeneral) \<noteq> js ''general''"
    by (simp add: normalizeTitle_def STAFF_TOPIC_TITLES_def ru_eval js_text_eval)
  have v: "find (\<lambda>a. nonzero_id (m a) \<noteq> None) (topic_aliases TGeneral) = Some (js ''general'')"
    by (simp only: g) (simp add: topic_aliases_def nonzero_id_def ru_eval js_def)
  have t: "find_topic m TGeneral = Some 5" unfolding find_topic_def v using u by (simp add: g nonzero_id_def)
  have o: "find_topic m j = None" if "j \<in> {TEscalations, TRfq, TCoaching}" for j
    using that by (auto simp: find_topic_None g topic_aliases_def nonzero_id_def STAFF_TOPIC_TITLES_def normalizeTitle_def ru_eval js_text_eval)
  have k: "fold (ensure_kind True False one_topic_api) KIND_ORDER (\<lambda>_. None, m, []) = ([TGeneral \<mapsto> 5], m, [TEscalations, TRfq, TCoaching])"
    by (simp add: KIND_ORDER_def ensure_kind_def t o c0)
  have s: "seed_ids ?env (\<lambda>_. None) = (\<lambda>_. None)" using e by (simp add: seed_ids_def)
  have a: "fa_list one_topic_api 0 = Some [(5, js ''General'')]" by (simp add: one_topic_api_def)
  obtain r where "escalationChatId ?env = Some r" using c by blast
  then have "TRfq \<in> set (fst (snd (ensureStaffTopics ?env True False one_topic_api ?st)))"
    using f by (simp add: ensureStaffTopics_def Let_def a s k flip: m_def)
  with only_missing_topics_created[OF _ this] l show ?thesis by simp
qed

text \<open>
  Without a user account the run sees no listing: with a bot that may create topics and no numbers in the
  environment every start asks for all four topics again, whatever the forum already holds.
\<close>

lemma bot_start_creates_all:
  assumes "forumEnabled env" "escalationChatId env \<noteq> None" "ts_promise st = None" "ts_ids st = (\<lambda>_. None)"
    and "\<And>k. envTopicId env k = None" "\<And>t. fa_bot_create api t = Some (Num i)" "0 < i"
  shows "fst (snd (ensureStaffTopics env False True api st)) = KIND_ORDER"
proof -
  have c: "create_topic False True api k = Some i" for k
    using assms(6,7) by (simp add: create_topic_def createTopicViaBot_def)
  have n: "normalizeTitle (STAFF_TOPIC_TITLES k) = hd (topic_aliases k)" for k
    by (cases k) (simp_all add: normalizeTitle_def STAFF_TOPIC_TITLES_def topic_aliases_def ru_eval js_text_eval)
  have s: "seed_ids env (ts_ids st) = (\<lambda>_. None)" using assms(4,5) by (simp add: seed_ids_def)
  obtain r where "escalationChatId env = Some r" using assms(2) by blast
  then show ?thesis
    using assms(1,3) c
    by (simp add: ensureStaffTopics_def Let_def s by_title_def KIND_ORDER_def ensure_kind_def find_topic_def n
        topic_aliases_def nonzero_id_def ru_eval js_def)
qed

text \<open>One number in the environment is enough to end the search: the remaining topics are not looked for again.\<close>

lemma partial_env_ends_search:
  assumes "forumEnabled env" "escalationChatId env \<noteq> None" "ts_promise st = None" "envTopicId env k \<noteq> None"
    and "ensureStaffTopics env False False api st = (m, asked, st')"
  shows "ensureStaffTopics env True bot2 api2 st' = (m, [], st')"
proof -
  have keep: "ids j \<noteq> None \<Longrightarrow> fst (fold (ensure_kind False False api) ks (ids, t, a)) j \<noteq> None" for j ks ids t a
  proof (induction ks arbitrary: ids t a)
    case (Cons x ks)
    obtain i1 t1 a1 where e: "ensure_kind False False api x (ids, t, a) = (i1, t1, a1)"
      by (cases "ensure_kind False False api x (ids, t, a)")
    then have "i1 j \<noteq> None" using Cons.prems by (auto simp: ensure_kind_def split: if_splits option.splits)
    then show ?case using Cons.IH e by simp
  qed simp
  have "seed_ids env (ts_ids st) k \<noteq> None" using assms(4) by (auto simp: seed_ids_def)
  from keep[of "seed_ids env (ts_ids st)" k KIND_ORDER "by_title []" "[]", OF this]
  have "some_topic (fst (fold (ensure_kind False False api) KIND_ORDER (seed_ids env (ts_ids st), by_title [], [])))"
    by (cases k) (auto simp: some_topic_def KIND_ORDER_def)
  then have "ts_promise st' = Some m"
    using assms by (auto simp: ensureStaffTopics_def Let_def case_prod_beta)
  then show ?thesis using assms(1) by (simp add: ensureStaffTopics_def)
qed

text \<open>A reply goes where the question was asked, and a known thread names its topic.\<close>

lemma reply_stays_in_thread: "0 < t \<Longrightarrow> threadIdForReply env ids (Some t) intent = Some t"
  by (simp add: threadIdForReply_def)

lemma topic_thread_roundtrip:
  assumes "getStaffTopicId env ids k = Some t" "t \<noteq> 0"
    and "\<And>j. getStaffTopicId env ids j = Some t \<Longrightarrow> j = k"
  shows "resolveTopicKindByThreadId env ids (Some t) = Some k"
proof -
  have "find (\<lambda>j. getStaffTopicId env ids j = Some t) KIND_ORDER = Some k"
    using assms(1,3) by (cases k) (auto simp: KIND_ORDER_def)
  then show ?thesis using assms(2) by (simp add: resolveTopicKindByThreadId_def)
qed

end
