(* ===== verification/StaffPeer.thy ===== *)
theory StaffPeer
  imports StaffTopics
begin

text \<open>
  What managers write to the robot (\<open>apps/tg-gateway/src/staffPeer.ts\<close>): the deal a message is about, the operations
  hint it holds, its intent, whether the robot listens at all, whether a hint may send requests to suppliers and to
  which open deals it applies. The expressions are data of theory Regex. The metadata of a hint is a record of the
  keys the program writes and reads.
\<close>

subsection \<open>Words\<close>

definition dotted_opt :: rx where "dotted_opt = sq [opt (ll ''.''), star sp]"
definition cycy_rx :: rx where
  "cycy_rx = sq [ll ''cy'', opt (Cls False ((46, 46) # (45, 45) # space_ranges)), ll ''cy'']"
definition sajsaj_rx :: rx where "sajsaj_rx = sq [rr ''saj'', opt dot, rr ''saj'']"
definition pszhvs_word :: rx where
  "pszhvs_word = sq [rr ''p'', dotted_opt, rr ''s'', dotted_opt, rr ''v'', dotted_opt, rr ''w'', dotted_opt, rr ''s'']"
definition rail_sea_rx :: rx where
  "rail_sea_rx = alts [sq [rr ''vd'', opt (ll ''+''), star sp, rr ''more''], sq [ll ''rail'', opt (ll ''+''), star sp, ll ''sea'']]"
definition raschet_rx :: rx where "raschet_rx = sq [rr ''ras~'', yo, rr ''t'']"

definition hex_n :: "nat \<Rightarrow> rx" where "hex_n n = rep_to n n (Cls False [(48, 57), (97, 102)])"
definition uuid_rx :: rx where
  "uuid_rx = sq [hex_n 8, ll ''-'', hex_n 4, ll ''-'', hex_n 4, ll ''-'', hex_n 4, ll ''-'', hex_n 12]"
definition UUID_RE :: rx where "UUID_RE = sq [Wb, uuid_rx, Wb]"
definition SHORT_ID_RE :: rx where
  "SHORT_ID_RE = sq [Wb, alts [sq [rr ''sdelk'', one (ru ''aiue'')], ll ''deal'', ll ''uuid'', ll ''id''],
     star (Cls False ((58, 58) # (35, 35) # (8470, 8470) # (45, 45) # space_ranges)), Cap 1 (hex_n 8), Wb]"
definition BARE_ID_RE :: rx where
  "BARE_ID_RE = sq [Wb, Cap 1 (hex_n 8), opt (sq [ll ''-'', Rep True 4 None (Cls False [(48, 57), (97, 102), (45, 45)])]), Wb]"
definition DEAL_WORD_RE :: rx where
  "DEAL_WORD_RE = alts [rr ''sdelk'', ll ''deal'', ll ''uuid'', sq [Wb, ll ''id'', Wb], rr ''kart'']"

definition PSZHVS_OPS :: rx where
  "PSZHVS_OPS = alts [rr ''psvws'', pszhvs_word, rr ''`vsah'', sq [rr ''`v'', dotted_opt, rr ''sah''],
     sq [rr ''stanci'', one (ru ''qi''), star dot, rr ''port''], sq [rr ''port'', star dot, rr ''stanci''], rail_sea_rx,
     rr ''berdsk'', sq [rr ''nowosibirsk'', star dot, alts [rr ''korsakow'', rr ''sahalin'']],
     sq [rr ''korsakow'', star dot, alts [rr ''psvws'', rr ''vd'', rr ''more'']],
     sq [rr ''srawni'', star dot, alts [ll ''fesco'', rr ''fesko'', rr ''transkontejner'', rr ''kasko'', rr ''sasko'', ll ''dvlk'']]]"

definition GENERIC_OPS :: rx where
  "GENERIC_OPS = alts [rr ''sprosi'', rr ''ne pi{i'', rr ''ne gowori'', rr ''zapomni'', rr ''u~ti'', rr ''wsegda'',
     rr ''sna~ala'', rr ''predpo~it'', rr ''operator'', sq [rr ''shem'', one (ru ''auye'')], rr ''inkoterm'', rr ''inwojs'',
     rr ''wes'', rr ''gabarit'', cycy_rx, sajsaj_rx, rr ''fiting'', rr ''kontejner'', ll ''rfq'', sq [rr ''kp'', Wb],
     rr ''klientu ne'', rr ''ne nazywaj'', rr ''wedi tak'', rr ''delaj tak'', rr ''po sdelk'', raschet_rx, rr ''peres~itaj'',
     sq [rr ''prodolv'', star dot, alts [rr ''sdelk'', rr ''weden'']], rr ''po~t'',
     sq [ll ''@'', plus1 (Cls False (word_ranges @ [(46, 46), (45, 45)])), ll ''.'', plus1 wd],
     rr ''ne otprawl'', rr ''otprawl'', sq [rr ''tekst'', star sp, ll '':''], rr ''skorrektir'', rr ''obe sdelk'', rr ''oba zakaz'']"

definition EMAIL_RE :: rx where
  "EMAIL_RE = sq [plus1 (Cls False [(65, 90), (48, 57), (46, 46), (95, 95), (37, 37), (43, 43), (45, 45)]), ll ''@'',
     plus1 (Cls False [(65, 90), (48, 57), (46, 46), (45, 45)]), ll ''.'', Rep True 2 None (rng 65 90)]"

text \<open>Words that let a request go: "send", "may be sent", "approve RFQ", "send the request".\<close>

definition after_word :: rx where
  "after_word = alts [sp, Eol, one (js '',.!?'')]"
definition send_rx :: "rx list" where
  "send_rx = [sq [rr ''otprawl'', alts [rr ''qj'', rr ''i''], after_word], rr ''movno otpraw'', sq [rr ''odobri'', star sp, ll ''rfq'']]"
definition SEND_NOW_RE :: rx where
  "SEND_NOW_RE = alts (send_rx @ [sq [rr ''{l'', one (ru ''ie''), rr '' zapros'']])"
definition HOLD_RE :: rx where
  "HOLD_RE = alts [rr ''poka ne otpraw'', rr ''ne otprawlqj'', rr ''ne otprawlqem'', rr ''skorrektiruem po~t'',
     sq [rr ''pri{l'', alts [rr ''#m'', rr ''em''], rr '' po~t''], rr ''tekst skorrektir'', rr ''sej~as skorrektir'', rr ''vdi'',
     rr ''podovdi'', rr ''soglasuj so mnoj'', rr ''sprosi men'']"
definition UNHOLD_RE :: rx where "UNHOLD_RE = alts send_rx"

definition send_now :: "jstr \<Rightarrow> bool" where
  "send_now raw = rx_test True SEND_NOW_RE raw"

lemmas rx_shape = rr_def ll_def opt_def star_def plus1_def rep_to_def sp_def wd_def dg_def dot_def one_def anyc_def yo_def

subsection \<open>The deal a message is about\<close>

fun dedup_mails :: "jstr list \<Rightarrow> jstr list \<Rightarrow> jstr list" where
  "dedup_mails seen [] = []"
| "dedup_mails seen (raw # rs) =
     (let e = js_toLowerCase (js_trim raw)
      in if e = [] \<or> e \<in> set seen then dedup_mails seen rs else e # dedup_mails (e # seen) rs)"

definition extractEmails :: "jstr \<Rightarrow> jstr list" where
  "extractEmails t = dedup_mails [] (map fst (match_all True EMAIL_RE [] t))"

definition rx_group :: "bool \<Rightarrow> rx \<Rightarrow> nat \<Rightarrow> jstr \<Rightarrow> jstr option" where
  "rx_group i r n s = (case rx_exec i r s of None \<Rightarrow> None | Some (_, _, cs, _) \<Rightarrow> grp n cs)"

definition extractDealId :: "jstr \<Rightarrow> jstr option \<Rightarrow> jstr option" where
  "extractDealId t reply =
     (let blob = t @ [10] @ js_or reply []
      in case rx_exec True UUID_RE blob of Some (_, m, _, _) \<Rightarrow> Some (js_toLowerCase m)
      | None \<Rightarrow>
          (case rx_group True SHORT_ID_RE 1 blob of Some m \<Rightarrow> Some (js_toLowerCase m)
           | None \<Rightarrow>
               (case rx_group True BARE_ID_RE 1 blob of
                  Some m \<Rightarrow> if rx_test True DEAL_WORD_RE blob then Some (js_toLowerCase m) else None
                | None \<Rightarrow> None)))"

subsection \<open>Operations hints\<close>

record ops_route =
  rt_scheme :: "jstr option"
  rt_transport :: "jstr option"
  rt_corridor :: "jstr option"
  rt_origin :: "jstr option"
  rt_pickup :: "jstr option"
  rt_region :: "jstr option"
  rt_destination :: "jstr option"

definition no_route :: ops_route where
  "no_route = \<lparr>rt_scheme = None, rt_transport = None, rt_corridor = None, rt_origin = None, rt_pickup = None,
     rt_region = None, rt_destination = None\<rparr>"

record ops_meta =
  om_hint :: "jstr option"
  om_scheme :: "jstr option"
  om_operators :: "jstr list option"
  om_ask :: "jstr list option"
  om_do_not_say :: "jstr option"
  om_rfq_body :: "jstr option"
  om_body_override :: "jstr option"
  om_cargo_name :: "jstr option"
  om_weights :: "int list option"
  om_emails :: "jstr list option"
  om_emails_only :: "bool option"
  om_blocklist :: "jstr list option"
  om_hold :: "bool option"
  om_consult :: "bool option"
  om_require :: "bool option"
  om_apply_all :: "bool option"
  om_manager_gate :: "bool option"
  om_consignee :: "jstr option"

definition no_meta :: ops_meta where
  "no_meta = \<lparr>om_hint = None, om_scheme = None, om_operators = None, om_ask = None, om_do_not_say = None,
     om_rfq_body = None, om_body_override = None, om_cargo_name = None, om_weights = None, om_emails = None,
     om_emails_only = None, om_blocklist = None, om_hold = None, om_consult = None, om_require = None,
     om_apply_all = None, om_manager_gate = None, om_consignee = None\<rparr>"

record ops_patch =
  op_route :: "ops_route option"
  op_meta :: "ops_meta option"
  op_summary :: "jstr option"
  op_rerun :: "bool option"

definition extractStaffRfqBody :: "jstr \<Rightarrow> jstr option" where
  "extractStaffRfqBody raw =
     (let colon = Cls False [(58, 58), (65306, 65306)];
          given = js_trim (js_or (rx_group True (sq [alts [Bol, lit [10]], star sp, rr ''tekst'', star sp, colon, star sp, Cap 1 (plus1 anyc), Eol]) 1 raw) [])
      in if given \<noteq> [] then Some (take 4000 given)
         else if rx_test True (sq [rr ''mar{rut'', star sp, ll '':'']) raw
               \<and> rx_test True (alts [rr ''kontejner'', rr ''gruz'', rr ''wes'']) raw \<and> 40 \<le> length raw
         then Some (take 4000 (js_trim (rx_replace True (sq [Bol, star sp, rr ''tekst'', star sp, colon, star sp]) [] raw)))
         else None)"

definition OPERATOR_ALIASES :: "(rx \<times> jstr) list" where
  "OPERATOR_ALIASES =
     [(alts [ll ''fesco'', rr ''fesko''], js ''fesco''),
      (alts [rr ''transkontejner'', ll ''transcontainer'', rr ''trk''], js ''transcontainer''),
      (alts [sq [Wb, ll ''kasco'', Wb], rr ''kasko''], js ''kasco''),
      (alts [sq [Wb, ll ''sasco'', Wb], rr ''sasko''], js ''sasco''),
      (alts [sq [Wb, ll ''dvlk'', Wb], rr ''dwlk''], js ''dvlk'')]"

text \<open>The route of a hint with the notes made on the way.\<close>

definition hint_route :: "jstr \<Rightarrow> ops_route \<times> jstr option \<times> jstr list" where
  "hint_route raw =
     (let t = (\<lambda>r. rx_test True r raw);
          psz = t (alts [rr ''psvws'', pszhvs_word, rail_sea_rx, rr ''`vsah'']);
          r1 = (if psz then no_route\<lparr>rt_scheme := Some (js ''pszhvs_rail_sea''), rt_transport := Some (js ''container''),
                  rt_corridor := Some (js ''ru_domestic'')\<rparr> else no_route);
          s1 = (if psz then Some (js ''pszhvs_rail_sea'') else None);
          b1 = (if psz then [ru ''shema PSVWS (vd+more)''] else []);
          cy = t (alts [cycy_rx, sajsaj_rx]);
          s2 = (if cy then Some (js_or s1 (js ''cy_cy'')) else s1);
          r2 = (if cy then r1\<lparr>rt_scheme := Some (js_or (rt_scheme r1) (js ''cy_cy''))\<rparr> else r1);
          b2 = (if cy then b1 @ [ru ''shema '' @ js ''CY-CY''] else b1);
          be = t (rr ''berdsk'');
          r3 = (if be then r2\<lparr>rt_origin := Some (ru ''Berdsk''), rt_pickup := Some (ru ''Berdsk'')\<rparr> else r2);
          b3 = (if be then b2 @ [ru ''pogruzka Berdsk''] else b2);
          no = t (rr ''nowosibirsk'');
          r4 = (if no \<and> rt_origin r3 = None then r3\<lparr>rt_origin := Some (ru ''Nowosibirsk'')\<rparr>
                else if no then r3\<lparr>rt_region := Some (ru ''Nowosibirsk'')\<rparr> else r3);
          b4 = (if no \<and> rt_origin r3 = None then b3 @ [ru ''otprawka Nowosibirsk'']
                else if no then b3 @ [ru ''region Nowosibirsk''] else b3);
          ko = t (rr ''korsakow'');
          r5 = (if ko then r4\<lparr>rt_destination := Some (ru ''Korsakow'')\<rparr> else r4);
          b5 = (if ko then b4 @ [ru ''nazna~enie Korsakow''] else b4);
          vl = t (rr ''wladiwostok'') \<and> rt_destination r5 = None;
          r6 = (if vl then r5\<lparr>rt_destination := Some (ru ''Wladiwostok'')\<rparr> else r5);
          b6 = (if vl then b5 @ [ru ''nazna~enie Wladiwostok''] else b5)
      in (r6, s2, b6))"

definition preferred_operators :: "jstr \<Rightarrow> jstr list" where
  "preferred_operators raw =
     (let named = map snd (filter (\<lambda>(r, _). rx_test True r raw) OPERATOR_ALIASES)
      in if named = [] \<and> rx_test True (alts [rr ''srawni'', rr ''operator'', rr ''stawk'']) raw
            \<and> rx_test True (alts [rr ''psvws'', rr ''`vsah'', rr ''korsakow'']) raw
         then map js [''fesco'', ''transcontainer'', ''kasco'', ''sasco'', ''dvlk''] else named)"

definition ask_client :: "jstr \<Rightarrow> jstr list" where
  "ask_client raw =
     (if rx_test True (alts [sq [rr ''sprosi'', star dot, rr ''wes''], sq [rr ''uto~ni'', star dot, rr ''wes''],
            sq [rr ''wes'', star sp, alts [rr ''nuven'', rr ''obqzat'']]]) raw then [js ''weight_kg''] else [])
     @ (if rx_test True (alts [sq [rr ''sprosi'', star dot, rr ''inwojs''], sq [rr ''uto~ni'', star dot, rr ''inwojs''], rr ''nuven inwojs'']) raw
        then [js ''invoice''] else [])"

text \<open>The weights of a draft, in kilograms.\<close>

definition draft_weights :: "jstr \<Rightarrow> int list" where
  "draft_weights body =
     map (\<lambda>(_, cs). case js_Number (map (\<lambda>c. if c = 44 then 46 else c) (js_or (grp 1 cs) [])) of
            Num n \<Rightarrow> math_round (mul_js n 1000) | _ \<Rightarrow> 0)
       (match_all True (sq [Cap 1 (sq [plus1 dg, opt (sq [one (js ''.,''), plus1 dg])]), star sp, alts [rr ''t'', rr ''tonn'']]) [] body)"

definition draft_cargo :: "jstr \<Rightarrow> jstr option" where
  "draft_cargo body =
     (case rx_group True (sq [rr ''gruz'', star sp, opt (Cls False [(58, 58), (65306, 65306)]), star sp, Cap 1 (plus1 (Cls True [(10, 10)]))]) 1 body of
        Some c \<Rightarrow> text_or_none (js_trim c) | None \<Rightarrow> None)"

text \<open>\<open>indexOf\<close> and \<open>search\<close>: the first position, \<open>None\<close> for -1.\<close>

definition find_pos :: "(jstr \<Rightarrow> bool) \<Rightarrow> jstr \<Rightarrow> nat option" where
  "find_pos p s = find (\<lambda>i. p (drop i s)) [0..<Suc (length s)]"

definition rx_search :: "rx \<Rightarrow> jstr \<Rightarrow> nat option" where
  "rx_search r s = (case rx_exec True r s of None \<Rightarrow> None | Some (pre, _, _, _) \<Rightarrow> Some (length pre))"

definition only_allow :: "jstr \<Rightarrow> bool" where
  "only_allow raw \<longleftrightarrow>
     rx_test True (alts [rr ''tolxko na po~t'', rr ''otprawlqem tolxko'',
         sq [rr ''otpraw'', opt (alts [rr ''x'', rr ''itx'', rr ''lqem'']), rr '' tolxko''],
         sq [rr ''zapros'', opt (rr ''y''), rr '' na ras~et otprawlqem tolxko''],
         sq [rr ''na po~t'', one (ru ''uye''), star sp, ll '':'']]) raw
     \<or> (rx_test True (rr ''po~t'') raw \<and> rx_test True (rr ''tolxko'') raw)"

definition block_listed :: "jstr \<Rightarrow> bool" where
  "block_listed raw \<longleftrightarrow>
     rx_test True (alts [sq [rr ''na |ti po~ty'', star dot, alts [rr ''ne otpraw'', rr ''ne {l'']],
       sq [rr ''ne otprawlqem'', rep_to 0 80 anyc, ll ''@'']]) raw \<and> \<not> only_allow raw"

definition allowed_mails :: "jstr \<Rightarrow> jstr list \<Rightarrow> jstr list option" where
  "allowed_mails raw emails =
     (if only_allow raw \<or> (\<not> block_listed raw \<and> rx_test True (rr ''otpraw'') raw)
      then let low = js_toLowerCase raw;
               marker = rx_search (alts [rr ''tolxko na po~t'', rr ''otprawlqem tolxko'', rr ''tolxko na'', sq [rr ''po~ty'', star sp, ll '':'']]) low;
               allow = (if only_allow raw
                 then filter (\<lambda>e. case marker of None \<Rightarrow> True
                        | Some i \<Rightarrow> (case find_pos (\<lambda>u. starts_with u e) low of None \<Rightarrow> True | Some p \<Rightarrow> i \<le> p)) emails
                 else emails)
           in Some (if allow \<noteq> [] then allow else [last emails])
      else None)"

definition blocked_mails :: "jstr \<Rightarrow> jstr list \<Rightarrow> jstr list option \<Rightarrow> jstr list" where
  "blocked_mails raw emails allowed =
     (if block_listed raw \<or> rx_test True (rr ''na |ti po~ty sej~as ne otprawlqem'') raw
      then filter (\<lambda>e. e \<notin> set (case allowed of None \<Rightarrow> [] | Some a \<Rightarrow> a)) emails else [])"

definition list_or_none :: "'a list \<Rightarrow> 'a list option" where
  "list_or_none xs = (if xs = [] then None else Some xs)"

text \<open>The parts of a hint, from the trimmed message.\<close>

definition hint_allow :: "jstr \<Rightarrow> jstr list option" where
  "hint_allow raw = (if extractEmails raw = [] then None else allowed_mails raw (extractEmails raw))"

definition hint_block :: "jstr \<Rightarrow> jstr list" where
  "hint_block raw = (if extractEmails raw = [] then [] else blocked_mails raw (extractEmails raw) (hint_allow raw))"

definition hint_hold :: "jstr \<Rightarrow> bool" where
  "hint_hold raw \<longleftrightarrow> rx_test True HOLD_RE raw \<and> \<not> rx_test True UNHOLD_RE raw"

definition hold_so_far :: "jstr \<Rightarrow> bool option" where
  "hold_so_far raw = (if send_now raw then Some False else if hint_hold raw then Some True else None)"

definition mail_rule :: "jstr \<Rightarrow> bool" where
  "mail_rule raw \<longleftrightarrow> (hint_allow raw \<noteq> None \<or> hint_block raw \<noteq> []) \<and> \<not> send_now raw \<and> hold_so_far raw \<noteq> Some False"

definition draft_only :: "jstr \<Rightarrow> bool" where
  "draft_only raw \<longleftrightarrow> extractStaffRfqBody raw \<noteq> None \<and> \<not> send_now raw \<and> hint_allow raw = None"

definition held_finally :: "jstr \<Rightarrow> bool option" where
  "held_finally raw = (if draft_only raw \<or> mail_rule raw then Some True else hold_so_far raw)"

definition quiet_client :: "jstr \<Rightarrow> bool" where
  "quiet_client raw = rx_test True (alts [rr ''ne pi{i klientu'', rr ''klientu ne'', rr ''ne nazywaj klientu'', rr ''ne raskrywaj'']) raw"

definition all_deals :: "jstr \<Rightarrow> bool" where
  "all_deals raw = rx_test True (alts [rr ''obe sdelk'', rr ''oba zakaz'', rr ''obeim'', rr ''po obeim'', rr ''wse otkryt'']) raw"

definition body_cargo :: "jstr \<Rightarrow> jstr option" where
  "body_cargo raw = (case extractStaffRfqBody raw of Some b \<Rightarrow> draft_cargo b | None \<Rightarrow> None)"

definition body_weights :: "jstr \<Rightarrow> int list" where
  "body_weights raw = (case extractStaffRfqBody raw of Some b \<Rightarrow> draft_weights b | None \<Rightarrow> [])"

text \<open>The summary, piece by piece in the order it is put together.\<close>

definition hint_bits :: "jstr \<Rightarrow> jstr list" where
  "hint_bits raw =
     (let (_, _, b1) = hint_route raw;
          b2 = (if preferred_operators raw \<noteq> [] then b1 @ [ru ''operatory: '' @ js_join (js '', '') (preferred_operators raw)] else b1);
          b3 = b2 @ (if js ''weight_kg'' \<in> set (ask_client raw) then [ru ''sprositx wes''] else [])
            @ (if js ''invoice'' \<in> set (ask_client raw) then [ru ''sprositx inwojs''] else []);
          b4 = (if quiet_client raw then b3 @ [ru ''ograni~enie dlq klienta''] else b3);
          b5 = b4 @ (case extractStaffRfqBody raw of None \<Rightarrow> [] | Some _ \<Rightarrow> [ru ''tekst '' @ js ''RFQ'' @ ru '' ot menedvera''])
            @ (case body_cargo raw of None \<Rightarrow> [] | Some c \<Rightarrow> [ru ''gruz: '' @ take 60 c])
            @ (if body_weights raw = [] then []
               else [ru ''wesa: '' @ js_join (js '', '') (map (\<lambda>w. show_int w @ ru '' kg'') (body_weights raw))]);
          b6 = b5 @ (case hint_allow raw of None \<Rightarrow> []
                 | Some a \<Rightarrow> [ru ''po~ta '' @ js ''RFQ'' @ ru '' tolxko: '' @ js_join (js '', '') a @ js '' (API'' @ ru '' ws# rawno)''])
            @ (if hint_block raw = [] then [] else [ru ''ne slatx: '' @ show_nat (length (hint_block raw)) @ ru '' adres(ow)'']);
          b7 = (if hint_hold raw then b6 @ [js ''RFQ'' @ ru '' na pauze '' @ [8212] @ ru '' vdu menedvera''] else b6);
          b8 = (if send_now raw then b7 @ [ru ''razre{ena otprawka '' @ js ''RFQ''] else b7);
          b9 = (if all_deals raw then b8 @ [ru ''primenitx ko wsem podhodq}im sdelkam''] else b8);
          b10 = (if mail_rule raw \<and> \<not> list_ex (\<lambda>b. js_includes b (ru ''podtwervdenie'')) b9
                 then b9 @ [ru ''sna~ala podtwervdenie menedvera''] else b9)
      in if draft_only raw then b10 @ [ru ''tekst prinqt '' @ [8212] @ ru '' vdu po~ty/'' @ [171] @ ru ''otprawlqj'' @ [187]] else b10)"

definition hint_meta :: "jstr \<Rightarrow> ops_meta" where
  "hint_meta raw =
     no_meta\<lparr>om_hint := Some (take 2000 raw), om_scheme := fst (snd (hint_route raw)),
       om_operators := list_or_none (preferred_operators raw), om_ask := list_or_none (ask_client raw),
       om_do_not_say := (if quiet_client raw then Some (take 500 raw) else None),
       om_rfq_body := extractStaffRfqBody raw, om_body_override := extractStaffRfqBody raw,
       om_cargo_name := map_option (take 200) (body_cargo raw), om_weights := list_or_none (body_weights raw),
       om_emails := hint_allow raw, om_emails_only := (if hint_allow raw = None then None else Some True),
       om_blocklist := list_or_none (hint_block raw), om_hold := held_finally raw,
       om_consult := (if draft_only raw \<or> mail_rule raw then Some True else if send_now raw then Some False
                      else if hint_hold raw then Some True else None),
       om_require := (if hint_hold raw then Some True else None),
       om_apply_all := (if all_deals raw then Some True else None)\<rparr>"

definition hint_rerun :: "jstr \<Rightarrow> bool" where
  "hint_rerun raw \<longleftrightarrow> held_finally raw \<noteq> Some True
     \<and> (send_now raw \<or> hint_allow raw \<noteq> None
        \<or> (extractStaffRfqBody raw = None
           \<and> (let route = fst (hint_route raw)
              in rx_test True PSZHVS_OPS raw \<or> preferred_operators raw \<noteq> [] \<or> rt_scheme route \<noteq> None
                 \<or> rt_origin route \<noteq> None \<or> rt_destination route \<noteq> None)))"

definition parseOpsHint :: "jstr \<Rightarrow> ops_patch option" where
  "parseOpsHint txt0 =
     (let raw = js_trim txt0; route = fst (hint_route raw)
      in if raw = [] \<or> \<not> (rx_test True PSZHVS_OPS raw \<or> rx_test True GENERIC_OPS raw \<or> extractEmails raw \<noteq> []) then None
         else Some \<lparr>op_route = (if route = no_route then None else Some route), op_meta = Some (hint_meta raw),
                op_summary = Some (js_or (Some (js_join (js ''; '') (hint_bits raw))) (ru ''operacionnaq podskazka'')),
                op_rerun = Some (hint_rerun raw)\<rparr>)"

subsection \<open>Intents\<close>

record staff_request =
  sr_intent :: staff_intent
  sr_deal :: "jstr option"
  sr_query :: "jstr option"
  sr_confidence :: rat
  sr_raw :: jstr
  sr_patch :: "ops_patch option"

definition HELP_RE :: rx where
  "HELP_RE = alts [sq [Bol, alts [rr ''priwet'', rr ''zdrawstw'', rr ''dobryj'', rr ''haj'', ll ''hello'', ll ''hi'', rr ''ku''], Wb],
     sq [rr ''~to '', opt (rr ''ty ''), alts [rr ''umee{x'', rr ''move{x'']], sq [rr ''kak '', opt (rr ''s toboj ''), rr ''rabotatx''],
     ll ''help'', rr ''pomo}'']"
definition ESCALATIONS_RE :: rx where
  "ESCALATIONS_RE = alts [rr ''|skalac'', rr ''~to wisit'',
     sq [rr ''otkryt'', opt (alts [rr ''ye'', rr ''yh'']), ll '' '', alts [rr ''|skalac'', rr ''zada~'']],
     sq [rr ''nuvn'', alts [rr ''o'', rr ''y''], rr '' re{en'']]"
definition STATUS_RE :: rx where
  "STATUS_RE = alts [rr ''swodk'', sq [rr ''status'', opt (rr ''y''), Wb], sq [rr ''~to '', opt (rr ''sej~as ''), rr ''po sdelkam''],
     rr ''kak dela u bota'', rr ''monitoring'', rr ''prowerx status'', rr ''status sdelk'']"
definition CALC_RE :: rx where
  "CALC_RE = alts [raschet_rx, rr ''peres~itaj'', sq [rr ''prodolv'', alts [rr ''itx'', rr ''aj''], star dot, alts [rr ''sdelk'', rr ''weden'']],
     sq [rr ''weden'', alts [rr ''ie'', rr ''iem''], rr '' sdelk''], rr ''sdelatx ras~'', rr ''net summ'', rr ''zawis'']"
definition cyr_lat :: rx where "cyr_lat = Cls False [(1072, 1103), (97, 122), (1105, 1105)]"
definition CLIENT_RE :: rx where
  "CLIENT_RE = sq [rr ''klient'', opt (one (ru ''uae'')), plus1 sp, Rep True 3 None cyr_lat]"
definition CLIENT_NAME_RE :: rx where
  "CLIENT_NAME_RE = sq [rr ''klient'', opt (one (ru ''uae'')), plus1 sp,
     Cap 1 (Rep True 3 None (Cls False [(1040, 1071), (65, 90), (1025, 1025), (1072, 1103), (97, 122), (1105, 1105)]))]"
definition ALEXANDRA_RE :: rx where
  "ALEXANDRA_RE = sq [Wb, Cap 1 (alts [rr ''Aleksandra'', ll ''Aleksandra'', ll ''Alexandra'']), Wb]"
definition AWAITING_RE :: rx where
  "AWAITING_RE = alts [rr ''vdut menedver'', ll ''awaiting'', rr ''na pauze u ~elowek'', sq [rr ''perehwat'', opt (rr ''y''), Wb]]"
definition TAKEN_RE :: rx where "TAKEN_RE = alts [rr ''perehwati'', ll ''takeover'', rr ''beru'']"
definition APPROVE_RE :: rx where
  "APPROVE_RE = alts [sq [rr ''utwerd'', alts [rr ''i'', rr ''itx'']], sq [rr ''odobr'', alts [rr ''i'', rr ''itx'']], rr ''soglasuj'',
     sq [ll ''approve'', opt (sq [plus1 sp, ll ''kp''])], sq [rr ''kp'', star sp, alts [rr ''ok'', rr ''ok.'', rr ''da'']]]"
definition REJECT_RE :: rx where
  "REJECT_RE = alts [sq [rr ''otklon'', alts [rr ''i'', rr ''itx'']], ll ''reject'', ll ''cancel'', sq [rr ''otmen'', alts [rr ''i'', rr ''itx''], rr '' sdelk'']]"
definition TAKEOVER_RE :: rx where
  "TAKEOVER_RE = alts [rr ''perehwati'', ll ''takeover'', sq [rr ''beru '', alts [rr ''sam'', rr ''na sebq'']], sq [rr ''~elowek wed'', yo, rr ''t'']]"
definition PAUSE_RE :: rx where
  "PAUSE_RE = alts [sq [Wb, rr ''pauza'', Wb], ll ''pause'', sq [rr ''ostanowi '', alts [rr ''bota'', rr ''ii'', ll ''ai'']]]"
definition RESUME_RE :: rx where
  "RESUME_RE = alts [ll ''resume'', rr ''snimi pauzu'', sq [rr ''werni '', alts [rr ''bota'', rr ''ii'']], sq [rr ''prodolv'', alts [rr ''aj'', rr ''itx''], rr '' ii'']]"
definition CUT3_RE :: rx where
  "CUT3_RE = alts [sq [rr ''skidk'', one (ru ''au''), star dot, ll ''3''], sq [lit [8722], star sp, ll ''3%''], ll ''-3%'',
     sq [ll ''cut'', star sp, ll ''3''], sq [rr ''urevx'', star dot, ll ''3'']]"
definition SET_ACTIVE_RE :: rx where
  "SET_ACTIVE_RE = alts [rr ''rabotaem po'', sq [rr ''aktiwn'', opt (alts [rr ''aq'', rr ''u`'']), rr '' sdelk''],
     sq [rr ''perekl`~'', alts [rr ''i'', rr ''itxsq''], rr '' na sdelk''], rr ''wedi sdelk'', sq [ll ''focus '', opt (ll ''on ''), ll ''deal''],
     sq [ll ''set'', opt dot, ll ''active'']]"
definition APPROVE_RFQ_RE :: rx where
  "APPROVE_RFQ_RE = alts [sq [rr ''odobri'', star sp, ll ''rfq''], sq [rr ''utwerdi'', star sp, ll ''rfq''],
     sq [rr ''otpraw'', alts [rr ''x'', rr ''itx''], star sp, ll ''rfq''], sq [ll ''rfq'', star sp, ll ''send''], sq [rr ''soglasuj'', star sp, ll ''rfq'']]"
definition CARD_RE :: rx where
  "CARD_RE = alts [sq [rr ''kart'', alts [rr ''o~k'', rr ''a'']], sq [rr ''sdelk'', one (ru ''aiue'')], sq [rr ''~to '', opt (rr ''tam ''), rr ''po''],
     rr ''pokavi'', rr ''otkroj'', sq [rr ''razber'', alts [rr ''i'', rr ''#m'']]]"

text \<open>What is left of the words of a request for a card, used to search for it.\<close>

definition calc_query :: "jstr \<Rightarrow> jstr" where
  "calc_query low =
     (let q1 = replace_all True (alts [rr ''nuvno'', rr ''nuvny'', rr ''sdelatx'', rr ''prowerx'', rr ''sam'', rr ''ws`'', rr ''informaci`'',
             sq [rr ''pometk'', star wd], sq [rr ''vd#t'', star wd], rr ''~eloweka'', sq [rr ''ot'', plus1 sp, plus1 dg, one (js ''./''), plus1 dg]]) [32] low;
          q2 = replace_all True (alts [sq [raschet_rx, star wd], rr ''peres~itaj'', sq [rr ''prodolv'', star wd], sq [rr ''weden'', star wd],
             sq [rr ''sdelk'', star wd], sq [rr ''klient'', star wd], sq [rr ''stroitelxn'', star wd], sq [rr ''sistem'', star wd]]) [32] q1;
          q3 = replace_all True (alts [rr ''nowosibirsk'', rr ''wladiwostok'', rr ''korsakow'', ll ''->'', lit [8212], lit [8211]]) [32] q2
      in js_trim (squeeze_spaces False q3))"

definition calc_name :: "jstr \<Rightarrow> jstr \<Rightarrow> jstr option" where
  "calc_name raw q =
     (case rx_group True CLIENT_NAME_RE 1 raw of Some n \<Rightarrow> Some n
      | None \<Rightarrow> (case rx_group True ALEXANDRA_RE 1 raw of Some n \<Rightarrow> Some n
        | None \<Rightarrow> find (\<lambda>w. 4 \<le> length w) (js_split1 32 q)))"

definition card_query :: "jstr \<Rightarrow> jstr" where
  "card_query low =
     (let q1 = replace_all False (sq [rr ''kart'', alts [rr ''o~k'', rr ''a''], star sp, opt (sq [rr ''sdelk'', one (ru ''aiue'')])]) [] low;
          q2 = replace_all False (sq [rr ''sdelk'', one (ru ''aiue'')]) [] q1;
          q3 = replace_all False (alts [rr ''pokavi'', rr ''otkroj'', sq [rr ''~to '', opt (rr ''tam ''), rr ''po''], sq [rr ''razber'', alts [rr ''i'', rr ''#m'']]]) [] q2
      in js_trim (rx_replace True UUID_RE [] q3))"

definition sr_make :: "staff_intent \<Rightarrow> jstr option \<Rightarrow> jstr option \<Rightarrow> rat \<Rightarrow> jstr \<Rightarrow> staff_request" where
  "sr_make i d q c raw = \<lparr>sr_intent = i, sr_deal = d, sr_query = q, sr_confidence = c, sr_raw = raw, sr_patch = None\<rparr>"

text \<open>The actions on one deal, in the order they are tried, with the two confidences of each.\<close>

definition action_table :: "(bool \<times> rx \<times> staff_intent \<times> rat \<times> rat) list" where
  "action_table =
     [(False, APPROVE_RE, IApproveKp, 9/10, 55/100), (False, REJECT_RE, IRejectDeal, 88/100, 1/2),
      (False, TAKEOVER_RE, ITakeover, 9/10, 55/100), (False, PAUSE_RE, IPause, 88/100, 1/2),
      (False, RESUME_RE, IResume, 88/100, 1/2), (False, CUT3_RE, ICut3, 85/100, 1/2),
      (True, SET_ACTIVE_RE, ISetActive, 92/100, 55/100), (True, APPROVE_RFQ_RE, IApproveRfq, 9/10, 55/100)]"

definition parseStaffPeerIntent :: "jstr \<Rightarrow> jstr option \<Rightarrow> staff_request" where
  "parseStaffPeerIntent txt0 reply =
     (let raw = js_trim txt0; low = squeeze_spaces False (js_toLowerCase raw);
          dealId = extractDealId raw reply; replyDeal = extractDealId (js_or reply []) None;
          known = (dealId \<noteq> None \<or> replyDeal \<noteq> None);
          target = (if dealId \<noteq> None then dealId else replyDeal)
      in if rx_test False HELP_RE low then sr_make IHelp dealId None (9/10) raw
         else if rx_test False ESCALATIONS_RE low then sr_make IEscalations dealId None (92/100) raw
         else if rx_test False STATUS_RE low then sr_make IStatus dealId None (88/100) raw
         else if rx_test False CALC_RE low \<or> rx_test True CLIENT_RE low
         then (let q = calc_query low
               in sr_make IDealCard dealId (Some (js_or (calc_name raw q) (js_or (Some q) (take 80 raw))))
                    (if dealId \<noteq> None then 9/10 else 75/100) raw)
         else if rx_test False AWAITING_RE low \<and> \<not> rx_test False TAKEN_RE low then sr_make IAwaiting dealId None (85/100) raw
         else case find (\<lambda>(ic, r, _). rx_test ic r low) action_table of
           Some (_, _, i, c1, c2) \<Rightarrow> sr_make i target None (if known then c1 else c2) raw
         | None \<Rightarrow>
             (case parseOpsHint raw of
                Some p \<Rightarrow> (sr_make IOpsHint target None (if known then 9/10 else 72/100) raw)\<lparr>sr_patch := Some p\<rparr>
              | None \<Rightarrow>
                  if dealId \<noteq> None \<or> rx_test False CARD_RE low
                  then sr_make IDealCard dealId (text_or_none (card_query low)) (if dealId \<noteq> None then 92/100 else 7/10) raw
                  else sr_make IUnclear dealId None (3/10) raw))"

subsection \<open>When the robot listens\<close>

record peer_listen =
  pl_text :: jstr
  pl_chat :: int
  pl_type :: "jstr option"
  pl_mentioned :: bool
  pl_reply_to_bot :: bool
  pl_command :: bool

definition FIRST_WORD_RE :: rx where
  "FIRST_WORD_RE = sq [Bol, alts [rr ''utwerd'', rr ''odobr'', rr ''soglasuj'', rr ''perehwati'', rr ''pauza'', ll ''resume'',
     rr ''status'', rr ''swodk'', rr ''|skalac'', rr ''kart'']]"
definition QUESTION_RE :: rx where
  "QUESTION_RE = alts [ll ''?'', rr ''po~emu'', rr ''za~em'', sq [rr ''kak '', alts [rr ''lu~{e'', rr ''bytx'', rr ''otwetitx'']],
     sq [rr ''~to '', alts [rr ''delatx'', rr ''skazatx'', rr ''otwetitx'']], rr ''razber'']"
definition TOPIC_RE :: rx where
  "TOPIC_RE = alts [rr ''sdelk'', rr ''klient'', rr ''stawk'', sq [rr ''kp'', Wb], ll ''rfq'', rr ''postaw}ik'', rr ''mar{rut'', rr ''gruz'',
     rr ''|skalac'', rr ''marv'', rr ''tamov'', rr ''inwojs'', rr ''dogowor'', rr ''logist'']"

text \<open>\<open>Number(esc)\<close> compared with the chat after the prefix of the Bot API is taken off.\<close>

definition same_chat_number :: "int \<Rightarrow> jstr \<Rightarrow> bool" where
  "same_chat_number chat esc =
     (case js_Number esc of Num n \<Rightarrow> n \<noteq> 0 \<and> n = of_int \<lfloor>n\<rfloor> \<and> sameStaffChat chat \<lfloor>n\<rfloor> | _ \<Rightarrow> False)"

definition shouldHandleStaffPeer :: "penv \<Rightarrow> peer_listen \<Rightarrow> bool" where
  "shouldHandleStaffPeer env o' =
     (let mode = js_trim (js_toLowerCase (js_or (env_get env ''TG_STAFF_PEER_MODE'') (js ''on'')));
          t = js_trim (pl_text o'); low = js_toLowerCase t; chat = show_int (pl_chat o');
          esc = js_or (env_get env ''TG_STAFF_CHAT_ID'') (js_or (env_get env ''TG_ESCALATION_CHAT_ID'') []);
          exec = js_or (env_get env ''TG_EXEC_CHANNEL_ID'') [];
          isDm = (pl_type o' = Some (js ''private'') \<or> 0 < pl_chat o');
          inEsc = ((esc \<noteq> [] \<and> chat = esc) \<or> same_chat_number (pl_chat o') esc);
          isStaff = (inEsc \<or> (exec \<noteq> [] \<and> chat = exec) \<or> pl_type o' = Some (js ''group'') \<or> pl_type o' = Some (js ''supergroup''));
          names = filter (\<lambda>n. n \<noteq> []) (map js_trim (js_split1 44 (js_toLowerCase
            (js_or (env_get env ''TG_STAFF_BOT_NAMES'') (ru ''bot,logist,'' @ js ''alo,'' @ ru ''alo'')))))
      in if pl_command o' then False
         else if mode \<in> set (map js [''0'', ''false'', ''off'', ''no'']) then False
         else if t = [] then False
         else if isDm then True
         else if inEsc then True
         else if \<not> isStaff \<and> mode \<noteq> js ''all'' then False
         else if pl_mentioned o' \<or> pl_reply_to_bot o' then True
         else if mode = js ''all'' then True
         else if rx_test True UUID_RE t then True
         else if rx_test True FIRST_WORD_RE t then True
         else if rx_test True PSZHVS_OPS t then True
         else if list_ex (\<lambda>n. js_includes low n) names then True
         else switched_on env ''TG_STAFF_GPT'' \<and> rx_test True QUESTION_RE t \<and> rx_test True TOPIC_RE low)"

subsection \<open>What a hint may do\<close>

definition opsHintWantsApplyAll :: "ops_patch option \<Rightarrow> bool" where
  "opsHintWantsApplyAll p = (case p of None \<Rightarrow> False | Some q \<Rightarrow>
     (case op_meta q of None \<Rightarrow> False | Some m \<Rightarrow> om_apply_all m = Some True))"

definition safeOpsRerunRfq :: "ops_patch option \<Rightarrow> jstr \<Rightarrow> bool" where
  "safeOpsRerunRfq patch rawText =
     (case patch of None \<Rightarrow> False
      | Some p \<Rightarrow>
          let m = (case op_meta p of None \<Rightarrow> no_meta | Some m \<Rightarrow> m)
          in if send_now rawText then True
             else if om_hold m = Some True \<or> om_consult m = Some True then False
             else if op_rerun p = Some False then False
             else if (case om_emails m of None \<Rightarrow> False | Some es \<Rightarrow> es \<noteq> []) then False
             else if js_or (om_rfq_body m) [] \<noteq> [] then False
             else op_rerun p = Some True)"

record deal_lite =
  dl_id :: jstr
  dl_status :: jstr
  dl_destination :: "jstr option"
  dl_name :: jstr

definition closed_names :: "jstr list" where
  "closed_names = map js [''closed_won'', ''closed_lost'', ''cancelled'']"

definition pickOpenDealsForOpsHint :: "deal_lite list \<Rightarrow> ops_patch option \<Rightarrow> jstr option \<Rightarrow> jstr list \<times> deal_lite list" where
  "pickOpenDealsForOpsHint pool0 patch prefer =
     (let open_deals = filter (\<lambda>d. dl_status d \<notin> set closed_names) pool0
      in if open_deals = [] then ([], [])
         else let patch_dest = (case patch of None \<Rightarrow> None | Some p \<Rightarrow> (case op_route p of None \<Rightarrow> None | Some r \<Rightarrow> rt_destination r));
                  dest = js_trim (js_toLowerCase (js_or prefer (js_or patch_dest [])));
                  sameLane = (if dest \<noteq> [] then filter (\<lambda>d. js_includes (js_toLowerCase (js_or (dl_destination d) [])) dest) open_deals else []);
                  pool = (if sameLane \<noteq> [] then sameLane else open_deals)
              in if opsHintWantsApplyAll patch then (map dl_id pool, [])
                 else if length pool = 1 then (map dl_id pool, [])
                 else if 1 < length sameLane then (map dl_id sameLane, [])
                 else ([], pool))"

datatype training_kind = Coach | Chat

definition COACH_RE :: rx where
  "COACH_RE = alts [rr ''zapomni'', rr ''u~ti'', rr ''wsegda'', rr ''sna~ala'', sq [rr ''ne'', star sp, rr ''pi{i''], sq [rr ''ne'', star sp, rr ''gowori''],
     rr ''sprosi'', rr ''lu~{e'', sq [rr ''ne'', star sp, rr ''nado''], sq [rr ''klientu'', star sp, rr ''ne''], rr ''nikogda'']"

definition staffTrainingKind :: "staff_intent \<Rightarrow> jstr \<Rightarrow> training_kind" where
  "staffTrainingKind intent raw =
     (if intent = IOpsHint then Coach
      else if intent = IAnswer \<and> (parseOpsHint raw \<noteq> None \<or> rx_test True COACH_RE raw) then Coach
      else Chat)"

datatype clarify = AskDeal | AskWhichCard | NotUnderstood

definition staffPeerClarify :: "staff_intent \<Rightarrow> jstr option \<Rightarrow> jstr option \<Rightarrow> clarify" where
  "staffPeerClarify intent dealId query =
     (if intent \<in> {IApproveKp, IRejectDeal, ITakeover, IPause, IResume, ICut3, IOpsHint, ISetActive, IApproveRfq} \<and> js_or dealId [] = []
      then AskDeal
      else if intent = IDealCard \<and> js_or dealId [] = [] \<and> js_or query [] = [] then AskWhichCard
      else NotUnderstood)"

subsection \<open>Permission to send\<close>

lemma send_now_alts:
  "send_now raw \<longleftrightarrow> (\<exists>r \<in> set (send_rx @ [sq [rr ''{l'', one (ru ''ie''), rr '' zapros'']]). rx_test True r raw)"
  unfolding send_now_def SEND_NOW_RE_def
  by (rule rx_test_alts) (simp add: send_rx_def after_word_def rx_shape)

text \<open>The word "send" at the end of the text is a permission, whatever stands before it.\<close>

lemma send_at_end: "send_now (a @ ru ''otprawlqj'')"
proof -
  let ?r = "sq [rr ''otprawl'', alts [rr ''qj'', rr ''i''], after_word]"
  have w: "ru ''otprawlqj'' = ru ''otprawl'' @ ru ''qj''" by (simp add: ru_eval)
  have 1: "((rev a, ru ''otprawl'' @ ru ''qj''), (rev (ru ''otprawl'') @ rev a, ru ''qj'')) \<in> rx_lang True (rr ''otprawl'')"
    unfolding rr_def by (rule lang_lit_self)
  have 2: "((q, ru ''qj''), (rev (ru ''qj'') @ q, [])) \<in> rx_lang True (alts [rr ''qj'', rr ''i''])" for q
    using lang_lit_self[of q "ru ''qj''" "[]" True] by (simp add: rr_def)
  have 3: "((q, []), (q, [])) \<in> rx_lang True after_word" for q
    by (simp add: after_word_def)
  have ok: "rx_ok ?r" by (simp add: after_word_def rx_shape)
  have "((rev a, ru ''otprawlqj''), (rev (ru ''qj'') @ rev (ru ''otprawl'') @ rev a, [])) \<in> rx_lang True ?r"
    unfolding w sq.simps rx_lang.simps(3) by (rule relcompI[OF 1 relcompI[OF 2 3]])
  then have "rx_test True ?r (a @ ru ''otprawlqj'')" unfolding rx_test_iff[OF ok] by blast
  then show ?thesis unfolding send_now_alts send_rx_def append.simps list.simps(15) bex_simps(5) by (rule disjI1)
qed

lemma trim_keeps_end:
  assumes "w \<noteq> []" "\<not> js_space (hd w)" "\<not> js_space (last w)"
  shows "\<exists>a'. js_trim (a @ w) = a' @ w"
proof -
  have d: "\<exists>a'. dropWhile js_space (a @ w) = a' @ w"
    using assms(1,2) by (induction a) (auto simp: neq_Nil_conv)
  then obtain a' where a: "dropWhile js_space (a @ w) = a' @ w" by blast
  have "dropWhile js_space (rev w @ rev a') = rev w @ rev a'"
    using assms(1,3) by (cases w rule: rev_cases) auto
  then show ?thesis by (simp add: js_trim_def a)
qed

lemma generic_send: "rx_test True GENERIC_OPS (a @ ru ''otprawlqj'')"
proof -
  have "ru ''otprawlqj'' = ru ''otprawl'' @ ru ''qj''" by (simp add: ru_eval)
  then have 1: "rx_test True (rr ''otprawl'') (a @ ru ''otprawlqj'')"
    unfolding rr_def using rx_test_lit[of True "ru ''otprawl''" a "ru ''qj''"] by simp
  obtain xs ys where g: "GENERIC_OPS = alts (xs @ rr ''otprawl'' # ys)" "list_all rx_ok (xs @ rr ''otprawl'' # ys)"
  proof
    show "GENERIC_OPS = alts ([rr ''sprosi'', rr ''ne pi{i'', rr ''ne gowori'', rr ''zapomni'', rr ''u~ti'', rr ''wsegda'',
       rr ''sna~ala'', rr ''predpo~it'', rr ''operator'', sq [rr ''shem'', one (ru ''auye'')], rr ''inkoterm'', rr ''inwojs'',
       rr ''wes'', rr ''gabarit'', cycy_rx, sajsaj_rx, rr ''fiting'', rr ''kontejner'', ll ''rfq'', sq [rr ''kp'', Wb],
       rr ''klientu ne'', rr ''ne nazywaj'', rr ''wedi tak'', rr ''delaj tak'', rr ''po sdelk'', raschet_rx, rr ''peres~itaj'',
       sq [rr ''prodolv'', star dot, alts [rr ''sdelk'', rr ''weden'']], rr ''po~t'',
       sq [ll ''@'', plus1 (Cls False (word_ranges @ [(46, 46), (45, 45)])), ll ''.'', plus1 wd], rr ''ne otprawl''] @ rr ''otprawl'' #
       [sq [rr ''tekst'', star sp, ll '':''], rr ''skorrektir'', rr ''obe sdelk'', rr ''oba zakaz''])"
      unfolding GENERIC_OPS_def append.simps by (rule refl)
  qed (simp add: rx_shape cycy_rx_def sajsaj_rx_def raschet_rx_def)
  show ?thesis unfolding g(1) rx_test_alts[OF g(2)] using 1 by auto
qed

lemma parse_send_now:
  assumes "rx_test True GENERIC_OPS (js_trim t)" "send_now (js_trim t)" "js_trim t \<noteq> []"
  shows "\<exists>p. parseOpsHint t = Some p \<and> op_meta p = Some (hint_meta (js_trim t)) \<and> op_rerun p = Some True"
  using assms by (simp add: parseOpsHint_def Let_def hint_rerun_def held_finally_def draft_only_def mail_rule_def hold_so_far_def)

text \<open>
  C18. A message that ends in "do not send" is read as permission to send: whatever stands before it, the hint
  it yields clears the pause and lets requests go to suppliers, and the last guard agrees.
\<close>

theorem prohibition_read_as_permission:
  "\<exists>p m. parseOpsHint (s @ ru ''ne otprawlqj'') = Some p \<and> op_meta p = Some m \<and> om_hold m = Some False
     \<and> op_rerun p = Some True \<and> safeOpsRerunRfq (Some p) (s @ ru ''ne otprawlqj'')"
proof -
  let ?t = "s @ ru ''ne otprawlqj''"
  have e: "?t = (s @ ru ''ne '') @ ru ''otprawlqj''" by (simp add: ru_eval)
  obtain a where a: "js_trim ?t = a @ ru ''otprawlqj''"
    using trim_keeps_end[of "ru ''otprawlqj''" "s @ ru ''ne ''"] unfolding e
    by (auto simp: ru_eval js_space_def)
  have n: "send_now (js_trim ?t)" "send_now ?t" "js_trim ?t \<noteq> []" "rx_test True GENERIC_OPS (js_trim ?t)"
    unfolding a by (simp_all only: send_at_end generic_send e) (simp add: ru_eval)
  obtain p where p: "parseOpsHint ?t = Some p" "op_meta p = Some (hint_meta (js_trim ?t))" "op_rerun p = Some True"
    using parse_send_now[OF n(4,1,3)] by blast
  have "om_hold (hint_meta (js_trim ?t)) = Some False"
    using n(1) by (simp add: hint_meta_def held_finally_def draft_only_def mail_rule_def hold_so_far_def)
  moreover have "safeOpsRerunRfq (Some p) ?t" using n(2) by (simp add: safeOpsRerunRfq_def)
  ultimately show ?thesis using p by blast
qed

text \<open>Without a word of permission.\<close>

lemma parse_parts:
  assumes "parseOpsHint t = Some p"
  shows "op_meta p = Some (hint_meta (js_trim t))" "op_rerun p = Some (hint_rerun (js_trim t))"
  using assms by (auto simp: parseOpsHint_def Let_def split: if_splits)

lemma unhold_send: "rx_test True UNHOLD_RE raw \<Longrightarrow> send_now raw"
proof -
  assume u: "rx_test True UNHOLD_RE raw"
  have "list_all rx_ok send_rx" by (simp add: send_rx_def after_word_def rx_shape)
  from u[unfolded UNHOLD_RE_def rx_test_alts[OF this]] show ?thesis unfolding send_now_alts by auto
qed

lemma rerun_without_permission:
  assumes "hint_rerun raw" "\<not> send_now raw"
  shows "hint_allow raw = None \<and> hint_block raw = [] \<and> extractStaffRfqBody raw = None \<and> \<not> hint_hold raw"
  using assms
  by (auto simp: hint_rerun_def held_finally_def draft_only_def mail_rule_def hold_so_far_def split: if_splits)

lemma safe_without_permission:
  assumes "op_meta p = Some m" "\<not> send_now raw"
  shows "safeOpsRerunRfq (Some p) raw \<longleftrightarrow> om_hold m \<noteq> Some True \<and> om_consult m \<noteq> Some True
     \<and> (om_emails m = None \<or> om_emails m = Some []) \<and> js_or (om_rfq_body m) [] = [] \<and> op_rerun p = Some True"
  using assms by (cases "om_emails m") (simp_all add: safeOpsRerunRfq_def)

text \<open>
  Without a word of permission, a hint may send requests only when it names no mailing address, blocks
  none, brings no draft and holds no word of waiting.
\<close>

theorem hint_waits_for_permission:
  assumes "parseOpsHint t = Some p" "\<not> send_now (js_trim t)" "safeOpsRerunRfq (Some p) (js_trim t)"
  shows "\<exists>m. op_meta p = Some m \<and> op_rerun p = Some True \<and> om_emails m = None \<and> om_blocklist m = None
     \<and> om_rfq_body m = None \<and> om_hold m = None \<and> \<not> rx_test True HOLD_RE (js_trim t)"
proof -
  define raw where "raw = js_trim t"
  have p: "op_meta p = Some (hint_meta raw)" "op_rerun p = Some (hint_rerun raw)"
    using parse_parts[OF assms(1)] by (simp_all add: raw_def)
  have "hint_rerun raw" using assms(2,3) p by (simp add: safe_without_permission raw_def)
  from rerun_without_permission[OF this] have r: "hint_allow raw = None" "hint_block raw = []" "extractStaffRfqBody raw = None"
    "\<not> hint_hold raw" using assms(2) by (auto simp: raw_def)
  then have "\<not> rx_test True HOLD_RE raw" using unhold_send[of raw] assms(2) by (auto simp: hint_hold_def raw_def)
  moreover have "om_hold (hint_meta raw) = None"
    using r assms(2) by (simp add: hint_meta_def held_finally_def draft_only_def mail_rule_def hold_so_far_def raw_def)
  ultimately show ?thesis using p r \<open>hint_rerun raw\<close> by (simp add: hint_meta_def list_or_none_def no_meta_def raw_def)
qed

text \<open>The second guard adds nothing to the parser's own hints.\<close>

lemma guard_agrees:
  assumes "parseOpsHint t = Some p"
  shows "safeOpsRerunRfq (Some p) (js_trim t) \<longleftrightarrow> op_rerun p = Some True"
proof -
  define raw where "raw = js_trim t"
  have p: "op_meta p = Some (hint_meta raw)" "op_rerun p = Some (hint_rerun raw)"
    using parse_parts[OF assms(1)] by (simp_all add: raw_def)
  show ?thesis
  proof (cases "send_now raw")
    case True
    then have "hint_rerun raw" by (simp add: hint_rerun_def held_finally_def draft_only_def mail_rule_def hold_so_far_def)
    then show ?thesis using True p by (simp add: safeOpsRerunRfq_def raw_def)
  next
    case False
    note safe = safe_without_permission[OF p(1) False]
    show ?thesis
    proof (cases "hint_rerun raw")
      case True
      note r = rerun_without_permission[OF True False]
      then have "om_hold (hint_meta raw) = None \<and> om_consult (hint_meta raw) = None \<and> om_emails (hint_meta raw) = None
         \<and> om_rfq_body (hint_meta raw) = None"
        using False by (simp add: hint_meta_def no_meta_def held_finally_def draft_only_def mail_rule_def hold_so_far_def)
      then show ?thesis using safe True p(2) by (simp add: js_or_def raw_def)
    next
      case False
      then show ?thesis using safe p(2) by (simp add: raw_def)
    qed
  qed
qed

lemma rail_hint: "rx_test True PSZHVS_OPS (ru ''psvws'')"
  unfolding PSZHVS_OPS_def by (simp add: rr_def ru_eval rx_eval)

lemma rail_quiet: "\<not> send_now (ru ''psvws'')" "\<not> rx_test True HOLD_RE (ru ''psvws'')"
  by (simp_all add: send_now_def SEND_NOW_RE_def send_rx_def after_word_def HOLD_RE_def rr_def ll_def ru_eval rx_eval)

lemma rail_no_mail: "extractEmails (ru ''psvws'') = []"
  by (simp add: extractEmails_def EMAIL_RE_def ll_def match_all.simps rr_def ru_eval rx_eval)

lemma rail_no_body: "extractStaffRfqBody (ru ''psvws'') = None"
  by (simp add: extractStaffRfqBody_def rx_group_def rr_def ll_def ru_eval rx_eval Let_def js_trim_def)

lemma rail_trim: "js_trim (ru ''psvws'') = ru ''psvws''"
  by (rule js_trim_id) (simp add: ru_eval js_space_def)

lemma rail_parsed: "\<exists>p. parseOpsHint (ru ''psvws'') = Some p \<and> op_meta p = Some (hint_meta (ru ''psvws'')) \<and> op_rerun p = Some True"
proof -
  have "hint_allow (ru ''psvws'') = None" "hint_block (ru ''psvws'') = []" "\<not> hint_hold (ru ''psvws'')"
    using rail_quiet by (auto simp: hint_allow_def hint_block_def rail_no_mail hint_hold_def)
  then have "hint_rerun (ru ''psvws'')"
    using rail_quiet rail_no_body rail_hint
    by (simp add: hint_rerun_def held_finally_def draft_only_def mail_rule_def hold_so_far_def Let_def)
  moreover have "ru ''psvws'' \<noteq> []" by (simp add: ru_eval)
  ultimately show ?thesis using rail_hint by (simp add: parseOpsHint_def rail_trim Let_def)
qed

theorem hint_waits_for_permission_witness:
  "\<exists>p m. parseOpsHint (ru ''psvws'') = Some p \<and> op_meta p = Some m \<and> op_rerun p = Some True \<and> om_emails m = None
     \<and> om_blocklist m = None \<and> om_rfq_body m = None \<and> om_hold m = None \<and> \<not> rx_test True HOLD_RE (js_trim (ru ''psvws''))"
proof -
  obtain p where p: "parseOpsHint (ru ''psvws'') = Some p" "op_rerun p = Some True" using rail_parsed by blast
  then have "safeOpsRerunRfq (Some p) (js_trim (ru ''psvws''))" by (simp add: guard_agrees)
  from hint_waits_for_permission[OF p(1) _ this] rail_quiet p show ?thesis by (auto simp: rail_trim)
qed

subsection \<open>Which deals a hint reaches\<close>

text \<open>
  A hint reaches only open deals of those found, or asks which of several open deals is meant, never
  both; it reaches nothing and asks nothing only when every deal found is closed.
\<close>

theorem hint_reaches_open_deals:
  assumes "pickOpenDealsForOpsHint pool patch prefer = (ids, several)"
  shows "(\<forall>i \<in> set ids. \<exists>d \<in> set pool. dl_id d = i \<and> dl_status d \<notin> set closed_names)
     \<and> set several \<subseteq> {d \<in> set pool. dl_status d \<notin> set closed_names} \<and> (ids = [] \<or> several = [])
     \<and> (ids = [] \<and> several = [] \<longleftrightarrow> (\<forall>d \<in> set pool. dl_status d \<in> set closed_names))"
  using assms unfolding pickOpenDealsForOpsHint_def Let_def
  by (auto split: if_splits simp: filter_empty_conv)

theorem hint_reaches_open_deals_witness:
  "\<exists>d \<in> set [\<lparr>dl_id = [1], dl_status = [2], dl_destination = None, dl_name = []\<rparr>]. dl_id d = [1] \<and> dl_status d \<notin> set closed_names"
proof -
  have "pickOpenDealsForOpsHint [\<lparr>dl_id = [1], dl_status = [2], dl_destination = None, dl_name = []\<rparr>] None None = ([[1]], [])"
    by (simp add: pickOpenDealsForOpsHint_def closed_names_def js_def js_or_def opsHintWantsApplyAll_def Let_def js_trim_def js_toLowerCase_def)
  from hint_reaches_open_deals[OF this] show ?thesis by simp
qed

subsection \<open>Words that are not heard\<close>

lemma squeeze_keeps:
  assumes "\<forall>c \<in> set w. \<not> js_space c" "w \<noteq> []"
  shows "\<exists>x y. squeeze_spaces b (u @ w @ v) = x @ w @ y"
proof -
  have 1: "squeeze_spaces b (w @ v) = w @ squeeze_spaces False v" if "w \<noteq> []" "\<forall>c \<in> set w. \<not> js_space c" for w b
    using that by (induction w arbitrary: b) (case_tac w, auto)+
  show ?thesis
  proof (induction u arbitrary: b)
    case Nil
    show ?case using 1[OF assms(2,1), of b] by (metis append_Nil)
  next
    case (Cons c u)
    then show ?case by (simp split: if_splits) (metis append_Cons)
  qed
qed

lemma low_keeps:
  assumes "\<forall>c \<in> set w. \<not> js_space c" "w \<noteq> []" "js_toLowerCase w = w"
  shows "\<exists>x y. squeeze_spaces False (js_toLowerCase (js_trim (a @ w @ b))) = x @ w @ y"
proof -
  obtain a' b' where "js_trim (a @ w @ b) = a' @ w @ b'"
    using js_trim_around[of w a b] assms(1,2) by auto
  then show ?thesis using squeeze_keeps[OF assms(1,2)] assms(3) by (simp add: js_toLowerCase_def)
qed

lemma approve_heard: 
  assumes "v \<in> set (map ru [''odobri'', ''utwerdi'', ''soglasuj''])"
  shows "rx_test False APPROVE_RE (x @ v @ y)"
proof -
  have ok: "list_all rx_ok [sq [rr ''utwerd'', alts [rr ''i'', rr ''itx'']], sq [rr ''odobr'', alts [rr ''i'', rr ''itx'']], rr ''soglasuj'',
     sq [ll ''approve'', opt (sq [plus1 sp, ll ''kp''])], sq [rr ''kp'', star sp, alts [rr ''ok'', rr ''ok.'', rr ''da'']]]"
    by (simp add: rx_shape)
  have two: "rx_test False (sq [rr u, alts [rr ''i'', z]]) (x @ (ru u @ ru ''i'') @ y)" if "rx_ok z" for u z
  proof -
    have "((rev x, ru u @ ru ''i'' @ y), (rev (ru ''i'') @ rev (ru u) @ rev x, y)) \<in> rx_lang False (sq [rr u, alts [rr ''i'', z]])"
      unfolding sq.simps rx_lang.simps(3)
      by (rule relcompI, unfold rr_def, rule lang_lit_self) (simp add: lang_alts lang_lit_self)
    moreover have "rx_ok (sq [rr u, alts [rr ''i'', z]])" using that by (simp add: rr_def)
    ultimately show ?thesis unfolding rx_test_iff[OF \<open>rx_ok (sq _)\<close>] append_assoc by blast
  qed
  have o: "ru ''odobri'' = ru ''odobr'' @ ru ''i''" "ru ''utwerdi'' = ru ''utwerd'' @ ru ''i''" by (simp_all add: ru_eval)
  have "rx_ok (rr ''itx'')" by (simp add: rr_def)
  note t = two[OF this]
  show ?thesis unfolding APPROVE_RE_def rx_test_alts[OF ok] list.simps(15) bex_simps(5)
    using assms t[of "''odobr''", folded o] t[of "''utwerd''", folded o] rx_test_lit[of False "ru ''soglasuj''" x y]
    by (auto simp: rr_def)
qed

lemma approved_not_rfq:
  assumes "rx_test False APPROVE_RE (squeeze_spaces False (js_toLowerCase (js_trim t)))"
  shows "sr_intent (parseStaffPeerIntent t reply) \<noteq> IApproveRfq"
  using assms by (simp add: parseStaffPeerIntent_def Let_def action_table_def sr_make_def split: option.splits)

lemma not_heard_eval:
  "\<not> rx_test False HELP_RE (ru ''odobri '' @ js ''rfq'')" "\<not> rx_test False ESCALATIONS_RE (ru ''odobri '' @ js ''rfq'')"
  "\<not> rx_test False STATUS_RE (ru ''odobri '' @ js ''rfq'')" "\<not> rx_test False CALC_RE (ru ''odobri '' @ js ''rfq'')"
  "\<not> rx_test True CLIENT_RE (ru ''odobri '' @ js ''rfq'')" "\<not> rx_test False AWAITING_RE (ru ''odobri '' @ js ''rfq'')"
  by (simp_all add: HELP_RE_def ESCALATIONS_RE_def STATUS_RE_def CALC_RE_def raschet_rx_def CLIENT_RE_def cyr_lat_def AWAITING_RE_def
     rr_def ll_def yo_def ru_eval rx_eval)

lemma odobri_low: "squeeze_spaces False (js_toLowerCase (js_trim (ru ''odobri '' @ js ''rfq''))) = ru ''odobri '' @ js ''rfq''"
  by (simp add: ru_eval js_text_eval)

text \<open>
  Words that approve a request to suppliers are never read as such: "approve", "confirm" and "agree"
  are taken as approval of the offer to the client first, so "approve RFQ" releases the offer.
\<close>

theorem request_approval_releases_offer:
  "sr_intent (parseStaffPeerIntent (a @ ru ''odobri'' @ b) reply) \<noteq> IApproveRfq
   \<and> sr_intent (parseStaffPeerIntent (a @ ru ''utwerdi'' @ b) reply) \<noteq> IApproveRfq
   \<and> sr_intent (parseStaffPeerIntent (a @ ru ''soglasuj'' @ b) reply) \<noteq> IApproveRfq
   \<and> sr_intent (parseStaffPeerIntent (ru ''odobri '' @ js ''rfq'') reply) = IApproveKp"
proof -
  have 1: "sr_intent (parseStaffPeerIntent (a @ v @ b) reply) \<noteq> IApproveRfq"
    if v: "v \<in> set (map ru [''odobri'', ''utwerdi'', ''soglasuj''])" for v
  proof -
    have "\<forall>c \<in> set v. \<not> js_space c" "v \<noteq> []" "js_toLowerCase v = v"
      using v by (auto simp: ru_eval js_text_eval)
    from low_keeps[OF this, of a b] approve_heard[OF v] approved_not_rfq show ?thesis by metis
  qed
  have "rx_test False APPROVE_RE (ru ''odobri '' @ js ''rfq'')"
    using approve_heard[of "ru ''odobri''" "[]" "ru '' '' @ js ''rfq''"] by (simp add: ru_eval)
  then have "sr_intent (parseStaffPeerIntent (ru ''odobri '' @ js ''rfq'') reply) = IApproveKp"
    using not_heard_eval unfolding parseStaffPeerIntent_def Let_def odobri_low
    by (simp add: action_table_def sr_make_def)
  with 1 show ?thesis by simp
qed

lemmas intent_regexes = HELP_RE_def ESCALATIONS_RE_def STATUS_RE_def CALC_RE_def raschet_rx_def CLIENT_RE_def cyr_lat_def
  AWAITING_RE_def APPROVE_RE_def REJECT_RE_def TAKEOVER_RE_def PAUSE_RE_def RESUME_RE_def CUT3_RE_def SET_ACTIVE_RE_def
  APPROVE_RFQ_RE_def CARD_RE_def

definition no_words :: "jstr \<Rightarrow> bool" where
  "no_words w \<longleftrightarrow> list_all (\<lambda>r. \<not> rx_test False r w) [HELP_RE, ESCALATIONS_RE, STATUS_RE, CALC_RE, AWAITING_RE, CARD_RE]
     \<and> \<not> rx_test True CLIENT_RE w \<and> list_all (\<lambda>(i, r, _). \<not> rx_test i r w) action_table
     \<and> \<not> rx_test True PSZHVS_OPS w \<and> \<not> rx_test True GENERIC_OPS w \<and> extractEmails w = []"

lemma unheard:
  assumes "no_words w" "js_trim w = w" "squeeze_spaces False (js_toLowerCase w) = w"
  shows "sr_intent (parseStaffPeerIntent w reply) = (if extractDealId w reply \<noteq> None then IDealCard else IUnclear)"
proof -
  have f: "find (\<lambda>(ic, r, _). rx_test ic r w) action_table = None"
    using assms(1) unfolding no_words_def list_all_iff find_None_iff by auto
  have h: "parseOpsHint w = None" using assms(1,2) by (simp add: no_words_def parseOpsHint_def Let_def)
  have "\<not> rx_test False HELP_RE w" "\<not> rx_test False ESCALATIONS_RE w" "\<not> rx_test False STATUS_RE w" "\<not> rx_test False CALC_RE w"
    "\<not> rx_test True CLIENT_RE w" "\<not> rx_test False AWAITING_RE w" "\<not> rx_test False CARD_RE w"
    using assms(1) by (simp_all add: no_words_def)
  then show ?thesis unfolding parseStaffPeerIntent_def Let_def assms(2,3) f h by (simp add: sr_make_def)
qed

lemma no_words_pauza: "no_words (ru ''pauza'')"
  unfolding no_words_def action_table_def
  by (simp add: intent_regexes PSZHVS_OPS_def GENERIC_OPS_def pszhvs_word_def rail_sea_rx_def dotted_opt_def cycy_rx_def sajsaj_rx_def
      rr_def ll_def yo_def ru_eval rx_eval extractEmails_def EMAIL_RE_def match_all.simps)

lemma no_words_status: "no_words (ru ''status'')"
  unfolding no_words_def action_table_def
  by (simp add: intent_regexes PSZHVS_OPS_def GENERIC_OPS_def pszhvs_word_def rail_sea_rx_def dotted_opt_def cycy_rx_def sajsaj_rx_def
      rr_def ll_def yo_def ru_eval rx_eval extractEmails_def EMAIL_RE_def match_all.simps)

text \<open>
  The words "pause" and "status" of the help text are not understood, because a word boundary of the
  expression needs an ASCII letter: they open the card of the deal replied to, or nothing.
\<close>

theorem pause_word_unheard:
  "sr_intent (parseStaffPeerIntent (ru ''pauza'') reply)
     = (if extractDealId (ru ''pauza'') reply \<noteq> None then IDealCard else IUnclear)
   \<and> sr_intent (parseStaffPeerIntent (ru ''status'') reply)
     = (if extractDealId (ru ''status'') reply \<noteq> None then IDealCard else IUnclear)"
  by (intro conjI unheard no_words_pauza no_words_status) (simp_all add: ru_eval js_text_eval)

end
