(* ===== verification/StaffBot.thy ===== *)
theory StaffBot
  imports StaffPeer
begin

text \<open>
  The management bot (\<open>apps/tg-gateway/src/managementBot.ts\<close>) and the language-model layer in front of it
  (\<open>staffPeerGpt.ts\<close>): how a message of a manager is resolved to a request, what the robot does about it, the slash
  commands and the buttons. What the API, the orchestrator and the model answer are parameters; what the bot does is
  the list of its effects, in order. The wording of replies is left out: a reply is named by its kind.
\<close>

subsection \<open>Rows and effects\<close>

record bot_row =
  br_id :: jstr
  br_status :: jstr
  br_destination :: "jstr option"
  br_name :: jstr

record bot_cargo =
  bc_name :: "jstr option"
  bc_description :: "jstr option"
  bc_weight :: "rat option"
  bc_class :: "jstr option"

record bot_deal =
  bd_cargo :: bot_cargo
  bd_route :: ops_route
  bd_meta :: ops_meta
  bd_price :: "rat option"
  bd_amount :: "rat option"
  bd_cost :: "rat option"

text \<open>The body of a \<open>PATCH /deals/:id\<close>: the keys the bot ever sends.\<close>

record bot_patch =
  bp_status :: "jstr option"
  bp_paused :: "bool option"
  bp_takeover :: "bool option"
  bp_escalate :: "bool option"
  bp_amount :: "rat option"
  bp_margin :: "rat option"
  bp_price :: "rat option"
  bp_route :: "ops_route option"
  bp_cargo :: "bot_cargo option"
  bp_meta :: "ops_meta option"

definition no_patch :: bot_patch where
  "no_patch = \<lparr>bp_status = None, bp_paused = None, bp_takeover = None, bp_escalate = None, bp_amount = None,
     bp_margin = None, bp_price = None, bp_route = None, bp_cargo = None, bp_meta = None\<rparr>"

datatype rfq_note = RfqPaused "jstr list" | RfqSent int | CardUpdated | RfqByHand | NoOrchestrator

datatype say = SDenied | SHelp | SStart | SNoStats | SStats | SNoEscalations | SEscalations nat | SEscalation jstr
  | SNoAwaiting | SAwaiting "jstr list" | SClarify clarify | SText jstr | SNoDeal | SApplied jstr rfq_note
  | SMany "jstr list" | SPickOne "jstr list" | SAllDone | SNothingFound jstr | SFoundSeveral "jstr list" | SCard jstr
  | SActiveFailed | SActive jstr | SHintUnclear | SKpReleased jstr | SKpContract jstr | SRejected jstr | STakenOver jstr
  | SPaused jstr | SResumed jstr | SCut rat rat | SLearned jstr | SLearnedNoDeal | SUsage | SDone | SData | SSyncOff | SSynced

datatype policy_change = TargetMargin rat | FloorMargin rat | LearningEnabled bool

datatype bot_effect =
  Say say
  | PatchDeal jstr bot_patch
  | ApplyHint jstr ops_route bot_cargo ops_meta bool
  | SetActive jstr
  | ApproveKp jstr
  | VoiceTakeover jstr
  | Learn "jstr option" jstr training_kind staff_intent
  | PutPolicy policy_change
  | DecideEscalation jstr bool
  | DecidePlaybook jstr jstr
  | SyncHistory

text \<open>
  The services: search of deals by text and by status with a limit, a deal, whether the statistics came, the
  pending escalations and playbooks by their identifiers, the orchestrator's answer to a hint (\<open>None\<close> unreachable, \<open>Some None\<close> an error,
  \<open>Some (Some n)\<close> the requests sent when it says so) and to pinning a deal, and whether an approval released the
  offer to the client.
\<close>

record bot_api =
  ba_search :: "jstr \<Rightarrow> nat \<Rightarrow> bot_row list"
  ba_status :: "jstr \<Rightarrow> nat \<Rightarrow> bot_row list"
  ba_deal :: "jstr \<Rightarrow> bot_deal option"
  ba_stats :: bool
  ba_escalations :: "jstr list"
  ba_playbooks :: "jstr list"
  ba_apply :: "jstr \<Rightarrow> int option option option"
  ba_pin :: "jstr \<Rightarrow> bool"
  ba_release :: "jstr \<Rightarrow> bool"

subsection \<open>Who may speak\<close>

record bot_opts =
  bo_managers :: "rat list"

definition isManager :: "bot_opts \<Rightarrow> int option \<Rightarrow> bool" where
  "isManager opts userId \<longleftrightarrow> bo_managers opts = []
     \<or> (case userId of None \<Rightarrow> False | Some u \<Rightarrow> u \<noteq> 0 \<and> of_int u \<in> set (bo_managers opts))"

definition canStaffTalk :: "penv \<Rightarrow> bot_opts \<Rightarrow> int \<Rightarrow> int option \<Rightarrow> bool" where
  "canStaffTalk env opts chatId userId \<longleftrightarrow>
     same_chat_number chatId (js_or (env_get env ''TG_STAFF_CHAT_ID'') (js_or (env_get env ''TG_ESCALATION_CHAT_ID'') []))
     \<or> isManager opts userId"

subsection \<open>From text to request\<close>

datatype resolve_source = ByRegex | ByGpt | ByBoth

record staff_resolved = staff_request +
  sv_source :: resolve_source
  sv_reply :: "jstr option"

record gpt_answer =
  ga_intent :: jstr
  ga_deal :: "jstr option"
  ga_query :: "jstr option"
  ga_confidence :: "rat option"
  ga_reply :: "jstr option"
  ga_patch :: "(ops_route option \<times> ops_meta \<times> jstr option) option"

definition intent_names :: "(jstr \<times> staff_intent) list" where
  "intent_names = [(js ''help'', IHelp), (js ''status'', IStatus), (js ''escalations'', IEscalations), (js ''awaiting'', IAwaiting),
     (js ''deal_card'', IDealCard), (js ''approve_kp'', IApproveKp), (js ''reject_deal'', IRejectDeal), (js ''takeover'', ITakeover),
     (js ''pause'', IPause), (js ''resume'', IResume), (js ''cut3'', ICut3), (js ''ops_hint'', IOpsHint), (js ''set_active'', ISetActive),
     (js ''approve_rfq'', IApproveRfq), (js ''answer'', IAnswer), (js ''observe'', IObserve), (js ''unclear'', IUnclear)]"

definition normalizeIntent :: "jstr \<Rightarrow> staff_intent" where
  "normalizeIntent raw = (case map_of intent_names (js_trim (js_toLowerCase raw)) of Some i \<Rightarrow> i | None \<Rightarrow> IUnclear)"

definition with_source :: "staff_request \<Rightarrow> resolve_source \<Rightarrow> jstr option \<Rightarrow> staff_resolved" where
  "with_source r s reply = \<lparr>sr_intent = sr_intent r, sr_deal = sr_deal r, sr_query = sr_query r,
     sr_confidence = sr_confidence r, sr_raw = sr_raw r, sr_patch = sr_patch r, sv_source = s, sv_reply = reply\<rparr>"

definition GPT_ID_RE :: rx where
  "GPT_ID_RE = Rep True 8 None (Cls False [(48, 57), (97, 102), (45, 45)])"

definition gpt_ops_patch :: "jstr \<Rightarrow> staff_intent \<Rightarrow> gpt_answer \<Rightarrow> ops_patch option" where
  "gpt_ops_patch t intent a =
     (let heuristic = parseOpsHint t;
          p = (case heuristic of Some h \<Rightarrow> Some h
               | None \<Rightarrow> if intent = IOpsHint
                   then map_option (\<lambda>(r, m, s). \<lparr>op_route = r,
                          op_meta = Some (m\<lparr>om_hint := Some (js_or (om_hint m) (take 2000 t))\<rparr>),
                          op_summary = Some (js_or s (ru ''podskazka ot '' @ js ''GPT'')), op_rerun = Some False\<rparr>) (ga_patch a)
                   else None)
      in map_option (\<lambda>q. q\<lparr>op_rerun := Some (safeOpsRerunRfq (Some q) t)\<rparr>) p)"

definition callStaffGpt :: "jstr \<Rightarrow> jstr option \<Rightarrow> gpt_answer \<Rightarrow> staff_resolved" where
  "callStaffGpt t reply a =
     (let intent = normalizeIntent (ga_intent a);
          asked = (case ga_deal a of None \<Rightarrow> None | Some d \<Rightarrow> if rx_test True GPT_ID_RE d then Some (js_toLowerCase d) else None);
          dealId = (if asked \<noteq> None then asked else extractDealId t reply);
          confidence = (case ga_confidence a of None \<Rightarrow> 7/10 | Some c \<Rightarrow> max 0 (min 1 c));
          colleague = (case ga_reply a of None \<Rightarrow> None | Some c \<Rightarrow> if js_trim c = [] then None else Some (take 3500 (js_trim c)));
          query = (case ga_query a of None \<Rightarrow> None | Some q \<Rightarrow> if q = [] then None else Some (take 200 q));
          patch = gpt_ops_patch t intent a
      in if intent = IObserve
         then \<lparr>sr_intent = IObserve, sr_deal = dealId, sr_query = None, sr_confidence = confidence, sr_raw = t,
                sr_patch = None, sv_source = ByGpt, sv_reply = None\<rparr>
         else \<lparr>sr_intent = (if intent \<noteq> IAnswer \<and> patch \<noteq> None \<and> intent = IUnclear then IOpsHint else intent),
                sr_deal = dealId, sr_query = query, sr_confidence = confidence, sr_raw = t, sr_patch = patch,
                sv_source = ByGpt, sv_reply = colleague\<rparr>)"

definition skip_gpt :: "staff_intent \<Rightarrow> bool" where
  "skip_gpt i \<longleftrightarrow> i \<in> {IHelp, IStatus, IEscalations, IAwaiting, IApproveKp, IRejectDeal, ITakeover, IPause, IResume, ICut3,
     ISetActive, IApproveRfq, IOpsHint}"

text \<open>\<open>gpt\<close> is the answer of the model, \<open>None\<close> when there is no key, the request fails or the answer is not JSON.\<close>

definition resolveStaffPeerRequest :: "penv \<Rightarrow> gpt_answer option \<Rightarrow> jstr \<Rightarrow> jstr option \<Rightarrow> staff_resolved" where
  "resolveStaffPeerRequest env gpt t reply =
     (let h = parseStaffPeerIntent t reply
      in if (skip_gpt (sr_intent h) \<and> 85/100 \<le> sr_confidence h) \<or> \<not> switched_on env ''TG_STAFF_GPT''
         then with_source h ByRegex None
         else case gpt of None \<Rightarrow> with_source h ByRegex None
         | Some a \<Rightarrow>
             let g = callStaffGpt t reply a;
                 dealId = (if sr_deal g \<noteq> None then sr_deal g else sr_deal h)
             in if sr_intent g \<noteq> IUnclear \<or> sv_reply g \<noteq> None
                then g\<lparr>sr_deal := dealId, sr_patch := (if sr_patch g \<noteq> None then sr_patch g else sr_patch h),
                       sr_intent := (if sr_intent g = IUnclear \<and> sr_intent h = IOpsHint then IOpsHint else sr_intent g),
                       sv_source := (if sr_intent h \<noteq> IUnclear then ByBoth else ByGpt)\<rparr>
                else (with_source h ByBoth (sv_reply g))\<lparr>sr_deal := dealId,
                       sr_patch := (if sr_patch h \<noteq> None then sr_patch h else sr_patch g)\<rparr>)"

subsection \<open>Applying a hint to a deal\<close>

definition over :: "'a option \<Rightarrow> 'a option \<Rightarrow> 'a option" where
  "over a b = (case b of None \<Rightarrow> a | Some v \<Rightarrow> Some v)"

text \<open>\<open>{...a, ...b}\<close>\<close>

definition merge_route :: "ops_route \<Rightarrow> ops_route \<Rightarrow> ops_route" where
  "merge_route a b = \<lparr>rt_scheme = over (rt_scheme a) (rt_scheme b), rt_transport = over (rt_transport a) (rt_transport b),
     rt_corridor = over (rt_corridor a) (rt_corridor b), rt_origin = over (rt_origin a) (rt_origin b),
     rt_pickup = over (rt_pickup a) (rt_pickup b), rt_region = over (rt_region a) (rt_region b),
     rt_destination = over (rt_destination a) (rt_destination b)\<rparr>"

definition merge_meta :: "ops_meta \<Rightarrow> ops_meta \<Rightarrow> ops_meta" where
  "merge_meta a b = \<lparr>om_hint = over (om_hint a) (om_hint b), om_scheme = over (om_scheme a) (om_scheme b),
     om_operators = over (om_operators a) (om_operators b), om_ask = over (om_ask a) (om_ask b),
     om_do_not_say = over (om_do_not_say a) (om_do_not_say b), om_rfq_body = over (om_rfq_body a) (om_rfq_body b),
     om_body_override = over (om_body_override a) (om_body_override b), om_cargo_name = over (om_cargo_name a) (om_cargo_name b),
     om_weights = over (om_weights a) (om_weights b), om_emails = over (om_emails a) (om_emails b),
     om_emails_only = over (om_emails_only a) (om_emails_only b), om_blocklist = over (om_blocklist a) (om_blocklist b),
     om_hold = over (om_hold a) (om_hold b), om_consult = over (om_consult a) (om_consult b),
     om_require = over (om_require a) (om_require b), om_apply_all = over (om_apply_all a) (om_apply_all b),
     om_manager_gate = over (om_manager_gate a) (om_manager_gate b), om_consignee = over (om_consignee a) (om_consignee b)\<rparr>"

definition hint_weight :: "ops_meta \<Rightarrow> rat option" where
  "hint_weight m =
     (let ws = filter (\<lambda>n. 0 < n) (case om_weights m of None \<Rightarrow> [] | Some w \<Rightarrow> w);
          c = js_toLowerCase (js_or (om_consignee m) [])
      in case ws of [] \<Rightarrow> None | [w] \<Rightarrow> Some (of_int w)
         | w0 # w1 # _ \<Rightarrow> Some (of_int (if js_includes c (ru ''pomo}nik'') then w1 else w0)))"

definition hint_cargo :: "ops_meta \<Rightarrow> bot_cargo \<Rightarrow> bot_cargo" where
  "hint_cargo m c =
     (let name = js_trim (js_or (om_cargo_name m) []);
          c1 = (if name \<noteq> [] then c\<lparr>bc_name := Some name,
                 bc_description := Some (js_join (js '', '') (filter (\<lambda>s. s \<noteq> [])
                   [name, if js_or (om_consignee m) [] \<noteq> [] then ru ''polu~atelx '' @ js_or (om_consignee m) [] else []]))\<rparr> else c);
          c2 = (case hint_weight m of None \<Rightarrow> c1 | Some w \<Rightarrow> c1\<lparr>bc_weight := Some w\<rparr>)
      in if bc_class c2 = None \<and> rx_test True (alts [rr ''kontejner'', ll ''40'', ll ''20'']) (js_or (bc_name c2) [])
         then c2\<lparr>bc_class := Some (js ''container'')\<rparr> else c2)"

definition truth :: "bool option \<Rightarrow> bool" where
  "truth b \<longleftrightarrow> b = Some True"

definition applyOpsHintToDeal :: "bot_api \<Rightarrow> jstr \<Rightarrow> ops_patch \<Rightarrow> jstr \<Rightarrow> bool \<Rightarrow> bot_effect list" where
  "applyOpsHintToDeal api dealId patch rawText silent =
     (case ba_deal api dealId of
        None \<Rightarrow> if silent then [] else [Say SNoDeal]
      | Some deal \<Rightarrow>
          let route = merge_route (bd_route deal) (case op_route patch of None \<Rightarrow> no_route | Some r \<Rightarrow> r);
              meta = merge_meta (bd_meta deal) (case op_meta patch of None \<Rightarrow> no_meta | Some m \<Rightarrow> m);
              cargo = hint_cargo meta (bd_cargo deal);
              hold = (truth (om_hold meta) \<or> truth (om_consult meta));
              gate = (truth (om_manager_gate meta) \<or> truth (om_require meta) \<or> hold);
              rerun = safeOpsRerunRfq (Some (patch\<lparr>op_meta := Some meta\<rparr>)) rawText;
              patched = PatchDeal dealId (no_patch\<lparr>bp_route := Some route, bp_cargo := Some cargo, bp_meta := Some meta,
                          bp_status := Some (js ''quoting''), bp_paused := Some gate\<rparr>)
          in if hold \<and> \<not> rerun
             then patched # (if silent then [] else
                    [Say (SApplied dealId (RfqPaused (case om_emails meta of None \<Rightarrow> [] | Some es \<Rightarrow> es)))])
             else [patched, ApplyHint dealId route cargo meta rerun]
               @ (if silent then [] else [Say (SApplied dealId
                    (case ba_apply api dealId of None \<Rightarrow> NoOrchestrator | Some None \<Rightarrow> RfqByHand
                     | Some (Some None) \<Rightarrow> CardUpdated | Some (Some (Some n)) \<Rightarrow> RfqSent n))]))"

subsection \<open>Answering a manager\<close>

definition resolveDealId :: "bot_api \<Rightarrow> staff_resolved \<Rightarrow> jstr option" where
  "resolveDealId api req =
     (let by_query = (case sr_query req of
              Some q \<Rightarrow> if q = [] then sr_deal req
                else (case ba_search api q 5 of [r] \<Rightarrow> Some (br_id r) | _ \<Rightarrow> sr_deal req)
            | None \<Rightarrow> sr_deal req)
      in case sr_deal req of
           Some d \<Rightarrow> if 45 \<in> set d then Some d
             else if 8 \<le> length d
             then (case find (\<lambda>r. starts_with (br_id r) d) (ba_search api d 5) of Some r \<Rightarrow> Some (br_id r) | None \<Rightarrow> by_query)
             else by_query
         | None \<Rightarrow> by_query)"

definition lite :: "bot_row \<Rightarrow> deal_lite" where
  "lite r = \<lparr>dl_id = br_id r, dl_status = br_status r, dl_destination = br_destination r, dl_name = br_name r\<rparr>"

definition replyDealCard :: "bot_api \<Rightarrow> jstr \<Rightarrow> bot_effect list" where
  "replyDealCard api dealId = [Say (case ba_deal api dealId of None \<Rightarrow> SNoDeal | Some _ \<Rightarrow> SCard dealId)]"

definition apply_all :: "bot_api \<Rightarrow> ops_patch \<Rightarrow> jstr \<Rightarrow> jstr list \<Rightarrow> bot_effect list" where
  "apply_all api patch t ids = concat (map (\<lambda>i. applyOpsHintToDeal api i patch t True) ids)"

text \<open>
  A hint that names no deal: either everything is done (\<open>Inl\<close>) or one deal is found (\<open>Inr\<close>).
\<close>

definition hint_target :: "bot_api \<Rightarrow> staff_resolved \<Rightarrow> ops_patch \<Rightarrow> jstr \<Rightarrow> bot_effect list + jstr" where
  "hint_target api req patch t =
     (let dest = js_or (case op_route patch of None \<Rightarrow> None | Some r \<Rightarrow> rt_destination r) [];
          q = (if dest \<noteq> [] then dest else js_or (op_summary patch) (take 80 (sr_raw req)));
          first = (if q = [] then Inr None
             else let (ids, amb) = pickOpenDealsForOpsHint (map lite (ba_search api (take 80 q) 10)) (Some patch) (text_or_none dest)
                  in if length ids = 1 then Inr (Some (hd ids))
                     else if 1 < length ids then Inl ([Say (SMany ids)] @ apply_all api patch t ids @ [Say SAllDone])
                     else if 1 < length amb then Inl [Say (SPickOne (map dl_id (take 8 amb)))]
                     else Inr None)
      in case first of Inl es \<Rightarrow> Inl es | Inr (Some d) \<Rightarrow> Inr d
         | Inr None \<Rightarrow>
             let rows = ba_status api (js ''quoting'') 5 @ ba_status api (js ''intake'') 5;
                 (ids, amb) = pickOpenDealsForOpsHint (map lite rows) (Some patch) None
             in if length ids = 1 then Inr (hd ids)
                else if 1 < length ids then Inl (apply_all api patch t ids @ [Say SAllDone])
                else if 1 < length amb then Inl [Say (SPickOne (take 8 (remdups (map dl_id amb))))]
                else Inl [Say (SClarify (staffPeerClarify (sr_intent req) (sr_deal req) (sr_query req)))])"

definition needs_deal :: "staff_intent \<Rightarrow> bool" where
  "needs_deal i \<longleftrightarrow> i \<in> {IApproveKp, IRejectDeal, ITakeover, IPause, IResume, ICut3, IDealCard, IOpsHint, ISetActive, IApproveRfq}"

definition cut3_patch :: "bot_deal \<Rightarrow> rat \<times> rat" where
  "cut3_patch d =
     (let base = (case bd_price d of Some p \<Rightarrow> if p = 0 then (case bd_amount d of None \<Rightarrow> 0 | Some a \<Rightarrow> a) else p
                  | None \<Rightarrow> (case bd_amount d of None \<Rightarrow> 0 | Some a \<Rightarrow> a));
          price = mul_js base (fl (97/100));
          cost = (case bd_cost d of None \<Rightarrow> 0 | Some c \<Rightarrow> c)
      in (price, if 0 < price then mul_js (div_js (sub_js price cost) price) 100 else 0))"

definition cut3_effect :: "jstr \<Rightarrow> bot_deal \<Rightarrow> bot_effect list" where
  "cut3_effect dealId d =
     (let (price, margin) = cut3_patch d
      in [PatchDeal dealId (no_patch\<lparr>bp_amount := Some price, bp_margin := Some margin, bp_price := Some price,
            bp_escalate := Some False, bp_status := Some (js ''negotiation'')\<rparr>), Say (SCut price margin)])"

definition takeover_effect :: "jstr \<Rightarrow> bot_effect list" where
  "takeover_effect dealId =
     [PatchDeal dealId (no_patch\<lparr>bp_takeover := Some True, bp_paused := Some True\<rparr>), VoiceTakeover dealId]"

definition deal_action :: "bot_api \<Rightarrow> staff_resolved \<Rightarrow> jstr \<Rightarrow> jstr \<Rightarrow> bot_effect list" where
  "deal_action api req t dealId =
     (case sr_intent req of
        ISetActive \<Rightarrow> [SetActive dealId, Say (if ba_pin api dealId then SActive dealId else SActiveFailed)]
      | IApproveRfq \<Rightarrow>
          (let deal = ba_deal api dealId;
               meta = (case deal of None \<Rightarrow> no_meta | Some d \<Rightarrow> bd_meta d)\<lparr>om_hold := Some False, om_consult := Some False, om_require := Some False\<rparr>
           in applyOpsHintToDeal api dealId \<lparr>op_route = map_option bd_route deal, op_meta = Some meta, op_summary = None, op_rerun = Some True\<rparr> t False)
      | IOpsHint \<Rightarrow>
          (case (case sr_patch req of Some p \<Rightarrow> Some p | None \<Rightarrow> parseOpsHint (sr_raw req)) of
             None \<Rightarrow> [Say SHintUnclear] | Some p \<Rightarrow> applyOpsHintToDeal api dealId p t False)
      | IDealCard \<Rightarrow> replyDealCard api dealId
      | IApproveKp \<Rightarrow> [ApproveKp dealId, Say (if ba_release api dealId then SKpReleased dealId else SKpContract dealId)]
      | IRejectDeal \<Rightarrow> [PatchDeal dealId (no_patch\<lparr>bp_status := Some (js ''cancelled''), bp_escalate := Some False\<rparr>), Say (SRejected dealId)]
      | ITakeover \<Rightarrow> takeover_effect dealId @ [Say (STakenOver dealId)]
      | IPause \<Rightarrow> [PatchDeal dealId (no_patch\<lparr>bp_paused := Some True\<rparr>), Say (SPaused dealId)]
      | IResume \<Rightarrow> [PatchDeal dealId (no_patch\<lparr>bp_paused := Some False, bp_takeover := Some False\<rparr>), Say (SResumed dealId)]
      | ICut3 \<Rightarrow> (case ba_deal api dealId of None \<Rightarrow> [Say SNoDeal] | Some d \<Rightarrow> cut3_effect dealId d)
      | _ \<Rightarrow> [])"

definition card_by_query :: "bot_api \<Rightarrow> jstr \<Rightarrow> bot_effect list" where
  "card_by_query api q =
     (let rows = ba_search api q 8; open_rows = filter (\<lambda>r. br_status r \<notin> set closed_names) rows;
          pool = (if open_rows \<noteq> [] then open_rows else rows)
      in case pool of [] \<Rightarrow> [Say (SNothingFound q)]
         | [r] \<Rightarrow> replyDealCard api (br_id r)
         | _ \<Rightarrow> [Say (SFoundSeveral (map br_id pool))])"

text \<open>The answer to a resolved request of someone who may speak.\<close>

definition answer_request :: "bot_api \<Rightarrow> staff_resolved \<Rightarrow> jstr \<Rightarrow> bot_effect list" where
  "answer_request api req t =
     (let dealId = resolveDealId api req;
          clarify_it = [Say (SClarify (staffPeerClarify (sr_intent req) (sr_deal req) (sr_query req)))]
      in if sr_intent req = IObserve then []
         else if sr_intent req = IAnswer
         then (case (parseOpsHint t, dealId) of
                 (Some soft, Some d) \<Rightarrow> applyOpsHintToDeal api d (soft\<lparr>op_rerun := Some False\<rparr>) t True
                    @ [Say (case sv_reply req of Some c \<Rightarrow> SText c | None \<Rightarrow> SLearned d)]
               | _ \<Rightarrow> [Say (case sv_reply req of Some c \<Rightarrow> SText c | None \<Rightarrow> SLearnedNoDeal)])
         else if sr_intent req = IHelp then [Say SHelp]
         else if sr_intent req = IStatus then [Say (if ba_stats api then SStats else SNoStats)]
         else if sr_intent req = IEscalations
         then (if ba_escalations api = [] then [Say SNoEscalations]
               else Say (SEscalations (length (ba_escalations api))) # map (Say \<circ> SEscalation) (take 5 (ba_escalations api)))
         else if sr_intent req = IAwaiting
         then (let rows = ba_status api (js ''awaiting_manager'') 10
               in if rows = [] then [Say SNoAwaiting] else [Say (SAwaiting (map br_id (take 8 rows)))])
         else if needs_deal (sr_intent req)
         then (case dealId of
                 Some d \<Rightarrow> deal_action api req t d
               | None \<Rightarrow>
                   if sr_intent req = IOpsHint \<and> sr_patch req \<noteq> None
                   then (case hint_target api req (the (sr_patch req)) t of Inl es \<Rightarrow> es | Inr d \<Rightarrow> deal_action api req t d)
                   else if sr_intent req = IDealCard \<and> js_or (sr_query req) [] \<noteq> [] then card_by_query api (the (sr_query req))
                   else clarify_it)
         else case sv_reply req of Some c \<Rightarrow> [Say (SText c)] | None \<Rightarrow> clarify_it)"

definition handleStaffPeer :: "penv \<Rightarrow> bot_opts \<Rightarrow> bot_api \<Rightarrow> gpt_answer option \<Rightarrow> staff_inbound \<Rightarrow> bot_effect list" where
  "handleStaffPeer env opts api gpt msg =
     (if \<not> canStaffTalk env opts (sg_chat msg) (sg_user msg) then [Say SDenied]
      else answer_request api (resolveStaffPeerRequest env gpt (sg_text msg) (sg_reply_text msg)) (sg_text msg))"

text \<open>
  The dispatcher of the staff room: the message is put into the learning log, then answered. The request is
  resolved twice, so the model is asked twice.
\<close>

definition learn_deal :: "staff_inbound \<Rightarrow> jstr option" where
  "learn_deal msg =
     map_option js_toLowerCase (rx_group True (sq [Wb, Cap 1 uuid_rx, Wb]) 1 (sg_text msg @ [10] @ js_or (sg_reply_text msg) []))"

definition staffDispatcher :: "penv \<Rightarrow> bot_opts \<Rightarrow> bot_api \<Rightarrow> gpt_answer option \<Rightarrow> gpt_answer option \<Rightarrow> staff_inbound \<Rightarrow> bot_effect list" where
  "staffDispatcher env opts api gpt1 gpt2 msg =
     (let req = resolveStaffPeerRequest env gpt1 (sg_text msg) (sg_reply_text msg)
      in Learn (learn_deal msg) (take 4000 (sg_text msg)) (staffTrainingKind (sr_intent req) (sr_raw req)) (sr_intent req)
           # handleStaffPeer env opts api gpt2 msg)"

text \<open>The thread and the quoted message of a reply.\<close>

definition staff_reply_extra :: "penv \<Rightarrow> topic_ids \<Rightarrow> staff_intent \<Rightarrow> staff_inbound \<Rightarrow> rat option \<times> int option" where
  "staff_reply_extra env ids intent msg =
     (nonzero_id (threadIdForReply env ids (map_option of_int (sg_thread msg)) (Some intent)), id_or_none (sg_message msg))"

subsection \<open>Slash commands\<close>

datatype bot_command = CStart | CHelp | CStaffSync | CAccounts | CStatus | CPolicy | CMargin jstr | CFloor jstr | CLearn bool
  | CPause jstr | CResume jstr | CTakeover jstr | CCall jstr | CDeal jstr | CEscalations | CPlaybooks

text \<open>An identifier after a command: the rest of the message, trimmed.\<close>

definition with_id :: "jstr \<Rightarrow> (jstr \<Rightarrow> bot_effect list) \<Rightarrow> bot_effect list" where
  "with_id arg f = (let d = js_trim arg in if d = [] then [Say SUsage] else f d)"

text \<open>\<open>client\<close> tells whether a user account is connected. Text that only shows data is \<open>SData\<close>.\<close>

definition show_command :: "bool \<Rightarrow> bot_command \<Rightarrow> bot_effect list" where
  "show_command client c =
     (case c of
        CStart \<Rightarrow> [Say SStart]
      | CHelp \<Rightarrow> [Say SHelp]
      | CStaffSync \<Rightarrow> if client then [Say SData, SyncHistory, Say SSynced] else [Say SSyncOff]
      | CAccounts \<Rightarrow> [Say SData]
      | CStatus \<Rightarrow> [Say SData]
      | CPolicy \<Rightarrow> [Say SData]
      | _ \<Rightarrow> [])"

definition list_escalations :: "bot_api \<Rightarrow> bot_effect list" where
  "list_escalations api =
     (if ba_escalations api = [] then [Say SNoEscalations] else map (Say \<circ> SEscalation) (take 10 (ba_escalations api)))"

definition list_playbooks :: "bot_api \<Rightarrow> bot_effect list" where
  "list_playbooks api = (if ba_playbooks api = [] then [Say SData] else map (\<lambda>_. Say SData) (take 10 (ba_playbooks api)))"

definition command_effect :: "bot_api \<Rightarrow> bool \<Rightarrow> bot_command \<Rightarrow> bot_effect list" where
  "command_effect api client c =
     (case c of
        CMargin arg \<Rightarrow> (case js_Number arg of Num v \<Rightarrow> [PutPolicy (TargetMargin v), Say SDone] | _ \<Rightarrow> [Say SUsage])
      | CFloor arg \<Rightarrow> (case js_Number arg of Num v \<Rightarrow> [PutPolicy (FloorMargin v), Say SDone] | _ \<Rightarrow> [Say SUsage])
      | CLearn b \<Rightarrow> [PutPolicy (LearningEnabled b), Say SDone]
      | CPause arg \<Rightarrow> with_id arg (\<lambda>d. [PatchDeal d (no_patch\<lparr>bp_paused := Some True\<rparr>), Say (SPaused d)])
      | CResume arg \<Rightarrow> with_id arg (\<lambda>d. [PatchDeal d (no_patch\<lparr>bp_paused := Some False, bp_takeover := Some False\<rparr>), Say (SResumed d)])
      | CTakeover arg \<Rightarrow> with_id arg (\<lambda>d. takeover_effect d @ [Say (STakenOver d)])
      | CCall arg \<Rightarrow> with_id arg (\<lambda>d. [Say SData])
      | CDeal arg \<Rightarrow> with_id arg (replyDealCard api)
      | CEscalations \<Rightarrow> list_escalations api
      | CPlaybooks \<Rightarrow> list_playbooks api
      | _ \<Rightarrow> show_command client c)"

definition run_command :: "bot_opts \<Rightarrow> bot_api \<Rightarrow> bool \<Rightarrow> int option \<Rightarrow> bot_command \<Rightarrow> bot_effect list" where
  "run_command opts api client user c =
     (if c \<noteq> CStart \<and> \<not> isManager opts user then [Say SDenied] else command_effect api client c)"

subsection \<open>Buttons\<close>

datatype button = DealButton staff_intent | EscButton bool | PbButton jstr

text \<open>The data of a button is a prefix and an identifier; the keyboards print all but the last prefix.\<close>

definition button_prefixes :: "(jstr \<times> button) list" where
  "button_prefixes =
     [(js ''deal:approve_kp:'', DealButton IApproveKp), (js ''deal:cut3:'', DealButton ICut3),
      (js ''deal:takeover:'', DealButton ITakeover), (js ''deal:reject:'', DealButton IRejectDeal),
      (js ''esc:approve:'', EscButton True), (js ''esc:reject:'', EscButton False),
      (js ''pb:canary:'', PbButton (js ''canary'')), (js ''pb:rejected:'', PbButton (js ''rejected'')),
      (js ''pb:active:'', PbButton (js ''active''))]"

definition one_line :: "jstr \<Rightarrow> bool" where
  "one_line s \<longleftrightarrow> s \<noteq> [] \<and> list_all (\<lambda>c. \<not> js_eol c) s"

definition parse_button :: "jstr \<Rightarrow> (button \<times> jstr) option" where
  "parse_button d =
     (case find (\<lambda>(p, b). starts_with d p) button_prefixes of
        None \<Rightarrow> None
      | Some (p, b) \<Rightarrow> if one_line (drop (length p) d) then Some (b, drop (length p) d) else None)"

text \<open>
  What a press does. The reading of the deal for a discount is not checked: an error reply counts as a deal
  without a price.
\<close>

definition no_bot_deal :: bot_deal where
  "no_bot_deal = \<lparr>bd_cargo = \<lparr>bc_name = None, bc_description = None, bc_weight = None, bc_class = None\<rparr>, bd_route = no_route,
     bd_meta = no_meta, bd_price = None, bd_amount = None, bd_cost = None\<rparr>"

definition deal_button_effect :: "bot_api \<Rightarrow> staff_intent \<Rightarrow> jstr \<Rightarrow> bot_effect list" where
  "deal_button_effect api i d =
     (if i = ITakeover then takeover_effect d @ [Say (STakenOver d)]
      else if i = IRejectDeal
      then [PatchDeal d (no_patch\<lparr>bp_status := Some (js ''cancelled''), bp_escalate := Some False\<rparr>), Say (SRejected d)]
      else if i = ICut3 then cut3_effect d (case ba_deal api d of None \<Rightarrow> no_bot_deal | Some x \<Rightarrow> x)
      else [ApproveKp d, Say (if ba_release api d then SKpReleased d else SKpContract d)])"

definition button_effect :: "bot_api \<Rightarrow> button \<Rightarrow> jstr \<Rightarrow> bot_effect list" where
  "button_effect api b d =
     (case b of
        DealButton i \<Rightarrow> deal_button_effect api i d
      | EscButton yes \<Rightarrow> [DecideEscalation d yes, Say SDone]
      | PbButton decision \<Rightarrow> [DecidePlaybook d decision, Say SDone])"

definition press :: "bot_opts \<Rightarrow> bot_api \<Rightarrow> int option \<Rightarrow> jstr \<Rightarrow> bot_effect list" where
  "press opts api user data =
     (case parse_button data of None \<Rightarrow> []
      | Some (b, d) \<Rightarrow> if isManager opts user then button_effect api b d else [Say SDenied])"

subsection \<open>Messages the bot receives itself\<close>

datatype text_entity = Mention nat nat | TextMention "int option" | OtherEntity

record quoted_msg =
  qm_id :: int
  qm_text :: "jstr option"
  qm_from :: "(int \<times> bool) option"

record bot_message =
  bx_chat :: int
  bx_type :: jstr
  bx_id :: int
  bx_thread :: "int option"
  bx_user :: "int option"
  bx_username :: "jstr option"
  bx_first :: "jstr option"
  bx_last :: "jstr option"
  bx_text :: jstr
  bx_entities :: "text_entity list"
  bx_quoted :: "quoted_msg option"

definition mentions_bot :: "jstr \<Rightarrow> int \<Rightarrow> bot_message \<Rightarrow> bool" where
  "mentions_bot username botId m \<longleftrightarrow>
     list_ex (\<lambda>e. case e of
        Mention off len \<Rightarrow> js_includes (js_toLowerCase (take len (drop off (bx_text m)))) (64 # js_toLowerCase username)
      | TextMention u \<Rightarrow> u = Some botId | OtherEntity \<Rightarrow> False) (bx_entities m)"

definition bot_inbound :: "bot_message \<Rightarrow> jstr \<Rightarrow> staff_inbound" where
  "bot_inbound m t = \<lparr>sg_chat = bx_chat m, sg_user = bx_user m, sg_message = Some (bx_id m), sg_thread = bx_thread m,
     sg_reply_to = map_option qm_id (bx_quoted m), sg_text = t,
     sg_reply_text = (case bx_quoted m of None \<Rightarrow> None | Some q \<Rightarrow> qm_text q), sg_username = bx_username m,
     sg_name = Some (js_join [32] (filter (\<lambda>s. s \<noteq> []) [js_or (bx_first m) [], js_or (bx_last m) []])), sg_source = FromBot\<rparr>"

definition bot_text_msg :: "penv \<Rightarrow> jstr \<Rightarrow> int \<Rightarrow> bot_message \<Rightarrow> staff_inbound option" where
  "bot_text_msg env username botId m =
     (if starts_with (bx_text m) [47] then None
      else if shouldHandleStaffPeer env \<lparr>pl_text = bx_text m, pl_chat = bx_chat m, pl_type = Some (bx_type m),
                pl_mentioned = mentions_bot username botId m,
                pl_reply_to_bot = (case bx_quoted m of None \<Rightarrow> False | Some q \<Rightarrow> qm_from q = Some (botId, True)), pl_command = False\<rparr>
      then Some (bot_inbound m (bx_text m)) else None)"

text \<open>A voice message: \<open>None\<close> when it could not be fetched or its transcription failed with an exception.\<close>

definition bot_voice_text :: "jstr \<Rightarrow> (inbound_media \<times> jstr option) option \<Rightarrow> jstr" where
  "bot_voice_text caption0 got =
     (let caption = js_trim caption0
      in case got of Some (md, said) \<Rightarrow> js_trim (composeInboundText caption (Some md) said ToStaff)
         | None \<Rightarrow> js_or (Some caption) (ru ''Ne udalosx raspoznatx golosowoe. Napi{ite tekstom.''))"

definition bot_voice_msg :: "penv \<Rightarrow> bot_message \<Rightarrow> jstr \<Rightarrow> staff_inbound option" where
  "bot_voice_msg env m t =
     (if t = [] then None
      else if shouldHandleStaffPeer env \<lparr>pl_text = t, pl_chat = bx_chat m, pl_type = Some (bx_type m), pl_mentioned = True,
                pl_reply_to_bot = (case bx_quoted m of None \<Rightarrow> False | Some q \<Rightarrow> (case qm_from q of None \<Rightarrow> False | Some (_, b) \<Rightarrow> b)),
                pl_command = False\<rparr>
      then Some (bot_inbound m t) else None)"

subsection \<open>Outsiders\<close>

lemma outsider_not_manager: "\<not> isManager opts u \<Longrightarrow> bo_managers opts \<noteq> []"
  by (auto simp: isManager_def)

lemma press_shape: "press opts api u data \<in> {[], [Say SDenied]}" if "\<not> isManager opts u"
  using that by (auto simp: press_def split: option.splits)

text \<open>
  C20. Someone who is neither in the staff room nor a listed manager is only refused: commands, buttons and
  messages have no effect on deals, policy or escalations. The message is nevertheless put into the learning log.
\<close>

theorem outsiders_change_nothing:
  assumes "\<not> canStaffTalk env opts (sg_chat msg) (sg_user msg)"
  shows "staffDispatcher env opts api gpt1 gpt2 msg
       = [Learn (learn_deal msg) (take 4000 (sg_text msg))
            (let r = resolveStaffPeerRequest env gpt1 (sg_text msg) (sg_reply_text msg) in staffTrainingKind (sr_intent r) (sr_raw r))
            (sr_intent (resolveStaffPeerRequest env gpt1 (sg_text msg) (sg_reply_text msg))), Say SDenied]
     \<and> (run_command opts api client (sg_user msg) c = [Say SDenied] \<or> run_command opts api client (sg_user msg) c = [Say SStart])
     \<and> (press opts api (sg_user msg) data = [] \<or> press opts api (sg_user msg) data = [Say SDenied])"
proof -
  have "\<not> isManager opts (sg_user msg)" using assms by (simp add: canStaffTalk_def)
  with press_shape[OF this, of api data] assms show ?thesis
    by (auto simp: staffDispatcher_def handleStaffPeer_def Let_def run_command_def command_effect_def show_command_def)
qed

subsection \<open>Requests to suppliers\<close>

lemma apply_hint_sends:
  assumes "ApplyHint d r c m True \<in> set (applyOpsHintToDeal api i patch t silent)" "\<not> send_now t"
  shows "om_hold m \<noteq> Some True \<and> om_consult m \<noteq> Some True \<and> (om_emails m = None \<or> om_emails m = Some [])
     \<and> js_or (om_rfq_body m) [] = []"
proof -
  obtain deal where d: "ba_deal api i = Some deal"
    using assms(1) by (cases "ba_deal api i") (auto simp: applyOpsHintToDeal_def split: if_splits)
  have "safeOpsRerunRfq (Some (patch\<lparr>op_meta := Some m\<rparr>)) t"
    using assms(1) d by (auto simp: applyOpsHintToDeal_def Let_def split: if_splits option.splits)
  then show ?thesis using safe_without_permission[of "patch\<lparr>op_meta := Some m\<rparr>" m t] assms(2) by simp
qed

text \<open>A card that stops requests: it is on hold, under discussion, restricted to given addresses or has a draft.\<close>

definition restricted :: "ops_meta \<Rightarrow> bool" where
  "restricted m \<longleftrightarrow> om_hold m = Some True \<or> om_consult m = Some True \<or> om_emails m \<notin> {None, Some []} \<or> js_or (om_rfq_body m) [] \<noteq> []"

definition quiet_effect :: "bot_effect \<Rightarrow> bool" where
  "quiet_effect e = (case e of ApplyHint _ _ _ m b \<Rightarrow> \<not> b \<or> \<not> restricted m | _ \<Rightarrow> True)"

lemma quiet_Say [simp]: "quiet_effect (Say x)" "quiet_effect (PatchDeal d p)" "quiet_effect (SetActive d)" "quiet_effect (ApproveKp d)"
  "quiet_effect (VoiceTakeover d)"
  by (simp_all add: quiet_effect_def)

lemma quiet_apply:
  assumes "\<not> send_now t" "e \<in> set (applyOpsHintToDeal api i patch t silent)"
  shows "quiet_effect e"
proof (cases "\<exists>d r c m. e = ApplyHint d r c m True")
  case True
  then show ?thesis using apply_hint_sends assms by (fastforce simp: quiet_effect_def restricted_def)
next
  case False
  then show ?thesis by (cases e) (auto simp: quiet_effect_def)
qed

lemma quiet_apply_all: "\<not> send_now t \<Longrightarrow> e \<in> set (apply_all api patch t ids) \<Longrightarrow> quiet_effect e"
  by (auto simp: apply_all_def quiet_apply)

lemma quiet_target: "\<not> send_now t \<Longrightarrow> hint_target api req patch t = Inl es \<Longrightarrow> e \<in> set es \<Longrightarrow> quiet_effect e"
  by (auto simp: hint_target_def Let_def quiet_apply_all split: prod.splits if_splits sum.splits option.splits)

lemma quiet_action: "\<not> send_now t \<Longrightarrow> e \<in> set (deal_action api req t d) \<Longrightarrow> quiet_effect e"
  by (auto simp: deal_action_def Let_def quiet_apply replyDealCard_def takeover_effect_def cut3_effect_def
      split: staff_intent.splits if_splits option.splits prod.splits)

lemma quiet_answer: "\<not> send_now t \<Longrightarrow> e \<in> set (answer_request api req t) \<Longrightarrow> quiet_effect e"
  by (auto simp: answer_request_def Let_def quiet_apply quiet_action quiet_target card_by_query_def replyDealCard_def
      split: if_splits option.splits sum.splits list.splits)

text \<open>
  C16. Whatever a message of the room is resolved to and whatever the model answers, requests to suppliers
  go out without a word of permission only for a card that is not on hold, not under discussion, not restricted to
  given addresses and without a draft.
\<close>

theorem no_requests_without_permission:
  assumes "\<not> send_now (sg_text msg)" "ApplyHint d r c m True \<in> set (staffDispatcher env opts api gpt1 gpt2 msg)"
  shows "om_hold m \<noteq> Some True \<and> om_consult m \<noteq> Some True \<and> (om_emails m = None \<or> om_emails m = Some []) \<and> js_or (om_rfq_body m) [] = []"
proof -
  have "ApplyHint d r c m True \<in> set (answer_request api (resolveStaffPeerRequest env gpt2 (sg_text msg) (sg_reply_text msg)) (sg_text msg))"
    using assms(2) by (auto simp: staffDispatcher_def handleStaffPeer_def Let_def split: if_splits)
  from quiet_answer[OF assms(1) this] show ?thesis by (auto simp: quiet_effect_def restricted_def)
qed

subsection \<open>Buttons\<close>

definition button_data :: "button \<Rightarrow> jstr \<Rightarrow> jstr" where
  "button_data b d =
     (case find (\<lambda>(p, b'). b' = b) button_prefixes of Some (p, _) \<Rightarrow> p @ d | None \<Rightarrow> d)"

text \<open>
  The data of every button the bot knows is read back as that button and that identifier.
\<close>

theorem button_roundtrip:
  assumes "b \<in> set (map snd button_prefixes)" "one_line d"
  shows "parse_button (button_data b d) = Some (b, d)"
  using assms by (auto simp: button_prefixes_def button_data_def parse_button_def js_def)


theorem button_roundtrip_witness:
  "parse_button (button_data (DealButton ICut3) (js ''ab-1'')) = Some (DealButton ICut3, js ''ab-1'')"
  by (rule button_roundtrip) (simp_all add: button_prefixes_def one_line_def js_def js_eol_def)

definition acts :: "bot_effect list \<Rightarrow> bot_effect list" where
  "acts = filter (\<lambda>e. case e of Say _ \<Rightarrow> False | _ \<Rightarrow> True)"


lemma no_deal_cut: "cut3_patch no_bot_deal = (0, 0)"
  by (simp add: cut3_patch_def no_bot_deal_def mul_js_def Let_def)

lemma cut_button_zeroes:
  assumes "isManager opts u" "one_line d" "ba_deal api d = None"
  shows "PatchDeal d (no_patch\<lparr>bp_amount := Some 0, bp_margin := Some 0, bp_price := Some 0, bp_escalate := Some False,
     bp_status := Some (js ''negotiation'')\<rparr>) \<in> set (press opts api u (button_data (DealButton ICut3) d))"
proof -
  have "DealButton ICut3 \<in> set (map snd button_prefixes)" by (simp add: button_prefixes_def)
  from button_roundtrip[OF this assms(2)] show ?thesis
    using assms by (simp add: press_def button_effect_def deal_button_effect_def cut3_effect_def no_deal_cut)
qed

lemma empty_margin_zeroes: "command_effect api client (CMargin []) = [PutPolicy (TargetMargin 0), Say SDone]"
  by (simp add: command_effect_def js_Number_def js_trim_def)

lemma nobody_listed_all_managers: "bo_managers opts = [] \<Longrightarrow> isManager opts u"
  by (simp add: isManager_def)

text \<open>A hint always takes the deal back to quoting and sets its pause anew, whatever its state.\<close>

lemma hint_resets_deal:
  "ba_deal api i = Some x \<Longrightarrow> \<exists>p. hd (applyOpsHintToDeal api i patch t silent) = PatchDeal i p \<and> bp_status p = Some (js ''quoting'')
     \<and> bp_paused p \<noteq> None"
  by (auto simp: applyOpsHintToDeal_def Let_def no_patch_def)

text \<open>Approving requests of a deal restricted to given addresses does not send them.\<close>

lemma approval_of_listed_addresses:
  assumes "ba_deal api i = Some x" "om_emails (bd_meta x) = Some (e # es)" "\<not> send_now t"
  shows "ApplyHint d r c m True \<notin> set (deal_action api (req\<lparr>sr_intent := IApproveRfq\<rparr>) t i)"
proof
  assume "ApplyHint d r c m True \<in> set (deal_action api (req\<lparr>sr_intent := IApproveRfq\<rparr>) t i)"
  then have a: "ApplyHint d r c m True \<in> set (applyOpsHintToDeal api i \<lparr>op_route = Some (bd_route x),
      op_meta = Some (bd_meta x\<lparr>om_hold := Some False, om_consult := Some False, om_require := Some False\<rparr>),
      op_summary = None, op_rerun = Some True\<rparr> t False)"
    using assms(1) by (simp add: deal_action_def Let_def)
  then have "om_emails m = Some (e # es)"
    using assms(1,2) by (auto simp: applyOpsHintToDeal_def Let_def merge_meta_def over_def split: if_splits)
  then show False using apply_hint_sends[OF a assms(3)] by simp
qed

lemma pick_single: "dl_status d \<notin> set closed_names \<Longrightarrow> pickOpenDealsForOpsHint [d] patch prefer = ([dl_id d], [])"
  by (simp add: pickOpenDealsForOpsHint_def Let_def)

definition w_row :: bot_row where
  "w_row = \<lparr>br_id = js ''d1'', br_status = js ''quoting'', br_destination = None, br_name = []\<rparr>"

definition w_api :: bot_api where
  "w_api = \<lparr>ba_search = \<lambda>_ _. [w_row], ba_status = \<lambda>_ _. [w_row], ba_deal = \<lambda>_. Some no_bot_deal, ba_stats = True,
     ba_escalations = [], ba_playbooks = [], ba_apply = \<lambda>_. None, ba_pin = \<lambda>_. True, ba_release = \<lambda>_. True\<rparr>"

definition w_msg :: "jstr \<Rightarrow> staff_inbound" where
  "w_msg t = \<lparr>sg_chat = 5, sg_user = Some 7, sg_message = Some 1, sg_thread = None, sg_reply_to = None, sg_text = t,
     sg_reply_text = None, sg_username = None, sg_name = None, sg_source = FromBot\<rparr>"

lemma w_not_staff_chat: "\<not> same_chat_number c []"
  by (simp add: same_chat_number_def js_Number_def js_trim_def)

theorem outsiders_change_nothing_witness:
  "run_command \<lparr>bo_managers = [9]\<rparr> w_api True (Some 7) (CPause (js ''d1'')) = [Say SDenied]"
  using outsiders_change_nothing[of "[]" "\<lparr>bo_managers = [9]\<rparr>" "w_msg []" w_api None None True "CPause (js ''d1'')" "[]"]
  by (simp add: canStaffTalk_def isManager_def w_msg_def w_not_staff_chat run_command_def js_or_def env_get_def)

lemma rail_low: "squeeze_spaces False (js_toLowerCase (ru ''psvws'')) = ru ''psvws''"
  by (simp add: ru_eval js_text_eval)

lemma rail_no_deal: "extractDealId (ru ''psvws'') None = None"
  by (simp add: extractDealId_def UUID_RE_def SHORT_ID_RE_def BARE_ID_RE_def uuid_rx_def hex_n_def rx_group_def js_or_def
      rr_def ll_def ru_eval rx_eval Let_def)

lemma rail_plain: "list_all (\<lambda>r. \<not> rx_test False r (ru ''psvws'')) [HELP_RE, ESCALATIONS_RE, STATUS_RE, CALC_RE, AWAITING_RE]"
  "\<not> rx_test True CLIENT_RE (ru ''psvws'')" "list_all (\<lambda>(i, r, _). \<not> rx_test i r (ru ''psvws'')) action_table"
  by (simp_all add: action_table_def intent_regexes rr_def ll_def yo_def ru_eval rx_eval)


lemma rail_request:
  "\<exists>p. parseStaffPeerIntent (ru ''psvws'') None = (sr_make IOpsHint None None (72/100) (ru ''psvws''))\<lparr>sr_patch := Some p\<rparr>
     \<and> parseOpsHint (ru ''psvws'') = Some p \<and> op_meta p = Some (hint_meta (ru ''psvws''))"
proof -
  obtain p where p: "parseOpsHint (ru ''psvws'') = Some p" "op_meta p = Some (hint_meta (ru ''psvws''))"
    using rail_parsed by blast
  have f: "find (\<lambda>(ic, r, _). rx_test ic r (ru ''psvws'')) action_table = None"
    using rail_plain(3) unfolding list_all_iff find_None_iff by auto
  have n: "extractDealId (js_or None []) None = None"
    by (simp add: extractDealId_def UUID_RE_def SHORT_ID_RE_def BARE_ID_RE_def uuid_rx_def hex_n_def rx_group_def js_or_def
      rr_def ll_def ru_eval rx_eval Let_def)
  show ?thesis
    using rail_plain(1,2) p
    unfolding parseStaffPeerIntent_def Let_def rail_trim rail_low rail_no_deal n f p(1)
    by (simp add: sr_make_def)
qed

lemma summary_said: "parseOpsHint t = Some p \<Longrightarrow> js_or (op_summary p) [] \<noteq> []"
  by (auto simp: parseOpsHint_def Let_def js_or_def ru_eval split: if_splits)

lemma w_target:
  assumes "js_or (op_summary p) [] \<noteq> []"
  shows "hint_target w_api req p t = Inr (js ''d1'')"
proof -
  have o: "dl_status (lite w_row) \<notin> set closed_names" by (simp add: lite_def w_row_def closed_names_def js_def)
  have i: "dl_id (lite w_row) = js ''d1''" by (simp add: lite_def w_row_def)
  define dest where "dest = js_or (case op_route p of None \<Rightarrow> None | Some r \<Rightarrow> rt_destination r) []"
  define q where "q = (if dest \<noteq> [] then dest else js_or (op_summary p) (take 80 (sr_raw req)))"
  have "js_or (op_summary p) (take 80 (sr_raw req)) = js_or (op_summary p) []"
    using assms by (cases "op_summary p") (auto simp: js_or_def)
  then have "q \<noteq> []" using assms by (simp add: q_def)
  then show ?thesis
    unfolding hint_target_def Let_def dest_def[symmetric] q_def[symmetric]
    by (simp add: w_api_def pick_single[OF o] i)
qed

lemma w_resolved:
  assumes "parseStaffPeerIntent t None = (sr_make IOpsHint None None (72/100) t)\<lparr>sr_patch := Some p\<rparr>"
  shows "resolveStaffPeerRequest env None t None = with_source ((sr_make IOpsHint None None (72/100) t)\<lparr>sr_patch := Some p\<rparr>) ByRegex None"
  unfolding resolveStaffPeerRequest_def assms Let_def by simp

theorem no_requests_without_permission_witness:
  "\<exists>d r c m. ApplyHint d r c m True \<in> set (staffDispatcher [] \<lparr>bo_managers = []\<rparr> w_api None None (w_msg (ru ''psvws'')))
     \<and> om_hold m \<noteq> Some True \<and> om_consult m \<noteq> Some True \<and> (om_emails m = None \<or> om_emails m = Some []) \<and> js_or (om_rfq_body m) [] = []"
proof -
  let ?t = "ru ''psvws''" and ?m = "w_msg (ru ''psvws'')"
  obtain p where p: "parseStaffPeerIntent ?t None = (sr_make IOpsHint None None (72/100) ?t)\<lparr>sr_patch := Some p\<rparr>"
    "parseOpsHint ?t = Some p" "op_meta p = Some (hint_meta ?t)" using rail_request by blast
  define req where "req = resolveStaffPeerRequest [] None ?t None"
  have req: "sr_intent req = IOpsHint" "sr_deal req = None" "sr_query req = None" "sr_patch req = Some p"
    unfolding req_def w_resolved[OF p(1)] by (simp_all add: with_source_def sr_make_def)
  have a: "answer_request w_api req ?t = applyOpsHintToDeal w_api (js ''d1'') p ?t False"
    using req w_target[OF summary_said[OF p(2)]]
    by (simp add: answer_request_def Let_def resolveDealId_def needs_deal_def deal_action_def)
  have r: "op_rerun p = Some True" "hint_allow ?t = None" "hint_block ?t = []" "\<not> hint_hold ?t"
    using rail_parsed p(2) rail_quiet by (auto simp: hint_allow_def hint_block_def rail_no_mail hint_hold_def)
  let ?mm = "merge_meta no_meta (hint_meta ?t)"
  have m: "om_hold ?mm = None" "om_consult ?mm = None" "om_emails ?mm = None" "om_rfq_body ?mm = None"
    using r rail_quiet rail_no_body
    by (simp_all add: merge_meta_def over_def hint_meta_def no_meta_def held_finally_def draft_only_def mail_rule_def hold_so_far_def)
  have s: "safeOpsRerunRfq (Some (p\<lparr>op_meta := Some ?mm\<rparr>)) ?t"
    using safe_without_permission[of "p\<lparr>op_meta := Some ?mm\<rparr>" ?mm ?t] rail_quiet r m by (simp add: js_or_def)
  have "\<exists>d r c. ApplyHint d r c ?mm True \<in> set (applyOpsHintToDeal w_api (js ''d1'') p ?t False)"
    using s m p(3) by (simp add: applyOpsHintToDeal_def w_api_def no_bot_deal_def Let_def truth_def)
  then obtain d r c where h: "ApplyHint d r c ?mm True \<in> set (staffDispatcher [] \<lparr>bo_managers = []\<rparr> w_api None None ?m)"
    using a by (auto simp: staffDispatcher_def handleStaffPeer_def canStaffTalk_def isManager_def w_msg_def req_def Let_def)
  have "\<not> send_now (sg_text ?m)" using rail_quiet by (simp add: w_msg_def)
  from no_requests_without_permission[OF this h] h show ?thesis by blast
qed


end
