(* ===== verification/StaffHistory.thy ===== *)
theory StaffHistory
  imports StaffBot "HOL-Library.AList"
begin

text \<open>
  The reading of old staff topics into the learning log (\<open>apps/tg-gateway/src/staffHistoryIngest.ts\<close>) and the
  one-shot bootstrap of the forum (\<open>staffForumBootstrap.ts\<close>). Telegram's pages of messages are parameters; the
  paging loop is a partial function, so that its termination is a theorem about the server.
\<close>

subsection \<open>Settings\<close>

definition historyLimit :: "penv \<Rightarrow> nat" where
  "historyLimit env =
     (case js_Number (js_or (env_get env ''TG_STAFF_HISTORY_LIMIT'') (js ''300'')) of
        Num n \<Rightarrow> if 0 < n then nat (min 1000 \<lfloor>n\<rfloor>) else 300 | _ \<Rightarrow> 300)"

subsection \<open>One page\<close>

record hist_item =
  hi_real :: bool
  hi_id :: int
  hi_text :: jstr
  hi_from :: "int option"
  hi_reply :: "forum_reply option"

record hist_user =
  hu_username :: "jstr option"
  hu_first :: "jstr option"
  hu_last :: "jstr option"
  hu_bot :: bool

record hist_page =
  hp_items :: "hist_item list"
  hp_users :: "(int \<times> hist_user) list"

record hist_entry =
  he_id :: int
  he_text :: jstr
  he_user :: "int option"
  he_username :: "jstr option"
  he_name :: "jstr option"
  he_thread :: rat
  he_reply :: "int option"
  he_bot :: bool

definition hist_kept :: "hist_item \<Rightarrow> bool" where
  "hist_kept i \<longleftrightarrow> hi_real i \<and> js_trim (hi_text i) \<noteq> []"

definition hist_entry_of :: "rat \<Rightarrow> rat \<Rightarrow> (int \<times> hist_user) list \<Rightarrow> hist_item \<Rightarrow> hist_entry" where
  "hist_entry_of topicId botId users i =
     (let user = (case id_or_none (hi_from i) of None \<Rightarrow> None | Some f \<Rightarrow> map_of (rev users) f);
          (thread, reply) = extractForumThreadIds (hi_reply i)
      in \<lparr>he_id = hi_id i, he_text = js_trim (hi_text i), he_user = hi_from i,
          he_username = (case user of None \<Rightarrow> None | Some u \<Rightarrow> text_or_none (js_or (hu_username u) [])),
          he_name = (case user of None \<Rightarrow> None | Some u \<Rightarrow>
             text_or_none (js_join [32] (filter (\<lambda>s. s \<noteq> []) [js_or (hu_first u) [], js_or (hu_last u) []]))),
          he_thread = (case thread of None \<Rightarrow> topicId | Some t \<Rightarrow> of_int t), he_reply = reply,
          he_bot = ((case user of None \<Rightarrow> False | Some u \<Rightarrow> hu_bot u)
                    \<or> (0 < botId \<and> (case hi_from i of None \<Rightarrow> False | Some f \<Rightarrow> of_int f = botId)))\<rparr>)"

definition page_entries :: "rat \<Rightarrow> rat \<Rightarrow> hist_page \<Rightarrow> hist_entry list" where
  "page_entries topicId botId p = map (hist_entry_of topicId botId (hp_users p)) (filter hist_kept (hp_items p))"

text \<open>The least identifier of a page, \<open>None\<close> for infinity: only real messages count.\<close>

definition page_min :: "hist_page \<Rightarrow> int option" where
  "page_min p = (case map hi_id (filter hi_real (hp_items p)) of [] \<Rightarrow> None | i # is \<Rightarrow> Some (fold min is i))"

subsection \<open>The paging loop\<close>

text \<open>
  \<open>replies offset batch\<close> is \<open>GetReplies\<close>, \<open>history batch\<close> the fallback \<open>GetHistory\<close>; \<open>None\<close> is an exception.
  The outer option is \<open>None\<close> when the loop does not end, the inner one when it throws.
\<close>

partial_function (option) fetch_loop :: "(int \<Rightarrow> nat \<Rightarrow> hist_page option) \<Rightarrow> (nat \<Rightarrow> hist_page option)
    \<Rightarrow> (hist_page \<Rightarrow> hist_entry list) \<Rightarrow> nat \<Rightarrow> int \<Rightarrow> hist_entry list \<Rightarrow> hist_entry list option option" where
  "fetch_loop replies history entries limit offset out =
     (if limit \<le> length out then Some (Some out)
      else let batch = min 100 (limit - length out)
      in case (case replies offset batch of Some p \<Rightarrow> Some p
                | None \<Rightarrow> if out = [] \<and> offset = 0 then history batch else None) of
           None \<Rightarrow> Some None
         | Some p \<Rightarrow>
             if hp_items p = [] then Some (Some out)
             else let out' = out @ entries p
             in case page_min p of
                  None \<Rightarrow> Some (Some out')
                | Some m \<Rightarrow>
                    if length (hp_items p) < batch \<or> m \<le> 0 then Some (Some out')
                    else fetch_loop replies history entries limit m out')"

definition fetchTopicHistory :: "(int \<Rightarrow> nat \<Rightarrow> hist_page option) \<Rightarrow> (nat \<Rightarrow> hist_page option) \<Rightarrow> rat \<Rightarrow> rat \<Rightarrow> nat
    \<Rightarrow> hist_entry list option option" where
  "fetchTopicHistory replies history topicId botId limit =
     map_option (map_option (sort_key he_id)) (fetch_loop replies history (page_entries topicId botId) limit 0 [])"

text \<open>Each page below the last offset is documented: then the loop ends, with entries or with an exception.\<close>

lemma fold_min: "fold min is (i::int) \<in> set (i # is)"
proof (induction "is" arbitrary: i)
  case (Cons a "is")
  from Cons[of "min a i"] show ?case by (auto simp: min_def split: if_splits)
qed simp

lemma page_min_mem: "page_min p = Some m \<Longrightarrow> \<exists>i \<in> set (hp_items p). hi_real i \<and> hi_id i = m"
proof -
  assume a: "page_min p = Some m"
  then obtain i "is" where f: "map hi_id (filter hi_real (hp_items p)) = i # is" "m = fold min is i"
    by (auto simp: page_min_def split: list.splits)
  then have "m \<in> set (map hi_id (filter hi_real (hp_items p)))" using fold_min[of "is" i] by simp
  then show ?thesis by auto
qed

text \<open>
  C32. For a server that, asked for messages below an identifier, returns only such messages, the reading of a
  topic always ends, with a list or with an exception.
\<close>

theorem history_fetch_returns:
  assumes "\<And>offset b p i. replies offset b = Some p \<Longrightarrow> 0 < offset \<Longrightarrow> i \<in> set (hp_items p) \<Longrightarrow> hi_id i < offset"
  shows "\<exists>r. fetchTopicHistory replies history topicId botId limit = Some r"
proof -
  have pos: "\<exists>r. fetch_loop replies history entries limit offset out = Some r" if "0 < offset" for offset out and entries :: "hist_page \<Rightarrow> hist_entry list"
    using that
  proof (induction "nat offset" arbitrary: offset out rule: less_induct)
    case less
    show ?case
    proof (cases "limit \<le> length out")
      case True
      then show ?thesis by (subst fetch_loop.simps) simp
    next
      case False
      show ?thesis
      proof (cases "replies offset (min 100 (limit - length out))")
        case None
        then show ?thesis using False less.prems by (subst fetch_loop.simps) (simp add: Let_def)
      next
        case (Some p)
        have "\<exists>r. fetch_loop replies history entries limit m (out @ entries p) = Some r"
          if m: "page_min p = Some m" "\<not> m \<le> 0" for m
        proof -
          obtain i where "i \<in> set (hp_items p)" "hi_id i = m" using page_min_mem[OF m(1)] by blast
          with assms[OF Some less.prems] have "m < offset" by blast
          then show ?thesis using less.hyps[of m] m(2) by simp
        qed
        then show ?thesis using False Some
          by (subst fetch_loop.simps) (auto simp: Let_def split: option.splits)
      qed
    qed
  qed
  have "\<exists>r. fetch_loop replies history entries limit 0 [] = Some r" for entries :: "hist_page \<Rightarrow> hist_entry list"
    using pos by (subst fetch_loop.simps) (auto simp: Let_def not_le split: option.splits)
  then show ?thesis by (fastforce simp: fetchTopicHistory_def)
qed


subsection \<open>What is read\<close>

text \<open>A topic as a list of messages, newest first, and the pages Telegram makes of it.\<close>

definition topic_replies :: "hist_item list \<Rightarrow> (int \<times> hist_user) list \<Rightarrow> int \<Rightarrow> nat \<Rightarrow> hist_page option" where
  "topic_replies h users offset n = Some \<lparr>hp_items = take n (filter (\<lambda>i. offset = 0 \<or> hi_id i < offset) h), hp_users = users\<rparr>"

definition newest_first :: "hist_item list \<Rightarrow> bool" where
  "newest_first h \<longleftrightarrow> sorted_wrt (\<lambda>a b. hi_id b < hi_id a) h \<and> list_all (\<lambda>i. hi_real i \<and> 0 < hi_id i) h"

lemma fold_min_last: "sorted_wrt (\<lambda>a b. b < a) (i # is) \<Longrightarrow> fold min is (i::int) = last (i # is)"
  by (induction "is" arbitrary: i) (auto simp: min_def)

lemma page_min_last:
  assumes "hp_items p \<noteq> []" "newest_first (hp_items p)"
  shows "page_min p = Some (hi_id (last (hp_items p)))"
proof -
  have f: "filter hi_real (hp_items p) = hp_items p" using assms(2) by (auto simp: newest_first_def list_all_iff)
  obtain i "is" where h: "hp_items p = i # is" using assms(1) by (cases "hp_items p") auto
  have "sorted_wrt (\<lambda>a b. b < a) (map hi_id (hp_items p))" using assms(2) by (simp add: newest_first_def sorted_wrt_map)
  then have "fold min (map hi_id is) (hi_id i) = last (map hi_id (i # is))" using fold_min_last[of "hi_id i" "map hi_id is"] h by simp
  moreover have "map hi_id (filter hi_real (hp_items p)) = hi_id i # map hi_id is" unfolding f unfolding h by simp
  moreover have "last (map hi_id (i # is)) = hi_id (last (i # is))" by (rule last_map) simp
  ultimately show ?thesis unfolding page_min_def h by simp
qed

lemma newest_first_append: "newest_first (a @ b) \<Longrightarrow> newest_first a \<and> newest_first b"
  by (auto simp: newest_first_def sorted_wrt_append)

lemma below_last:
  assumes "newest_first (a @ b)" "offset = (if a = [] then 0 else hi_id (last a))"
  shows "filter (\<lambda>i. offset = 0 \<or> hi_id i < offset) (a @ b) = b"
proof (cases "a = []")
  case False
  then have p: "0 < offset" using assms by (auto simp: newest_first_def list_all_iff)
  have "hi_id i < offset" if "i \<in> set b" for i
    using that assms False by (auto simp: newest_first_def sorted_wrt_append)
  moreover have "\<not> hi_id i < offset" if "i \<in> set a" for i
  proof -
    obtain a0 l where a: "a = a0 @ [l]" using False by (cases a rule: rev_cases) auto
    then show ?thesis using that assms by (auto simp: newest_first_def sorted_wrt_append)
  qed
  ultimately show ?thesis using p by (simp add: filter_empty_conv)
qed (use assms in simp)

lemma fetch_loop_reads:
  assumes "newest_first (a @ b)" "offset = (if a = [] then 0 else hi_id (last a))"
    and "length (filter hist_kept a) \<le> limit"
  shows "fetch_loop (topic_replies (a @ b) users) history (page_entries t bot') limit offset (map (hist_entry_of t bot' users) (filter hist_kept a))
     = Some (Some (take limit (map (hist_entry_of t bot' users) (filter hist_kept (a @ b)))))"
  using assms
proof (induction "length b" arbitrary: a b offset rule: less_induct)
  case less
  let ?e = "hist_entry_of t bot' users"
  let ?out = "map ?e (filter hist_kept a)"
  define batch where "batch = min 100 (limit - length (filter hist_kept a))"
  show ?case
  proof (cases "limit \<le> length ?out")
    case True
    then have "limit = length ?out" using less.prems(3) by simp
    then show ?thesis by (subst fetch_loop.simps) simp
  next
    case False
    then have bp: "0 < batch" by (simp add: batch_def)
    define p where "p = \<lparr>hp_items = take batch b, hp_users = users\<rparr>"
    have r: "topic_replies (a @ b) users offset batch = Some p"
      unfolding topic_replies_def p_def below_last[OF less.prems(1,2)] by simp
    have out: "?out @ page_entries t bot' p = map ?e (filter hist_kept (a @ take batch b))" by (simp add: page_entries_def p_def)
    show ?thesis
    proof (cases "b = []")
      case True
      then show ?thesis using False r less.prems(3)
        by (subst fetch_loop.simps) (simp add: batch_def[symmetric] Let_def p_def)
    next
      case nb: False
      have ni: "hp_items p \<noteq> []" using nb bp by (simp add: p_def)
      have nf: "newest_first (hp_items p)"
        using newest_first_append[OF less.prems(1)] newest_first_append[of "take batch b" "drop batch b"] by (simp add: p_def)
      note m = page_min_last[OF ni nf]
      define l where "l = hi_id (last (hp_items p))"
      have lp: "0 < l" using nf ni by (auto simp: newest_first_def list_all_iff l_def)
      have ll: "l = (if a @ take batch b = [] then 0 else hi_id (last (a @ take batch b)))"
        using nb bp by (simp add: l_def p_def)
      have len: "length (filter hist_kept (a @ take batch b)) \<le> limit"
      proof -
        have "length (filter hist_kept (take batch b)) \<le> batch" by (metis length_filter_le length_take min.bounded_iff order_trans)
        moreover have "batch \<le> limit - length (filter hist_kept a)" "length (filter hist_kept a) < limit" using False by (simp_all add: batch_def)
        ultimately show ?thesis unfolding filter_append length_append by linarith
      qed
      show ?thesis
      proof (cases "length (take batch b) < batch")
        case True
        then have tb: "take batch b = b" by simp
        then show ?thesis using False ni r m out len True
          by (subst fetch_loop.simps) (simp add: batch_def[symmetric] Let_def p_def)
      next
        case full: False
        have "fetch_loop (topic_replies (a @ b) users) history (page_entries t bot') limit offset ?out =
          fetch_loop (topic_replies (a @ b) users) history (page_entries t bot') limit l (?out @ page_entries t bot' p)"
          using False ni r m full lp by (subst fetch_loop.simps) (simp add: batch_def[symmetric] Let_def l_def p_def)
        also have "\<dots> = Some (Some (take limit (map ?e (filter hist_kept ((a @ take batch b) @ drop batch b)))))"
          unfolding out
          using less.hyps[of "drop batch b" "a @ take batch b" l] less.prems(1) bp nb ll len by simp
        finally show ?thesis by simp
      qed
    qed
  qed
qed

lemma sort_newest:
  fixes f :: "'a \<Rightarrow> int"
  assumes "sorted_wrt (\<lambda>a b. f b < f a) xs"
  shows "sort_key f xs = rev xs"
proof (rule map_sorted_distinct_set_unique)
  have "sorted_wrt (\<lambda>a b. a < b) (map f (rev xs))" using assms by (simp add: sorted_wrt_map sorted_wrt_rev)
  then show r: "sorted (map f (rev xs))" "distinct (map f (rev xs))" by (simp_all add: strict_sorted_iff)
  from r(2) have d: "inj_on f (set xs)" "distinct xs" by (simp_all add: distinct_map)
  then show "inj_on f (set (sort_key f xs) \<union> set (rev xs))" by simp
  from d show "distinct (map f (sort_key f xs))" by (simp add: distinct_map)
qed simp_all

text \<open>
  Of a topic of messages, newest first, exactly the newest ones with text are read, up to the limit, and
  they are handed on oldest first, in whatever pages Telegram serves them.
\<close>

theorem history_fetch_newest:
  assumes "newest_first h"
  shows "fetchTopicHistory (topic_replies h users) history t bot' limit
       = Some (Some (rev (take limit (map (hist_entry_of t bot' users) (filter hist_kept h)))))"
proof -
  let ?xs = "map (hist_entry_of t bot' users) (filter hist_kept h)"
  have i: "he_id (hist_entry_of t bot' users x) = hi_id x" for x by (simp add: hist_entry_of_def Let_def split: prod.splits)
  have "sorted_wrt (\<lambda>a b. he_id b < he_id a) ?xs"
    using assms by (auto simp: newest_first_def sorted_wrt_map i intro: sorted_wrt_filter)
  then have "sorted_wrt (\<lambda>a b. he_id b < he_id a) (take limit ?xs)" by (rule sorted_wrt_take)
  then show ?thesis
    using fetch_loop_reads[of "[]" h 0 limit users history t bot'] assms sort_newest[of he_id]
    by (simp add: fetchTopicHistory_def)
qed


definition demo_item :: "int \<Rightarrow> string \<Rightarrow> hist_item" where
  "demo_item i t = \<lparr>hi_real = True, hi_id = i, hi_text = js t, hi_from = Some 7, hi_reply = None\<rparr>"

theorem history_fetch_returns_witness:
  "\<exists>r. fetchTopicHistory (topic_replies [demo_item 9 ''b'', demo_item 4 ''a''] []) (\<lambda>_. None) 3 0 2 = Some r"
proof (rule history_fetch_returns)
  fix offset b p i
  assume "topic_replies [demo_item 9 ''b'', demo_item 4 ''a''] [] offset b = Some p" "0 < offset" "i \<in> set (hp_items p)"
  then show "hi_id i < offset" by (auto simp: topic_replies_def dest!: in_set_takeD split: if_splits)
qed

theorem history_fetch_newest_witness:
  "\<exists>es. fetchTopicHistory (topic_replies [demo_item 9 ''b'', demo_item 4 ''a''] []) (\<lambda>_. None) 3 0 1 = Some (Some es) \<and> map he_id es = [9]"
proof -
  have "newest_first [demo_item 9 ''b'', demo_item 4 ''a'']" by (simp add: newest_first_def demo_item_def)
  moreover have "filter hist_kept [demo_item 9 ''b'', demo_item 4 ''a''] = [demo_item 9 ''b'', demo_item 4 ''a'']"
    by (simp add: hist_kept_def demo_item_def js_def js_trim_def js_space_def)
  moreover have "he_id (hist_entry_of 3 0 [] x) = hi_id x" for x by (simp add: hist_entry_of_def Let_def split: prod.splits)
  ultimately show ?thesis using history_fetch_newest[of "[demo_item 9 ''b'', demo_item 4 ''a'']" "[]" "\<lambda>_. None" 3 0 1]
    by (simp add: demo_item_def)
qed

text \<open>
  When the topic cannot be read the plain history is asked once; if it fills a page and more is wanted, the next
  request fails again and everything read is thrown away.
\<close>

lemma fallback_discarded:
  assumes "history 100 = Some p" "length (hp_items p) = 100" "page_min p = Some m" "0 < m" "100 < limit"
  shows "fetchTopicHistory (\<lambda>_ _. None) history t bot' limit = Some None"
proof -
  have "length (page_entries t bot' p) \<le> 100"
    using length_filter_le[of hist_kept "hp_items p"] assms(2) by (simp add: page_entries_def)
  then have 2: "fetch_loop (\<lambda>_ _. None) history (page_entries t bot') limit m (page_entries t bot' p) = Some None"
    using assms by (subst fetch_loop.simps) (simp add: Let_def)
  have "min 100 limit = 100" "hp_items p \<noteq> []" using assms by auto
  with 2 assms have "fetch_loop (\<lambda>_ _. None) history (page_entries t bot') limit 0 [] = Some None"
    by (subst fetch_loop.simps) (simp add: Let_def)
  then show ?thesis by (simp add: fetchTopicHistory_def)
qed

text \<open>A page of service messages only ends the reading.\<close>

lemma service_page_ends:
  assumes "replies 0 (min 100 limit) = Some p" "list_all (\<lambda>i. \<not> hi_real i) (hp_items p)"
  shows "fetchTopicHistory replies history t bot' limit = Some (Some [])"
proof -
  have e: "filter hi_real (hp_items p) = []" using assms(2) by (simp add: filter_empty_conv list_all_iff)
  then have "filter hist_kept (hp_items p) = []" using assms(2) by (simp add: filter_empty_conv list_all_iff hist_kept_def)
  with e assms(1) have "fetch_loop replies history (page_entries t bot') limit 0 [] = Some (Some [])"
    by (subst fetch_loop.simps) (simp add: Let_def page_min_def page_entries_def)
  then show ?thesis by (simp add: fetchTopicHistory_def)
qed

subsection \<open>Into the learning log\<close>

text \<open>The topics to read: the configured ones in order, then every other topic of the forum.\<close>

type_synonym scan_topic = "topic_kind option \<times> jstr option"

definition topics_to_scan :: "penv \<Rightarrow> topic_ids \<Rightarrow> (rat \<times> jstr) list \<Rightarrow> (rat \<times> scan_topic) list" where
  "topics_to_scan env ids extra =
     (let m = getStaffTopicMap env ids;
          known = fold (\<lambda>k s. case m k of None \<Rightarrow> s | Some i \<Rightarrow> AList.update i (Some k, None) s) KIND_ORDER []
      in fold (\<lambda>(i, title) s. if map_of s i \<noteq> None then s
             else AList.update i (resolveTopicKindByThreadId env ids (Some i), Some title) s) extra known)"

record history_post =
  hpo_deal :: "jstr option"
  hpo_text :: jstr
  hpo_kind :: training_kind
  hpo_intent :: staff_intent
  hpo_from :: "int option"
  hpo_message :: int
  hpo_thread :: rat
  hpo_topic :: "topic_kind option"
  hpo_title :: "jstr option"
  hpo_pinned :: bool

record ingest_stats =
  in_topics :: nat
  in_scanned :: nat
  in_logged :: nat
  in_skipped :: nat

definition PIN_RE :: rx where
  "PIN_RE = alts [rr ''wsegda'', rr ''nikogda'', sq [rr ''ne'', star sp, rr ''pi{i''], sq [rr ''ne'', star sp, rr ''gowori''],
     rr ''zapomni'', rr ''u~ti'', rr ''sna~ala sprosi'', rr ''klientu ne'']"

definition history_post_of :: "penv \<Rightarrow> topic_ids \<Rightarrow> rat \<Rightarrow> scan_topic \<Rightarrow> hist_entry \<Rightarrow> history_post" where
  "history_post_of env ids topicId topic m =
     (let req = parseStaffPeerIntent (he_text m) None; kind = staffTrainingKind (sr_intent req) (sr_raw req);
          deal = map_option js_toLowerCase (rx_group True (sq [Wb, Cap 1 uuid_rx, Wb]) 1 (he_text m @ [10]));
          resolved = resolveTopicKindByThreadId env ids (Some (he_thread m))
      in \<lparr>hpo_deal = deal, hpo_text = take 4000 (he_text m), hpo_kind = kind, hpo_intent = sr_intent req, hpo_from = he_user m,
          hpo_message = he_id m, hpo_thread = (if he_thread m = 0 then topicId else he_thread m),
          hpo_topic = (case resolved of None \<Rightarrow> fst topic | Some k \<Rightarrow> Some k), hpo_title = snd topic,
          hpo_pinned = (kind = Coach \<and> deal = None \<and> rx_test True PIN_RE (he_text m))\<rparr>)"

text \<open>
  One message: \<open>now\<close> is the time it is looked at, \<open>posted\<close> whether the request to the API came back at all (an
  error reply counts as success).
\<close>

definition history_wanted :: "(jstr \<Rightarrow> jstr) \<Rightarrow> int \<Rightarrow> int \<Rightarrow> hist_entry \<Rightarrow> listen_state \<Rightarrow> bool \<times> listen_state" where
  "history_wanted sha now chat m st =
     (if he_bot m then (False, st)
      else let (ignore, out1) = shouldIgnoreStaffInbound sha now (he_text m) chat (ls_recentOut st);
               st1 = st\<lparr>ls_recentOut := out1\<rparr>
           in if ignore \<or> starts_with (he_text m) [47] then (False, st1)
              else let (ok, seen1) = claimStaffMessage now chat (Some (he_id m)) (ls_seenMsg st1)
                   in (ok, st1\<lparr>ls_seenMsg := seen1\<rparr>))"

fun ingest_messages :: "(jstr \<Rightarrow> jstr) \<Rightarrow> (nat \<Rightarrow> int) \<Rightarrow> (nat \<Rightarrow> bool) \<Rightarrow> int \<Rightarrow> (hist_entry \<Rightarrow> history_post) \<Rightarrow> hist_entry list
    \<Rightarrow> ingest_stats \<times> history_post list \<times> listen_state \<Rightarrow> ingest_stats \<times> history_post list \<times> listen_state" where
  "ingest_messages sha clock posted chat post [] s = s"
| "ingest_messages sha clock posted chat post (m # ms) (stats, posts, st) =
     (let k = in_scanned stats; (ok, st1) = history_wanted sha (clock k) chat m st;
          stats1 = stats\<lparr>in_scanned := k + 1\<rparr>
      in if ok \<and> posted k
         then ingest_messages sha clock posted chat post ms (stats1\<lparr>in_logged := in_logged stats1 + 1\<rparr>, posts @ [post m], st1)
         else ingest_messages sha clock posted chat post ms (stats1\<lparr>in_skipped := in_skipped stats1 + 1\<rparr>, posts, st1))"

text \<open>\<open>read topic\<close> is what \<open>fetchTopicHistory\<close> gave for it; the marker of the first run is the last component.\<close>

definition no_stats :: ingest_stats where
  "no_stats = \<lparr>in_topics = 0, in_scanned = 0, in_logged = 0, in_skipped = 0\<rparr>"

definition ingest_topic :: "penv \<Rightarrow> topic_ids \<Rightarrow> (jstr \<Rightarrow> jstr) \<Rightarrow> (nat \<Rightarrow> int) \<Rightarrow> (nat \<Rightarrow> bool) \<Rightarrow> int \<Rightarrow> (rat \<Rightarrow> hist_entry list option)
    \<Rightarrow> rat \<times> scan_topic \<Rightarrow> ingest_stats \<times> history_post list \<times> listen_state \<Rightarrow> ingest_stats \<times> history_post list \<times> listen_state" where
  "ingest_topic env ids sha clock posted chat read topic s =
     (case s of (stats, posts, st) \<Rightarrow>
        let s1 = (stats\<lparr>in_topics := in_topics stats + 1\<rparr>, posts, st)
        in case read (fst topic) of None \<Rightarrow> s1
           | Some ms \<Rightarrow> ingest_messages sha clock posted chat (history_post_of env ids (fst topic) (snd topic)) ms s1)"

definition runStaffHistoryIngest :: "penv \<Rightarrow> bool \<Rightarrow> topic_ids \<Rightarrow> (rat \<times> jstr) list \<Rightarrow> (jstr \<Rightarrow> jstr) \<Rightarrow> (nat \<Rightarrow> int) \<Rightarrow> (nat \<Rightarrow> bool)
    \<Rightarrow> (rat \<Rightarrow> hist_entry list option) \<Rightarrow> listen_state \<Rightarrow> bool \<Rightarrow> (ingest_stats \<times> history_post list \<times> listen_state) \<times> bool" where
  "runStaffHistoryIngest env force ids extra sha clock posted read st marker =
     (let nothing = ((no_stats, [], st), marker)
      in if \<not> switched_on env ''TG_STAFF_HISTORY_INGEST'' \<and> \<not> force then nothing
         else if \<not> force \<and> marker then nothing
         else case escalationChatId env of None \<Rightarrow> nothing
         | Some chat \<Rightarrow>
             let topics = topics_to_scan env ids extra
             in if topics = [] then nothing
                else (fold (ingest_topic env ids sha clock posted \<lfloor>chat\<rfloor> read) topics (no_stats, [], st), True))"


subsection \<open>A run posts a message once\<close>

definition ingest_ok :: "(rat \<Rightarrow> hist_entry list option) \<Rightarrow> int \<Rightarrow> int \<Rightarrow> ingest_stats \<times> history_post list \<times> listen_state \<Rightarrow> bool" where
  "ingest_ok read t0 chat s \<longleftrightarrow>
     (case s of (stats, posts, st) \<Rightarrow>
        distinct (filter (\<lambda>i. i \<noteq> 0) (map hpo_message posts))
        \<and> (\<forall>p \<in> set posts. \<exists>topic ms m. read topic = Some ms \<and> m \<in> set ms \<and> \<not> he_bot m \<and> \<not> starts_with (he_text m) [47]
             \<and> hpo_message p = he_id m)
        \<and> (\<forall>p \<in> set posts. hpo_message p \<noteq> 0 \<longrightarrow> (\<exists>t. ls_seenMsg st (msg_key chat (hpo_message p)) = Some t \<and> t0 \<le> t)))"

lemma wanted_claim:
  assumes "history_wanted sha now chat m st = (ok, st1)"
  shows "ok \<Longrightarrow> \<not> he_bot m \<and> \<not> starts_with (he_text m) [47]"
    and "ok \<Longrightarrow> he_id m \<noteq> 0 \<Longrightarrow> ls_seenMsg st1 (msg_key chat (he_id m)) = Some now"
    and "ok \<Longrightarrow> he_id m \<noteq> 0 \<Longrightarrow> ls_seenMsg st (msg_key chat (he_id m)) = Some t \<Longrightarrow> 180000 < now - t"
    and "ls_seenMsg st k = Some t \<Longrightarrow> now - t \<le> 180000 \<Longrightarrow> \<exists>t'. ls_seenMsg st1 k = Some t' \<and> (t' = t \<or> t' = now)"
  using assms
  by (auto simp: history_wanted_def claimStaffMessage_def id_or_none_def Let_def pruneMap_def SEEN_TTL_MS_def
      split: if_splits prod.splits option.splits)

lemma ingest_step_ok:
  assumes "ingest_ok read t0 chat (stats, posts, st)" "read topic = Some ms" "m \<in> set ms" "t0 \<le> now" "now \<le> t0 + 180000"
    and "history_wanted sha now chat m st = (ok, st1)" "\<And>x. hpo_message (post x) = he_id x"
  shows "ingest_ok read t0 chat (stats', if ok \<and> b then posts @ [post m] else posts, st1)"
proof -
  have keep: "\<exists>t. ls_seenMsg st1 (msg_key chat (hpo_message p)) = Some t \<and> t0 \<le> t" if p: "p \<in> set posts" "hpo_message p \<noteq> 0" for p
  proof -
    obtain t where "ls_seenMsg st (msg_key chat (hpo_message p)) = Some t" "t0 \<le> t"
      using assms(1) p by (auto simp: ingest_ok_def)
    with wanted_claim(4)[OF assms(6), of _ t] assms(4,5) show ?thesis by fastforce
  qed
  have new: "he_id m \<notin> set (map hpo_message posts)" if nz: "ok" "he_id m \<noteq> 0"
  proof
    assume "he_id m \<in> set (map hpo_message posts)"
    then obtain p where p: "p \<in> set posts" "hpo_message p = he_id m" by auto
    then obtain t where t: "ls_seenMsg st (msg_key chat (he_id m)) = Some t" "t0 \<le> t"
      using assms(1) nz(2) by (force simp: ingest_ok_def)
    from wanted_claim(3)[OF assms(6) nz t(1)] t(2) assms(5) show False by linarith
  qed
  show ?thesis
    using assms(1-3,7) keep new wanted_claim(1,2)[OF assms(6)] assms(4)
    unfolding ingest_ok_def by (auto simp: filter_empty_conv)
qed

lemma ingest_messages_ok:
  assumes "\<And>k. t0 \<le> clock k \<and> clock k \<le> t0 + 180000" "\<And>x. hpo_message (post x) = he_id x" "read topic = Some ms"
  shows "set l \<subseteq> set ms \<Longrightarrow> ingest_ok read t0 chat s \<Longrightarrow> ingest_ok read t0 chat (ingest_messages sha clock posted chat post l s)"
proof (induction l arbitrary: s)
  case (Cons m l)
  obtain stats posts st where s: "s = (stats, posts, st)" by (cases s)
  let ?k = "in_scanned stats"
  obtain ok st1 where w: "history_wanted sha (clock ?k) chat m st = (ok, st1)" by fastforce
  have m: "m \<in> set ms" using Cons.prems(1) by simp
  note step = ingest_step_ok[OF Cons.prems(2)[unfolded s] assms(3) m _ _ w, of post]
  have k: "t0 \<le> clock ?k" "clock ?k \<le> t0 + 180000" using assms(1) by simp_all
  have l: "set l \<subseteq> set ms" using Cons.prems(1) by simp
  note step' = step[OF k assms(2), of _ "posted ?k"]
  show ?case
  proof (cases "ok \<and> posted ?k")
    case True
    then show ?thesis using Cons.IH[OF l step'] by (simp add: s w Let_def)
  next
    case False
    then show ?thesis using Cons.IH[OF l step'] by (auto simp: s w Let_def)
  qed
qed simp

text \<open>
  C33. A run of the ingest that takes no more than three minutes puts every numbered message into the learning log
  at most once, even when several topics show it, and never a bot's message or a command.
\<close>

theorem history_logged_once:
  assumes "\<And>k. t0 \<le> clock k \<and> clock k \<le> t0 + 180000"
    and "runStaffHistoryIngest env force ids extra sha clock posted read st marker = ((stats, posts, st'), marker')"
  shows "distinct (filter (\<lambda>i. i \<noteq> 0) (map hpo_message posts))
     \<and> (\<forall>p \<in> set posts. \<exists>topic ms m. read topic = Some ms \<and> m \<in> set ms \<and> \<not> he_bot m \<and> \<not> starts_with (he_text m) [47]
          \<and> hpo_message p = he_id m)"
proof -
  have one: "ingest_ok read t0 chat (ingest_topic env ids sha clock posted chat read topic s)" if "ingest_ok read t0 chat s" for chat topic s
    using that ingest_messages_ok[OF assms(1), of "history_post_of env ids (fst topic) (snd topic)" read "fst topic"]
    by (cases s; cases "read (fst topic)") (simp_all add: ingest_topic_def ingest_ok_def history_post_of_def Let_def)
  have all: "ingest_ok read t0 chat (fold (ingest_topic env ids sha clock posted chat read) ts s)" if "ingest_ok read t0 chat s" for chat ts s
    using that by (induction ts arbitrary: s) (simp_all add: one)
  have start: "ingest_ok read t0 chat (no_stats, [], st)" for chat by (simp add: ingest_ok_def)
  have "\<exists>chat. ingest_ok read t0 chat (fst (runStaffHistoryIngest env force ids extra sha clock posted read st marker))"
    unfolding runStaffHistoryIngest_def Let_def using start all[OF start] by (auto split: option.splits)
  then show ?thesis unfolding assms(2) by (auto simp: ingest_ok_def)
qed


definition demo_entry :: "int \<Rightarrow> string \<Rightarrow> hist_entry" where
  "demo_entry i t = \<lparr>he_id = i, he_text = js t, he_user = Some 7, he_username = None, he_name = None, he_thread = 3,
     he_reply = None, he_bot = False\<rparr>"

lemma history_logged_once_witness:
  "distinct (filter (\<lambda>i. i \<noteq> 0) (map hpo_message (fst (snd (fst (runStaffHistoryIngest
      [(js ''TG_STAFF_CHAT_ID'', js ''-5'')] True (\<lambda>_. Some 3) [] id (\<lambda>k. int (min k 10)) (\<lambda>_. True)
      (\<lambda>_. Some [demo_entry 4 ''go'', demo_entry 4 ''go'']) no_claims False))))))"
proof -
  let ?r = "runStaffHistoryIngest [(js ''TG_STAFF_CHAT_ID'', js ''-5'')] True (\<lambda>_. Some 3) [] id (\<lambda>k. int (min k 10)) (\<lambda>_. True)
      (\<lambda>_. Some [demo_entry 4 ''go'', demo_entry 4 ''go'']) no_claims False"
  obtain stats posts st mk where r: "?r = ((stats, posts, st), mk)" by (metis prod.collapse)
  show ?thesis using history_logged_once[OF _ r, of 0] by (simp add: r)
qed

text \<open>The marker of the first run is written even when no topic could be read.\<close>

lemma marker_without_reading:
  assumes "switched_on env ''TG_STAFF_HISTORY_INGEST''" "escalationChatId env = Some c" "topics_to_scan env ids extra \<noteq> []"
  shows "runStaffHistoryIngest env False ids extra sha clock posted (\<lambda>_. None) st False
     = ((\<lparr>in_topics = length (topics_to_scan env ids extra), in_scanned = 0, in_logged = 0, in_skipped = 0\<rparr>, [], st), True)"
proof -
  have "fold (ingest_topic env ids sha clock posted \<lfloor>c\<rfloor> (\<lambda>_. None)) ts (s, [], st) = (s\<lparr>in_topics := in_topics s + length ts\<rparr>, [], st)" for ts s
    by (induction ts arbitrary: s) (simp_all add: ingest_topic_def)
  then show ?thesis using assms by (simp add: runStaffHistoryIngest_def Let_def no_stats_def)
qed

subsection \<open>Bootstrap\<close>

text \<open>
  The bootstrap needs a chat and the three settings of a user account; it writes the topic numbers into the
  environment file when that changes it, and into its own environment.
\<close>

definition setting :: "penv \<Rightarrow> string \<Rightarrow> jstr" where
  "setting env name = js_trim (hd (js_split1 35 (js_or (env_get env name) [])))"

definition bootstrap_ready :: "penv \<Rightarrow> bool" where
  "bootstrap_ready env \<longleftrightarrow> escalationChatId env \<noteq> None
     \<and> (case js_Number (js_trim (hd (js_split1 35 (js_or (env_get env ''TG_API_ID'') (js ''0''))))) of Num n \<Rightarrow> n \<noteq> 0 | NaN \<Rightarrow> False | _ \<Rightarrow> True)
     \<and> setting env ''TG_API_HASH'' \<noteq> [] \<and> js_trim (js_or (env_get env ''TG_STRING_SESSION'') []) \<noteq> []"

definition bootstrap_env_text :: "(rat \<Rightarrow> jstr) \<Rightarrow> jstr option \<Rightarrow> topic_ids \<Rightarrow> jstr option" where
  "bootstrap_env_text digits found m =
     (case found of None \<Rightarrow> None
      | Some t \<Rightarrow> if (\<forall>k \<in> set KIND_ORDER. m k = None) then None
          else let next = applyTopicIdsToEnvText digits t m in if next = t then None else Some next)"

definition bootstrap_env :: "(rat \<Rightarrow> jstr) \<Rightarrow> topic_ids \<Rightarrow> penv \<Rightarrow> penv" where
  "bootstrap_env digits m env =
     fold (\<lambda>k e. case m k of None \<Rightarrow> e | Some i \<Rightarrow> env_set (js (topic_env_key k)) (num_str digits i) e) KIND_ORDER env"

end
