(* ===== verification/StaffCopy.thy ===== *)
theory StaffCopy
  imports StaffPeer
begin

text \<open>
  The texts the staff reads in Telegram (\<open>packages/shared/src/staffCopy.ts\<close>): tables of Russian names, the lines of a
  deal and the cards made of them. Number and date formatting of \<open>Intl\<close> is a parameter. The last part shows that the
  number of the deal is found in a card when it is answered.
\<close>

subsection \<open>Tables\<close>

definition DEAL_STATUS_RU :: "(jstr \<times> jstr) list" where
  "DEAL_STATUS_RU =
     [(js ''intake'', ru ''sbor dannyh''),
      (js ''sizing'', ru ''uto~nenie gabaritow''),
      (js ''customs'', (ru ''tamovnq / TN W'' @ [1069] @ ru ''D'')),
      (js ''quoting'', ru ''zapros stawok u postaw}ikow''),
      (js ''pricing'', ru ''gotowo KP''),
      (js ''negotiation'', ru ''torg s klientom''),
      (js ''contract'', ru ''dogowor''),
      (js ''execution'', ru ''wedenie gruza''),
      (js ''awaiting_manager'', ru ''vd#t menedvera''),
      (js ''closed_won'', ru ''sdelka wyigrana''),
      (js ''closed_lost'', ru ''sdelka proigrana''),
      (js ''cancelled'', ru ''otmenena'')]"

definition CHANNEL_RU :: "(jstr \<times> jstr) list" where
  "CHANNEL_RU =
     [(js ''telegram'', js ''Telegram''),
      (js ''voice'', ru ''zwonok''),
      (js ''email'', ru ''po~ta'')]"

record reason_info =
  ri_title :: jstr
  ri_action :: jstr
  ri_who :: jstr

definition ESCALATION_REASON_RU :: "(jstr \<times> reason_info) list" where
  "ESCALATION_REASON_RU =
     [(js ''grey_scheme_hard_block'', \<lparr>ri_title = (ru ''Klient prosit seru` shemu '' @ [8212] @ ru '' otkaz''),
        ri_action = ru ''Podtwerditx otkaz. Serye shemy ne soprowovdaem.'', ri_who = ru ''direktoru''\<rparr>),
      (js ''grey_scheme_request'', \<lparr>ri_title = (ru ''Klient prosit seru` shemu '' @ [8212] @ ru '' otkaz''),
        ri_action = ru ''Podtwerditx otkaz. Serye shemy ne soprowovdaem.'', ri_who = ru ''direktoru''\<rparr>),
      (js ''forbidden_cargo_liquid'', \<lparr>ri_title = ru ''Zapre}#nnyj gruz (w t.~. vidkosti wne profilq)'',
        ri_action = ru ''Podtwerditx otkaz klientu.'', ri_who = ru ''menedveru''\<rparr>),
      (js ''private_move'', \<lparr>ri_title = ([1063] @ ru ''astnyj pereezd '' @ [8212] @ ru '' ne na{ profilx''),
        ri_action = ru ''Podtwerditx otkaz: kwartirnye/~astnye pereezdy ne ber#m.'', ri_who = ru ''menedveru''\<rparr>),
      (js ''sanctioned_goods'', \<lparr>ri_title = ru ''Sankcionnyj / zapre}#nnyj towar'',
        ri_action = (js ''Compliance-'' @ ru ''prowerka. Bez seryh shem.''), ri_who = ru ''direktoru''\<rparr>),
      (js ''dual_use_hold'', \<lparr>ri_title = (ru ''Dwojnoe nazna~enie '' @ [8212] @ js '' hold, '' @ ru ''ne awtootkaz''),
        ri_action = ru ''Viwoj logist + broker: mar{rut, pogranperehod, dopustimostx.'', ri_who = ru ''logistu i brokeru''\<rparr>),
      (js ''dangerous_goods_review'', \<lparr>ri_title = (ru ''Opasnyj gruz '' @ [8212] @ ru '' nuven profilxnyj perewoz~ik''),
        ri_action = (ru ''Podobratx '' @ js ''DG-'' @ ru ''perewoz~ika i stawku. '' @ [1069] @ ru ''to ne stop sdelki.''), ri_who = ru ''logistu''\<rparr>),
      (js ''oversized_expert'', \<lparr>ri_title = (ru ''Negabarit '' @ [8212] @ ru '' nuvna |kspertnaq stawka''),
        ri_action = ru ''Zaprositx spectehniku / negabarit u postaw}ikow.'', ri_who = ru ''logistu''\<rparr>),
      (js ''margin_or_discount_policy'', \<lparr>ri_title = ru ''Marva ili skidka wne politiki'',
        ri_action = ru ''Soglasowatx cenu ili otkazatx w skidke.'', ri_who = ru ''direktoru''\<rparr>),
      (js ''profit_below_minimum'', \<lparr>ri_title = ru ''Pribylx nive minimuma'',
        ri_action = ru ''Soglasowatx strategi~eskij minus ili podnqtx cenu.'', ri_who = ru ''direktoru''\<rparr>),
      (js ''cashflow_gap'', \<lparr>ri_title = ru ''Kassowyj razryw'',
        ri_action = ru ''Soglasowatx finansirowanie ili sdwinutx oplatu postaw}iku.'', ri_who = ru ''direktoru''\<rparr>),
      (js ''amount_threshold'', \<lparr>ri_title = ru ''Summa KP wy{e poroga |skalacii'',
        ri_action = ru ''Soglasowatx krupnu` sdelku.'', ri_who = ru ''direktoru''\<rparr>),
      (js ''missing_invoice_for_vat_duty'', \<lparr>ri_title = (ru ''Net inwojsa '' @ [8212] @ ru '' po{lina i NDS ne pos~itany''),
        ri_action = ru ''Zaprositx inwojs u klienta ili utwerditx KP bez nalogowyh strok.'', ri_who = ru ''menedveru''\<rparr>),
      (js ''missing_partner_channels'', \<lparr>ri_title = ru ''Nekuda zaprositx stawki postaw}ikow'',
        ri_action = (ru ''Propisatx '' @ js ''SUPPLIER_QUOTE_EMAILS / '' @ ru ''kontakty postaw}ikow. Poka cifru klientu ne nazywaem.''), ri_who = ru ''direktoru''\<rparr>),
      (js ''legal_must_approve'', \<lparr>ri_title = ([1070] @ ru ''ridi~eskij / '' @ js ''compliance hold''),
        ri_action = ru ''Logist i broker podtwervda`t dopustimostx gruza.'', ri_who = ru ''logistu i brokeru''\<rparr>),
      (js ''claim_or_incident'', \<lparr>ri_title = ru ''Pretenziq ili incident'',
        ri_action = ([1070] @ ru ''ridi~eski zna~imye re{eniq prinimaet ~elowek, ne II.''), ri_who = ru ''logistu''\<rparr>),
      (js ''cn_ops_rfq'', \<lparr>ri_title = ru ''Wykup / podbor postaw}ika w Kitae'',
        ri_action = ru ''Obrabotatx zaqwku na towar (|to ne tarif perewozki).'', ri_who = ru ''menedveru''\<rparr>),
      (js ''procurement_loss_pattern'', \<lparr>ri_title = ru ''Sistemnyj proigry{ po cene na naprawlenii'',
        ri_action = (ru ''Ne snivatx marvu wslepu`: usilitx zakupku, peresobratx shemu, ocenitx '' @ js ''volume rate.''), ri_who = ru ''direktoru''\<rparr>),
      (js ''execution_playbook_escalation'', \<lparr>ri_title = ([1069] @ ru ''skalaciq po '' @ js ''execution_playbook '' @ ru ''viwogo logista''),
        ri_action = (ru ''Wypolnitx instrukci` '' @ js ''playbook '' @ ru ''i otwetitx klientu.''), ri_who = ru ''logistu''\<rparr>),
      (js ''product_restriction'', \<lparr>ri_title = ru ''Ograni~enie po gruzu ili usluge'',
        ri_action = ru ''Proweritx, ber#m li takoj gruz, i otwetitx klientu.'', ri_who = ru ''menedveru''\<rparr>),
      (js ''voice_escalation'', \<lparr>ri_title = ([1069] @ ru ''skalaciq s golosowogo zwonka''),
        ri_action = ru ''Perehwatitx razgowor ili perezwonitx.'', ri_who = ru ''menedveru''\<rparr>),
      (js ''configure_suppliers'', \<lparr>ri_title = ru ''Nuvno nastroitx postaw}ikow'',
        ri_action = (ru ''Dobawitx rabo~ie '' @ js ''email/'' @ ru ''kabinety postaw}ikow stawok.''), ri_who = ru ''direktoru''\<rparr>)]"

definition DECISION_RU :: "(jstr \<times> jstr) list" where
  "DECISION_RU =
     [(js ''acknowledge'', ru ''podtwerditx i zakrytx''),
      (js ''acknowledge_block'', ru ''podtwerditx otkaz klientu''),
      (js ''approve_reject'', ru ''soglasowatx ili otklonitx''),
      (js ''approve_price'', ru ''soglasowatx cenu KP''),
      (js ''approve_strategic_loss'', ru ''razre{itx rabotu w minus ili otkazatx''),
      (js ''approve_financing_or_align_supplier'', ru ''re{itx kassowyj razryw''),
      (js ''request_invoice_or_approve_partial_kp'', ru ''zaprositx inwojs ili utwerditx ~asti~noe KP''),
      (js ''configure_suppliers'', ru ''nastroitx kanaly postaw}ikow''),
      (js ''compliance_review'', (ru ''prowesti '' @ js ''compliance-'' @ ru ''prowerku'')),
      (js ''compliance_route_and_broker'', ru ''soglasowatx mar{rut s logistom i brokerom''),
      (js ''expert_rate'', ru ''polu~itx |kspertnu` stawku''),
      (js ''approve_legal'', ru ''`ridi~eskoe soglasowanie''),
      (js ''human_legal'', ru ''re{enie prinimaet `rist / logist''),
      (js ''process_ops_request'', ru ''obrabotatx zaqwku na wykup/podbor''),
      (js ''review'', ru ''razobratx i re{itx''),
      (js ''takeover'', ru ''perehwatitx dialog'')]"

subsection \<open>A row as a snippet\<close>

text \<open>A scalar of a row: missing, null, text, number or truth value.\<close>

datatype scalar = SUndef | SNull | SStr jstr | SNum rat | SBool bool

type_synonym json_row = "string \<Rightarrow> scalar"

fun scalar_truthy :: "scalar \<Rightarrow> bool" where
  "scalar_truthy SUndef = False"
| "scalar_truthy SNull = False"
| "scalar_truthy (SStr s) = (s \<noteq> [])"
| "scalar_truthy (SNum n) = (n \<noteq> 0)"
| "scalar_truthy (SBool b) = b"

definition scalar_or :: "scalar \<Rightarrow> scalar \<Rightarrow> scalar" where
  "scalar_or a b = (if scalar_truthy a then a else b)"

definition scalar_nullish :: "scalar \<Rightarrow> scalar \<Rightarrow> scalar" where
  "scalar_nullish a b = (if a = SUndef \<or> a = SNull then b else a)"

definition copy_str :: "(rat \<Rightarrow> jstr) \<Rightarrow> scalar \<Rightarrow> jstr option" where
  "copy_str digits v =
     (case v of SUndef \<Rightarrow> None | SNull \<Rightarrow> None | SStr s \<Rightarrow> text_or_none (js_trim s)
      | SNum n \<Rightarrow> Some (num_str digits n) | SBool b \<Rightarrow> Some (if b then js ''true'' else js ''false''))"

text \<open>\<open>Number(v)\<close> when finite: null is 0, a missing value is not a number.\<close>

definition copy_num :: "scalar \<Rightarrow> rat option" where
  "copy_num v =
     (case v of SUndef \<Rightarrow> None | SNull \<Rightarrow> Some 0 | SStr s \<Rightarrow> (case js_Number s of Num n \<Rightarrow> Some n | _ \<Rightarrow> None)
      | SNum n \<Rightarrow> Some n | SBool b \<Rightarrow> Some (if b then 1 else 0))"

record deal_snippet =
  ds_id :: "jstr option"
  ds_client :: "jstr option"
  ds_phone :: "jstr option"
  ds_status :: "jstr option"
  ds_cargo :: "jstr option"
  ds_origin :: "jstr option"
  ds_destination :: "jstr option"
  ds_amount :: "rat option"
  ds_margin :: "rat option"
  ds_channel :: "jstr option"
  ds_quantity :: "rat option"
  ds_consignee :: "jstr option"

definition no_snippet :: deal_snippet where
  "no_snippet = \<lparr>ds_id = None, ds_client = None, ds_phone = None, ds_status = None, ds_cargo = None, ds_origin = None,
     ds_destination = None, ds_amount = None, ds_margin = None, ds_channel = None, ds_quantity = None, ds_consignee = None\<rparr>"

text \<open>The row and its objects \<open>cargo\<close>, \<open>route\<close>, \<open>offer\<close> and \<open>metadata\<close>.\<close>

definition dealSnippetFromRow :: "(rat \<Rightarrow> jstr) \<Rightarrow> json_row \<Rightarrow> json_row \<Rightarrow> json_row \<Rightarrow> json_row \<Rightarrow> json_row \<Rightarrow> deal_snippet" where
  "dealSnippetFromRow digits row cargo route offer meta =
     (let s = copy_str digits
      in \<lparr>ds_id = s (scalar_or (row ''id'') (row ''deal_id'')), ds_client = s (row ''client_name''),
          ds_phone = s (row ''client_phone''), ds_status = s (row ''status''),
          ds_cargo = s (scalar_or (row ''cargo_name'') (cargo ''name'')),
          ds_origin = s (scalar_or (scalar_or (row ''origin_city'') (row ''origin'')) (route ''origin_city'')),
          ds_destination = s (scalar_or (scalar_or (row ''destination_city'') (row ''destination'')) (route ''destination_city'')),
          ds_amount = copy_num (scalar_nullish (row ''amount_rub'') (offer ''price'')), ds_margin = copy_num (row ''margin_pct''),
          ds_channel = s (row ''channel''), ds_quantity = copy_num (scalar_nullish (row ''quantity'') (cargo ''quantity'')),
          ds_consignee = s (scalar_or (row ''consignee'') (meta ''consignee''))\<rparr>)"

subsection \<open>Pieces\<close>

text \<open>
  \<open>Intl.NumberFormat("ru-RU")\<close> without and with fractional digits, \<open>Intl.DateTimeFormat\<close> (\<open>None\<close> for an invalid date)
  and the digits of a number that is not an integer.
\<close>

record copy_fmt =
  cf_whole :: "rat \<Rightarrow> jstr"
  cf_plain :: "rat \<Rightarrow> jstr"
  cf_when :: "jstr option \<Rightarrow> jstr option"
  cf_digits :: "rat \<Rightarrow> jstr"

definition long_dash :: jstr where "long_dash = [8212]"

definition formatMoneyRub :: "copy_fmt \<Rightarrow> rat option \<Rightarrow> jstr" where
  "formatMoneyRub f n = (case n of None \<Rightarrow> long_dash | Some x \<Rightarrow> cf_whole f x @ [32, 8381])"

definition formatWhen :: "copy_fmt \<Rightarrow> jstr option \<Rightarrow> jstr" where
  "formatWhen f stamp = (case cf_when f (text_or_none (js_or stamp [])) of None \<Rightarrow> long_dash | Some t \<Rightarrow> t)"

definition statusRu :: "jstr option \<Rightarrow> jstr" where
  "statusRu status =
     (let s = js_or status [] in if s = [] then long_dash else case map_of DEAL_STATUS_RU s of Some t \<Rightarrow> t | None \<Rightarrow> s)"

definition copy_dash :: "jstr option \<Rightarrow> jstr" where
  "copy_dash v = (let s = js_or v [] in if s = [] then long_dash else s)"

definition formatRoute :: "jstr option \<Rightarrow> jstr option \<Rightarrow> jstr" where
  "formatRoute a b =
     (if js_or a [] = [] \<and> js_or b [] = [] then long_dash else js_or a (js ''?'') @ [32, 8594, 32] @ js_or b (js ''?''))"

text \<open>\<open>toFixed(1)\<close> of a number below \<open>10^21\<close>: the nearest tenth, ties away from zero.\<close>

definition to_fixed1 :: "rat \<Rightarrow> jstr" where
  "to_fixed1 x =
     (let n = nat \<lfloor>\<bar>x\<bar> * 10 + 1 / 2\<rfloor>; t = show_nat (n div 10) @ [46] @ show_nat (n mod 10)
      in if x < 0 then 45 # t else t)"

definition labelled :: "jstr \<Rightarrow> jstr option \<Rightarrow> jstr" where
  "labelled label v = (let s = js_or v [] in if s = [] then [] else label @ s)"

definition cargo_line :: "copy_fmt \<Rightarrow> deal_snippet \<Rightarrow> jstr option" where
  "cargo_line f d =
     (case ds_quantity d of
        Some n \<Rightarrow> if js_or (ds_cargo d) [] \<noteq> [] \<and> n \<noteq> 0 then Some (js_or (ds_cargo d) [] @ js '', '' @ num_str (cf_digits f) n @ ru '' {t'')
          else ds_cargo d
      | None \<Rightarrow> ds_cargo d)"

definition money_line :: "copy_fmt \<Rightarrow> deal_snippet \<Rightarrow> jstr option" where
  "money_line f d =
     (case ds_amount d of None \<Rightarrow> None
      | Some a \<Rightarrow> Some (case ds_margin d of None \<Rightarrow> formatMoneyRub f (Some a)
          | Some m \<Rightarrow> formatMoneyRub f (Some a) @ (js '' '' @ [183] @ ru '' marva '') @ to_fixed1 m @ js ''%''))"

definition formatDealLines :: "copy_fmt \<Rightarrow> deal_snippet option \<Rightarrow> jstr list" where
  "formatDealLines f deal =
     (case deal of None \<Rightarrow> []
      | Some d \<Rightarrow>
          if js_or (ds_id d) [] = [] then []
          else filter (\<lambda>l. l \<noteq> [])
            [ru ''Sdelka: '' @ js_or (ds_id d) [], ru ''Klient: '' @ copy_dash (ds_client d),
             labelled (ru ''Telefon: '') (ds_phone d), ru ''Mar{rut: '' @ formatRoute (ds_origin d) (ds_destination d),
             labelled (ru ''Polu~atelx: '') (ds_consignee d), ru ''Gruz: '' @ copy_dash (cargo_line f d),
             ru ''Stadiq: '' @ statusRu (ds_status d), labelled (ru ''KP: '') (money_line f d),
             (let c = js_or (ds_channel d) [] in if c = [] then [] else ru ''Kanal: '' @ (case map_of CHANNEL_RU c of Some t \<Rightarrow> t | None \<Rightarrow> c))])"

definition reasonInfo :: "jstr option \<Rightarrow> reason_info" where
  "reasonInfo reason =
     (let key = js_trim (js_or reason [])
      in case map_of ESCALATION_REASON_RU key of Some i \<Rightarrow> i
         | None \<Rightarrow> \<lparr>ri_title = (if key \<noteq> [] then ([1069] @ ru ''skalaciq: '') @ key else ru ''Nuvno re{enie menedvera''),
             ri_action = ru ''Otkrojte karto~ku sdelki i re{ite, kak dejstwowatx.'', ri_who = ru ''menedveru''\<rparr>)"

definition escalationNeedsDirector :: "jstr option \<Rightarrow> bool" where
  "escalationNeedsDirector reason = js_includes (js_toLowerCase (ri_who (reasonInfo reason))) (ru ''direktor'')"

definition decisionRu :: "jstr option \<Rightarrow> jstr" where
  "decisionRu code =
     (let c = js_or code []
      in if c = [] then ru ''razobratx i re{itx''
         else case map_of DECISION_RU c of Some t \<Rightarrow> t | None \<Rightarrow> map (\<lambda>u. if u = 95 then 32 else u) c)"

text \<open>\<open>filter((l, i, a) => !(l === "" && a[i - 1] === ""))\<close> and the joined text.\<close>

fun collapse_blanks :: "bool \<Rightarrow> jstr list \<Rightarrow> jstr list" where
  "collapse_blanks blank [] = []"
| "collapse_blanks blank (l # ls) = (if l = [] \<and> blank then collapse_blanks True ls else l # collapse_blanks (l = []) ls)"

definition copy_text :: "jstr list \<Rightarrow> jstr" where
  "copy_text ls = js_trim (js_join [10] (collapse_blanks False ls))"

definition command_line :: "jstr option \<Rightarrow> jstr" where
  "command_line i = labelled (ru ''Komanda: '' @ js ''/deal '') i"

subsection \<open>Cards\<close>

definition formatEscalationStaff :: "copy_fmt \<Rightarrow> jstr option \<Rightarrow> jstr option \<Rightarrow> jstr option \<Rightarrow> jstr option \<Rightarrow> deal_snippet option
    \<Rightarrow> jstr list \<Rightarrow> jstr" where
  "formatEscalationStaff f dealId reason summary needed deal extra =
     (let info = reasonInfo reason
      in copy_text
        ([([9888, 65039] @ ru '' Kollegi, nuvno re{enie''), ri_title info, []]
         @ formatDealLines f (Some (case deal of Some d \<Rightarrow> d | None \<Rightarrow> no_snippet\<lparr>ds_id := dealId\<rparr>))
         @ [[], labelled (ru ''Sutx: '') summary, ([1063] @ ru ''to sdelatx: '') @ ri_action info, ru ''Re{enie: '' @ decisionRu needed,
            ru ''Komu: '' @ ri_who info]
         @ extra
         @ [[], (ru ''Movno otwetitx s`da oby~nym tekstom: '' @ [171] @ ru ''utwerdi KP'' @ [187] @ js '', '' @ [171] @ ru ''perehwati'' @ [187] @ js '', '' @ [171] @ ru ''karto~ka'' @ [187] @ js '' '' @ [8212] @ ru '' ili knopkami nive.''),
            command_line dealId]))"

definition formatQuoteExpiredStaff :: "copy_fmt \<Rightarrow> deal_snippet \<Rightarrow> jstr option \<Rightarrow> rat option \<Rightarrow> jstr option \<Rightarrow> jstr option \<Rightarrow> jstr" where
  "formatQuoteExpiredStaff f d source price currency validUntil =
     copy_text
       ([([9200] @ ru '' Stawka postaw}ika istekla''), []] @ formatDealLines f (Some d)
        @ [(case price of None \<Rightarrow> [] | Some p \<Rightarrow> ru ''Stawka: '' @ cf_plain f p @ [32] @ js_or currency (js ''RUB'')),
           labelled (ru ''Isto~nik: '') source,
           (if js_or validUntil [] = [] then [] else ru ''Dejstwowala do: '' @ formatWhen f validUntil), [],
           ([1063] @ ru ''to sdelatx: zaprositx nowu` stawku u postaw}ika i obnowitx KP.''), command_line (ds_id d)])"

definition formatFollowupStaff :: "copy_fmt \<Rightarrow> deal_snippet \<Rightarrow> jstr option \<Rightarrow> jstr" where
  "formatFollowupStaff f d updatedAt =
     copy_text
       ([([9203] @ ru '' Net otweta postaw}ikow bolx{e 2 ~asow''), []] @ formatDealLines f (Some d)
        @ [(if js_or updatedAt [] = [] then [] else ru ''Poslednee obnowlenie: '' @ formatWhen f updatedAt), [],
           ([1063] @ ru ''to sdelatx: napomnitx perewoz~ikam ili wnesti stawku wru~nu`.''), command_line (ds_id d)])"

definition formatOcrInvoiceStaff :: "copy_fmt \<Rightarrow> deal_snippet \<Rightarrow> rat \<Rightarrow> jstr option \<Rightarrow> jstr option \<Rightarrow> jstr" where
  "formatOcrInvoiceStaff f d amount currency source =
     (let src = (if source = Some (js ''llm'') then ru ''raspoznala II''
                 else if source = Some (js ''heuristic'') then ru ''raspoznala po {ablonu'' else js_or source (js ''OCR''))
      in copy_text
        ([([55358, 56830] @ ru '' S inwojsa snqta summa''), []] @ formatDealLines f (Some d)
         @ [js_trim (ru ''Inwojs: '' @ cf_plain f amount @ [32] @ js_or currency []), ru ''Kak: '' @ src, [],
            ru ''Peres~itywa` KP s |toj summoj (po{lina/NDS).'', command_line (ds_id d)]))"

definition formatPartnerEmailApproveStaff :: "jstr \<Rightarrow> jstr option \<Rightarrow> jstr" where
  "formatPartnerEmailApproveStaff email website =
     js_join [10] (filter (\<lambda>l. l \<noteq> [])
       [([55357, 56551] @ ru '' Nowyj '' @ js ''email '' @ ru ''postaw}ika '' @ [8212] @ ru '' pisxmo e}# ne u{lo''), [], ru ''Adres: '' @ email, labelled (ru ''Sajt: '') website, [],
        ru ''Domen ne w belom spiske. Poka ne odobrite kontakt, zapros stawki ne otprawlq`.'',
        ([1063] @ ru ''to sdelatx: odobrite '' @ js ''first_email_approved '' @ ru ''w kontaktah postaw}ikow.'')])"

definition formatImapQuoteStaff :: "copy_fmt \<Rightarrow> deal_snippet \<Rightarrow> rat \<Rightarrow> jstr option \<Rightarrow> jstr option \<Rightarrow> jstr option \<Rightarrow> jstr" where
  "formatImapQuoteStaff f d price currency sender source =
     (let src = (if source = Some (js ''llm'') then Some (ru ''II'')
                 else if source = Some (js ''heuristic'') then Some (ru ''po tekstu pisxma'') else source)
      in copy_text
        ([([55357, 56556] @ ru '' Postaw}ik prislal stawku na po~tu''), []] @ formatDealLines f (Some d)
         @ [ru ''Stawka: '' @ cf_plain f price @ [32] @ js_or currency (js ''RUB''), labelled (ru ''Ot: '') sender,
            labelled (ru ''Razobrala: '') src, [], ru ''Stawka sohranena, peres~itywa` KP klientu.'', command_line (ds_id d)]))"

definition formatImapUnparsedStaff :: "copy_fmt \<Rightarrow> deal_snippet \<Rightarrow> jstr option \<Rightarrow> jstr option \<Rightarrow> jstr" where
  "formatImapUnparsedStaff f d subj sender =
     copy_text
       ([([55357, 56556] @ ru '' Pisxmo po sdelke '' @ [8212] @ ru '' cenu iz teksta ne razobrala''), []] @ formatDealLines f (Some d)
        @ [labelled (ru ''Ot: '') sender, labelled (ru ''Tema: '') subj, [],
           ([1063] @ ru ''to sdelatx: otkrojte pisxmo i wnesite stawku wru~nu` libo pere{lite summu cifroj.''), command_line (ds_id d)])"

definition formatAfterHoursCallStaff :: "copy_fmt \<Rightarrow> jstr \<Rightarrow> deal_snippet option \<Rightarrow> jstr" where
  "formatAfterHoursCallStaff f phone deal =
     copy_text
       ([([55356, 57113] @ ru '' Zwonok wne rabo~ego wremeni''), [], ru ''Telefon: '' @ phone] @ formatDealLines f deal
        @ [[], ru ''Klientu proigrano awtosoob}enie, viwoj razgowor ne weli.'', ([1063] @ ru ''to sdelatx: perezwonitx w rabo~ie ~asy.''),
           command_line (case deal of None \<Rightarrow> None | Some d \<Rightarrow> ds_id d)])"

definition formatVoiceEscalationStaff :: "copy_fmt \<Rightarrow> deal_snippet option \<Rightarrow> jstr option \<Rightarrow> jstr option \<Rightarrow> jstr option \<Rightarrow> jstr" where
  "formatVoiceEscalationStaff f deal phone reason summary =
     (let info = reasonInfo reason
      in copy_text
        ([([55357, 56542] @ js '' '' @ [1069] @ ru ''skalaciq so zwonka''), ri_title info, [], labelled (ru ''Telefon: '') phone] @ formatDealLines f deal
         @ [[], labelled (ru ''Sutx: '') summary, ([1063] @ ru ''to sdelatx: '') @ ri_action info, [],
            command_line (case deal of None \<Rightarrow> None | Some d \<Rightarrow> ds_id d)]))"

definition formatDealCardStaff :: "copy_fmt \<Rightarrow> deal_snippet \<Rightarrow> rat option \<Rightarrow> jstr option \<Rightarrow> rat option \<Rightarrow> rat option
    \<Rightarrow> jstr list \<Rightarrow> jstr list \<Rightarrow> jstr" where
  "formatDealCardStaff f d offerPrice currency etaMin etaMax flags risks =
     (let cur = js_or currency [];
          offer = (case offerPrice of
              Some p \<Rightarrow> formatMoneyRub f (Some p) @ (if cur \<noteq> [] \<and> cur \<noteq> js ''RUB'' then js '' ('' @ cur @ js '')'' else [])
            | None \<Rightarrow> formatMoneyRub f (ds_amount d));
          day = (\<lambda>x. case x of None \<Rightarrow> js ''?'' | Some n \<Rightarrow> num_str (cf_digits f) n);
          eta = (if etaMin = None \<and> etaMax = None then long_dash else day etaMin @ [8211] @ day etaMax @ ru '' dn.'')
      in js_join [10] (filter (\<lambda>l. l \<noteq> [])
        ([([55357, 56523] @ ru '' Karto~ka sdelki''), []] @ formatDealLines f (Some d)
         @ [ru ''Cena klientu: '' @ offer, ru ''Srok: '' @ eta,
            (if flags = [] then [] else ru ''Metki: '' @ js_join ((js '' '' @ [183] @ js '' '')) flags),
            (if risks = [] then [] else ru ''Riski: '' @ js_join (js '', '') risks)])))"

subsection \<open>The deal of an answered card\<close>

lemma rx_find_leftmost:
  assumes "rx_ok r" "((rev a @ p, b), y) \<in> rx_lang i r" "rx_find i r p (a @ b) = Some (pre, m, cs, post)"
  shows "length pre \<le> length p + length a"
  using assms(2,3)
proof (induction a arbitrary: p)
  case Nil
  then have "rx_runs i r (p, b, []) \<noteq> []" using rx_runs_Nil_iff[OF assms(1)] by auto
  then show ?case using Nil(2) by (subst (asm) rx_find.simps) (auto split: list.splits prod.splits)
next
  case (Cons c a)
  show ?case
  proof (cases "rx_runs i r (p, c # a @ b, [])")
    case Nil
    then have "rx_find i r (c # p) (a @ b) = Some (pre, m, cs, post)" using Cons.prems(2) by (simp add: rx_find_Cons)
    then show ?thesis using Cons.IH[of "c # p"] Cons.prems(1) by simp
  next
    case (Cons x xs)
    then have "pre = rev p" using \<open>rx_find i r p ((c # a) @ b) = Some (pre, m, cs, post)\<close>
      by (cases x) (simp add: rx_find_Cons)
    then show ?thesis by simp
  qed
qed

lemma lang_cls_pow_iff:
  "((p, t), (q, u)) \<in> rx_lang i (Cls False rs) ^^ n \<longleftrightarrow>
   (\<exists>w. length w = n \<and> t = w @ u \<and> q = rev w @ p \<and> (\<forall>c \<in> set w. cls_has i rs c))"
proof
  assume "\<exists>w. length w = n \<and> t = w @ u \<and> q = rev w @ p \<and> (\<forall>c \<in> set w. cls_has i rs c)"
  then obtain w where "length w = n" "t = w @ u" "q = rev w @ p" "\<forall>c \<in> set w. cls_has i rs c" by blast
  then show "((p, t), (q, u)) \<in> rx_lang i (Cls False rs) ^^ n"
  proof (induction w arbitrary: n p t)
    case (Cons c w)
    then have "((c # p, w @ u), (q, u)) \<in> rx_lang i (Cls False rs) ^^ length w" by simp
    moreover have "((p, c # w @ u), (c # p, w @ u)) \<in> rx_lang i (Cls False rs)" using Cons.prems by simp
    ultimately show ?case using Cons.prems by (auto intro: relpow_Suc_I2 simp del: relpow.simps)
  qed simp
qed (use lang_cls_pow in fastforce)

lemma lower_ascii: "js_lower_unit c < 128 \<Longrightarrow> js_lower_unit c = c \<or> 65 \<le> c \<and> c \<le> 90 \<and> js_lower_unit c = c + 32"
  unfolding js_lower_unit_def by (simp split: if_split_asm)

lemma upper_ascii: "js_upper_unit c < 128 \<Longrightarrow> js_upper_unit c = c \<or> 97 \<le> c \<and> c \<le> 122 \<and> js_upper_unit c + 32 = c"
  unfolding js_upper_unit_def by (simp split: if_split_asm)

definition hex_ranges :: "(nat \<times> nat) list" where "hex_ranges = [(48, 57), (97, 102)]"

definition hexes :: "nat \<Rightarrow> jstr \<Rightarrow> bool" where
  "hexes n w \<longleftrightarrow> length w = n \<and> (\<forall>c \<in> set w. cls_has True hex_ranges c)"

lemma lang_hex: "((p, t), (q, u)) \<in> rx_lang True (hex_n n) \<longleftrightarrow> (\<exists>w. hexes n w \<and> t = w @ u \<and> q = rev w @ p)"
proof -
  have "((p, t), (q, u)) \<in> rx_lang True (hex_n n) \<longleftrightarrow> ((p, t), (q, u)) \<in> rx_lang True (Cls False hex_ranges) ^^ n"
    unfolding hex_n_def rep_to_def hex_ranges_def rx_lang.simps(5) by (auto dest: le_antisym simp del: rx_lang.simps)
  then show ?thesis unfolding hexes_def lang_cls_pow_iff by blast
qed

lemma dash_only: "cls_has True [(45, 45)] c \<longleftrightarrow> c = 45"
  using lower_ascii[of c] upper_ascii[of c] by (auto simp: cls_has_def in_ranges_def)

lemma lang_dash: "((p, t), (q, u)) \<in> rx_lang True (ll ''-'') \<longleftrightarrow> t = 45 # u \<and> q = 45 # p"
  by (auto simp: ll_def lit_def js_def dash_only)

lemma hex_word: 
  assumes "cls_has True hex_ranges c" shows "js_word c"
proof -
  have "c \<le> 57 \<and> 48 \<le> c \<or> 97 \<le> c \<and> c \<le> 122 \<or> 65 \<le> c \<and> c \<le> 90"
    using assms lower_ascii[of c] upper_ascii[of c] by (auto simp: cls_has_def in_ranges_def hex_ranges_def)
  then show ?thesis by (auto simp: js_word_def js_letter_def js_digit_def)
qed

text \<open>A deal number as PostgreSQL prints it.\<close>

definition uuid_text :: "jstr \<Rightarrow> bool" where
  "uuid_text s \<longleftrightarrow> length s = 36 \<and> list_all (\<lambda>k. if k \<in> {8, 13, 18, 23} then s ! k = 45 else in_ranges hex_ranges (s ! k)) [0..<36]"

lemma lang_hex_sq: "((p, t), y) \<in> rx_lang True (Sq (hex_n n) r) \<longleftrightarrow>
   (\<exists>w u. hexes n w \<and> t = w @ u \<and> ((rev w @ p, u), y) \<in> rx_lang True r)"
  unfolding rx_lang.simps relcomp_unfold by (auto simp: lang_hex)

lemma lang_dash_sq: "((p, t), y) \<in> rx_lang True (Sq (ll ''-'') r) \<longleftrightarrow>
   (\<exists>u. t = 45 # u \<and> ((45 # p, u), y) \<in> rx_lang True r)"
  unfolding rx_lang.simps relcomp_unfold by (auto simp: lang_dash)

lemma lang_uuid: "((p, t), (q, u)) \<in> rx_lang True uuid_rx \<longleftrightarrow> (\<exists>a b c d e.
    hexes 8 a \<and> hexes 4 b \<and> hexes 4 c \<and> hexes 4 d \<and> hexes 12 e
    \<and> t = a @ 45 # b @ 45 # c @ 45 # d @ 45 # e @ u \<and> q = rev e @ 45 # rev d @ 45 # rev c @ 45 # rev b @ 45 # rev a @ p)"
  (is "?L \<longleftrightarrow> ?R")
proof
  assume ?L
  then show ?R unfolding uuid_rx_def sq.simps lang_hex_sq lang_dash_sq lang_hex
    by (elim exE conjE, hypsubst) (intro exI conjI; (rule refl | assumption))
next
  assume ?R
  then obtain a b c d e where h: "hexes 8 a" "hexes 4 b" "hexes 4 c" "hexes 4 d" "hexes 12 e"
    "t = a @ 45 # b @ 45 # c @ 45 # d @ 45 # e @ u" "q = rev e @ 45 # rev d @ 45 # rev c @ 45 # rev b @ 45 # rev a @ p" by blast
  show ?L unfolding uuid_rx_def sq.simps lang_hex_sq lang_dash_sq lang_hex h(6,7)
    by (intro exI conjI; (rule refl | rule h(1-5)))
qed

lemma lang_uuid_re: "((p, t), (q, u)) \<in> rx_lang True UUID_RE \<longleftrightarrow>
   at_word p \<noteq> at_word t \<and> at_word q \<noteq> at_word u \<and> ((p, t), (q, u)) \<in> rx_lang True uuid_rx"
  unfolding UUID_RE_def sq.simps rx_lang.simps(3) by auto

lemma uuid_nth:
  assumes "uuid_text s" "k < 36"
  shows "if k \<in> {8, 13, 18, 23} then s ! k = 45 else in_ranges hex_ranges (s ! k)"
proof -
  have "k \<in> set [0..<36]" using assms(2) unfolding set_upt by simp
  then show ?thesis using assms(1) unfolding uuid_text_def list_all_iff by blast
qed

lemma uuid_parts:
  assumes "uuid_text s"
  shows "\<exists>a b c d e. hexes 8 a \<and> hexes 4 b \<and> hexes 4 c \<and> hexes 4 d \<and> hexes 12 e
    \<and> s = a @ 45 # b @ 45 # c @ 45 # d @ 45 # e"
proof -
  have l: "length s = 36" using assms unfolding uuid_text_def by blast
  note h = uuid_nth[OF assms]
  have x: "hexes n (take n (drop k s))" if "k + n \<le> 36" "\<And>j. k \<le> j \<Longrightarrow> j < k + n \<Longrightarrow> j \<notin> {8, 13, 18, 23}" for k n
    using that h l unfolding hexes_def by (fastforce simp: in_set_conv_nth cls_has_def)
  have "s = take 8 s @ drop 8 s" by simp
  also have "drop 8 s = s ! 8 # drop 9 s" using l Cons_nth_drop_Suc[of 8 s] by simp
  also have "drop 9 s = take 4 (drop 9 s) @ drop 13 s" using append_take_drop_id[of 4 "drop 9 s"] by simp
  also have "drop 13 s = s ! 13 # drop 14 s" using l Cons_nth_drop_Suc[of 13 s] by simp
  also have "drop 14 s = take 4 (drop 14 s) @ drop 18 s" using append_take_drop_id[of 4 "drop 14 s"] by simp
  also have "drop 18 s = s ! 18 # drop 19 s" using l Cons_nth_drop_Suc[of 18 s] by simp
  also have "drop 19 s = take 4 (drop 19 s) @ drop 23 s" using append_take_drop_id[of 4 "drop 19 s"] by simp
  also have "drop 23 s = s ! 23 # drop 24 s" using l Cons_nth_drop_Suc[of 23 s] by simp
  finally have "s = take 8 (drop 0 s) @ 45 # take 4 (drop 9 s) @ 45 # take 4 (drop 14 s) @ 45 # take 4 (drop 19 s) @ 45 # take 12 (drop 24 s)"
    using h[of 8] h[of 13] h[of 18] h[of 23] l by simp
  moreover have "hexes 8 (take 8 (drop 0 s))" "hexes 4 (take 4 (drop 9 s))" "hexes 4 (take 4 (drop 14 s))" "hexes 4 (take 4 (drop 19 s))"
    "hexes 12 (take 12 (drop 24 s))" by (rule x; simp)+
  ultimately show ?thesis by blast
qed

text \<open>The first number of a text is found, when nothing before it holds a hyphen.\<close>

lemma first_uuid_found:
  assumes "uuid_text d" "45 \<notin> set a" "\<not> at_word (rev a)" "\<not> at_word b"
  shows "\<exists>cs post. rx_exec True UUID_RE (a @ d @ b) = Some (a, d, cs, post)"
proof -
  obtain x y z v w where d: "hexes 8 x" "hexes 4 y" "hexes 4 z" "hexes 4 v" "hexes 12 w" "d = x @ 45 # y @ 45 # z @ 45 # v @ 45 # w"
    using uuid_parts[OF assms(1)] by blast
  have hd: "at_word s" if "hexes n s'" "s = s' @ r" "0 < n" for n s s' r
    using that hex_word by (cases s') (auto simp: hexes_def at_word_def)
  have "at_word (d @ b)" using hd[OF d(1)] d(6) by simp
  moreover have "at_word (rev d @ rev a)"
  proof -
    have "hexes 12 (rev w)" using d(5) by (simp add: hexes_def)
    then show ?thesis using hd[of 12 "rev w"] d(6) by simp
  qed
  ultimately have "((rev a, d @ b), (rev d @ rev a, b)) \<in> rx_lang True UUID_RE"
    unfolding lang_uuid_re lang_uuid using assms(3,4) d by (intro conjI exI[of _ x] exI[of _ y] exI[of _ z] exI[of _ v] exI[of _ w]) simp_all
  then have here: "((rev a @ [], d @ b), (rev d @ rev a, b)) \<in> rx_lang True UUID_RE" by simp
  have ok: "rx_ok UUID_RE" by (simp add: UUID_RE_def uuid_rx_def hex_n_def rep_to_def ll_def)
  have "rx_find True UUID_RE [] (a @ d @ b) \<noteq> None" using here rx_find_iff[OF ok] by blast
  then obtain pre m cs post where f: "rx_find True UUID_RE [] (a @ d @ b) = Some (pre, m, cs, post)" by auto
  have le: "length pre \<le> length a" using rx_find_leftmost[OF ok here f] by simp
  from f have "rx_exec True UUID_RE (a @ d @ b) = Some (pre, m, cs, post)" by (simp add: rx_exec_def)
  from rx_exec_sound[OF ok this] have s: "a @ d @ b = pre @ m @ post"
    and "((rev pre, m @ post), (rev (pre @ m), post)) \<in> rx_lang True uuid_rx" by (auto simp: lang_uuid_re)
  then obtain x' y' z' v' w' where m: "hexes 8 x'" "hexes 4 y'" "hexes 4 z'" "hexes 4 v'" "hexes 12 w'"
      "m = x' @ 45 # y' @ 45 # z' @ 45 # v' @ 45 # w'" unfolding lang_uuid by auto
  have "pre = a"
  proof (rule ccontr)
    assume "pre \<noteq> a"
    define e where "e = drop (length pre) a"
    have "take (length pre) a = pre" using arg_cong[OF s, of "take (length pre)"] le by simp
    then have e: "a = pre @ e" unfolding e_def by (metis append_take_drop_id)
    have e2: "e @ d @ b = m @ post" using s unfolding e by simp
    have "e \<noteq> []" using e \<open>pre \<noteq> a\<close> by force
    have "length e \<le> 8"
    proof (rule ccontr)
      assume "\<not> length e \<le> 8"
      moreover have "length x' = 8" using m(1) by (simp add: hexes_def)
      moreover have "(e @ d @ b) ! 8 = (m @ post) ! 8" using e2 by simp
      ultimately have "e ! 8 = 45" using m(6) by (simp add: nth_append)
      then show False using assms(2) e \<open>\<not> length e \<le> 8\<close> by (metis Un_iff linorder_not_le nth_mem set_append)
    qed
    then have "last e \<in> set x'"
    proof -
      have "take (length e) (m @ post) = e" using e2 by (metis append_eq_conv_conj)
      moreover have "length e \<le> length x'" using \<open>length e \<le> 8\<close> m(1) by (simp add: hexes_def)
      ultimately have "e = take (length e) x'" using m(6) by simp
      then show ?thesis using \<open>e \<noteq> []\<close> by (metis in_set_takeD last_in_set)
    qed
    then have "at_word (rev e)" using m(1) hex_word \<open>e \<noteq> []\<close> by (cases e rule: rev_cases) (auto simp: hexes_def at_word_def)
    then show False using assms(3) e \<open>e \<noteq> []\<close> by (cases e rule: rev_cases) (auto simp: at_word_def)
  qed
  moreover have "m = d" using s \<open>pre = a\<close> m d by (simp add: hexes_def append_eq_append_conv)
  ultimately show ?thesis using f by (simp add: rx_exec_def)
qed

lemma lower_stays:
  assumes "c < 65 \<or> 91 \<le> c \<and> c < 192" shows "js_lower_unit c = c"
  unfolding js_lower_unit_def
  by (subst if_not_P, (use assms in linarith))+ (rule refl)

lemma uuid_lower: "uuid_text d \<Longrightarrow> js_toLowerCase d = d"
proof -
  assume u: "uuid_text d"
  have "js_lower_unit c = c" if "c \<in> set d" for c
  proof -
    obtain k where "k < 36" "c = d ! k" using u \<open>c \<in> set d\<close> unfolding uuid_text_def in_set_conv_nth by auto
    then have "c = 45 \<or> in_ranges hex_ranges c" using uuid_nth[OF u \<open>k < 36\<close>] by (simp split: if_splits)
    then have "c = 45 \<or> 48 \<le> c \<and> c \<le> 57 \<or> 97 \<le> c \<and> c \<le> 102" by (simp add: hex_ranges_def in_ranges_def)
    then have "c < 65 \<or> 91 \<le> c \<and> c < 192" by linarith
    then show ?thesis by (rule lower_stays)
  qed
  then show ?thesis by (simp add: js_toLowerCase_def map_idI)
qed

lemma deal_of_reply:
  assumes "uuid_text d" "45 \<notin> set t" "45 \<notin> set a" "a \<noteq> []" "\<not> at_word (rev a)" "\<not> at_word b"
  shows "extractDealId t (Some (a @ d @ b)) = Some d"
proof -
  have "\<not> at_word (rev (t @ [10] @ a))" using assms(4,5) by (cases a rule: rev_cases) (auto simp: at_word_def)
  moreover have "45 \<notin> set (t @ [10] @ a)" using assms by simp
  ultimately obtain cs post where
    "rx_exec True UUID_RE ((t @ [10] @ a) @ d @ b) = Some (t @ [10] @ a, d, cs, post)"
    using first_uuid_found[OF assms(1), of "t @ [10] @ a" b] assms(6) by blast
  moreover have "js_or (Some (a @ d @ b)) [] = a @ d @ b" using assms(4) by (simp add: js_or_def)
  ultimately show ?thesis by (simp add: extractDealId_def uuid_lower[OF assms(1)])
qed

text \<open>How the lines before the number come out.\<close>

lemma collapse_keeps: "l \<noteq> [] \<Longrightarrow> collapse_blanks b (xs @ l # ys) = collapse_blanks b xs @ l # collapse_blanks False ys"
  by (induction b xs rule: collapse_blanks.induct) auto

definition lines_text :: "jstr list \<Rightarrow> jstr" where
  "lines_text ls = concat (map (\<lambda>l. l @ [10]) ls)"

lemma join_after: "js_join [10] (xs @ l # ys) = lines_text xs @ l @ (if ys = [] then [] else 10 # js_join [10] ys)"
proof (induction xs)
  case Nil
  show ?case by (cases ys) (simp_all add: lines_text_def)
next
  case (Cons x xs)
  then show ?case by (cases "xs @ l # ys") (auto simp: lines_text_def)
qed

lemma trim_tail:
  assumes "w \<noteq> []" "\<not> js_space (hd w)" "\<not> js_space (last w)"
  shows "\<exists>b'. js_trim (w @ b) = w @ b' \<and> (\<exists>r. b = b' @ r)"
proof -
  have a: "dropWhile js_space (w @ b) = w @ b" using assms(1,2) by (cases w) simp_all
  define b' where "b' = rev (dropWhile js_space (rev b))"
  have "dropWhile js_space (rev b @ rev w) = dropWhile js_space (rev b) @ rev w"
    using assms(1,3) by (induction "rev b" arbitrary: b) (auto simp: dropWhile_append, (cases w rule: rev_cases; simp)+)
  then have "js_trim (w @ b) = w @ b'" by (simp add: js_trim_def a b'_def)
  moreover have "b = b' @ rev (takeWhile js_space (rev b))"
    unfolding b'_def by (metis rev_append rev_rev_ident takeWhile_dropWhile_id)
  ultimately show ?thesis by blast
qed

definition deal_label :: jstr where "deal_label = ru ''Sdelka: ''"

lemma deal_lines_head:
  assumes "js_or (ds_id s) [] \<noteq> []"
  shows "\<exists>ls. formatDealLines f (Some s) = (deal_label @ js_or (ds_id s) []) # ls"
  using assms by (simp add: formatDealLines_def deal_label_def)

lemma answered_card:
  assumes d: "uuid_text d" and t: "45 \<notin> set t" and ls: "ls = pre @ (deal_label @ d) # rest"
    and pre: "45 \<notin> set (lines_text (collapse_blanks False pre))" "collapse_blanks False pre = (c # l) # ls'" "\<not> js_space c"
  shows "extractDealId t (Some (copy_text ls)) = Some d"
proof -
  let ?p = "lines_text (collapse_blanks False pre)"
  have e: "d \<noteq> []" "\<not> js_space (last d)"
  proof -
    have l: "length d = 36" using d unfolding uuid_text_def by blast
    then show "d \<noteq> []" by auto
    then have "last d = d ! 35" using l by (simp add: last_conv_nth)
    then show "\<not> js_space (last d)" using uuid_nth[OF d, of 35] by (auto simp: hex_ranges_def in_ranges_def js_space_def)
  qed
  obtain b where b: "js_join [10] (collapse_blanks False ls) = (?p @ deal_label @ d) @ b" "b = [] \<or> hd b = 10"
  proof -
    have "js_join [10] (collapse_blanks False ls) = (?p @ deal_label @ d)
        @ (if collapse_blanks False rest = [] then [] else 10 # js_join [10] (collapse_blanks False rest))"
      unfolding ls using e(1) by (simp add: collapse_keeps join_after)
    then show ?thesis by (rule that) simp
  qed
  have "\<exists>b'. copy_text ls = (?p @ deal_label @ d) @ b' \<and> (\<exists>r. b = b' @ r)"
    unfolding copy_text_def b(1) using e pre(2,3) by (intro trim_tail) (simp_all add: lines_text_def)
  then obtain b' r where b': "copy_text ls = (?p @ deal_label) @ d @ b'" "b = b' @ r" by auto
  moreover have "\<not> at_word b'"
    using b(2) b'(2) by (cases b') (auto simp: at_word_def js_word_def js_letter_def js_digit_def)
  moreover have "45 \<notin> set (?p @ deal_label)" "\<not> at_word (rev (?p @ deal_label))" "?p @ deal_label \<noteq> []"
    using pre(1) by (simp_all add: deal_label_def at_word_def ru_eval js_word_def js_letter_def js_digit_def)
  ultimately have "extractDealId t (Some ((?p @ deal_label) @ d @ b')) = Some d" by (intro deal_of_reply[OF d t]) simp_all
  then show ?thesis using b'(1) by simp
qed

lemma reason_title_plain:
  assumes "45 \<notin> set (js_or reason [])"
  shows "45 \<notin> set (ri_title (reasonInfo reason))" "\<exists>c l. ri_title (reasonInfo reason) = c # l"
proof -
  have t: "list_all (\<lambda>(k, i). 45 \<notin> set (ri_title i) \<and> ri_title i \<noteq> []) ESCALATION_REASON_RU"
    by (simp add: ESCALATION_REASON_RU_def ru_eval)
  have k: "set (js_trim (js_or reason [])) \<subseteq> set (js_or reason [])"
    by (auto simp: js_trim_def dest!: set_dropWhileD)
  show "45 \<notin> set (ri_title (reasonInfo reason))"
    using assms k t by (auto simp: reasonInfo_def Let_def ru_eval list_all_iff dest!: map_of_SomeD split: option.splits)
  have "ri_title (reasonInfo reason) \<noteq> []"
    using t by (auto simp: reasonInfo_def Let_def ru_eval list_all_iff dest!: map_of_SomeD split: option.splits)
  then show "\<exists>c l. ri_title (reasonInfo reason) = c # l" by (metis neq_Nil_conv)
qed

text \<open>
  C31. A manager who answers the card of a deal by reply, in words without a hyphen, answers about that deal: the number
  read by the assistant from the answer and the quoted card is the number the card was made for. This holds for the
  escalation card whatever reason without a hyphen, summary, decision and further lines it carries, and for the cards of
  expired, missing, received and unreadable supplier quotes and of a read invoice.
\<close>

theorem card_answer_finds_deal:
  assumes "uuid_text d" "45 \<notin> set t" "ds_id s = Some d" "45 \<notin> set (js_or reason [])" "deal = None \<or> deal = Some s"
  and "m \<in> {formatEscalationStaff f (Some d) reason summary needed deal extra, formatQuoteExpiredStaff f s source price currency validUntil,
      formatFollowupStaff f s updatedAt, formatOcrInvoiceStaff f s amount currency source, formatImapQuoteStaff f s amount currency sender source,
      formatImapUnparsedStaff f s subj sender}"
  shows "extractDealId t (Some m) = Some d"
proof -
  have d: "js_or (Some d) [] = d" "d \<noteq> []" using assms(1) by (auto simp: uuid_text_def js_or_def)
  have lines: "\<exists>ls. formatDealLines f (Some x) = (deal_label @ d) # ls" if "ds_id x = Some d" for x
    using deal_lines_head[of x f] d that by simp
  have two: "extractDealId t (Some (copy_text ([h, []] @ formatDealLines f (Some s) @ rest))) = Some d"
    if "h \<noteq> []" "45 \<notin> set h" "\<not> js_space (hd h)" for h rest
  proof -
    obtain ls where "formatDealLines f (Some s) = (deal_label @ d) # ls" using lines assms(3) by blast
    moreover have "h = hd h # tl h" using that(1) by simp
    ultimately show ?thesis using that
      by (intro answered_card[OF assms(1,2), of _ "[h, []]" "ls @ rest" "hd h" "tl h" "[[]]"]) (simp_all add: lines_text_def)
  qed
  have escal: "extractDealId t (Some (formatEscalationStaff f (Some d) reason summary needed deal extra)) = Some d"
  proof -
    let ?x = "case deal of Some x \<Rightarrow> x | None \<Rightarrow> no_snippet\<lparr>ds_id := Some d\<rparr>"
    obtain ls where ls: "formatDealLines f (Some ?x) = (deal_label @ d) # ls"
      using lines[of ?x] assms(3,5) by (auto simp: no_snippet_def)
    let ?h = "([9888, 65039] @ ru '' Kollegi, nuvno re{enie'')"
    have h: "\<exists>h'. ?h = 9888 # h'" "45 \<notin> set ?h" by (simp_all add: ru_eval)
    obtain c l where ti: "ri_title (reasonInfo reason) = c # l" using reason_title_plain(2)[OF assms(4)] by blast
    have sp: "\<not> js_space 9888" by (simp add: js_space_def)
    obtain h' where h': "?h = 9888 # h'" using h(1) by blast
    show ?thesis unfolding formatEscalationStaff_def Let_def ls h' ti
      using reason_title_plain(1)[OF assms(4)] h(2) sp unfolding h' ti
      by (intro answered_card[OF assms(1,2), where pre = "[9888 # h', c # l, []]"]) (simp_all add: lines_text_def)
  qed
  have rest: "extractDealId t (Some (formatQuoteExpiredStaff f s source price currency validUntil)) = Some d"
    "extractDealId t (Some (formatFollowupStaff f s updatedAt)) = Some d"
    "extractDealId t (Some (formatOcrInvoiceStaff f s amount currency source)) = Some d"
    "extractDealId t (Some (formatImapQuoteStaff f s amount currency sender source)) = Some d"
    "extractDealId t (Some (formatImapUnparsedStaff f s subj sender)) = Some d"
    unfolding formatQuoteExpiredStaff_def formatFollowupStaff_def formatOcrInvoiceStaff_def formatImapQuoteStaff_def formatImapUnparsedStaff_def Let_def
    by (rule two; simp add: ru_eval js_space_def)+
  from assms(6) escal rest show ?thesis by blast
qed

theorem card_answer_finds_deal_witness:
  "extractDealId (ru ''soglasuj kp'') (Some (formatFollowupStaff
      \<lparr>cf_whole = \<lambda>_. [], cf_plain = \<lambda>_. [], cf_when = \<lambda>_. None, cf_digits = \<lambda>_. []\<rparr>
      (no_snippet\<lparr>ds_id := Some (js ''0a1b2c3d-0000-4000-8000-00000000000f'')\<rparr>) None))
    = Some (js ''0a1b2c3d-0000-4000-8000-00000000000f'')"
proof (rule card_answer_finds_deal[where s = "no_snippet\<lparr>ds_id := Some (js ''0a1b2c3d-0000-4000-8000-00000000000f'')\<rparr>" and deal = None and reason = None])
  show "uuid_text (js ''0a1b2c3d-0000-4000-8000-00000000000f'')"
    by code_simp
qed ((rule insertI2, rule insertI2, rule insertI1) | simp add: ru_eval js_or_def)+

text \<open>
  The director is called for exactly the ten reasons of money, policy and law that the table assigns to the
  director; any other reason, known or not, stays with the managers.
\<close>

theorem director_reasons:
  "escalationNeedsDirector reason \<longleftrightarrow> js_trim (js_or reason []) \<in> js ` {''grey_scheme_hard_block'', ''grey_scheme_request'',
     ''sanctioned_goods'', ''margin_or_discount_policy'', ''profit_below_minimum'', ''cashflow_gap'', ''amount_threshold'',
     ''missing_partner_channels'', ''procurement_loss_pattern'', ''configure_suppliers''}"
proof -
  define dir where "dir w \<longleftrightarrow> js_includes (js_toLowerCase w) (ru ''direktor'')" for w
  have w: "dir (ru ''direktoru'')" "\<not> dir (ru ''menedveru'')" "\<not> dir (ru ''logistu'')" "\<not> dir (ru ''logistu i brokeru'')"
    by (simp_all add: dir_def ru_eval js_toLowerCase_def js_lower_unit_def)
  have t: "map fst (filter (\<lambda>(k, i). dir (ri_who i)) ESCALATION_REASON_RU) = map js [''grey_scheme_hard_block'', ''grey_scheme_request'',
     ''sanctioned_goods'', ''margin_or_discount_policy'', ''profit_below_minimum'', ''cashflow_gap'', ''amount_threshold'',
     ''missing_partner_channels'', ''procurement_loss_pattern'', ''configure_suppliers'']"
    by (simp add: ESCALATION_REASON_RU_def w)
  have d: "distinct (map fst ESCALATION_REASON_RU)" by (simp add: ESCALATION_REASON_RU_def js_def)
  have "escalationNeedsDirector reason \<longleftrightarrow> js_trim (js_or reason []) \<in> set (map fst (filter (\<lambda>(k, i). dir (ri_who i)) ESCALATION_REASON_RU))"
  proof (cases "map_of ESCALATION_REASON_RU (js_trim (js_or reason []))")
    case None
    then have "\<not> escalationNeedsDirector reason"
      using w(2) by (simp add: escalationNeedsDirector_def reasonInfo_def Let_def dir_def)
    then show ?thesis using None by (auto simp: map_of_eq_None_iff)
  next
    case (Some i)
    have "escalationNeedsDirector reason = dir (ri_who i)"
      by (simp add: escalationNeedsDirector_def reasonInfo_def Let_def dir_def Some)
    moreover have "(js_trim (js_or reason []), j) \<in> set ESCALATION_REASON_RU \<longleftrightarrow> j = i" for j
      using Some map_of_eq_Some_iff[OF d, of "js_trim (js_or reason [])" j] by auto
    ultimately show ?thesis by (auto simp: image_iff)
  qed
  then show ?thesis unfolding t by auto
qed

text \<open>A row without a margin shows one: null is read as the number 0.\<close>

lemma null_margin_shown:
  assumes "row ''amount_rub'' = SNum a" "row ''margin_pct'' = SNull"
  shows "money_line f (dealSnippetFromRow digits row cargo route offer meta) = Some (formatMoneyRub f (Some a) @ (js '' '' @ [183] @ ru '' marva '') @ js ''0.0%'')"
  using assms by (simp add: money_line_def dealSnippetFromRow_def Let_def scalar_nullish_def copy_num_def to_fixed1_def js_def show_nat.simps)

end
