(* ===== verification/Gateway.thy ===== *)
theory Gateway
  imports StaffCopy TgRouting MtProxy
begin

text \<open>
  The Telegram gateway around its queues (\<open>apps/tg-gateway/src/index.ts\<close>, \<open>channel.ts\<close>, \<open>userClient.ts\<close>): a message of
  a client becomes a job, the job is answered by the orchestrator and becomes replies and an alert, replies leave through
  a user account and alerts go to the staff room and the director. The queues, Telegram and the API are parameters; what a
  handler asks of them is returned as a value.
\<close>

subsection \<open>Settings\<close>

definition blockedChatIds :: "penv \<Rightarrow> blocked_id option list" where
  "blockedChatIds env = map (\<lambda>n. map_option BStr (env_get env n)) [''TG_EXEC_CHANNEL_ID'', ''TG_ESCALATION_CHAT_ID'', ''TG_STAFF_CHAT_ID'']"

text \<open>A number that is no integer equals no identifier, as 0 does.\<close>

definition botUserId :: "penv \<Rightarrow> int" where
  "botUserId env =
     (case js_Number (hd (js_split1 58 (js_or (env_get env ''TG_BOT_TOKEN'') []))) of
        Num n \<Rightarrow> if of_int \<lfloor>n\<rfloor> = n then \<lfloor>n\<rfloor> else 0
      | _ \<Rightarrow> 0)"

definition managerIds :: "penv \<Rightarrow> rat list" where
  "managerIds env =
     List.map_filter (\<lambda>s. case js_Number s of Num n \<Rightarrow> if n \<noteq> 0 then Some n else None | _ \<Rightarrow> None)
       (filter (\<lambda>s. s \<noteq> []) (map js_trim (js_split1 44 (js_or (env_get env ''TG_MANAGER_IDS'') []))))"

definition internalApiHeaders :: "penv \<Rightarrow> (jstr \<times> jstr) list \<Rightarrow> (jstr \<times> jstr) list" where
  "internalApiHeaders env extra =
     (let token = js_trim (js_or (env_get env ''INTERNAL_API_TOKEN'') [])
      in if token \<noteq> [] then extra @ [(js ''x-internal-token'', token)] else extra)"

definition jobKey :: "jstr \<Rightarrow> jstr option list \<Rightarrow> jstr" where
  "jobKey tag parts =
     map (\<lambda>c. if c = 58 then 45 else c) (js_join [45] (tag # map (\<lambda>p. case p of None \<Rightarrow> js ''0'' | Some s \<Rightarrow> s) parts))"

subsection \<open>A message of a client\<close>

record gw_msg =
  gm_chat :: int
  gm_user :: "int option"
  gm_message :: "int option"
  gm_text :: jstr
  gm_client :: "jstr option"
  gm_media :: "inbound_media option"

record job_media =
  jm_filename :: jstr
  jm_type :: jstr
  jm_kind :: media_kind
  jm_base64 :: jstr

record inbound_job =
  ij_chat :: int
  ij_user :: "int option"
  ij_message :: "int option"
  ij_text :: jstr
  ij_client :: "jstr option"
  ij_key :: jstr
  ij_account :: jstr
  ij_media :: "job_media option"

text \<open>
  What a handler asks: the text of a file, whether the API knows a message, and whether a queue refuses a job of a given
  identifier (with the text of the error).
\<close>

record gw_world =
  gw_extract :: "inbound_media \<Rightarrow> jstr option"
  gw_exists :: "int \<Rightarrow> int \<Rightarrow> bool"
  gw_refuses :: "jstr \<Rightarrow> jstr option"

datatype enqueued = Queued inbound_job | AlreadyQueued | Direct inbound_job

definition job_media_of :: "inbound_media option \<Rightarrow> job_media option" where
  "job_media_of m =
     (case m of None \<Rightarrow> None
      | Some d \<Rightarrow> if length (md_buffer d) \<le> 3500000
          then Some \<lparr>jm_filename = md_filename d, jm_type = md_contentType d, jm_kind = md_kind d, jm_base64 = to_base64 (md_buffer d)\<rparr>
          else None)"

definition inbound_payload :: "jstr \<Rightarrow> gw_msg \<Rightarrow> jstr \<Rightarrow> jstr option \<Rightarrow> int \<Rightarrow> inbound_job" where
  "inbound_payload acc msg body key now =
     \<lparr>ij_chat = gm_chat msg, ij_user = gm_user msg, ij_message = gm_message msg, ij_text = body, ij_client = gm_client msg,
      ij_key = js_or key (jobKey (js ''in'') [Some acc, Some (show_int (gm_chat msg)),
        Some (show_int (case gm_message msg of Some i \<Rightarrow> i | None \<Rightarrow> now))]),
      ij_account = acc, ij_media = job_media_of (gm_media msg)\<rparr>"

definition enqueueInbound :: "gw_world \<Rightarrow> jstr \<Rightarrow> gw_msg \<Rightarrow> jstr \<Rightarrow> jstr option \<Rightarrow> int \<Rightarrow> enqueued" where
  "enqueueInbound w acc msg body key now =
     (let job = inbound_payload acc msg body key now
      in case gw_refuses w (ij_key job) of None \<Rightarrow> Queued job
         | Some err \<Rightarrow> if isJobExistsError err then AlreadyQueued else Direct job)"

definition isMessageAlreadyProcessed :: "gw_world \<Rightarrow> int \<Rightarrow> int option \<Rightarrow> bool" where
  "isMessageAlreadyProcessed w chat message = (case message of None \<Rightarrow> False | Some i \<Rightarrow> i \<noteq> 0 \<and> gw_exists w chat i)"

record gw_state =
  gs_router :: tg_router
  gs_buckets :: "int list"

text \<open>\<open>t1\<close> and \<open>t2\<close> are the times of the two looks at the rate limit, five seconds or more apart.\<close>

definition handleInboundMessage :: "penv \<Rightarrow> gw_world \<Rightarrow> int \<Rightarrow> jstr \<Rightarrow> gw_msg \<Rightarrow> int \<Rightarrow> int \<Rightarrow> gw_state \<Rightarrow> gw_state \<times> enqueued option" where
  "handleInboundMessage env w skip acc msg t1 t2 st =
     (if shouldIgnoreInbound (gm_chat msg) (gm_user msg) (Some skip) (blockedChatIds env) then (st, None)
      else let (ok1, b1) = rateLimitOk env t1 (gs_buckets st);
               (ok, b) = (if ok1 then (True, b1) else rateLimitOk env t2 b1);
               st' = \<lparr>gs_router = rt_bind (gm_chat msg) acc (gs_router st), gs_buckets = b\<rparr>
           in if \<not> ok then (st', None)
              else let extracted = Option.bind (gm_media msg) (gw_extract w);
                       body = composeInboundText (gm_text msg) (gm_media msg) extracted ToClient
                   in if js_trim body = [] then (st', None)
                      else if isMessageAlreadyProcessed w (gm_chat msg) (gm_message msg) then (st', None)
                      else (st', Some (enqueueInbound w acc msg body None t2)))"

subsection \<open>The start of an account\<close>

definition gw_msg_of :: "(int \<Rightarrow> inbound_media option) \<Rightarrow> inbound_msg \<Rightarrow> gw_msg" where
  "gw_msg_of media i =
     \<lparr>gm_chat = im_chat i, gm_user = im_user i, gm_message = Some (im_message_id i), gm_text = im_text i, gm_client = None,
      gm_media = (if im_media i then media (im_message_id i) else None)\<rparr>"

definition resume_key :: "open_deal \<Rightarrow> jstr \<Rightarrow> jstr" where
  "resume_key d hour =
     jobKey (js ''resume'') [Some (od_id d),
       Some (case od_last_message_id d of None \<Rightarrow> js ''0'' | Some i \<Rightarrow> if i = 0 then js ''0'' else show_int i), Some hour]"

definition resume_open_deal :: "gw_world \<Rightarrow> jstr \<Rightarrow> jstr \<Rightarrow> int \<Rightarrow> open_deal \<Rightarrow> enqueued option" where
  "resume_open_deal w acc hour now d =
     (let t = js_or (od_last_inbound_text d) []
      in if js_trim t = [] then None
         else Some (enqueueInbound w acc
           \<lparr>gm_chat = od_chat d, gm_user = None, gm_message = od_last_message_id d, gm_text = t, gm_client = None, gm_media = None\<rparr>
           t (Some (resume_key d hour)) now))"

definition startup_event :: "penv \<Rightarrow> gw_world \<Rightarrow> int \<Rightarrow> jstr \<Rightarrow> (int \<Rightarrow> inbound_media option) \<Rightarrow> jstr \<Rightarrow> (nat \<Rightarrow> int) \<Rightarrow> open_deal list
    \<Rightarrow> resume_event \<Rightarrow> nat \<times> gw_state \<times> enqueued list \<Rightarrow> nat \<times> gw_state \<times> enqueued list" where
  "startup_event env w skip acc media hour clock deals e =
     (\<lambda>(k, st, out). case e of
        Replayed i \<Rightarrow> (case handleInboundMessage env w skip acc (gw_msg_of media i) (clock k) (clock (k + 1)) st of
            (st', r) \<Rightarrow> (k + 2, st', out @ (case r of None \<Rightarrow> [] | Some x \<Rightarrow> [x])))
      | Resumed i \<Rightarrow> (k, st, out @ (case Option.bind (find (\<lambda>d. od_id d = i) deals) (resume_open_deal w acc hour (clock k)) of
            None \<Rightarrow> [] | Some x \<Rightarrow> [x])))"

definition runStartupCatchUp :: "penv \<Rightarrow> gw_world \<Rightarrow> int \<Rightarrow> jstr \<Rightarrow> (int \<Rightarrow> inbound_media option) \<Rightarrow> jstr \<Rightarrow> (nat \<Rightarrow> int)
    \<Rightarrow> (int \<Rightarrow> nat \<Rightarrow> tg_message list) \<Rightarrow> (int \<Rightarrow> int \<Rightarrow> tg_message list option) \<Rightarrow> tg_dialog list \<Rightarrow> open_deal list
    \<Rightarrow> gw_state \<Rightarrow> gw_state \<times> enqueued list" where
  "runStartupCatchUp env w skip acc media hour clock unread since dialogs deals st =
     snd (fold (startup_event env w skip acc media hour clock deals)
       (map Replayed (fst (catchUpPrivateChats unread (Some skip) (blockedChatIds env) dialogs)) @ resume_deals since {} deals)
       (0, st, []))"

text \<open>
  The loop of an account: each round ends in a failed start, in a failed catch-up or in service. A client that was
  started stays attached.
\<close>

datatype round_end = StartFailed | CatchUpFailed | Serving

record account_loop =
  al_attempt :: nat
  al_sender :: bool
  al_clients :: nat
  al_waits :: "nat list"
  al_serving :: bool

definition new_loop :: account_loop where
  "new_loop = \<lparr>al_attempt = 0, al_sender = False, al_clients = 0, al_waits = [], al_serving = False\<rparr>"

definition account_round :: "round_end \<Rightarrow> account_loop \<Rightarrow> account_loop" where
  "account_round e l =
     (if al_serving l then l
      else let n = al_attempt l + 1;
               failed = l\<lparr>al_attempt := n, al_sender := False, al_waits := al_waits l @ [min 60000 (5000 * n)]\<rparr>
           in case e of
                StartFailed \<Rightarrow> failed
              | CatchUpFailed \<Rightarrow> failed\<lparr>al_clients := al_clients l + 1\<rparr>
              | Serving \<Rightarrow> l\<lparr>al_attempt := n, al_sender := True, al_clients := al_clients l + 1, al_serving := True\<rparr>)"

subsection \<open>A job and its answer\<close>

record gw_escalation =
  ge_reason :: "jstr option"
  ge_id :: "jstr option"
  ge_duplicate :: bool
  ge_summary :: "jstr option"
  ge_needed :: "jstr option"

record orch_result =
  or_cached :: bool
  or_replies :: "jstr list option"
  or_fallback :: "jstr list option"
  or_deal :: "jstr option"
  or_escalate :: bool
  or_escalation :: "gw_escalation option"

record out_job =
  oj_chat :: int
  oj_text :: jstr
  oj_deal :: "jstr option"
  oj_account :: jstr
  oj_id :: jstr

record alert_job =
  aj_text :: jstr
  aj_deal :: "jstr option"
  aj_notify :: bool
  aj_id :: jstr

datatype gw_effect = StoreMedia jstr job_media | AddReply out_job | AddAlert alert_job

text \<open>The replies added, and whether the job goes on: an error other than "exists" is thrown.\<close>

fun add_replies :: "(jstr \<Rightarrow> jstr option) \<Rightarrow> inbound_job \<Rightarrow> jstr option \<Rightarrow> nat \<Rightarrow> jstr list \<Rightarrow> gw_effect list \<times> bool" where
  "add_replies refuses job deal i [] = ([], True)"
| "add_replies refuses job deal i (t # ts) =
     (let outId = jobKey (js ''out'') [Some (ij_key job), Some (show_nat i), Some (take 24 t)];
          added = [AddReply \<lparr>oj_chat = ij_chat job, oj_text = t, oj_deal = deal, oj_account = ij_account job, oj_id = outId\<rparr>]
      in case refuses outId of
           None \<Rightarrow> (case add_replies refuses job deal (i + 1) ts of (es, ok) \<Rightarrow> (added @ es, ok))
         | Some err \<Rightarrow> if isJobExistsError err then add_replies refuses job deal (i + 1) ts else ([], False))"

text \<open>\<open>row\<close> is the deal the API returned.\<close>

definition formatEscalationAlert :: "copy_fmt \<Rightarrow> (jstr \<Rightarrow> deal_snippet option) \<Rightarrow> jstr option \<Rightarrow> gw_escalation \<Rightarrow> jstr" where
  "formatEscalationAlert f row dealId esc =
     (let given = js_or dealId [];
          deal = (if given = [] then None
                  else Some (case row given of Some d \<Rightarrow> d | None \<Rightarrow> no_snippet\<lparr>ds_id := Some given\<rparr>))
      in formatEscalationStaff f dealId (ge_reason esc) (ge_summary esc) (ge_needed esc) deal [])"

definition answer_alert :: "copy_fmt \<Rightarrow> (jstr \<Rightarrow> deal_snippet option) \<Rightarrow> (jstr \<Rightarrow> jstr option) \<Rightarrow> orch_result \<Rightarrow> gw_effect list \<times> bool" where
  "answer_alert f row refuses r =
     (case or_escalation r of None \<Rightarrow> ([], True)
      | Some esc \<Rightarrow>
          if \<not> or_escalate r \<or> ge_duplicate esc then ([], True)
          else let alertId = channelJobId (js ''esc'') [or_deal r, ge_reason esc, ge_id esc];
                   alert = AddAlert \<lparr>aj_text = formatEscalationAlert f row (or_deal r) esc, aj_deal = or_deal r,
                     aj_notify = escalationNeedsDirector (ge_reason esc), aj_id = alertId\<rparr>
               in case refuses alertId of None \<Rightarrow> ([alert], True) | Some err \<Rightarrow> ([], isJobExistsError err))"

text \<open>\<open>answer\<close> is the body the orchestrator sent, whatever the status; \<open>None\<close> when there is none that can be read.\<close>

definition processOrchestrateJob :: "copy_fmt \<Rightarrow> (jstr \<Rightarrow> deal_snippet option) \<Rightarrow> (jstr \<Rightarrow> jstr option) \<Rightarrow> orch_result option
    \<Rightarrow> inbound_job \<Rightarrow> gw_effect list \<times> bool" where
  "processOrchestrateJob f row refuses answer job =
     (case answer of None \<Rightarrow> ([], False)
      | Some r \<Rightarrow>
          if or_cached r then ([], True)
          else let deal = js_or (or_deal r) [];
                   stored = (case ij_media job of None \<Rightarrow> []
                     | Some m \<Rightarrow> if deal \<noteq> [] \<and> jm_base64 m \<noteq> [] then [StoreMedia deal m] else []);
                   replies = (case or_replies r of Some ts \<Rightarrow> ts | None \<Rightarrow> (case or_fallback r of Some ts \<Rightarrow> ts | None \<Rightarrow> []));
                   (es, ok) = add_replies refuses job (or_deal r) 0 replies
               in if \<not> ok then (stored @ es, False)
                  else case answer_alert f row refuses r of (al, ok2) \<Rightarrow> (stored @ es @ al, ok2))"

subsection \<open>Replies\<close>

definition outbound_delay :: "rat option \<Rightarrow> rat \<Rightarrow> rat" where
  "outbound_delay given human = (case given of Some d \<Rightarrow> d | None \<Rightarrow> human)"

text \<open>One attempt of the outbound worker: the account that sent, or \<open>None\<close> when the attempt threw.\<close>

definition outbound_attempt :: "(jstr \<Rightarrow> bool) \<Rightarrow> (jstr \<Rightarrow> bool) \<Rightarrow> out_job \<Rightarrow> tg_router \<Rightarrow> jstr option \<times> tg_router" where
  "outbound_attempt online delivers job r =
     (case rt_assign (oj_chat job) (Some (oj_account job)) r of
        (None, r') \<Rightarrow> (None, r')
      | (Some a, r') \<Rightarrow> (if online (ta_id a) \<and> delivers (ta_id a) then Some (ta_id a) else None, r'))"

subsection \<open>The staff room and the director\<close>

record chat_post =
  cp_chat :: jstr
  cp_text :: jstr
  cp_thread :: "rat option"

text \<open>The requests made to the bot, and whether the call returned.\<close>

definition tgRequiresBot :: "penv \<Rightarrow> bool" where
  "tgRequiresBot env \<longleftrightarrow> env_get env ''NODE_ENV'' = Some (js ''production'') \<or> env_get env ''ALO_ENV'' = Some (js ''production'')
     \<or> env_get env ''TG_REQUIRE_BOT'' = Some (js ''true'')"

definition sendToChat :: "penv \<Rightarrow> (chat_post \<Rightarrow> bool) \<Rightarrow> jstr \<Rightarrow> jstr \<Rightarrow> rat option \<Rightarrow> chat_post list \<times> bool" where
  "sendToChat env accepts chat body thread =
     (if js_or (env_get env ''TG_BOT_TOKEN'') [] = [] then ([], \<not> tgRequiresBot env)
      else let topic = (case thread of Some t \<Rightarrow> if 0 < t then Some t else None | None \<Rightarrow> None);
               first = \<lparr>cp_chat = chat, cp_text = take 4000 body, cp_thread = topic\<rparr>
           in if accepts first then ([first], True)
              else if topic = None then ([first], False)
              else let flat = \<lparr>cp_chat = chat, cp_text = take 4000 body, cp_thread = None\<rparr> in ([first, flat], accepts flat))"

definition postToExecutiveChannel :: "penv \<Rightarrow> (chat_post \<Rightarrow> bool) \<Rightarrow> jstr \<Rightarrow> chat_post list \<times> bool" where
  "postToExecutiveChannel env accepts body =
     (let channelId = js_or (env_get env ''TG_EXEC_CHANNEL_ID'') []
      in if channelId = [] then ([], True) else sendToChat env accepts channelId body None)"

definition staff_chat :: "penv \<Rightarrow> jstr" where
  "staff_chat env = js_or (env_get env ''TG_STAFF_CHAT_ID'') (js_or (env_get env ''TG_ESCALATION_CHAT_ID'')
     (js_or (env_get env ''TG_EXEC_CHANNEL_ID'') []))"

definition postToStaffWorkChat :: "penv \<Rightarrow> (chat_post \<Rightarrow> bool) \<Rightarrow> topic_ids \<Rightarrow> jstr \<Rightarrow> jstr \<Rightarrow> chat_post list \<times> bool" where
  "postToStaffWorkChat env accepts ids body kind =
     (if staff_chat env = [] then ([], True)
      else let thread = (case (if kind = [] then None else threadIdForOutbound env ids kind) of
                Some t \<Rightarrow> Some t | None \<Rightarrow> threadIdForOutbound env ids (js ''info''))
           in sendToChat env accepts (staff_chat env) body thread)"

definition director_note :: jstr where
  "director_note = ([55357, 56523] @ js '' '' @ [1069] @ ru ''skalaciq (sotrudniki ne sprawlq`tsq)'') @ [10, 10]"

definition routeStaffChannelPost :: "penv \<Rightarrow> (chat_post \<Rightarrow> bool) \<Rightarrow> topic_ids \<Rightarrow> jstr \<Rightarrow> jstr \<Rightarrow> bool \<Rightarrow> chat_post list \<times> bool" where
  "routeStaffChannelPost env accepts ids kind0 body notify =
     (let kind = js_toLowerCase (js_or (Some kind0) (js ''info''))
      in if kind = js ''digest'' then postToExecutiveChannel env accepts body
         else if kind = js ''alert''
         then (let (ps, ok) = postToStaffWorkChat env accepts ids body (js ''alert'')
               in if ok \<and> notify
                  then (case postToExecutiveChannel env accepts (director_note @ body) of (qs, ok2) \<Rightarrow> (ps @ qs, ok2))
                  else (ps, ok))
         else postToStaffWorkChat env accepts ids body kind)"

definition postEscalation :: "penv \<Rightarrow> (chat_post \<Rightarrow> bool) \<Rightarrow> topic_ids \<Rightarrow> jstr \<Rightarrow> bool \<Rightarrow> chat_post list \<times> bool" where
  "postEscalation env accepts ids body notify = routeStaffChannelPost env accepts ids (js ''alert'') body notify"

text \<open>A job of the channel queue for an alert.\<close>

definition channel_alert :: "penv \<Rightarrow> (chat_post \<Rightarrow> bool) \<Rightarrow> topic_ids \<Rightarrow> alert_job \<Rightarrow> chat_post list \<times> bool" where
  "channel_alert env accepts ids a = routeStaffChannelPost env accepts ids (js ''alert'') (aj_text a) (aj_notify a)"

subsection \<open>Connecting\<close>

definition raw_or :: "penv \<Rightarrow> string list \<Rightarrow> jstr" where
  "raw_or env names = MtProxy.first_text (map (\<lambda>n. js_or (env_get env n) []) names)"

definition socksFallbackProxy :: "penv \<Rightarrow> gram_proxy option" where
  "socksFallbackProxy env =
     (let proxyFlag = js_toLowerCase (envTrim env ''PROXY_ENABLED'')
      in if proxyFlag \<noteq> [] \<and> proxyFlag \<notin> set (map js [''1'', ''true'', ''yes'', ''on'']) then None
         else case loadAppProxy env of
           Some cfg \<Rightarrow> Some (SocksProxy (px_host cfg) (px_port cfg) (nonempty (px_username cfg)) (nonempty (px_password cfg)))
         | None \<Rightarrow>
             (let host = js_trim (raw_or env [''PROXY_HOST'', ''PX6_HOST'']);
                  port = js_Number (js_or (Some (raw_or env [''PROXY_PORT'', ''PX6_PORT''])) (js ''0''))
              in if host = [] \<or> \<not> port_ok port then None
                 else Some (SocksProxy host port (nonempty (js_trim (raw_or env [''PROXY_USERNAME'', ''PROXY_USER'', ''PX6_USER''])))
                   (nonempty (js_trim (raw_or env [''PROXY_PASSWORD'', ''PROXY_PASS'', ''PX6_PASS'']))))))"

definition proxy_key :: "gram_proxy option \<Rightarrow> jstr" where
  "proxy_key p = (case p of None \<Rightarrow> js ''direct''
     | Some (MtProxy m) \<Rightarrow> js ''mt:'' @ mp_ip m @ [58] @ port_text (mp_port m)
     | Some (SocksProxy host port _ _) \<Rightarrow> js ''socks:'' @ host @ [58] @ port_text port)"

definition pushUnique :: "gram_proxy option \<Rightarrow> gram_proxy option list \<Rightarrow> gram_proxy option list" where
  "pushUnique p as = (if proxy_key p \<in> set (map proxy_key as) then as else as @ [p])"

fun is_mt :: "gram_proxy \<Rightarrow> bool" where
  "is_mt (MtProxy _) = True"
| "is_mt (SocksProxy _ _ _ _) = False"

definition connection_attempts :: "(jstr \<Rightarrow> parsed_url option) \<Rightarrow> penv \<Rightarrow> gram_proxy option list" where
  "connection_attempts url env =
     (let preferred = gramJsProxy url env;
          socks = socksFallbackProxy env;
          a1 = (case preferred of Some p \<Rightarrow> if is_mt p then pushUnique preferred [] else [] | None \<Rightarrow> []);
          a2 = (if socks \<noteq> None then pushUnique socks a1
                else case preferred of Some p \<Rightarrow> if is_mt p then a1 else pushUnique preferred a1 | None \<Rightarrow> a1)
      in pushUnique None a2)"

text \<open>What one connection asks, and the milliseconds each step may take; a client that fails is destroyed.\<close>

datatype connect_step = SConnect | SCheckAuth | SGetMe

record step_answer =
  sa_took :: nat
  sa_good :: bool

definition step_limit :: "bool \<Rightarrow> connect_step \<Rightarrow> nat" where
  "step_limit mt s = (case s of SConnect \<Rightarrow> if mt then 15000 else 25000 | _ \<Rightarrow> if mt then 12000 else 18000)"

definition connectWithProxy :: "(gram_proxy option \<Rightarrow> connect_step \<Rightarrow> step_answer) \<Rightarrow> gram_proxy option \<Rightarrow> bool" where
  "connectWithProxy net p =
     list_all (\<lambda>s. sa_good (net p s) \<and> sa_took (net p s) < step_limit (case p of None \<Rightarrow> False | Some x \<Rightarrow> is_mt x) s) [SConnect, SCheckAuth, SGetMe]"

definition startUserClient :: "(jstr \<Rightarrow> parsed_url option) \<Rightarrow> penv \<Rightarrow> (gram_proxy option \<Rightarrow> connect_step \<Rightarrow> step_answer) \<Rightarrow> gram_proxy option option" where
  "startUserClient url env net = find (connectWithProxy net) (connection_attempts url env)"

text \<open>An incoming call: it is always refused; a caller whose number can be read is told to write or to telephone.\<close>

definition call_refusal :: "penv \<Rightarrow> jstr" where
  "call_refusal env =
     (let did = js_or (env_get env ''VOICE_DID_NUMBER'') []
      in js_join [10]
        [(ru ''Golosowye zwonki wnutri '' @ js ''Telegram '' @ ru ''|tot akkaunt ne prinimaet.''),
         (ru ''Napi{ite, povalujsta, otkuda/kuda wez#m i ~to za gruz '' @ [8212] @ ru '' otwe~u zdesx.''),
         (if did \<noteq> [] then ru ''Ili pozwonite na '' @ did @ (js '' '' @ [8212] @ ru '' otwetit golosowoj assistent.'')
          else ru ''Ili napi{ite mar{rut i gruz s`da soob}eniem.'')])"

definition on_phone_call :: "penv \<Rightarrow> bool \<Rightarrow> numval \<Rightarrow> (rat \<times> jstr) option" where
  "on_phone_call env online user =
     (case user of Num u \<Rightarrow> if 0 < u \<and> online then Some (u, call_refusal env) else None | _ \<Rightarrow> None)"

subsection \<open>Identifiers of replies\<close>

definition no_colon :: "jstr \<Rightarrow> jstr" where
  "no_colon s = map (\<lambda>c. if c = 58 then 45 else c) s"

lemma no_colon_simps [simp]:
  "no_colon (a @ b) = no_colon a @ no_colon b" "no_colon (c # s) = (if c = 58 then 45 else c) # no_colon s" "no_colon [] = []"
  "no_colon (no_colon s) = no_colon s"
  by (simp_all add: no_colon_def)

lemma show_nat_no_sep [simp]: "no_colon (show_nat n) = show_nat n" "45 \<notin> set (show_nat n)"
proof -
  have d: "c \<noteq> 58 \<and> c \<noteq> 45" if "c \<in> set (show_nat n)" for c using show_nat_digits[OF that] by (auto simp: js_digit_def)
  show "no_colon (show_nat n) = show_nat n" unfolding no_colon_def by (rule map_idI) (use d in auto)
  show "45 \<notin> set (show_nat n)" using d by blast
qed

lemma dash_split: "a @ 45 # x = b @ (45 :: nat) # y \<Longrightarrow> 45 \<notin> set a \<Longrightarrow> 45 \<notin> set b \<Longrightarrow> a = b \<and> x = y"
  by (induction a arbitrary: b) (case_tac b; auto)+

lemma inbound_key:
  assumes "0 \<le> gm_chat msg" "gm_message msg = Some m" "0 \<le> m"
  shows "ij_key (inbound_payload acc msg body None now)
    = js ''in-'' @ no_colon acc @ 45 # show_nat (nat (gm_chat msg)) @ 45 # show_nat (nat m)"
  using assms by (simp add: inbound_payload_def jobKey_def no_colon_def[symmetric] show_int_def js_def)

lemma reply_key:
  "jobKey (js ''out'') [Some k, Some (show_nat i), Some t] = js ''out-'' @ no_colon k @ 45 # show_nat i @ 45 # no_colon t"
  by (simp add: jobKey_def no_colon_def[symmetric] js_def)

lemma add_replies_sound:
  "AddReply out \<in> set (fst (add_replies refuses job deal i ts)) \<Longrightarrow>
   \<exists>k < length ts. out = \<lparr>oj_chat = ij_chat job, oj_text = ts ! k, oj_deal = deal, oj_account = ij_account job,
      oj_id = jobKey (js ''out'') [Some (ij_key job), Some (show_nat (i + k)), Some (take 24 (ts ! k))]\<rparr>"
proof (induction ts arbitrary: i)
  case (Cons t ts)
  let ?o = "\<lparr>oj_chat = ij_chat job, oj_text = t, oj_deal = deal, oj_account = ij_account job,
      oj_id = jobKey (js ''out'') [Some (ij_key job), Some (show_nat i), Some (take 24 t)]\<rparr>"
  from Cons.prems consider "out = ?o" | "AddReply out \<in> set (fst (add_replies refuses job deal (i + 1) ts))"
    by (auto simp: Let_def split: option.splits if_splits prod.splits)
  then show ?case
  proof cases
    case 2
    from Cons.IH[OF this] obtain k where "k < length ts" "out = \<lparr>oj_chat = ij_chat job, oj_text = ts ! k, oj_deal = deal,
        oj_account = ij_account job, oj_id = jobKey (js ''out'') [Some (ij_key job), Some (show_nat (i + 1 + k)), Some (take 24 (ts ! k))]\<rparr>"
      by blast
    then show ?thesis by (intro exI[of _ "Suc k"]) simp
  qed (intro exI[of _ 0], simp)
qed simp

lemma handled_job:
  assumes "snd (handleInboundMessage env w skip acc msg t1 t2 st) = Some e" "e \<in> {Queued job, Direct job}"
  shows "0 < gm_chat msg \<and> (\<exists>body. job = inbound_payload acc msg body None t2 \<and> js_trim body \<noteq> [])"
  using assms by (auto simp: handleInboundMessage_def enqueueInbound_def Let_def shouldIgnoreInbound_def isPrivateUserChat_def
      split: if_splits prod.splits option.splits)

lemma process_replies:
  assumes "AddReply out \<in> set (fst (processOrchestrateJob f row refuses answer job))"
  shows "\<exists>deal ts. AddReply out \<in> set (fst (add_replies refuses job deal 0 ts))
     \<and> (\<exists>r. answer = Some r \<and> (or_replies r = Some ts \<or> or_replies r = None \<and> or_fallback r = Some ts))"
proof -
  obtain r where r: "answer = Some r" "\<not> or_cached r" using assms by (auto simp: processOrchestrateJob_def split: option.splits if_splits)
  define ts where "ts = (case or_replies r of Some ts \<Rightarrow> ts | None \<Rightarrow> (case or_fallback r of Some ts \<Rightarrow> ts | None \<Rightarrow> []))"
  have "AddReply out \<notin> set (fst (answer_alert f row refuses r))"
    by (auto simp: answer_alert_def Let_def split: option.splits)
  then have "AddReply out \<in> set (fst (add_replies refuses job (or_deal r) 0 ts))"
    using assms r unfolding ts_def
    by (auto simp: processOrchestrateJob_def Let_def split: option.splits if_splits prod.splits)
  moreover from this have "ts \<noteq> []" by auto
  ultimately show ?thesis using r(1) unfolding ts_def by (auto split: option.splits)
qed

text \<open>
  C28. No reply is taken for another. The queue keeps one job per identifier, so two replies with one identifier would be
  one reply lost; replies to two messages that one account received have the same identifier only when they are the
  reply of the same position to the same message of the same chat, with the same beginning.
\<close>

theorem reply_ids_apart:
  assumes "snd (handleInboundMessage env w skip acc msg t1 t2 st) = Some e" "e \<in> {Queued job, Direct job}"
    and "snd (handleInboundMessage env' w' skip acc msg' t1' t2' st') = Some e'" "e' \<in> {Queued job', Direct job'}"
    and "gm_message msg = Some m" "0 \<le> m" "gm_message msg' = Some m'" "0 \<le> m'"
    and "AddReply out \<in> set (fst (processOrchestrateJob f row refuses (Some r) job))"
    and "AddReply out' \<in> set (fst (processOrchestrateJob f row refuses' (Some r') job'))"
    and "oj_id out = oj_id out'"
  shows "gm_chat msg = gm_chat msg' \<and> m = m' \<and> no_colon (take 24 (oj_text out)) = no_colon (take 24 (oj_text out'))
    \<and> (or_replies r \<noteq> None \<and> or_replies r' \<noteq> None \<longrightarrow> (\<exists>k. oj_text out = the (or_replies r) ! k \<and> oj_text out' = the (or_replies r') ! k))"
proof -
  from handled_job[OF assms(1,2)] obtain b where c: "0 < gm_chat msg" and j: "job = inbound_payload acc msg b None t2" by blast
  from handled_job[OF assms(3,4)] obtain b' where c': "0 < gm_chat msg'" and j': "job' = inbound_payload acc msg' b' None t2'" by blast
  from process_replies[OF assms(9)] obtain deal ts where t: "AddReply out \<in> set (fst (add_replies refuses job deal 0 ts))"
    "or_replies r = Some ts \<or> or_replies r = None" by auto
  from process_replies[OF assms(10)] obtain deal' ts' where t': "AddReply out' \<in> set (fst (add_replies refuses' job' deal' 0 ts'))"
    "or_replies r' = Some ts' \<or> or_replies r' = None" by auto
  from add_replies_sound[OF t(1)] obtain k where k: "oj_text out = ts ! k"
    "oj_id out = jobKey (js ''out'') [Some (ij_key job), Some (show_nat k), Some (take 24 (ts ! k))]" by auto
  from add_replies_sound[OF t'(1)] obtain k' where k': "oj_text out' = ts' ! k'"
    "oj_id out' = jobKey (js ''out'') [Some (ij_key job'), Some (show_nat k'), Some (take 24 (ts' ! k'))]" by auto
  note key = inbound_key[OF less_imp_le[OF c] assms(5,6)] inbound_key[OF less_imp_le[OF c'] assms(7,8)]
  have e: "show_nat (nat (gm_chat msg)) @ 45 # show_nat (nat m) @ 45 # show_nat k @ 45 # no_colon (take 24 (ts ! k))
      = show_nat (nat (gm_chat msg')) @ 45 # show_nat (nat m') @ 45 # show_nat k' @ 45 # no_colon (take 24 (ts' ! k'))"
    using assms(11) unfolding k(2) k'(2) reply_key j j' key by simp
  from dash_split[OF e] have 1: "show_nat (nat (gm_chat msg)) = show_nat (nat (gm_chat msg'))" and
    e1: "show_nat (nat m) @ 45 # show_nat k @ 45 # no_colon (take 24 (ts ! k)) = show_nat (nat m') @ 45 # show_nat k' @ 45 # no_colon (take 24 (ts' ! k'))"
    by simp_all
  from dash_split[OF e1] have 2: "show_nat (nat m) = show_nat (nat m')" and
    e2: "show_nat k @ 45 # no_colon (take 24 (ts ! k)) = show_nat k' @ 45 # no_colon (take 24 (ts' ! k'))" by simp_all
  note 3 = conjunct1[OF dash_split[OF e2 show_nat_no_sep(2) show_nat_no_sep(2)]] conjunct2[OF dash_split[OF e2 show_nat_no_sep(2) show_nat_no_sep(2)]]
  have "k = k'" using 3(1) by simp
  have "nat (gm_chat msg) = nat (gm_chat msg')" "nat m = nat m'" using 1 2 by simp_all
  then have "gm_chat msg = gm_chat msg'" "m = m'" using c c' assms(6,8) by linarith+
  then show ?thesis using 3(2) k(1) k'(1) t(2) t'(2) \<open>k = k'\<close> by auto
qed

subsection \<open>From the client's message to the reply\<close>

text \<open>
  C29. A reply leaves through the account the client wrote to. When accounts have distinct identifiers that are not empty
  and a message received by one of them is handled and answered, every reply goes to the chat it came from; whenever an
  attempt to send it succeeds it is that account that sent it, and the attempt succeeds as soon as that account is
  connected and Telegram takes the text, whatever the router remembers of the chat by then.
\<close>

theorem reply_by_same_account:
  assumes "snd (handleInboundMessage env w skip acc msg t1 t2 st) = Some e" "e \<in> {Queued job, Direct job}"
    and "AddReply out \<in> set (fst (processOrchestrateJob f row refuses answer job))"
    and "distinct (map ta_id (rt_accounts r))" "acc \<in> set (map ta_id (rt_accounts r))" "acc \<noteq> []"
  shows "oj_chat out = gm_chat msg
    \<and> fst (outbound_attempt online delivers out r) = (if online acc \<and> delivers acc then Some acc else None)"
proof -
  from handled_job[OF assms(1,2)] obtain b where j: "job = inbound_payload acc msg b None t2" by blast
  from process_replies[OF assms(3)] obtain deal ts where "AddReply out \<in> set (fst (add_replies refuses job deal 0 ts))" by blast
  from add_replies_sound[OF this] have o: "oj_chat out = gm_chat msg" "oj_account out = acc"
    by (auto simp: j inbound_payload_def)
  obtain a where a: "a \<in> set (rt_accounts r)" "ta_id a = acc" using assms(5) by auto
  have "rt_get acc r = Some a" using find_distinct_key[OF assms(4) a(1)] a(2) by (simp add: rt_get_def)
  moreover have "rt_accounts r \<noteq> []" using a(1) by auto
  ultimately show ?thesis using assms(6) o a(2) by (simp add: outbound_attempt_def rt_assign_def)
qed

subsection \<open>The director's channel\<close>

lemma sent_to: "p \<in> set (fst (sendToChat env accepts chat body thread)) \<Longrightarrow> cp_chat p = chat"
  by (auto simp: sendToChat_def Let_def split: if_splits)

lemma staff_posts: "p \<in> set (fst (postToStaffWorkChat env accepts ids body kind)) \<Longrightarrow> cp_chat p = staff_chat env"
  by (auto simp: postToStaffWorkChat_def Let_def sent_to split: if_splits)

lemma exec_posts: "p \<in> set (fst (postToExecutiveChannel env accepts body)) \<Longrightarrow> cp_chat p = js_or (env_get env ''TG_EXEC_CHANNEL_ID'') []"
  by (auto simp: postToExecutiveChannel_def Let_def sent_to split: if_splits)

text \<open>
  C30. The director is not disturbed by what the staff can settle. Where the staff room is a chat of its own, a job of the
  channel queue puts something into the director's channel only if it is a digest or an alert marked for the director,
  and an alert the gateway made from an answer of the orchestrator is marked only when its reason is one of those of
  the director; the staff room is asked first, and the director only when that succeeded.
\<close>

theorem director_undisturbed:
  assumes "staff_chat env \<noteq> js_or (env_get env ''TG_EXEC_CHANNEL_ID'') []"
  shows "(\<forall>p \<in> set (fst (routeStaffChannelPost env accepts ids kind body notify)). cp_chat p = js_or (env_get env ''TG_EXEC_CHANNEL_ID'') []
      \<longrightarrow> js_toLowerCase kind = js ''digest'' \<or> js_toLowerCase kind = js ''alert'' \<and> notify
          \<and> snd (postToStaffWorkChat env accepts ids body (js ''alert'')))
    \<and> (AddAlert a \<in> set (fst (processOrchestrateJob f row refuses answer job))
      \<longrightarrow> (\<exists>p \<in> set (fst (channel_alert env accepts ids a)). cp_chat p = js_or (env_get env ''TG_EXEC_CHANNEL_ID'') [])
      \<longrightarrow> (\<exists>r esc. answer = Some r \<and> or_escalation r = Some esc \<and> \<not> ge_duplicate esc \<and> escalationNeedsDirector (ge_reason esc)))"
proof (intro conjI ballI impI)
  let ?E = "js_or (env_get env ''TG_EXEC_CHANNEL_ID'') []"
  have route: "js_toLowerCase kind = js ''digest'' \<or> js_toLowerCase kind = js ''alert'' \<and> notify
      \<and> snd (postToStaffWorkChat env accepts ids body (js ''alert''))"
    if "p \<in> set (fst (routeStaffChannelPost env accepts ids kind body notify))" "cp_chat p = ?E" for p kind body notify
  proof -
    have n: "p \<notin> set (fst (postToStaffWorkChat env accepts ids body k))" for k
      using staff_posts[of p] assms that(2) by metis
    obtain ps ok where s: "postToStaffWorkChat env accepts ids body (js ''alert'') = (ps, ok)" by fastforce
    then have "p \<notin> set ps" using n[of "js ''alert''"] by simp
    moreover have "kind \<noteq> [] \<or> js_toLowerCase (js ''info'') \<noteq> js ''digest'' \<and> js_toLowerCase (js ''info'') \<noteq> js ''alert''"
      by (simp add: js_text_eval)
    ultimately show ?thesis using that(1) n s
      by (auto simp: routeStaffChannelPost_def Let_def js_or_def split: if_splits prod.splits)
  qed
  show "js_toLowerCase kind = js ''digest'' \<or> js_toLowerCase kind = js ''alert'' \<and> notify
      \<and> snd (postToStaffWorkChat env accepts ids body (js ''alert''))"
    if "p \<in> set (fst (routeStaffChannelPost env accepts ids kind body notify))" "cp_chat p = ?E" for p
    using route that .
  assume al: "AddAlert a \<in> set (fst (processOrchestrateJob f row refuses answer job))"
    and "\<exists>p \<in> set (fst (channel_alert env accepts ids a)). cp_chat p = ?E"
  then obtain p where p: "p \<in> set (fst (channel_alert env accepts ids a))" "cp_chat p = ?E" by blast
  have n: "aj_notify a" using route[OF p(1)[unfolded channel_alert_def] p(2)] by (simp add: js_text_eval)
  obtain r where r: "answer = Some r" "\<not> or_cached r"
    using al by (auto simp: processOrchestrateJob_def split: option.splits if_splits)
  have "AddAlert a \<notin> set (fst (add_replies refuses job deal i ts))" for deal i ts
    by (induction ts arbitrary: i) (auto simp: Let_def split: option.splits prod.splits; metis fst_conv)+
  then have no: "add_replies refuses job deal i ts = (es, ok) \<Longrightarrow> AddAlert a \<notin> set es" for deal i ts es ok by (metis fst_conv)
  have "AddAlert a \<in> set (fst (answer_alert f row refuses r))"
    using al r by (auto simp: processOrchestrateJob_def Let_def dest: no split: option.splits if_splits prod.splits)
  then show "\<exists>r esc. answer = Some r \<and> or_escalation r = Some esc \<and> \<not> ge_duplicate esc \<and> escalationNeedsDirector (ge_reason esc)"
    using n r by (auto simp: answer_alert_def Let_def split: option.splits if_splits)
qed

definition gw_demo_result :: "string \<Rightarrow> orch_result" where
  "gw_demo_result reason = \<lparr>or_cached = False, or_replies = Some [js ''ok''], or_fallback = None, or_deal = None, or_escalate = True,
     or_escalation = Some \<lparr>ge_reason = Some (js reason), ge_id = None, ge_duplicate = False, ge_summary = None, ge_needed = None\<rparr>\<rparr>"

definition gw_demo_msg :: "int \<Rightarrow> int \<Rightarrow> gw_msg" where
  "gw_demo_msg chat m = \<lparr>gm_chat = chat, gm_user = None, gm_message = Some m, gm_text = js ''hi'', gm_client = None, gm_media = None\<rparr>"

definition gw_demo_world :: gw_world where
  "gw_demo_world = \<lparr>gw_extract = \<lambda>_. None, gw_exists = \<lambda>_ _. False, gw_refuses = \<lambda>_. None\<rparr>"

definition gw_demo_state :: gw_state where
  "gw_demo_state = \<lparr>gs_router = new_router [demo_account ''a''], gs_buckets = []\<rparr>"

definition gw_demo_fmt :: copy_fmt where
  "gw_demo_fmt = \<lparr>cf_whole = \<lambda>_. [], cf_plain = \<lambda>_. [], cf_when = \<lambda>_. None, cf_digits = \<lambda>_. []\<rparr>"

lemma gw_demo_handled:
  "snd (handleInboundMessage [] gw_demo_world 0 (js ''a'') (gw_demo_msg 5 m) t t gw_demo_state)
    = Some (Queued (inbound_payload (js ''a'') (gw_demo_msg 5 m) (js ''hi'') None t))"
  by (auto simp: handleInboundMessage_def gw_demo_world_def gw_demo_msg_def gw_demo_state_def shouldIgnoreInbound_def isPrivateUserChat_def
      blockedChatIds_def env_get_def rateLimitOk_def env_num_def num_le_def Let_def composeInboundText_def isMessageAlreadyProcessed_def
      enqueueInbound_def js_text_eval)

lemma gw_demo_reply:
  "AddReply \<lparr>oj_chat = ij_chat job, oj_text = js ''ok'', oj_deal = None, oj_account = ij_account job,
      oj_id = jobKey (js ''out'') [Some (ij_key job), Some (show_nat 0), Some (js ''ok'')]\<rparr>
    \<in> set (fst (processOrchestrateJob gw_demo_fmt (\<lambda>_. None) (\<lambda>_. None) (Some (gw_demo_result reason)) job))"
  by (auto simp: processOrchestrateJob_def gw_demo_result_def Let_def js_def split: prod.splits option.splits)

text \<open>A message delivered again a minute later, and a reply sent.\<close>

theorem reply_ids_apart_witness:
  "\<exists>out out'. AddReply out \<in> set (fst (processOrchestrateJob gw_demo_fmt (\<lambda>_. None) (\<lambda>_. None) (Some (gw_demo_result ''x''))
        (inbound_payload (js ''a'') (gw_demo_msg 5 1) (js ''hi'') None 0)))
     \<and> AddReply out' \<in> set (fst (processOrchestrateJob gw_demo_fmt (\<lambda>_. None) (\<lambda>_. None) (Some (gw_demo_result ''y''))
        (inbound_payload (js ''a'') (gw_demo_msg 5 1) (js ''hi'') None 70000)))
     \<and> oj_id out = oj_id out' \<and> no_colon (take 24 (oj_text out)) = no_colon (take 24 (oj_text out'))"
proof -
  let ?j = "inbound_payload (js ''a'') (gw_demo_msg 5 1) (js ''hi'') None"
  let ?o = "\<lambda>t. \<lparr>oj_chat = ij_chat (?j t), oj_text = js ''ok'', oj_deal = None, oj_account = ij_account (?j t),
      oj_id = jobKey (js ''out'') [Some (ij_key (?j t)), Some (show_nat 0), Some (js ''ok'')]\<rparr>"
  have m: "gm_message (gw_demo_msg 5 1) = Some 1" by (simp add: gw_demo_msg_def)
  have "oj_id (?o 0) = oj_id (?o 70000)" by (simp add: inbound_payload_def m)
  note c = reply_ids_apart[OF gw_demo_handled _ gw_demo_handled _ m _ m _ gw_demo_reply gw_demo_reply this]
  show ?thesis by (intro exI[of _ "?o 0"] exI[of _ "?o 70000"] conjI gw_demo_reply) (use c in \<open>simp_all add: inbound_payload_def m\<close>)
qed

theorem reply_by_same_account_witness:
  "\<exists>out. AddReply out \<in> set (fst (processOrchestrateJob gw_demo_fmt (\<lambda>_. None) (\<lambda>_. None) (Some (gw_demo_result ''x''))
        (inbound_payload (js ''a'') (gw_demo_msg 5 1) (js ''hi'') None 0)))
     \<and> fst (outbound_attempt (\<lambda>_. True) (\<lambda>_. True) out (new_router [demo_account ''b'', demo_account ''a''])) = Some (js ''a'')"
proof -
  have acc: "distinct (map ta_id (rt_accounts (new_router [demo_account ''b'', demo_account ''a''])))"
    "js ''a'' \<in> set (map ta_id (rt_accounts (new_router [demo_account ''b'', demo_account ''a''])))" "js ''a'' \<noteq> []"
    by (simp_all add: new_router_def demo_account_def js_def)
  note c = reply_by_same_account[OF gw_demo_handled[where m = 1 and t = 0] insertI1 gw_demo_reply acc, where online = "\<lambda>_. True" and delivers = "\<lambda>_. True"]
  show ?thesis by (rule exI, rule conjI[OF gw_demo_reply]) (use c in \<open>simp only: if_True simp_thms\<close>)
qed

theorem director_undisturbed_witness:
  "\<not> (\<exists>p \<in> set (fst (routeStaffChannelPost [(js ''TG_EXEC_CHANNEL_ID'', js ''-1''), (js ''TG_STAFF_CHAT_ID'', js ''-2''), (js ''TG_BOT_TOKEN'', js ''t'')]
      (\<lambda>_. True) (\<lambda>_. None) (js ''rfq'') (js ''hi'') True)). cp_chat p = js ''-1'')"
proof -
  let ?env = "[(js ''TG_EXEC_CHANNEL_ID'', js ''-1''), (js ''TG_STAFF_CHAT_ID'', js ''-2''), (js ''TG_BOT_TOKEN'', js ''t'')]"
  have e: "js_or (env_get ?env ''TG_EXEC_CHANNEL_ID'') [] = js ''-1''" "staff_chat ?env = js ''-2''"
    by (simp_all add: env_get_def staff_chat_def js_def)
  then have "staff_chat ?env \<noteq> js_or (env_get ?env ''TG_EXEC_CHANNEL_ID'') []" by (simp add: js_def)
  from director_undisturbed[OF this] have "\<forall>p \<in> set (fst (routeStaffChannelPost ?env (\<lambda>_. True) (\<lambda>_. None) (js ''rfq'') (js ''hi'') True)).
      cp_chat p = js ''-1'' \<longrightarrow> js_toLowerCase (js ''rfq'') = js ''digest'' \<or> js_toLowerCase (js ''rfq'') = js ''alert'' \<and> True"
    unfolding e(1) by blast
  then show ?thesis by (auto simp: js_text_eval)
qed

subsection \<open>Connecting\<close>

lemma not_in_map: "\<forall>p \<in> set xs. f p \<noteq> y \<Longrightarrow> y \<notin> set (map f xs)"
  by auto

lemma direct_key: "proxy_key p = js ''direct'' \<longleftrightarrow> p = None"
  by (cases p; cases "the p") (simp_all add: proxy_key_def js_def)

lemma attempts_shape:
  "\<exists>as. connection_attempts url env = as @ [None] \<and> length as \<le> 2 \<and> distinct (map proxy_key as) \<and> None \<notin> set as
      \<and> (\<forall>m. loadMtProtoProxy url env = Some m \<longrightarrow> as \<noteq> [] \<and> hd as = Some (MtProxy m))"
proof -
  have mt: "proxy_key (Some (MtProxy m)) \<noteq> proxy_key (Some (SocksProxy h po u pa))" for m h po u pa by (simp add: proxy_key_def js_def)
  have none: "proxy_key None = js ''direct''" by (simp add: proxy_key_def)
  have socks: "socksFallbackProxy env = Some p \<Longrightarrow> \<not> is_mt p" for p
    by (auto simp: socksFallbackProxy_def Let_def split: if_splits option.splits)
  note k = direct_key
  have sp: "\<exists>h po u pa. p = SocksProxy h po u pa" if "\<not> is_mt p" for p using that by (cases p) auto
  define a1 where "a1 = (case loadMtProtoProxy url env of Some m \<Rightarrow> [Some (MtProxy m)] | None \<Rightarrow> [])"
  have a1: "a1 = (case gramJsProxy url env of Some p \<Rightarrow> if is_mt p then pushUnique (gramJsProxy url env) [] else [] | None \<Rightarrow> [])"
    by (cases "loadMtProtoProxy url env"; cases "loadAppProxy env") (simp_all add: a1_def gramJsProxy_def pushUnique_def)
  define a2 where "a2 = (if socksFallbackProxy env \<noteq> None then pushUnique (socksFallbackProxy env) a1
      else case gramJsProxy url env of Some p \<Rightarrow> if is_mt p then a1 else pushUnique (gramJsProxy url env) a1 | None \<Rightarrow> a1)"
  have all: "connection_attempts url env = pushUnique None a2"
    unfolding connection_attempts_def Let_def a2_def a1 by (rule refl)
  have push: "\<exists>x. pushUnique (Some p) a1 = a1 @ x \<and> (x = [] \<or> (\<exists>h po u pa. x = [Some (SocksProxy h po u pa)]))" if "\<not> is_mt p" for p
    using sp[OF that] by (auto simp: pushUnique_def)
  have "\<exists>x. a2 = a1 @ x \<and> (x = [] \<or> (\<exists>h po u pa. x = [Some (SocksProxy h po u pa)]))"
  proof (cases "socksFallbackProxy env")
    case None
    show ?thesis
    proof (cases "gramJsProxy url env")
      case (Some p)
      then show ?thesis using push[of p] None by (cases "is_mt p") (simp_all add: a2_def)
    qed (simp add: a2_def None)
  next
    case (Some p)
    then show ?thesis using push[OF socks[OF Some]] by (simp add: a2_def)
  qed
  then obtain x where x: "a2 = a1 @ x" "x = [] \<or> (\<exists>h po u pa. x = [Some (SocksProxy h po u pa)])" by blast
  have "None \<notin> set a2" using x(2) by (auto simp: x(1) a1_def split: option.splits)
  moreover from this have "connection_attempts url env = a2 @ [None]"
  proof -
    have "\<forall>p \<in> set a2. proxy_key p \<noteq> js ''direct''" using k \<open>None \<notin> set a2\<close> by metis
    then have "js ''direct'' \<notin> set (map proxy_key a2)" by (rule not_in_map)
    then show ?thesis unfolding all pushUnique_def none by (rule if_not_P)
  qed
  moreover have "length a2 \<le> 2" using x(2) by (auto simp: x(1) a1_def split: option.splits)
  moreover have "distinct (map proxy_key a2)" using x(2) mt by (auto simp: x(1) a1_def split: option.splits)
  moreover have "\<forall>m. loadMtProtoProxy url env = Some m \<longrightarrow> a2 \<noteq> [] \<and> hd a2 = Some (MtProxy m)" by (simp add: x(1) a1_def)
  ultimately show ?thesis by blast
qed

text \<open>
  Every start of a user account tries at most three ways of reaching Telegram, no two of them the same server, the
  MTProxy first when one is configured and the direct connection last; the client that is kept is the first that
  connected, and a start fails only after all of them did.
\<close>

theorem connection_order:
  "length (connection_attempts url env) \<le> 3 \<and> distinct (map proxy_key (connection_attempts url env))
   \<and> last (connection_attempts url env) = None
   \<and> (\<forall>m. loadMtProtoProxy url env = Some m \<longrightarrow> hd (connection_attempts url env) = Some (MtProxy m))
   \<and> (case startUserClient url env net of
        None \<Rightarrow> \<forall>p \<in> set (connection_attempts url env). \<not> connectWithProxy net p
      | Some p \<Rightarrow> \<exists>before after. connection_attempts url env = before @ p # after \<and> connectWithProxy net p
          \<and> (\<forall>q \<in> set before. \<not> connectWithProxy net q))"
proof -
  obtain as where as: "connection_attempts url env = as @ [None]" "length as \<le> 2" "distinct (map proxy_key as)" "None \<notin> set as"
    "\<forall>m. loadMtProtoProxy url env = Some m \<longrightarrow> as \<noteq> [] \<and> hd as = Some (MtProxy m)"
    using attempts_shape by blast
  have "proxy_key None \<notin> set (map proxy_key as)" by (rule not_in_map) (metis as(4) direct_key)
  moreover have "case startUserClient url env net of
        None \<Rightarrow> \<forall>p \<in> set (connection_attempts url env). \<not> connectWithProxy net p
      | Some p \<Rightarrow> \<exists>before after. connection_attempts url env = before @ p # after \<and> connectWithProxy net p
          \<and> (\<forall>q \<in> set before. \<not> connectWithProxy net q)"
  proof (cases "startUserClient url env net")
    case None
    then have "\<forall>p \<in> set (connection_attempts url env). \<not> connectWithProxy net p" by (auto simp: startUserClient_def find_None_iff)
    then show ?thesis unfolding None by simp
  next
    case (Some p)
    then obtain i where i: "i < length (connection_attempts url env)" "connectWithProxy net p" "p = connection_attempts url env ! i"
      "\<forall>j < i. \<not> connectWithProxy net (connection_attempts url env ! j)" by (auto simp: startUserClient_def find_Some_iff)
    then have "connection_attempts url env = take i (connection_attempts url env) @ p # drop (Suc i) (connection_attempts url env)"
      by (simp add: id_take_nth_drop)
    moreover have "\<forall>q \<in> set (take i (connection_attempts url env)). \<not> connectWithProxy net q"
      using i(4) by (auto simp: in_set_conv_nth)
    ultimately show ?thesis using Some i(2) by auto
  qed
  ultimately show ?thesis using as by auto
qed

theorem connection_order_witness:
  "length (connection_attempts (\<lambda>_. None) [(js ''PROXY_HOST'', js ''h''), (js ''PROXY_PORT'', js ''1'')]) \<le> 3
   \<and> last (connection_attempts (\<lambda>_. None) [(js ''PROXY_HOST'', js ''h''), (js ''PROXY_PORT'', js ''1'')]) = None"
  using connection_order[of "\<lambda>_. None" "[(js ''PROXY_HOST'', js ''h''), (js ''PROXY_PORT'', js ''1'')]" "\<lambda>_ _. \<lparr>sa_took = 0, sa_good = True\<rparr>"]
  by simp

subsection \<open>What goes wrong\<close>

text \<open>A message of a busy minute is dropped after five seconds: nothing is queued and nothing remembers it.\<close>

lemma busy_minute_drops_message:
  assumes "env_num env ''TG_MAX_MSGS_PER_MINUTE'' 20 = Num l" "sorted bs"
    and "l \<le> of_nat (length (filter (\<lambda>b. t1 - b \<le> 60000) bs))" "l \<le> of_nat (length (filter (\<lambda>b. t2 - b \<le> 60000) bs))" "t1 \<le> t2"
  shows "snd (handleInboundMessage env w skip acc msg t1 t2 \<lparr>gs_router = r, gs_buckets = bs\<rparr>) = None"
proof -
  have 1: "rateLimitOk env t1 bs = (False, filter (\<lambda>b. t1 - b \<le> 60000) bs)"
    using assms(1-3) by (simp add: rateLimitOk_def dropWhile_sorted_filter num_le_def)
  have "sorted (filter (\<lambda>b. t1 - b \<le> 60000) bs)" using assms(2) by (simp add: sorted_wrt_filter)
  moreover have "filter (\<lambda>b. t2 - b \<le> 60000) (filter (\<lambda>b. t1 - b \<le> 60000) bs) = filter (\<lambda>b. t2 - b \<le> 60000) bs"
    using assms(5) by (auto simp: filter_filter intro!: filter_cong)
  ultimately have "fst (rateLimitOk env t2 (filter (\<lambda>b. t1 - b \<le> 60000) bs)) = False"
    using assms(1,4) by (simp add: rateLimitOk_def dropWhile_sorted_filter num_le_def)
  then obtain b where "rateLimitOk env t2 (filter (\<lambda>b. t1 - b \<le> 60000) bs) = (False, b)" by (metis prod.collapse)
  then show ?thesis using 1 by (simp add: handleInboundMessage_def)
qed

text \<open>
  The queue refuses the second of two replies: the job fails and is run again, the orchestrator now answers from its memory
  of the key, and the second reply is never queued.
\<close>

lemma second_reply_lost:
  assumes "refuses (jobKey (js ''out'') [Some (ij_key job), Some (show_nat 0), Some (take 24 a)]) = None"
    and "refuses (jobKey (js ''out'') [Some (ij_key job), Some (show_nat 1), Some (take 24 b)]) = Some err" "\<not> isJobExistsError err"
    and "ij_media job = None" "\<not> or_cached r" "or_replies r = Some [a, b]" "or_cached again"
  shows "\<exists>first. processOrchestrateJob f row refuses (Some r) job = ([AddReply first], False) \<and> oj_text first = a
     \<and> processOrchestrateJob f row (\<lambda>_. None) (Some again) job = ([], True)"
  using assms by (simp add: processOrchestrateJob_def Let_def)

text \<open>An error of the orchestrator that has a body ends the job without a reply and without another attempt.\<close>

lemma error_body_ends_job:
  assumes "or_replies r = None" "or_fallback r = None" "or_escalation r = None" "ij_media job = None"
  shows "processOrchestrateJob f row refuses (Some r) job = ([], True)"
  using assms by (simp add: processOrchestrateJob_def answer_alert_def Let_def)

text \<open>When the note to the director fails the job is run again, and the staff room gets the alert a second time.\<close>

lemma alert_repeated:
  assumes "postToStaffWorkChat env accepts ids body (js ''alert'') = (ps, True)"
    and "snd (postToExecutiveChannel env accepts (director_note @ body)) = False"
  shows "snd (routeStaffChannelPost env accepts ids (js ''alert'') body True) = False
    \<and> (\<exists>qs. fst (routeStaffChannelPost env accepts ids (js ''alert'') body True) = ps @ qs)"
  using assms by (auto simp: routeStaffChannelPost_def Let_def js_text_eval js_or_def split: prod.splits)

text \<open>Without a staff room everything of the day goes to the director.\<close>

lemma director_gets_everything:
  assumes "env_get env ''TG_STAFF_CHAT_ID'' = None" "env_get env ''TG_ESCALATION_CHAT_ID'' = None"
  shows "staff_chat env = js_or (env_get env ''TG_EXEC_CHANNEL_ID'') []"
  using assms by (simp add: staff_chat_def js_or_def split: option.splits)

text \<open>Each failed catch-up leaves a client that receives messages; the rounds wait longer and longer, up to a minute.\<close>

lemma failed_rounds:
  "fold account_round (replicate n CatchUpFailed) new_loop
    = \<lparr>al_attempt = n, al_sender = False, al_clients = n, al_waits = map (\<lambda>k. min 60000 (5000 * (k + 1))) [0..<n], al_serving = False\<rparr>"
proof (induction n)
  case (Suc n)
  have "replicate (Suc n) CatchUpFailed = replicate n CatchUpFailed @ [CatchUpFailed]" by (simp add: replicate_append_same)
  then show ?case using Suc by (simp add: account_round_def Let_def)
qed (simp add: new_loop_def)

lemma catch_up_failures_stack_clients:
  "al_clients (account_round Serving (fold account_round (replicate n CatchUpFailed) new_loop)) = n + 1"
  unfolding failed_rounds by (simp add: account_round_def Let_def)

text \<open>The second way of reading the settings of the SOCKS proxy never finds one that the first did not.\<close>

lemma second_reading_finds_nothing:
  assumes "envTrim env ''PROXY_ENABLED'' = js_or (env_get env ''PROXY_ENABLED'') []"
    and "\<forall>n \<in> {''PROXY_HOST'', ''PX6_HOST'', ''PROXY_PORT'', ''PX6_PORT''}. envTrim env n = js_or (env_get env n) []"
  shows "loadAppProxy env = None \<Longrightarrow> socksFallbackProxy env = None"
proof -
  have r: "raw_or env [''PROXY_HOST'', ''PX6_HOST''] = MtProxy.first_text [envTrim env ''PROXY_HOST'', envTrim env ''PX6_HOST'']"
    "raw_or env [''PROXY_PORT'', ''PX6_PORT''] = MtProxy.first_text [envTrim env ''PROXY_PORT'', envTrim env ''PX6_PORT'']"
    using assms(2) by (simp_all add: raw_or_def)
  have trim: "js_trim (MtProxy.first_text [envTrim env a, envTrim env b]) = MtProxy.first_text [envTrim env a, envTrim env b]" for a b
    by (auto simp: MtProxy.first_text_def envTrim_def js_trim_def[of "[]"])
  have z: "MtProxy.first_text [a, b, js ''0''] = js_or (Some (MtProxy.first_text [a, b])) (js ''0'')" for a b
    by (simp add: MtProxy.first_text_def js_or_def js_def)
  have low: "js_toLowerCase s = [] \<longleftrightarrow> s = []" for s by (simp add: js_toLowerCase_def)
  show "loadAppProxy env = None \<Longrightarrow> socksFallbackProxy env = None"
    using assms(1) low unfolding loadAppProxy_def socksFallbackProxy_def r trim z Let_def
    by (auto simp: proxy_envBool_def js_or_def port_ok_def port_truthy_def split: option.splits if_splits numval.splits)
qed

end
