(* ===== verification/License.thy ===== *)
theory License
  imports MtProxy StaffCopy
begin

text \<open>
  The licence check every service makes when it starts (\<open>packages/shared/src/license.ts\<close>): the stamp of the first
  installation, signed keys and the trial. The keyed digest, \<open>JSON.parse\<close> and the calendar are parameters; times are
  milliseconds.
\<close>

subsection \<open>Text as UTF-8\<close>

fun utf8_encode :: "jstr \<Rightarrow> nat list" where
  "utf8_encode [] = []"
| "utf8_encode (c # s) =
     (if c < 55296 \<or> 57343 < c then utf8_bytes c @ utf8_encode s
      else if c < 56320
      then (case s of [] \<Rightarrow> [239, 191, 189]
            | l # r \<Rightarrow> if 56320 \<le> l \<and> l \<le> 57343 then utf8_bytes ((c - 55296) * 1024 + (l - 56320) + 65536) @ utf8_encode r
                else [239, 191, 189] @ utf8_encode s)
      else [239, 191, 189] @ utf8_encode s)"

fun well_paired :: "jstr \<Rightarrow> bool" where
  "well_paired [] = True"
| "well_paired (c # s) =
     (if c < 55296 \<or> 57343 < c then c < 65536 \<and> well_paired s
      else c < 56320 \<and> (case s of [] \<Rightarrow> False | l # r \<Rightarrow> 56320 \<le> l \<and> l \<le> 57343 \<and> well_paired r))"

definition text_bytes :: "jstr \<Rightarrow> bytes" where
  "text_bytes s = map word_of_nat (utf8_encode s)"

text \<open>Sequences of two, three and four bytes by their digits of base 64.\<close>

lemma utf8_text_2:
  fixes a b :: nat
  assumes "2 \<le> a" "a < 32" "b < 64"
  shows "utf8_text 0 0 128 191 ((192 + a) # (128 + b) # bs) = utf16_units (a * 64 + b) @ utf8_text 0 0 128 191 bs"
  using assms by (simp add: Let_def)

lemma utf8_text_3:
  fixes a b c :: nat
  assumes "a < 16" "b < 64" "c < 64" "a = 0 \<Longrightarrow> 32 \<le> b" "a = 13 \<Longrightarrow> b < 32"
  shows "utf8_text 0 0 128 191 ((224 + a) # (128 + b) # (128 + c) # bs) = utf16_units (a * 4096 + b * 64 + c) @ utf8_text 0 0 128 191 bs"
  using assms by (cases "a = 0"; cases "a = 13") (simp_all add: Let_def algebra_simps)

lemma utf8_text_4:
  fixes a b c d :: nat
  assumes "a < 5" "b < 64" "c < 64" "d < 64" "a = 0 \<Longrightarrow> 16 \<le> b" "a = 4 \<Longrightarrow> b < 16"
  shows "utf8_text 0 0 128 191 ((240 + a) # (128 + b) # (128 + c) # (128 + d) # bs)
    = utf16_units (a * 262144 + b * 4096 + c * 64 + d) @ utf8_text 0 0 128 191 bs"
  using assms by (cases "a = 0"; cases "a = 4") (simp_all add: Let_def algebra_simps)

lemma utf8_text_bytes:
  assumes "cp < 1114112" "\<not> (55296 \<le> cp \<and> cp < 57344)"
  shows "utf8_text 0 0 128 191 (utf8_bytes cp @ bs) = utf16_units cp @ utf8_text 0 0 128 191 bs"
proof -
  have m: "cp mod 64 < 64" "cp div 64 mod 64 < 64" "cp div 4096 mod 64 < 64" by simp_all
  consider "cp < 128" | "128 \<le> cp" "cp < 2048" | "2048 \<le> cp" "cp < 65536" | "65536 \<le> cp" by linarith
  then show ?thesis
  proof cases
    case 1
    then show ?thesis by (simp add: utf8_bytes_def utf16_units_def Let_def)
  next
    case 2
    have "64 * 2 \<le> cp" "cp < 64 * 32" using 2 by simp_all
    then have d: "2 \<le> cp div 64" "cp div 64 < 32" by linarith+
    have u: "utf8_bytes cp = [192 + cp div 64, 128 + cp mod 64]" using 2 by (simp add: utf8_bytes_def)
    show ?thesis unfolding u using utf8_text_2[OF d m(1), of bs] unfolding utf8_digits(1) by simp
  next
    case 3
    then have d: "cp div 4096 < 16" by (simp add: less_mult_imp_div_less)
    have u: "utf8_bytes cp = [224 + cp div 4096, 128 + cp div 64 mod 64, 128 + cp mod 64]" using 3 by (simp add: utf8_bytes_def)
    have e: "cp div 4096 = cp div 64 div 64" by (simp flip: div_mult2_eq)
    have lo: "cp div 4096 = 0 \<Longrightarrow> 32 \<le> cp div 64 mod 64" using 3(1) unfolding e by (simp add: div_eq_0_iff)
    have hi: "cp div 4096 = 13 \<Longrightarrow> cp div 64 mod 64 < 32" using assms(2) 3 utf8_digits(2)[of cp] m by linarith
    show ?thesis unfolding u using utf8_text_3[OF d m(2,1) lo hi, of bs] unfolding utf8_digits(2) by simp
  next
    case 4
    then have d: "cp div 262144 < 5" using assms by (simp add: less_mult_imp_div_less)
    have u: "utf8_bytes cp = [240 + cp div 262144, 128 + cp div 4096 mod 64, 128 + cp div 64 mod 64, 128 + cp mod 64]"
      using 4 by (simp add: utf8_bytes_def)
    have lo: "cp div 262144 = 0 \<Longrightarrow> 16 \<le> cp div 4096 mod 64" using 4 utf8_digits(3)[of cp] m by linarith
    have hi: "cp div 262144 = 4 \<Longrightarrow> cp div 4096 mod 64 < 16" using assms(1) utf8_digits(3)[of cp] m by linarith
    show ?thesis unfolding u using utf8_text_4[OF d m(3,2,1) lo hi, of bs] unfolding utf8_digits(3) by simp
  qed
qed

lemma utf8_encode_text: "well_paired s \<Longrightarrow> utf8_text 0 0 128 191 (utf8_encode s) = s"
proof (induction s rule: well_paired.induct)
  case (2 c s)
  show ?case
  proof (cases "c < 55296 \<or> 57343 < c")
    case True
    then have "c < 65536" "utf8_text 0 0 128 191 (utf8_encode s) = s" using 2 by auto
    then show ?thesis using True utf8_text_bytes[of c "utf8_encode s"] by (auto simp: utf16_units_def)
  next
    case False
    then obtain l r where s: "s = l # r" "c < 56320" "56320 \<le> l" "l \<le> 57343" "well_paired r"
      using 2(3) by (auto split: list.splits)
    let ?cp = "(c - 55296) * 1024 + (l - 56320) + 65536"
    have ih: "utf8_text 0 0 128 191 (utf8_encode r) = r" using 2(2) False s by simp
    have cp: "?cp < 1114112" "\<not> (55296 \<le> ?cp \<and> ?cp < 57344)" "?cp - 65536 = (c - 55296) * 1024 + (l - 56320)"
      using s False by auto
    obtain x y where xy: "c = 55296 + x" "l = 56320 + y" "x < 1024" "y < 1024"
      by (rule that[of "c - 55296" "l - 56320"]) (use s(2-4) False in linarith)+
    have "utf16_units ?cp = [c, l]" unfolding utf16_units_def cp(3) using xy by simp
    then show ?thesis using utf8_text_bytes[OF cp(1,2), of "utf8_encode r"] ih s(2-4) False unfolding s(1) by simp
  qed
qed simp

lemma utf8_encode_range: "well_paired s \<Longrightarrow> b \<in> set (utf8_encode s) \<Longrightarrow> b < 256"
proof (induction s rule: well_paired.induct)
  case (2 c s)
  show ?case
  proof (cases "c < 55296 \<or> 57343 < c")
    case True
    then show ?thesis using 2 utf8_bytes_range[of c] by (auto simp: list_all_iff)
  next
    case False
    then obtain l r where s: "s = l # r" "c < 56320" "56320 \<le> l" "l \<le> 57343" "well_paired r"
      using 2(3) by (auto split: list.splits)
    have "(c - 55296) * 1024 + (l - 56320) + 65536 < 1114112" using s False by auto
    from utf8_bytes_range[OF this] show ?thesis using 2(2,4) False s by (auto simp: list_all_iff)
  qed
qed simp

lemma text_bytes_read: "well_paired s \<Longrightarrow> utf8_toString (text_bytes s) = s"
proof -
  assume p: "well_paired s"
  have "map (\<lambda>b. unat (word_of_nat b :: byte)) (utf8_encode s) = utf8_encode s"
    by (rule map_idI) (use utf8_encode_range[OF p] in \<open>simp add: unat_of_nat\<close>)
  then show ?thesis using utf8_encode_text[OF p] by (simp add: utf8_toString_def text_bytes_def comp_def)
qed

subsection \<open>Keys\<close>

text \<open>
  The secret of the issuer is a constant of the module, so it is read when the module is loaded: \<open>boot\<close> is the environment of
  that moment. The services import the module before they call \<open>loadRootEnv\<close>, so \<open>boot\<close> does not hold what the file \<open>.env\<close> sets;
  \<open>env\<close>, below, is the environment when the check runs.
\<close>

definition issuer_secret :: "penv \<Rightarrow> jstr" where
  "issuer_secret boot = js_or (env_get boot ''ALO_LICENSE_ISSUER_SECRET'') (js ''alo-psv-2026-proprietary-issuer-v1-7f3c9e2a1b8d4f06'')"

text \<open>\<open>hmac\<close> is HMAC-SHA256 with a secret.\<close>

definition signPayload :: "(jstr \<Rightarrow> jstr \<Rightarrow> bytes) \<Rightarrow> penv \<Rightarrow> jstr \<Rightarrow> jstr" where
  "signPayload hmac boot payload = to_base64url (hmac (issuer_secret boot) payload)"

record key_payload =
  kp_sub :: scalar
  kp_exp :: scalar

text \<open>What a check of a key gives; \<open>VerifyThrows\<close> is an exception no handler in the function catches.\<close>

datatype verdict = Refused jstr scalar "rat option" | Accepted scalar "rat option" | VerifyThrows

definition Number_of :: "scalar \<Rightarrow> numval" where
  "Number_of v = (case v of SUndef \<Rightarrow> NaN | SNull \<Rightarrow> Num 0 | SStr s \<Rightarrow> js_Number s | SNum n \<Rightarrow> Num n | SBool b \<Rightarrow> Num (if b then 1 else 0))"

text \<open>The last moment a date can hold; \<open>toISOString\<close> throws beyond it.\<close>

definition date_limit :: rat where "date_limit = 8640000000000000"

definition check_expiry :: "key_payload \<Rightarrow> rat \<Rightarrow> verdict" where
  "check_expiry p now =
     (if kp_exp p = SUndef \<or> kp_exp p = SNull then Accepted (kp_sub p) None
      else case Number_of (kp_exp p) of
        Num e \<Rightarrow> if 0 < e then (let expMs = fl (e * 1000)
             in if date_limit < expMs then VerifyThrows
                else if expMs < now then Refused (js ''key_expired'') (kp_sub p) (Some expMs) else Accepted (kp_sub p) (Some expMs))
           else Accepted (kp_sub p) None
      | PosInf \<Rightarrow> VerifyThrows
      | _ \<Rightarrow> Accepted (kp_sub p) None)"

text \<open>
  \<open>parse\<close> is \<open>JSON.parse\<close>: \<open>None\<close> when it throws, \<open>Some None\<close> for null. Two byte strings are compared; the second is ASCII,
  so they are equal just when the texts are.
\<close>

definition verifyLicenseKey :: "(jstr \<Rightarrow> jstr \<Rightarrow> bytes) \<Rightarrow> (jstr \<Rightarrow> key_payload option option) \<Rightarrow> penv \<Rightarrow> jstr \<Rightarrow> rat \<Rightarrow> verdict" where
  "verifyLicenseKey hmac parse boot key now =
     (let raw = js_trim key
      in if raw = [] then Refused (js ''empty_key'') SUndef None
         else case js_split1 46 raw of
           [tag, payload, sig] \<Rightarrow>
             if tag \<noteq> js ''ALO1'' then Refused (js ''invalid_format'') SUndef None
             else if sig \<noteq> signPayload hmac boot payload then Refused (js ''bad_signature'') SUndef None
             else (case parse (utf8_toString (from_base64 payload)) of
                 None \<Rightarrow> Refused (js ''bad_payload'') SUndef None
               | Some None \<Rightarrow> VerifyThrows
               | Some (Some p) \<Rightarrow> check_expiry p now)
         | _ \<Rightarrow> Refused (js ''invalid_format'') SUndef None)"

text \<open>\<open>days\<close>: not given, null, or a number.\<close>

definition key_expiry :: "rat option option \<Rightarrow> bool \<Rightarrow> int \<Rightarrow> int option" where
  "key_expiry days perpetual iat =
     (if perpetual then None
      else case days of Some (Some d) \<Rightarrow> Some (iat + \<lfloor>fl (d * 86400)\<rfloor>) | Some None \<Rightarrow> None | None \<Rightarrow> Some (iat + 365 * 86400))"

text \<open>\<open>JSON.stringify\<close> of a string and of the payload.\<close>

definition json_unit :: "nat \<Rightarrow> jstr" where
  "json_unit c =
     (if c = 34 then [92, 34] else if c = 92 then [92, 92] else if c = 8 then [92, 98] else if c = 12 then [92, 102]
      else if c = 10 then [92, 110] else if c = 13 then [92, 114] else if c = 9 then [92, 116]
      else if c < 32 then [92, 117, 48, 48, 48 + c div 16, hex_lower (c mod 16)] else [c])"

definition json_string :: "jstr \<Rightarrow> jstr" where
  "json_string s = 34 # concat (map json_unit s) @ [34]"

definition payload_json :: "jstr \<Rightarrow> int option \<Rightarrow> int \<Rightarrow> jstr" where
  "payload_json subject expiry iat =
     js ''{'' @ json_string (js ''sub'') @ [58] @ json_string subject @ [44] @ json_string (js ''exp'') @ [58]
     @ (case expiry of None \<Rightarrow> js ''null'' | Some e \<Rightarrow> show_int e) @ [44] @ json_string (js ''iat'') @ [58] @ show_int iat @ js ''}''"

definition mintLicenseKey :: "(jstr \<Rightarrow> jstr \<Rightarrow> bytes) \<Rightarrow> penv \<Rightarrow> jstr option \<Rightarrow> rat option option \<Rightarrow> bool \<Rightarrow> int \<Rightarrow> jstr" where
  "mintLicenseKey hmac boot subject days perpetual iat =
     (let payload = to_base64url (text_bytes (payload_json (js_or subject (js ''licensee'')) (key_expiry days perpetual iat) iat))
      in js ''ALO1.'' @ payload @ [46] @ signPayload hmac boot payload)"

subsection \<open>The data directory\<close>

fun license_root :: "nat \<Rightarrow> (fpath \<Rightarrow> bool) \<Rightarrow> fpath \<Rightarrow> fpath option" where
  "license_root 0 exists dir = None"
| "license_root (Suc n) exists dir =
     (if exists (dir @ [js ''pnpm-workspace.yaml'']) \<or> exists (dir @ [js ''package.json'']) \<and> exists (dir @ [js ''apps'']) then Some dir
      else if butlast dir = dir then None else license_root n exists (butlast dir))"

definition licenseRepoRoot :: "penv \<Rightarrow> (fpath \<Rightarrow> bool) \<Rightarrow> fpath \<Rightarrow> fpath" where
  "licenseRepoRoot env exists cwd =
     (let envRoot = js_or (env_get env ''ALO_ROOT'') (js_or (env_get env ''LICENSE_DATA_DIR'') [])
      in if envRoot \<noteq> [] \<and> exists (resolve cwd envRoot) then resolve cwd envRoot
         else case license_root 8 exists cwd of Some d \<Rightarrow> d | None \<Rightarrow> cwd)"

definition dataDir :: "penv \<Rightarrow> (fpath \<Rightarrow> bool) \<Rightarrow> fpath \<Rightarrow> fpath" where
  "dataDir env exists cwd = licenseRepoRoot env exists cwd @ [js ''data'']"

text \<open>The two files of the directory, when they exist.\<close>

record license_files =
  lf_install :: "jstr option"
  lf_key :: "jstr option"

text \<open>
  The calendar: a date as text and read from it (\<open>None\<close> for an invalid date), and the date twelve months later.
  \<open>cal_stamp\<close> is the text written into the stamp and \<open>cal_installed\<close> what \<open>JSON.parse\<close> finds as \<open>installedAt\<close>, when it is a
  text that is not empty.
\<close>

record calendar =
  cal_iso :: "rat \<Rightarrow> jstr"
  cal_read :: "jstr \<Rightarrow> rat option"
  cal_year_later :: "rat \<Rightarrow> rat"
  cal_stamp :: "jstr \<Rightarrow> jstr"
  cal_installed :: "jstr \<Rightarrow> jstr option"

definition ensureInstallStamp :: "calendar \<Rightarrow> rat \<Rightarrow> license_files \<Rightarrow> jstr \<times> bool \<times> license_files" where
  "ensureInstallStamp cal now fs =
     (case Option.bind (lf_install fs) (cal_installed cal) of
        Some t \<Rightarrow> (t, False, fs)
      | None \<Rightarrow> (cal_iso cal now, True, fs\<lparr>lf_install := Some (cal_stamp cal (cal_iso cal now))\<rparr>))"

definition trialEndsAt :: "calendar \<Rightarrow> jstr \<Rightarrow> rat option" where
  "trialEndsAt cal installedAt = map_option (cal_year_later cal) (cal_read cal installedAt)"

definition readStoredLicenseKey :: "penv \<Rightarrow> license_files \<Rightarrow> jstr" where
  "readStoredLicenseKey env fs =
     (let fromEnv = js_trim (js_or (env_get env ''LICENSE_KEY'') [])
      in if fromEnv \<noteq> [] then fromEnv else case lf_key fs of None \<Rightarrow> [] | Some t \<Rightarrow> js_trim t)"

definition saveLicenseKey :: "jstr \<Rightarrow> license_files \<Rightarrow> license_files" where
  "saveLicenseKey key fs = fs\<lparr>lf_key := Some (js_trim key @ [10])\<rparr>"

datatype license_status = Trial jstr rat int | Licensed scalar "rat option" | Denied bool jstr rat | CheckThrows

text \<open>\<open>Denied\<close> holds whether a key was there. An invalid date is past for the comparison and throws when it is printed.\<close>

definition trial_status :: "jstr \<Rightarrow> bool \<Rightarrow> rat option \<Rightarrow> rat \<Rightarrow> license_status" where
  "trial_status installedAt keyed ends now =
     (case ends of None \<Rightarrow> CheckThrows
      | Some e \<Rightarrow> if now \<le> e then Trial installedAt e (max 0 \<lceil>(e - now) / 86400000\<rceil>) else Denied keyed installedAt e)"

definition checkLicense :: "(jstr \<Rightarrow> jstr \<Rightarrow> bytes) \<Rightarrow> (jstr \<Rightarrow> key_payload option option) \<Rightarrow> calendar \<Rightarrow> penv \<Rightarrow> penv \<Rightarrow> rat
    \<Rightarrow> license_files \<Rightarrow> license_status \<times> license_files" where
  "checkLicense hmac parse cal boot env now fs =
     (let (installedAt, _, fs') = ensureInstallStamp cal now fs;
          ends = trialEndsAt cal installedAt;
          key = readStoredLicenseKey env fs'
      in if key = [] then (trial_status installedAt False ends now, fs')
         else case verifyLicenseKey hmac parse boot key now of
           Accepted subj expiry \<Rightarrow> (Licensed subj expiry, fs')
         | VerifyThrows \<Rightarrow> (CheckThrows, fs')
         | Refused _ _ _ \<Rightarrow> (trial_status installedAt True ends now, fs'))"

fun status_ok :: "license_status \<Rightarrow> bool" where
  "status_ok (Trial _ _ _) = True"
| "status_ok (Licensed _ _) = True"
| "status_ok (Denied _ _ _) = False"
| "status_ok CheckThrows = False"

text \<open>How the start of a service ends: it runs with a status, exits with code 78, or throws.\<close>

datatype start_end = Starts license_status | Exit78 | StartThrows

text \<open>\<open>entered\<close> is the line typed at the prompt; \<open>t1\<close>, \<open>t2\<close> and \<open>t3\<close> are the times of the three looks at the clock.\<close>

definition enforceLicense :: "(jstr \<Rightarrow> jstr \<Rightarrow> bytes) \<Rightarrow> (jstr \<Rightarrow> key_payload option option) \<Rightarrow> calendar \<Rightarrow> penv \<Rightarrow> penv \<Rightarrow> bool \<Rightarrow> jstr
    \<Rightarrow> rat \<Rightarrow> rat \<Rightarrow> rat \<Rightarrow> license_files \<Rightarrow> start_end \<times> penv \<times> license_files" where
  "enforceLicense hmac parse cal boot env allowPrompt entered t1 t2 t3 fs =
     (case checkLicense hmac parse cal boot env t1 fs of
        (CheckThrows, fs1) \<Rightarrow> (StartThrows, env, fs1)
      | (st, fs1) \<Rightarrow>
          if status_ok st then (Starts st, env, fs1)
          else if allowPrompt \<and> js_trim entered \<noteq> []
          then (case verifyLicenseKey hmac parse boot (js_trim entered) t2 of
              VerifyThrows \<Rightarrow> (StartThrows, env, fs1)
            | Refused _ _ _ \<Rightarrow> (Exit78, env, fs1)
            | Accepted _ _ \<Rightarrow>
                (let fs2 = saveLicenseKey (js_trim entered) fs1; env2 = env_set (js ''LICENSE_KEY'') (js_trim entered) env
                 in case checkLicense hmac parse cal boot env2 t3 fs2 of
                      (CheckThrows, fs3) \<Rightarrow> (StartThrows, env2, fs3)
                    | (st2, fs3) \<Rightarrow> (Starts st2, env2, fs3)))
          else (Exit78, env, fs1))"

subsection \<open>Keys are accepted\<close>

lemma well_paired_append: "well_paired a \<Longrightarrow> well_paired (a @ b) = well_paired b"
proof (induction a rule: well_paired.induct)
  case (2 c s)
  then show ?case by (cases s) auto
qed simp

lemma well_paired_ascii: "list_all (\<lambda>c. c < 128) a \<Longrightarrow> well_paired a"
  by (induction a) auto

lemma well_paired_json: "well_paired s \<Longrightarrow> well_paired (concat (map json_unit s))"
proof (induction s rule: well_paired.induct)
  case (2 c s)
  show ?case
  proof (cases "c < 55296 \<or> 57343 < c")
    case True
    then have "well_paired (json_unit c)" using 2(3) by (auto simp: hex_lower_def json_unit_def)
    moreover have "well_paired (concat (map json_unit s))" using 2 True by auto
    ultimately show ?thesis by (simp add: well_paired_append)
  next
    case False
    then obtain l r where s: "s = l # r" "56320 \<le> l" "l \<le> 57343" "well_paired r" using 2(3) by (auto split: list.splits)
    moreover have "well_paired (concat (map json_unit r))" using 2(2) False s by simp
    moreover have "json_unit c = [c]" "json_unit l = [l]" using False s(2) by (simp_all add: json_unit_def)
    ultimately show ?thesis using 2(3) False by simp
  qed
qed simp

lemma well_paired_payload: "well_paired subject \<Longrightarrow> well_paired (payload_json subject e iat)"
proof -
  assume p: "well_paired subject"
  have d: "list_all (\<lambda>c. c < 128) (show_int x)" for x
    using show_nat_digits by (fastforce simp: show_int_def list_all_iff js_digit_def)
  have e: "well_paired (case e of None \<Rightarrow> js ''null'' | Some x \<Rightarrow> show_int x)"
    using d by (cases e) (simp_all add: well_paired_ascii js_def)
  show ?thesis
    using well_paired_json[OF p] e well_paired_ascii[OF d[of iat]]
    by (simp add: payload_json_def json_string_def js_def well_paired_append json_unit_def)
qed

lemma key_parts:
  assumes "js_trim key = js ''ALO1.'' @ payload @ [46] @ sig" "46 \<notin> set payload" "46 \<notin> set sig"
  shows "js_split1 46 (js_trim key) = [js ''ALO1'', payload, sig]"
proof -
  have "js_trim key = js_join [46] [js ''ALO1'', payload, sig]" using assms(1) by (simp add: js_def)
  then show ?thesis using assms(2,3) by (simp only:, subst js_split1_join) (simp_all add: js_def)
qed

lemma url_char_range: "v < 64 \<Longrightarrow> b64url_char v \<noteq> 46 \<and> \<not> js_space (b64url_char v)"
  by (auto simp: b64url_char_def b64_char_def js_space_def)

lemma url_chars: "c \<in> set (to_base64url bs) \<Longrightarrow> c \<noteq> 46 \<and> \<not> js_space c"
  using url_char_range sextets_less by (auto simp: to_base64url_def)

lemma minted_shape:
  "\<exists>p. mintLicenseKey hmac boot subject days perpetual iat = js ''ALO1.'' @ p @ [46] @ signPayload hmac boot p \<and> 46 \<notin> set p
     \<and> 46 \<notin> set (signPayload hmac boot p)
     \<and> from_base64 p = text_bytes (payload_json (js_or subject (js ''licensee'')) (key_expiry days perpetual iat) iat)"
  using url_chars unfolding mintLicenseKey_def Let_def signPayload_def by (metis from_to_base64url)

lemma minted_trimmed: "js_trim (mintLicenseKey hmac boot subject days perpetual iat) = mintLicenseKey hmac boot subject days perpetual iat"
proof -
  let ?s = "signPayload hmac boot (to_base64url (text_bytes (payload_json (js_or subject (js ''licensee'')) (key_expiry days perpetual iat) iat)))"
  have "?s = [] \<or> \<not> js_space (last ?s)" unfolding signPayload_def using url_chars[OF last_in_set] by blast
  then have "\<not> js_space (last (mintLicenseKey hmac boot subject days perpetual iat))"
    by (auto simp: mintLicenseKey_def Let_def js_space_def)
  then show ?thesis by (intro js_trim_ends) (simp add: mintLicenseKey_def Let_def js_def js_space_def)
qed

text \<open>
  C27. A key is accepted as it was issued: with the secret it was made with, and with a reader of JSON that inverts the
  writer on its payload, a minted key, with blanks around it or not, is accepted for its subject up to the end of its
  term and refused as expired afterwards; a key without a term is always accepted.
\<close>

theorem minted_key_accepted:
  assumes "js_trim key = mintLicenseKey hmac boot subject days perpetual iat" "key_expiry days perpetual iat = e"
    and "well_paired (js_or subject (js ''licensee''))" "\<And>x. e = Some x \<Longrightarrow> 0 < x \<and> x \<le> 8640000000000"
    and "parse (payload_json (js_or subject (js ''licensee'')) e iat)
      = Some (Some \<lparr>kp_sub = SStr (js_or subject (js ''licensee'')), kp_exp = (case e of None \<Rightarrow> SNull | Some x \<Rightarrow> SNum (of_int x))\<rparr>)"
  shows "verifyLicenseKey hmac parse boot key now =
    (case e of None \<Rightarrow> Accepted (SStr (js_or subject (js ''licensee''))) None
     | Some x \<Rightarrow> if now \<le> of_int (x * 1000) then Accepted (SStr (js_or subject (js ''licensee''))) (Some (of_int (x * 1000)))
         else Refused (js ''key_expired'') (SStr (js_or subject (js ''licensee''))) (Some (of_int (x * 1000))))"
proof -
  obtain p where p: "js_trim key = js ''ALO1.'' @ p @ [46] @ signPayload hmac boot p" "46 \<notin> set p" "46 \<notin> set (signPayload hmac boot p)"
    "from_base64 p = text_bytes (payload_json (js_or subject (js ''licensee'')) e iat)"
    using minted_shape[of hmac boot subject days perpetual iat] assms(1,2) by auto
  have t: "utf8_toString (from_base64 p) = payload_json (js_or subject (js ''licensee'')) e iat"
    unfolding p(4) by (rule text_bytes_read[OF well_paired_payload[OF assms(3)]])
  have "js_trim key \<noteq> []" unfolding p(1) by (simp add: js_def)
  then have v: "verifyLicenseKey hmac parse boot key now = check_expiry
      \<lparr>kp_sub = SStr (js_or subject (js ''licensee'')), kp_exp = (case e of None \<Rightarrow> SNull | Some x \<Rightarrow> SNum (of_int x))\<rparr> now"
    by (simp add: verifyLicenseKey_def key_parts[OF p(1-3)] t assms(5))
  show ?thesis
  proof (cases e)
    case (Some x)
    then have x: "0 < x" "x \<le> 8640000000000" using assms(4) by auto
    have "fl (of_int (x * 1000)) = of_int (x * 1000)" by (rule fl_of_int) (use x in simp)
    then have f: "fl (of_int x * 1000) = of_int (x * 1000)" by simp
    have "of_int (x * 1000) \<le> date_limit" unfolding date_limit_def using x(2) by simp
    then show ?thesis unfolding v Some using x(1) by (simp add: check_expiry_def Number_of_def f Let_def not_less)
  qed (simp add: v check_expiry_def)
qed

definition demo_payload :: "jstr \<Rightarrow> key_payload option option" where
  "demo_payload s = (if s = payload_json (js ''a'') (Some 86400) 0 then Some (Some \<lparr>kp_sub = SStr (js ''a''), kp_exp = SNum 86400\<rparr>) else None)"

theorem minted_key_accepted_witness:
  "verifyLicenseKey (\<lambda>_ _. [1, 2, 3]) demo_payload [] (mintLicenseKey (\<lambda>_ _. [1, 2, 3]) [] (Some (js ''a'')) (Some (Some 1)) False 0) 5
    = Accepted (SStr (js ''a'')) (Some 86400000)"
proof -
  have f: "fl 86400 = 86400" using fl_of_int[of 86400] by simp
  have e: "key_expiry (Some (Some 1)) False 0 = Some 86400" by (simp add: key_expiry_def f)
  have a: "js_or (Some (js ''a'')) (js ''licensee'') = js ''a''" by (simp add: js_def)
  show ?thesis
    using minted_key_accepted[OF minted_trimmed e, of "Some (js ''a'')" demo_payload "\<lambda>_ _. [1, 2, 3]" "[]" 5]
    unfolding a by (simp add: demo_payload_def js_def)
qed

text \<open>A key accepted is a key signed.\<close>

definition signed_key :: "(jstr \<Rightarrow> jstr \<Rightarrow> bytes) \<Rightarrow> penv \<Rightarrow> jstr \<Rightarrow> bool" where
  "signed_key hmac boot key \<longleftrightarrow> (case js_split1 46 (js_trim key) of
     [tag, payload, sig] \<Rightarrow> tag = js ''ALO1'' \<and> sig = to_base64url (hmac (issuer_secret boot) payload) | _ \<Rightarrow> False)"

lemma accepted_signed: "verifyLicenseKey hmac parse boot key now = Accepted s e \<Longrightarrow> signed_key hmac boot key"
  by (auto simp: verifyLicenseKey_def signed_key_def signPayload_def Let_def split: if_splits list.splits)

lemma check_ok:
  assumes "checkLicense hmac parse cal boot env now fs = (st, fs')" "status_ok st"
  shows "(\<exists>installedAt e. fst (ensureInstallStamp cal now fs) = installedAt \<and> trialEndsAt cal installedAt = Some e \<and> now \<le> e)
    \<or> signed_key hmac boot (readStoredLicenseKey env fs)"
proof -
  have k: "readStoredLicenseKey env (snd (snd (ensureInstallStamp cal now fs))) = readStoredLicenseKey env fs"
    by (auto simp: ensureInstallStamp_def readStoredLicenseKey_def split: option.splits)
  obtain t cr f1 where e: "ensureInstallStamp cal now fs = (t, cr, f1)" by (metis prod.collapse)
  have tr: "status_ok (trial_status t b x now) \<Longrightarrow> \<exists>e. x = Some e \<and> now \<le> e" for b x
    by (auto simp: trial_status_def split: option.splits if_splits)
  show ?thesis
  proof (cases "readStoredLicenseKey env fs = []")
    case True
    then show ?thesis using assms k e tr by (auto simp: checkLicense_def)
  next
    case False
    then show ?thesis using assms k e tr accepted_signed[of hmac parse boot "readStoredLicenseKey env fs" now]
      by (auto simp: checkLicense_def split: verdict.splits)
  qed
qed

text \<open>
  C26. No service starts without permission: when the start of a service goes on, the trial counted from the stamp was
  still running, or the key of the environment or of the key file carries a signature made with the issuer's secret
  as it was when the program was loaded, or the key typed at the prompt does, and that key is then the one kept in the environment and in the key file.
\<close>

theorem start_needs_permission:
  assumes "enforceLicense hmac parse cal boot env allowPrompt entered t1 t2 t3 fs = (Starts st, env', fs')"
  shows "(\<exists>e. trialEndsAt cal (fst (ensureInstallStamp cal t1 fs)) = Some e \<and> t1 \<le> e)
    \<or> signed_key hmac boot (readStoredLicenseKey env fs)
    \<or> allowPrompt \<and> signed_key hmac boot (js_trim entered) \<and> env_get env' ''LICENSE_KEY'' = Some (js_trim entered)
        \<and> lf_key fs' = Some (js_trim entered @ [10])"
proof -
  obtain s1 f1 where c: "checkLicense hmac parse cal boot env t1 fs = (s1, f1)" by fastforce
  show ?thesis
  proof (cases "status_ok s1")
    case True
    then show ?thesis using check_ok[OF c] by auto
  next
    case False
    have key: "lf_key (snd (checkLicense hmac parse cal boot e now f)) = lf_key f" for e now f
      by (auto simp: checkLicense_def ensureInstallStamp_def Let_def split: option.splits verdict.splits)
    from False obtain s e where v: "allowPrompt" "verifyLicenseKey hmac parse boot (js_trim entered) t2 = Accepted s e"
      using assms c by (auto simp: enforceLicense_def split: license_status.splits if_splits verdict.splits)
    moreover have "env' = env_set (js ''LICENSE_KEY'') (js_trim entered) env \<and> lf_key fs' = Some (js_trim entered @ [10])"
      using assms c False v key[of "env_set (js ''LICENSE_KEY'') (js_trim entered) env" t3 "saveLicenseKey (js_trim entered) f1"]
      by (auto simp: enforceLicense_def saveLicenseKey_def js_trim_idem Let_def
          split: license_status.splits if_splits verdict.splits prod.splits)
    ultimately show ?thesis using accepted_signed[OF v(2)] by (auto simp: env_get_def env_set_def)
  qed
qed

text \<open>
  A secret that only the file \<open>.env\<close> sets does not protect: it is not there yet when the module is loaded, and a key signed
  with the default that stands in the source is accepted, whatever the environment holds at the check.
\<close>

lemma env_file_secret_ignored:
  assumes "js_or (env_get boot ''ALO_LICENSE_ISSUER_SECRET'') [] = []"
    and "verifyLicenseKey hmac parse [] (readStoredLicenseKey env fs) now = Accepted s e"
  shows "fst (checkLicense hmac parse cal boot env now fs) = Licensed s e"
proof -
  have "issuer_secret boot = issuer_secret []"
    using assms(1) by (auto simp: issuer_secret_def js_or_def env_get_def split: option.splits if_splits)
  then have v: "verifyLicenseKey hmac parse boot key now = verifyLicenseKey hmac parse [] key now" for key
    by (simp add: verifyLicenseKey_def signPayload_def cong: if_cong list.case_cong)
  have "readStoredLicenseKey env fs \<noteq> []" using assms(2) by (auto simp: verifyLicenseKey_def js_trim_def)
  moreover have "readStoredLicenseKey env (snd (snd (ensureInstallStamp cal now fs))) = readStoredLicenseKey env fs"
    by (auto simp: ensureInstallStamp_def readStoredLicenseKey_def split: option.splits)
  ultimately show ?thesis using assms(2) v by (simp add: checkLicense_def case_prod_beta Let_def)
qed

text \<open>A start without a stamp begins the trial anew, whenever it is.\<close>

lemma missing_stamp_new_trial:
  assumes "Option.bind (lf_install fs) (cal_installed cal) = None" "readStoredLicenseKey env fs = []"
    and "cal_read cal (cal_iso cal now) = Some now" "now \<le> cal_year_later cal now"
  shows "status_ok (fst (checkLicense hmac parse cal boot env now fs))"
  using assms by (auto simp: checkLicense_def ensureInstallStamp_def readStoredLicenseKey_def trialEndsAt_def trial_status_def Let_def)

text \<open>A stamp whose date cannot be read stops every service with an exception.\<close>

lemma unreadable_date_throws:
  assumes "Option.bind (lf_install fs) (cal_installed cal) = Some t" "cal_read cal t = None" "readStoredLicenseKey env fs = []"
  shows "fst (checkLicense hmac parse cal boot env now fs) = CheckThrows"
  using assms by (simp add: checkLicense_def ensureInstallStamp_def trialEndsAt_def trial_status_def)

text \<open>A term that ended before 1970 is no term.\<close>

lemma negative_term_never_ends:
  assumes "kp_exp p = SNum e" "e \<le> 0" shows "check_expiry p now = Accepted (kp_sub p) None"
  using assms by (simp add: check_expiry_def Number_of_def)

definition demo_calendar :: calendar where
  "demo_calendar = \<lparr>cal_iso = \<lambda>_. js ''d'', cal_read = \<lambda>_. Some 0, cal_year_later = \<lambda>t. t + 31536000000, cal_stamp = id,
     cal_installed = Some\<rparr>"

theorem start_needs_permission_witness:
  "\<exists>e. trialEndsAt demo_calendar (fst (ensureInstallStamp demo_calendar 5 \<lparr>lf_install = None, lf_key = None\<rparr>)) = Some e \<and> 5 \<le> e"
proof -
  let ?fs = "\<lparr>lf_install = None, lf_key = None\<rparr>"
  have k: "readStoredLicenseKey [] ?fs = []" by (simp add: readStoredLicenseKey_def env_get_def js_trim_def)
  have "\<exists>st f. enforceLicense (\<lambda>_ _. []) (\<lambda>_. None) demo_calendar [] [] False [] 5 5 5 ?fs = (Starts st, [], f)"
    by (simp add: enforceLicense_def checkLicense_def ensureInstallStamp_def demo_calendar_def trialEndsAt_def trial_status_def
        readStoredLicenseKey_def env_get_def js_trim_def)
  then obtain st f where "enforceLicense (\<lambda>_ _. []) (\<lambda>_. None) demo_calendar [] [] False [] 5 5 5 ?fs = (Starts st, [], f)" by blast
  from start_needs_permission[OF this] show ?thesis by (simp add: k signed_key_def js_trim_def)
qed

end
