(* ===== verification/Company.thy ===== *)
theory Company
  imports ApiAuth
begin

text \<open>
  The legal entity behind the assistant (\<open>packages/shared/src/company.ts\<close>) and the route that shows it
  (\<open>apps/api/src/routes/company.ts\<close>): a profile of defaults, each overridden by its own variable.
\<close>

record company_profile =
  co_legal_name :: jstr
  co_short_name :: jstr
  co_ogrn :: jstr
  co_ogrn_date :: jstr
  co_registration_date :: jstr
  co_inn :: jstr
  co_kpp :: jstr
  co_legal_address :: jstr
  co_director_title :: jstr
  co_director_name :: jstr
  co_director_since :: jstr
  co_status :: jstr
  co_status_assigned :: jstr
  co_okved_code :: jstr
  co_okved_name :: jstr
  co_tax_authority :: jstr
  co_tax_authority_since :: jstr
  co_okpo :: jstr
  co_okato :: jstr
  co_oktmo :: jstr
  co_okfs :: jstr
  co_okfs_name :: jstr
  co_okogu :: jstr
  co_okogu_name :: jstr
  co_okopf :: jstr
  co_okopf_name :: jstr
  co_phone :: jstr
  co_email :: jstr
  co_website :: jstr

definition DEFAULT_COMPANY :: company_profile where
  "DEFAULT_COMPANY =
     \<lparr>co_legal_name = (ru ''OOO '' @ [171] @ ru ''VD Transinwest'' @ [187]),
      co_short_name = ru ''VD Transinwest'',
      co_ogrn = js ''1205400060260'',
      co_ogrn_date = js ''16.12.2020'',
      co_registration_date = js ''16.12.2020'',
      co_inn = js ''5401401513'',
      co_kpp = js ''540601001'',
      co_legal_address = ru ''630007, Nowosibirskaq oblastx, g Nowosibirsk, Oktqbrxskaq ul, zd. 42, ofis 308'',
      co_director_title = ru ''Direktor'',
      co_director_name = ru ''Tarasowa Aleksandra Wiktorowna'',
      co_director_since = js ''16.12.2020'',
      co_status = ru ''mikropredpriqtie'',
      co_status_assigned = js ''10.01.2021'',
      co_okved_code = js ''52.29'',
      co_okved_name = ru ''Deqtelxnostx wspomogatelxnaq pro~aq, swqzannaq s perewozkami'',
      co_tax_authority = (ru ''Mevrajonnaq inspekciq FNS Rossii '' @ [8470] @ ru '' 22 po Nowosibirskoj oblasti''),
      co_tax_authority_since = js ''23.08.2022'',
      co_okpo = js ''46701699'',
      co_okato = js ''50401386000'',
      co_oktmo = js ''50701000001'',
      co_okfs = js ''16'',
      co_okfs_name = ([1063] @ ru ''astnaq sobstwennostx''),
      co_okogu = js ''4210014'',
      co_okogu_name = ru ''Organizacii, u~revdennye `ridi~eskimi licami ili gravdanami, ili `ridi~eskimi licami i gravdanami sowmestno'',
      co_okopf = js ''12300'',
      co_okopf_name = ru ''Ob}estwa s ograni~ennoj otwetstwennostx`'',
      co_phone = [],
      co_email = [],
      co_website = []\<rparr>"

text \<open>A variable counts when something is left of it after trimming.\<close>

definition company_env :: "penv \<Rightarrow> string \<Rightarrow> jstr \<Rightarrow> jstr" where
  "company_env env key fallback = js_or (Some (js_trim (js_or (env_get env key) []))) fallback"

definition loadCompanyFromEnv :: "penv \<Rightarrow> company_profile" where
  "loadCompanyFromEnv env =
     \<lparr>co_legal_name = company_env env ''COMPANY_LEGAL_NAME'' (co_legal_name DEFAULT_COMPANY),
      co_short_name = company_env env ''COMPANY_SHORT_NAME'' (co_short_name DEFAULT_COMPANY),
      co_ogrn = company_env env ''COMPANY_OGRN'' (co_ogrn DEFAULT_COMPANY),
      co_ogrn_date = company_env env ''COMPANY_OGRN_DATE'' (co_ogrn_date DEFAULT_COMPANY),
      co_registration_date = company_env env ''COMPANY_REGISTRATION_DATE'' (co_registration_date DEFAULT_COMPANY),
      co_inn = company_env env ''COMPANY_INN'' (co_inn DEFAULT_COMPANY),
      co_kpp = company_env env ''COMPANY_KPP'' (co_kpp DEFAULT_COMPANY),
      co_legal_address = company_env env ''COMPANY_LEGAL_ADDRESS'' (co_legal_address DEFAULT_COMPANY),
      co_director_title = company_env env ''COMPANY_DIRECTOR_TITLE'' (co_director_title DEFAULT_COMPANY),
      co_director_name = company_env env ''COMPANY_DIRECTOR_NAME'' (co_director_name DEFAULT_COMPANY),
      co_director_since = company_env env ''COMPANY_DIRECTOR_SINCE'' (co_director_since DEFAULT_COMPANY),
      co_status = company_env env ''COMPANY_STATUS'' (co_status DEFAULT_COMPANY),
      co_status_assigned = company_env env ''COMPANY_STATUS_ASSIGNED'' (co_status_assigned DEFAULT_COMPANY),
      co_okved_code = company_env env ''COMPANY_OKVED_CODE'' (co_okved_code DEFAULT_COMPANY),
      co_okved_name = company_env env ''COMPANY_OKVED_NAME'' (co_okved_name DEFAULT_COMPANY),
      co_tax_authority = company_env env ''COMPANY_TAX_AUTHORITY'' (co_tax_authority DEFAULT_COMPANY),
      co_tax_authority_since = company_env env ''COMPANY_TAX_AUTHORITY_SINCE'' (co_tax_authority_since DEFAULT_COMPANY),
      co_okpo = company_env env ''COMPANY_OKPO'' (co_okpo DEFAULT_COMPANY),
      co_okato = company_env env ''COMPANY_OKATO'' (co_okato DEFAULT_COMPANY),
      co_oktmo = company_env env ''COMPANY_OKTMO'' (co_oktmo DEFAULT_COMPANY),
      co_okfs = company_env env ''COMPANY_OKFS'' (co_okfs DEFAULT_COMPANY),
      co_okfs_name = company_env env ''COMPANY_OKFS_NAME'' (co_okfs_name DEFAULT_COMPANY),
      co_okogu = company_env env ''COMPANY_OKOGU'' (co_okogu DEFAULT_COMPANY),
      co_okogu_name = company_env env ''COMPANY_OKOGU_NAME'' (co_okogu_name DEFAULT_COMPANY),
      co_okopf = company_env env ''COMPANY_OKOPF'' (co_okopf DEFAULT_COMPANY),
      co_okopf_name = company_env env ''COMPANY_OKOPF_NAME'' (co_okopf_name DEFAULT_COMPANY),
      co_phone = company_env env ''COMPANY_PHONE'' (co_phone DEFAULT_COMPANY),
      co_email = company_env env ''COMPANY_EMAIL'' (co_email DEFAULT_COMPANY),
      co_website = company_env env ''COMPANY_WEBSITE'' (co_website DEFAULT_COMPANY)\<rparr>"

definition companyDisplayName :: "penv \<Rightarrow> company_profile \<Rightarrow> jstr" where
  "companyDisplayName env c =
     js_or (Some (company_env env ''VOICE_COMPANY_NAME'' [])) (js_or (Some (co_short_name c)) (co_legal_name c))"

definition companyRequisitesMd :: "company_profile \<Rightarrow> jstr" where
  "companyRequisitesMd c =
     js_join [10]
       ([js ''**'' @ co_legal_name c @ js ''**'',
         ru ''OGRN '' @ co_ogrn c @ ru '' ot '' @ co_ogrn_date c,
         ru ''Data registracii: '' @ co_registration_date c,
         ru ''INN/KPP: '' @ co_inn c @ js '' / '' @ co_kpp c,
         ([1070] @ ru ''ridi~eskij adres: '') @ co_legal_address c,
         ru ''Rukowoditelx: '' @ co_director_title c @ [32] @ co_director_name c @ ru '' (s '' @ co_director_since c @ js '')'',
         ru ''Status: '' @ co_status c @ ru '' (priswoen '' @ co_status_assigned c @ js '')'',
         (ru ''OKW'' @ [1069] @ ru ''D: '') @ co_okved_code c @ (js '' '' @ [8212] @ js '' '') @ co_okved_name c,
         ru ''Nalogowyj organ: '' @ co_tax_authority c @ ru '' (s '' @ co_tax_authority_since c @ js '')'',
         ru ''OKPO '' @ co_okpo c @ ru ''; OKATO '' @ co_okato c @ ru ''; OKTMO '' @ co_oktmo c,
         ru ''OKFS '' @ co_okfs c @ js '' ('' @ co_okfs_name c @ ru ''); OKOGU '' @ co_okogu c @ ru ''; OKOPF '' @ co_okopf c @ js '' ('' @ co_okopf_name c @ js '')'']
        @ (if co_phone c = [] then [] else [ru ''Tel.: '' @ co_phone c])
        @ (if co_email c = [] then [] else [js ''Email: '' @ co_email c])
        @ (if co_website c = [] then [] else [ru ''Sajt: '' @ co_website c]))"

text \<open>The answer of \<open>/company\<close>: a status, or the profile with its text.\<close>

definition company_route :: "penv \<Rightarrow> request_staff option \<Rightarrow> nat + company_profile \<times> jstr" where
  "company_route env staff =
     (case requireDirector staff of
        Some code \<Rightarrow> Inl code
      | None \<Rightarrow> Inr (loadCompanyFromEnv env, companyRequisitesMd (loadCompanyFromEnv env)))"

text \<open>A letter is always signed: blanks in the variables do not empty the name.\<close>

lemma company_env_nonempty: "fallback \<noteq> [] \<Longrightarrow> company_env env key fallback \<noteq> []"
  by (simp add: company_env_def js_or_def)

lemma loaded_names:
  "co_short_name (loadCompanyFromEnv env) = company_env env ''COMPANY_SHORT_NAME'' (co_short_name DEFAULT_COMPANY)"
  "co_short_name DEFAULT_COMPANY = ru ''VD Transinwest''"
  by (simp_all only: loadCompanyFromEnv_def DEFAULT_COMPANY_def company_profile.select_convs)

lemma display_name_nonempty: "companyDisplayName env (loadCompanyFromEnv env) \<noteq> []"
proof -
  have "co_short_name (loadCompanyFromEnv env) \<noteq> []"
    unfolding loaded_names by (rule company_env_nonempty) (simp add: ru_def js_def)
  then show ?thesis by (simp add: companyDisplayName_def js_or_def)
qed

text \<open>Only the director sees the profile, and the text shows the lines of the profile.\<close>

lemma company_route_guard: "company_route env staff = Inr r \<Longrightarrow> requireDirector staff = None"
  by (auto simp: company_route_def split: option.splits)

end
