(* ===== verification/Email.thy ===== *)
theory Email
  imports Company QuoteParse License TgRouting
begin

text \<open>
  Mail in and out of the worker (\<open>apps/workers-ts/src/email.ts\<close>): the account, the proxy and the order of connections,
  requests for quotes, answers to clients, the classification of what comes in and the reading of the mailbox. The token
  endpoint, SMTP, IMAP, the parsing of a message and the language model are parameters; times are milliseconds.
\<close>

subsection \<open>The account\<close>

record oauth_token =
  ot_token :: jstr
  ot_exp :: numval

text \<open>The token endpoint: an exception of \<open>fetch\<close> or of the reader, a refusal, or an answer.\<close>

datatype token_reply = Token_throws | Token_refused | Token_data "jstr option" scalar

type_synonym token_ask = "jstr \<Rightarrow> (jstr \<times> jstr) list \<Rightarrow> token_reply"

text \<open>\<open>Math.max(60, n) * 1000\<close>, added to the time; \<open>Infinity\<close> and \<open>NaN\<close> as in JavaScript.\<close>

definition token_end :: "rat \<Rightarrow> scalar \<Rightarrow> numval" where
  "token_end now expires_in =
     (case Number_of (scalar_or expires_in (SNum 3500)) of
        Num n \<Rightarrow> Num (fl (now + fl (max 60 n * 1000)))
      | NegInf \<Rightarrow> Num (now + 60000)
      | v \<Rightarrow> v)"

text \<open>The outer \<open>None\<close> is an exception.\<close>

definition fetch_token :: "token_ask \<Rightarrow> jstr \<Rightarrow> jstr \<Rightarrow> jstr \<Rightarrow> jstr \<Rightarrow> rat \<Rightarrow> oauth_token option
    \<Rightarrow> jstr option option \<times> oauth_token option" where
  "fetch_token ask tokenUrl clientId clientSecret refresh t2 cache =
     (case ask tokenUrl [(js ''client_id'', clientId), (js ''client_secret'', clientSecret), (js ''refresh_token'', refresh),
          (js ''grant_type'', js ''refresh_token'')] of
        Token_throws \<Rightarrow> (None, cache)
      | Token_refused \<Rightarrow> (Some None, cache)
      | Token_data token expires_in \<Rightarrow>
          if js_or token [] = [] then (Some None, cache)
          else (Some token, Some \<lparr>ot_token = js_or token [], ot_exp = token_end t2 expires_in\<rparr>))"

text \<open>\<open>t1\<close> is the time of the look at the cache, \<open>t2\<close> the time of the answer.\<close>

definition fetchOAuthAccessToken :: "token_ask \<Rightarrow> penv \<Rightarrow> jstr \<Rightarrow> rat \<Rightarrow> rat \<Rightarrow> oauth_token option
    \<Rightarrow> jstr option option \<times> oauth_token option" where
  "fetchOAuthAccessToken ask env provider t1 t2 cache =
     (let clientId = js_or (env_get env ''MAIL_OAUTH_CLIENT_ID'') [];
          clientSecret = js_or (env_get env ''MAIL_OAUTH_CLIENT_SECRET'') [];
          refresh = js_or (env_get env ''MAIL_OAUTH_REFRESH_TOKEN'') [];
          defaultUrl = (if provider = js ''yandex'' then js ''https://oauth.yandex.ru/token'' else js ''https://oauth2.googleapis.com/token'')
      in if clientId = [] \<or> clientSecret = [] \<or> refresh = [] then (Some None, cache)
         else case cache of
           Some c \<Rightarrow> if num_less (Num (t1 + 60000)) (ot_exp c) then (Some (Some (ot_token c)), cache)
             else fetch_token ask (js_or (env_get env ''MAIL_OAUTH_TOKEN_URL'') defaultUrl) clientId clientSecret refresh t2 cache
         | None \<Rightarrow> fetch_token ask (js_or (env_get env ''MAIL_OAUTH_TOKEN_URL'') defaultUrl) clientId clientSecret refresh t2 cache)"

record mail_endpoints =
  me_smtpHost :: jstr
  me_smtpPort :: numval
  me_smtpSecure :: bool
  me_imapHost :: jstr
  me_imapPort :: numval
  me_imapSecure :: bool
  me_user :: jstr
  me_pass :: "jstr option"
  me_from :: jstr
  me_accessToken :: "jstr option"
  me_authMode :: jstr

definition env_or :: "penv \<Rightarrow> string \<Rightarrow> jstr \<Rightarrow> jstr" where
  "env_or env name fallback = js_or (env_get env name) fallback"

definition mail_user :: "penv \<Rightarrow> jstr" where
  "mail_user env = env_or env ''MAIL_USER'' (env_or env ''SMTP_USER'' (env_or env ''IMAP_USER'' []))"

definition mail_pass :: "penv \<Rightarrow> jstr" where
  "mail_pass env = env_or env ''MAIL_APP_PASSWORD'' (env_or env ''SMTP_PASS'' (env_or env ''IMAP_PASS'' []))"

definition mail_from :: "penv \<Rightarrow> jstr" where
  "mail_from env =
     env_or env ''MAIL_FROM'' (env_or env ''SMTP_FROM''
       (if mail_user env \<noteq> [] then companyDisplayName env (loadCompanyFromEnv env) @ js '' <'' @ mail_user env @ js ''>'' else []))"

text \<open>
  The kind of access is whatever the variable says: the source only casts it. An exception of the token endpoint is the
  outer \<open>None\<close>.
\<close>

definition endpoints_of :: "penv \<Rightarrow> jstr \<Rightarrow> jstr \<Rightarrow> jstr option \<Rightarrow> mail_endpoints option" where
  "endpoints_of env provider authMode accessToken =
     (let user = mail_user env; pass = mail_pass env; app = (authMode = js ''app_password'');
          on = (\<lambda>name. env_get env name = Some (js ''true'')); not_off = (\<lambda>name. env_get env name \<noteq> Some (js ''false''));
          ep = (\<lambda>sh sp ss ih ip is. \<lparr>me_smtpHost = sh, me_smtpPort = sp, me_smtpSecure = ss, me_imapHost = ih, me_imapPort = ip,
             me_imapSecure = is, me_user = user, me_pass = (if app then Some pass else None), me_from = mail_from env,
             me_accessToken = accessToken, me_authMode = authMode\<rparr>)
      in if provider = js ''gmail'' then
           (if app \<and> (user = [] \<or> pass = []) then None
            else Some (ep (env_or env ''GMAIL_SMTP_HOST'' (js ''smtp.gmail.com'')) (env_num env ''GMAIL_SMTP_PORT'' 587)
              (on ''GMAIL_SMTP_SECURE'') (env_or env ''GMAIL_IMAP_HOST'' (js ''imap.gmail.com'')) (env_num env ''GMAIL_IMAP_PORT'' 993)
              (not_off ''GMAIL_IMAP_SECURE'')))
         else if provider = js ''yandex'' then
           (if app \<and> (user = [] \<or> pass = []) then None
            else Some (ep (env_or env ''YANDEX_SMTP_HOST'' (js ''smtp.yandex.ru'')) (env_num env ''YANDEX_SMTP_PORT'' 465)
              (not_off ''YANDEX_SMTP_SECURE'') (env_or env ''YANDEX_IMAP_HOST'' (js ''imap.yandex.ru'')) (env_num env ''YANDEX_IMAP_PORT'' 993)
              (not_off ''YANDEX_IMAP_SECURE'')))
         else if env_or env ''SMTP_HOST'' [] = [] \<or> user = [] \<or> (app \<and> pass = []) then None
         else Some (ep (env_or env ''SMTP_HOST'' []) (env_num env ''SMTP_PORT'' 587) (on ''SMTP_SECURE'') (env_or env ''IMAP_HOST'' [])
              (env_num env ''IMAP_PORT'' 993) (not_off ''IMAP_SECURE'')))"

definition resolveMailEndpoints :: "token_ask \<Rightarrow> penv \<Rightarrow> rat \<Rightarrow> rat \<Rightarrow> oauth_token option
    \<Rightarrow> mail_endpoints option option \<times> oauth_token option" where
  "resolveMailEndpoints ask env t1 t2 cache =
     (let provider = js_toLowerCase (env_or env ''MAIL_PROVIDER'' (js ''custom''));
          authMode = env_or env ''MAIL_AUTH_MODE'' (js ''app_password'')
      in if authMode = js ''oauth2'' then
           (if provider \<noteq> js ''gmail'' \<and> provider \<noteq> js ''yandex'' then (Some None, cache)
            else case fetchOAuthAccessToken ask env provider t1 t2 cache of
              (None, c) \<Rightarrow> (None, c)
            | (Some token, c) \<Rightarrow>
                if js_or token [] = [] \<or> mail_user env = [] then (Some None, c)
                else (Some (endpoints_of env provider authMode token), c))
         else (Some (endpoints_of env provider authMode None), cache))"

subsection \<open>Connections\<close>

text \<open>The outer \<open>None\<close> is the exception of \<open>encodeURIComponent\<close>.\<close>

definition mailProxyUrl :: "penv \<Rightarrow> jstr option option" where
  "mailProxyUrl env =
     (let enabled = js_toLowerCase (env_or env ''PROXY_ENABLED'' []);
          host = env_or env ''PROXY_HOST'' (env_or env ''PX6_HOST'' []);
          port = env_or env ''PROXY_PORT'' (env_or env ''PX6_PORT'' []);
          user = env_or env ''PROXY_USERNAME'' (env_or env ''PROXY_USER'' (env_or env ''PX6_USER'' []));
          pass = env_or env ''PROXY_PASSWORD'' (env_or env ''PROXY_PASS'' (env_or env ''PX6_PASS'' []));
          kind = js_toLowerCase (env_or env ''PROXY_TYPE'' (js ''socks5''))
      in if enabled = js ''0'' \<or> enabled = js ''false'' \<or> enabled = js ''no'' then Some None
         else if host = [] \<or> port = [] then Some None
         else (case (if user = [] then Some []
                     else case (encodeURIComponent user, encodeURIComponent pass) of
                       (Some u, Some p) \<Rightarrow> Some (u @ js '':'' @ p @ js ''@'')
                     | _ \<Rightarrow> None) of
             None \<Rightarrow> None
           | Some auth \<Rightarrow>
               Some (Some ((if starts_with kind (js ''socks'') then (if kind = js ''socks4'' then js ''socks4'' else js ''socks5'') else js ''http'')
                 @ js ''://'' @ auth @ host @ js '':'' @ port))))"

datatype mail_auth = OAuth2 jstr jstr | Login jstr jstr

definition smtpAuth :: "mail_endpoints \<Rightarrow> mail_auth" where
  "smtpAuth ep =
     (if me_authMode ep = js ''oauth2'' \<and> js_or (me_accessToken ep) [] \<noteq> [] then OAuth2 (me_user ep) (js_or (me_accessToken ep) [])
      else Login (me_user ep) (js_or (me_pass ep) []))"

record mail_try =
  mt_host :: jstr
  mt_port :: numval
  mt_secure :: bool
  mt_auth :: mail_auth
  mt_proxy :: "jstr option"

definition smtp_ports :: "mail_endpoints \<Rightarrow> (numval \<times> bool) list" where
  "smtp_ports ep =
     (me_smtpPort ep, me_smtpSecure ep)
     # (if me_smtpPort ep = Num 465 then [(Num 587, False)] else if me_smtpPort ep = Num 587 then [(Num 465, True)] else [])"

definition smtp_tries :: "mail_endpoints \<Rightarrow> jstr option \<Rightarrow> mail_try list" where
  "smtp_tries ep proxy =
     concat (map (\<lambda>via. map (\<lambda>(port, secure). \<lparr>mt_host = me_smtpHost ep, mt_port = port, mt_secure = secure, mt_auth = smtpAuth ep,
       mt_proxy = (if via then proxy else None)\<rparr>) (smtp_ports ep))
       (if js_or proxy [] \<noteq> [] then [True, False] else [False]))"

text \<open>
  What is asked of others: a token, whether a server accepts a connection, whether it takes a letter, the draft of a letter
  (model, style, kind, facts; \<open>None\<close> when the model does not answer), the class of a mail, a page of the web.
\<close>

record letter =
  lt_to :: jstr
  lt_subject :: jstr
  lt_text :: jstr
  lt_reply :: "jstr option"

record mail_world =
  mw_token :: token_ask
  mw_verify :: "mail_try \<Rightarrow> bool"
  mw_deliver :: "mail_try \<Rightarrow> jstr \<Rightarrow> letter \<Rightarrow> bool"
  mw_draft :: "jstr \<Rightarrow> jstr \<Rightarrow> jstr \<Rightarrow> jstr \<Rightarrow> jstr option"
  mw_classify :: "bool \<Rightarrow> bool \<Rightarrow> jstr \<Rightarrow> jstr \<Rightarrow> jstr \<Rightarrow> jstr option"
  mw_page :: "jstr \<Rightarrow> jstr option"
  mw_digits :: "rat \<Rightarrow> jstr"

record mail_state =
  mst_token :: "oauth_token option"
  mst_sent :: "rat list"

datatype transport = Transport_throws | No_transport | Transport mail_endpoints mail_try

definition transporter :: "mail_world \<Rightarrow> penv \<Rightarrow> rat \<Rightarrow> rat \<Rightarrow> mail_state \<Rightarrow> transport \<times> mail_state" where
  "transporter w env t1 t2 st =
     (case resolveMailEndpoints (mw_token w) env t1 t2 (mst_token st) of
        (r, c) \<Rightarrow>
          ((case r of None \<Rightarrow> Transport_throws | Some None \<Rightarrow> No_transport
            | Some (Some ep) \<Rightarrow>
                (case mailProxyUrl env of None \<Rightarrow> Transport_throws
                 | Some proxy \<Rightarrow> (case find (mw_verify w) (smtp_tries ep proxy) of None \<Rightarrow> No_transport | Some a \<Rightarrow> Transport ep a))),
           st\<lparr>mst_token := c\<rparr>))"

definition emailRateOk :: "penv \<Rightarrow> rat \<Rightarrow> mail_state \<Rightarrow> bool \<times> mail_state" where
  "emailRateOk env now st =
     (let kept = dropWhile (\<lambda>t. now - t > 60000) (mst_sent st)
      in if num_le (env_num env ''MAIL_MAX_SEND_PER_MINUTE'' 30) (Num (of_nat (length kept))) then (False, st\<lparr>mst_sent := kept\<rparr>)
         else (True, st\<lparr>mst_sent := kept @ [now]\<rparr>))"

definition mailRequiresSmtp :: "penv \<Rightarrow> bool" where
  "mailRequiresSmtp env \<longleftrightarrow>
     env_get env ''MAIL_REQUIRE_SMTP'' = Some (js ''true'') \<or> env_get env ''NODE_ENV'' = Some (js ''production'')
     \<or> env_get env ''ALO_ENV'' = Some (js ''production'') \<or> js_toLowerCase (env_or env ''MAIL_PROVIDER'' []) = js ''yandex''"

datatype send_outcome = Email_limited | Send_throws | Smtp_missing | Dev_only letter | Letter_sent mail_try jstr letter

text \<open>The end of both senders: the transport is asked for, then the letter is handed over.\<close>

definition hand_over :: "mail_world \<Rightarrow> penv \<Rightarrow> transport \<Rightarrow> letter \<Rightarrow> letter \<Rightarrow> send_outcome" where
  "hand_over w env t dev l =
     (case t of Transport_throws \<Rightarrow> Send_throws
      | No_transport \<Rightarrow> if mailRequiresSmtp env then Smtp_missing else Dev_only dev
      | Transport ep a \<Rightarrow> if mw_deliver w a (me_from ep) l then Letter_sent a (me_from ep) l else Send_throws)"

subsection \<open>A request for a quote\<close>

record quote_mail =
  qe_to :: jstr
  qe_deal :: "jstr option"
  qe_subject :: "jstr option"
  qe_route :: "jstr option"
  qe_cargo :: "jstr option"
  qe_weight :: "rat option"
  qe_volume :: "rat option"
  qe_ready :: "jstr option"
  qe_corridor :: "jstr option"
  qe_mode :: "jstr option"
  qe_class :: "jstr option"
  qe_origin_incoterm :: "jstr option"
  qe_dest_incoterm :: "jstr option"
  qe_incoterms :: "jstr option"
  qe_services :: "jstr list option"
  qe_kind :: "jstr option"
  qe_override :: "jstr option"
  qe_scope :: "jstr list option"
  qe_ask :: "jstr list option"
  qe_hide :: "jstr list option"
  qe_style :: "jstr option"
  qe_website :: "jstr option"

definition nonempty_list :: "jstr list option \<Rightarrow> bool" where
  "nonempty_list x = (case x of None \<Rightarrow> False | Some l \<Rightarrow> l \<noteq> [])"

definition rfq_kind :: "quote_mail \<Rightarrow> jstr" where
  "rfq_kind d = js_or (qe_kind d) (js ''freight'')"

definition rfq_prefix :: "penv \<Rightarrow> quote_mail \<Rightarrow> jstr" where
  "rfq_prefix env d =
     js_or (qe_subject d) (if rfq_kind d = js ''sourcing'' then env_or env ''MAIL_SOURCING_SUBJECT_PREFIX'' (ru ''Zapros wykupa/podbora'')
       else env_or env ''MAIL_SUBJECT_PREFIX'' (ru ''Zapros stawki''))"

definition rfq_subject :: "penv \<Rightarrow> quote_mail \<Rightarrow> jstr" where
  "rfq_subject env d =
     js_or (qe_subject d)
       (js_trim (rfq_prefix env d @ (if js_or (qe_deal d) [] \<noteq> [] then js '' Ref: '' @ js_or (qe_deal d) [] else [])))"

definition incoterms_text :: "quote_mail \<Rightarrow> jstr" where
  "incoterms_text d =
     js_or (qe_incoterms d)
       (js_join (js ''-'') (filter (\<lambda>s. s \<noteq> []) [js_or (qe_origin_incoterm d) [], js_or (qe_dest_incoterm d) []]))"

definition rfq_closer :: "quote_mail \<Rightarrow> jstr" where
  "rfq_closer d =
     (if rfq_kind d = js ''sourcing'' then (ru ''Nuvny: cena towara/uslugi, srok, uslowiq oplaty, '' @ js ''MOQ.'')
      else if nonempty_list (qe_ask d)
      then (ru ''Nuvny: cena, srok, '' @ js ''local charges, free time, '' @ ru ''walidnostx, wkl`~eno/iskl`~eno, NDS/wal`ta.'')
      else ru ''Nuvny: cena, srok, dop. sbory, srok dejstwiq stawki.'')"

definition rfq_override :: "quote_mail \<Rightarrow> jstr" where
  "rfq_override d = js_trim (js_or (qe_override d) [])"

definition rfq_end :: "penv \<Rightarrow> quote_mail \<Rightarrow> jstr list" where
  "rfq_end env d =
     [[], rfq_closer d, labelled (js ''Ref: '') (qe_deal d), [], ru ''S uwaveniem,'', companyDisplayName env (loadCompanyFromEnv env)]"

definition rfq_details :: "(rat \<Rightarrow> jstr) \<Rightarrow> quote_mail \<Rightarrow> jstr list" where
  "rfq_details digits d =
     (let freight = (rfq_kind d = js ''freight''); list = (\<lambda>x. case x of None \<Rightarrow> [] | Some l \<Rightarrow> l)
      in [js_or (qe_route d) long_dash, js_or (qe_cargo d) long_dash, labelled (ru ''Koridor: '') (qe_corridor d),
          labelled (ru ''Revim: '') (qe_mode d), labelled (ru ''Tip gruza: '') (qe_class d), labelled (js ''Incoterms: '') (Some (incoterms_text d)),
          (if nonempty_list (qe_services d) then ru ''Uslugi: '' @ js_join (js '', '') (list (qe_services d)) else []),
          (case qe_weight d of None \<Rightarrow> [] | Some x \<Rightarrow> ru ''Wes: '' @ num_str digits x @ ru '' kg''),
          (case qe_volume d of None \<Rightarrow> [] | Some x \<Rightarrow> ru ''Ob_#m: '' @ num_str digits x @ (ru '' m'' @ [179])),
          labelled (ru ''Gotownostx gruza: '') (qe_ready d)]
         @ (if freight \<and> qe_scope d \<noteq> None then [[], ru ''Sostaw / ple~i k kotirowke: '' @ js_join ((js '' '' @ [8594] @ js '' '')) (take 10 (list (qe_scope d)))] else [])
         @ (if freight \<and> nonempty_list (qe_ask d)
            then [[], ru ''Prosim w otwete ukazatx:''] @ map (\<lambda>x. ([8212] @ js '' '') @ x) (list (qe_ask d)) else [])
         @ (if freight \<and> nonempty_list (qe_hide d)
            then [[], ru ''Ne raskrywatx w perepiske / subpodrqde bez neobhodimosti: '' @ js_join (js ''; '') (list (qe_hide d)) @ js ''.''] else []))"

definition rfq_facts :: "(rat \<Rightarrow> jstr) \<Rightarrow> penv \<Rightarrow> quote_mail \<Rightarrow> jstr" where
  "rfq_facts digits env d =
     js_join [10] (filter (\<lambda>l. l \<noteq> [])
       (if rfq_override d \<noteq> [] then [ru ''Zdrawstwujte!'', [], rfq_override d] @ rfq_end env d
        else [ru ''Zdrawstwujte!'', [], (if rfq_kind d = js ''sourcing''
            then ru ''Prosim predlovenie po wykupu / podboru postaw}ika towara w Kitae (|to ne zapros stawki na perewozku):''
            else ru ''Prosim stawku na perewozku:'')] @ rfq_details digits d @ rfq_end env d))"

subsection \<open>Names of the parties\<close>

text \<open>\<open>replace\<close> with the \<open>g\<close> flag and groups in the replacement; \<open>p\<close> is the text before, reversed.\<close>

function replace_groups :: "bool \<Rightarrow> rx \<Rightarrow> ((nat \<times> jstr) list \<Rightarrow> jstr) \<Rightarrow> jstr \<Rightarrow> jstr \<Rightarrow> jstr" where
  "replace_groups i r rep p s =
     (case rx_find i r p s of
        None \<Rightarrow> s
      | Some (pre, m, cs, post) \<Rightarrow>
          if length post < length s then drop (length p) pre @ rep cs @ replace_groups i r rep (rev m @ rev pre) post else s)"
  by pat_completeness auto
termination by (relation "measure (\<lambda>(i, r, rep, p, s). length s)") auto

declare replace_groups.simps [simp del]

definition party_words :: rx where
  "party_words = alts [lit (ru ''polu~atelx''), lit (ru ''gruzopolu~atelx''), lit (ru ''gruzootprawitelx''), ll ''consignee'', ll ''shipper'', ll ''receiver'',
     lit (ru ''klient''), lit (ru ''zakaz~ik'')]"

definition PARTY_LABEL_RE :: rx where
  "PARTY_LABEL_RE = sq [Wb, Cap 1 party_words, star sp, one (js '':=''), star sp, plus1 (Cls True [(10, 10), (59, 59), (44, 44)])]"

definition receiver_words :: rx where
  "receiver_words = alts [lit (ru ''polu~atelx''), lit (ru ''gruzopolu~atelx''), ll ''consignee'']"

definition PARTY_NAME_RE :: rx where
  "PARTY_NAME_RE = sq [Wb, Cap 1 receiver_words, plus1 sp, opt (one [171, 34]), Cls False [(1040, 1071), (65, 90)],
     rep_to 2 60 (Cls True [(46, 46), (10, 10), (59, 59), (44, 44)])]"

definition scrubRfqPartyLeaks :: "jstr \<Rightarrow> jstr" where
  "scrubRfqPartyLeaks s =
     (let out = replace_groups True PARTY_LABEL_RE (\<lambda>cs. js_or (grp 1 cs) [] @ ru '': [skryto]'') [] s
      in replace_groups True PARTY_NAME_RE (\<lambda>cs. js_or (grp 1 cs) [] @ ru '' [skryto]'') [] out)"

definition llm_switch :: "penv \<Rightarrow> string \<Rightarrow> bool" where
  "llm_switch env name =
     (js_trim (js_toLowerCase (env_or env name (js ''true''))) \<notin> set (map js [''0'', ''false'', ''off'', ''no'']))"

definition mailLlmDraftEnabled :: "penv \<Rightarrow> bool" where
  "mailLlmDraftEnabled env = llm_switch env ''MAIL_LLM_DRAFT''"

definition mailLlmInboundEnabled :: "penv \<Rightarrow> bool" where
  "mailLlmInboundEnabled env = llm_switch env ''MAIL_LLM_INBOUND''"

definition draftRfqBodyWithGpt :: "mail_world \<Rightarrow> penv \<Rightarrow> jstr \<Rightarrow> jstr option \<Rightarrow> jstr \<Rightarrow> jstr option" where
  "draftRfqBodyWithGpt w env factsBody styleHint kind =
     (if \<not> mailLlmDraftEnabled env \<or> openaiApiKey env = [] then None
      else case mw_draft w (openaiModel env FastRole) (take 2500 (js_or styleHint [])) kind (take 5000 factsBody) of
        None \<Rightarrow> None
      | Some content \<Rightarrow>
          let out = scrubRfqPartyLeaks (js_trim content) in if 40 < length out then Some (take 8000 out) else None)"

definition rfq_letter :: "mail_world \<Rightarrow> penv \<Rightarrow> quote_mail \<Rightarrow> letter" where
  "rfq_letter w env d =
     (let facts = rfq_facts (mw_digits w) env d;
          drafted = draftRfqBodyWithGpt w env facts (qe_style d) (if rfq_kind d = js ''cabinet'' then js ''freight'' else rfq_kind d)
      in \<lparr>lt_to = qe_to d, lt_subject = rfq_subject env d, lt_text = scrubRfqPartyLeaks (js_or drafted facts), lt_reply = None\<rparr>)"

text \<open>\<open>t0\<close> is the time of the look at the limit, \<open>t1\<close> and \<open>t2\<close> those around the request for a token.\<close>

definition sendQuoteRequestEmail :: "mail_world \<Rightarrow> penv \<Rightarrow> rat \<Rightarrow> rat \<Rightarrow> rat \<Rightarrow> quote_mail \<Rightarrow> mail_state \<Rightarrow> send_outcome \<times> mail_state" where
  "sendQuoteRequestEmail w env t0 t1 t2 d st =
     (case emailRateOk env t0 st of
        (False, st1) \<Rightarrow> (Email_limited, st1)
      | (True, st1) \<Rightarrow>
          (case transporter w env t1 t2 st1 of
             (t, st2) \<Rightarrow> (hand_over w env t (rfq_letter w env d) (rfq_letter w env d), st2)))"

definition sendClientReplyEmail :: "mail_world \<Rightarrow> penv \<Rightarrow> rat \<Rightarrow> rat \<Rightarrow> rat \<Rightarrow> jstr \<Rightarrow> jstr \<Rightarrow> jstr \<Rightarrow> jstr option \<Rightarrow> mail_state
    \<Rightarrow> send_outcome \<times> mail_state" where
  "sendClientReplyEmail w env t0 t1 t2 addr subject body inReplyTo st =
     (case emailRateOk env t0 st of
        (False, st1) \<Rightarrow> (Email_limited, st1)
      | (True, st1) \<Rightarrow>
          (case transporter w env t1 t2 st1 of
             (t, st2) \<Rightarrow>
               (let l = \<lparr>lt_to = addr, lt_subject = subject, lt_text = js_trim body, lt_reply = None\<rparr>
                in (hand_over w env t l
                      (l\<lparr>lt_subject := (if starts_with subject (js ''Re:'') then subject else js ''Re: '' @ subject),
                         lt_reply := (if js_or inReplyTo [] = [] then None else inReplyTo)\<rparr>), st2))))"

subsection \<open>Addresses\<close>

definition ADDRESS_RE :: rx where
  "ADDRESS_RE =
     (let alnum = [(97, 122), (65, 90), (48, 57)]
      in sq [plus1 (Cls False (alnum @ chars (js ''._%+-''))), ll ''@'', plus1 (Cls False (alnum @ chars (js ''.-''))), ll ''.'',
           Rep True 2 None (Cls False [(97, 122), (65, 90)])])"

definition extractAddress :: "jstr option \<Rightarrow> jstr option" where
  "extractAddress sender =
     (if js_or sender [] = [] then None
      else case rx_exec False ADDRESS_RE (js_or sender []) of None \<Rightarrow> None | Some (_, m, _, _) \<Rightarrow> Some (js_toLowerCase m))"

definition findEmailOnDomain :: "mail_world \<Rightarrow> jstr option \<Rightarrow> jstr option" where
  "findEmailOnDomain w website =
     (let site = js_or website []
      in if site = [] then None
         else case mw_page w (if starts_with site (js ''http'') then site else js ''https://'' @ site) of
           None \<Rightarrow> None
         | Some html \<Rightarrow>
             find (\<lambda>e. \<not> list_ex (js_includes e) (map js [''example.com'', ''sentry.io'', ''wixpress'', ''schema.org'']))
               (map fst (match_all False ADDRESS_RE [] html)))"

subsection \<open>The class of a mail\<close>

datatype mail_kind = Supplier_quote | Supplier_other | Client_mail | Noise_mail

definition mail_kind_of :: "jstr \<Rightarrow> mail_kind option" where
  "mail_kind_of k =
     (if k = js ''supplier_quote'' then Some Supplier_quote else if k = js ''supplier_other'' then Some Supplier_other
      else if k = js ''client'' then Some Client_mail else if k = js ''noise'' then Some Noise_mail else None)"

definition classifyInboundMailWithGpt :: "mail_world \<Rightarrow> penv \<Rightarrow> jstr option \<Rightarrow> jstr option \<Rightarrow> jstr option \<Rightarrow> mail_headers
    \<Rightarrow> bool \<Rightarrow> bool \<Rightarrow> mail_kind option" where
  "classifyInboundMailWithGpt w env sender subject body h hasDealRef hasPrice =
     (let fromAddr = js_or (extractAddress sender) (js_or sender []); subj = js_or subject []; txt = js_or body [];
          isCalc = cs_isCalc (calcRequestScore subj txt None)
      in if preClassifyInboundMail fromAddr subj txt h hasDealRef \<noteq> None then Some Noise_mail
         else if \<not> mailLlmInboundEnabled env \<or> openaiApiKey env = [] then
           (if hasDealRef \<and> hasPrice then Some Supplier_quote else if hasDealRef then Some Supplier_other
            else if isCalc then Some Client_mail else Some Noise_mail)
         else case mw_classify w hasDealRef hasPrice (js_or sender []) subj (take 4000 txt) of
           None \<Rightarrow> None
         | Some k \<Rightarrow>
             (case mail_kind_of k of
                Some Client_mail \<Rightarrow> if \<not> isCalc \<and> \<not> hasDealRef then Some Noise_mail else Some Client_mail
              | r \<Rightarrow> r))"

subsection \<open>The mailbox\<close>

record llm_quote =
  lq_price :: "rat option"
  lq_currency :: "jstr option"
  lq_etaMin :: "rat option"
  lq_etaMax :: "rat option"

record parsed_mail =
  pm_id :: "jstr option"
  pm_from_text :: "jstr option"
  pm_from_address :: "jstr option"
  pm_subject :: "jstr option"
  pm_text :: "jstr option"
  pm_html :: "jstr option"
  pm_headers :: mail_headers

record synced_mail =
  sy_id :: "jstr option"
  sy_from :: "jstr option"
  sy_subject :: jstr
  sy_text :: jstr
  sy_deal :: "jstr option"
  sy_price :: "rat option"
  sy_currency :: "jstr option"
  sy_etaMin :: "rat option"
  sy_etaMax :: "rat option"
  sy_llm :: bool
  sy_headers :: mail_headers

definition currency_code :: "currency \<Rightarrow> jstr" where
  "currency_code c = js (case c of USD \<Rightarrow> ''USD'' | EUR \<Rightarrow> ''EUR'' | CNY \<Rightarrow> ''CNY'' | RUB \<Rightarrow> ''RUB'')"

definition nullish :: "'a option \<Rightarrow> 'a option \<Rightarrow> 'a option" where
  "nullish a b = (case a of None \<Rightarrow> b | Some x \<Rightarrow> Some x)"

text \<open>\<open>llm\<close> is the answer of the model to subject and text: \<open>None\<close> when it does not answer or answers null.\<close>

definition extractQuoteWithLlm :: "penv \<Rightarrow> (jstr \<Rightarrow> jstr \<Rightarrow> jstr \<Rightarrow> llm_quote option) \<Rightarrow> jstr \<Rightarrow> jstr \<Rightarrow> llm_quote option" where
  "extractQuoteWithLlm env llm subject body =
     (if openaiApiKey env = [] then None else llm (openaiModel env FastRole) subject (take 6000 body))"

definition kept_headers :: "mail_headers \<Rightarrow> mail_headers" where
  "kept_headers h =
     (\<lambda>k. if k \<in> set (map js [''list-id'', ''list-unsubscribe'', ''precedence'', ''x-mailer'', ''x-campaign'', ''auto-submitted'']) then h k else None)"

definition synced :: "penv \<Rightarrow> (jstr \<Rightarrow> jstr \<Rightarrow> jstr \<Rightarrow> llm_quote option) \<Rightarrow> parsed_mail \<Rightarrow> synced_mail" where
  "synced env llm m =
     (let subject = js_or (pm_subject m) []; body = js_or (pm_text m) [];
          q = parseQuoteFromMail (Some subject) (Some body) (pm_html m);
          needLlm = (env_get env ''MAIL_LLM_PARSE'' = Some (js ''true'') \<and> (mq_price q = None \<or> mq_etaMin q = None));
          a = (if needLlm then extractQuoteWithLlm env llm subject (js_or (Some body) (js_or (pm_html m) [])) else None);
          a_price = Option.bind a lq_price; a_min = Option.bind a lq_etaMin;
          by_llm = (mq_price q = None \<and> a_price \<noteq> None); eta_llm = (mq_etaMin q = None \<and> a_min \<noteq> None);
          cur = map_option currency_code (mq_currency q)
      in \<lparr>sy_id = pm_id m, sy_from = (case pm_from_text m of None \<Rightarrow> pm_from_address m | Some t \<Rightarrow> Some t), sy_subject = subject,
          sy_text = take 8000 body, sy_deal = mq_deal q,
          sy_price = (if by_llm then a_price else mq_price q),
          sy_currency = (if by_llm then (case Option.bind a lq_currency of None \<Rightarrow> cur | Some c \<Rightarrow> if c = [] then cur else Some c) else cur),
          sy_etaMin = (if eta_llm then a_min else mq_etaMin q),
          sy_etaMax = (if eta_llm then nullish (Option.bind a lq_etaMax) a_min else mq_etaMax q),
          sy_llm = by_llm, sy_headers = kept_headers (pm_headers m)\<rparr>)"

text \<open>
  The IMAP server: whether a connection succeeds, the unseen messages (\<open>None\<close> when the lock or the search fails), what
  fetching one gives, and whether it can be flagged.
\<close>

datatype fetched = Fetch_throws | No_source | Fetched parsed_mail

record imap_world =
  iw_connect :: "mail_try \<Rightarrow> bool"
  iw_unseen :: "nat list option"
  iw_fetch :: "nat \<Rightarrow> fetched"
  iw_flag :: "nat \<Rightarrow> bool"

text \<open>What the loop hands on, and the messages it flagged as seen.\<close>

fun sync_loop :: "(parsed_mail \<Rightarrow> synced_mail) \<Rightarrow> imap_world \<Rightarrow> nat list \<Rightarrow> synced_mail list \<times> nat list" where
  "sync_loop f iw [] = ([], [])"
| "sync_loop f iw (u # us) =
     (case iw_fetch iw u of
        Fetch_throws \<Rightarrow> ([], [])
      | No_source \<Rightarrow> sync_loop f iw us
      | Fetched m \<Rightarrow>
          if iw_flag iw u then (case sync_loop f iw us of (ms, fs) \<Rightarrow> (f m # ms, u # fs)) else ([f m], []))"

definition last_n :: "nat \<Rightarrow> 'a list \<Rightarrow> 'a list" where
  "last_n n xs = (if n = 0 then xs else drop (length xs - n) xs)"

definition imap_tries :: "mail_endpoints \<Rightarrow> jstr option \<Rightarrow> mail_try list" where
  "imap_tries ep proxy =
     map (\<lambda>p. \<lparr>mt_host = me_imapHost ep, mt_port = me_imapPort ep, mt_secure = me_imapSecure ep, mt_auth = smtpAuth ep, mt_proxy = p\<rparr>)
       (if js_or proxy [] \<noteq> [] then [proxy, None] else [None])"

text \<open>\<open>None\<close>: an exception before the connection. The messages handed on and those flagged.\<close>

definition syncInboundMail :: "mail_world \<Rightarrow> penv \<Rightarrow> (jstr \<Rightarrow> jstr \<Rightarrow> jstr \<Rightarrow> llm_quote option) \<Rightarrow> imap_world \<Rightarrow> nat \<Rightarrow> rat \<Rightarrow> rat
    \<Rightarrow> mail_state \<Rightarrow> (synced_mail list \<times> nat list) option \<times> mail_state" where
  "syncInboundMail w env llm iw limit t1 t2 st =
     (case resolveMailEndpoints (mw_token w) env t1 t2 (mst_token st) of
        (None, c) \<Rightarrow> (None, st\<lparr>mst_token := c\<rparr>)
      | (Some r, c) \<Rightarrow>
          ((case r of None \<Rightarrow> Some ([], [])
            | Some ep \<Rightarrow>
                if me_imapHost ep = [] \<or> env_get env ''MAIL_SYNC_ENABLED'' = Some (js ''false'') then Some ([], [])
                else case mailProxyUrl env of None \<Rightarrow> None
                  | Some proxy \<Rightarrow>
                      if \<not> list_ex (iw_connect iw) (imap_tries ep proxy) then Some ([], [])
                      else case iw_unseen iw of None \<Rightarrow> Some ([], [])
                        | Some uids \<Rightarrow> Some (sync_loop (synced env llm) iw (last_n limit uids))),
           st\<lparr>mst_token := c\<rparr>))"

subsection \<open>What is hidden\<close>

text \<open>No ASCII word character stands directly before a unit outside ASCII.\<close>

fun unglued :: "jstr \<Rightarrow> bool" where
  "unglued (c # d # s) = ((js_word c \<longrightarrow> d < 128) \<and> unglued (d # s))"
| "unglued s = True"

definition latin_party :: rx where
  "latin_party = alts [ll ''consignee'', ll ''shipper'', ll ''receiver'']"

lemma unglued_at: "unglued (a @ b) \<Longrightarrow> at_word (rev a) \<Longrightarrow> b \<noteq> [] \<Longrightarrow> hd b < 128"
proof (induction a)
  case (Cons c a)
  have w: "at_word (rev (c # d # r)) = at_word (rev (d # r))" for d r by (cases r rule: rev_cases) (auto simp: at_word_def)
  show ?case
  proof (cases a)
    case Nil
    then show ?thesis using Cons.prems by (cases b) (auto simp: at_word_def)
  next
    case (Cons d r)
    then show ?thesis using Cons.IH Cons.prems w by simp
  qed
qed (simp add: at_word_def)

lemma upper_of_ascii: "c < 128 \<Longrightarrow> js_upper_unit c < 128 \<and> js_lower_unit c < 128"
  unfolding js_upper_unit_def js_lower_unit_def by auto

lemma cyrillic_start:
  assumes "((p, b), y) \<in> rx_lang True (lit (c # w))" "128 \<le> c" shows "b \<noteq> [] \<and> 128 \<le> hd b"
proof -
  have l: "lit (c # w) = Sq (Cls False [(c, c)]) (lit w)" by (simp add: lit_def)
  obtain d t where "b = d # t" "cls_has True [(c, c)] d" using assms(1) unfolding l lang_cls_sq by auto
  then show ?thesis using upper_of_ascii[of d] assms(2) by (force simp: cls_has_def in_ranges_def)
qed

lemma party_start:
  assumes "unglued (a @ b)" "\<not> rx_test True latin_party (a @ b)" "at_word (rev a) \<noteq> at_word b"
    "r \<in> {lit (c # w), ll s}" "128 \<le> c" "s \<in> {''consignee'', ''shipper'', ''receiver''}"
  shows "((rev a, b), y) \<notin> rx_lang True r"
proof
  assume m: "((rev a, b), y) \<in> rx_lang True r"
  from assms(4) consider "r = lit (c # w)" | "r = ll s" by blast
  then show False
  proof cases
    case 1
    then have h: "b \<noteq> []" "128 \<le> hd b" using cyrillic_start[OF _ assms(5)] m by auto
    then have "\<not> at_word b" by (cases b) (auto simp: at_word_def js_word_def js_letter_def js_digit_def)
    then show False using unglued_at[OF assms(1)] assms(3) h by auto
  next
    case 2
    then have "rx_test True r (a @ b)" using m rx_test_iff[of r True "a @ b"] by (simp only: ll_def rx_ok_lit) blast
    moreover have "r \<in> {ll ''consignee'', ll ''shipper'', ll ''receiver''}" using 2 assms(6) by blast
    moreover have "rx_test True latin_party (a @ b) \<longleftrightarrow> (\<exists>r \<in> {ll ''consignee'', ll ''shipper'', ll ''receiver''}. rx_test True r (a @ b))"
      unfolding latin_party_def by (subst rx_test_alts) (simp_all add: ll_def)
    ultimately show False using assms(2) by blast
  qed
qed

lemma koi_high: "97 \<le> c \<and> c \<le> 126 \<Longrightarrow> 128 \<le> koi_unit c"
proof -
  assume c: "97 \<le> c \<and> c \<le> 126"
  have "\<forall>k < 30. 128 \<le> koi_lower ! k" by code_simp
  moreover have "c - 97 < 30" using c by linarith
  ultimately show ?thesis using c by (simp add: koi_unit_def)
qed

lemma no_party_match:
  assumes "unglued s" "\<not> rx_test True latin_party s" "rx_ok r"
    "\<forall>w \<in> set ws. (\<exists>c v. w = lit (c # v) \<and> 128 \<le> c) \<or> (\<exists>u \<in> {''consignee'', ''shipper'', ''receiver''}. w = ll u)"
  shows "\<not> rx_test True (Sq Wb (Sq (Cap 1 (alts ws)) r)) s"
proof
  assume t: "rx_test True (Sq Wb (Sq (Cap 1 (alts ws)) r)) s"
  have ok: "list_all rx_ok ws" using assms(4) by (auto simp: list_all_iff ll_def)
  then have "rx_ok (Sq Wb (Sq (Cap 1 (alts ws)) r))" using assms(3) by simp
  from t[unfolded rx_test_iff[OF this]] obtain a b y where m: "s = a @ b" "((rev a, b), y) \<in> rx_lang True (Sq Wb (Sq (Cap 1 (alts ws)) r))"
    by blast
  then have w: "at_word (rev a) \<noteq> at_word b" by auto
  obtain z w where z: "w \<in> set ws" "((rev a, b), z) \<in> rx_lang True w" using m(2) by (auto simp: lang_alts)
  from z(1) assms(4) consider c v where "w = lit (c # v)" "128 \<le> c" | u where "u \<in> {''consignee'', ''shipper'', ''receiver''}" "w = ll u" by blast
  then show False
  proof cases
    case 1
    then show False using party_start[OF assms(1,2)[unfolded m(1)] w, of w c v "''shipper''" z] z(2) by blast
  next
    case 2
    then show False using party_start[OF assms(1,2)[unfolded m(1)] w, of w 1087 "[]" u z] z(2) by simp
  qed
qed

lemma replace_groups_none: "\<not> rx_test i r s \<Longrightarrow> replace_groups i r f [] s = s"
  by (subst replace_groups.simps) (simp add: rx_test_def rx_exec_def split: option.split)

text \<open>A text without Latin labels whose Russian words are not glued to Latin ones is left as it is.\<close>

lemma scrub_unchanged:
  assumes "unglued s" "\<not> rx_test True latin_party s" shows "scrubRfqPartyLeaks s = s"
proof -
  have c: "\<exists>c. (\<exists>v. lit (ru (x # xs)) = lit (c # v)) \<and> 128 \<le> c" if "(97 :: nat) \<le> of_char x \<and> of_char x \<le> (126 :: nat)" for x :: char and xs
    by (rule exI[of _ "koi_unit (of_char x)"], intro conjI exI[of _ "ru xs"]) (use koi_high[OF that] in \<open>simp_all add: ru_def js_def\<close>)
  have "\<not> rx_test True PARTY_LABEL_RE s"
    unfolding PARTY_LABEL_RE_def sq.simps party_words_def
    by (rule no_party_match[OF assms]) (simp_all add: star_def sp_def one_def plus1_def c)
  moreover have "\<not> rx_test True PARTY_NAME_RE s"
    unfolding PARTY_NAME_RE_def sq.simps receiver_words_def
    by (rule no_party_match[OF assms]) (simp_all add: sp_def one_def plus1_def opt_def rep_to_def c)
  ultimately show ?thesis by (simp add: scrubRfqPartyLeaks_def replace_groups_none)
qed

lemma label_needs_letter:
  assumes "rx_test True (ll (x # xs)) s" "js_letter (of_char x)"
  shows "\<exists>d \<in> set s. d < 128 \<and> js_letter d"
proof -
  let ?c = "of_char x :: nat"
  have l: "ll (x # xs) = Sq (Cls False [(?c, ?c)]) (lit (js xs))" by (simp add: ll_def lit_def js_def)
  obtain a b y where "s = a @ b" "((rev a, b), y) \<in> rx_lang True (ll (x # xs))"
    using assms(1) rx_test_iff[of "ll (x # xs)" True s] by (auto simp: ll_def)
  then obtain d t where "s = a @ d # t" "cls_has True [(?c, ?c)] d" unfolding l lang_cls_sq by auto
  then have d: "d \<in> set s" "cls_has True [(?c, ?c)] d" by auto
  have "?c < 128" using assms(2) by (auto simp: js_letter_def)
  then have "d < 128 \<and> js_letter d"
    using d(2) assms(2) lower_ascii[of d] upper_ascii[of d] by (auto simp: cls_has_def in_ranges_def js_letter_def)
  then show ?thesis using d(1) by blast
qed

lemma no_letter_no_label:
  assumes "list_all (\<lambda>d. 128 \<le> d \<or> \<not> js_letter d) s" shows "\<not> rx_test True latin_party s"
proof
  assume "rx_test True latin_party s"
  moreover have "list_all rx_ok [ll ''consignee'', ll ''shipper'', ll ''receiver'']" by (simp add: ll_def)
  ultimately obtain r where "r \<in> set [ll ''consignee'', ll ''shipper'', ll ''receiver'']" "rx_test True r s"
    unfolding latin_party_def using rx_test_alts by blast
  then have "\<exists>d \<in> set s. d < 128 \<and> js_letter d" using label_needs_letter by (force simp: js_letter_def)
  then show False using assms by (auto simp: list_all_iff)
qed

lemma facts_hold_override:
  assumes "rfq_override d \<noteq> []" shows "js_includes (rfq_facts digits env d) (rfq_override d)"
proof -
  have "\<exists>pre post. rfq_facts digits env d = js_join [10] (pre @ rfq_override d # post)"
    using assms by (intro exI[of _ "[ru ''Zdrawstwujte!'']"] exI[of _ "filter (\<lambda>l. l \<noteq> []) (rfq_end env d)"]) (simp add: rfq_facts_def ru_def js_def)
  then show ?thesis using join_after unfolding js_includes_iff by metis
qed

lemma sent_letter:
  assumes "sendQuoteRequestEmail w env t0 t1 t2 d st = (Letter_sent a sender l, st')" shows "l = rfq_letter w env d"
  using assms by (auto simp: sendQuoteRequestEmail_def hand_over_def split: prod.splits bool.splits transport.splits if_splits)

text \<open>
  C25. A receiver named in Russian goes out to the supplier. When a manager's text with a line such as
  \<open>Gruzopoluchatel: OOO Romashka\<close> (in Cyrillic) is sent as a request, without the language model, and the letter holds
  neither a Latin label nor a Latin word glued to a Russian one, the text reaches the supplier word for word: the
  boundary in front of the Russian labels never holds there, so the filter that is to hide the parties hides nothing.
\<close>

theorem russian_party_goes_out:
  assumes "sendQuoteRequestEmail w env t0 t1 t2 d st = (Letter_sent a sender l, st')" "rfq_override d \<noteq> []"
    "\<not> mailLlmDraftEnabled env \<or> openaiApiKey env = []"
    "unglued (rfq_facts (mw_digits w) env d)" "\<not> rx_test True latin_party (rfq_facts (mw_digits w) env d)"
  shows "js_includes (lt_text l) (rfq_override d)"
proof -
  have "draftRfqBodyWithGpt w env f s k = None" for f s k using assms(3) by (auto simp: draftRfqBodyWithGpt_def)
  then have "lt_text l = scrubRfqPartyLeaks (rfq_facts (mw_digits w) env d)"
    unfolding sent_letter[OF assms(1)] rfq_letter_def by (simp add: Let_def js_or_def)
  then show ?thesis using scrub_unchanged[OF assms(4,5)] facts_hold_override[OF assms(2)] by simp
qed

definition mail_demo_world :: mail_world where
  "mail_demo_world = \<lparr>mw_token = \<lambda>_ _. Token_refused, mw_verify = \<lambda>_. True, mw_deliver = \<lambda>_ _ _. True, mw_draft = \<lambda>_ _ _ _. None,
     mw_classify = \<lambda>_ _ _ _ _. None, mw_page = \<lambda>_. None, mw_digits = \<lambda>_. []\<rparr>"

definition mail_demo_env :: penv where
  "mail_demo_env = [(js ''SMTP_HOST'', js ''h''), (js ''SMTP_USER'', js ''u''), (js ''SMTP_PASS'', js ''p'')]"

definition mail_demo_rfq :: quote_mail where
  "mail_demo_rfq = \<lparr>qe_to = js ''a@b.ru'', qe_deal = None, qe_subject = None, qe_route = None, qe_cargo = None, qe_weight = None,
     qe_volume = None, qe_ready = None, qe_corridor = None, qe_mode = None, qe_class = None, qe_origin_incoterm = None,
     qe_dest_incoterm = None, qe_incoterms = None, qe_services = None, qe_kind = None, qe_override = None,
     qe_scope = None, qe_ask = None, qe_hide = None, qe_style = None, qe_website = None\<rparr>"

definition mail_demo_state :: mail_state where "mail_demo_state = \<lparr>mst_token = None, mst_sent = []\<rparr>"

lemma mail_demo_get: "env_get mail_demo_env n =
    (if n = ''SMTP_HOST'' then Some (js ''h'') else if n = ''SMTP_USER'' then Some (js ''u'') else if n = ''SMTP_PASS'' then Some (js ''p'') else None)"
proof -
  have "inj js" unfolding js_def by (intro inj_mapI) (simp add: inj_def)
  then have "js n = js m \<longleftrightarrow> n = m" for m by (simp add: inj_eq)
  then show ?thesis by (simp add: env_get_def mail_demo_env_def)
qed

lemma mail_demo_sent:
  "\<exists>a sender st'. sendQuoteRequestEmail mail_demo_world mail_demo_env 0 0 0 d mail_demo_state
     = (Letter_sent a sender (rfq_letter mail_demo_world mail_demo_env d), st')"
proof -
  have r: "fst (emailRateOk mail_demo_env 0 mail_demo_state)"
    by (simp add: emailRateOk_def mail_demo_get mail_demo_state_def env_num_def num_le_def)
  have "\<exists>ep a. fst (transporter mail_demo_world mail_demo_env 0 0 s) = Transport ep a" for s
    by (simp add: transporter_def resolveMailEndpoints_def endpoints_of_def mail_demo_get mail_demo_world_def env_or_def Let_def
        mail_user_def mail_pass_def mailProxyUrl_def smtp_tries_def smtp_ports_def js_text_eval js_or_def)
  then obtain ep a where t: "fst (transporter mail_demo_world mail_demo_env 0 0 (snd (emailRateOk mail_demo_env 0 mail_demo_state))) = Transport ep a"
    by blast
  obtain st1 where e: "emailRateOk mail_demo_env 0 mail_demo_state = (True, st1)" using r by (cases "emailRateOk mail_demo_env 0 mail_demo_state") simp
  show ?thesis
    by (intro exI[of _ a] exI[of _ "me_from ep"] exI[of _ "snd (transporter mail_demo_world mail_demo_env 0 0 (snd (emailRateOk mail_demo_env 0 mail_demo_state)))"])
      (use t in \<open>simp add: sendQuoteRequestEmail_def e hand_over_def case_prod_beta\<close>, simp add: mail_demo_world_def)
qed

theorem russian_party_goes_out_witness:
  "\<exists>a sender l st'. sendQuoteRequestEmail mail_demo_world mail_demo_env 0 0 0
      (mail_demo_rfq\<lparr>qe_override := Some (ru ''Polu~atelx: Roma{ka'')\<rparr>) mail_demo_state = (Letter_sent a sender l, st')
    \<and> js_includes (lt_text l) (ru ''Polu~atelx: Roma{ka'')"
proof -
  let ?d = "mail_demo_rfq\<lparr>qe_override := Some (ru ''Polu~atelx: Roma{ka'')\<rparr>"
  have o: "rfq_override ?d = ru ''Polu~atelx: Roma{ka''" by (simp add: rfq_override_def js_or_def ru_eval js_text_eval)
  have c: "companyDisplayName mail_demo_env (loadCompanyFromEnv mail_demo_env) = ru ''VD Transinwest''"
    unfolding companyDisplayName_def loaded_names company_env_def
    by (simp add: mail_demo_get js_or_def js_text_eval ru_eval)
  have f: "rfq_facts digits mail_demo_env ?d = js_join [10] [ru ''Zdrawstwujte!'', ru ''Polu~atelx: Roma{ka'',
      ru ''Nuvny: cena, srok, dop. sbory, srok dejstwiq stawki.'', ru ''S uwaveniem,'', ru ''VD Transinwest'']" for digits
    unfolding rfq_facts_def o rfq_end_def c
    by (simp add: rfq_closer_def rfq_kind_def nonempty_list_def mail_demo_rfq_def labelled_def js_or_def ru_def js_def)
  have u: "unglued (rfq_facts digits mail_demo_env ?d)" for digits unfolding f by (simp add: ru_eval js_word_def js_letter_def js_digit_def)
  have n: "\<not> rx_test True latin_party (rfq_facts digits mail_demo_env ?d)" for digits
    unfolding f by (rule no_letter_no_label) (simp add: ru_eval js_letter_def)
  have k: "openaiApiKey mail_demo_env = []" by (simp add: openaiApiKey_def env_trimmed_def mail_demo_get js_text_eval)
  obtain a sender st' where s: "sendQuoteRequestEmail mail_demo_world mail_demo_env 0 0 0 ?d mail_demo_state
     = (Letter_sent a sender (rfq_letter mail_demo_world mail_demo_env ?d), st')" using mail_demo_sent by blast
  have "rfq_override ?d \<noteq> []" unfolding o by (simp add: ru_def js_def)
  from russian_party_goes_out[OF s this disjI2[OF k] u n] show ?thesis unfolding o using s by blast
qed

subsection \<open>The deal an answer is about\<close>

primrec cap_free :: "rx \<Rightarrow> bool" where
  "cap_free Emp = True"
| "cap_free (Cls neg rs) = True"
| "cap_free (Sq a b) = (cap_free a \<and> cap_free b)"
| "cap_free (Alt a b) = (cap_free a \<and> cap_free b)"
| "cap_free (Rep g lo hi a) = cap_free a"
| "cap_free (Cap n a) = False"
| "cap_free Bol = True"
| "cap_free Eol = True"
| "cap_free Wb = True"
| "cap_free Mbol = True"
| "cap_free Meol = True"

lemma reps_keep:
  assumes "\<And>st x. x \<in> set (f st) \<Longrightarrow> snd (snd x) = snd (snd st)"
  shows "x \<in> set (reps f g k lo hi st) \<Longrightarrow> snd (snd x) = snd (snd st)"
proof (induction k arbitrary: lo hi st x)
  case (Suc k)
  have "x = st \<or> (\<exists>z \<in> set (f st). \<exists>lo' hi'. x \<in> set (reps f g k lo' hi' z))"
    using Suc.prems by (auto simp: Let_def split: if_split_asm)
  then show ?case using Suc.IH assms by metis
qed simp

lemma runs_keep_groups: "cap_free r \<Longrightarrow> x \<in> set (rx_runs i r st) \<Longrightarrow> snd (snd x) = snd (snd st)"
proof (induction r arbitrary: st x)
  case (Rep g lo hi a)
  then have "\<And>st x. x \<in> set (rx_runs i a st) \<Longrightarrow> snd (snd x) = snd (snd st)" by simp
  from reps_keep[of "rx_runs i a", OF this] show ?case using Rep.prems(2) unfolding rx_runs.simps by blast
next
  case (Sq a b)
  from Sq.prems(2) obtain z where "z \<in> set (rx_runs i a st)" "x \<in> set (rx_runs i b z)" by auto
  then show ?case using Sq.IH Sq.prems(1) by (metis cap_free.simps(3))
qed (auto split: prod.splits list.splits if_splits)

lemma rx_find_run:
  "rx_find i r p t = Some (pre, m, cs, post) \<Longrightarrow>
   \<exists>a u q. pre = rev p @ a \<and> t = a @ u \<and> (q, post, cs) \<in> set (rx_runs i r (rev pre, u, []))"
proof (induction t arbitrary: p)
  case Nil
  then show ?case by (auto simp: rx_find_Nil split: list.splits)
next
  case (Cons c t)
  show ?case
  proof (cases "rx_runs i r (p, c # t, [])")
    case Nil
    then have "rx_find i r (c # p) t = Some (pre, m, cs, post)" using Cons.prems by (simp add: rx_find_Cons)
    from Cons.IH[OF this] obtain a u q where "pre = rev (c # p) @ a" "t = a @ u" "(q, post, cs) \<in> set (rx_runs i r (rev pre, u, []))" by blast
    then show ?thesis by (intro exI[of _ "c # a"] exI[of _ u] exI[of _ q]) simp
  next
    case (Cons x xs)
    then show ?thesis using \<open>rx_find i r p (c # t) = Some (pre, m, cs, post)\<close>
      by (cases x) (auto simp: rx_find_Cons)
  qed
qed

lemma run_sound: "rx_ok r \<Longrightarrow> x \<in> set (rx_runs i r st) \<Longrightarrow> (rpos_of st, rpos_of x) \<in> rx_lang i r"
  using rx_runs_sound_complete[of r i st] by blast

text \<open>The group of an expression that ends with it holds the end of the match.\<close>

lemma last_group:
  assumes ok: "rx_ok A" "rx_ok B" "rx_ok U" and c: "cap_free A" "cap_free B" "cap_free U"
    and e: "rx_exec i (Sq A (Sq B (Cap 1 U))) s = Some (pre, m, cs, post)"
  shows "\<exists>w1 w2 w3. m = w1 @ w2 @ w3 \<and> grp 1 cs = Some w3 \<and> ((rev pre, m @ post), (rev w1 @ rev pre, w2 @ w3 @ post)) \<in> rx_lang i A
    \<and> ((rev w1 @ rev pre, w2 @ w3 @ post), (rev w2 @ rev w1 @ rev pre, w3 @ post)) \<in> rx_lang i B
    \<and> ((rev w2 @ rev w1 @ rev pre, w3 @ post), (rev w3 @ rev w2 @ rev w1 @ rev pre, post)) \<in> rx_lang i U"
proof -
  have s: "s = pre @ m @ post" using rx_exec_sound[OF _ e] ok by simp
  obtain u q where "s = pre @ u" "(q, post, cs) \<in> set (rx_runs i (Sq A (Sq B (Cap 1 U))) (rev pre, u, []))"
    using rx_find_run[OF e[unfolded rx_exec_def]] by (simp only: rev.simps(1) append_Nil) blast
  then have "(q, post, cs) \<in> set (rx_runs i (Sq A (Sq B (Cap 1 U))) (rev pre, m @ post, []))" using s by simp
  then obtain x y z where x: "x \<in> set (rx_runs i A (rev pre, m @ post, []))" and y: "y \<in> set (rx_runs i B x)"
    and z: "z \<in> set (rx_runs i U y)" and r: "(q, post, cs) = (fst z, fst (snd z), (1, take (length (fst (snd y)) - length (fst (snd z))) (fst (snd y))) # snd (snd z))"
    by (auto split: prod.splits)
  have k: "snd (snd z) = []" using runs_keep_groups[OF c(1) x] runs_keep_groups[OF c(2) y] runs_keep_groups[OF c(3) z] by simp
  have l: "((rev pre, m @ post), rpos_of x) \<in> rx_lang i A" "(rpos_of x, rpos_of y) \<in> rx_lang i B" "(rpos_of y, rpos_of z) \<in> rx_lang i U"
    using run_sound[OF ok(1) x] run_sound[OF ok(2) y] run_sound[OF ok(3) z] by (simp_all add: rpos_of_def)
  obtain px tx py ty where xy: "rpos_of x = (px, tx)" "rpos_of y = (py, ty)" "rpos_of z = (q, post)" "fst (snd y) = ty"
    using r by (cases x; cases y; cases z) (auto simp: rpos_of_def)
  obtain w1 w2 w3 where w: "m @ post = w1 @ tx" "px = rev w1 @ rev pre" "tx = w2 @ ty" "py = rev w2 @ px" "ty = w3 @ post" "q = rev w3 @ py"
    using rx_lang_suffix l unfolding xy by metis
  have "cs = [(1, w3)]" using r k xy(4) w(5) by auto
  then show ?thesis using l w unfolding xy by (intro exI[of _ w1] exI[of _ w2] exI[of _ w3]) (auto simp: grp_def)
qed

text \<open>A reference is read where it stands when the text before it holds none.\<close>

lemma ref_parts: "REF_RE = Sq (ll ''Ref:'') (Sq (star sp) (Cap 1 uuid_rx))"
  by (simp add: REF_RE_def uuid_rx_def QuoteParse.hexes_def hex_n_def QuoteParse.hexd_def)

lemma ref_word: "((p, t), (q, u)) \<in> rx_lang True (ll ''Ref:'') \<Longrightarrow> \<exists>a b c. t = a # b # c # 58 # u \<and> a \<noteq> 58 \<and> b \<noteq> 58 \<and> c \<noteq> 58"
proof -
  assume "((p, t), (q, u)) \<in> rx_lang True (ll ''Ref:'')"
  then obtain a b c d where t: "t = a # b # c # d # u" and m: "cls_has True [(82, 82)] a" "cls_has True [(101, 101)] b"
      "cls_has True [(102, 102)] c" "cls_has True [(58, 58)] d"
    by (auto simp: ll_def lit_def js_def)
  moreover have "d = 58" using m(4) lower_ascii[of d] upper_ascii[of d] by (auto simp: cls_has_def in_ranges_def)
  moreover have "\<not> cls_has True [(x, x)] 58" if "x \<noteq> 58" for x using that by (simp add: cls_has_def in_ranges_def js_lower_unit_def js_upper_unit_def)
  ultimately show ?thesis by (intro exI[of _ a] exI[of _ b] exI[of _ c]) auto
qed

lemma uuid_len: "((p, w @ u), (q, u)) \<in> rx_lang True uuid_rx \<Longrightarrow> length w = 36 \<and> w \<noteq> [] \<and> cls_has True hex_ranges (hd w)"
  unfolding lang_uuid by (auto simp: StaffCopy.hexes_def) (metis Nil_is_append_conv hd_append2 hd_in_set length_0_conv zero_neq_numeral)+

lemma ref_cap_free: "cap_free (ll ''Ref:'')" "cap_free (star sp)" "cap_free uuid_rx"
  by (simp_all add: ll_def lit_def js_def star_def sp_def uuid_rx_def hex_n_def rep_to_def)

lemma lit_any_tail: "((p, w @ u), (rev w @ p, u)) \<in> rx_lang i (lit s) \<Longrightarrow> ((p, w @ v), (rev w @ p, v)) \<in> rx_lang i (lit s)"
proof (induction s arbitrary: p w)
  case Nil
  then show ?case by (simp add: lit_def)
next
  case (Cons c s)
  have l: "lit (c # s) = Sq (Cls False [(c, c)]) (lit s)" by (simp add: lit_def)
  obtain d t where t: "w @ u = d # t" "cls_has i [(c, c)] d" "((d # p, t), (rev w @ p, u)) \<in> rx_lang i (lit s)"
    using Cons.prems unfolding l lang_cls_sq by auto
  obtain m where m: "t = m @ u" "rev w @ p = rev m @ d # p" using rx_lang_suffix[OF t(3)] by blast
  then have w: "w = d # m" using t(1) by simp
  show ?case using Cons.IH[of "d # p" m] t(2,3) m unfolding l lang_cls_sq w by auto
qed

lemma space_class: "cls_has True space_ranges 32"
  by (simp add: cls_has_def in_ranges_def space_ranges_def)

lemma hex_not_space:
  assumes "cls_has True space_ranges c" shows "\<not> cls_has True hex_ranges c"
proof
  assume h: "cls_has True hex_ranges c"
  then have w: "48 \<le> c \<and> c \<le> 57 \<or> 65 \<le> c \<and> c \<le> 70 \<or> 97 \<le> c \<and> c \<le> 102"
    using lower_ascii[of c] upper_ascii[of c] by (auto simp: cls_has_def in_ranges_def hex_ranges_def)
  then have "c < 128" by auto
  then have "js_lower_unit c = c \<or> js_lower_unit c = c + 32" "js_upper_unit c = c \<or> js_upper_unit c + 32 = c"
    using lower_ascii[of c] upper_ascii[of c] upper_of_ascii[of c] by auto
  then show False using assms w by (auto simp: cls_has_def in_ranges_def space_ranges_def)
qed

lemma ref_found:
  assumes id: "uuid_text d" and a: "\<not> rx_test True (ll ''Ref:'') a"
  shows "\<exists>pre m cs post. rx_exec True REF_RE (a @ js ''Ref: '' @ d @ b) = Some (pre, m, cs, post) \<and> grp 1 cs = Some d"
proof -
  let ?s = "a @ js ''Ref: '' @ d @ b"
  have ok: "rx_ok (ll ''Ref:'')" "rx_ok (star sp)" "rx_ok uuid_rx" "rx_ok REF_RE"
    by (simp_all add: ll_def star_def sp_def uuid_rx_def hex_n_def rep_to_def ref_parts)
  obtain x y z v u where p: "StaffCopy.hexes 8 x" "StaffCopy.hexes 4 y" "StaffCopy.hexes 4 z" "StaffCopy.hexes 4 v" "StaffCopy.hexes 12 u"
      "d = x @ 45 # y @ 45 # z @ 45 # v @ 45 # u"
    using uuid_parts[OF id] by blast
  have len: "length d = 36" using id by (simp add: uuid_text_def)
  have here: "((rev a @ [], js ''Ref: '' @ d @ b), (rev d @ rev (js ''Ref: '') @ rev a, b)) \<in> rx_lang True REF_RE"
  proof -
    have "((rev a, js ''Ref:'' @ 32 # d @ b), (rev (js ''Ref:'') @ rev a, 32 # d @ b)) \<in> rx_lang True (ll ''Ref:'')"
      unfolding ll_def by (rule lang_lit_self)
    moreover have "((q, 32 # d @ b), (32 # q, d @ b)) \<in> rx_lang True (star sp)" for q
    proof -
      have "((q, 32 # d @ b), (32 # q, d @ b)) \<in> rx_lang True (Cls False space_ranges) ^^ 1"
        unfolding lang_cls_pow_iff by (intro exI[of _ "[32]"]) (simp add: cls_has_def in_ranges_def space_ranges_def)
      then show ?thesis unfolding star_def sp_def rx_lang.simps(5) by blast
    qed
    moreover have "((q, d @ b), (rev d @ q, b)) \<in> rx_lang True (Cap 1 uuid_rx)" for q
      unfolding rx_lang.simps lang_uuid p(6)
      by (intro exI[of _ x] exI[of _ y] exI[of _ z] exI[of _ v] exI[of _ u]) (simp add: p(1-5))
    ultimately show ?thesis unfolding ref_parts rx_lang.simps(3) by (fastforce simp: js_def)
  qed
  have "rx_find True REF_RE [] ?s \<noteq> None" using here rx_find_iff[OF ok(4)] by fastforce
  then obtain pre m cs post where f: "rx_find True REF_RE [] ?s = Some (pre, m, cs, post)" by auto
  have le: "length pre \<le> length a" using rx_find_leftmost[OF ok(4) here f] by simp
  from f have e: "rx_exec True (Sq (ll ''Ref:'') (Sq (star sp) (Cap 1 uuid_rx))) ?s = Some (pre, m, cs, post)" by (simp add: rx_exec_def ref_parts)
  have s: "?s = pre @ m @ post" using rx_exec_sound[OF ok(4)] e by (simp add: ref_parts)
  obtain w1 w2 w3 where w: "m = w1 @ w2 @ w3" "grp 1 cs = Some w3"
      "((rev pre, m @ post), (rev w1 @ rev pre, w2 @ w3 @ post)) \<in> rx_lang True (ll ''Ref:'')"
      "((rev w1 @ rev pre, w2 @ w3 @ post), (rev w2 @ rev w1 @ rev pre, w3 @ post)) \<in> rx_lang True (star sp)"
      "((rev w2 @ rev w1 @ rev pre, w3 @ post), (rev w3 @ rev w2 @ rev w1 @ rev pre, post)) \<in> rx_lang True uuid_rx"
    using last_group[OF ok(1-3) ref_cap_free e] by blast
  obtain c1 c2 c3 where c: "w1 @ w2 @ w3 @ post = c1 # c2 # c3 # 58 # w2 @ w3 @ post"
    using ref_word[OF w(3)] w(1) by auto
  then have w1: "w1 = [c1, c2, c3, 58]" by simp
  have "pre = a"
  proof (rule ccontr)
    assume "pre \<noteq> a"
    obtain e' where ae: "a = pre @ e'" using s le by (metis append_eq_append_conv2 append_eq_conv_conj length_append linorder_not_less take_all_iff)
    then have e': "e' \<noteq> []" "e' @ js ''Ref: '' @ d @ b = c1 # c2 # c3 # 58 # w2 @ w3 @ post"
      using \<open>pre \<noteq> a\<close> s w(1) c by auto
    show False
    proof (cases "4 \<le> length e'")
      case True
      then have "take 4 e' = w1" using arg_cong[OF e'(2), of "take 4"] unfolding w1 by simp
      then have "e' = w1 @ drop 4 e'" by (metis append_take_drop_id)
      then have "a = pre @ w1 @ drop 4 e'" using ae by metis
      moreover have "((rev pre, w1 @ drop 4 e'), (rev w1 @ rev pre, drop 4 e')) \<in> rx_lang True (ll ''Ref:'')"
        using lit_any_tail w(3) unfolding w(1) ll_def append_assoc by blast
      ultimately show False using a rx_test_iff[OF ok(1), of True a] by blast
    next
      case False
      then have k: "3 - length e' \<in> {0, 1, 2}" using e'(1) by (cases e') auto
      have "\<not> 3 < length e'" using False by simp
      then have "(e' @ js ''Ref: '' @ d @ b) ! 3 = (js ''Ref: '' @ d @ b) ! (3 - length e')" by (simp only: nth_append if_False)
      moreover have "(e' @ js ''Ref: '' @ d @ b) ! 3 = 58" unfolding e'(2) by simp
      ultimately show False using k by (auto simp: js_def)
    qed
  qed
  then have r: "32 # d @ b = w2 @ w3 @ post" using s w(1) w1 by (simp add: js_def)
  have l3: "length w3 = 36" "w3 \<noteq> []" "cls_has True hex_ranges (hd w3)" using uuid_len w(5) by (metis append_assoc)+
  obtain w2s where w2s: "w2 = w2s" "\<forall>c \<in> set w2s. cls_has True space_ranges c"
    using lang_star_cls[OF w(4)[unfolded sp_def]] by (metis append_same_eq)
  have hx: "d \<noteq> []" "cls_has True hex_ranges (hd d)" using p(1) unfolding p(6) by (cases x; simp add: StaffCopy.hexes_def)+
  have "w2 \<noteq> []" using r l3 hex_not_space[of 32] by (cases w3) (auto simp: space_class)
  then obtain w2' where w2': "w2 = 32 # w2'" "d @ b = w2' @ w3 @ post" using r by (cases w2) auto
  have "w2' = []"
  proof (rule ccontr)
    assume "w2' \<noteq> []"
    then have "hd w2' = hd d" using w2'(2) hx(1) by (metis hd_append2)
    then show False using w2s w2'(1) hx(2) hex_not_space \<open>w2' \<noteq> []\<close> by (metis hd_in_set list.set_intros(2))
  qed
  then have "w3 = d" using w2'(2) l3(1) len by (metis append_Nil append_eq_append_conv)
  then show ?thesis using f w(2) by (simp add: rx_exec_def)
qed

lemma uuid_ends: "uuid_text d \<Longrightarrow> d \<noteq> [] \<and> \<not> js_space (last d)"
proof -
  assume u: "uuid_text d"
  then obtain a b c e f where p: "StaffCopy.hexes 12 f" "d = a @ 45 # b @ 45 # c @ 45 # e @ 45 # f" using uuid_parts by blast
  then have f: "f \<noteq> []" "cls_has True hex_ranges (last f)" by (auto simp: StaffCopy.hexes_def intro!: last_in_set)
  then have "js_word (last d)" using hex_word p(2) by simp
  then have "\<not> js_space (last d)" by (auto simp: js_word_def js_letter_def js_digit_def js_space_def)
  then show ?thesis using p(2) by simp
qed

text \<open>
  C24. An answer is filed under the deal it was asked for. When a request without a subject of its own is sent for a deal
  and the supplier answers with the subject of that letter, whatever stands before it and whatever the text says, the
  mailbox reader gives the answer the number of that deal, as long as neither the configured prefix nor what stands before
  it holds a reference of its own.
\<close>

theorem answer_filed_under_deal:
  assumes "sendQuoteRequestEmail w env t0 t1 t2 d st = (Letter_sent a sender l, st')" "qe_deal d = Some i" "uuid_text i"
    "js_or (qe_subject d) [] = []" "js_trim (rfq_prefix env d) = rfq_prefix env d" "rfq_prefix env d \<noteq> []"
    "pm_subject m = Some (re @ lt_subject l)" "\<not> rx_test True (ll ''Ref:'') (re @ rfq_prefix env d @ [32])"
  shows "sy_deal (synced env' llm m) = Some i"
proof -
  have i: "i \<noteq> []" "\<not> js_space (last i)" using uuid_ends[OF assms(3)] by auto
  let ?x = "rfq_prefix env d @ js '' Ref: '' @ i"
  have "\<not> js_space (hd (rfq_prefix env d))" using js_trim_hd_last assms(5,6) by metis
  then have "js_trim ?x = ?x" using assms(6) i by (intro js_trim_ends disjI2) (simp add: js_def)
  moreover have "qe_subject d = None \<or> qe_subject d = Some []" using assms(4) by (auto simp: js_or_def split: option.splits if_splits)
  ultimately have "lt_subject l = ?x"
    unfolding sent_letter[OF assms(1)] using assms(2) i(1) by (auto simp: rfq_letter_def rfq_subject_def Let_def js_or_def)
  then have s: "js_or (pm_subject m) [] = (re @ rfq_prefix env d @ [32]) @ js ''Ref: '' @ i @ []"
    using assms(7) i(1) by (simp add: js_or_def js_def)
  obtain pre x cs post where f: "rx_exec True REF_RE ((re @ rfq_prefix env d @ [32]) @ js ''Ref: '' @ i @ []) = Some (pre, x, cs, post)"
      "grp 1 cs = Some i"
    using ref_found[OF assms(3,8)] by blast
  have "QuoteParse.extractDealId [Some (js_or (pm_subject m) []), t] = Some i" for t
    unfolding QuoteParse.extractDealId.simps s using f i(1) by (simp add: js_or_def)
  then show ?thesis by (simp add: synced_def parseQuoteFromMail_def Let_def js_or_def)
qed

theorem answer_filed_under_deal_witness:
  "\<exists>a sender l st'. sendQuoteRequestEmail mail_demo_world mail_demo_env 0 0 0
      (mail_demo_rfq\<lparr>qe_deal := Some (js ''0a1b2c3d-0000-4000-8000-00000000000f'')\<rparr>) mail_demo_state = (Letter_sent a sender l, st')
    \<and> sy_deal (synced [] (\<lambda>_ _ _. None) \<lparr>pm_id = None, pm_from_text = None, pm_from_address = None, pm_subject = Some (js ''Re: '' @ lt_subject l),
        pm_text = None, pm_html = None, pm_headers = \<lambda>_. None\<rparr>) = Some (js ''0a1b2c3d-0000-4000-8000-00000000000f'')"
proof -
  let ?d = "mail_demo_rfq\<lparr>qe_deal := Some (js ''0a1b2c3d-0000-4000-8000-00000000000f'')\<rparr>"
  have p: "rfq_prefix mail_demo_env ?d = ru ''Zapros stawki''"
    by (simp add: rfq_prefix_def mail_demo_rfq_def rfq_kind_def env_or_def mail_demo_get) (simp add: js_def)
  have "js_trim (rfq_prefix mail_demo_env ?d) = rfq_prefix mail_demo_env ?d" "rfq_prefix mail_demo_env ?d \<noteq> []"
    unfolding p by (simp_all add: ru_eval js_text_eval)
  moreover have "\<not> rx_test True (ll ''Ref:'') (js ''Re: '' @ rfq_prefix mail_demo_env ?d @ [32])"
    unfolding p by (simp add: ll_def Let_def rx_eval js_def ru_eval)
  moreover have "uuid_text (js ''0a1b2c3d-0000-4000-8000-00000000000f'')" by code_simp
  moreover obtain a sender st' where s: "sendQuoteRequestEmail mail_demo_world mail_demo_env 0 0 0 ?d mail_demo_state
      = (Letter_sent a sender (rfq_letter mail_demo_world mail_demo_env ?d), st')" using mail_demo_sent by blast
  ultimately have "sy_deal (synced [] (\<lambda>_ _ _. None) \<lparr>pm_id = None, pm_from_text = None, pm_from_address = None,
      pm_subject = Some (js ''Re: '' @ lt_subject (rfq_letter mail_demo_world mail_demo_env ?d)), pm_text = None, pm_html = None, pm_headers = \<lambda>_. None\<rparr>)
      = Some (js ''0a1b2c3d-0000-4000-8000-00000000000f'')"
    by (intro answer_filed_under_deal[OF s, where re = "js ''Re: ''"]) (simp_all add: mail_demo_rfq_def js_or_def)
  then show ?thesis using s by blast
qed

text \<open>A subject of its own leaves out the number of the deal.\<close>

lemma own_subject_without_ref: "js_or (qe_subject d) [] \<noteq> [] \<Longrightarrow> rfq_subject env d = js_or (qe_subject d) []"
  by (auto simp: rfq_subject_def js_or_def split: option.splits if_splits)

subsection \<open>Reading the mailbox\<close>

lemma sync_loop_accounted:
  assumes "sync_loop f iw us = (ms, fs)"
  shows "set fs \<subseteq> set us \<and> length ms \<le> length us \<and> length fs \<le> length ms \<and> length ms \<le> Suc (length fs)
    \<and> list_all2 (\<lambda>u x. \<exists>m. iw_fetch iw u = Fetched m \<and> iw_flag iw u \<and> x = f m) fs (take (length fs) ms)"
  using assms
proof (induction us arbitrary: ms fs)
  case (Cons u us)
  show ?case
  proof (cases "iw_fetch iw u")
    case (Fetched m)
    show ?thesis
    proof (cases "iw_flag iw u")
      case True
      obtain ms1 fs1 where 1: "sync_loop f iw us = (ms1, fs1)" by force
      then have "ms = f m # ms1" "fs = u # fs1" using Cons.prems Fetched True by auto
      then show ?thesis using Cons.IH[OF 1] Fetched True by auto
    next
      case False
      then show ?thesis using Cons.prems Fetched by auto
    qed
  next
    case No_source
    then show ?thesis using Cons.IH[of ms fs] Cons.prems by auto
  qed (use Cons.prems in auto)
qed simp

lemma last_n_bounds: "set (last_n n xs) \<subseteq> set xs" "0 < n \<Longrightarrow> length (last_n n xs) \<le> n"
  by (auto simp: last_n_def dest: in_set_dropD)

text \<open>
  C40. What one reading of the mailbox does. It hands on at most as many messages as it is asked for; every message it marks
  as seen was unseen and is handed on as it was parsed, in the order of the marks; and at most one message is handed on
  without being marked, when the server refuses the mark.
\<close>

theorem seen_mail_handed_on:
  assumes "syncInboundMail w env llm iw limit t1 t2 st = (Some (ms, fs), st')" "0 < limit"
  shows "set fs \<subseteq> set (case iw_unseen iw of None \<Rightarrow> [] | Some us \<Rightarrow> us) \<and> length ms \<le> limit
    \<and> length fs \<le> length ms \<and> length ms \<le> Suc (length fs)
    \<and> list_all2 (\<lambda>u x. \<exists>m. iw_fetch iw u = Fetched m \<and> iw_flag iw u \<and> x = synced env llm m) fs (take (length fs) ms)"
proof -
  have "(ms, fs) = ([], []) \<or> (\<exists>us. iw_unseen iw = Some us \<and> (ms, fs) = sync_loop (synced env llm) iw (last_n limit us))"
    using assms(1) by (auto simp: syncInboundMail_def split: prod.splits option.splits if_splits)
  then show ?thesis
  proof
    assume "\<exists>us. iw_unseen iw = Some us \<and> (ms, fs) = sync_loop (synced env llm) iw (last_n limit us)"
    then obtain us where u: "iw_unseen iw = Some us" "sync_loop (synced env llm) iw (last_n limit us) = (ms, fs)" by force
    show ?thesis using sync_loop_accounted[OF u(2)] last_n_bounds[of limit us] assms(2) u(1) by auto
  qed auto
qed

definition mail_demo_parsed :: parsed_mail where
  "mail_demo_parsed = \<lparr>pm_id = Some (js ''m1''), pm_from_text = Some (js ''a@b.ru''), pm_from_address = None, pm_subject = Some (js ''hi''),
     pm_text = Some (js ''hello''), pm_html = None, pm_headers = \<lambda>_. None\<rparr>"

theorem seen_mail_handed_on_witness:
  "case fst (syncInboundMail mail_demo_world (mail_demo_env @ [(js ''IMAP_HOST'', js ''i'')]) (\<lambda>_ _ _. None)
      \<lparr>iw_connect = \<lambda>_. True, iw_unseen = Some [1, 2], iw_fetch = \<lambda>_. Fetched mail_demo_parsed, iw_flag = \<lambda>_. True\<rparr> 1 0 0 mail_demo_state) of
     None \<Rightarrow> False | Some (ms, fs) \<Rightarrow> length ms \<le> 1 \<and> set fs \<subseteq> {1, 2}"
proof -
  let ?iw = "\<lparr>iw_connect = \<lambda>_. True, iw_unseen = Some [1, 2], iw_fetch = \<lambda>_. Fetched mail_demo_parsed, iw_flag = \<lambda>_. True\<rparr>"
  let ?r = "syncInboundMail mail_demo_world (mail_demo_env @ [(js ''IMAP_HOST'', js ''i'')]) (\<lambda>_ _ _. None) ?iw 1 0 0 mail_demo_state"
  have "fst ?r \<noteq> None"
    by (simp add: syncInboundMail_def resolveMailEndpoints_def mailProxyUrl_def env_or_def env_get_def mail_demo_env_def js_text_eval js_or_def Let_def
        split: option.splits if_splits)
  then obtain ms fs st' where r: "?r = (Some (ms, fs), st')" by (cases ?r) auto
  show ?thesis unfolding r fst_conv option.case prod.case using seen_mail_handed_on[OF r zero_less_one] by simp
qed

subsection \<open>What goes wrong\<close>

text \<open>A label at the end of a line hides the next line, here the number of the deal.\<close>

lemma label_hides_next_line: "scrubRfqPartyLeaks (js ''shipper:'' @ [10] @ js ''Ref: 1'') = js ''shipper'' @ ru '': [skryto]''"
  by (simp add: scrubRfqPartyLeaks_def PARTY_LABEL_RE_def PARTY_NAME_RE_def party_words_def receiver_words_def replace_groups.simps ll_def
      Let_def rx_eval js_def ru_eval grp_def js_or_def)

text \<open>Under the \<open>i\<close> flag the capital that is to start a name is any letter.\<close>

lemma plain_words_hidden: "scrubRfqPartyLeaks (js ''consignee pays'') = js ''consignee'' @ ru '' [skryto]''"
  by (simp add: scrubRfqPartyLeaks_def PARTY_LABEL_RE_def PARTY_NAME_RE_def party_words_def receiver_words_def replace_groups.simps ll_def
      Let_def rx_eval js_def ru_eval grp_def js_or_def)

text \<open>A kind of access that is neither of the two known ones drops the password.\<close>

lemma unknown_access_without_password:
  assumes "env_or env ''MAIL_AUTH_MODE'' (js ''app_password'') \<notin> {js ''app_password'', js ''oauth2''}"
    "fst (resolveMailEndpoints ask env t1 t2 cache) = Some (Some ep)"
  shows "smtpAuth ep = Login (mail_user env) []"
  using assms by (auto simp: resolveMailEndpoints_def endpoints_of_def smtpAuth_def Let_def js_or_def split: if_splits)

text \<open>A proxy that is switched off for the other services is used for mail.\<close>

lemma proxy_off_used_for_mail:
  "loadAppProxy [(js ''PROXY_ENABLED'', js ''off''), (js ''PROXY_HOST'', js ''h''), (js ''PROXY_PORT'', js ''1'')] = None"
  "mailProxyUrl [(js ''PROXY_ENABLED'', js ''off''), (js ''PROXY_HOST'', js ''h''), (js ''PROXY_PORT'', js ''1'')] = Some (Some (js ''socks5://h:1''))"
  by (simp_all add: loadAppProxy_def proxy_envBool_def mailProxyUrl_def env_or_def env_get_def js_text_eval js_or_def Let_def)

end
