(* ===== verification/Cabinet.thy ===== *)
theory Cabinet
  imports Email
begin

text \<open>
  Requests through the web cabinets of carriers (\<open>apps/workers-ts/src/cabinet.ts\<close>) and the calls with which the worker asks
  the orchestrator (\<open>apps/workers-ts/src/reprocess.ts\<close>). The browser, the probe of a server and HTTP are parameters; what is
  written to disk is returned.
\<close>

subsection \<open>Settings\<close>

record cabinet_rfq =
  cb_deal :: "jstr option"
  cb_code :: "jstr option"
  cb_url :: "jstr option"
  cb_route :: "jstr option"
  cb_cargo :: "jstr option"
  cb_weight :: "rat option"
  cb_volume :: "rat option"
  cb_corridor :: "jstr option"
  cb_mode :: "jstr option"
  cb_ready :: "jstr option"

definition FORBIDDEN :: "jstr list" where "FORBIDDEN = map js [''cdek'', ''keycloak'']"

definition cabinet_envOn :: "penv \<Rightarrow> string \<Rightarrow> bool \<Rightarrow> bool" where
  "cabinet_envOn env name fallback =
     (let raw = js_toLowerCase (js_trim (env_or env name []))
      in if raw = [] then fallback else raw \<in> set (map js [''1'', ''true'', ''yes'', ''on'']))"

definition cabinetSslVerify :: "penv \<Rightarrow> bool" where
  "cabinetSslVerify env =
     (if js_trim (env_or env ''CABINET_SSL_VERIFY'' []) \<noteq> [] then cabinet_envOn env ''CABINET_SSL_VERIFY'' True
      else if js_trim (env_or env ''PARTNER_SSL_VERIFY'' []) \<noteq> [] then cabinet_envOn env ''PARTNER_SSL_VERIFY'' True
      else True)"

definition cabinetTimeoutMs :: "penv \<Rightarrow> int" where
  "cabinetTimeoutMs env =
     (case js_Number (js_trim (env_or env ''CABINET_HTTP_TIMEOUT_SEC'' (env_or env ''PARTNER_HTTP_TIMEOUT_SEC'' (js ''60'')))) of
        Num sec \<Rightarrow> if sec \<le> 0 then 60000 else math_round (mul_js sec 1000)
      | _ \<Rightarrow> 60000)"

text \<open>A variable whose name ends with the code; letters of other alphabets do not occur in codes.\<close>

definition env_text :: "penv \<Rightarrow> jstr \<Rightarrow> jstr" where
  "env_text env name = js_or (map_of env name) []"

definition js_toUpperCase :: "jstr \<Rightarrow> jstr" where
  "js_toUpperCase s = map js_upper_unit s"

definition envCreds :: "penv \<Rightarrow> jstr \<Rightarrow> jstr \<times> jstr" where
  "envCreds env code =
     (let u = js_toUpperCase code;
          first = (\<lambda>what. js_trim (MtProxy.first_text (map (\<lambda>p. env_text env (js p @ what @ u)) [''CABINET_'', ''PARTNER_'', ''SUPPLIER_''])))
      in (first (js ''USERNAME_''), first (js ''PASSWORD_'')))"

definition rfqText :: "(rat \<Rightarrow> jstr) \<Rightarrow> cabinet_rfq \<Rightarrow> jstr" where
  "rfqText digits d =
     js_join [10] (filter (\<lambda>l. l \<noteq> [])
       [js ''RFQ deal '' @ js_or (cb_deal d) long_dash, js_or (cb_route d) [], js_or (cb_cargo d) [],
        labelled (js ''corridor: '') (cb_corridor d), labelled (js ''mode: '') (cb_mode d),
        (case cb_weight d of None \<Rightarrow> [] | Some x \<Rightarrow> js ''weight: '' @ num_str digits x @ js '' kg''),
        (case cb_volume d of None \<Rightarrow> [] | Some x \<Rightarrow> js ''volume: '' @ num_str digits x @ js '' m3''),
        labelled (js ''ready: '') (cb_ready d), js ''Need: price, transit time, extras, validity.''])"

definition cabinet_code :: "cabinet_rfq \<Rightarrow> jstr" where
  "cabinet_code d = js_toLowerCase (js_or (cb_code d) (js ''cabinet''))"

subsection \<open>The task of the operator and the result\<close>

datatype cabinet_mode = Refused_code | Skipped_disabled | Playwright_missing | No_url | Playwright_login | Playwright_error | Operator_queue

record operator_task =
  tk_file :: jstr
  tk_mode :: jstr
  tk_code :: jstr
  tk_url :: "jstr option"
  tk_deal :: "jstr option"
  tk_rfq :: jstr
  tk_user_set :: bool
  tk_ssl :: bool
  tk_timeout :: int

definition writeOperatorTask :: "(rat \<Rightarrow> jstr) \<Rightarrow> penv \<Rightarrow> cabinet_rfq \<Rightarrow> jstr \<Rightarrow> int \<Rightarrow> operator_task" where
  "writeOperatorTask digits env d m now =
     \<lparr>tk_file = cabinet_code d @ js ''-'' @ js_or (cb_deal d) (js ''nodeal'') @ js ''-'' @ show_int now @ js ''.json'', tk_mode = m,
      tk_code = cabinet_code d, tk_url = cb_url d, tk_deal = cb_deal d, tk_rfq = rfqText digits d,
      tk_user_set = (fst (envCreds env (cabinet_code d)) \<noteq> []), tk_ssl = cabinetSslVerify env, tk_timeout = cabinetTimeoutMs env\<rparr>"

text \<open>
  The browser: not installed, failing at some step (with the tasks written until then), or done. It is given the address,
  the user, the password and the text.
\<close>

datatype browser = Not_installed | Browser_fails | Browser_done

type_synonym browser_run = "jstr \<Rightarrow> jstr \<Rightarrow> jstr \<Rightarrow> jstr \<Rightarrow> browser"

record cabinet_result =
  cr_ok :: bool
  cr_mode :: cabinet_mode
  cr_code :: jstr

text \<open>The keys of the object the worker looks at.\<close>

definition result_keys :: "cabinet_result \<Rightarrow> string list" where
  "result_keys r = [''ok'', ''mode'', ''code''] @ (case cr_mode r of Playwright_login \<Rightarrow> [''screenshot'', ''probe'']
     | Playwright_error \<Rightarrow> [''task''] | Operator_queue \<Rightarrow> [''task''] | _ \<Rightarrow> [])"

text \<open>The exception of a failing browser is caught by the caller; \<open>None\<close>.\<close>

definition playwrightSubmit :: "(rat \<Rightarrow> jstr) \<Rightarrow> browser_run \<Rightarrow> penv \<Rightarrow> cabinet_rfq \<Rightarrow> int \<Rightarrow> cabinet_result option \<times> operator_task list" where
  "playwrightSubmit digits run env d now =
     (let code = cabinet_code d; url = js_or (cb_url d) []; creds = envCreds env code;
          r = run url (fst creds) (snd creds) (rfqText digits d)
      in if r = Not_installed then (Some \<lparr>cr_ok = False, cr_mode = Playwright_missing, cr_code = code\<rparr>, [])
         else if \<not> starts_with url (js ''http'') then (Some \<lparr>cr_ok = False, cr_mode = No_url, cr_code = code\<rparr>, [])
         else if r = Browser_fails then (None, [])
         else (Some \<lparr>cr_ok = True, cr_mode = Playwright_login, cr_code = code\<rparr>, [writeOperatorTask digits env d (js ''playwright_login'') now]))"

definition submitCabinetRfq :: "(rat \<Rightarrow> jstr) \<Rightarrow> browser_run \<Rightarrow> penv \<Rightarrow> cabinet_rfq \<Rightarrow> int \<Rightarrow> cabinet_result \<times> operator_task list" where
  "submitCabinetRfq digits run env d now =
     (let code = cabinet_code d; task = writeOperatorTask digits env d (js ''operator_queue'') now
      in if code \<in> set FORBIDDEN then (\<lparr>cr_ok = False, cr_mode = Refused_code, cr_code = code\<rparr>, [])
         else if \<not> (cabinet_envOn env ''CABINET_RFQ_ENABLED'' False \<or> cabinet_envOn env ''CABINET_PLAYWRIGHT'' False)
         then (\<lparr>cr_ok = False, cr_mode = Skipped_disabled, cr_code = code\<rparr>, [])
         else if env_get env ''CABINET_PLAYWRIGHT'' = Some (js ''true'') then
           (case playwrightSubmit digits run env d now of
              (None, ts) \<Rightarrow> (\<lparr>cr_ok = False, cr_mode = Playwright_error, cr_code = code\<rparr>, task # ts)
            | (Some r, ts) \<Rightarrow> (r, task # ts))
         else (\<lparr>cr_ok = True, cr_mode = Operator_queue, cr_code = code\<rparr>,
               task # (if starts_with (js_or (cb_url d) []) (js ''http'') then [task] else [])))"

subsection \<open>Calls to the orchestrator\<close>

text \<open>\<open>Answered\<close> carries what the body gives, \<open>Failed\<close> the status and the error the body names.\<close>

datatype 'a http_answer = Unreachable jstr | Failed nat "jstr option" | Answered 'a

record 'b http_call =
  hc_url :: jstr
  hc_token :: "jstr option"
  hc_body :: 'b

definition base_url :: "penv \<Rightarrow> string \<Rightarrow> string \<Rightarrow> jstr" where
  "base_url env name fallback = drop_last_unit 47 (env_or env name (js fallback))"

definition internal_token :: "penv \<Rightarrow> jstr option" where
  "internal_token env = nonempty (env_or env ''INTERNAL_API_TOKEN'' [])"

text \<open>The addresses are tried in turn; the last error is kept.\<close>

fun first_answer :: "('b http_call \<Rightarrow> 'a http_answer) \<Rightarrow> bool \<Rightarrow> jstr option \<Rightarrow> 'b \<Rightarrow> jstr \<Rightarrow> jstr list \<Rightarrow> jstr + 'a" where
  "first_answer http reads token body err [] = Inl err"
| "first_answer http reads token body err (u # us) =
     (case http \<lparr>hc_url = u, hc_token = token, hc_body = body\<rparr> of
        Answered x \<Rightarrow> Inr x
      | Failed status e \<Rightarrow>
          first_answer http reads token body (if reads then js_or e (js ''http_'' @ show_nat status) else js ''http_'' @ show_nat status) us
      | Unreachable msg \<Rightarrow> first_answer http reads token body msg us)"

text \<open>The answer of the fallback says whether a price was found.\<close>

definition triggerApiQuoteFallback :: "(jstr http_call \<Rightarrow> bool http_answer) \<Rightarrow> penv \<Rightarrow> jstr \<Rightarrow> jstr \<Rightarrow> jstr + bool" where
  "triggerApiQuoteFallback http env dealId reason =
     (let path = js ''/deals/'' @ dealId @ js ''/api-quote-fallback''
      in first_answer http True (internal_token env) (js_or (Some reason) (js ''cabinet_no_reply'')) (js ''unreachable'')
           [base_url env ''ORCHESTRATOR_URL'' ''http://localhost:8000'' @ path,
            base_url env ''API_URL'' ''http://localhost:3000'' @ js ''/orchestrator'' @ path])"

record process_request =
  pq_deal :: "jstr option"
  pq_client :: "jstr option"
  pq_text :: jstr
  pq_key :: jstr
  pq_full :: bool

definition process_urls :: "penv \<Rightarrow> jstr list" where
  "process_urls env = [base_url env ''API_URL'' ''http://localhost:3000'' @ js ''/orchestrator/process'',
     base_url env ''ORCHESTRATOR_URL'' ''http://localhost:8000'' @ js ''/process'']"

definition triggerDealReprocess :: "(process_request http_call \<Rightarrow> 'a http_answer) \<Rightarrow> penv \<Rightarrow> jstr \<Rightarrow> jstr \<Rightarrow> jstr \<Rightarrow> jstr + 'a" where
  "triggerDealReprocess http env dealId key reason =
     first_answer http False (internal_token env)
       \<lparr>pq_deal = Some dealId, pq_client = None, pq_text = js ''[system] '' @ reason @ (js '' '' @ [8212] @ ru '' peres~itatx KP''), pq_key = key, pq_full = True\<rparr>
       (js ''unreachable'') (process_urls env)"

record gpt_answer =
  ga_deal :: "jstr option"
  ga_replies :: "jstr list option"
  ga_fallback :: "jstr list option"

definition gpt_replies :: "gpt_answer \<Rightarrow> jstr list" where
  "gpt_replies a = (case ga_replies a of Some r \<Rightarrow> r | None \<Rightarrow> (case ga_fallback a of Some r \<Rightarrow> r | None \<Rightarrow> []))"

definition processEmailWithGpt :: "(process_request http_call \<Rightarrow> gpt_answer http_answer) \<Rightarrow> penv \<Rightarrow> jstr \<Rightarrow> jstr option \<Rightarrow> jstr option
    \<Rightarrow> jstr option \<Rightarrow> jstr \<Rightarrow> bool \<Rightarrow> jstr + gpt_answer" where
  "processEmailWithGpt http env body clientEmail dealId subject key fullQuote =
     first_answer http True (internal_token env)
       \<lparr>pq_deal = nonempty (js_or dealId []), pq_client = nonempty (js_or clientEmail []),
        pq_text = take 12000 (js_join [10, 10] (filter (\<lambda>l. l \<noteq> []) [labelled (ru ''Tema: '') subject, body])), pq_key = key, pq_full = fullQuote\<rparr>
       (js ''unreachable'') (process_urls env)"

subsection \<open>Laws\<close>

text \<open>No result of a cabinet carries a price.\<close>

lemma cabinet_without_price: "''price'' \<notin> set (result_keys r) \<and> ''quote'' \<notin> set (result_keys r)"
  by (cases "cr_mode r") (simp_all add: result_keys_def)

text \<open>Couriers and login pages are never served, and a disabled cabinet writes nothing.\<close>

lemma cabinet_refusals:
  assumes "cabinet_code d \<in> set FORBIDDEN \<or> \<not> cabinet_envOn env ''CABINET_RFQ_ENABLED'' False \<and> \<not> cabinet_envOn env ''CABINET_PLAYWRIGHT'' False"
  shows "snd (submitCabinetRfq digits run env d now) = [] \<and> \<not> cr_ok (fst (submitCabinetRfq digits run env d now))"
  using assms by (auto simp: submitCabinetRfq_def Let_def)

text \<open>A browser that is switched on with another word than \<open>true\<close> is not used, and the request still counts as made.\<close>

lemma browser_needs_true:
  assumes "env_get env ''CABINET_PLAYWRIGHT'' \<noteq> Some (js ''true'')" "cabinet_code d \<notin> set FORBIDDEN"
    "cabinet_envOn env ''CABINET_PLAYWRIGHT'' False"
  shows "fst (submitCabinetRfq digits run env d now) = \<lparr>cr_ok = True, cr_mode = Operator_queue, cr_code = cabinet_code d\<rparr>"
  using assms by (simp add: submitCabinetRfq_def Let_def)

lemma first_answer_ok: "first_answer http reads token body err us = Inr x \<Longrightarrow> \<exists>u \<in> set us. http \<lparr>hc_url = u, hc_token = token, hc_body = body\<rparr> = Answered x"
  by (induction us arbitrary: err) (auto split: http_answer.splits)

end
