(* ===== verification/Worker.thy ===== *)
theory Worker
  imports Cabinet SupplierQuality SharedTypes
begin

text \<open>
  The mail worker around its queues (\<open>apps/workers-ts/src/index.ts\<close>): the jobs of the e-mail queue, what becomes of every
  mail that is read, the reminders and the digests. The database tables the worker writes are state; the queue, the
  orchestrator and the language model are parameters. A handler gives the new state, what it asked of others, in order,
  and whether it came to its end without an exception. The jobs that read mail run side by side, interleaved at the points
  where they wait: the look at the entry of a message, the asking of the model, and what is sent afterwards are separate
  steps (section ``Jobs side by side''). Within one step the clock is looked at once, and the database answers.
\<close>

subsection \<open>State and effects\<close>

definition workerJobId :: "jstr \<Rightarrow> jstr option list \<Rightarrow> jstr" where
  "workerJobId kind parts =
     take 128 (dash_runs (\<lambda>c. c = 45) False (dash_runs (\<lambda>c. \<not> id_safe c) False
       (js_join (js ''-'') (kind # map (\<lambda>p. case p of None \<Rightarrow> js ''0'' | Some s \<Rightarrow> s) parts))))"

record channel_job =
  cj_name :: jstr
  cj_kind :: jstr
  cj_text :: jstr
  cj_deal :: "jstr option"
  cj_id :: jstr

record mail_quote_row =
  mr_deal :: jstr
  mr_source :: jstr
  mr_route :: jstr
  mr_price :: rat
  mr_currency :: jstr
  mr_etaMin :: "rat option"
  mr_etaMax :: "rat option"
  mr_message :: "jstr option"
  mr_valid :: rat

record mail_contact =
  mc_email :: jstr
  mc_domain :: jstr
  mc_verified :: bool
  mc_approved :: bool
  mc_source :: "jstr option"

record worker_state =
  ws_mail :: mail_state
  ws_keys :: "jstr \<Rightarrow> rat option"
  ws_quotes :: "mail_quote_row list"
  ws_suppliers :: "supplier list"
  ws_contacts :: "mail_contact list"

datatype worker_effect =
  Channel_post channel_job
  | Supplier_letter send_outcome
  | Client_letter "jstr option" send_outcome
  | Asked_gpt jstr
  | Asked_compare jstr
  | Asked_reprocess jstr jstr
  | Asked_fallback jstr jstr
  | Wrote_task operator_task
  | Dead_letter jstr

type_synonym deal_row = "json_row \<times> json_row \<times> json_row \<times> json_row \<times> json_row"

record worker_world =
  ww_mail :: mail_world
  ww_refuses :: "jstr \<Rightarrow> jstr option"
  ww_gpt :: "process_request http_call \<Rightarrow> gpt_answer http_answer"
  ww_reprocess :: "process_request http_call \<Rightarrow> unit http_answer"
  ww_fallback :: "jstr http_call \<Rightarrow> bool http_answer"
  ww_browser :: browser_run
  ww_deal :: "jstr \<Rightarrow> deal_row option"
  ww_fmt :: copy_fmt
  ww_partners :: "partner_contact list"

type_synonym worker_result = "worker_state \<times> worker_effect list \<times> bool"

text \<open>One step after another; an exception ends the handler.\<close>

definition and_then :: "worker_result \<Rightarrow> (worker_state \<Rightarrow> worker_result) \<Rightarrow> worker_result" where
  "and_then r f = (case r of (s, es, ok) \<Rightarrow> if ok then (case f s of (s', es', ok') \<Rightarrow> (s', es @ es', ok')) else (s, es, False))"

subsection \<open>Pieces\<close>

definition loadDealSnippet :: "worker_world \<Rightarrow> jstr \<Rightarrow> deal_snippet" where
  "loadDealSnippet w i =
     (case ww_deal w i of Some (row, cargo, route, offer, meta) \<Rightarrow> dealSnippetFromRow (cf_digits (ww_fmt w)) row cargo route offer meta
      | None \<Rightarrow> no_snippet\<lparr>ds_id := Some i\<rparr>)"

text \<open>A job the queue holds already is no failure.\<close>

definition enqueueChannel :: "worker_world \<Rightarrow> jstr \<Rightarrow> jstr \<Rightarrow> jstr \<Rightarrow> jstr option \<Rightarrow> jstr \<Rightarrow> worker_state \<Rightarrow> worker_result" where
  "enqueueChannel w name kind body deal i st =
     (case ww_refuses w i of
        None \<Rightarrow> (st, [Channel_post \<lparr>cj_name = name, cj_kind = kind, cj_text = body, cj_deal = deal, cj_id = i\<rparr>], True)
      | Some err \<Rightarrow> (st, [], isJobExistsError err))"

definition email_key :: "jstr \<Rightarrow> jstr" where "email_key i = js ''email:'' @ i"

definition month :: rat where "month = 2592000000"

text \<open>An entry that is there already stays, expired or not.\<close>

definition markEmailSeen :: "rat \<Rightarrow> jstr option \<Rightarrow> worker_state \<Rightarrow> worker_state" where
  "markEmailSeen now messageId st =
     (let i = js_or messageId []
      in if i = [] then st
         else case ws_keys st (email_key i) of Some e \<Rightarrow> st
           | None \<Rightarrow> st\<lparr>ws_keys := (ws_keys st)(email_key i \<mapsto> now + month)\<rparr>)"

definition mail_seen :: "rat \<Rightarrow> jstr option \<Rightarrow> worker_state \<Rightarrow> bool" where
  "mail_seen now messageId st \<longleftrightarrow>
     (let i = js_or messageId [] in i \<noteq> [] \<and> (case ws_keys st (email_key i) of None \<Rightarrow> False | Some e \<Rightarrow> now < e))"

definition letter_went :: "send_outcome \<Rightarrow> bool" where
  "letter_went r = (case r of Dev_only _ \<Rightarrow> True | Letter_sent _ _ _ \<Rightarrow> True | _ \<Rightarrow> False)"

subsection \<open>A mail\<close>

definition has_ref :: "synced_mail \<Rightarrow> bool" where "has_ref m \<longleftrightarrow> js_or (sy_deal m) [] \<noteq> []"

definition mail_class :: "worker_world \<Rightarrow> penv \<Rightarrow> synced_mail \<Rightarrow> mail_kind" where
  "mail_class w env m =
     (case classifyInboundMailWithGpt (ww_mail w) env (sy_from m) (Some (sy_subject m)) (Some (sy_text m)) (sy_headers m)
        (has_ref m) (sy_price m \<noteq> None) of
        Some k \<Rightarrow> k
      | None \<Rightarrow> if has_ref m then (if sy_price m \<noteq> None then Supplier_quote else Supplier_other) else Noise_mail)"

text \<open>
  What becomes of a mail that was not handled before. Each way has two parts, the first up to the entry that marks the mail as
  handled, the second what is sent after it; \<open>asked\<close> is the time at which the first part looked at the clock.
\<close>

datatype mail_way = To_nobody | To_client | As_quote rat | As_unparsed

definition mail_way :: "worker_world \<Rightarrow> penv \<Rightarrow> synced_mail \<Rightarrow> mail_way" where
  "mail_way w env m =
     (let k = mail_class w env m
      in if k = Noise_mail then To_nobody
         else if k = Client_mail \<and> \<not> has_ref m then To_client
         else if \<not> has_ref m then To_nobody
         else case sy_price m of Some p \<Rightarrow> As_quote p | None \<Rightarrow> As_unparsed)"

definition client_key :: "worker_world \<Rightarrow> rat \<Rightarrow> synced_mail \<Rightarrow> jstr \<Rightarrow> jstr" where
  "client_key w asked m addr = js ''imap-client:'' @ js_or (sy_id m) addr @ js '':'' @ num_str (cf_digits (ww_fmt w)) asked"

definition client_mark :: "worker_world \<Rightarrow> rat \<Rightarrow> synced_mail \<Rightarrow> worker_state \<Rightarrow> worker_result" where
  "client_mark w now m st =
     (markEmailSeen now (sy_id m) st, (case extractAddress (sy_from m) of None \<Rightarrow> [] | Some addr \<Rightarrow> [Asked_gpt (client_key w now m addr)]), True)"

definition client_letter :: "worker_world \<Rightarrow> penv \<Rightarrow> rat \<Rightarrow> rat \<Rightarrow> synced_mail \<Rightarrow> worker_state \<Rightarrow> worker_result" where
  "client_letter w env asked now m st =
     (case extractAddress (sy_from m) of
        None \<Rightarrow> (st, [], True)
      | Some addr \<Rightarrow>
          (case processEmailWithGpt (ww_gpt w) env (js_or (Some (sy_text m)) (sy_subject m)) (Some addr) None (Some (sy_subject m))
             (client_key w asked m addr) False of
             Inl err \<Rightarrow> (st, [], True)
           | Inr a \<Rightarrow>
               if gpt_replies a = [] then (st, [], True)
               else and_then
                 (case sendClientReplyEmail (ww_mail w) env now now now addr (js_or (Some (sy_subject m)) (ru ''Ras~#t perewozki''))
                     (js_join [10, 10] (gpt_replies a)) (sy_id m) (ws_mail st) of
                    (r, ms) \<Rightarrow> (st\<lparr>ws_mail := ms\<rparr>, [Client_letter (sy_id m) r], letter_went r))
                 (enqueueChannel w (js ''alert'') (js ''info'')
                   ((js ''GPT '' @ ru ''otwetil klientu po po~te '') @ addr @ (case ga_deal a of None \<Rightarrow> [] | Some d \<Rightarrow> if d = [] then [] else [10] @ ru ''Sdelka: '' @ d))
                   (ga_deal a) (workerJobId (js ''imap-client'') [Some addr, sy_id m]))))"

definition reply_suppliers :: "worker_world \<Rightarrow> rat \<Rightarrow> synced_mail \<Rightarrow> worker_state \<Rightarrow> worker_state" where
  "reply_suppliers w now m st = st\<lparr>ws_suppliers := markSupplierReplied (ww_partners w) now (sy_from m) (ws_suppliers st)\<rparr>"

definition price_text :: "worker_world \<Rightarrow> rat \<Rightarrow> jstr" where
  "price_text w p = num_str (cf_digits (ww_fmt w)) p"

definition quote_mark :: "worker_world \<Rightarrow> rat \<Rightarrow> synced_mail \<Rightarrow> jstr \<Rightarrow> rat \<Rightarrow> worker_state \<Rightarrow> worker_state" where
  "quote_mark w now m d p st =
     (let row = \<lparr>mr_deal = d, mr_source = js ''email_imap'', mr_route = js_or (Some (sy_subject m)) (js ''email reply''), mr_price = p,
            mr_currency = js_or (sy_currency m) (js ''RUB''), mr_etaMin = sy_etaMin m, mr_etaMax = sy_etaMax m, mr_message = sy_id m,
            mr_valid = now + 172800000\<rparr>
      in markEmailSeen now (sy_id m) (reply_suppliers w now m (st\<lparr>ws_quotes := ws_quotes st @ [row]\<rparr>)))"

definition quote_post :: "worker_world \<Rightarrow> penv \<Rightarrow> synced_mail \<Rightarrow> jstr \<Rightarrow> rat \<Rightarrow> worker_state \<Rightarrow> worker_result" where
  "quote_post w env m d p st =
     (let src = (if sy_llm m then js ''llm'' else js ''heuristic'')
      in and_then
           (enqueueChannel w (js ''alert'') (js ''info'') (formatImapQuoteStaff (ww_fmt w) (loadDealSnippet w d) p (sy_currency m) (sy_from m) (Some src))
             (Some d) (workerJobId (js ''imap-quote'') [Some d, sy_id m]) st)
           (\<lambda>s. let key = js ''imap-reprice:'' @ d @ js '':'' @ js_or (sy_id m) (price_text w p);
                    r = triggerDealReprocess (ww_reprocess w) env d key
                      (js ''IMAP quote '' @ price_text w p @ [32] @ js_or (sy_currency m) [])
                in (s, [Asked_compare d, Asked_reprocess d key], True)))"

definition unparsed_mark :: "worker_world \<Rightarrow> rat \<Rightarrow> synced_mail \<Rightarrow> worker_state \<Rightarrow> worker_state" where
  "unparsed_mark w now m st = markEmailSeen now (sy_id m) (reply_suppliers w now m st)"

definition unparsed_post :: "worker_world \<Rightarrow> synced_mail \<Rightarrow> jstr \<Rightarrow> worker_state \<Rightarrow> worker_result" where
  "unparsed_post w m d st =
     enqueueChannel w (js ''alert'') (js ''info'') (formatImapUnparsedStaff (ww_fmt w) (loadDealSnippet w d) (Some (sy_subject m)) (sy_from m))
       (Some d) (workerJobId (js ''imap-noprice'') [Some d, sy_id m]) st"

definition mail_mark :: "worker_world \<Rightarrow> penv \<Rightarrow> rat \<Rightarrow> synced_mail \<Rightarrow> worker_state \<Rightarrow> worker_result" where
  "mail_mark w env now m st =
     (case mail_way w env m of
        To_nobody \<Rightarrow> (markEmailSeen now (sy_id m) st, [], True)
      | To_client \<Rightarrow> client_mark w now m st
      | As_quote p \<Rightarrow> (quote_mark w now m (js_or (sy_deal m) []) p st, [], True)
      | As_unparsed \<Rightarrow> (unparsed_mark w now m st, [], True))"

definition mail_post :: "worker_world \<Rightarrow> penv \<Rightarrow> rat \<Rightarrow> rat \<Rightarrow> synced_mail \<Rightarrow> worker_state \<Rightarrow> worker_result" where
  "mail_post w env asked now m st =
     (case mail_way w env m of
        To_nobody \<Rightarrow> (st, [], True)
      | To_client \<Rightarrow> client_letter w env asked now m st
      | As_quote p \<Rightarrow> quote_post w env m (js_or (sy_deal m) []) p st
      | As_unparsed \<Rightarrow> unparsed_post w m (js_or (sy_deal m) []) st)"

text \<open>One mail with nothing in between.\<close>

definition handle_mail :: "worker_world \<Rightarrow> penv \<Rightarrow> rat \<Rightarrow> synced_mail \<Rightarrow> worker_state \<Rightarrow> worker_result" where
  "handle_mail w env now m st =
     (if mail_seen now (sy_id m) st then (st, [], True) else and_then (mail_mark w env now m st) (mail_post w env now now m))"

subsection \<open>The jobs of the e-mail queue\<close>

datatype email_job =
  Request_quote quote_mail
  | Request_sourcing quote_mail
  | Cabinet_job cabinet_rfq
  | Api_quote_fallback "jstr option" "jstr option"
  | Find_and_request quote_mail
  | Imap_sync "jstr \<Rightarrow> jstr \<Rightarrow> jstr \<Rightarrow> llm_quote option" imap_world
  | Other_job

definition send_rfq :: "worker_world \<Rightarrow> penv \<Rightarrow> rat \<Rightarrow> quote_mail \<Rightarrow> worker_state \<Rightarrow> worker_result" where
  "send_rfq w env now d st =
     (case sendQuoteRequestEmail (ww_mail w) env now now now d (ws_mail st) of
        (r, ms) \<Rightarrow>
          if letter_went r
          then (st\<lparr>ws_mail := ms, ws_suppliers := markSupplierRfqSent (ww_partners w) now (Some (qe_to d)) (ws_suppliers st)\<rparr>, [Supplier_letter r], True)
          else (st\<lparr>ws_mail := ms\<rparr>, [Supplier_letter r], False))"

definition got_price :: "cabinet_result \<Rightarrow> bool" where
  "got_price r \<longleftrightarrow> ''price'' \<in> set (result_keys r) \<or> ''quote'' \<in> set (result_keys r)"

definition cabinet_job :: "worker_world \<Rightarrow> penv \<Rightarrow> rat \<Rightarrow> cabinet_rfq \<Rightarrow> worker_state \<Rightarrow> worker_result" where
  "cabinet_job w env now d st =
     (let (r, tasks) = submitCabinetRfq (cf_digits (ww_fmt w)) (ww_browser w) env d \<lfloor>now\<rfloor>;
          dealId = js_or (cb_deal d) []; code = js_toLowerCase (js_or (cb_code d) (cr_code r));
          reason = js ''cabinet_'' @ js_or (Some code) (js ''x'') @ js ''_no_reply''
      in (st, map Wrote_task tasks @ (if dealId \<noteq> [] \<and> \<not> got_price r then [Asked_fallback dealId reason] else []), True))"

definition fallback_job :: "worker_world \<Rightarrow> penv \<Rightarrow> jstr option \<Rightarrow> jstr option \<Rightarrow> worker_state \<Rightarrow> worker_result" where
  "fallback_job w env deal reason st =
     (let d = js_or deal []; why = js_or reason (js ''cabinet_pending_no_http'')
      in if d = [] then (st, [], False)
         else (st, [Asked_fallback d why], (case triggerApiQuoteFallback (ww_fallback w) env d why of Inl _ \<Rightarrow> False | Inr _ \<Rightarrow> True)))"

definition whitelist :: "penv \<Rightarrow> jstr list" where
  "whitelist env = filter (\<lambda>s. s \<noteq> []) (map js_trim (js_split1 44 (env_or env ''EMAIL_WHITELIST_DOMAINS'' [])))"

definition approved_contact :: "jstr \<Rightarrow> worker_state \<Rightarrow> bool" where
  "approved_contact addr st = (case filter (\<lambda>c. mc_email c = addr) (ws_contacts st) of [] \<Rightarrow> False | c # _ \<Rightarrow> mc_approved c)"

definition insert_contact :: "mail_contact \<Rightarrow> worker_state \<Rightarrow> worker_state" where
  "insert_contact c st = (if list_ex (\<lambda>x. mc_email x = mc_email c) (ws_contacts st) then st else st\<lparr>ws_contacts := ws_contacts st @ [c]\<rparr>)"

definition find_and_request :: "worker_world \<Rightarrow> penv \<Rightarrow> rat \<Rightarrow> quote_mail \<Rightarrow> worker_state \<Rightarrow> worker_result" where
  "find_and_request w env now d st =
     (case findEmailOnDomain (ww_mail w) (qe_website d) of
        None \<Rightarrow> (st, [], False)
      | Some addr \<Rightarrow>
          let dmn = mail_domain addr
          in if whitelist env \<noteq> [] \<and> dmn \<notin> set (whitelist env) \<and> \<not> approved_contact addr st
             then enqueueChannel w (js ''alert'') (js ''info'') (formatPartnerEmailApproveStaff addr (qe_website d)) None
                    (workerJobId (js ''partner-approve'') [Some addr])
                    (insert_contact \<lparr>mc_email = addr, mc_domain = dmn, mc_verified = False, mc_approved = False, mc_source = qe_website d\<rparr> st)
             else send_rfq w env now (d\<lparr>qe_to := addr\<rparr>) st)"

text \<open>The jobs that read no mail.\<close>

definition email_step :: "worker_world \<Rightarrow> penv \<Rightarrow> rat \<Rightarrow> email_job \<Rightarrow> worker_state \<Rightarrow> worker_result" where
  "email_step w env now job st =
     (case job of
        Request_quote d \<Rightarrow> send_rfq w env now (d\<lparr>qe_kind := Some (js_or (qe_kind d) (js ''freight''))\<rparr>) st
      | Request_sourcing d \<Rightarrow> send_rfq w env now (d\<lparr>qe_kind := Some (js ''sourcing'')\<rparr>) st
      | Cabinet_job d \<Rightarrow> cabinet_job w env now d st
      | Api_quote_fallback deal reason \<Rightarrow> fallback_job w env deal reason st
      | Find_and_request d \<Rightarrow> find_and_request w env now d st
      | _ \<Rightarrow> (st, [], True))"

text \<open>A failed attempt leaves an entry among the dead letters and fails the job.\<close>

definition email_worker :: "worker_world \<Rightarrow> penv \<Rightarrow> rat \<Rightarrow> email_job \<Rightarrow> worker_state \<Rightarrow> worker_result" where
  "email_worker w env now job st =
     (case email_step w env now job st of (s, es, ok) \<Rightarrow> (s, if ok then es else es @ [Dead_letter (QUEUES QEmail)], ok))"

subsection \<open>Jobs side by side\<close>

text \<open>
  The worker runs up to \<open>n\<close> jobs at a time (two, as it is deployed). A job that reads mail waits between its steps, and the steps
  of others fall in between: for every mail the look whether it was handled, the asking of the model up to the entry that marks
  it, and what is sent then. \<open>Reading\<close> is a job with the mails still before it, \<open>Looked\<close> one that has found the first of them
  unhandled, \<open>Marked\<close> one that has marked it. The jobs that read no mail are one step.
\<close>

datatype reading = Reading "synced_mail list" | Looked synced_mail "synced_mail list" | Marked rat synced_mail "synced_mail list"

record worker_pool =
  wp_state :: worker_state
  wp_jobs :: "reading list"
  wp_effects :: "worker_effect list"

datatype worker_move = Begin rat email_job | Look rat nat | Mark rat nat | Post rat nat

definition job_gone :: "nat \<Rightarrow> reading list \<Rightarrow> reading list" where
  "job_gone k jobs = take k jobs @ drop (Suc k) jobs"

definition begin_job :: "worker_world \<Rightarrow> penv \<Rightarrow> rat \<Rightarrow> email_job \<Rightarrow> worker_pool \<Rightarrow> worker_pool" where
  "begin_job w env now job p =
     (case job of
        Imap_sync llm iw \<Rightarrow>
          (case syncInboundMail (ww_mail w) env llm iw 30 now now (ws_mail (wp_state p)) of
             (None, ms) \<Rightarrow> p\<lparr>wp_state := (wp_state p)\<lparr>ws_mail := ms\<rparr>, wp_effects := wp_effects p @ [Dead_letter (QUEUES QEmail)]\<rparr>
           | (Some (mails, flagged), ms) \<Rightarrow> p\<lparr>wp_state := (wp_state p)\<lparr>ws_mail := ms\<rparr>, wp_jobs := wp_jobs p @ [Reading mails]\<rparr>)
      | _ \<Rightarrow> (case email_worker w env now job (wp_state p) of (s, es, ok) \<Rightarrow> p\<lparr>wp_state := s, wp_effects := wp_effects p @ es\<rparr>))"

definition look_step :: "rat \<Rightarrow> nat \<Rightarrow> worker_pool \<Rightarrow> worker_pool" where
  "look_step now k p =
     (case wp_jobs p ! k of
        Reading [] \<Rightarrow> p\<lparr>wp_jobs := job_gone k (wp_jobs p)\<rparr>
      | Reading (m # ms) \<Rightarrow>
          p\<lparr>wp_jobs := (wp_jobs p)[k := if mail_seen now (sy_id m) (wp_state p) then Reading ms else Looked m ms]\<rparr>
      | _ \<Rightarrow> p)"

definition mark_step :: "worker_world \<Rightarrow> penv \<Rightarrow> rat \<Rightarrow> nat \<Rightarrow> worker_pool \<Rightarrow> worker_pool" where
  "mark_step w env now k p =
     (case wp_jobs p ! k of
        Looked m ms \<Rightarrow>
          (case mail_mark w env now m (wp_state p) of (s, es, ok) \<Rightarrow>
             p\<lparr>wp_state := s, wp_jobs := (wp_jobs p)[k := Marked now m ms], wp_effects := wp_effects p @ es\<rparr>)
      | _ \<Rightarrow> p)"

definition post_step :: "worker_world \<Rightarrow> penv \<Rightarrow> rat \<Rightarrow> nat \<Rightarrow> worker_pool \<Rightarrow> worker_pool" where
  "post_step w env now k p =
     (case wp_jobs p ! k of
        Marked asked m ms \<Rightarrow>
          (case mail_post w env asked now m (wp_state p) of (s, es, ok) \<Rightarrow>
             if ok then p\<lparr>wp_state := s, wp_jobs := (wp_jobs p)[k := Reading ms], wp_effects := wp_effects p @ es\<rparr>
             else p\<lparr>wp_state := s, wp_jobs := job_gone k (wp_jobs p), wp_effects := wp_effects p @ es @ [Dead_letter (QUEUES QEmail)]\<rparr>)
      | _ \<Rightarrow> p)"

definition pool_step :: "worker_world \<Rightarrow> penv \<Rightarrow> nat \<Rightarrow> worker_move \<Rightarrow> worker_pool \<Rightarrow> worker_pool" where
  "pool_step w env n move p =
     (case move of
        Begin now job \<Rightarrow> if length (wp_jobs p) < n then begin_job w env now job p else p
      | Look now k \<Rightarrow> if k < length (wp_jobs p) then look_step now k p else p
      | Mark now k \<Rightarrow> if k < length (wp_jobs p) then mark_step w env now k p else p
      | Post now k \<Rightarrow> if k < length (wp_jobs p) then post_step w env now k p else p)"

definition pool_run :: "worker_world \<Rightarrow> penv \<Rightarrow> nat \<Rightarrow> worker_move list \<Rightarrow> worker_pool \<Rightarrow> worker_pool" where
  "pool_run w env n moves p = fold (pool_step w env n) moves p"

definition idle_pool :: "worker_state \<Rightarrow> worker_pool" where
  "idle_pool st = \<lparr>wp_state = st, wp_jobs = [], wp_effects = []\<rparr>"

subsection \<open>One answer to a message\<close>

definition answers :: "jstr \<Rightarrow> worker_effect list \<Rightarrow> nat" where
  "answers i es = length (filter (\<lambda>e. case e of Client_letter j r \<Rightarrow> j = Some i | _ \<Rightarrow> False) es)"

lemma answers_simps [simp]:
  "answers i [] = 0" "answers i (es @ es') = answers i es + answers i es'"
  "answers i (Client_letter j r # es) = (if j = Some i then 1 else 0) + answers i es"
  "answers i (Channel_post c # es) = answers i es" "answers i (Asked_gpt k # es) = answers i es"
  "answers i (Asked_compare d # es) = answers i es" "answers i (Asked_reprocess d k # es) = answers i es"
  "answers i (Supplier_letter r # es) = answers i es" "answers i (Asked_fallback d k # es) = answers i es"
  "answers i (Dead_letter q # es) = answers i es" "answers i (map Wrote_task ts) = 0"
  by (simp_all add: answers_def)

lemma and_then_fields:
  "fst (and_then r f) = (if snd (snd r) then fst (f (fst r)) else fst r)"
  "fst (snd (and_then r f)) = fst (snd r) @ (if snd (snd r) then fst (snd (f (fst r))) else [])"
  "snd (snd (and_then r f)) = (snd (snd r) \<and> snd (snd (f (fst r))))"
  by (simp_all add: and_then_def split: prod.split)

lemma enqueue_fields:
  "fst (enqueueChannel w name kind body deal i st) = st" "answers j (fst (snd (enqueueChannel w name kind body deal i st))) = 0"
  "Client_letter a r \<notin> set (fst (snd (enqueueChannel w name kind body deal i st)))"
  "Supplier_letter r \<notin> set (fst (snd (enqueueChannel w name kind body deal i st)))"
  by (simp_all add: enqueueChannel_def split: option.split)

lemma key_inj [simp]: "email_key a = email_key b \<longleftrightarrow> a = b"
  by (simp add: email_key_def)

lemma mark_keys:
  "ws_keys (markEmailSeen now (Some i) st) (email_key i) = (if i = [] then ws_keys st (email_key i) else
     (case ws_keys st (email_key i) of None \<Rightarrow> Some (now + month) | Some e \<Rightarrow> Some e))"
  "j \<noteq> Some i \<Longrightarrow> i \<noteq> [] \<Longrightarrow> ws_keys (markEmailSeen now j st) (email_key i) = ws_keys st (email_key i)"
  by (auto simp: markEmailSeen_def Let_def js_or_def split: option.splits)

text \<open>What the two parts of a mail do to the keys and which answers they give.\<close>

lemma mark_fields:
  "ws_keys (fst (mail_mark w env now m st)) = ws_keys (markEmailSeen now (sy_id m) st)"
  "answers i (fst (snd (mail_mark w env now m st))) = 0" "snd (snd (mail_mark w env now m st))"
  "Client_letter j r \<notin> set (fst (snd (mail_mark w env now m st)))"
  "ws_contacts (fst (mail_mark w env now m st)) = ws_contacts st"
proof -
  have k: "ws_keys (markEmailSeen now j (reply_suppliers w now m s)) = ws_keys (markEmailSeen now j s)" for j s
    by (simp add: markEmailSeen_def reply_suppliers_def Let_def split: option.split)
  have q: "ws_keys (markEmailSeen now j (s\<lparr>ws_quotes := qs\<rparr>)) = ws_keys (markEmailSeen now j s)" for j s qs
    by (simp add: markEmailSeen_def Let_def split: option.split)
  have c: "ws_contacts (markEmailSeen now j s) = ws_contacts s" "ws_contacts (reply_suppliers w now m s) = ws_contacts s" for j s
    by (simp_all add: markEmailSeen_def reply_suppliers_def Let_def split: option.split)
  show "ws_keys (fst (mail_mark w env now m st)) = ws_keys (markEmailSeen now (sy_id m) st)"
    "answers i (fst (snd (mail_mark w env now m st))) = 0" "snd (snd (mail_mark w env now m st))"
    "Client_letter j r \<notin> set (fst (snd (mail_mark w env now m st)))"
    "ws_contacts (fst (mail_mark w env now m st)) = ws_contacts st"
    by (auto simp: mail_mark_def client_mark_def quote_mark_def unparsed_mark_def Let_def k q c split: mail_way.split option.split)
qed

lemma post_fields:
  "ws_keys (fst (mail_post w env asked now m st)) = ws_keys st"
  "answers i (fst (snd (mail_post w env asked now m st))) \<le> (if sy_id m = Some i then 1 else 0)"
  "ws_contacts (fst (mail_post w env asked now m st)) = ws_contacts st"
  by (auto simp: mail_post_def client_letter_def quote_post_def unparsed_post_def Let_def and_then_fields enqueue_fields
      split: mail_way.split option.split sum.split prod.split)

text \<open>
  A message nobody knew is unknown still, with no answer given and none under way, or it is closed, and the answers given and
  those that may still come, from the jobs that found it unhandled, are no more than the jobs that run at once. \<open>T\<close> is a bound of
  the times considered.
\<close>

definition closed :: "jstr \<Rightarrow> rat \<Rightarrow> worker_state \<Rightarrow> bool" where
  "closed i T st \<longleftrightarrow> (\<exists>e. ws_keys st (email_key i) = Some e \<and> T \<le> e)"

fun at_mail :: "jstr \<Rightarrow> reading \<Rightarrow> bool" where
  "at_mail i (Reading ms) = False"
| "at_mail i (Looked m ms) = (sy_id m = Some i)"
| "at_mail i (Marked t m ms) = (sy_id m = Some i)"

fun past_mark :: "jstr \<Rightarrow> reading \<Rightarrow> bool" where
  "past_mark i (Marked t m ms) = (sy_id m = Some i)"
| "past_mark i _ = False"

definition under_way :: "jstr \<Rightarrow> worker_pool \<Rightarrow> nat" where
  "under_way i p = length (filter (at_mail i) (wp_jobs p))"

definition bounded :: "jstr \<Rightarrow> rat \<Rightarrow> nat \<Rightarrow> worker_pool \<Rightarrow> bool" where
  "bounded i T n p \<longleftrightarrow> length (wp_jobs p) \<le> n
     \<and> (ws_keys (wp_state p) (email_key i) = None \<and> answers i (wp_effects p) = 0 \<and> (\<forall>r \<in> set (wp_jobs p). \<not> past_mark i r)
        \<or> closed i T (wp_state p) \<and> answers i (wp_effects p) + under_way i p \<le> n)"

lemma split_job:
  assumes "k < length jobs" "jobs ! k = r"
  obtains xs ys where "jobs = xs @ r # ys" "k = length xs"
  using assms id_take_nth_drop[OF assms(1)] by (metis length_take min.absorb4)

lemma job_gone_at [simp]: "job_gone (length xs) (xs @ r # ys) = xs @ ys"
  by (simp add: job_gone_def)

lemma under_way_le: "under_way i p \<le> length (wp_jobs p)"
  by (simp add: under_way_def)

lemma look_bounded:
  assumes "bounded i T n p" "k < length (wp_jobs p)" "i \<noteq> []" "now < T"
  shows "bounded i T n (look_step now k p)"
proof (cases "wp_jobs p ! k")
  case (Reading ms)
  obtain xs ys where x: "wp_jobs p = xs @ Reading ms # ys" "k = length xs" by (rule split_job[OF assms(2) Reading])
  have "mail_seen now (Some i) (wp_state p)" if "closed i T (wp_state p)"
    using that assms(3,4) by (auto simp: mail_seen_def closed_def js_or_def)
  then show ?thesis
    using assms(1) by (cases ms) (auto simp: look_step_def x bounded_def under_way_def)
qed (use assms(1) in \<open>simp_all add: look_step_def\<close>)

lemma mark_bounded:
  assumes "bounded i T n p" "k < length (wp_jobs p)" "i \<noteq> []" "T \<le> now + month"
  shows "bounded i T n (mark_step w env now k p)"
proof (cases "wp_jobs p ! k")
  case (Looked m ms)
  obtain xs ys where x: "wp_jobs p = xs @ Looked m ms # ys" "k = length xs" by (rule split_job[OF assms(2) Looked])
  let ?q = "mark_step w env now k p"
  obtain s es ok where r: "mail_mark w env now m (wp_state p) = (s, es, ok)" by (metis prod.collapse)
  have q: "?q = p\<lparr>wp_state := s, wp_jobs := xs @ Marked now m ms # ys, wp_effects := wp_effects p @ es\<rparr>"
    by (simp add: mark_step_def r x)
  have f: "ws_keys s = ws_keys (markEmailSeen now (sy_id m) (wp_state p))" "answers i es = 0"
    using mark_fields(1)[of w env now m "wp_state p"] mark_fields(2)[of i w env now m "wp_state p"] by (simp_all add: r)
  have l: "length (wp_jobs ?q) = length (wp_jobs p)" "under_way i ?q = under_way i p" by (simp_all add: q x(1) under_way_def)
  show ?thesis
  proof (cases "sy_id m = Some i")
    case True
    then have "closed i T s"
      using assms unfolding bounded_def closed_def f(1) True mark_keys(1) by auto
    moreover have "answers i (wp_effects p) + under_way i p \<le> n"
      using assms(1) under_way_le[of i p] by (auto simp: bounded_def)
    ultimately show ?thesis using assms(1) l f(2) by (simp add: bounded_def) (simp add: q f(2))
  next
    case False
    then have "ws_keys s (email_key i) = ws_keys (wp_state p) (email_key i)" unfolding f(1) by (rule mark_keys(2)[OF _ assms(3)])
    then show ?thesis using assms(1) l False f(2) unfolding bounded_def closed_def by (auto simp: q x(1))
  qed
qed (use assms(1) in \<open>simp_all add: mark_step_def\<close>)

lemma post_bounded:
  assumes "bounded i T n p" "k < length (wp_jobs p)"
  shows "bounded i T n (post_step w env now k p)"
proof (cases "wp_jobs p ! k")
  case (Marked t m ms)
  obtain xs ys where x: "wp_jobs p = xs @ Marked t m ms # ys" "k = length xs" by (rule split_job[OF assms(2) Marked])
  obtain s es ok where r: "mail_post w env t now m (wp_state p) = (s, es, ok)" by (metis prod.collapse)
  have f: "ws_keys s = ws_keys (wp_state p)" "answers i es \<le> (if sy_id m = Some i then 1 else 0)"
    using post_fields(1)[of w env t now m "wp_state p"] post_fields(2)[of i w env t now m "wp_state p"] by (simp_all add: r)
  show ?thesis
    using assms(1) f by (cases ok) (auto simp: post_step_def r x bounded_def closed_def under_way_def split: if_splits)
qed (use assms(1) in \<open>simp_all add: post_step_def\<close>)

lemma send_rfq_fields: "ws_keys (fst (send_rfq w env now d st)) = ws_keys st" "answers i (fst (snd (send_rfq w env now d st))) = 0"
  "ws_contacts (fst (send_rfq w env now d st)) = ws_contacts st"
  by (auto simp: send_rfq_def split: prod.split)

lemma email_worker_fields:
  "ws_keys (fst (email_worker w env now job st)) = ws_keys st" "answers i (fst (snd (email_worker w env now job st))) = 0"
proof -
  have "ws_keys (fst (email_step w env now job st)) = ws_keys st \<and> answers i (fst (snd (email_step w env now job st))) = 0"
    by (cases job) (auto simp: email_step_def send_rfq_fields cabinet_job_def fallback_job_def find_and_request_def insert_contact_def
        Let_def enqueue_fields split: option.split prod.split sum.split)
  then show "ws_keys (fst (email_worker w env now job st)) = ws_keys st" "answers i (fst (snd (email_worker w env now job st))) = 0"
    by (auto simp: email_worker_def split: prod.split)
qed

lemma begin_bounded:
  assumes "bounded i T n p" "length (wp_jobs p) < n"
  shows "bounded i T n (begin_job w env now job p)"
proof (cases "\<exists>llm iw. job = Imap_sync llm iw")
  case True
  then obtain llm iw where job: "job = Imap_sync llm iw" by blast
  obtain r ms where s: "syncInboundMail (ww_mail w) env llm iw 30 now now (ws_mail (wp_state p)) = (r, ms)" by force
  show ?thesis using assms by (cases r) (auto simp: begin_job_def job s bounded_def closed_def under_way_def)
next
  case False
  obtain s es ok where r: "email_worker w env now job (wp_state p) = (s, es, ok)" by (metis prod.collapse)
  have "begin_job w env now job p = p\<lparr>wp_state := s, wp_effects := wp_effects p @ es\<rparr>"
    using False r by (cases job) (auto simp: begin_job_def)
  moreover have "ws_keys s = ws_keys (wp_state p)" "answers i es = 0"
    using email_worker_fields(1)[of w env now job "wp_state p"] email_worker_fields(2)[of i w env now job "wp_state p"] by (simp_all add: r)
  ultimately show ?thesis using assms(1) by (simp add: bounded_def closed_def under_way_def)
qed

fun move_time :: "worker_move \<Rightarrow> rat" where
  "move_time (Begin t _) = t"
| "move_time (Look t _) = t"
| "move_time (Mark t _) = t"
| "move_time (Post t _) = t"

lemma step_bounded:
  assumes "bounded i T n p" "i \<noteq> []" "move_time move < T" "T \<le> move_time move + month"
  shows "bounded i T n (pool_step w env n move p)"
  using assms by (cases move) (auto simp: pool_step_def begin_bounded look_bounded mark_bounded post_bounded)

text \<open>
  C21. A message is answered at most once by each of the jobs that run side by side. Let the worker run \<open>n\<close> jobs at a time (one
  in sequence, two as it is deployed), with their steps interleaved in any way within the month for which a message is
  remembered: however often a message with an identifier is read again, whatever the language model says and whichever jobs
  fail, at most \<open>n\<close> letters answer it when it was not known before.
\<close>

theorem client_answered_once:
  assumes "i \<noteq> []" "ws_keys st (email_key i) = None" "\<forall>move \<in> set moves. t0 \<le> move_time move \<and> move_time move < t0 + month"
  shows "answers i (wp_effects (pool_run w env n moves (idle_pool st))) \<le> n"
proof -
  have "bounded i (t0 + month) n (pool_run w env n moves p)" if "bounded i (t0 + month) n p" for p
    using that assms(3) by (induction moves arbitrary: p) (auto simp: pool_run_def step_bounded[OF _ assms(1)])
  moreover have "bounded i (t0 + month) n (idle_pool st)" using assms(2) by (simp add: bounded_def idle_pool_def)
  ultimately show ?thesis by (force simp: bounded_def)
qed

definition worker_demo_world :: worker_world where
  "worker_demo_world = \<lparr>ww_mail = mail_demo_world, ww_refuses = \<lambda>_. None,
     ww_gpt = \<lambda>_. Answered \<lparr>ga_deal = None, ga_replies = Some [js ''ok''], ga_fallback = None\<rparr>, ww_reprocess = \<lambda>_. Answered (),
     ww_fallback = \<lambda>_. Answered True, ww_browser = \<lambda>_ _ _ _. Not_installed, ww_deal = \<lambda>_. None,
     ww_fmt = \<lparr>cf_whole = \<lambda>_. [], cf_plain = \<lambda>_. [], cf_when = \<lambda>_. None, cf_digits = \<lambda>_. []\<rparr>, ww_partners = []\<rparr>"

definition worker_demo_state :: worker_state where
  "worker_demo_state = \<lparr>ws_mail = mail_demo_state, ws_keys = \<lambda>_. None, ws_quotes = [], ws_suppliers = [], ws_contacts = []\<rparr>"

definition worker_demo_box :: imap_world where
  "worker_demo_box = \<lparr>iw_connect = \<lambda>_. True, iw_unseen = Some [1], iw_fetch = \<lambda>_. Fetched (mail_demo_parsed\<lparr>pm_text := Some (ru ''tarif'')\<rparr>),
     iw_flag = \<lambda>_. False\<rparr>"

text \<open>A mailbox that never marks a message as seen, read by two jobs.\<close>

definition demo_overlap :: "worker_move list" where
  "demo_overlap = [Begin 0 (Imap_sync (\<lambda>_ _ _. None) worker_demo_box), Begin 60000 (Imap_sync (\<lambda>_ _ _. None) worker_demo_box),
     Look 60001 0, Look 60002 1, Mark 60003 0, Mark 60004 1, Post 60005 1, Post 60006 0]"

theorem client_answered_once_witness:
  "answers (js ''m1'') (wp_effects (pool_run worker_demo_world (mail_demo_env @ [(js ''IMAP_HOST'', js ''i'')]) 2 demo_overlap
     (idle_pool worker_demo_state))) \<le> 2"
  by (rule client_answered_once[of _ _ _ 0]) (simp_all add: worker_demo_state_def demo_overlap_def month_def js_def)

subsection \<open>Who is written to\<close>

text \<open>
  C23. A client is written to only about a freight request. Whatever the language model answers, a letter to a client, and
  with it a conversation that opens a deal, comes only from a mail that was not handled before, names no deal, is neither
  a newsletter nor a notice nor mail of a service provider, and scores as a request for a freight rate.
\<close>

theorem client_letter_needs_request:
  assumes "Client_letter i r \<in> set (fst (snd (handle_mail w env now m st)))"
  shows "\<not> mail_seen now (sy_id m) st \<and> \<not> has_ref m \<and> i = sy_id m \<and> cs_isCalc (calcRequestScore (sy_subject m) (sy_text m) None)
    \<and> (\<exists>a. preClassifyInboundMail a (sy_subject m) (sy_text m) (sy_headers m) False = None)"
proof -
  have s: "\<not> mail_seen now (sy_id m) st" using assms by (auto simp: handle_mail_def)
  then obtain s' where p: "Client_letter i r \<in> set (fst (snd (mail_post w env now now m s')))"
    using assms mark_fields(4)[of i r w env now m st] by (auto simp: handle_mail_def and_then_fields split: if_splits)
  then have t: "mail_way w env m = To_client" "i = sy_id m"
    by (auto simp: mail_post_def quote_post_def unparsed_post_def client_letter_def Let_def and_then_fields enqueue_fields
        split: mail_way.splits option.splits sum.splits prod.splits if_splits)
  have c: "mail_class w env m = Client_mail" "\<not> has_ref m" and i: "i = sy_id m"
    using t by (auto simp: mail_way_def Let_def split: if_splits option.splits)
  have o: "js_or (Some s) [] = s" for s by (simp add: js_or_def)
  have "classifyInboundMailWithGpt (ww_mail w) env (sy_from m) (Some (sy_subject m)) (Some (sy_text m)) (sy_headers m) False (sy_price m \<noteq> None)
      = Some Client_mail"
    using c(1,2) by (auto simp: mail_class_def split: option.splits if_splits)
  then have "cs_isCalc (calcRequestScore (sy_subject m) (sy_text m) None)
      \<and> preClassifyInboundMail (js_or (extractAddress (sy_from m)) (js_or (sy_from m) [])) (sy_subject m) (sy_text m) (sy_headers m) False = None"
    unfolding classifyInboundMailWithGpt_def Let_def o by (auto split: if_splits option.splits mail_kind.splits)
  then show ?thesis using s c(2) i by blast
qed

definition worker_demo_mail :: synced_mail where
  "worker_demo_mail = \<lparr>sy_id = Some (js ''m1''), sy_from = Some (js ''a@b.ru''), sy_subject = [], sy_text = ru ''tarif'', sy_deal = None,
     sy_price = None, sy_currency = None, sy_etaMin = None, sy_etaMax = None, sy_llm = False, sy_headers = \<lambda>_. None\<rparr>"

lemma worker_demo_way:
  "extractAddress (sy_from worker_demo_mail) = Some (js ''a@b.ru'')" "mail_way worker_demo_world mail_demo_env worker_demo_mail = To_client"
proof -
  have x: "extractAddress (Some (js ''a@b.ru'')) = Some (js ''a@b.ru'')"
    by (simp add: extractAddress_def ADDRESS_RE_def Let_def ll_def rx_eval js_text_eval js_or_def)
  have o: "js_or (Some (js ''a@b.ru'')) y = js ''a@b.ru''" "js_or (Some (ru ''tarif'')) y = ru ''tarif''" for y by (simp_all add: js_or_def js_def ru_def)
  have k: "openaiApiKey mail_demo_env = []" by (simp add: openaiApiKey_def env_trimmed_def mail_demo_get js_text_eval)
  have n: "\<not> system_notice (js ''a@b.ru'') [] (ru ''tarif'')"
    by (simp add: system_notice_def mail_domain_def js_toLowerCase_def mail_eval)
  have l: "js_toLowerCase (js ''a@b.ru'') = js ''a@b.ru''" by (simp add: js_text_eval)
  have g: "preClassifyInboundMail (js ''a@b.ru'') [] (ru ''tarif'') (\<lambda>_. None) False = None"
    using newsletter_of_request[OF tarif_is_request, of "js ''a@b.ru''" "\<lambda>_. None"] n not_bulk_no_headers tarif_is_request
    by (auto simp: preClassifyInboundMail_def Let_def l split: option.split)
  have "mail_class worker_demo_world mail_demo_env worker_demo_mail = Client_mail"
    using tarif_is_request g k
    by (simp add: mail_class_def worker_demo_world_def worker_demo_mail_def classifyInboundMailWithGpt_def Let_def has_ref_def x o)
  then show "mail_way worker_demo_world mail_demo_env worker_demo_mail = To_client"
    by (simp add: mail_way_def worker_demo_mail_def has_ref_def)
  show "extractAddress (sy_from worker_demo_mail) = Some (js ''a@b.ru'')" by (simp add: worker_demo_mail_def x)
qed

lemma worker_demo_letter:
  "\<exists>r. Client_letter (Some (js ''m1'')) r \<in> set (fst (snd (mail_post worker_demo_world mail_demo_env asked now worker_demo_mail st)))"
proof -
  have p: "processEmailWithGpt (ww_gpt worker_demo_world) env b (Some a) None sj key False
      = Inr \<lparr>ga_deal = None, ga_replies = Some [js ''ok''], ga_fallback = None\<rparr>" for env b a sj key
    by (simp add: processEmailWithGpt_def process_urls_def worker_demo_world_def)
  have m: "sy_id worker_demo_mail = Some (js ''m1'')" by (simp add: worker_demo_mail_def)
  show ?thesis
    by (auto simp: mail_post_def worker_demo_way client_letter_def m p gpt_replies_def Let_def and_then_fields split: prod.split)
qed

lemma worker_demo_answered:
  "\<exists>r. Client_letter (Some (js ''m1'')) r \<in> set (fst (snd (handle_mail worker_demo_world mail_demo_env 0 worker_demo_mail worker_demo_state)))"
proof -
  have "\<not> mail_seen 0 (sy_id worker_demo_mail) worker_demo_state" by (simp add: mail_seen_def worker_demo_state_def)
  then show ?thesis
    using worker_demo_letter[of 0 0 "fst (mail_mark worker_demo_world mail_demo_env 0 worker_demo_mail worker_demo_state)"] mark_fields(3)
    by (auto simp: handle_mail_def and_then_fields)
qed

theorem client_letter_needs_request_witness:
  "\<not> has_ref worker_demo_mail \<and> cs_isCalc (calcRequestScore (sy_subject worker_demo_mail) (sy_text worker_demo_mail) None)"
proof -
  obtain r where "Client_letter (Some (js ''m1'')) r \<in> set (fst (snd (handle_mail worker_demo_world mail_demo_env 0 worker_demo_mail worker_demo_state)))"
    using worker_demo_answered by blast
  from client_letter_needs_request[OF this] show ?thesis by blast
qed

lemma approved_insert: "\<not> mc_approved c \<Longrightarrow> approved_contact a (insert_contact c st) = approved_contact a st"
  by (auto simp: approved_contact_def insert_contact_def list_ex_iff filter_empty_conv split: list.splits)

lemma insert_holds: "\<not> approved_contact (mc_email c) st \<Longrightarrow> \<not> mc_approved c \<Longrightarrow>
    \<exists>x \<in> set (ws_contacts (insert_contact c st)). mc_email x = mc_email c \<and> \<not> mc_approved x"
  by (cases "filter (\<lambda>x. mc_email x = mc_email c) (ws_contacts st)")
    (auto simp: insert_contact_def approved_contact_def list_ex_iff filter_empty_conv filter_eq_Cons_iff)

lemma insert_keeps: "ws_mail (insert_contact c st) = ws_mail st" "ws_suppliers (insert_contact c st) = ws_suppliers st"
  by (simp_all add: insert_contact_def)

lemma approved_same: "ws_contacts st' = ws_contacts st \<Longrightarrow> approved_contact a st' = approved_contact a st"
  by (simp add: approved_contact_def)

text \<open>The worker approves of nobody.\<close>

lemma worker_approves_nobody:
  "approved_contact a (fst (email_worker w env now job st)) = approved_contact a st"
proof -
  have "approved_contact a (fst (email_step w env now job st)) = approved_contact a st"
    by (cases job) (auto simp: email_step_def send_rfq_fields cabinet_job_def fallback_job_def find_and_request_def Let_def enqueue_fields
        approved_insert intro!: approved_same split: option.split prod.split)
  then show ?thesis by (auto simp: email_worker_def split: prod.split)
qed

lemma pool_approves_nobody: "approved_contact a (wp_state (pool_step w env n move p)) = approved_contact a (wp_state p)"
proof (cases move)
  case (Begin now job)
  then show ?thesis
    using worker_approves_nobody[of a w env now job "wp_state p"]
    by (cases job) (auto simp: pool_step_def begin_job_def approved_contact_def split: prod.split option.split)
next
  case (Look now k)
  then show ?thesis by (auto simp: pool_step_def look_step_def split: reading.split list.split)
next
  case (Mark now k)
  have "ws_contacts s = ws_contacts (wp_state p)" if "mail_mark w env now m (wp_state p) = (s, es, ok)" for m s es ok
    using mark_fields(5)[of w env now m "wp_state p"] that by simp
  then show ?thesis using Mark by (auto simp: pool_step_def mark_step_def intro!: approved_same split: reading.split prod.split)
next
  case (Post now k)
  have "ws_contacts s = ws_contacts (wp_state p)" if "mail_post w env t now m (wp_state p) = (s, es, ok)" for t m s es ok
    using post_fields(3)[of w env t now m "wp_state p"] that by simp
  then show ?thesis using Post by (auto simp: pool_step_def post_step_def intro!: approved_same split: reading.split prod.split)
qed

text \<open>
  C22. The first letter to an address found on a website waits for a human. Let the list of trusted domains be set, and the
  address found on the supplier's site be of another domain and not approved. Whatever jobs the worker runs, side by side, the
  address stays unapproved (no job approves of anybody), and a job \<open>find_and_request\<close> at the end of them sends no letter, does
  not count as a request to the supplier, and when it is run the address stands among the contacts, not approved. (Jobs that
  name the address themselves do not look at the list: \<open>direct_request_unchecked\<close>.)
\<close>

theorem unknown_domain_waits:
  assumes "findEmailOnDomain (ww_mail w) (qe_website d) = Some addr" "whitelist env \<noteq> []" "mail_domain addr \<notin> set (whitelist env)"
    "\<not> approved_contact addr st" "p = pool_run w env n moves (idle_pool st)" "q = pool_step w env n (Begin now (Find_and_request d)) p"
  shows "(\<exists>es. wp_effects q = wp_effects p @ es \<and> (\<forall>r. Supplier_letter r \<notin> set es))
    \<and> ws_mail (wp_state q) = ws_mail (wp_state p) \<and> ws_suppliers (wp_state q) = ws_suppliers (wp_state p)
    \<and> \<not> approved_contact addr (wp_state q)
    \<and> (length (wp_jobs p) < n \<longrightarrow> (\<exists>c \<in> set (ws_contacts (wp_state q)). mc_email c = addr \<and> \<not> mc_approved c))"
proof -
  have "approved_contact addr (wp_state (pool_run w env n moves p)) = approved_contact addr (wp_state p)" for p
    by (induction moves arbitrary: p) (simp_all add: pool_run_def pool_approves_nobody)
  then have a: "\<not> approved_contact addr (wp_state p)" using assms(4,5) by (simp add: idle_pool_def)
  let ?c = "\<lparr>mc_email = addr, mc_domain = mail_domain addr, mc_verified = False, mc_approved = False, mc_source = qe_website d\<rparr>"
  let ?s = "insert_contact ?c (wp_state p)"
  let ?post = "enqueueChannel w (js ''alert'') (js ''info'') (formatPartnerEmailApproveStaff addr (qe_website d)) None
      (workerJobId (js ''partner-approve'') [Some addr]) ?s"
  have st: "email_step w env now (Find_and_request d) (wp_state p) = ?post"
    using assms(1-3) a by (simp add: email_step_def find_and_request_def Let_def)
  obtain e0 ok where e0: "?post = (?s, e0, ok)" using enqueue_fields(1)[of w _ _ _ _ _ ?s] by (metis prod.collapse)
  have "\<forall>r. Supplier_letter r \<notin> set e0" using enqueue_fields(4)[of _ w _ _ _ _ _ ?s] by (metis e0 fst_conv snd_conv)
  then obtain e where r: "email_worker w env now (Find_and_request d) (wp_state p) = (?s, e, ok)" "\<forall>r. Supplier_letter r \<notin> set e"
    using st e0 by (cases ok) (auto simp: email_worker_def)
  then have q: "q = (if length (wp_jobs p) < n then p\<lparr>wp_state := ?s, wp_effects := wp_effects p @ e\<rparr> else p)"
    unfolding assms(6) by (simp add: pool_step_def begin_job_def)
  show ?thesis using a approved_insert[of ?c addr "wp_state p"] insert_holds[of ?c "wp_state p"] r(2) by (simp add: q insert_keeps)
qed

theorem unknown_domain_waits_witness:
  "\<not> approved_contact (js ''a@b.ru'') (wp_state (pool_step (worker_demo_world\<lparr>ww_mail := mail_demo_world\<lparr>mw_page := \<lambda>_. Some (js ''<a@b.ru>'')\<rparr>\<rparr>)
     [(js ''EMAIL_WHITELIST_DOMAINS'', js ''c.ru'')] 2 (Begin 7 (Find_and_request (mail_demo_rfq\<lparr>qe_website := Some (js ''b.ru'')\<rparr>)))
     (pool_run (worker_demo_world\<lparr>ww_mail := mail_demo_world\<lparr>mw_page := \<lambda>_. Some (js ''<a@b.ru>'')\<rparr>\<rparr>)
       [(js ''EMAIL_WHITELIST_DOMAINS'', js ''c.ru'')] 2 demo_overlap (idle_pool worker_demo_state))))"
proof -
  let ?w = "worker_demo_world\<lparr>ww_mail := mail_demo_world\<lparr>mw_page := \<lambda>_. Some (js ''<a@b.ru>'')\<rparr>\<rparr>"
  let ?d = "mail_demo_rfq\<lparr>qe_website := Some (js ''b.ru'')\<rparr>"
  let ?env = "[(js ''EMAIL_WHITELIST_DOMAINS'', js ''c.ru'')]"
  have a: "findEmailOnDomain (ww_mail ?w) (qe_website ?d) = Some (js ''a@b.ru'')"
    by (simp add: findEmailOnDomain_def match_all.simps ADDRESS_RE_def Let_def ll_def rx_eval js_text_eval js_or_def)
  have l: "whitelist ?env = [js ''c.ru'']" by (simp add: whitelist_def env_or_def env_get_def js_text_eval js_or_def)
  have m: "mail_domain (js ''a@b.ru'') = js ''b.ru''" by (simp add: mail_domain_def js_def)
  have "whitelist ?env \<noteq> []" "mail_domain (js ''a@b.ru'') \<notin> set (whitelist ?env)" "\<not> approved_contact (js ''a@b.ru'') worker_demo_state"
    unfolding l m by (simp_all add: approved_contact_def worker_demo_state_def js_def)
  from unknown_domain_waits[OF a this refl refl] show ?thesis by blast
qed

text \<open>A request to an address that the job itself names goes out whatever the list of trusted domains and the approvals say.\<close>

lemma direct_request_unchecked:
  "\<exists>r. Supplier_letter r \<in> set (fst (snd (email_step w env now (Request_quote d) st)))"
  "\<exists>r. Supplier_letter r \<in> set (fst (snd (email_step w env now (Request_sourcing d) st)))"
  by (auto simp: email_step_def send_rfq_def split: prod.split)

subsection \<open>What goes wrong\<close>

text \<open>
  Two jobs that read at the same time both find the message unhandled, and both answer it: between the look at the entry of a
  message and its writing stands the call of the model.
\<close>

lemma overlapping_readings_answer_twice:
  "answers (js ''m1'') (wp_effects (pool_run worker_demo_world mail_demo_env 2
     [Look t1 0, Look t2 1, Mark t3 0, Mark t4 1, Post t5 1, Post t6 0]
     ((idle_pool worker_demo_state)\<lparr>wp_jobs := [Reading [worker_demo_mail], Reading [worker_demo_mail]]\<rparr>))) = 2"
proof -
  let ?m = "worker_demo_mail"
  have n: "\<not> mail_seen t (sy_id ?m) worker_demo_state" for t by (simp add: mail_seen_def worker_demo_state_def)
  have a: "\<exists>s' es' ok. mail_mark worker_demo_world mail_demo_env t ?m s = (s', es', ok) \<and> answers (js ''m1'') es' = 0" for t s
    using mark_fields(2) by (metis prod.collapse)
  have b: "\<exists>s' es' ok. mail_post worker_demo_world mail_demo_env t t' ?m s = (s', es', ok) \<and> answers (js ''m1'') es' = 1" for t t' s
  proof -
    obtain r where r: "Client_letter (Some (js ''m1'')) r \<in> set (fst (snd (mail_post worker_demo_world mail_demo_env t t' ?m s)))"
      using worker_demo_letter by blast
    then have "0 < answers (js ''m1'') (fst (snd (mail_post worker_demo_world mail_demo_env t t' ?m s)))"
      by (auto simp: answers_def filter_empty_conv intro!: bexI[of _ "Client_letter (Some (js ''m1'')) r"])
    then have "answers (js ''m1'') (fst (snd (mail_post worker_demo_world mail_demo_env t t' ?m s))) = 1"
      using post_fields(2)[of "js ''m1''" worker_demo_world mail_demo_env t t' ?m s] by (simp split: if_splits)
    then show ?thesis by (metis prod.collapse)
  qed
  obtain s1 e1 k1 where 1: "mail_mark worker_demo_world mail_demo_env t3 ?m worker_demo_state = (s1, e1, k1)" "answers (js ''m1'') e1 = 0" using a by blast
  obtain s2 e2 k2 where 2: "mail_mark worker_demo_world mail_demo_env t4 ?m s1 = (s2, e2, k2)" "answers (js ''m1'') e2 = 0" using a by blast
  obtain s3 e3 k3 where 3: "mail_post worker_demo_world mail_demo_env t4 t5 ?m s2 = (s3, e3, k3)" "answers (js ''m1'') e3 = 1" using b by blast
  obtain s4 e4 k4 where 4: "mail_post worker_demo_world mail_demo_env t3 t6 ?m s3 = (s4, e4, k4)" "answers (js ''m1'') e4 = 1" using b by blast
  show ?thesis
    by (simp add: pool_run_def pool_step_def look_step_def mark_step_def post_step_def idle_pool_def n 1 2 3 4 job_gone_def)
qed

text \<open>An exception at one mail loses the mails behind it, which the reader has already marked as seen.\<close>

lemma failed_mail_loses_rest:
  assumes "\<not> snd (snd (mail_post w env asked now m (wp_state p)))" "wp_jobs p = [Marked asked m ms]"
  shows "wp_jobs (post_step w env now 0 p) = []"
  using assms by (auto simp: post_step_def job_gone_def split: prod.split)

text \<open>A reply that cannot be sent is lost: the mail counts as handled.\<close>

lemma unsent_reply_lost:
  assumes "mail_way w env m = To_client" "\<not> snd (snd (handle_mail w env now m st))" "js_or (sy_id m) [] \<noteq> []"
    "ws_keys st (email_key (js_or (sy_id m) [])) = None" "t < now + month"
  shows "handle_mail w env t m (fst (handle_mail w env now m st)) = (fst (handle_mail w env now m st), [], True)"
proof -
  have "ws_keys (fst (handle_mail w env now m st)) = ws_keys (markEmailSeen now (sy_id m) st)"
    using assms(2) by (auto simp: handle_mail_def and_then_fields mark_fields post_fields split: if_splits)
  then have "mail_seen t (sy_id m) (fst (handle_mail w env now m st))"
    using assms by (simp add: mail_seen_def markEmailSeen_def Let_def)
  then show ?thesis by (simp add: handle_mail_def)
qed

text \<open>A client who quotes the number of the deal and names a sum is filed as a supplier's rate.\<close>

lemma client_sum_becomes_rate:
  assumes "mail_class w env m = Client_mail" "has_ref m" "sy_price m = Some p" "\<not> mail_seen now (sy_id m) st"
  shows "\<exists>q \<in> set (ws_quotes (fst (handle_mail w env now m st))). mr_deal q = js_or (sy_deal m) [] \<and> mr_price q = p \<and> mr_source q = js ''email_imap''"
  using assms mark_fields(3)
  by (auto simp: handle_mail_def mail_mark_def mail_post_def mail_way_def quote_mark_def quote_post_def Let_def and_then_fields enqueue_fields
      markEmailSeen_def reply_suppliers_def split: option.split)

text \<open>A request that is only printed counts as sent to the supplier.\<close>

lemma printed_request_counts:
  assumes "fst (emailRateOk env now (ws_mail st))" "fst (transporter (ww_mail w) env now now (snd (emailRateOk env now (ws_mail st)))) = No_transport"
    "\<not> mailRequiresSmtp env"
  shows "ws_suppliers (fst (send_rfq w env now d st)) = markSupplierRfqSent (ww_partners w) now (Some (qe_to d)) (ws_suppliers st)"
proof -
  obtain s1 where s1: "emailRateOk env now (ws_mail st) = (True, s1)" using assms(1) by (cases "emailRateOk env now (ws_mail st)") auto
  obtain s2 where "transporter (ww_mail w) env now now s1 = (No_transport, s2)" using assms(2) s1 by (cases "transporter (ww_mail w) env now now s1") auto
  then show ?thesis using s1 assms(3) by (simp add: send_rfq_def sendQuoteRequestEmail_def hand_over_def letter_went_def)
qed

text \<open>An expired entry is never renewed, so the message is no longer kept from being handled again.\<close>

lemma expired_key_not_renewed:
  assumes "ws_keys st (email_key i) = Some e" "e \<le> now" "i \<noteq> []"
  shows "markEmailSeen now (Some i) st = st \<and> \<not> mail_seen now (Some i) st"
  using assms by (simp add: markEmailSeen_def mail_seen_def js_or_def)

text \<open>A cabinet never names a price, so every cabinet request for a deal asks for the rates of the interfaces as well.\<close>

lemma cabinet_always_falls_back:
  assumes "js_or (cb_deal d) [] \<noteq> []"
  shows "\<exists>why. Asked_fallback (js_or (cb_deal d) []) why \<in> set (fst (snd (cabinet_job w env now d st)))"
  using assms cabinet_without_price by (auto simp: cabinet_job_def got_price_def Let_def split: prod.split)

end
