(* ===== verification/Spec2Isabelle.thy ===== *)
theory Spec2Isabelle
  imports CallFlow SipRegister SipCaller FakeTls MailRules PdfSimple ApiAuth Deals TgRouting MtProxy Staff SupplierQuality QuoteParse
    EnvConfig Media StaffListen StaffTopics StaffPeer StaffBot StaffHistory StaffCopy Gateway License
    Company Email Cabinet Worker
begin

text \<open>
  Verification of AutoLogistics OS, a logistics assistant that talks to clients on the telephone, in Telegram
  and by mail.

  The program. Clients reach the assistant through three gateways. The voice gateway
  (\<open>apps/voice-gateway\<close>) registers with a SIP operator, takes calls, plays the audio of a realtime language
  model to the caller and sends the caller's audio back. The Telegram gateway (\<open>apps/tg-gateway\<close>) runs user
  accounts over MTProto, through an MTProxy when needed. The mail worker (\<open>apps/workers-ts\<close>) sorts inbound
  mail and rates suppliers. The API (\<open>apps/api\<close>) holds deals, escalations, messages and staff accounts in
  PostgreSQL and serves the cabinet. \<open>packages/shared\<close> holds what several of them use.

  General theories.
  Prelude: streams, tables with update-where, bytes. JsNumber: IEEE doubles as rationals with rounding to
  nearest even. Bytes and HexText: little and big endian, base64, hexadecimal. JsString: UTF-16 strings,
  case, trim, split, \<open>Number(s)\<close>, decimal text. Regex: regular expressions of JavaScript as data, with a
  backtracking matcher and its soundness and completeness against the language they denote. SharedTypes:
  states, channels and policy of \<open>packages/shared/src/index.ts\<close>.

  Voice gateway.
  G711 and Resample (\<open>realtime/audio.ts\<close>): codecs, block and streaming rate conversion, line clean-up. The
  round trips of both codecs come from one locale of companding tables. The streaming converters are shown
  to be convolutions that do not depend on how the audio is cut.
  RtpPlayout (\<open>sip/calls.ts\<close>, the playout class): the 20 ms clock with its bounded buffer, an instance of a
  locale of bounded queues; order, bounds, idleness.
  SipConfig (\<open>sip/providers.ts\<close>, \<open>config.ts\<close>, \<open>hours.ts\<close>), SipRegister (\<open>sip/register.ts\<close>): the
  registrar as a machine over timers and the callbacks of the SIP stack, which may be called in any order and again and
  again; an answer or a timer is always awaited, and just one when no callback is called twice.
  SipCaller: caller identification. Sessions (\<open>sessions.ts\<close>): the two maps of live calls and the rows, an
  instance of a locale of stores. Bridge and CallFlow (\<open>realtime/bridge.ts\<close>, \<open>tools.ts\<close>, \<open>sip/calls.ts\<close>,
  \<open>transfer.ts\<close>, \<open>routes.ts\<close>): one call as a state and its handlers as functions on it; a run is a list of
  events, in which the connection, the tool calls, the REFERs and the queries that end a call are events of their own. The
  echo guard, the answering of tool calls, the silence and release of the call after the end of the dialog, and
  what goes wrong when a transfer is refused, when a caller hangs up early or when a response is silent.

  API.
  RateLimit (\<open>security.ts\<close>), ApiAuth (\<open>auth.ts\<close>, \<open>bootGuard.ts\<close>, the hooks of \<open>app.ts\<close>,
  \<open>routes/internal.ts\<close>, \<open>folders.ts\<close>): who is admitted, how often, passwords, document folders. Staff
  (\<open>auth.ts\<close>, \<open>routes/staff.ts\<close>, \<open>routes/auth.ts\<close>): accounts as a step relation; its invariant gives unique,
  normalised addresses, and from it that issued credentials admit their owner. Deals (\<open>routes/deals.ts\<close>,
  \<open>routes/escalations.ts\<close>, \<open>queues.ts\<close>): escalation, decision, approval of offers, messages. PdfSimple
  (\<open>packages/shared/src/pdfSimple.ts\<close>): the PDF writer and its cross-reference table.

  Telegram gateway.
  FakeTls (\<open>mtprotoFakeTls.ts\<close>): handshake, records and packets; the record reader is an instance of a locale
  of incremental parsers, so what is delivered does not depend on how the network cuts it. TgRouting
  (\<open>tgAccounts.ts\<close>, \<open>antiBan.ts\<close>, \<open>dedupe.ts\<close>, \<open>unreadCatchUp.ts\<close>, \<open>resumeOpenDeals.ts\<close>): which account
  serves a chat, how fast, and what is replayed after a restart. MtProxy (\<open>packages/shared/src/proxy.ts\<close>):
  proxy URLs, MTProxy secrets, the cached agent. Gateway (\<open>index.ts\<close>, \<open>channel.ts\<close>, \<open>userClient.ts\<close>): from a client's
  message to a job, from its answer to replies and alerts, from these to an account, the staff room and the director;
  identifiers of replies never collide, a reply leaves through the account that was written to, the director gets what
  is meant for the director, and what is lost on the way is listed.

  Staff room.
  EnvConfig (\<open>loadRootEnv.ts\<close>, \<open>openai.ts\<close>, \<open>logger.ts\<close>): the .env reader, its precedence and a round trip; log
  levels as a linear order. Media (\<open>media.ts\<close>, \<open>office.ts\<close>): what a message with a file reads as. StaffListen
  (\<open>staffListen.ts\<close>): three maps whose entries expire, two of them instances of a locale of claims, so that no
  message is handled twice and the robot does not hear itself. StaffTopics (\<open>staffTopics.ts\<close>): forum topics, found
  or created, and their numbers in the .env text. StaffPeer (\<open>staffPeer.ts\<close>): what a manager's text means, with two
  errors of its expressions. StaffBot (\<open>staffPeerGpt.ts\<close>, \<open>managementBot.ts\<close>): what the robot does about it, as a list
  of effects; who may cause them, when requests go to suppliers, and the agreement of commands, buttons and words.
  StaffHistory (\<open>staffHistoryIngest.ts\<close>, \<open>staffForumBootstrap.ts\<close>): old topics read page by page into the learning
  log; the paging ends, returns the newest messages, and each is logged once. StaffCopy (\<open>staffCopy.ts\<close>): the cards the
  staff reads; an answer to a card is found to be about its deal.

  Licence.
  License (\<open>packages/shared/src/license.ts\<close>): the stamp of the first installation, signed keys, the trial, and the check
  each service makes when it starts. A minted key is accepted until its term ends; a start that goes on was permitted by
  the trial or by a key signed with the secret of the issuer as it was when the module was loaded, which is before the
  file .env is read.

  Mail.
  MailRules (\<open>packages/shared/src/mailRules.ts\<close>): the classification rules with their regular expressions.
  QuoteParse (\<open>quoteParse.ts\<close>): price, transit time and validity read from a supplier's mail, with their
  ranges. SupplierQuality (\<open>supplierQuality.ts\<close>): requests, answers and automatic silencing, shown to work on each
  row alone. Email (\<open>email.ts\<close>): account, proxy, connections, the text of a request, what is hidden of the parties, the
  class of a mail and the reading of the mailbox; an answer to a request is filed under its deal. Cabinet (\<open>cabinet.ts\<close>,
  \<open>reprocess.ts\<close>): requests through the web cabinets of carriers and calls to the orchestrator. Worker (\<open>index.ts\<close>): the
  jobs of the e-mail queue over the tables they write; jobs that read mail run side by side, cut where they wait. A message
  is answered at most once by each of the jobs that run at a time, a client is written to about nothing but a request, and
  addresses found on unknown domains wait for an approval.
  Company (\<open>packages/shared/src/company.ts\<close>): the profile behind every signature.

  How the parts interact. Bridge calls back into the handler of the call, so CallFlow holds both in one
  record; Sessions is the registry that handler writes. ApiAuth runs after RateLimit in the order of the
  hooks and guards the routes of Deals and Staff. MtProxy yields the secret and domain that FakeTls is
  connected with. A message passes StaffListen, then StaffPeer and StaffBot; EnvConfig reads what StaffTopics
  writes. Gateway asks TgRouting for the account and the pace, Media for the text of a file, MtProxy for the ways of
  connecting and StaffCopy for the text of an alert. Worker runs Email, asks MailRules through it, and
  writes what SupplierQuality rates.

  Conventions. State is a record passed explicitly; errors are sums or options; a thrown exception that no
  handler catches is a flag or an outer \<open>None\<close>. A table is a list of rows in insertion order; SQL statements
  are the list functions they compute; generated identifiers and the time are arguments. In the voice gateway and in the
  reading of mail, asynchronous code is cut into steps where it awaits, and runs are lists of steps in any order; elsewhere one
  request or one message is one step.

  Bounds and fuel. The matcher of Regex bounds a repetition by the length of the text plus its lower bound,
  enough because an optional round must consume a character; completeness of the matcher is proved. The paging of StaffHistory is a partial
  function whose value exists whenever pages go back in time, which is proved. All other recursion is structural. The G.711 tables are evaluated over all 256 codes.

  Parameters. Digest signing, HMAC-SHA256, scrypt, JWT verification, \<open>JSON.parse\<close>, the calendar, the URL parser, sine and hyperbolic
  tangent, zod's check of an address, the queue's acceptance of a job, the hash of a text, the answers of Telegram, of mail servers, of the API to
  the bot, of the orchestrator and of the language model are arguments of the definitions; the few hypotheses about them
  (such as the length of a derived key) are in the theorems that need them.

  Not modelled. Wiring and I/O (entry points, SIP stack, database pool, OCR, file storage, Telegram
  client); prompts; listings and searches of the API, its file routes; constants of \<open>packages/shared\<close>; the web interface, the scripts and the Python services. Log lines and human-readable
  messages are left out throughout.
\<close>

end
